(* ===== verification/Rust_Prelude.thy ===== *)
theory Rust_Prelude
  imports Main "HOL-Library.Word" "HOL-Library.List_Lexorder" "HOL-Library.Char_ord"
begin

text \<open>
  The vocabulary every component shares: Rust's fixed-width integers with their checked and
  saturating operations, byte encodings of integers, the \<open>Result\<close> type with the \<open>?\<close> operator
  and the \<open>require!\<close>/\<open>ensure!\<close> macros, and the rule collections the component proofs use.
  Nothing here models a function of the repository; it models the parts of the Rust language
  and of its standard library that the repository's code uses.
\<close>

unbundle bit_operations_syntax

named_theorems result_iff \<open>when a fallible computation returns a value\<close>
named_theorems num_conv \<open>reading machine integers as natural numbers or integers\<close>

section \<open>Machine integers\<close>

type_synonym u8 = "8 word"
type_synonym u16 = "16 word"
type_synonym u32 = "32 word"
type_synonym u64 = "64 word"
type_synonym u128 = "128 word"

text \<open>Signed integers are words read with \<open>sint\<close> (two's complement).\<close>
type_synonym i32 = "32 word"
type_synonym i64 = "64 word"

subsection \<open>Unsigned operations\<close>

definition checked_add :: "'a::len word \<Rightarrow> 'a word \<Rightarrow> 'a word option" where
  "checked_add a b = (if unat a + unat b < 2 ^ LENGTH('a) then Some (a + b) else None)"

definition checked_sub :: "'a::len word \<Rightarrow> 'a word \<Rightarrow> 'a word option" where
  "checked_sub a b = (if unat b \<le> unat a then Some (a - b) else None)"

definition checked_mul :: "'a::len word \<Rightarrow> 'a word \<Rightarrow> 'a word option" where
  "checked_mul a b = (if unat a * unat b < 2 ^ LENGTH('a) then Some (a * b) else None)"

definition checked_div :: "'a::len word \<Rightarrow> 'a word \<Rightarrow> 'a word option" where
  "checked_div a b = (if b = 0 then None else Some (a div b))"

definition saturating_add :: "'a::len word \<Rightarrow> 'a word \<Rightarrow> 'a word" where
  "saturating_add a b = (if unat a + unat b < 2 ^ LENGTH('a) then a + b else - 1)"

definition saturating_sub :: "'a::len word \<Rightarrow> 'a word \<Rightarrow> 'a word" where
  "saturating_sub a b = (if unat b \<le> unat a then a - b else 0)"

definition saturating_mul :: "'a::len word \<Rightarrow> 'a word \<Rightarrow> 'a word" where
  "saturating_mul a b = (if unat a * unat b < 2 ^ LENGTH('a) then a * b else - 1)"

lemma unat_plus_exact:
  fixes a b :: "'a::len word"
  assumes "unat a + unat b < 2 ^ LENGTH('a)"
  shows "unat (a + b) = unat a + unat b"
  using assms by (simp add: unat_word_ariths)

lemma unat_mult_exact:
  fixes a b :: "'a::len word"
  assumes "unat a * unat b < 2 ^ LENGTH('a)"
  shows "unat (a * b) = unat a * unat b"
  using assms by (simp add: unat_word_ariths)

lemma unat_minus_exact:
  fixes a b :: "'a::len word"
  assumes "unat b \<le> unat a"
  shows "unat (a - b) = unat a - unat b"
  using assms by (simp add: unat_sub word_le_nat_alt)

lemma checked_add_Some [num_conv]:
  "checked_add a b = Some c \<longleftrightarrow>
     unat a + unat b < 2 ^ LENGTH('a) \<and> unat c = unat a + unat (b :: 'a::len word)"
  by (metis checked_add_def option.inject option.simps(3) unat_plus_exact word_unat_eq_iff)

lemma checked_sub_Some [num_conv]:
  "checked_sub a b = Some c \<longleftrightarrow> unat b \<le> unat a \<and> unat c = unat a - unat (b :: 'a::len word)"
  by (metis checked_sub_def option.inject option.simps(3) unat_minus_exact word_unat_eq_iff)

lemma checked_mul_Some [num_conv]:
  "checked_mul a b = Some c \<longleftrightarrow>
     unat a * unat b < 2 ^ LENGTH('a) \<and> unat c = unat a * unat (b :: 'a::len word)"
  by (metis checked_mul_def option.inject option.simps(3) unat_mult_exact word_unat_eq_iff)

lemma checked_div_Some [num_conv]:
  "checked_div a b = Some c \<longleftrightarrow> b \<noteq> 0 \<and> unat c = unat a div unat (b :: 'a::len word)"
  by (auto simp: checked_div_def unat_div word_unat_eq_iff)

lemma unat_saturating_add [num_conv]:
  "unat (saturating_add a b) = min (unat a + unat b) (2 ^ LENGTH('a) - 1)"
  for a b :: "'a::len word"
proof (cases "unat a + unat b < 2 ^ LENGTH('a)")
  case True
  then show ?thesis by (simp add: saturating_add_def unat_plus_exact)
next
  case False
  then show ?thesis by (simp add: saturating_add_def unsigned_minus_1_eq_mask mask_eq_exp_minus_1)
qed

lemma unat_saturating_sub [num_conv]: "unat (saturating_sub a b) = unat a - unat b"
  by (simp add: saturating_sub_def unat_minus_exact)

lemma unat_saturating_mul [num_conv]:
  "unat (saturating_mul a b) = min (unat a * unat b) (2 ^ LENGTH('a) - 1)"
  for a b :: "'a::len word"
proof (cases "unat a * unat b < 2 ^ LENGTH('a)")
  case True
  then show ?thesis by (simp add: saturating_mul_def unat_mult_exact)
next
  case False
  then show ?thesis by (simp add: saturating_mul_def unsigned_minus_1_eq_mask mask_eq_exp_minus_1)
qed

lemma unat_ucast_up: "LENGTH('a::len) \<le> LENGTH('b::len) \<Longrightarrow> unat (ucast (w :: 'a word) :: 'b word) = unat w"
proof -
  assume le: "LENGTH('a) \<le> LENGTH('b)"
  have "unat w < 2 ^ LENGTH('a)" by (rule unsigned_less)
  also have "\<dots> \<le> 2 ^ LENGTH('b)" using le by simp
  finally show ?thesis by (simp add: unsigned_ucast_eq take_bit_nat_eq_self_iff)
qed

subsection \<open>Signed operations\<close>

definition s_min :: "'a::len itself \<Rightarrow> int" where
  "s_min _ = - (2 ^ (LENGTH('a) - 1))"

definition s_max :: "'a::len itself \<Rightarrow> int" where
  "s_max _ = 2 ^ (LENGTH('a) - 1) - 1"

definition s_fits :: "'a::len itself \<Rightarrow> int \<Rightarrow> bool" where
  "s_fits t x \<longleftrightarrow> s_min t \<le> x \<and> x \<le> s_max t"

definition s_clamp :: "'a::len itself \<Rightarrow> int \<Rightarrow> int" where
  "s_clamp t x = max (s_min t) (min (s_max t) x)"

definition s_checked_add :: "'a::len word \<Rightarrow> 'a word \<Rightarrow> 'a word option" where
  "s_checked_add a b =
     (if s_fits TYPE('a) (sint a + sint b) then Some (word_of_int (sint a + sint b)) else None)"

definition s_saturating_add :: "'a::len word \<Rightarrow> 'a word \<Rightarrow> 'a word" where
  "s_saturating_add a b = word_of_int (s_clamp TYPE('a) (sint a + sint b))"

definition s_saturating_sub :: "'a::len word \<Rightarrow> 'a word \<Rightarrow> 'a word" where
  "s_saturating_sub a b = word_of_int (s_clamp TYPE('a) (sint a - sint b))"

lemma sint_word_of_int_fits [num_conv]:
  assumes "s_fits TYPE('a::len) x"
  shows "sint (word_of_int x :: 'a word) = x"
proof -
  have "- (2 ^ (LENGTH('a) - 1)) \<le> x" "x < 2 ^ (LENGTH('a) - 1)"
    using assms by (auto simp: s_fits_def s_min_def s_max_def)
  then show ?thesis
    by (simp add: sint_sbintrunc' signed_take_bit_int_eq_self)
qed

lemma s_fits_sint [simp]: "s_fits TYPE('a) (sint (a :: 'a::len word))"
  using sint_ge [of a] sint_lt [of a] by (simp add: s_fits_def s_min_def s_max_def)

lemma s_fits_clamp [simp]: "s_fits TYPE('a::len) (s_clamp TYPE('a) x)"
proof -
  have "(1::int) \<le> 2 ^ (LENGTH('a) - 1)" by simp
  then show ?thesis by (auto simp: s_fits_def s_clamp_def s_min_def s_max_def)
qed

lemma s_clamp_fits: "s_fits t x \<Longrightarrow> s_clamp t x = x"
  by (auto simp: s_fits_def s_clamp_def)

lemma s_checked_add_Some [num_conv]:
  "s_checked_add a b = Some c \<longleftrightarrow>
     s_fits TYPE('a) (sint a + sint b) \<and> sint c = sint a + sint (b :: 'a::len word)"
proof
  assume "s_checked_add a b = Some c"
  then have f: "s_fits TYPE('a) (sint a + sint b)"
    and c: "c = word_of_int (sint a + sint b)"
    by (auto simp: s_checked_add_def split: if_splits)
  show "s_fits TYPE('a) (sint a + sint b) \<and> sint c = sint a + sint b"
    unfolding c using f by (simp add: sint_word_of_int_fits [OF f] del: of_int_add)
next
  assume "s_fits TYPE('a) (sint a + sint b) \<and> sint c = sint a + sint b"
  then have f: "s_fits TYPE('a) (sint a + sint b)" and c: "sint a + sint b = sint c"
    by auto
  show "s_checked_add a b = Some c"
    using f unfolding s_checked_add_def c by simp
qed

lemma sint_saturating_add [num_conv]:
  "sint (s_saturating_add a b) = s_clamp TYPE('a) (sint a + sint (b :: 'a::len word))"
  unfolding s_saturating_add_def by (rule sint_word_of_int_fits) simp

lemma sint_saturating_sub [num_conv]:
  "sint (s_saturating_sub a b) = s_clamp TYPE('a) (sint a - sint (b :: 'a::len word))"
  unfolding s_saturating_sub_def by (rule sint_word_of_int_fits) simp

lemma s_saturating_add_0 [simp]: "s_saturating_add a 0 = a"
  by (simp add: s_saturating_add_def s_clamp_fits)

section \<open>Bytes\<close>

text \<open>Little-endian and big-endian encodings of an integer in \<open>n\<close> bytes.\<close>

type_synonym bytes = "u8 list"

fun le_encode :: "nat \<Rightarrow> nat \<Rightarrow> bytes" where
  "le_encode 0 x = []"
| "le_encode (Suc n) x = word_of_nat (x mod 256) # le_encode n (x div 256)"

fun le_decode :: "bytes \<Rightarrow> nat" where
  "le_decode [] = 0"
| "le_decode (b # bs) = unat b + 256 * le_decode bs"

definition be_encode :: "nat \<Rightarrow> nat \<Rightarrow> bytes" where
  "be_encode n x = rev (le_encode n x)"

definition be_decode :: "bytes \<Rightarrow> nat" where
  "be_decode bs = le_decode (rev bs)"

definition to_le_bytes :: "'a::len word \<Rightarrow> bytes" where
  "to_le_bytes w = le_encode (LENGTH('a) div 8) (unat w)"

definition from_le_bytes :: "bytes \<Rightarrow> 'a::len word" where
  "from_le_bytes bs = word_of_nat (le_decode bs)"

definition to_be_bytes :: "'a::len word \<Rightarrow> bytes" where
  "to_be_bytes w = be_encode (LENGTH('a) div 8) (unat w)"

definition from_be_bytes :: "bytes \<Rightarrow> 'a::len word" where
  "from_be_bytes bs = word_of_nat (be_decode bs)"

lemma length_le_encode [simp]: "length (le_encode n x) = n"
  by (induction n arbitrary: x) auto

lemma length_be_encode [simp]: "length (be_encode n x) = n"
  by (simp add: be_encode_def)

lemma le_decode_encode: "le_decode (le_encode n x) = x mod 256 ^ n"
proof (induction n arbitrary: x)
  case 0
  then show ?case by simp
next
  case (Suc n)
  have "unat (word_of_nat (x mod 256) :: u8) = x mod 256"
    by (simp add: unat_of_nat)
  with Suc show ?case by (simp add: mod_mult2_eq)
qed

lemma le_encode_decode: "le_encode (length bs) (le_decode bs) = bs"
proof (induction bs)
  case Nil
  then show ?case by simp
next
  case (Cons b bs)
  have b: "unat b < 256" using unsigned_less [of b, where ?'a = nat] by simp
  have "(unat b + 256 * le_decode bs) mod 256 = unat b"
    "(unat b + 256 * le_decode bs) div 256 = le_decode bs"
    using b by simp_all
  with Cons show ?case by simp
qed

lemma be_decode_encode: "be_decode (be_encode n x) = x mod 256 ^ n"
  by (simp add: be_decode_def be_encode_def le_decode_encode)

lemma pow256: "8 dvd n \<Longrightarrow> (256::nat) ^ (n div 8) = 2 ^ n"
proof -
  assume "8 dvd n"
  have "(256::nat) = 2 ^ 8" by simp
  then have "(256::nat) ^ (n div 8) = 2 ^ (8 * (n div 8))" by (simp add: power_mult)
  also have "8 * (n div 8) = n" using \<open>8 dvd n\<close> by simp
  finally show ?thesis .
qed

lemma from_to_le_bytes:
  assumes "8 dvd LENGTH('a::len)"
  shows "from_le_bytes (to_le_bytes (w :: 'a word)) = w"
  by (simp add: from_le_bytes_def to_le_bytes_def le_decode_encode pow256 [OF assms] unsigned_less)

lemma from_to_be_bytes:
  assumes "8 dvd LENGTH('a::len)"
  shows "from_be_bytes (to_be_bytes (w :: 'a word)) = w"
  by (simp add: from_be_bytes_def to_be_bytes_def be_decode_encode pow256 [OF assms] unsigned_less)

lemma length_to_le_bytes [simp]: "length (to_le_bytes (w :: 'a::len word)) = LENGTH('a) div 8"
  by (simp add: to_le_bytes_def)

lemma length_to_be_bytes [simp]: "length (to_be_bytes (w :: 'a::len word)) = LENGTH('a) div 8"
  by (simp add: to_be_bytes_def)

lemma to_be_bytes_inj:
  assumes "8 dvd LENGTH('a::len)" and "to_be_bytes (v :: 'a word) = to_be_bytes w"
  shows "v = w"
  using assms by (metis from_to_be_bytes)

text \<open>The bytes of a string; a \<open>string\<close> is the list of its UTF-8 bytes.\<close>

definition as_bytes :: "string \<Rightarrow> bytes" where
  "as_bytes s = map of_char s"

lemma length_as_bytes [simp]: "length (as_bytes s) = length s"
  by (simp add: as_bytes_def)

lemma as_bytes_append [simp]: "as_bytes (s @ t) = as_bytes s @ as_bytes t"
  by (simp add: as_bytes_def)

lemma of_char_u8_inject: "(of_char c :: u8) = of_char d \<longleftrightarrow> c = d"
proof
  assume "(of_char c :: u8) = of_char d"
  then have "unat (of_char c :: u8) = unat (of_char d :: u8)" by simp
  moreover have "unat (of_char c :: u8) = of_char c" for c
  proof -
    have "(of_char c :: u8) = word_of_nat (of_char c)" by (simp add: of_nat_of_char)
    moreover have "(of_char c :: nat) < 256" by simp
    ultimately show ?thesis by (simp add: unat_of_nat)
  qed
  ultimately have "(of_char c :: nat) = of_char d" by simp
  then show "c = d" by simp
qed simp

lemma as_bytes_inject [simp]: "as_bytes s = as_bytes t \<longleftrightarrow> s = t"
  by (auto simp: as_bytes_def of_char_u8_inject inj_map_eq_map inj_def)

text \<open>\<open>to_ascii_lowercase\<close> of one character.\<close>

definition ascii_lower :: "char \<Rightarrow> char" where
  "ascii_lower c = (if CHR ''A'' \<le> c \<and> c \<le> CHR ''Z'' then char_of (of_char c + 32 :: nat) else c)"

section \<open>Fallible computations\<close>

text \<open>
  A \<open>Result<T, E>\<close> is a value of the sum type \<open>'e + 'a\<close>, \<open>Inl\<close> for \<open>Err\<close>. \<open>rbind\<close> is the \<open>?\<close>
  operator, \<open>require\<close> the macro of that name (and \<open>anyhow::ensure!\<close>), \<open>ok_or\<close> the method.
\<close>

definition rbind :: "'e + 'a \<Rightarrow> ('a \<Rightarrow> 'e + 'b) \<Rightarrow> 'e + 'b" where
  "rbind m f = (case m of Inl e \<Rightarrow> Inl e | Inr x \<Rightarrow> f x)"

definition require :: "bool \<Rightarrow> 'e \<Rightarrow> 'e + unit" where
  "require c e = (if c then Inr () else Inl e)"

definition ok_or :: "'a option \<Rightarrow> 'e \<Rightarrow> 'e + 'a" where
  "ok_or m e = (case m of None \<Rightarrow> Inl e | Some x \<Rightarrow> Inr x)"

lemma rbind_simps [simp]: "rbind (Inl e) f = Inl e" "rbind (Inr x) f = f x"
  by (simp_all add: rbind_def)

lemma require_simps [simp]: "require True e = Inr ()" "require False e = Inl e"
  by (simp_all add: require_def)

lemma ok_or_simps [simp]: "ok_or None e = Inl e" "ok_or (Some x) e = Inr x"
  by (simp_all add: ok_or_def)

lemma rbind_Inr_iff [result_iff]: "rbind m f = Inr y \<longleftrightarrow> (\<exists>x. m = Inr x \<and> f x = Inr y)"
  by (cases m) auto

lemma rbind_Inl_iff: "rbind m f = Inl e \<longleftrightarrow> m = Inl e \<or> (\<exists>x. m = Inr x \<and> f x = Inl e)"
  by (cases m) auto

lemma require_Inr_iff [result_iff]: "require c e = Inr u \<longleftrightarrow> c"
  by (simp add: require_def)

lemma require_Inl_iff: "require c e = Inl e' \<longleftrightarrow> \<not> c \<and> e' = e"
  by (auto simp: require_def)

lemma ok_or_Inr_iff [result_iff]: "ok_or m e = Inr x \<longleftrightarrow> m = Some x"
  by (cases m) auto

lemma rbind_cong [fundef_cong]:
  "m = m' \<Longrightarrow> (\<And>x. m' = Inr x \<Longrightarrow> f x = g x) \<Longrightarrow> rbind m f = rbind m' g"
  by (cases m') auto

lemma Let_Inr_iff [result_iff]: "(let x = v in f x) = Inr w \<longleftrightarrow> f v = Inr w"
  by (simp add: Let_def)

definition is_ok :: "'e + 'a \<Rightarrow> bool" where
  "is_ok m \<longleftrightarrow> (case m of Inl _ \<Rightarrow> False | Inr _ \<Rightarrow> True)"

lemma is_ok_simps [simp]: "is_ok (Inr x)" "\<not> is_ok (Inl e)"
  by (simp_all add: is_ok_def)

lemma is_ok_iff: "is_ok m \<longleftrightarrow> (\<exists>x. m = Inr x)"
  by (cases m) auto

end
