(* ===== verification/Escrow.thy ===== *)
theory Escrow
  imports Rust_Prelude
begin

text \<open>
  The on-chain escrow program \<open>contracts/programs/cloudiy-escrow/src/lib.rs\<close>: a consumer locks
  USDC for a job, and the job is settled (\<open>release\<close>, \<open>release_verified\<close>) or refunded.

  The Solana runtime, the Anchor framework and the SPL token program are not part of the
  repository; what the program uses of them is the parameter \<open>runtime\<close>: address derivation and
  the two token instructions. The account checks Anchor generates are translated from the
  \<open>#[account(..)]\<close> attributes of the source, deserialisation first and constraints in field
  order. An instruction that returns an error changes nothing: the runtime rolls the whole
  transaction back.
\<close>

section \<open>Data\<close>

type_synonym pubkey = bytes

definition default_pubkey :: pubkey where
  "default_pubkey = replicate 32 0"

definition PROTOCOL_FEE_BPS :: u64 where
  "PROTOCOL_FEE_BPS = 400"

definition MAX_TIMEOUT_SECS :: i64 where
  "MAX_TIMEOUT_SECS = 30 * 24 * 60 * 60"

text \<open>The base58 constants of the source, decoded.\<close>

definition FEE_AUTHORITY :: pubkey where
  "FEE_AUTHORITY = [234, 140, 73, 118, 34, 22, 148, 201, 241, 194, 208, 247, 21, 58, 154, 224,
     66, 147, 5, 127, 140, 196, 228, 87, 183, 56, 219, 86, 65, 148, 74, 56]"

definition ED25519_PROGRAM_ID :: pubkey where
  "ED25519_PROGRAM_ID = [3, 125, 70, 214, 124, 147, 251, 190, 18, 249, 66, 143, 131, 141, 64,
     255, 5, 112, 116, 73, 39, 244, 138, 100, 252, 202, 112, 68, 128, 0, 0, 0]"

definition RESULT_DOMAIN :: bytes where
  "RESULT_DOMAIN = as_bytes ''cloudiy/result/v2''"

definition CHALLENGE_WINDOW_SECS :: i64 where
  "CHALLENGE_WINDOW_SECS = 0"

definition CHALLENGE_AUTHORITY :: pubkey where
  "CHALLENGE_AUTHORITY = FEE_AUTHORITY"

datatype job_state = Active | Released | Refunded

record job =
  job_id :: bytes
  job_consumer :: pubkey
  job_provider :: pubkey
  job_mint :: pubkey
  job_amount :: u64
  job_deadline :: i64
  job_state :: job_state
  job_bump :: u8
  job_provider_node_key :: pubkey
  job_storage_payee :: pubkey
  job_storage_bps :: u16
  job_author_payee :: pubkey
  job_author_bps :: u16
  job_created_at :: i64

datatype escrow_error =
    InvalidAmount | TimeoutTooShort | TimeoutTooLong | NotActive | MintMismatch | OwnerMismatch
  | RefundNotAllowed | MathOverflow | MissingSignature | BadSignature | WrongSigner
  | SplitTooLarge | MissingPayee | ChallengeWindowOpen

text \<open>An instruction fails with an error of the program, of Anchor, or of the token program.\<close>

datatype program_error =
    EscrowErr escrow_error | AccountInUse | AccountNotInitialized | ConstraintSeeds
  | ConstraintAddress | TokenProgramError

datatype event =
    JobCreated pubkey bytes pubkey pubkey u64 i64
  | JobReleased pubkey bytes u64 u64 u64 u64
  | JobRefunded pubkey bytes u64

section \<open>The runtime the program is called by\<close>

record token_account =
  ta_mint :: pubkey
  ta_owner :: pubkey
  ta_amount :: u64
  ta_frozen :: bool

type_synonym tokens = "pubkey \<Rightarrow> token_account option"

text \<open>
  \<open>rt_transfer tk from to authority amount\<close> and \<open>rt_close tk account destination authority\<close> are
  the token program's instructions; \<open>rt_find_pda\<close> is \<open>find_program_address\<close> and \<open>rt_create_pda\<close>
  is \<open>create_program_address\<close> for this program's id; \<open>rt_instructions_id\<close> is the address of the
  instructions sysvar, and \<open>rt_can_sign k\<close> says that somebody holds a private key for \<open>k\<close>.
\<close>

record runtime =
  rt_find_pda :: "bytes list \<Rightarrow> pubkey \<times> u8"
  rt_create_pda :: "bytes list \<Rightarrow> pubkey option"
  rt_transfer :: "tokens \<Rightarrow> pubkey \<Rightarrow> pubkey \<Rightarrow> pubkey \<Rightarrow> u64 \<Rightarrow> tokens option"
  rt_instructions_id :: pubkey
  rt_can_sign :: "pubkey \<Rightarrow> bool"
  rt_close :: "tokens \<Rightarrow> pubkey \<Rightarrow> pubkey \<Rightarrow> pubkey \<Rightarrow> tokens option"

record instruction =
  ix_program_id :: pubkey
  ix_data :: bytes

record world =
  w_jobs :: "pubkey \<Rightarrow> job option"
  w_tokens :: tokens
  w_mints :: "pubkey \<Rightarrow> bool"
  w_now :: i64
  w_events :: "event list"

definition job_seeds :: "pubkey \<Rightarrow> bytes \<Rightarrow> bytes list" where
  "job_seeds consumer jid = [as_bytes ''job'', consumer, jid]"

definition vault_seeds :: "pubkey \<Rightarrow> bytes list" where
  "vault_seeds job = [as_bytes ''vault'', job]"

section \<open>Creating a job\<close>

record create_ctx =
  cc_consumer :: pubkey
  cc_provider :: pubkey
  cc_mint :: pubkey
  cc_job :: pubkey
  cc_vault :: pubkey
  cc_consumer_token :: pubkey

definition lookup_token :: "world \<Rightarrow> pubkey \<Rightarrow> program_error + token_account" where
  "lookup_token w k = ok_or (w_tokens w k) AccountNotInitialized"

text \<open>
  The checks of \<open>CreateJob\<close>: the job and the vault are initialised at their derived addresses
  (the bump of the job's address is kept), and the consumer's token account holds the mint.
  The vault is created empty, with the job as its authority.
\<close>

definition check_create_accounts ::
  "runtime \<Rightarrow> create_ctx \<Rightarrow> bytes \<Rightarrow> world \<Rightarrow> program_error + u8 \<times> world" where
  "check_create_accounts rt cx jid w =
     rbind (require (w_mints w (cc_mint cx)) AccountNotInitialized) (\<lambda>_.
     rbind (require (fst (rt_find_pda rt (job_seeds (cc_consumer cx) jid)) = cc_job cx)
              ConstraintSeeds) (\<lambda>_.
     rbind (require (w_jobs w (cc_job cx) = None) AccountInUse) (\<lambda>_.
     rbind (require (fst (rt_find_pda rt (vault_seeds (cc_job cx))) = cc_vault cx)
              ConstraintSeeds) (\<lambda>_.
     rbind (require (w_tokens w (cc_vault cx) = None) AccountInUse) (\<lambda>_.
     rbind (lookup_token w (cc_consumer_token cx)) (\<lambda>ct.
     rbind (require (ta_mint ct = cc_mint cx) (EscrowErr MintMismatch)) (\<lambda>_.
     rbind (require (ta_owner ct = cc_consumer cx) (EscrowErr OwnerMismatch)) (\<lambda>_.
       Inr (snd (rt_find_pda rt (job_seeds (cc_consumer cx) jid)),
            w\<lparr>w_tokens := (w_tokens w)(cc_vault cx \<mapsto>
               \<lparr>ta_mint = cc_mint cx, ta_owner = cc_job cx, ta_amount = 0, ta_frozen = False\<rparr>)\<rparr>)))))))))"

text \<open>The body of \<open>init_job\<close>: validate, record the job, move the funds into the vault.\<close>

definition validate_split :: "u16 \<Rightarrow> pubkey \<Rightarrow> u16 \<Rightarrow> pubkey \<Rightarrow> program_error + unit" where
  "validate_split storage_bps storage_payee author_bps author_payee =
     rbind (ok_or (Option.bind (checked_add PROTOCOL_FEE_BPS (ucast storage_bps))
                     (\<lambda>v. checked_add v (ucast author_bps)))
              (EscrowErr MathOverflow)) (\<lambda>split_bps.
     rbind (require (split_bps < 10000) (EscrowErr SplitTooLarge)) (\<lambda>_.
     rbind (require (storage_bps = 0 \<or> storage_payee \<noteq> default_pubkey) (EscrowErr MissingPayee)) (\<lambda>_.
     require (author_bps = 0 \<or> author_payee \<noteq> default_pubkey) (EscrowErr MissingPayee))))"

definition init_job ::
  "runtime \<Rightarrow> create_ctx \<Rightarrow> bytes \<Rightarrow> u64 \<Rightarrow> i64 \<Rightarrow> pubkey \<Rightarrow> pubkey \<Rightarrow> u16 \<Rightarrow> pubkey \<Rightarrow> u16 \<Rightarrow>
   world \<Rightarrow> program_error + world" where
  "init_job rt cx jid amount timeout_secs node_key storage_payee storage_bps author_payee author_bps w0 =
     rbind (check_create_accounts rt cx jid w0) (\<lambda>(bump, w).
     rbind (require (0 < amount) (EscrowErr InvalidAmount)) (\<lambda>_.
     rbind (require (60 \<le> sint timeout_secs) (EscrowErr TimeoutTooShort)) (\<lambda>_.
     rbind (require (sint timeout_secs \<le> sint MAX_TIMEOUT_SECS) (EscrowErr TimeoutTooLong)) (\<lambda>_.
     rbind (validate_split storage_bps storage_payee author_bps author_payee) (\<lambda>_.
     rbind (ok_or (s_checked_add (w_now w) timeout_secs) (EscrowErr MathOverflow)) (\<lambda>deadline.
     let j = \<lparr>job_id = jid, job_consumer = cc_consumer cx, job_provider = cc_provider cx,
              job_mint = cc_mint cx, job_amount = amount, job_deadline = deadline,
              job_state = Active, job_bump = bump, job_provider_node_key = node_key,
              job_storage_payee = storage_payee, job_storage_bps = storage_bps,
              job_author_payee = author_payee, job_author_bps = author_bps,
              job_created_at = w_now w\<rparr> in
     rbind (ok_or (rt_transfer rt (w_tokens w) (cc_consumer_token cx) (cc_vault cx)
                     (cc_consumer cx) amount) TokenProgramError) (\<lambda>tk.
     Inr (w\<lparr>w_jobs := (w_jobs w)(cc_job cx \<mapsto> j), w_tokens := tk,
            w_events := w_events w @
              [JobCreated (cc_job cx) jid (cc_consumer cx) (cc_provider cx) amount deadline]\<rparr>))))))))"

definition create_job ::
  "runtime \<Rightarrow> create_ctx \<Rightarrow> bytes \<Rightarrow> u64 \<Rightarrow> i64 \<Rightarrow> pubkey \<Rightarrow> world \<Rightarrow> program_error + world" where
  "create_job rt cx jid amount timeout_secs node_key w =
     init_job rt cx jid amount timeout_secs node_key default_pubkey 0 default_pubkey 0 w"

definition create_job_split ::
  "runtime \<Rightarrow> create_ctx \<Rightarrow> bytes \<Rightarrow> u64 \<Rightarrow> i64 \<Rightarrow> pubkey \<Rightarrow> pubkey \<Rightarrow> u16 \<Rightarrow> pubkey \<Rightarrow> u16 \<Rightarrow>
   world \<Rightarrow> program_error + world" where
  "create_job_split rt cx jid amount timeout_secs node_key storage_payee storage_bps
       author_payee author_bps w =
     init_job rt cx jid amount timeout_secs node_key storage_payee storage_bps
       author_payee author_bps w"

section \<open>Settlement\<close>

record job_split =
  split_provider :: u64
  split_fee :: u64
  split_storage :: u64
  split_author :: u64

definition cut :: "u64 \<Rightarrow> u64 \<Rightarrow> program_error + u64" where
  "cut amount bps =
     ok_or (Option.bind (checked_mul amount bps) (\<lambda>v. checked_div v 10000)) (EscrowErr MathOverflow)"

text \<open>The arithmetic at the head of \<open>settle\<close>.\<close>

definition compute_split :: "job \<Rightarrow> program_error + job_split" where
  "compute_split j =
     rbind (cut (job_amount j) PROTOCOL_FEE_BPS) (\<lambda>fee.
     rbind (cut (job_amount j) (ucast (job_storage_bps j))) (\<lambda>storage.
     rbind (cut (job_amount j) (ucast (job_author_bps j))) (\<lambda>author.
     rbind (ok_or (Option.bind (checked_sub (job_amount j) fee) (\<lambda>v.
                   Option.bind (checked_sub v storage) (\<lambda>v. checked_sub v author)))
              (EscrowErr MathOverflow)) (\<lambda>provider.
     rbind (require (0 < provider) (EscrowErr SplitTooLarge)) (\<lambda>_.
     Inr \<lparr>split_provider = provider, split_fee = fee, split_storage = storage,
          split_author = author\<rparr>)))))"

definition pay :: "runtime \<Rightarrow> pubkey \<Rightarrow> pubkey \<Rightarrow> pubkey \<Rightarrow> u64 \<Rightarrow> tokens \<Rightarrow> program_error + tokens" where
  "pay rt vault job to amt tk =
     (if amt = 0 then Inr tk else ok_or (rt_transfer rt tk vault to job amt) TokenProgramError)"

definition pay_opt ::
  "runtime \<Rightarrow> pubkey \<Rightarrow> pubkey \<Rightarrow> pubkey option \<Rightarrow> u64 \<Rightarrow> tokens \<Rightarrow> program_error + tokens" where
  "pay_opt rt vault job to amt tk =
     (case to of None \<Rightarrow> Inr tk | Some t \<Rightarrow> pay rt vault job t amt tk)"

definition settle ::
  "runtime \<Rightarrow> pubkey \<Rightarrow> job \<Rightarrow> pubkey \<Rightarrow> pubkey \<Rightarrow> pubkey \<Rightarrow> pubkey option \<Rightarrow> pubkey option \<Rightarrow> pubkey \<Rightarrow>
   tokens \<Rightarrow> program_error + job_split \<times> tokens" where
  "settle rt jk j vault provider_token fee_token storage_token author_token close_dest tk0 =
     rbind (compute_split j) (\<lambda>sp.
     rbind (require (job_storage_bps j = 0 \<or> storage_token \<noteq> None) (EscrowErr MissingPayee)) (\<lambda>_.
     rbind (require (job_author_bps j = 0 \<or> author_token \<noteq> None) (EscrowErr MissingPayee)) (\<lambda>_.
     rbind (pay rt vault jk provider_token (split_provider sp) tk0) (\<lambda>tk1.
     rbind (pay rt vault jk fee_token (split_fee sp) tk1) (\<lambda>tk2.
     rbind (pay_opt rt vault jk storage_token (split_storage sp) tk2) (\<lambda>tk3.
     rbind (pay_opt rt vault jk author_token (split_author sp) tk3) (\<lambda>tk4.
     rbind (ok_or (rt_close rt tk4 vault close_dest jk) TokenProgramError) (\<lambda>tk5.
     Inr (sp, tk5)))))))))"

subsection \<open>\<open>release\<close>\<close>

record release_ctx =
  rc_consumer :: pubkey
  rc_job :: pubkey
  rc_vault :: pubkey
  rc_provider_token :: pubkey
  rc_fee_token :: pubkey
  rc_storage_token :: "pubkey option"
  rc_author_token :: "pubkey option"

definition lookup_job :: "world \<Rightarrow> pubkey \<Rightarrow> program_error + job" where
  "lookup_job w k = ok_or (w_jobs w k) AccountNotInitialized"

definition check_job_address :: "runtime \<Rightarrow> pubkey \<Rightarrow> job \<Rightarrow> program_error + unit" where
  "check_job_address rt jk j =
     require (rt_create_pda rt (job_seeds (job_consumer j) (job_id j) @ [[job_bump j]]) = Some jk)
       ConstraintSeeds"

definition check_vault_address :: "runtime \<Rightarrow> pubkey \<Rightarrow> pubkey \<Rightarrow> program_error + unit" where
  "check_vault_address rt jk vault =
     require (fst (rt_find_pda rt (vault_seeds jk)) = vault) ConstraintSeeds"

definition check_payee :: "world \<Rightarrow> pubkey \<Rightarrow> pubkey \<Rightarrow> pubkey \<Rightarrow> program_error + unit" where
  "check_payee w k mint ow =
     rbind (lookup_token w k) (\<lambda>t.
     rbind (require (ta_mint t = mint) (EscrowErr MintMismatch)) (\<lambda>_.
     require (ta_owner t = ow) (EscrowErr OwnerMismatch)))"

definition check_opt_payee :: "world \<Rightarrow> pubkey option \<Rightarrow> pubkey \<Rightarrow> pubkey \<Rightarrow> program_error + unit" where
  "check_opt_payee w k mint ow = (case k of None \<Rightarrow> Inr () | Some k \<Rightarrow> check_payee w k mint ow)"

text \<open>The constraints \<open>Release\<close> and \<open>ReleaseVerified\<close> share.\<close>

definition check_release_accounts ::
  "runtime \<Rightarrow> 'a release_ctx_scheme \<Rightarrow> world \<Rightarrow> program_error + job" where
  "check_release_accounts rt cx w =
     rbind (lookup_job w (rc_job cx)) (\<lambda>j.
     rbind (lookup_token w (rc_vault cx)) (\<lambda>_.
     rbind (require (rc_consumer cx = job_consumer j) (EscrowErr OwnerMismatch)) (\<lambda>_.
     rbind (check_job_address rt (rc_job cx) j) (\<lambda>_.
     rbind (check_vault_address rt (rc_job cx) (rc_vault cx)) (\<lambda>_.
     rbind (check_payee w (rc_provider_token cx) (job_mint j) (job_provider j)) (\<lambda>_.
     rbind (check_payee w (rc_fee_token cx) (job_mint j) FEE_AUTHORITY) (\<lambda>_.
     rbind (check_opt_payee w (rc_storage_token cx) (job_mint j) (job_storage_payee j)) (\<lambda>_.
     rbind (check_opt_payee w (rc_author_token cx) (job_mint j) (job_author_payee j)) (\<lambda>_.
     Inr j)))))))))"

text \<open>
  The common tail of the two handlers. \<open>job.state\<close> is set and, by the attribute
  \<open>close = consumer\<close>, the account is removed when the instruction exits.
\<close>

definition finish_release ::
  "runtime \<Rightarrow> 'a release_ctx_scheme \<Rightarrow> job \<Rightarrow> world \<Rightarrow> program_error + world" where
  "finish_release rt cx j w =
     rbind (settle rt (rc_job cx) j (rc_vault cx) (rc_provider_token cx) (rc_fee_token cx)
              (rc_storage_token cx) (rc_author_token cx) (rc_consumer cx) (w_tokens w))
       (\<lambda>(sp, tk).
     Inr (w\<lparr>w_jobs := ((w_jobs w)(rc_job cx \<mapsto> j\<lparr>job_state := Released\<rparr>))(rc_job cx := None),
            w_tokens := tk,
            w_events := w_events w @
              [JobReleased (rc_job cx) (job_id j) (split_provider sp) (split_fee sp)
                 (split_storage sp) (split_author sp)]\<rparr>))"

definition check_settleable :: "job \<Rightarrow> world \<Rightarrow> program_error + unit" where
  "check_settleable j w =
     rbind (require (job_state j = Active) (EscrowErr NotActive)) (\<lambda>_.
     require (sint (s_saturating_add (job_created_at j) CHALLENGE_WINDOW_SECS) \<le> sint (w_now w))
       (EscrowErr ChallengeWindowOpen))"

text \<open>\<open>rc_consumer\<close> is the transaction's signer here.\<close>

definition release :: "runtime \<Rightarrow> release_ctx \<Rightarrow> world \<Rightarrow> program_error + world" where
  "release rt cx w =
     rbind (check_release_accounts rt cx w) (\<lambda>j.
     rbind (check_settleable j w) (\<lambda>_.
     finish_release rt cx j w))"

subsection \<open>\<open>release_verified\<close>\<close>

definition HEX :: bytes where
  "HEX = as_bytes ''0123456789abcdef''"

fun uuid_loop :: "nat \<Rightarrow> bytes \<Rightarrow> bytes" where
  "uuid_loop i [] = []"
| "uuid_loop i (b # bs) =
     (if i = 4 \<or> i = 6 \<or> i = 8 \<or> i = 10 then [0x2d] else [])
       @ [HEX ! unat (drop_bit 4 b), HEX ! unat (b AND 0x0f)] @ uuid_loop (i + 1) bs"

definition uuid_string :: "bytes \<Rightarrow> bytes" where
  "uuid_string bs = uuid_loop 0 bs"

definition result_message :: "bytes \<Rightarrow> bytes \<Rightarrow> bytes \<Rightarrow> bytes" where
  "result_message jid input_hash output_hash =
     RESULT_DOMAIN @ [0] @ uuid_string jid @ [0] @ input_hash @ [0] @ output_hash"

definition u16_at :: "bytes \<Rightarrow> nat \<Rightarrow> u16" where
  "u16_at d o' = from_le_bytes [d ! o', d ! (o' + 1)]"

definition slice :: "bytes \<Rightarrow> nat \<Rightarrow> nat \<Rightarrow> bytes" where
  "slice d a b = take (b - a) (drop a d)"

text \<open>\<open>load_instruction_at_checked(0, _)\<close> reads the transaction's first instruction.\<close>

definition verify_ed25519 :: "instruction list \<Rightarrow> bytes \<Rightarrow> bytes \<Rightarrow> program_error + unit" where
  "verify_ed25519 ixs expected_pubkey expected_message =
     rbind (case ixs of [] \<Rightarrow> Inl (EscrowErr MissingSignature) | ix # _ \<Rightarrow> Inr ix) (\<lambda>ix.
     rbind (require (ix_program_id ix = ED25519_PROGRAM_ID) (EscrowErr MissingSignature)) (\<lambda>_.
     let d = ix_data ix in
     rbind (require (16 \<le> length d \<and> d ! 0 = 1) (EscrowErr BadSignature)) (\<lambda>_.
     let pk_off = unat (u16_at d 6); msg_off = unat (u16_at d 10); msg_size = unat (u16_at d 12) in
     rbind (require (u16_at d 4 = 0xFFFF \<and> u16_at d 8 = 0xFFFF \<and> u16_at d 14 = 0xFFFF)
              (EscrowErr BadSignature)) (\<lambda>_.
     rbind (require (pk_off + 32 \<le> length d) (EscrowErr BadSignature)) (\<lambda>_.
     rbind (require (msg_off + msg_size \<le> length d) (EscrowErr BadSignature)) (\<lambda>_.
     rbind (require (slice d pk_off (pk_off + 32) = expected_pubkey) (EscrowErr WrongSigner)) (\<lambda>_.
     require (slice d msg_off (msg_off + msg_size) = expected_message)
       (EscrowErr BadSignature))))))))"

record release_verified_ctx = release_ctx +
  rv_payer :: pubkey
  rv_instructions :: pubkey

text \<open>\<open>ixs\<close> are the instructions of the transaction, read through the sysvar account.\<close>

definition release_verified ::
  "runtime \<Rightarrow> instruction list \<Rightarrow> release_verified_ctx \<Rightarrow> bytes \<Rightarrow> bytes \<Rightarrow> world \<Rightarrow>
   program_error + world" where
  "release_verified rt ixs cx input_hash output_hash w =
     rbind (check_release_accounts rt cx w) (\<lambda>j.
     rbind (require (rv_instructions cx = rt_instructions_id rt) ConstraintAddress) (\<lambda>_.
     rbind (check_settleable j w) (\<lambda>_.
     rbind (verify_ed25519 ixs (job_provider_node_key j)
              (result_message (job_id j) input_hash output_hash)) (\<lambda>_.
     finish_release rt cx j w))))"

section \<open>Refund\<close>

record refund_ctx =
  fc_signer :: pubkey
  fc_consumer :: pubkey
  fc_job :: pubkey
  fc_vault :: pubkey
  fc_consumer_token :: pubkey

definition check_refund_accounts ::
  "runtime \<Rightarrow> refund_ctx \<Rightarrow> world \<Rightarrow> program_error + job" where
  "check_refund_accounts rt cx w =
     rbind (lookup_job w (fc_job cx)) (\<lambda>j.
     rbind (lookup_token w (fc_vault cx)) (\<lambda>_.
     rbind (require (fc_consumer cx = job_consumer j) (EscrowErr OwnerMismatch)) (\<lambda>_.
     rbind (check_job_address rt (fc_job cx) j) (\<lambda>_.
     rbind (check_vault_address rt (fc_job cx) (fc_vault cx)) (\<lambda>_.
     rbind (check_payee w (fc_consumer_token cx) (job_mint j) (job_consumer j)) (\<lambda>_.
     Inr j))))))"

definition refund_allowed :: "pubkey \<Rightarrow> i64 \<Rightarrow> job \<Rightarrow> bool" where
  "refund_allowed signer_key now j \<longleftrightarrow>
     (let provider_cancel = (signer_key = job_provider j);
          consumer_timeout = (signer_key = job_consumer j \<and> sint (job_deadline j) \<le> sint now);
          challenge_clawback = (signer_key = CHALLENGE_AUTHORITY \<and>
            sint now < sint (s_saturating_add (job_created_at j) CHALLENGE_WINDOW_SECS))
      in provider_cancel \<or> consumer_timeout \<or> challenge_clawback)"

definition refund :: "runtime \<Rightarrow> refund_ctx \<Rightarrow> world \<Rightarrow> program_error + world" where
  "refund rt cx w =
     rbind (check_refund_accounts rt cx w) (\<lambda>j.
     rbind (require (job_state j = Active) (EscrowErr NotActive)) (\<lambda>_.
     rbind (require (refund_allowed (fc_signer cx) (w_now w) j) (EscrowErr RefundNotAllowed)) (\<lambda>_.
     rbind (ok_or (rt_transfer rt (w_tokens w) (fc_vault cx) (fc_consumer_token cx) (fc_job cx)
                     (job_amount j)) TokenProgramError) (\<lambda>tk1.
     rbind (ok_or (rt_close rt tk1 (fc_vault cx) (fc_consumer cx) (fc_job cx)) TokenProgramError)
       (\<lambda>tk2.
     Inr (w\<lparr>w_jobs := ((w_jobs w)(fc_job cx \<mapsto> j\<lparr>job_state := Refunded\<rparr>))(fc_job cx := None),
            w_tokens := tk2,
            w_events := w_events w @ [JobRefunded (fc_job cx) (job_id j) (job_amount j)]\<rparr>))))))"

section \<open>What the program relies on\<close>

text \<open>
  Documented behaviour of the SPL token program: a transfer that succeeds moves exactly the
  amount between two accounts of one mint and leaves everything else alone (a transfer to the
  same account is a no-op); one whose authority owns the source succeeds when the accounts exist,
  hold the same mint, are not frozen, the source has the funds and the sum fits; \<open>CloseAccount\<close>
  succeeds for the owner exactly when the balance is zero.
\<close>

definition transfer_effect :: "tokens \<Rightarrow> pubkey \<Rightarrow> pubkey \<Rightarrow> u64 \<Rightarrow> tokens \<Rightarrow> bool" where
  "transfer_effect tk f t n tk' \<longleftrightarrow>
     (\<exists>x y. tk f = Some x \<and> tk t = Some y \<and> ta_mint x = ta_mint y \<and> unat n \<le> unat (ta_amount x) \<and>
        (if f = t then tk' = tk
         else unat (ta_amount y) + unat n < 2 ^ 64 \<and>
              tk' = tk(f \<mapsto> x\<lparr>ta_amount := ta_amount x - n\<rparr>, t \<mapsto> y\<lparr>ta_amount := ta_amount y + n\<rparr>)))"

definition spl_transfer_sound :: "runtime \<Rightarrow> bool" where
  "spl_transfer_sound rt \<longleftrightarrow> (\<forall>tk f t a n tk'.
     rt_transfer rt tk f t a n = Some tk' \<longrightarrow> transfer_effect tk f t n tk')"

definition transfer_ready :: "tokens \<Rightarrow> pubkey \<Rightarrow> pubkey \<Rightarrow> pubkey \<Rightarrow> u64 \<Rightarrow> bool" where
  "transfer_ready tk f t a n \<longleftrightarrow> f \<noteq> t \<and>
     (case (tk f, tk t) of
        (Some x, Some y) \<Rightarrow> ta_mint x = ta_mint y \<and> ta_owner x = a \<and> \<not> ta_frozen x \<and>
          \<not> ta_frozen y \<and> unat n \<le> unat (ta_amount x) \<and> unat (ta_amount y) + unat n < 2 ^ 64
      | _ \<Rightarrow> False)"

definition spl_transfer_complete :: "runtime \<Rightarrow> bool" where
  "spl_transfer_complete rt \<longleftrightarrow> (\<forall>tk f t a n.
     transfer_ready tk f t a n \<longrightarrow> rt_transfer rt tk f t a n \<noteq> None)"

definition spl_close_sound :: "runtime \<Rightarrow> bool" where
  "spl_close_sound rt \<longleftrightarrow> (\<forall>tk v d a tk'.
     rt_close rt tk v d a = Some tk' \<longrightarrow>
     (\<exists>x. tk v = Some x \<and> ta_amount x = 0) \<and> tk' = tk(v := None))"

definition spl_close_complete :: "runtime \<Rightarrow> bool" where
  "spl_close_complete rt \<longleftrightarrow> (\<forall>tk v d a x.
     tk v = Some x \<longrightarrow> ta_amount x = 0 \<longrightarrow> ta_owner x = a \<longrightarrow> rt_close rt tk v d a \<noteq> None)"

definition spl_laws :: "runtime \<Rightarrow> bool" where
  "spl_laws rt \<longleftrightarrow> spl_transfer_sound rt \<and> spl_transfer_complete rt \<and> spl_close_sound rt \<and>
     spl_close_complete rt"

definition bal :: "tokens \<Rightarrow> pubkey \<Rightarrow> nat" where
  "bal tk k = (case tk k of None \<Rightarrow> 0 | Some x \<Rightarrow> unat (ta_amount x))"

text \<open>\<open>moved tk tk' f t n\<close>: \<open>n\<close> went from \<open>f\<close> to \<open>t\<close>, nothing else changed.\<close>

definition same_meta :: "tokens \<Rightarrow> tokens \<Rightarrow> bool" where
  "same_meta tk tk' \<longleftrightarrow>
     (\<forall>k. map_option (\<lambda>x. (ta_mint x, ta_owner x, ta_frozen x)) (tk' k)
        = map_option (\<lambda>x. (ta_mint x, ta_owner x, ta_frozen x)) (tk k))"

definition moved :: "pubkey \<Rightarrow> pubkey \<Rightarrow> nat \<Rightarrow> tokens \<Rightarrow> tokens \<Rightarrow> bool" where
  "moved f t n tk tk' \<longleftrightarrow> same_meta tk tk' \<and>
     (\<forall>k. bal tk' k + (if k = f then n else 0) = bal tk k + (if k = t then n else 0))"

lemma same_meta_refl [simp]: "same_meta tk tk"
  by (simp add: same_meta_def)

lemma same_meta_trans: "same_meta a b \<Longrightarrow> same_meta b c \<Longrightarrow> same_meta a c"
  by (simp add: same_meta_def)

lemma same_meta_Some:
  "same_meta tk tk' \<Longrightarrow> tk k = Some x \<Longrightarrow>
     \<exists>x'. tk' k = Some x' \<and> ta_mint x' = ta_mint x \<and> ta_owner x' = ta_owner x \<and>
          ta_frozen x' = ta_frozen x"
  unfolding same_meta_def by (drule spec [of _ k]) (auto simp: map_option_case split: option.splits)

lemma bal_Some: "tk k = Some x \<Longrightarrow> bal tk k = unat (ta_amount x)"
  by (simp add: bal_def)

lemma transfer_effect_moved: "transfer_effect tk f t n tk' \<Longrightarrow> moved f t (unat n) tk tk'"
proof -
  assume "transfer_effect tk f t n tk'"
  then obtain x y where xy: "tk f = Some x" "tk t = Some y" "ta_mint x = ta_mint y"
    "unat n \<le> unat (ta_amount x)"
    and eff: "if f = t then tk' = tk else unat (ta_amount y) + unat n < 2 ^ 64 \<and>
              tk' = tk(f \<mapsto> x\<lparr>ta_amount := ta_amount x - n\<rparr>, t \<mapsto> y\<lparr>ta_amount := ta_amount y + n\<rparr>)"
    by (auto simp: transfer_effect_def)
  show ?thesis
  proof (cases "f = t")
    case True
    with eff show ?thesis by (simp add: moved_def)
  next
    case False
    with eff have o: "unat (ta_amount y) + unat n < 2 ^ 64"
      and tk': "tk' = tk(f \<mapsto> x\<lparr>ta_amount := ta_amount x - n\<rparr>, t \<mapsto> y\<lparr>ta_amount := ta_amount y + n\<rparr>)"
      by auto
    have "same_meta tk tk'" using xy by (simp add: tk' same_meta_def)
    moreover have "bal tk' k + (if k = f then unat n else 0) = bal tk k + (if k = t then unat n else 0)" for k
      using xy False o
      by (auto simp: tk' bal_def unat_minus_exact unat_plus_exact)
    ultimately show ?thesis by (simp add: moved_def)
  qed
qed

lemma spl_transferD:
  "spl_laws rt \<Longrightarrow> rt_transfer rt tk f t a n = Some tk' \<Longrightarrow> transfer_effect tk f t n tk'"
  by (simp add: spl_laws_def spl_transfer_sound_def)

lemma spl_transferI:
  "spl_laws rt \<Longrightarrow> transfer_ready tk f t a n \<Longrightarrow> \<exists>tk'. rt_transfer rt tk f t a n = Some tk'"
  by (simp add: spl_laws_def spl_transfer_complete_def)

lemma spl_closeD:
  assumes "spl_laws rt" "rt_close rt tk v d a = Some tk'"
  shows "bal tk v = 0" "tk' = tk(v := None)"
proof -
  have "spl_close_sound rt" using assms(1) by (simp add: spl_laws_def)
  then have "(\<exists>x. tk v = Some x \<and> ta_amount x = 0) \<and> tk' = tk(v := None)"
    using assms(2) by (simp add: spl_close_sound_def)
  then show "bal tk v = 0" "tk' = tk(v := None)" by (auto simp: bal_def)
qed

lemma spl_closeI:
  "spl_laws rt \<Longrightarrow> tk v = Some x \<Longrightarrow> ta_amount x = 0 \<Longrightarrow> ta_owner x = a \<Longrightarrow>
   \<exists>tk'. rt_close rt tk v d a = Some tk'"
  by (auto simp: spl_laws_def spl_close_complete_def)

lemma rt_transfer_moved:
  "spl_laws rt \<Longrightarrow> rt_transfer rt tk f t a n = Some tk' \<Longrightarrow> moved f t (unat n) tk tk'"
  by (rule transfer_effect_moved) (rule spl_transferD)

lemma rt_transfer_enough:
  "spl_laws rt \<Longrightarrow> rt_transfer rt tk f t a n = Some tk' \<Longrightarrow> unat n \<le> bal tk f"
  by (drule (1) spl_transferD) (auto simp: transfer_effect_def bal_def)

lemma pay_moved:
  assumes "spl_laws rt" and "pay rt vault jk to amt tk = Inr tk'"
  shows "moved vault to (unat amt) tk tk'"
  using assms by (auto simp: pay_def result_iff moved_def [of _ _ 0] rt_transfer_moved split: if_splits)

lemma pay_opt_moved:
  assumes "spl_laws rt" and "pay_opt rt vault jk (Some t) amt tk = Inr tk'"
  shows "moved vault t (unat amt) tk tk'"
  using assms by (simp add: pay_opt_def pay_moved)

subsection \<open>The split\<close>

definition split_total :: "job_split \<Rightarrow> nat" where
  "split_total sp = unat (split_provider sp) + unat (split_fee sp) + unat (split_storage sp)
     + unat (split_author sp)"

lemma cut_Inr_iff [result_iff]:
  "cut amount bps = Inr c \<longleftrightarrow>
     unat amount * unat bps < 2 ^ 64 \<and> unat c = unat amount * unat bps div 10000"
proof
  assume "cut amount bps = Inr c"
  then show "unat amount * unat bps < 2 ^ 64 \<and> unat c = unat amount * unat bps div 10000"
    by (auto simp: cut_def result_iff num_conv bind_eq_Some_conv)
next
  assume h: "unat amount * unat bps < 2 ^ 64 \<and> unat c = unat amount * unat bps div 10000"
  then obtain v where "checked_mul amount bps = Some v" "unat v = unat amount * unat bps"
    by (auto simp: checked_mul_def unat_mult_exact)
  with h show "cut amount bps = Inr c"
    by (auto simp: cut_def result_iff num_conv bind_eq_Some_conv)
qed

lemma unat_ucast_u16 [simp]: "unat (ucast (b :: u16) :: u64) = unat b"
  by (simp add: unsigned_ucast_eq take_bit_nat_eq_self_iff unsigned_less less_trans [OF unsigned_less])

lemma compute_split_Inr:
  "compute_split j = Inr sp \<longleftrightarrow>
     (let a = unat (job_amount j); sb = unat (job_storage_bps j); ab = unat (job_author_bps j) in
      a * 400 < 2 ^ 64 \<and> a * sb < 2 ^ 64 \<and> a * ab < 2 ^ 64 \<and>
      unat (split_fee sp) = a * 400 div 10000 \<and> unat (split_storage sp) = a * sb div 10000 \<and>
      unat (split_author sp) = a * ab div 10000 \<and> split_total sp = a \<and> 0 < unat (split_provider sp))"
  (is "?L = ?R")
proof
  assume ?L
  then show ?R
    by (auto simp: compute_split_def result_iff num_conv bind_eq_Some_conv split_total_def Let_def
        PROTOCOL_FEE_BPS_def word_less_nat_alt)
next
  assume R: ?R
  obtain p f s a where sp: "sp = \<lparr>split_provider = p, split_fee = f, split_storage = s, split_author = a\<rparr>"
    by (cases sp)
  let ?A = "job_amount j"
  have cs: "cut ?A PROTOCOL_FEE_BPS = Inr f" "cut ?A (ucast (job_storage_bps j)) = Inr s"
    "cut ?A (ucast (job_author_bps j)) = Inr a"
    using R by (auto simp: result_iff Let_def sp PROTOCOL_FEE_BPS_def)
  have tot: "unat p + unat f + unat s + unat a = unat ?A" using R by (simp add: Let_def split_total_def sp)
  have 1: "checked_sub ?A f = Some (?A - f)" using tot by (simp add: checked_sub_def)
  have u1: "unat (?A - f) = unat ?A - unat f" using tot by (simp add: unat_minus_exact)
  have 2: "checked_sub (?A - f) s = Some (?A - f - s)" using tot u1 by (simp add: checked_sub_def)
  have u2: "unat (?A - f - s) = unat ?A - unat f - unat s" using tot u1 by (simp add: unat_minus_exact)
  have 3: "checked_sub (?A - f - s) a = Some p"
    unfolding checked_sub_Some u2 using tot by arith
  have "0 < p" using R by (simp add: Let_def sp word_less_nat_alt)
  then show ?L by (simp add: compute_split_def cs 1 2 3 sp)
qed


subsection \<open>What a settlement does\<close>

definition gets :: "pubkey \<Rightarrow> pubkey \<Rightarrow> nat \<Rightarrow> nat" where
  "gets k to n = (if k = to then n else 0)"

definition gets_opt :: "pubkey \<Rightarrow> pubkey option \<Rightarrow> nat \<Rightarrow> nat" where
  "gets_opt k to n = (if Some k = to then n else 0)"

lemma movedD: "moved f t n tk tk' \<Longrightarrow> bal tk' k + gets k f n = bal tk k + gets k t n"
  by (simp add: moved_def gets_def)

lemma moved_meta: "moved f t n tk tk' \<Longrightarrow> same_meta tk tk'"
  by (simp add: moved_def)

lemma pay_opt_bal:
  assumes "spl_laws rt" and "pay_opt rt vault jk to amt tk = Inr tk'" and "to = None \<Longrightarrow> amt = 0"
  shows "bal tk' k + gets k vault (unat amt) = bal tk k + gets_opt k to (unat amt)"
    and "same_meta tk tk'"
proof -
  show "bal tk' k + gets k vault (unat amt) = bal tk k + gets_opt k to (unat amt)"
  proof (cases to)
    case None
    with assms show ?thesis by (simp add: pay_opt_def gets_def gets_opt_def)
  next
    case (Some t)
    with assms have "moved vault t (unat amt) tk tk'" by (simp add: pay_opt_moved)
    from movedD [OF this, of k] Some show ?thesis by (simp add: gets_def gets_opt_def)
  qed
  show "same_meta tk tk'"
  proof (cases to)
    case None
    with assms show ?thesis by (simp add: pay_opt_def)
  next
    case (Some t)
    with assms show ?thesis by (auto intro: moved_meta pay_opt_moved)
  qed
qed

lemma settle_Inr:
  assumes laws: "spl_laws rt"
    and st: "settle rt jk j vault pt ft sto aut cd tk = Inr (sp, tk')"
  shows "compute_split j = Inr sp"
    and "bal tk' k + gets k vault (split_total sp) =
           bal tk k + gets k pt (unat (split_provider sp)) + gets k ft (unat (split_fee sp)) +
           gets_opt k sto (unat (split_storage sp)) + gets_opt k aut (unat (split_author sp))"
    and "tk' vault = None"
    and "\<exists>tk4. same_meta tk tk4 \<and> tk' = tk4(vault := None)"
proof -
  from st obtain tk1 tk2 tk3 tk4 where
    cs: "compute_split j = Inr sp" and
    sb: "job_storage_bps j = 0 \<or> sto \<noteq> None" and ab: "job_author_bps j = 0 \<or> aut \<noteq> None" and
    p1: "pay rt vault jk pt (split_provider sp) tk = Inr tk1" and
    p2: "pay rt vault jk ft (split_fee sp) tk1 = Inr tk2" and
    p3: "pay_opt rt vault jk sto (split_storage sp) tk2 = Inr tk3" and
    p4: "pay_opt rt vault jk aut (split_author sp) tk3 = Inr tk4" and
    cl: "rt_close rt tk4 vault cd jk = Some tk'"
    by (auto simp: settle_def result_iff)
  have z: "sto = None \<Longrightarrow> split_storage sp = 0" "aut = None \<Longrightarrow> split_author sp = 0"
    using cs sb ab by (auto simp: compute_split_Inr Let_def word_unat_eq_iff)
  note m1 = pay_moved [OF laws p1] and m2 = pay_moved [OF laws p2]
  note m3 = pay_opt_bal [OF laws p3 z(1)] and m4 = pay_opt_bal [OF laws p4 z(2)]
  note c = spl_closeD [OF laws cl]
  show "compute_split j = Inr sp" by (rule cs)
  show "tk' vault = None" by (simp add: c)
  have b5: "bal tk' k = bal tk4 k" using c by (auto simp: bal_def)
  show "bal tk' k + gets k vault (split_total sp) =
           bal tk k + gets k pt (unat (split_provider sp)) + gets k ft (unat (split_fee sp)) +
           gets_opt k sto (unat (split_storage sp)) + gets_opt k aut (unat (split_author sp))"
    unfolding b5 using movedD [OF m1, of k] movedD [OF m2, of k] m3(1) [of k] m4(1) [of k]
    by (simp add: split_total_def gets_def split: if_splits)
  have "same_meta tk tk4"
    using m1 m2 m3(2) m4(2) by (blast intro: same_meta_trans moved_meta)
  then show "\<exists>tk4. same_meta tk tk4 \<and> tk' = tk4(vault := None)" using c(2) by blast
qed

text \<open>The accounts are in order for paying out of the vault.\<close>

definition vault_ready :: "tokens \<Rightarrow> pubkey \<Rightarrow> pubkey \<Rightarrow> pubkey \<Rightarrow> bool" where
  "vault_ready tk vault jk m \<longleftrightarrow>
     (case tk vault of None \<Rightarrow> False
      | Some v \<Rightarrow> ta_mint v = m \<and> ta_owner v = jk \<and> \<not> ta_frozen v) \<and>
     (\<forall>k. k \<noteq> vault \<longrightarrow> bal tk k + bal tk vault < 2 ^ 64)"

definition payable :: "tokens \<Rightarrow> pubkey \<Rightarrow> pubkey \<Rightarrow> pubkey \<Rightarrow> bool" where
  "payable tk vault m k \<longleftrightarrow> k \<noteq> vault \<and>
     (case tk k of None \<Rightarrow> False | Some x \<Rightarrow> ta_mint x = m \<and> \<not> ta_frozen x)"

lemma payable_meta: "same_meta tk tk' \<Longrightarrow> payable tk vault m k \<Longrightarrow> payable tk' vault m k"
  by (auto simp: payable_def split: option.splits dest!: same_meta_Some)

lemma pay_step:
  assumes laws: "spl_laws rt" and v: "vault_ready tk vault jk m" and p: "payable tk vault m to"
    and le: "unat amt \<le> bal tk vault"
  shows "\<exists>tk'. pay rt vault jk to amt tk = Inr tk' \<and> vault_ready tk' vault jk m \<and> same_meta tk tk' \<and>
           bal tk' vault = bal tk vault - unat amt"
proof -
  have "to \<noteq> vault" using p by (simp add: payable_def)
  then have "bal tk to + bal tk vault < 2 ^ 64" using v by (simp add: vault_ready_def)
  then have "bal tk to + unat amt < 2 ^ 64" using le by linarith
  then have ready: "transfer_ready tk vault to jk amt"
    using v p le by (auto simp: transfer_ready_def vault_ready_def payable_def bal_Some
        split: option.splits)
  obtain tk' where tk': "pay rt vault jk to amt tk = Inr tk'"
    using spl_transferI [OF laws ready] by (cases "amt = 0") (auto simp: pay_def)
  have m: "moved vault to (unat amt) tk tk'" by (rule pay_moved [OF laws tk'])
  have ne: "to \<noteq> vault" using p by (simp add: payable_def)
  have b: "bal tk' vault = bal tk vault - unat amt"
    using movedD [OF m, of vault] ne by (simp add: gets_def)
  have "bal tk' k + bal tk' vault < 2 ^ 64" if "k \<noteq> vault" for k
  proof -
    have "bal tk' k \<le> bal tk k + unat amt" using movedD [OF m, of k] by (simp add: gets_def split: if_splits)
    moreover have "bal tk k + bal tk vault < 2 ^ 64" using v that by (simp add: vault_ready_def)
    ultimately show ?thesis using b le by linarith
  qed
  then have "vault_ready tk' vault jk m"
    using v moved_meta [OF m] by (auto simp: vault_ready_def split: option.splits dest!: same_meta_Some)
  with tk' b moved_meta [OF m] show ?thesis by blast
qed

lemma pay_opt_step:
  assumes "spl_laws rt" and "vault_ready tk vault jk m" and "\<And>t. to = Some t \<Longrightarrow> payable tk vault m t"
    and "unat amt \<le> bal tk vault" and "to = None \<Longrightarrow> amt = 0"
  shows "\<exists>tk'. pay_opt rt vault jk to amt tk = Inr tk' \<and> vault_ready tk' vault jk m \<and>
           same_meta tk tk' \<and> bal tk' vault = bal tk vault - unat amt"
proof (cases to)
  case None
  then show ?thesis using assms by (simp add: pay_opt_def)
next
  case (Some t)
  then show ?thesis using pay_step [of rt tk vault jk m t amt] assms by (simp add: pay_opt_def)
qed

lemma settle_ok:
  assumes laws: "spl_laws rt" and v: "vault_ready tk vault jk m"
    and full: "bal tk vault = unat (job_amount j)" and cs: "compute_split j = Inr sp"
    and pt: "payable tk vault m pt" and ft: "payable tk vault m ft"
    and sto: "\<And>t. sto = Some t \<Longrightarrow> payable tk vault m t"
    and aut: "\<And>t. aut = Some t \<Longrightarrow> payable tk vault m t"
    and sb: "job_storage_bps j = 0 \<or> sto \<noteq> None" and ab: "job_author_bps j = 0 \<or> aut \<noteq> None"
  shows "\<exists>tk'. settle rt jk j vault pt ft sto aut cd tk = Inr (sp, tk')"
proof -
  have z: "sto = None \<Longrightarrow> split_storage sp = 0" "aut = None \<Longrightarrow> split_author sp = 0"
    using cs sb ab by (auto simp: compute_split_Inr Let_def word_unat_eq_iff)
  have tot: "unat (split_provider sp) + unat (split_fee sp) + unat (split_storage sp)
      + unat (split_author sp) = bal tk vault"
    using cs full by (simp add: compute_split_Inr Let_def split_total_def)
  obtain tk1 where t1: "pay rt vault jk pt (split_provider sp) tk = Inr tk1" "vault_ready tk1 vault jk m"
      "same_meta tk tk1" "bal tk1 vault = bal tk vault - unat (split_provider sp)"
    using pay_step [OF laws v pt, of "split_provider sp"] tot by auto
  have l2: "unat (split_fee sp) \<le> bal tk1 vault" using tot t1(4) by arith
  obtain tk2 where t2: "pay rt vault jk ft (split_fee sp) tk1 = Inr tk2" "vault_ready tk2 vault jk m"
      "same_meta tk1 tk2" "bal tk2 vault = bal tk1 vault - unat (split_fee sp)"
    using pay_step [OF laws t1(2) payable_meta [OF t1(3) ft] l2] by blast
  have s2: "same_meta tk tk2" using t1 t2 by (blast intro: same_meta_trans)
  have l3: "unat (split_storage sp) \<le> bal tk2 vault" using tot t1(4) t2(4) by arith
  obtain tk3 where t3: "pay_opt rt vault jk sto (split_storage sp) tk2 = Inr tk3"
      "vault_ready tk3 vault jk m" "same_meta tk2 tk3"
      "bal tk3 vault = bal tk2 vault - unat (split_storage sp)"
    using pay_opt_step [OF laws t2(2) payable_meta [OF s2 sto] l3 z(1)] by blast
  have s3: "same_meta tk tk3" using s2 t3 by (blast intro: same_meta_trans)
  have l4: "unat (split_author sp) \<le> bal tk3 vault" using tot t1(4) t2(4) t3(4) by arith
  obtain tk4 where t4: "pay_opt rt vault jk aut (split_author sp) tk3 = Inr tk4"
      "vault_ready tk4 vault jk m" "bal tk4 vault = bal tk3 vault - unat (split_author sp)"
    using pay_opt_step [OF laws t3(2) payable_meta [OF s3 aut] l4 z(2)] by blast
  have "bal tk4 vault = 0" using tot t1(4) t2(4) t3(4) t4(3) by arith
  then obtain x where "tk4 vault = Some x" "ta_amount x = 0" "ta_owner x = jk"
    using t4(2) by (auto simp: vault_ready_def bal_def unat_eq_zero split: option.splits)
  then obtain tk5 where "rt_close rt tk4 vault cd jk = Some tk5" using spl_closeI [OF laws] by blast
  with cs sb ab t1(1) t2(1) t3(1) t4(1) show ?thesis by (simp add: settle_def)
qed

subsection \<open>Every split leaves a share for the provider\<close>

lemma div_add_le: "(x::nat) div n + y div n \<le> (x + y) div n"
  by (simp add: div_add1_eq [of x y])

lemma provider_share_positive:
  fixes a sb ab :: nat
  assumes "0 < a" and "400 + sb + ab < 10000"
  shows "a * 400 div 10000 + a * sb div 10000 + a * ab div 10000 < a"
proof -
  have "a * 400 div 10000 + a * sb div 10000 + a * ab div 10000
      \<le> (a * 400 + a * sb + a * ab) div 10000"
    using div_add_le [of "a * 400" 10000 "a * sb"] div_add_le [of "a * 400 + a * sb" 10000 "a * ab"]
    by linarith
  also have "\<dots> = a * (400 + sb + ab) div 10000" by (simp add: algebra_simps)
  also have "\<dots> < a"
  proof -
    have "a * (400 + sb + ab) < a * 10000" using assms by simp
    then show ?thesis by (simp add: less_mult_imp_div_less)
  qed
  finally show ?thesis .
qed

definition split_fits :: "job \<Rightarrow> bool" where
  "split_fits j \<longleftrightarrow> unat (job_amount j) * 400 < 2 ^ 64 \<and>
     unat (job_amount j) * unat (job_storage_bps j) < 2 ^ 64 \<and>
     unat (job_amount j) * unat (job_author_bps j) < 2 ^ 64"

lemma compute_split_ok:
  assumes "0 < job_amount j" and bps: "400 + unat (job_storage_bps j) + unat (job_author_bps j) < 10000"
    and "split_fits j"
  shows "\<exists>sp. compute_split j = Inr sp"
proof -
  define A where "A = unat (job_amount j)"
  define F where "F = A * 400 div 10000"
  define S where "S = A * unat (job_storage_bps j) div 10000"
  define T where "T = A * unat (job_author_bps j) div 10000"
  have A: "0 < A" "A < 2 ^ 64" using assms(1) unsigned_less [of "job_amount j", where ?'a = nat]
    by (auto simp: A_def word_less_nat_alt)
  have lt: "F + S + T < A" unfolding F_def S_def T_def by (rule provider_share_positive [OF A(1) bps])
  define P where "P = A - (F + S + T)"
  have P: "P + F + S + T = A" "0 < P" using lt by (auto simp: P_def)
  let ?sp = "\<lparr>split_provider = word_of_nat P, split_fee = word_of_nat F,
     split_storage = word_of_nat S, split_author = word_of_nat T\<rparr>"
  have u: "unat (word_of_nat n :: u64) = n" if "n \<le> A" for n
    using that A(2) by (simp add: unat_of_nat)
  have "compute_split j = Inr ?sp"
    unfolding compute_split_Inr Let_def
    using assms(3) P by (simp add: split_fits_def split_total_def u flip: A_def F_def S_def T_def)
  then show ?thesis by blast
qed

lemma validate_split_Inr:
  "validate_split sb sp ab ap = Inr () \<longleftrightarrow>
     400 + unat sb + unat ab < 10000 \<and> (sb = 0 \<or> sp \<noteq> default_pubkey) \<and>
     (ab = 0 \<or> ap \<noteq> default_pubkey)"
proof -
  have b: "unat sb < 65536" "unat ab < 65536"
    using unsigned_less [of sb, where ?'a = nat] unsigned_less [of ab, where ?'a = nat] by auto
  have "checked_add PROTOCOL_FEE_BPS (ucast sb) = Some (400 + ucast sb)"
    using b by (simp add: checked_add_def PROTOCOL_FEE_BPS_def)
  moreover have u: "unat (400 + ucast sb :: u64) = 400 + unat sb"
    using b by (subst unat_plus_exact) auto
  moreover have "checked_add (400 + ucast sb :: u64) (ucast ab) = Some (400 + ucast sb + ucast ab)"
    using b u by (simp add: checked_add_def)
  moreover have "unat (400 + ucast sb + ucast ab :: u64) = 400 + unat sb + unat ab"
    using b u by (subst unat_plus_exact) auto
  ultimately show ?thesis by (auto simp: validate_split_def result_iff word_less_nat_alt)
qed


end
