(* ===== verification/Escrow_Chain.thy ===== *)
theory Escrow_Chain
  imports Escrow
begin

text \<open>
  The escrow program over its whole life: every sequence of its instructions, interleaved with
  whatever the rest of the chain does, and the invariant that each job on the chain is covered by
  the funds in its vault. The theorems about the single instructions are in \<open>Escrow_Theorems\<close>.
\<close>

section \<open>The chain as a state machine\<close>

text \<open>
  One step is a successful instruction of the program, or something the rest of the chain does:
  time passes, and token accounts change under their owners' signatures. Accounts whose owner
  cannot sign (the vaults: their owner is a derived address) are only ever credited by others.
\<close>

definition rest_of_chain :: "runtime \<Rightarrow> world \<Rightarrow> world \<Rightarrow> bool" where
  "rest_of_chain rt w w' \<longleftrightarrow>
     w_jobs w' = w_jobs w \<and> w_events w' = w_events w \<and> sint (w_now w) \<le> sint (w_now w') \<and>
     (\<forall>k x. w_tokens w k = Some x \<and> \<not> rt_can_sign rt (ta_owner x) \<longrightarrow>
        (\<exists>x'. w_tokens w' k = Some x' \<and> ta_mint x' = ta_mint x \<and> ta_owner x' = ta_owner x \<and>
              unat (ta_amount x) \<le> unat (ta_amount x')))"

inductive chain_step :: "runtime \<Rightarrow> world \<Rightarrow> world \<Rightarrow> bool" for rt where
  step_create: "rt_can_sign rt (cc_consumer cx) \<Longrightarrow>
     create_job rt cx jid amount timeout key w = Inr w' \<Longrightarrow> chain_step rt w w'"
| step_create_split: "rt_can_sign rt (cc_consumer cx) \<Longrightarrow>
     create_job_split rt cx jid amount timeout key sp sb ap ab w = Inr w' \<Longrightarrow> chain_step rt w w'"
| step_release: "rt_can_sign rt (rc_consumer rcx) \<Longrightarrow> release rt rcx w = Inr w' \<Longrightarrow> chain_step rt w w'"
| step_release_verified: "release_verified rt ixs vcx ih oh w = Inr w' \<Longrightarrow> chain_step rt w w'"
| step_refund: "rt_can_sign rt (fc_signer fcx) \<Longrightarrow> refund rt fcx w = Inr w' \<Longrightarrow> chain_step rt w w'"
| step_other: "rest_of_chain rt w w' \<Longrightarrow> chain_step rt w w'"

inductive chain_reachable :: "runtime \<Rightarrow> world \<Rightarrow> bool" for rt where
  chain_start: "w_jobs w = (\<lambda>_. None) \<Longrightarrow> w_events w = [] \<Longrightarrow> chain_reachable rt w"
| chain_next: "chain_reachable rt w \<Longrightarrow> chain_step rt w w' \<Longrightarrow> chain_reachable rt w'"

text \<open>
  Documented behaviour of address derivation: a derived address is off the curve, so nobody can
  sign for it; seeds that concatenate to different bytes give different addresses (collision
  resistance); and \<open>create_program_address\<close> recomputes the address from the seeds and the bump.
\<close>

definition pda_laws :: "runtime \<Rightarrow> bool" where
  "pda_laws rt \<longleftrightarrow> (\<forall>s. \<not> rt_can_sign rt (fst (rt_find_pda rt s))) \<and>
     (\<forall>s t. fst (rt_find_pda rt s) = fst (rt_find_pda rt t) \<longrightarrow> concat s = concat t) \<and>
     (\<forall>s. rt_create_pda rt (s @ [[snd (rt_find_pda rt s)]]) = Some (fst (rt_find_pda rt s)))"

definition vault_of :: "runtime \<Rightarrow> pubkey \<Rightarrow> pubkey" where
  "vault_of rt jk = fst (rt_find_pda rt (vault_seeds jk))"

definition job_address :: "runtime \<Rightarrow> pubkey \<Rightarrow> bytes \<Rightarrow> pubkey" where
  "job_address rt consumer jid = fst (rt_find_pda rt (job_seeds consumer jid))"

lemma vault_of_inj: "pda_laws rt \<Longrightarrow> vault_of rt a = vault_of rt b \<longleftrightarrow> a = b"
  by (fastforce simp: pda_laws_def vault_of_def vault_seeds_def)

lemma pda_no_sign:
  "pda_laws rt \<Longrightarrow> \<not> rt_can_sign rt (vault_of rt a)"
  "pda_laws rt \<Longrightarrow> \<not> rt_can_sign rt (job_address rt c i)"
  by (simp_all add: pda_laws_def vault_of_def job_address_def)

text \<open>What holds of every job account on the chain.\<close>

definition job_ok :: "runtime \<Rightarrow> pubkey \<Rightarrow> job \<Rightarrow> bool" where
  "job_ok rt jk j \<longleftrightarrow> job_state j = Active \<and> 0 < job_amount j \<and>
     400 + unat (job_storage_bps j) + unat (job_author_bps j) < 10000 \<and>
     (job_storage_bps j = 0 \<or> job_storage_payee j \<noteq> default_pubkey) \<and>
     (job_author_bps j = 0 \<or> job_author_payee j \<noteq> default_pubkey) \<and>
     sint (job_created_at j) + 60 \<le> sint (job_deadline j) \<and>
     sint (job_deadline j) \<le> sint (job_created_at j) + sint MAX_TIMEOUT_SECS \<and>
     jk = job_address rt (job_consumer j) (job_id j) \<and>
     job_bump j = snd (rt_find_pda rt (job_seeds (job_consumer j) (job_id j)))"

definition funded :: "runtime \<Rightarrow> tokens \<Rightarrow> pubkey \<Rightarrow> job \<Rightarrow> bool" where
  "funded rt tk jk j \<longleftrightarrow>
     (case tk (vault_of rt jk) of None \<Rightarrow> False
      | Some v \<Rightarrow> ta_owner v = jk \<and> ta_mint v = job_mint j \<and>
          unat (job_amount j) \<le> unat (ta_amount v))"

definition escrow_inv :: "runtime \<Rightarrow> world \<Rightarrow> bool" where
  "escrow_inv rt w \<longleftrightarrow>
     (\<forall>jk j. w_jobs w jk = Some j \<longrightarrow>
        job_ok rt jk j \<and> sint (job_created_at j) \<le> sint (w_now w) \<and> funded rt (w_tokens w) jk j)"

lemma escrow_invD:
  "escrow_inv rt w \<Longrightarrow> w_jobs w jk = Some j \<Longrightarrow>
     job_ok rt jk j \<and> sint (job_created_at j) \<le> sint (w_now w) \<and> funded rt (w_tokens w) jk j"
  by (simp add: escrow_inv_def)

lemma job_ok_no_sign: "pda_laws rt \<Longrightarrow> job_ok rt jk j \<Longrightarrow> \<not> rt_can_sign rt jk"
  by (auto simp: job_ok_def pda_no_sign)

text \<open>A step that leaves a vault's metadata alone and does not debit it keeps it funded.\<close>

lemma funded_mono:
  assumes "same_meta tk tk'" and "bal tk (vault_of rt jk) \<le> bal tk' (vault_of rt jk)"
    and "funded rt tk jk j"
  shows "funded rt tk' jk j"
proof -
  from assms(3) obtain v where v: "tk (vault_of rt jk) = Some v" "ta_owner v = jk"
    "ta_mint v = job_mint j" "unat (job_amount j) \<le> unat (ta_amount v)"
    by (auto simp: funded_def split: option.splits)
  from same_meta_Some [OF assms(1) v(1)] obtain v' where v':
    "tk' (vault_of rt jk) = Some v'" "ta_mint v' = ta_mint v" "ta_owner v' = ta_owner v" by auto
  from assms(2) v(1) v'(1) have "unat (ta_amount v) \<le> unat (ta_amount v')" by (simp add: bal_def)
  with v v' show ?thesis by (simp add: funded_def)
qed

lemma MAX_TIMEOUT_sint [simp]: "sint MAX_TIMEOUT_SECS = 2592000"
  by (simp add: MAX_TIMEOUT_SECS_def)

lemma check_create_accounts_Inr:
  assumes "check_create_accounts rt cx jid w = Inr (bump, w1)"
  shows "cc_job cx = job_address rt (cc_consumer cx) jid" and "w_jobs w (cc_job cx) = None"
    and "cc_vault cx = vault_of rt (cc_job cx)" and "w_tokens w (cc_vault cx) = None"
    and "\<exists>ct. w_tokens w (cc_consumer_token cx) = Some ct \<and> ta_owner ct = cc_consumer cx
           \<and> ta_mint ct = cc_mint cx"
    and "bump = snd (rt_find_pda rt (job_seeds (cc_consumer cx) jid))"
    and "w1 = w\<lparr>w_tokens := (w_tokens w)(cc_vault cx \<mapsto> \<lparr>ta_mint = cc_mint cx,
           ta_owner = cc_job cx, ta_amount = 0, ta_frozen = False\<rparr>)\<rparr>"
  using assms unfolding check_create_accounts_def lookup_token_def result_iff job_address_def vault_of_def
    sum.inject prod.inject
  by - (elim exE conjE, simp)+

definition new_job ::
  "runtime \<Rightarrow> create_ctx \<Rightarrow> bytes \<Rightarrow> u64 \<Rightarrow> i64 \<Rightarrow> pubkey \<Rightarrow> pubkey \<Rightarrow> u16 \<Rightarrow> pubkey \<Rightarrow> u16 \<Rightarrow> i64 \<Rightarrow> job" where
  "new_job rt cx jid amount deadline key sp sb ap ab now =
     \<lparr>job_id = jid, job_consumer = cc_consumer cx, job_provider = cc_provider cx,
      job_mint = cc_mint cx, job_amount = amount, job_deadline = deadline, job_state = Active,
      job_bump = snd (rt_find_pda rt (job_seeds (cc_consumer cx) jid)),
      job_provider_node_key = key, job_storage_payee = sp, job_storage_bps = sb,
      job_author_payee = ap, job_author_bps = ab, job_created_at = now\<rparr>"

lemma init_job_Inr:
  assumes "init_job rt cx jid amount timeout key sp sb ap ab w = Inr w'"
  obtains w1 deadline tk bump where
    "check_create_accounts rt cx jid w = Inr (bump, w1)" "0 < amount" "60 \<le> sint timeout"
    "sint timeout \<le> sint MAX_TIMEOUT_SECS" "validate_split sb sp ab ap = Inr ()"
    "sint deadline = sint (w_now w) + sint timeout"
    "rt_transfer rt (w_tokens w1) (cc_consumer_token cx) (cc_vault cx) (cc_consumer cx) amount = Some tk"
    "w_jobs w' = (w_jobs w)(cc_job cx \<mapsto> new_job rt cx jid amount deadline key sp sb ap ab (w_now w))"
    "w_tokens w' = tk" "w_now w' = w_now w"
proof -
  obtain bump w1 where c: "check_create_accounts rt cx jid w = Inr (bump, w1)"
    using assms unfolding init_job_def result_iff by auto
  note cc = check_create_accounts_Inr [OF c]
  have pos: "0 < amount" "60 \<le> sint timeout" "sint timeout \<le> sint MAX_TIMEOUT_SECS"
    and sp: "validate_split sb sp ab ap = Inr ()"
    using assms unfolding init_job_def c rbind_simps prod.case result_iff by - (elim exE conjE, simp)+
  obtain deadline where dl: "s_checked_add (w_now w1) timeout = Some deadline"
    using assms unfolding init_job_def c rbind_simps prod.case result_iff by - (elim exE conjE, simp)+
  obtain tk where tk: "rt_transfer rt (w_tokens w1) (cc_consumer_token cx) (cc_vault cx)
      (cc_consumer cx) amount = Some tk"
    using assms unfolding init_job_def c rbind_simps prod.case result_iff Let_def by blast
  have now: "w_now w1 = w_now w" "w_jobs w1 = w_jobs w" using cc(7) by simp_all
  have "sint deadline = sint (w_now w) + sint timeout" using dl now by (simp add: num_conv)
  moreover from assms have "Inr w' = (Inr (w1\<lparr>w_jobs := (w_jobs w1)(cc_job cx \<mapsto>
        new_job rt cx jid amount deadline key sp sb ap ab (w_now w1)), w_tokens := tk,
      w_events := w_events w1 @ [JobCreated (cc_job cx) jid (cc_consumer cx) (cc_provider cx)
        amount deadline]\<rparr>) :: program_error + world)"
    by (simp add: init_job_def c pos sp dl tk Let_def new_job_def cc(6) del: MAX_TIMEOUT_sint)
  ultimately show thesis using that [OF c pos sp _ tk] now by simp
qed

lemma new_job_ok:
  assumes "0 < amount" "60 \<le> sint timeout" "sint timeout \<le> sint MAX_TIMEOUT_SECS"
    "validate_split sb sp ab ap = Inr ()" "sint deadline = sint now + sint timeout"
    "cc_job cx = job_address rt (cc_consumer cx) jid"
  shows "job_ok rt (cc_job cx) (new_job rt cx jid amount deadline key sp sb ap ab now)"
proof -
  from assms(4) have "400 + unat sb + unat ab < 10000" "sb = 0 \<or> sp \<noteq> default_pubkey"
    "ab = 0 \<or> ap \<noteq> default_pubkey" by (simp_all only: validate_split_Inr)
  then show ?thesis using assms by (simp add: job_ok_def new_job_def)
qed

lemma escrow_inv_init_job:
  assumes laws: "spl_laws rt" "pda_laws rt" and inv: "escrow_inv rt w"
    and sign: "rt_can_sign rt (cc_consumer cx)"
    and ok: "init_job rt cx jid amount timeout key sp sb ap ab w = Inr w'"
  shows "escrow_inv rt w'"
proof -
  from ok obtain w1 deadline tk bump where
    c: "check_create_accounts rt cx jid w = Inr (bump, w1)" and
    v: "0 < amount" "60 \<le> sint timeout" "sint timeout \<le> sint MAX_TIMEOUT_SECS"
       "validate_split sb sp ab ap = Inr ()" "sint deadline = sint (w_now w) + sint timeout" and
    tr: "rt_transfer rt (w_tokens w1) (cc_consumer_token cx) (cc_vault cx) (cc_consumer cx) amount
      = Some tk" and
    w': "w_jobs w' = (w_jobs w)(cc_job cx \<mapsto> new_job rt cx jid amount deadline key sp sb ap ab (w_now w))"
      "w_tokens w' = tk" "w_now w' = w_now w"
    by (rule init_job_Inr) (rule that)
  note cc = check_create_accounts_Inr [OF c]
  obtain ct where ct: "w_tokens w (cc_consumer_token cx) = Some ct" "ta_owner ct = cc_consumer cx"
    using cc(5) by blast
  let ?tk0 = "w_tokens w1"
  have tk0: "?tk0 = (w_tokens w)(cc_vault cx \<mapsto> \<lparr>ta_mint = cc_mint cx, ta_owner = cc_job cx,
      ta_amount = 0, ta_frozen = False\<rparr>)" using cc(7) by simp
  note j = new_job_ok [OF v cc(1), of key]
  have m: "moved (cc_consumer_token cx) (cc_vault cx) (unat amount) ?tk0 tk"
    by (rule rt_transfer_moved [OF laws(1) tr])
  have ne: "cc_consumer_token cx \<noteq> cc_vault cx" using cc(4) ct by auto
  show ?thesis unfolding escrow_inv_def
  proof (intro allI impI)
    fix k i assume k: "w_jobs w' k = Some i"
    show "job_ok rt k i \<and> sint (job_created_at i) \<le> sint (w_now w') \<and> funded rt (w_tokens w') k i"
    proof (cases "k = cc_job cx")
      case True
      with k w' have i: "i = new_job rt cx jid amount deadline key sp sb ap ab (w_now w)" by simp
      from same_meta_Some [OF moved_meta [OF m], of "cc_vault cx"] obtain x where
        x: "tk (cc_vault cx) = Some x" "ta_mint x = cc_mint cx" "ta_owner x = cc_job cx"
        by (auto simp: tk0)
      have "bal tk (cc_vault cx) = unat amount"
        using movedD [OF m, of "cc_vault cx"] ne by (simp add: gets_def bal_def tk0)
      with x have "funded rt tk (cc_job cx) i" by (simp add: funded_def i new_job_def bal_def flip: cc(3))
      with j True i w' show ?thesis by (simp add: new_job_def)
    next
      case False
      with k w' have old: "w_jobs w k = Some i" by simp
      note o = escrow_invD [OF inv old]
      have nv: "vault_of rt k \<noteq> cc_vault cx" using False laws(2) by (simp add: cc(3) vault_of_inj)
      have "vault_of rt k \<noteq> cc_consumer_token cx"
      proof
        assume "vault_of rt k = cc_consumer_token cx"
        with o ct have "cc_consumer cx = k" by (simp add: funded_def)
        with sign job_ok_no_sign [OF laws(2)] o show False by blast
      qed
      then have "bal tk (vault_of rt k) = bal ?tk0 (vault_of rt k)"
        using movedD [OF m, of "vault_of rt k"] nv by (simp add: gets_def)
      moreover have "funded rt ?tk0 k i" using o nv by (simp add: funded_def tk0)
      ultimately have "funded rt tk k i" by (intro funded_mono [OF moved_meta [OF m]]) auto
      with o w' show ?thesis by simp
    qed
  qed
qed

text \<open>Closing one job's vault keeps every other job funded.\<close>

lemma escrow_inv_close:
  assumes laws: "pda_laws rt" and inv: "escrow_inv rt w"
    and w': "w_jobs w' = (w_jobs w)(jk := None)" "w_now w' = w_now w"
    and meta: "same_meta (w_tokens w) tk" "w_tokens w' = tk(vault_of rt jk := None)"
    and mono: "\<And>k. k \<noteq> vault_of rt jk \<Longrightarrow> bal (w_tokens w) k \<le> bal (w_tokens w') k"
  shows "escrow_inv rt w'"
  unfolding escrow_inv_def
proof (intro allI impI)
  fix k i assume "w_jobs w' k = Some i"
  then have ne: "k \<noteq> jk" and old: "w_jobs w k = Some i" using w' by (auto split: if_splits)
  note o = escrow_invD [OF inv old]
  have nv: "vault_of rt k \<noteq> vault_of rt jk" using ne laws by (simp add: vault_of_inj)
  have "bal (w_tokens w) (vault_of rt k) \<le> bal tk (vault_of rt k)"
    using mono [OF nv] meta(2) nv by (simp add: bal_def)
  then have "funded rt tk k i" using o by (intro funded_mono [OF meta(1)]) auto
  then have "funded rt (w_tokens w') k i" using nv meta(2) by (simp add: funded_def)
  with o w' show "job_ok rt k i \<and> sint (job_created_at i) \<le> sint (w_now w') \<and> funded rt (w_tokens w') k i"
    by simp
qed


lemma check_release_accounts_Inr:
  assumes "check_release_accounts rt cx w = Inr j"
  shows "w_jobs w (rc_job cx) = Some j" and "rc_vault cx = vault_of rt (rc_job cx)"
    and "rc_consumer cx = job_consumer j"
    and "check_payee w (rc_provider_token cx) (job_mint j) (job_provider j) = Inr ()"
    and "check_payee w (rc_fee_token cx) (job_mint j) FEE_AUTHORITY = Inr ()"
    and "check_opt_payee w (rc_storage_token cx) (job_mint j) (job_storage_payee j) = Inr ()"
    and "check_opt_payee w (rc_author_token cx) (job_mint j) (job_author_payee j) = Inr ()"
  using assms unfolding check_release_accounts_def lookup_job_def check_vault_address_def
    vault_of_def result_iff sum.inject
  by - (elim exE conjE, simp)+

lemma finish_release_Inr:
  assumes "finish_release rt cx j w = Inr w'"
  obtains sp tk where
    "settle rt (rc_job cx) j (rc_vault cx) (rc_provider_token cx) (rc_fee_token cx)
       (rc_storage_token cx) (rc_author_token cx) (rc_consumer cx) (w_tokens w) = Inr (sp, tk)"
    "w_jobs w' = (w_jobs w)(rc_job cx := None)" "w_tokens w' = tk" "w_now w' = w_now w"
    "w_events w' = w_events w @ [JobReleased (rc_job cx) (job_id j) (split_provider sp)
       (split_fee sp) (split_storage sp) (split_author sp)]"
  using assms by (auto simp: finish_release_def result_iff)

lemma escrow_inv_finish_release:
  assumes laws: "spl_laws rt" "pda_laws rt" and inv: "escrow_inv rt w"
    and vault: "rc_vault cx = vault_of rt (rc_job cx)"
    and ok: "finish_release rt cx j w = Inr w'"
  shows "escrow_inv rt w'"
proof -
  from ok obtain sp tk where
    st: "settle rt (rc_job cx) j (rc_vault cx) (rc_provider_token cx) (rc_fee_token cx)
       (rc_storage_token cx) (rc_author_token cx) (rc_consumer cx) (w_tokens w) = Inr (sp, tk)" and
    w': "w_jobs w' = (w_jobs w)(rc_job cx := None)" "w_tokens w' = tk" "w_now w' = w_now w"
    by (rule finish_release_Inr) (rule that)
  note s = settle_Inr [OF laws(1) st]
  from s(4) obtain tk4 where tk4: "same_meta (w_tokens w) tk4" "tk = tk4(rc_vault cx := None)" by blast
  show ?thesis
  proof (rule escrow_inv_close [OF laws(2) inv w'(1,3) tk4(1)])
    show "w_tokens w' = tk4(vault_of rt (rc_job cx) := None)" by (simp add: w' tk4 vault)
    fix k assume "k \<noteq> vault_of rt (rc_job cx)"
    then show "bal (w_tokens w) k \<le> bal (w_tokens w') k"
      using s(2) [of k] by (simp add: w' vault gets_def)
  qed
qed

lemma refund_Inr:
  assumes "refund rt cx w = Inr w'"
  obtains j tk1 tk2 where
    "w_jobs w (fc_job cx) = Some j" "fc_vault cx = vault_of rt (fc_job cx)"
    "job_state j = Active" "refund_allowed (fc_signer cx) (w_now w) j"
    "check_payee w (fc_consumer_token cx) (job_mint j) (job_consumer j) = Inr ()"
    "rt_transfer rt (w_tokens w) (fc_vault cx) (fc_consumer_token cx) (fc_job cx) (job_amount j) = Some tk1"
    "rt_close rt tk1 (fc_vault cx) (fc_consumer cx) (fc_job cx) = Some tk2"
    "w_jobs w' = (w_jobs w)(fc_job cx := None)" "w_tokens w' = tk2" "w_now w' = w_now w"
    "w_events w' = w_events w @ [JobRefunded (fc_job cx) (job_id j) (job_amount j)]"
proof -
  from assms obtain j tk1 tk2 where
    c: "check_refund_accounts rt cx w = Inr j" and
    r: "job_state j = Active" "refund_allowed (fc_signer cx) (w_now w) j"
    "rt_transfer rt (w_tokens w) (fc_vault cx) (fc_consumer_token cx) (fc_job cx) (job_amount j) = Some tk1"
    "rt_close rt tk1 (fc_vault cx) (fc_consumer cx) (fc_job cx) = Some tk2"
    "w_jobs w' = (w_jobs w)(fc_job cx := None)" "w_tokens w' = tk2" "w_now w' = w_now w"
    "w_events w' = w_events w @ [JobRefunded (fc_job cx) (job_id j) (job_amount j)]"
    by (auto simp: refund_def result_iff)
  have "w_jobs w (fc_job cx) = Some j" "fc_vault cx = vault_of rt (fc_job cx)"
    "check_payee w (fc_consumer_token cx) (job_mint j) (job_consumer j) = Inr ()"
    using c unfolding check_refund_accounts_def lookup_job_def check_vault_address_def vault_of_def
      result_iff sum.inject by - (elim exE conjE, simp)+
  then show thesis using that r by blast
qed

lemma escrow_inv_refund:
  assumes laws: "spl_laws rt" "pda_laws rt" and inv: "escrow_inv rt w"
    and ok: "refund rt cx w = Inr w'"
  shows "escrow_inv rt w'"
proof -
  from ok obtain j tk1 tk2 where
    job: "w_jobs w (fc_job cx) = Some j" and
    vault: "fc_vault cx = vault_of rt (fc_job cx)" and
    auth: "job_state j = Active" "refund_allowed (fc_signer cx) (w_now w) j"
      "check_payee w (fc_consumer_token cx) (job_mint j) (job_consumer j) = Inr ()" and
    tr: "rt_transfer rt (w_tokens w) (fc_vault cx) (fc_consumer_token cx) (fc_job cx) (job_amount j) = Some tk1" and
    cl: "rt_close rt tk1 (fc_vault cx) (fc_consumer cx) (fc_job cx) = Some tk2" and
    w': "w_jobs w' = (w_jobs w)(fc_job cx := None)" "w_tokens w' = tk2" "w_now w' = w_now w"
      "w_events w' = w_events w @ [JobRefunded (fc_job cx) (job_id j) (job_amount j)]"
    by (rule refund_Inr) (rule that)
  have m: "moved (fc_vault cx) (fc_consumer_token cx) (unat (job_amount j)) (w_tokens w) tk1"
    by (rule rt_transfer_moved [OF laws(1) tr])
  show ?thesis
  proof (rule escrow_inv_close [OF laws(2) inv w'(1,3) moved_meta [OF m]])
    show "w_tokens w' = tk1(vault_of rt (fc_job cx) := None)"
      using spl_closeD(2) [OF laws(1) cl] by (simp add: w' vault)
    fix k assume "k \<noteq> vault_of rt (fc_job cx)"
    then show "bal (w_tokens w) k \<le> bal (w_tokens w') k"
      using movedD [OF m, of k] spl_closeD(2) [OF laws(1) cl]
      by (simp add: w' vault gets_def bal_def)
  qed
qed

lemma escrow_inv_rest:
  assumes inv: "escrow_inv rt w" and laws: "pda_laws rt" and r: "rest_of_chain rt w w'"
  shows "escrow_inv rt w'"
  unfolding escrow_inv_def
proof (intro allI impI)
  fix k i assume "w_jobs w' k = Some i"
  then have old: "w_jobs w k = Some i" using r by (simp add: rest_of_chain_def)
  note o = escrow_invD [OF inv old]
  then obtain v where v: "w_tokens w (vault_of rt k) = Some v" "ta_owner v = k"
    "ta_mint v = job_mint i" "unat (job_amount i) \<le> unat (ta_amount v)"
    by (auto simp: funded_def split: option.splits)
  have "\<not> rt_can_sign rt (ta_owner v)" using job_ok_no_sign [OF laws] o v(2) by blast
  then obtain x' where "w_tokens w' (vault_of rt k) = Some x'" "ta_mint x' = ta_mint v"
    "ta_owner x' = ta_owner v" "unat (ta_amount v) \<le> unat (ta_amount x')"
    using r v(1) unfolding rest_of_chain_def by blast
  then have "funded rt (w_tokens w') k i" using v by (simp add: funded_def)
  moreover have "sint (w_now w) \<le> sint (w_now w')" using r by (simp add: rest_of_chain_def)
  ultimately show "job_ok rt k i \<and> sint (job_created_at i) \<le> sint (w_now w') \<and> funded rt (w_tokens w') k i"
    using o by auto
qed

lemma chain_step_inv:
  assumes "spl_laws rt" and "pda_laws rt"
  shows "chain_step rt w w' \<Longrightarrow> escrow_inv rt w \<Longrightarrow> escrow_inv rt w'"
proof (induction rule: chain_step.induct)
  case (step_create cx jid amount timeout key w w')
  then show ?case using escrow_inv_init_job [OF assms] by (auto simp: create_job_def)
next
  case (step_create_split cx jid amount timeout key sp sb ap ab w w')
  then show ?case using escrow_inv_init_job [OF assms] by (auto simp: create_job_split_def)
next
  case (step_release rcx w w')
  then obtain j where "check_release_accounts rt rcx w = Inr j" "finish_release rt rcx j w = Inr w'"
    by (auto simp: release_def result_iff)
  with step_release.prems show ?case
    using escrow_inv_finish_release [OF assms] check_release_accounts_Inr(2) by blast
next
  case (step_release_verified ixs vcx ih oh w w')
  then obtain j where "check_release_accounts rt vcx w = Inr j" "finish_release rt vcx j w = Inr w'"
    by (auto simp: release_verified_def result_iff)
  with step_release_verified.prems show ?case
    using escrow_inv_finish_release [OF assms] check_release_accounts_Inr(2) by blast
next
  case (step_refund fcx w w')
  then show ?case using escrow_inv_refund [OF assms] by blast
next
  case (step_other w w')
  then show ?case using escrow_inv_rest assms(2) by blast
qed

lemma chain_reachable_inv:
  assumes "spl_laws rt" and "pda_laws rt"
  shows "chain_reachable rt w \<Longrightarrow> escrow_inv rt w"
proof (induction rule: chain_reachable.induct)
  case (chain_start w)
  then show ?case by (simp add: escrow_inv_def)
next
  case (chain_next w w')
  then show ?case using chain_step_inv [OF assms] by blast
qed

end
