(* ===== verification/Precompile_Ix.thy ===== *)
theory Precompile_Ix
  imports Escrow
begin

text \<open>
  The Ed25519 precompile instruction the client builds (\<open>crates/cloudiy/src/solana.rs\<close>) to go in front
  of \<open>release_verified\<close>, its byte layout, and what the contract's \<open>verify_ed25519\<close> says of it.
\<close>

definition ed25519_verify_ix_at :: "pubkey \<Rightarrow> bytes \<Rightarrow> bytes \<Rightarrow> u16 \<Rightarrow> instruction" where
  "ed25519_verify_ix_at pk message signature ix_index =
     (let pk_off = 2 + 14 :: u16; sig_off = pk_off + 32; msg_off = sig_off + 64 in
      \<lparr>ix_program_id = ED25519_PROGRAM_ID,
       ix_data = [1] @ [0] @ to_le_bytes sig_off @ to_le_bytes ix_index @ to_le_bytes pk_off @
         to_le_bytes ix_index @ to_le_bytes msg_off @
         to_le_bytes (word_of_nat (length message) :: u16) @ to_le_bytes ix_index @
         pk @ signature @ message\<rparr>)"

definition ed25519_verify_ix :: "pubkey \<Rightarrow> bytes \<Rightarrow> bytes \<Rightarrow> instruction" where
  "ed25519_verify_ix pk message signature = ed25519_verify_ix_at pk message signature 0xFFFF"

lemma u16_bytes:
  obtains a b where "to_le_bytes (w :: u16) = [a, b]" "from_le_bytes [a, b] = w"
proof -
  have "to_le_bytes w = [word_of_nat (unat w mod 256), word_of_nat (unat w div 256 mod 256)]"
    by (simp add: to_le_bytes_def numeral_2_eq_2)
  with that from_to_le_bytes [of w] show thesis by simp
qed

lemma ix_data_layout:
  fixes pk message signature :: bytes and i :: u16
  defines "d \<equiv> ix_data (ed25519_verify_ix_at pk message signature i)"
  assumes l: "length pk = 32" "length signature = 64"
  shows "d ! 0 = 1" "u16_at d 2 = 48" "u16_at d 4 = i" "u16_at d 6 = 16" "u16_at d 8 = i" "u16_at d 10 = 112"
    "u16_at d 12 = word_of_nat (length message)" "u16_at d 14 = i" "length d = 112 + length message"
    "drop 16 d = pk @ signature @ message"
proof -
  obtain a b where ab: "to_le_bytes i = [a, b]" "from_le_bytes [a, b] = i" by (rule u16_bytes)
  obtain m n where mn: "to_le_bytes (word_of_nat (length message) :: u16) = [m, n]"
    "from_le_bytes [m, n] = (word_of_nat (length message) :: u16)" by (rule u16_bytes)
  have c: "from_le_bytes [48, 0] = (48 :: u16)" "from_le_bytes [16, 0] = (16 :: u16)"
    "from_le_bytes [112, 0] = (112 :: u16)" by (simp_all add: from_le_bytes_def)
  have two: "LENGTH(16) div 8 = Suc (Suc 0)" by simp
  have cb: "to_le_bytes (48 :: u16) = [48, 0]" "to_le_bytes (16 :: u16) = [16, 0]"
    "to_le_bytes (112 :: u16) = [112, 0]"
    unfolding to_le_bytes_def two by simp_all
  have d: "d = [1, 0, 48, 0, a, b, 16, 0, a, b, 112, 0, m, n, a, b] @ pk @ signature @ message"
    by (simp add: d_def ed25519_verify_ix_at_def Let_def ab mn cb)
  show "d ! 0 = 1" "u16_at d 2 = 48" "u16_at d 4 = i" "u16_at d 6 = 16" "u16_at d 8 = i" "u16_at d 10 = 112"
    "u16_at d 12 = word_of_nat (length message)" "u16_at d 14 = i" "length d = 112 + length message"
    "drop 16 d = pk @ signature @ message"
    unfolding d u16_at_def using l ab(2) mn(2) c by simp_all
qed

lemma slice_drop: "slice d (n + a) (n + b) = slice (drop n d) a b"
  by (simp add: slice_def add.commute)

text \<open>The contract accepts the instruction the client builds exactly when it points to itself.\<close>

lemma verify_client_ix:
  assumes l: "length pk = 32" "length signature = 64" "length message < 65536"
  shows "verify_ed25519 (ed25519_verify_ix_at pk message signature i # rest) pk message
    = (if i = 0xFFFF then Inr () else Inl (EscrowErr BadSignature))"
proof -
  note d = ix_data_layout [OF l(1,2), of message i]
  have m: "unat (word_of_nat (length message) :: u16) = length message"
    using l(3) by (simp add: unat_of_nat)
  have s: "slice (ix_data (ed25519_verify_ix_at pk message signature i)) 16 48 = pk"
    "slice (ix_data (ed25519_verify_ix_at pk message signature i)) 112 (112 + length message) = message"
    using slice_drop [of "ix_data (ed25519_verify_ix_at pk message signature i)" 16 0 32]
      slice_drop [of "ix_data (ed25519_verify_ix_at pk message signature i)" 16 96 "96 + length message"] l(1,2)
    unfolding d(10) by (simp_all add: slice_def [of "pk @ signature @ message"])
  have p: "ix_program_id (ed25519_verify_ix_at pk message signature i) = ED25519_PROGRAM_ID"
    by (simp add: ed25519_verify_ix_at_def Let_def)
  show ?thesis
    by (simp add: verify_ed25519_def d m s p Let_def)
qed

end
