(* ===== verification/Escrow_Theorems.thy ===== *)
theory Escrow_Theorems
  imports Escrow_Chain Precompile_Ix
begin

text \<open>
  The properties of the escrow program: what each instruction pays to whom, who may trigger it and
  when, that it goes through when the accounts are in order, what \<open>release_verified\<close> proves about
  the signer, and the two situations in which the funds of a job cannot be settled. The witnesses
  run on a small concrete ledger.
\<close>

section \<open>The result signature\<close>

subsection \<open>The message names the job, the input and the output\<close>

lemma HEX_distinct: "distinct HEX"
  by (simp add: HEX_def as_bytes_def of_char_def)

lemma HEX_nth_inject: "a < 16 \<Longrightarrow> b < 16 \<Longrightarrow> HEX ! a = HEX ! b \<longleftrightarrow> a = b"
  by (rule nth_eq_iff_index_eq [OF HEX_distinct]) (simp_all add: HEX_def)

lemma nibbles: "unat (drop_bit 4 (b :: u8)) = unat b div 16" "unat (b AND 0x0f) = unat b mod 16"
proof -
  show "unat (drop_bit 4 b) = unat b div 16" by (simp add: drop_bit_eq_div unat_div)
  have "b AND 0x0f = take_bit 4 b" by (simp add: take_bit_eq_mask mask_eq_exp_minus_1)
  then show "unat (b AND 0x0f) = unat b mod 16" by (simp add: unsigned_take_bit_eq take_bit_eq_mod unat_mod)
qed

lemma nibbles_inject:
  fixes a b :: u8
  assumes "HEX ! unat (drop_bit 4 a) = HEX ! unat (drop_bit 4 b)"
    and "HEX ! unat (a AND 0x0f) = HEX ! unat (b AND 0x0f)"
  shows "a = b"
proof -
  have l: "unat a < 256" "unat b < 256"
    using unsigned_less [of a, where ?'a = nat] unsigned_less [of b, where ?'a = nat] by auto
  have "unat a div 16 = unat b div 16"
    using assms(1) l unfolding nibbles by (subst (asm) HEX_nth_inject) auto
  moreover have "unat a mod 16 = unat b mod 16"
    using assms(2) unfolding nibbles by (subst (asm) HEX_nth_inject) auto
  ultimately have "unat a = unat b" by (metis div_mod_decomp)
  then show ?thesis by (simp add: word_unat_eq_iff)
qed

lemma uuid_loop_inject:
  "length xs = length ys \<Longrightarrow> uuid_loop i xs = uuid_loop i ys \<longleftrightarrow> xs = ys"
proof (induction xs ys arbitrary: i rule: list_induct2)
  case Nil
  then show ?case by simp
next
  case (Cons x xs y ys)
  then show ?case using nibbles_inject [of x y] by auto
qed

lemma length_uuid_loop_cong:
  "length xs = length ys \<Longrightarrow> length (uuid_loop i xs) = length (uuid_loop i ys)"
  by (induction xs ys arbitrary: i rule: list_induct2) simp_all

lemma result_message_inject:
  assumes "length jid = 16" "length jid' = 16" "length ih = 32" "length ih' = 32"
  shows "result_message jid ih oh = result_message jid' ih' oh' \<longleftrightarrow> jid = jid' \<and> ih = ih' \<and> oh = oh'"
  using assms length_uuid_loop_cong [of jid jid' 0]
  by (auto simp: result_message_def uuid_string_def uuid_loop_inject)

subsection \<open>The Ed25519 precompile\<close>

text \<open>
  Documented behaviour of the precompile: a transaction runs only if, for each signature an
  Ed25519 instruction declares, the key verifies the message under \<open>verify\<close>, each of the three
  read from the instruction its index names (\<open>0xFFFF\<close>: the instruction itself).
\<close>

definition referenced_data :: "instruction list \<Rightarrow> bytes \<Rightarrow> u16 \<Rightarrow> bytes" where
  "referenced_data ixs d idx = (if idx = 0xFFFF then d else ix_data (ixs ! unat idx))"

definition ed25519_ix_checked ::
  "(bytes \<Rightarrow> bytes \<Rightarrow> bytes \<Rightarrow> bool) \<Rightarrow> instruction list \<Rightarrow> bytes \<Rightarrow> bool" where
  "ed25519_ix_checked verify ixs d \<longleftrightarrow> (\<forall>i < unat (d ! 0).
     let o' = 2 + 14 * i; pk_off = unat (u16_at d (o' + 4)); msg_off = unat (u16_at d (o' + 8));
         msg_size = unat (u16_at d (o' + 10)); sig_off = unat (u16_at d o') in
     verify (slice (referenced_data ixs d (u16_at d (o' + 6))) pk_off (pk_off + 32))
            (slice (referenced_data ixs d (u16_at d (o' + 12))) msg_off (msg_off + msg_size))
            (slice (referenced_data ixs d (u16_at d (o' + 2))) sig_off (sig_off + 64)))"

definition precompile_checked ::
  "(bytes \<Rightarrow> bytes \<Rightarrow> bytes \<Rightarrow> bool) \<Rightarrow> instruction list \<Rightarrow> bool" where
  "precompile_checked verify ixs \<longleftrightarrow>
     (\<forall>ix \<in> set ixs. ix_program_id ix = ED25519_PROGRAM_ID \<longrightarrow>
        ed25519_ix_checked verify ixs (ix_data ix))"

lemma verify_ed25519_Inr:
  assumes "verify_ed25519 ixs pk msg = Inr u"
  obtains ix rest where "ixs = ix # rest" "ix_program_id ix = ED25519_PROGRAM_ID"
    "ix_data ix ! 0 = 1" "u16_at (ix_data ix) 4 = 0xFFFF" "u16_at (ix_data ix) 8 = 0xFFFF"
    "u16_at (ix_data ix) 14 = 0xFFFF"
    "slice (ix_data ix) (unat (u16_at (ix_data ix) 6)) (unat (u16_at (ix_data ix) 6) + 32) = pk"
    "slice (ix_data ix) (unat (u16_at (ix_data ix) 10))
       (unat (u16_at (ix_data ix) 10) + unat (u16_at (ix_data ix) 12)) = msg"
  using assms
  by (cases ixs) (auto simp: verify_ed25519_def result_iff Let_def require_Inr_iff)

lemma verify_ed25519_sound:
  assumes v: "verify_ed25519 ixs pk msg = Inr u" and pc: "precompile_checked verify ixs"
  shows "\<exists>sig. verify pk msg sig"
proof -
  from v obtain ix rest where ix: "ixs = ix # rest" "ix_program_id ix = ED25519_PROGRAM_ID"
    "ix_data ix ! 0 = 1" "u16_at (ix_data ix) 4 = 0xFFFF" "u16_at (ix_data ix) 8 = 0xFFFF"
    "u16_at (ix_data ix) 14 = 0xFFFF"
    "slice (ix_data ix) (unat (u16_at (ix_data ix) 6)) (unat (u16_at (ix_data ix) 6) + 32) = pk"
    "slice (ix_data ix) (unat (u16_at (ix_data ix) 10))
       (unat (u16_at (ix_data ix) 10) + unat (u16_at (ix_data ix) 12)) = msg"
    by (rule verify_ed25519_Inr) (rule that)
  from pc ix(1,2) have "ed25519_ix_checked verify ixs (ix_data ix)"
    by (simp add: precompile_checked_def)
  then have "0 < unat (ix_data ix ! 0) \<longrightarrow>
      verify (slice (referenced_data ixs (ix_data ix) (u16_at (ix_data ix) 8))
                (unat (u16_at (ix_data ix) 6)) (unat (u16_at (ix_data ix) 6) + 32))
             (slice (referenced_data ixs (ix_data ix) (u16_at (ix_data ix) 14))
                (unat (u16_at (ix_data ix) 10))
                (unat (u16_at (ix_data ix) 10) + unat (u16_at (ix_data ix) 12)))
             (slice (referenced_data ixs (ix_data ix) (u16_at (ix_data ix) 4))
                (unat (u16_at (ix_data ix) 2)) (unat (u16_at (ix_data ix) 2) + 64))"
    unfolding ed25519_ix_checked_def Let_def by - (drule spec [of _ 0], simp)
  with ix(3-8) show ?thesis by (auto simp: referenced_data_def)
qed

section \<open>A concrete runtime for the witnesses\<close>

text \<open>
  A small ledger that satisfies the laws: derived addresses start with the byte 255 and have no
  private key, and the two token instructions do exactly what the laws say.
\<close>

definition ledger_transfer :: "tokens \<Rightarrow> pubkey \<Rightarrow> pubkey \<Rightarrow> pubkey \<Rightarrow> u64 \<Rightarrow> tokens option" where
  "ledger_transfer tk f t a n =
     (case (tk f, tk t) of
        (Some x, Some y) \<Rightarrow>
          if ta_mint x = ta_mint y \<and> ta_owner x = a \<and> \<not> ta_frozen x \<and> \<not> ta_frozen y \<and>
             unat n \<le> unat (ta_amount x)
          then if f = t then Some tk
               else if unat (ta_amount y) + unat n < 2 ^ 64
               then Some (tk(f \<mapsto> x\<lparr>ta_amount := ta_amount x - n\<rparr>, t \<mapsto> y\<lparr>ta_amount := ta_amount y + n\<rparr>))
               else None
          else None
      | _ \<Rightarrow> None)"

definition ledger_close :: "tokens \<Rightarrow> pubkey \<Rightarrow> pubkey \<Rightarrow> pubkey \<Rightarrow> tokens option" where
  "ledger_close tk v d a =
     (case tk v of None \<Rightarrow> None
      | Some x \<Rightarrow> if ta_amount x = 0 \<and> ta_owner x = a then Some (tk(v := None)) else None)"

definition ledger_runtime :: runtime where
  "ledger_runtime = \<lparr>rt_find_pda = (\<lambda>s. (255 # concat s, 255)),
     rt_create_pda = (\<lambda>s. Some (255 # concat (butlast s))),
     rt_transfer = ledger_transfer, rt_instructions_id = [7],
     rt_can_sign = (\<lambda>k. take 1 k \<noteq> [255]), rt_close = ledger_close\<rparr>"

lemma ledger_laws [simp]: "spl_laws ledger_runtime" "pda_laws ledger_runtime"
proof -
  have "transfer_effect tk f t n tk'" if "ledger_transfer tk f t a n = Some tk'" for tk f t a n tk'
    using that by (auto simp: ledger_transfer_def transfer_effect_def split: option.splits if_splits)
  moreover have "ledger_transfer tk f t a n \<noteq> None" if "transfer_ready tk f t a n" for tk f t a n
    using that by (auto simp: ledger_transfer_def transfer_ready_def split: option.splits)
  moreover have "(\<exists>x. tk v = Some x \<and> ta_amount x = 0) \<and> tk' = tk(v := None)"
    if "ledger_close tk v d a = Some tk'" for tk v d a tk'
    using that by (auto simp: ledger_close_def split: option.splits if_splits)
  ultimately show "spl_laws ledger_runtime"
    by (auto simp: spl_laws_def spl_transfer_sound_def spl_transfer_complete_def
        spl_close_sound_def spl_close_complete_def ledger_runtime_def ledger_close_def)
  show "pda_laws ledger_runtime" by (simp add: pda_laws_def ledger_runtime_def)
qed

definition demo_id :: bytes where
  "demo_id = replicate 16 9"

definition demo_consumer :: pubkey where
  "demo_consumer = replicate 32 1"

definition demo_provider :: pubkey where
  "demo_provider = replicate 32 3"

definition demo_mint :: pubkey where
  "demo_mint = replicate 32 2"

definition demo_key :: pubkey where
  "demo_key = replicate 32 8"

definition demo_ctx :: create_ctx where
  "demo_ctx = \<lparr>cc_consumer = demo_consumer, cc_provider = demo_provider, cc_mint = demo_mint,
     cc_job = 255 # concat (job_seeds demo_consumer demo_id),
     cc_vault = 255 # concat (vault_seeds (255 # concat (job_seeds demo_consumer demo_id))),
     cc_consumer_token = [4]\<rparr>"

definition demo_world :: "u64 \<Rightarrow> world" where
  "demo_world n = \<lparr>w_jobs = (\<lambda>_. None),
     w_tokens = [[4] \<mapsto> \<lparr>ta_mint = demo_mint, ta_owner = demo_consumer, ta_amount = n, ta_frozen = False\<rparr>,
        [5] \<mapsto> \<lparr>ta_mint = demo_mint, ta_owner = demo_provider, ta_amount = 0, ta_frozen = False\<rparr>,
        [6] \<mapsto> \<lparr>ta_mint = demo_mint, ta_owner = FEE_AUTHORITY, ta_amount = 0, ta_frozen = False\<rparr>],
     w_mints = (\<lambda>k. k = demo_mint), w_now = 1000, w_events = []\<rparr>"

lemma validate_split_0: "validate_split 0 p 0 q = Inr ()"
  by (simp add: validate_split_Inr)


definition demo_job :: job where
  "demo_job = \<lparr>job_id = demo_id, job_consumer = demo_consumer, job_provider = demo_provider, job_mint = demo_mint,
     job_amount = 1000000, job_deadline = 4600, job_state = Active, job_bump = 255,
     job_provider_node_key = demo_key, job_storage_payee = default_pubkey, job_storage_bps = 0,
     job_author_payee = default_pubkey, job_author_bps = 0, job_created_at = 1000\<rparr>"

text \<open>The world after the job is created, at a later time and with a given balance in its vault.\<close>

definition demo_live :: "u64 \<Rightarrow> i64 \<Rightarrow> world" where
  "demo_live v now = \<lparr>w_jobs = [cc_job demo_ctx \<mapsto> demo_job],
     w_tokens = (w_tokens (demo_world 0))(
        cc_vault demo_ctx \<mapsto> \<lparr>ta_mint = demo_mint, ta_owner = cc_job demo_ctx, ta_amount = v, ta_frozen = False\<rparr>),
     w_mints = (\<lambda>k. k = demo_mint), w_now = now,
     w_events = [JobCreated (cc_job demo_ctx) demo_id demo_consumer demo_provider 1000000 4600]\<rparr>"

definition demo_release :: release_ctx where
  "demo_release = \<lparr>rc_consumer = demo_consumer, rc_job = cc_job demo_ctx, rc_vault = cc_vault demo_ctx,
     rc_provider_token = [5], rc_fee_token = [6], rc_storage_token = None, rc_author_token = None\<rparr>"

definition demo_refund :: "pubkey \<Rightarrow> refund_ctx" where
  "demo_refund signer = \<lparr>fc_signer = signer, fc_consumer = demo_consumer, fc_job = cc_job demo_ctx,
     fc_vault = cc_vault demo_ctx, fc_consumer_token = [4]\<rparr>"

lemmas demo_defs = demo_ctx_def demo_world_def demo_job_def demo_live_def demo_release_def
  demo_refund_def ledger_runtime_def job_seeds_def vault_seeds_def as_bytes_def

lemma demo_created: "create_job ledger_runtime demo_ctx demo_id 1000000 3600 demo_key (demo_world 1000000)
    = Inr (demo_live 1000000 1000)"
  by (simp add: create_job_def init_job_def check_create_accounts_def lookup_token_def demo_defs
      validate_split_0 ledger_transfer_def s_checked_add_def s_fits_def s_min_def s_max_def fun_eq_iff
      del: One_nat_def)

lemma demo_reachable: "chain_reachable ledger_runtime (demo_live 1000000 1000)"
proof -
  have "chain_reachable ledger_runtime (demo_world 1000000)"
    by (rule chain_start) (simp_all add: demo_world_def)
  moreover have "rt_can_sign ledger_runtime (cc_consumer demo_ctx)"
    by (simp add: ledger_runtime_def demo_ctx_def demo_consumer_def)
  ultimately show ?thesis by (blast intro: chain_next step_create demo_created)
qed

lemma demo_release_ok: "is_ok (release ledger_runtime demo_release (demo_live 1000000 1000))"
  by (simp add: release_def check_release_accounts_def lookup_job_def lookup_token_def
      check_job_address_def check_vault_address_def check_payee_def check_opt_payee_def
      check_settleable_def CHALLENGE_WINDOW_SECS_def finish_release_def settle_def compute_split_def
      cut_def checked_mul_def checked_div_def checked_sub_def PROTOCOL_FEE_BPS_def pay_def pay_opt_def
      ledger_transfer_def ledger_close_def demo_defs del: One_nat_def)

section \<open>Properties\<close>

text \<open>
  C1. Solvency. In every world the chain can reach, by any interleaving of the program's
  instructions with anything the rest of the chain does, every job account is well formed (active,
  positive amount, the split leaves a share, the deadline between one minute and thirty days after
  creation) and its vault exists, belongs to it, and holds at least the amount it promises.
\<close>
theorem escrow_always_funded:
  assumes "spl_laws rt" and "pda_laws rt" and "chain_reachable rt w" and "w_jobs w jk = Some j"
  shows "job_ok rt jk j \<and> funded rt (w_tokens w) jk j \<and> sint (job_created_at j) \<le> sint (w_now w)"
  using escrow_invD [OF chain_reachable_inv [OF assms(1-3)] assms(4)] by blast

lemma escrow_always_funded_witness:
  "job_ok ledger_runtime (cc_job demo_ctx) demo_job \<and>
   funded ledger_runtime (w_tokens (demo_live 1000000 1000)) (cc_job demo_ctx) demo_job \<and>
   sint (job_created_at demo_job) \<le> sint (w_now (demo_live 1000000 1000))"
  by (rule escrow_always_funded [OF ledger_laws demo_reachable]) (simp add: demo_live_def)

lemma release_Inr:
  assumes "release rt cx w = Inr w'"
  obtains j where "check_release_accounts rt cx w = Inr j" "check_settleable j w = Inr ()"
    "finish_release rt cx j w = Inr w'"
  using assms by (auto simp: release_def result_iff)

text \<open>What the payout handlers have in common: the shares, who gets them, and what is left.\<close>

definition paid_out :: "'a release_ctx_scheme \<Rightarrow> job \<Rightarrow> world \<Rightarrow> world \<Rightarrow> bool" where
  "paid_out cx j w w' \<longleftrightarrow>
     (let a = unat (job_amount j); fee = a * 400 div 10000;
          storage = a * unat (job_storage_bps j) div 10000;
          author = a * unat (job_author_bps j) div 10000 in
      fee + storage + author < a \<and>
      (\<forall>k. bal (w_tokens w') k + gets k (rc_vault cx) a =
         bal (w_tokens w) k + gets k (rc_provider_token cx) (a - fee - storage - author) +
         gets k (rc_fee_token cx) fee + gets_opt k (rc_storage_token cx) storage +
         gets_opt k (rc_author_token cx) author) \<and>
      w_tokens w' (rc_vault cx) = None \<and> w_jobs w' = (w_jobs w)(rc_job cx := None))"

definition token_of :: "world \<Rightarrow> pubkey \<Rightarrow> pubkey \<Rightarrow> pubkey \<Rightarrow> bool" where
  "token_of w k mint ow \<longleftrightarrow>
     (case w_tokens w k of None \<Rightarrow> False | Some t \<Rightarrow> ta_mint t = mint \<and> ta_owner t = ow)"

lemma check_payee_iff: "check_payee w k mint ow = Inr u \<longleftrightarrow> token_of w k mint ow"
  by (cases "w_tokens w k") (auto simp: check_payee_def lookup_token_def token_of_def result_iff)

lemma check_opt_payee_iff:
  "check_opt_payee w k mint ow = Inr u \<longleftrightarrow> (case k of None \<Rightarrow> True | Some k \<Rightarrow> token_of w k mint ow)"
  by (simp add: check_opt_payee_def check_payee_iff split: option.splits)

lemma paid_out_finish:
  assumes laws: "spl_laws rt" and ok: "finish_release rt cx j w = Inr w'"
  shows "paid_out cx j w w'"
proof -
  from ok obtain sp tk where
    st: "settle rt (rc_job cx) j (rc_vault cx) (rc_provider_token cx) (rc_fee_token cx)
       (rc_storage_token cx) (rc_author_token cx) (rc_consumer cx) (w_tokens w) = Inr (sp, tk)" and
    w': "w_jobs w' = (w_jobs w)(rc_job cx := None)" "w_tokens w' = tk"
    by (rule finish_release_Inr) (rule that)
  note s = settle_Inr [OF laws st]
  define a where "a = unat (job_amount j)"
  from s(1) have c: "unat (split_fee sp) = a * 400 div 10000"
    "unat (split_storage sp) = a * unat (job_storage_bps j) div 10000"
    "unat (split_author sp) = a * unat (job_author_bps j) div 10000"
    "split_total sp = a" "0 < unat (split_provider sp)"
    by (simp_all add: compute_split_Inr Let_def a_def)
  have "unat (split_provider sp)
      = a - unat (split_fee sp) - unat (split_storage sp) - unat (split_author sp)"
    using c(4) by (simp add: split_total_def)
  then have "unat (split_provider sp) =
      a - a * 400 div 10000 - a * unat (job_storage_bps j) div 10000
        - a * unat (job_author_bps j) div 10000"
    by (simp only: c)
  with s(2,3) c w' show ?thesis
    by (simp add: paid_out_def Let_def split_total_def flip: a_def)
qed

text \<open>
  C3. A successful \<open>release\<close> is signed by the job's consumer and pays exactly the escrowed amount:
  the fee account, owned by the fee authority, gets 4 percent rounded down, the storage and author
  payees their basis points rounded down, the provider's account the positive remainder, every
  other account is untouched, and the job account and its vault are gone.
\<close>
theorem release_pays_exactly:
  assumes "spl_laws rt" and "release rt cx w = Inr w'"
  shows "\<exists>j. w_jobs w (rc_job cx) = Some j \<and> rc_consumer cx = job_consumer j \<and> job_state j = Active \<and>
     rc_vault cx = vault_of rt (rc_job cx) \<and>
     token_of w (rc_provider_token cx) (job_mint j) (job_provider j) \<and>
     token_of w (rc_fee_token cx) (job_mint j) FEE_AUTHORITY \<and> paid_out cx j w w'"
proof -
  from assms(2) obtain j where c: "check_release_accounts rt cx w = Inr j"
    and s: "check_settleable j w = Inr ()" and f: "finish_release rt cx j w = Inr w'"
    by (rule release_Inr)
  note r = check_release_accounts_Inr [OF c]
  have "job_state j = Active" using s by (simp add: check_settleable_def result_iff)
  with r paid_out_finish [OF assms(1) f] show ?thesis by (auto simp: check_payee_iff)
qed

lemma release_pays_exactly_witness:
  "\<exists>w' j. w_jobs (demo_live 1000000 1000) (rc_job demo_release) = Some j \<and>
     paid_out demo_release j (demo_live 1000000 1000) w'"
proof -
  obtain w' where "release ledger_runtime demo_release (demo_live 1000000 1000) = Inr w'"
    using demo_release_ok by (auto simp: is_ok_iff)
  from release_pays_exactly [OF ledger_laws(1) this] show ?thesis by blast
qed
text \<open>The accounts a release needs, ready to receive.\<close>

definition release_ready :: "runtime \<Rightarrow> release_ctx \<Rightarrow> job \<Rightarrow> world \<Rightarrow> bool" where
  "release_ready rt cx j w \<longleftrightarrow>
     rc_consumer cx = job_consumer j \<and> rc_vault cx = vault_of rt (rc_job cx) \<and>
     token_of w (rc_provider_token cx) (job_mint j) (job_provider j) \<and>
     token_of w (rc_fee_token cx) (job_mint j) FEE_AUTHORITY \<and>
     payable (w_tokens w) (rc_vault cx) (job_mint j) (rc_provider_token cx) \<and>
     payable (w_tokens w) (rc_vault cx) (job_mint j) (rc_fee_token cx) \<and>
     (case rc_storage_token cx of None \<Rightarrow> job_storage_bps j = 0
      | Some t \<Rightarrow> token_of w t (job_mint j) (job_storage_payee j) \<and>
          payable (w_tokens w) (rc_vault cx) (job_mint j) t) \<and>
     (case rc_author_token cx of None \<Rightarrow> job_author_bps j = 0
      | Some t \<Rightarrow> token_of w t (job_mint j) (job_author_payee j) \<and>
          payable (w_tokens w) (rc_vault cx) (job_mint j) t)"

text \<open>
  A release goes through. In a reachable world, when the accounts are the right ones and can
  receive (not frozen, no overflow), the vault holds exactly the escrowed amount, and the amount
  times each rate fits in 64 bits, the consumer's \<open>release\<close> succeeds.
\<close>
theorem release_succeeds:
  assumes laws: "spl_laws rt" "pda_laws rt" and w: "chain_reachable rt w"
    and job: "w_jobs w (rc_job cx) = Some j" and ready: "release_ready rt cx j w"
    and vault: "vault_ready (w_tokens w) (rc_vault cx) (rc_job cx) (job_mint j)"
    and full: "bal (w_tokens w) (rc_vault cx) = unat (job_amount j)" and fits: "split_fits j"
  shows "\<exists>w'. release rt cx w = Inr w'"
proof -
  note inv = escrow_invD [OF chain_reachable_inv [OF laws w] job]
  then have ok: "job_ok rt (rc_job cx) j" by blast
  obtain sp where sp: "compute_split j = Inr sp"
    using compute_split_ok [OF _ _ fits] ok by (auto simp: job_ok_def)
  have addr: "check_job_address rt (rc_job cx) j = Inr ()"
    using ok laws(2) by (simp add: check_job_address_def job_ok_def pda_laws_def job_address_def)
  have va: "check_vault_address rt (rc_job cx) (rc_vault cx) = Inr ()"
    using ready by (simp add: check_vault_address_def release_ready_def vault_of_def)
  have vt: "\<exists>t. w_tokens w (rc_vault cx) = Some t"
    using vault by (cases "w_tokens w (rc_vault cx)") (auto simp: vault_ready_def)
  have c: "check_release_accounts rt cx w = Inr j"
    using job addr va vt ready
    by (auto simp: check_release_accounts_def lookup_job_def lookup_token_def result_iff
        release_ready_def check_payee_iff check_opt_payee_iff split: option.splits)
  have s: "check_settleable j w = Inr ()"
    using ok inv by (simp add: check_settleable_def job_ok_def CHALLENGE_WINDOW_SECS_def)
  obtain tk where "settle rt (rc_job cx) j (rc_vault cx) (rc_provider_token cx) (rc_fee_token cx)
      (rc_storage_token cx) (rc_author_token cx) (rc_consumer cx) (w_tokens w) = Inr (sp, tk)"
    using settle_ok [OF laws(1) vault full sp, of "rc_provider_token cx" "rc_fee_token cx"
        "rc_storage_token cx" "rc_author_token cx" "rc_consumer cx"] ready
    by (auto simp: release_ready_def split: option.splits)
  then show ?thesis by (simp add: release_def c s finish_release_def)
qed

lemma demo_now: "w_now (demo_live v n) = n"
  by (simp add: demo_live_def)

lemma demo_bal: "bal (w_tokens (demo_live v now)) k =
    (if k = cc_vault demo_ctx then unat v else 0)"
  by (simp add: bal_def demo_live_def demo_world_def demo_ctx_def)

lemma release_succeeds_witness:
  "\<exists>w'. release ledger_runtime demo_release (demo_live 1000000 1000) = Inr w'"
proof (rule release_succeeds [OF ledger_laws demo_reachable])
  show "w_jobs (demo_live 1000000 1000) (rc_job demo_release) = Some demo_job"
    by (simp add: demo_live_def demo_release_def)
  show "release_ready ledger_runtime demo_release demo_job (demo_live 1000000 1000)"
    by (simp add: release_ready_def token_of_def payable_def vault_of_def demo_defs)
  show "vault_ready (w_tokens (demo_live 1000000 1000)) (rc_vault demo_release) (rc_job demo_release)
      (job_mint demo_job)"
    unfolding vault_ready_def demo_bal by (simp add: demo_defs)
  show "bal (w_tokens (demo_live 1000000 1000)) (rc_vault demo_release) = unat (job_amount demo_job)"
    unfolding demo_bal by (simp add: demo_defs)
  show "split_fits demo_job" by (simp add: split_fits_def demo_job_def)
qed

text \<open>
  C5. Refund authorisation. A refund succeeds only for the job's provider, at any time, or for its
  consumer, once the deadline has passed (the challenge authority never, since the window is zero
  seconds long in every reachable world); it sends exactly the escrowed amount to a token account
  of the consumer, touches no other account, and removes the job and its vault.
\<close>
theorem refund_authorised:
  assumes laws: "spl_laws rt" "pda_laws rt" and w: "chain_reachable rt w"
    and ok: "refund rt cx w = Inr w'"
  shows "\<exists>j. w_jobs w (fc_job cx) = Some j \<and>
     (fc_signer cx = job_provider j \<or>
      fc_signer cx = job_consumer j \<and> sint (job_deadline j) \<le> sint (w_now w)) \<and>
     token_of w (fc_consumer_token cx) (job_mint j) (job_consumer j) \<and>
     (\<forall>k. bal (w_tokens w') k + gets k (fc_vault cx) (unat (job_amount j)) =
        bal (w_tokens w) k + gets k (fc_consumer_token cx) (unat (job_amount j))) \<and>
     w_tokens w' (fc_vault cx) = None \<and> w_jobs w' = (w_jobs w)(fc_job cx := None)"
proof -
  from ok obtain j tk1 tk2 where
    job: "w_jobs w (fc_job cx) = Some j" and "fc_vault cx = vault_of rt (fc_job cx)" and
    auth: "job_state j = Active" "refund_allowed (fc_signer cx) (w_now w) j"
      "check_payee w (fc_consumer_token cx) (job_mint j) (job_consumer j) = Inr ()" and
    tr: "rt_transfer rt (w_tokens w) (fc_vault cx) (fc_consumer_token cx) (fc_job cx) (job_amount j) = Some tk1" and
    cl: "rt_close rt tk1 (fc_vault cx) (fc_consumer cx) (fc_job cx) = Some tk2" and
    w': "w_jobs w' = (w_jobs w)(fc_job cx := None)" "w_tokens w' = tk2" "w_now w' = w_now w"
      "w_events w' = w_events w @ [JobRefunded (fc_job cx) (job_id j) (job_amount j)]"
    by (rule refund_Inr) (rule that)
  have "sint (job_created_at j) \<le> sint (w_now w)"
    using escrow_invD [OF chain_reachable_inv [OF laws w] job] by blast
  then have who: "fc_signer cx = job_provider j \<or>
      fc_signer cx = job_consumer j \<and> sint (job_deadline j) \<le> sint (w_now w)"
    using auth(2) by (auto simp: refund_allowed_def CHALLENGE_WINDOW_SECS_def Let_def)
  have m: "moved (fc_vault cx) (fc_consumer_token cx) (unat (job_amount j)) (w_tokens w) tk1"
    by (rule rt_transfer_moved [OF laws(1) tr])
  note c = spl_closeD [OF laws(1) cl]
  have "bal tk2 k = bal tk1 k" for k using c by (auto simp: bal_def)
  then have "bal tk2 k + gets k (fc_vault cx) (unat (job_amount j)) =
      bal (w_tokens w) k + gets k (fc_consumer_token cx) (unat (job_amount j))" for k
    using movedD [OF m, of k] by simp
  with job who auth(3) w' c(2) show ?thesis by (simp add: check_payee_iff)
qed

lemma refund_runs: "\<exists>w'. refund ledger_runtime (demo_refund demo_provider) (demo_live 1000000 1000) = Inr w'"
  by (simp add: refund_def check_refund_accounts_def lookup_job_def lookup_token_def
      check_job_address_def check_vault_address_def check_payee_def refund_allowed_def
      ledger_transfer_def ledger_close_def demo_defs del: One_nat_def)

lemma refund_authorised_witness:
  "\<exists>j. w_jobs (demo_live 1000000 1000) (fc_job (demo_refund demo_provider)) = Some j \<and>
     (fc_signer (demo_refund demo_provider) = job_provider j \<or>
      fc_signer (demo_refund demo_provider) = job_consumer j \<and> sint (job_deadline j) \<le> 1000)"
proof -
  obtain w' where "refund ledger_runtime (demo_refund demo_provider) (demo_live 1000000 1000) = Inr w'"
    using refund_runs by blast
  from refund_authorised [OF ledger_laws demo_reachable this] show ?thesis
    by (auto simp: demo_now)
qed
text \<open>
  The consumer gets the money back. In every reachable world, once the deadline has passed, the
  consumer's refund to an unfrozen token account of theirs succeeds, whatever the provider does, if
  the vault holds exactly the escrowed amount.
\<close>
theorem refund_after_deadline:
  assumes laws: "spl_laws rt" "pda_laws rt" and w: "chain_reachable rt w"
    and job: "w_jobs w (fc_job cx) = Some j" and late: "sint (job_deadline j) \<le> sint (w_now w)"
    and who: "fc_signer cx = job_consumer j" "fc_consumer cx = job_consumer j"
    and va: "fc_vault cx = vault_of rt (fc_job cx)"
    and tok: "token_of w (fc_consumer_token cx) (job_mint j) (job_consumer j)"
      "payable (w_tokens w) (fc_vault cx) (job_mint j) (fc_consumer_token cx)"
    and vault: "vault_ready (w_tokens w) (fc_vault cx) (fc_job cx) (job_mint j)"
    and full: "bal (w_tokens w) (fc_vault cx) = unat (job_amount j)"
  shows "\<exists>w'. refund rt cx w = Inr w'"
proof -
  have ok: "job_ok rt (fc_job cx) j"
    using escrow_invD [OF chain_reachable_inv [OF laws w] job] by blast
  have c: "check_refund_accounts rt cx w = Inr j"
    using ok laws(2) job who(2) va tok(1) vault
    by (auto simp: check_refund_accounts_def lookup_job_def lookup_token_def check_job_address_def
        check_vault_address_def result_iff check_payee_iff job_ok_def pda_laws_def job_address_def
        vault_of_def vault_ready_def split: option.splits)
  have le: "unat (job_amount j) \<le> bal (w_tokens w) (fc_vault cx)" using full by simp
  have nz: "job_amount j \<noteq> 0" using ok by (auto simp: job_ok_def)
  from pay_step [OF laws(1) vault tok(2) le] nz obtain tk where
    tk: "rt_transfer rt (w_tokens w) (fc_vault cx) (fc_consumer_token cx) (fc_job cx) (job_amount j) = Some tk"
      "vault_ready tk (fc_vault cx) (fc_job cx) (job_mint j)" "bal tk (fc_vault cx) = 0"
    using full by (auto simp: pay_def result_iff)
  then obtain x where "tk (fc_vault cx) = Some x" "ta_amount x = 0" "ta_owner x = fc_job cx"
    by (auto simp: vault_ready_def bal_def unat_eq_zero split: option.splits)
  then obtain tk2 where "rt_close rt tk (fc_vault cx) (fc_consumer cx) (fc_job cx) = Some tk2"
    using spl_closeI [OF laws(1)] by blast
  with tk c ok late who show ?thesis by (simp add: refund_def refund_allowed_def job_ok_def Let_def)
qed

lemma demo_reachable_later: "chain_reachable ledger_runtime (demo_live 1000000 5000)"
  by (rule chain_next [OF demo_reachable], rule step_other)
    (auto simp: rest_of_chain_def demo_live_def)

lemma refund_after_deadline_witness:
  "\<exists>w'. refund ledger_runtime (demo_refund demo_consumer) (demo_live 1000000 5000) = Inr w'"
proof (rule refund_after_deadline [OF ledger_laws demo_reachable_later])
  show "w_jobs (demo_live 1000000 5000) (fc_job (demo_refund demo_consumer)) = Some demo_job"
    by (simp add: demo_live_def demo_refund_def)
  show "vault_ready (w_tokens (demo_live 1000000 5000)) (fc_vault (demo_refund demo_consumer))
      (fc_job (demo_refund demo_consumer)) (job_mint demo_job)"
    unfolding vault_ready_def demo_bal by (simp add: demo_defs)
  show "bal (w_tokens (demo_live 1000000 5000)) (fc_vault (demo_refund demo_consumer)) = unat (job_amount demo_job)"
    unfolding demo_bal by (simp add: demo_defs)
qed (simp_all add: token_of_def payable_def vault_of_def demo_defs)

text \<open>
  C4. What \<open>release_verified\<close> proves. If it succeeds in a transaction the chain executed (so the
  Ed25519 precompile checked its instructions), then the node key the consumer fixed in the escrow
  signed the result message of this job and of the claimed input and output hashes; and that
  message determines the job, the input and the output, so the signature cannot be replayed for
  another job or result. The payout is the one of \<open>release\<close>.
\<close>
theorem release_verified_sound:
  assumes laws: "spl_laws rt" and pc: "precompile_checked verify ixs"
    and ok: "release_verified rt ixs cx ih oh w = Inr w'"
  shows "\<exists>j. w_jobs w (rc_job cx) = Some j \<and> paid_out cx j w w' \<and>
     (\<exists>sig. verify (job_provider_node_key j) (result_message (job_id j) ih oh) sig) \<and>
     (length (job_id j) = 16 \<and> length ih = 32 \<longrightarrow>
       (\<forall>jid' ih' oh'. length jid' = 16 \<and> length ih' = 32 \<longrightarrow>
          result_message jid' ih' oh' = result_message (job_id j) ih oh \<longrightarrow>
          jid' = job_id j \<and> ih' = ih \<and> oh' = oh))"
proof -
  from ok obtain j where c: "check_release_accounts rt cx w = Inr j"
    and v: "verify_ed25519 ixs (job_provider_node_key j) (result_message (job_id j) ih oh) = Inr ()"
    and f: "finish_release rt cx j w = Inr w'"
    by (auto simp: release_verified_def result_iff)
  from check_release_accounts_Inr(1) [OF c] paid_out_finish [OF laws f] verify_ed25519_sound [OF v pc]
  show ?thesis using result_message_inject by blast
qed

definition demo_verified :: release_verified_ctx where
  "demo_verified = \<lparr>rc_consumer = demo_consumer, rc_job = cc_job demo_ctx, rc_vault = cc_vault demo_ctx,
     rc_provider_token = [5], rc_fee_token = [6], rc_storage_token = None, rc_author_token = None,
     rv_payer = [77], rv_instructions = [7]\<rparr>"

definition demo_tx :: "bytes \<Rightarrow> bytes \<Rightarrow> instruction list" where
  "demo_tx ih oh = [ed25519_verify_ix demo_key (result_message demo_id ih oh) (replicate 64 0)]"

lemma length_uuid_loop_le: "length (uuid_loop i xs) \<le> 3 * length xs"
proof (induction xs arbitrary: i)
  case Nil
  then show ?case by simp
next
  case (Cons x xs)
  from Cons [of "i + 1"] show ?case by simp
qed

lemma demo_verified_ok:
  assumes "length ih = 32" "length oh = 32"
  shows "is_ok (release_verified ledger_runtime (demo_tx ih oh) demo_verified ih oh (demo_live 1000000 1000))"
proof -
  have "length (result_message demo_id ih oh) < 65536"
    using length_uuid_loop_le [of 0 demo_id] assms
    by (simp add: result_message_def RESULT_DOMAIN_def uuid_string_def demo_id_def)
  then have v: "verify_ed25519 (demo_tx ih oh) demo_key (result_message demo_id ih oh) = Inr ()"
    by (simp add: demo_tx_def ed25519_verify_ix_def verify_client_ix demo_key_def)
  show ?thesis
    by (simp add: release_verified_def check_release_accounts_def lookup_job_def lookup_token_def
      check_job_address_def check_vault_address_def check_payee_def check_opt_payee_def
      check_settleable_def CHALLENGE_WINDOW_SECS_def finish_release_def settle_def compute_split_def
      cut_def checked_mul_def checked_div_def checked_sub_def PROTOCOL_FEE_BPS_def pay_def pay_opt_def
      ledger_transfer_def ledger_close_def demo_defs demo_verified_def v del: One_nat_def)
qed

lemma release_verified_sound_witness:
  "\<exists>w' j. w_jobs (demo_live 1000000 1000) (rc_job demo_verified) = Some j \<and>
     paid_out demo_verified j (demo_live 1000000 1000) w'"
proof -
  let ?h = "replicate 32 5 :: bytes"
  have "precompile_checked (\<lambda>_ _ _. True) (demo_tx ?h ?h)"
    by (simp add: precompile_checked_def ed25519_ix_checked_def Let_def)
  moreover obtain w' where
    "release_verified ledger_runtime (demo_tx ?h ?h) demo_verified ?h ?h (demo_live 1000000 1000) = Inr w'"
    using demo_verified_ok [of ?h ?h] by (auto simp: is_ok_iff)
  ultimately show ?thesis using release_verified_sound [OF ledger_laws(1)] by blast
qed

lemma paid_out_vault:
  assumes "paid_out cx j w w'"
  shows "bal (w_tokens w) (rc_vault cx) \<le> unat (job_amount j)"
proof -
  have "bal (w_tokens w') (rc_vault cx) = 0" using assms by (simp add: paid_out_def bal_def Let_def)
  moreover have "bal (w_tokens w) (rc_vault cx) \<le>
      bal (w_tokens w') (rc_vault cx) + gets (rc_vault cx) (rc_vault cx) (unat (job_amount j))"
    using assms unfolding paid_out_def Let_def by (elim conjE) (drule spec [of _ "rc_vault cx"], simp)
  ultimately show ?thesis by (simp add: gets_def)
qed

lemma finish_release_blocked:
  assumes laws: "spl_laws rt" and job: "w_jobs w jk = Some j"
    and dust: "unat (job_amount j) < bal (w_tokens w) (vault_of rt jk)"
    and c: "check_release_accounts rt cx w = Inr i" and k: "rc_job cx = jk"
  shows "finish_release rt cx i w \<noteq> Inr w'"
  using paid_out_vault [of cx i w w'] check_release_accounts_Inr(1,2) [OF c]
    paid_out_finish [OF laws, of cx i w w'] k job dust by auto


lemma demo_vault: "vault_of ledger_runtime (cc_job demo_ctx) = cc_vault demo_ctx"
  by (simp add: vault_of_def demo_defs)


text \<open>
  Amounts that cannot settle. A job whose amount is at least the 400th part of 2^64 base units
  (or too large for one of its payees' rates) is accepted at creation but can never be released:
  both settlement instructions fail with an arithmetic overflow or an earlier error.
\<close>
theorem oversized_never_settles:
  assumes job: "w_jobs w jk = Some j" and big: "\<not> split_fits j"
  shows "(\<forall>cx. rc_job cx = jk \<longrightarrow> \<not> is_ok (release rt cx w)) \<and>
    (\<forall>ixs cx ih oh. rc_job cx = jk \<longrightarrow> \<not> is_ok (release_verified rt ixs cx ih oh w))"
proof -
  have "\<not> is_ok (compute_split j)"
    using big by (auto simp: is_ok_iff compute_split_Inr split_fits_def Let_def)
  then show ?thesis
    using job by (auto simp: is_ok_iff release_def release_verified_def result_iff finish_release_def
        settle_def dest!: check_release_accounts_Inr(1))
qed

definition whale_world :: world where
  "whale_world = (case create_job ledger_runtime demo_ctx demo_id (2 ^ 62) 3600 demo_key
     (demo_world (2 ^ 62)) of Inr w \<Rightarrow> w | Inl _ \<Rightarrow> demo_world 0)"

lemma oversized_never_settles_witness:
  "create_job ledger_runtime demo_ctx demo_id (2 ^ 62) 3600 demo_key (demo_world (2 ^ 62)) = Inr whale_world \<and>
   \<not> is_ok (release ledger_runtime demo_release whale_world)"
proof -
  have c: "create_job ledger_runtime demo_ctx demo_id (2 ^ 62) 3600 demo_key (demo_world (2 ^ 62)) = Inr whale_world"
    by (simp add: whale_world_def create_job_def init_job_def check_create_accounts_def lookup_token_def
      demo_defs validate_split_0 ledger_transfer_def s_checked_add_def s_fits_def s_min_def s_max_def
      del: One_nat_def)
  then obtain deadline where "w_jobs whale_world = (w_jobs (demo_world (2 ^ 62)))(cc_job demo_ctx \<mapsto>
      new_job ledger_runtime demo_ctx demo_id (2 ^ 62) deadline demo_key default_pubkey 0 default_pubkey 0
        (w_now (demo_world (2 ^ 62))))"
    unfolding create_job_def by (rule init_job_Inr) (rule that)
  then have "\<not> is_ok (release ledger_runtime demo_release whale_world)"
    using oversized_never_settles [of whale_world "cc_job demo_ctx"]
    by (simp add: new_job_def split_fits_def demo_release_def)
  with c show ?thesis by blast
qed

end
