(* ===== verification/Ordered_Map.thy ===== *)
theory Ordered_Map
  imports Rust_Prelude
begin

text \<open>
  The standard library's \<open>BTreeMap\<close>: an association list kept sorted by its keys, so that equal maps
  are equal lists and iteration visits the keys in order. The locale \<open>ordered_map\<close> is the contract
  the components rely on; the resource vectors, the directory, the price table and the quorum tally
  are its clients.
\<close>

type_synonym ('k, 'v) btree_map = "('k \<times> 'v) list"

section \<open>Operations\<close>

fun bt_get :: "('k, 'v) btree_map \<Rightarrow> 'k \<Rightarrow> 'v option" where
  "bt_get [] k = None"
| "bt_get ((k', v) # m) k = (if k = k' then Some v else bt_get m k)"

fun bt_insert :: "'k::linorder \<Rightarrow> 'v \<Rightarrow> ('k, 'v) btree_map \<Rightarrow> ('k, 'v) btree_map" where
  "bt_insert k v [] = [(k, v)]"
| "bt_insert k v ((k', v') # m) =
     (if k < k' then (k, v) # (k', v') # m
      else if k = k' then (k, v) # m
      else (k', v') # bt_insert k v m)"

definition bt_remove :: "'k::linorder \<Rightarrow> ('k, 'v) btree_map \<Rightarrow> ('k, 'v) btree_map" where
  "bt_remove k m = filter (\<lambda>(k', _). k' \<noteq> k) m"

text \<open>\<open>entry(k).or_insert(d)\<close> followed by an update of the slot.\<close>

definition bt_entry :: "'k::linorder \<Rightarrow> 'v \<Rightarrow> ('v \<Rightarrow> 'v) \<Rightarrow> ('k, 'v) btree_map \<Rightarrow> ('k, 'v) btree_map" where
  "bt_entry k d f m = bt_insert k (f (case bt_get m k of None \<Rightarrow> d | Some v \<Rightarrow> v)) m"

definition bt_ok :: "('k::linorder, 'v) btree_map \<Rightarrow> bool" where
  "bt_ok m \<longleftrightarrow> sorted_wrt (<) (map fst m)"

text \<open>\<open>collect()\<close>/\<open>extend\<close>: later entries win.\<close>

definition bt_from_list :: "('k::linorder \<times> 'v) list \<Rightarrow> ('k, 'v) btree_map" where
  "bt_from_list xs = fold (\<lambda>(k, v). bt_insert k v) xs []"

section \<open>The contract\<close>

locale ordered_map =
  fixes empty_map :: "'m" and get :: "'m \<Rightarrow> 'k::linorder \<Rightarrow> 'v option"
    and insert :: "'k \<Rightarrow> 'v \<Rightarrow> 'm \<Rightarrow> 'm" and remove :: "'k \<Rightarrow> 'm \<Rightarrow> 'm"
    and entries :: "'m \<Rightarrow> ('k \<times> 'v) list" and ok :: "'m \<Rightarrow> bool"
  assumes ok_empty: "ok empty_map"
    and ok_insert: "ok m \<Longrightarrow> ok (insert k v m)"
    and ok_remove: "ok m \<Longrightarrow> ok (remove k m)"
    and get_empty: "get empty_map k = None"
    and get_insert: "ok m \<Longrightarrow> get (insert k v m) k' = (if k' = k then Some v else get m k')"
    and get_remove: "ok m \<Longrightarrow> get (remove k m) k' = (if k' = k then None else get m k')"
    and entries_get: "ok m \<Longrightarrow> (k, v) \<in> set (entries m) \<longleftrightarrow> get m k = Some v"
    and entries_sorted: "ok m \<Longrightarrow> sorted_wrt (<) (map fst (entries m))"
begin

definition update :: "'k \<Rightarrow> 'v \<Rightarrow> ('v \<Rightarrow> 'v) \<Rightarrow> 'm \<Rightarrow> 'm" where
  "update k d f m = insert k (f (case get m k of None \<Rightarrow> d | Some v \<Rightarrow> v)) m"

definition value_of :: "'v \<Rightarrow> 'm \<Rightarrow> 'k \<Rightarrow> 'v" where
  "value_of d m k = (case get m k of None \<Rightarrow> d | Some v \<Rightarrow> v)"

lemma ok_update: "ok m \<Longrightarrow> ok (update k d f m)"
  by (simp add: update_def ok_insert)

lemma get_update:
  "ok m \<Longrightarrow> get (update k d f m) k' = (if k' = k then Some (f (value_of d m k)) else get m k')"
  by (simp add: update_def value_of_def get_insert)

lemma value_of_update:
  "ok m \<Longrightarrow> value_of d (update k d f m) k' = (if k' = k then f (value_of d m k) else value_of d m k')"
  by (simp add: value_of_def [of _ _ k'] get_update)

lemma distinct_keys: "ok m \<Longrightarrow> distinct (map fst (entries m))"
  using entries_sorted strict_sorted_iff by blast

lemma entries_unique:
  assumes "ok m" "ok m'" and eq: "\<And>k. get m k = get m' k"
  shows "entries m = entries m'"
proof -
  have keys: "set (map fst (entries m)) = set (map fst (entries m'))"
    using entries_get [OF assms(1)] entries_get [OF assms(2)] eq by force
  have k: "map fst (entries m) = map fst (entries m')"
    using sorted_list_of_set.idem_if_sorted_distinct keys entries_sorted assms(1,2)
    by (metis strict_sorted_equal)
  show ?thesis
  proof (rule nth_equalityI)
    show l: "length (entries m) = length (entries m')" using k by (metis length_map)
    fix i assume i: "i < length (entries m)"
    then have f: "fst (entries m ! i) = fst (entries m' ! i)" using k l by (metis nth_map)
    have "get m (fst (entries m ! i)) = Some (snd (entries m ! i))"
      "get m' (fst (entries m' ! i)) = Some (snd (entries m' ! i))"
      using i l entries_get [OF assms(1)] entries_get [OF assms(2)]
      by (metis nth_mem prod.collapse)+
    with f eq show "entries m ! i = entries m' ! i" by (simp add: prod_eq_iff)
  qed
qed

text \<open>Folding an update over the entries of another map acts pointwise.\<close>

lemma fold_update:
  fixes F :: "'w \<Rightarrow> 'v \<Rightarrow> 'v" and es :: "('k \<times> 'w) list"
  assumes "ok m" and "distinct (map fst es)"
  shows "ok (fold (\<lambda>(k, w). update k d (F w)) es m)"
    and "value_of d (fold (\<lambda>(k, w). update k d (F w)) es m) k =
           (case map_of es k of None \<Rightarrow> value_of d m k | Some w \<Rightarrow> F w (value_of d m k))"
  using assms
proof (induction es arbitrary: m)
  case Nil
  { case 1 then show ?case by simp }
  { case 2 then show ?case by simp }
next
  case (Cons e es)
  obtain k' w where e: "e = (k', w)" by (cases e)
  { case 1 then show ?case using Cons.IH(1) [of "update k' d (F w) m"] by (simp add: e ok_update) }
  { case 2
    then have k': "map_of es k' = None" by (simp add: e map_of_eq_None_iff)
    from 2 have "value_of d (fold (\<lambda>(k, w). update k d (F w)) es (update k' d (F w) m)) k =
        (case map_of es k of None \<Rightarrow> value_of d (update k' d (F w) m) k
         | Some w' \<Rightarrow> F w' (value_of d (update k' d (F w) m) k))"
      by (intro Cons.IH(2)) (simp_all add: e ok_update)
    with 2 k' show ?case by (auto simp: e value_of_update split: option.splits) }
qed

lemma map_of_entries: "ok m \<Longrightarrow> map_of (entries m) k = get m k"
proof (cases "get m k")
  case None
  assume "ok m"
  then have "k \<notin> fst ` set (entries m)" using None entries_get by fastforce
  then show ?thesis using None by (simp add: map_of_eq_None_iff)
next
  case (Some v)
  assume "ok m"
  then have "(k, v) \<in> set (entries m)" "distinct (map fst (entries m))"
    using Some entries_get distinct_keys by blast+
  then show ?thesis using Some by simp
qed

end

section \<open>The sorted list implements it\<close>

lemma bt_get_map_of: "bt_get m = map_of m"
proof
  fix k show "bt_get m k = map_of m k" by (induction m k rule: bt_get.induct) auto
qed

lemma bt_insert_keys: "set (map fst (bt_insert k v m)) = insert k (set (map fst m))"
  by (induction k v m rule: bt_insert.induct) auto

lemma bt_ok_insert: "bt_ok m \<Longrightarrow> bt_ok (bt_insert k v m)"
proof (induction k v m rule: bt_insert.induct)
  case (1 k v)
  then show ?case by (simp add: bt_ok_def)
next
  case (2 k v k' v' m)
  then show ?case using bt_insert_keys [of k v m] by (auto simp: bt_ok_def)
qed

lemma bt_get_insert: "bt_ok m \<Longrightarrow> bt_get (bt_insert k v m) k' = (if k' = k then Some v else bt_get m k')"
proof (induction k v m rule: bt_insert.induct)
  case (1 k v)
  then show ?case by simp
next
  case (2 k v k' v' m)
  then show ?case by (auto simp: bt_ok_def)
qed

lemma bt_ok_remove: "bt_ok m \<Longrightarrow> bt_ok (bt_remove k m)"
  unfolding bt_ok_def bt_remove_def by (induction m) auto

lemma bt_get_remove: "bt_get (bt_remove k m) k' = (if k' = k then None else bt_get m k')"
  unfolding bt_remove_def by (induction m) auto

lemma bt_entries: "bt_ok m \<Longrightarrow> (k, v) \<in> set m \<longleftrightarrow> bt_get m k = Some v"
  by (simp add: bt_ok_def bt_get_map_of strict_sorted_iff)

interpretation bt: ordered_map "[]" bt_get bt_insert bt_remove "\<lambda>m. m" bt_ok
  by unfold_locales
    (auto simp: bt_ok_insert bt_ok_remove bt_get_insert bt_get_remove bt_entries, auto simp: bt_ok_def)

lemma bt_update: "bt.update = bt_entry"
  by (simp add: bt.update_def bt_entry_def fun_eq_iff)

lemma bt_from_list_get:
  assumes "distinct (map fst xs)"
  shows "bt_ok (bt_from_list xs)" and "bt_get (bt_from_list xs) k = map_of xs k"
proof -
  have g: "bt_ok (fold (\<lambda>(k, v). bt_insert k v) xs m) \<and>
      bt_get (fold (\<lambda>(k, v). bt_insert k v) xs m) k =
        (case map_of xs k of None \<Rightarrow> bt_get m k | Some v \<Rightarrow> Some v)"
    if "bt_ok m" "distinct (map fst xs)" for xs and m :: "('a, 'b) btree_map"
    using that
  proof (induction xs arbitrary: m)
    case Nil
    then show ?case by simp
  next
    case (Cons x xs)
    obtain k' v where x: "x = (k', v)" by (cases x)
    have "map_of xs k' = None" using Cons.prems by (simp add: x map_of_eq_None_iff)
    with Cons.IH [of "bt_insert k' v m"] Cons.prems show ?case
      by (auto simp: x bt_ok_insert bt_get_insert split: option.splits)
  qed
  from g [of "[]" xs] assms show "bt_ok (bt_from_list xs)" "bt_get (bt_from_list xs) k = map_of xs k"
    by (simp_all add: bt_from_list_def bt_ok_def split: option.splits)
qed

end
