(* ===== verification/Resources.thy ===== *)
theory Resources
  imports Ordered_Map
begin

text \<open>
  Resource accounting of a node, \<open>crates/protocol/src/resource.rs\<close>: what the hardware has, the
  slice the provider shares, what workloads have reserved, and the two operations on it.
\<close>

section \<open>Resource kinds\<close>

datatype resource_kind = Cpu | Memory | Gpu | Vram | Storage | Bandwidth | Custom string

text \<open>The derived \<open>Ord\<close>: variants in order of declaration, then the name.\<close>

fun kind_rank :: "resource_kind \<Rightarrow> nat" where
  "kind_rank Cpu = 0"
| "kind_rank Memory = 1"
| "kind_rank Gpu = 2"
| "kind_rank Vram = 3"
| "kind_rank Storage = 4"
| "kind_rank Bandwidth = 5"
| "kind_rank (Custom _) = 6"

fun kind_name :: "resource_kind \<Rightarrow> string" where
  "kind_name (Custom n) = n"
| "kind_name _ = []"

lemma kind_eq_iff: "a = b \<longleftrightarrow> kind_rank a = kind_rank b \<and> kind_name a = kind_name b"
  by (cases a; cases b) auto

instantiation resource_kind :: linorder
begin

definition less_eq_resource_kind :: "resource_kind \<Rightarrow> resource_kind \<Rightarrow> bool" where
  "a \<le> b \<longleftrightarrow> kind_rank a < kind_rank b \<or> kind_rank a = kind_rank b \<and> kind_name a \<le> kind_name b"

definition less_resource_kind :: "resource_kind \<Rightarrow> resource_kind \<Rightarrow> bool" where
  "a < b \<longleftrightarrow> kind_rank a < kind_rank b \<or> kind_rank a = kind_rank b \<and> kind_name a < kind_name b"

instance
  by standard (auto simp: less_eq_resource_kind_def less_resource_kind_def kind_eq_iff)

end

fun kind_to_string :: "resource_kind \<Rightarrow> string" where
  "kind_to_string (Custom name) = ''custom:'' @ name"
| "kind_to_string Cpu = ''cpu''"
| "kind_to_string Memory = ''memory''"
| "kind_to_string Gpu = ''gpu''"
| "kind_to_string Vram = ''vram''"
| "kind_to_string Storage = ''storage''"
| "kind_to_string Bandwidth = ''bandwidth''"

section \<open>Resource vectors\<close>

type_synonym resource_vector = "(resource_kind, u64) btree_map"

definition rv_with :: "resource_vector \<Rightarrow> resource_kind \<Rightarrow> u64 \<Rightarrow> resource_vector" where
  "rv_with self kind amount = bt_insert kind amount self"

definition rv_get :: "resource_vector \<Rightarrow> resource_kind \<Rightarrow> u64" where
  "rv_get self kind = (case bt_get self kind of None \<Rightarrow> 0 | Some v \<Rightarrow> v)"

definition rv_covers :: "resource_vector \<Rightarrow> resource_vector \<Rightarrow> bool" where
  "rv_covers self request \<longleftrightarrow> list_all (\<lambda>(k, need). need \<le> rv_get self k) request"

definition rv_checked_add :: "resource_vector \<Rightarrow> resource_vector \<Rightarrow> resource_vector" where
  "rv_checked_add self other =
     fold (\<lambda>(k, v). bt_entry k 0 (\<lambda>slot. saturating_add slot v)) other self"

definition rv_saturating_sub :: "resource_vector \<Rightarrow> resource_vector \<Rightarrow> resource_vector" where
  "rv_saturating_sub self other =
     fold (\<lambda>(k, v). bt_entry k 0 (\<lambda>e. saturating_sub e v)) other self"

section \<open>A node's resources\<close>

datatype resource_error =
    Insufficient resource_kind u64 u64
  | ShareExceedsTotal resource_kind

record resources =
  r_total :: resource_vector
  r_shared :: resource_vector
  r_allocated :: resource_vector

fun check_shares :: "resource_vector \<Rightarrow> resource_vector \<Rightarrow> resource_error + unit" where
  "check_shares tot [] = Inr ()"
| "check_shares tot ((kind, amount) # rest) =
     (if rv_get tot kind < amount then Inl (ShareExceedsTotal kind) else check_shares tot rest)"

definition declare_resources :: "resource_vector \<Rightarrow> resource_vector \<Rightarrow> resource_error + resources" where
  "declare_resources tot shared =
     rbind (check_shares tot shared) (\<lambda>_.
     Inr \<lparr>r_total = tot, r_shared = shared, r_allocated = []\<rparr>)"

definition available :: "resources \<Rightarrow> resource_vector" where
  "available self = rv_saturating_sub (r_shared self) (r_allocated self)"

fun check_request :: "resource_vector \<Rightarrow> resource_vector \<Rightarrow> resource_error + unit" where
  "check_request avail [] = Inr ()"
| "check_request avail ((kind, need) # rest) =
     (let have' = rv_get avail kind in
      if have' < need then Inl (Insufficient kind need have') else check_request avail rest)"

definition allocate :: "resources \<Rightarrow> resource_vector \<Rightarrow> resource_error + resources" where
  "allocate self request =
     rbind (check_request (available self) request) (\<lambda>_.
     Inr (self\<lparr>r_allocated := rv_checked_add (r_allocated self) request\<rparr>))"

definition release_resources :: "resources \<Rightarrow> resource_vector \<Rightarrow> resources" where
  "release_resources self request =
     self\<lparr>r_allocated := rv_saturating_sub (r_allocated self) request\<rparr>"

section \<open>What the vector operations do to each kind\<close>

definition amt :: "resource_vector \<Rightarrow> resource_kind \<Rightarrow> nat" where
  "amt v k = unat (rv_get v k)"

lemma rv_get_value: "rv_get v k = bt.value_of 0 v k"
  by (simp add: rv_get_def bt.value_of_def)

lemma bt_ok_distinct: "bt_ok m \<Longrightarrow> distinct (map fst m)"
  by (simp add: bt_ok_def strict_sorted_iff)

lemma bt_ok_Nil [simp]: "bt_ok []"
  by (simp add: bt_ok_def)

lemma rv_get_Nil [simp]: "rv_get [] k = 0" "amt [] k = 0"
  by (simp_all add: rv_get_def amt_def)

lemma rv_fold:
  fixes F :: "u64 \<Rightarrow> u64 \<Rightarrow> u64"
  assumes "bt_ok v" and "bt_ok w" and "F 0 = (\<lambda>x. x)"
  shows "bt_ok (fold (\<lambda>(k, x). bt_entry k 0 (F x)) w v)"
    and "rv_get (fold (\<lambda>(k, x). bt_entry k 0 (F x)) w v) k = F (rv_get w k) (rv_get v k)"
proof -
  note f = bt.fold_update [OF assms(1) bt_ok_distinct [OF assms(2)], unfolded bt_update, of 0 F]
  show "bt_ok (fold (\<lambda>(k, x). bt_entry k 0 (F x)) w v)" by (rule f(1))
  have "bt.value_of 0 (fold (\<lambda>(k, x). bt_entry k 0 (F x)) w v) k =
      (case bt_get w k of None \<Rightarrow> rv_get v k | Some x \<Rightarrow> F x (rv_get v k))"
    using f(2) by (simp only: rv_get_value bt_get_map_of)
  then show "rv_get (fold (\<lambda>(k, x). bt_entry k 0 (F x)) w v) k = F (rv_get w k) (rv_get v k)"
    using assms(3) by (simp add: rv_get_value bt.value_of_def [of _ w] split: option.splits)
qed

lemma saturating_0: "saturating_add x 0 = x" "saturating_sub x 0 = x"
  by (simp_all add: saturating_add_def saturating_sub_def unsigned_less)

lemma rv_add:
  assumes "bt_ok v" "bt_ok w"
  shows "bt_ok (rv_checked_add v w)"
    and "amt (rv_checked_add v w) k = min (amt v k + amt w k) (2 ^ 64 - 1)"
  using rv_fold [OF assms, of "\<lambda>x s. saturating_add s x"]
  by (simp_all add: rv_checked_add_def amt_def saturating_0 unat_saturating_add)

lemma rv_sub:
  assumes "bt_ok v" "bt_ok w"
  shows "bt_ok (rv_saturating_sub v w)"
    and "amt (rv_saturating_sub v w) k = amt v k - amt w k"
  using rv_fold [OF assms, of "\<lambda>x s. saturating_sub s x"]
  by (simp_all add: rv_saturating_sub_def amt_def saturating_0 unat_saturating_sub)

lemma rv_covers_iff: "bt_ok w \<Longrightarrow> rv_covers v w \<longleftrightarrow> (\<forall>k. amt w k \<le> amt v k)"
proof -
  assume w: "bt_ok w"
  have "rv_covers v w \<longleftrightarrow> (\<forall>k x. bt_get w k = Some x \<longrightarrow> x \<le> rv_get v k)"
    using bt_entries [OF w] by (force simp: rv_covers_def list_all_iff)
  also have "\<dots> \<longleftrightarrow> (\<forall>k. amt w k \<le> amt v k)"
    by (auto simp: amt_def rv_get_def [of w] word_le_nat_alt split: option.splits)
  finally show ?thesis .
qed

lemma check_request_ok: "check_request v w = Inr u \<longleftrightarrow> rv_covers v w"
  by (induction v w rule: check_request.induct) (auto simp: rv_covers_def Let_def not_less)

lemma check_shares_ok: "check_shares v w = Inr u \<longleftrightarrow> rv_covers v w"
  by (induction v w rule: check_shares.induct) (auto simp: rv_covers_def not_less)

lemma check_request_error:
  "check_request v w = Inl e \<Longrightarrow>
     \<exists>k need. (k, need) \<in> set w \<and> rv_get v k < need \<and> e = Insufficient k need (rv_get v k)"
  by (induction v w rule: check_request.induct) (auto simp: Let_def split: if_splits)

section \<open>The invariant\<close>

definition resources_ok :: "resources \<Rightarrow> bool" where
  "resources_ok r \<longleftrightarrow> bt_ok (r_total r) \<and> bt_ok (r_shared r) \<and> bt_ok (r_allocated r) \<and>
     (\<forall>k. amt (r_shared r) k \<le> amt (r_total r) k) \<and>
     (\<forall>k. amt (r_allocated r) k \<le> amt (r_shared r) k)"

lemma declare_Inr:
  assumes "bt_ok tot" "bt_ok shared"
  shows "declare_resources tot shared = Inr r \<longleftrightarrow>
     r = \<lparr>r_total = tot, r_shared = shared, r_allocated = []\<rparr> \<and> (\<forall>k. amt shared k \<le> amt tot k)"
  using assms by (auto simp: declare_resources_def result_iff check_shares_ok rv_covers_iff)

lemma amt_available: "resources_ok r \<Longrightarrow> amt (available r) k = amt (r_shared r) k - amt (r_allocated r) k"
  by (simp add: available_def rv_sub resources_ok_def)

lemma amt_lt: "amt v k < 2 ^ 64"
  unfolding amt_def using unsigned_less [of "rv_get v k", where ?'a = nat] by simp

lemma allocate_Inr:
  assumes r: "resources_ok r" and w: "bt_ok w"
  shows "allocate r w = Inr r' \<longleftrightarrow>
     (\<forall>k. amt (r_allocated r) k + amt w k \<le> amt (r_shared r) k) \<and>
     r' = r\<lparr>r_allocated := rv_checked_add (r_allocated r) w\<rparr>"
proof -
  have "(\<forall>k. amt w k \<le> amt (r_shared r) k - amt (r_allocated r) k)
      \<longleftrightarrow> (\<forall>k. amt (r_allocated r) k + amt w k \<le> amt (r_shared r) k)"
    using r unfolding resources_ok_def by (metis le_diff_conv2 add.commute)
  then show ?thesis
    using w amt_available [OF r] by (auto simp: allocate_def result_iff check_request_ok rv_covers_iff)
qed

lemma allocate_effect:
  assumes r: "resources_ok r" and w: "bt_ok w" and a: "allocate r w = Inr r'"
  shows "resources_ok r'" and "r_shared r' = r_shared r" and "r_total r' = r_total r"
    and "amt (r_allocated r') k = amt (r_allocated r) k + amt w k"
proof -
  from a have le: "\<And>k. amt (r_allocated r) k + amt w k \<le> amt (r_shared r) k"
    and r': "r' = r\<lparr>r_allocated := rv_checked_add (r_allocated r) w\<rparr>"
    by (simp_all add: allocate_Inr [OF r w])
  have ok: "bt_ok (r_allocated r)" using r by (simp add: resources_ok_def)
  have e: "amt (r_allocated r') k = amt (r_allocated r) k + amt w k" for k
    using le [of k] amt_lt [of "r_shared r" k] by (simp add: r' rv_add [OF ok w])
  show "amt (r_allocated r') k = amt (r_allocated r) k + amt w k" by (rule e)
  show "r_shared r' = r_shared r" "r_total r' = r_total r" by (simp_all add: r')
  show "resources_ok r'" using r le e rv_add(1) [OF ok w] by (simp add: resources_ok_def r')
qed

lemma release_effect:
  assumes r: "resources_ok r" and w: "bt_ok w"
  shows "resources_ok (release_resources r w)"
    and "amt (r_allocated (release_resources r w)) k = amt (r_allocated r) k - amt w k"
  using r w by (auto simp: release_resources_def resources_ok_def rv_sub intro: diff_le_self le_trans)

section \<open>The life of a node's resources\<close>

text \<open>
  A node's accounting with, beside it, the requests of the workloads now running: reserving adds
  one, and only the request of a running workload is ever returned.
\<close>

inductive accounting :: "resources \<Rightarrow> resource_vector list \<Rightarrow> bool" where
  declared: "bt_ok tot \<Longrightarrow> bt_ok shared \<Longrightarrow> declare_resources tot shared = Inr r \<Longrightarrow> accounting r []"
| allocated: "accounting r live \<Longrightarrow> bt_ok w \<Longrightarrow> allocate r w = Inr r' \<Longrightarrow> accounting r' (w # live)"
| refused: "accounting r live \<Longrightarrow> allocate r w = Inl e \<Longrightarrow> accounting r live"
| released: "accounting r live \<Longrightarrow> w \<in> set live \<Longrightarrow>
     accounting (release_resources r w) (remove1 w live)"

lemma accounting_inv:
  "accounting r live \<Longrightarrow> resources_ok r \<and> (\<forall>w \<in> set live. bt_ok w) \<and>
     (\<forall>k. amt (r_allocated r) k = (\<Sum>w\<leftarrow>live. amt w k))"
proof (induction rule: accounting.induct)
  case (declared tot shared r)
  then show ?case by (auto simp: declare_Inr resources_ok_def)
next
  case (allocated r live w r')
  then show ?case using allocate_effect [of r w r'] by auto
next
  case (refused r live w e)
  then show ?case by simp
next
  case (released r live w)
  then have w: "bt_ok w" and s: "\<And>k. (\<Sum>x\<leftarrow>live. amt x k) = amt w k + (\<Sum>x\<leftarrow>remove1 w live. amt x k)"
    by (auto simp: sum_list_map_remove1)
  with released release_effect [of r w] show ?case by (auto dest: notin_set_remove1 in_set_remove1 [THEN iffD1, rotated] set_remove1_subset [THEN subsetD])
qed

text \<open>
  Resource accounting is exact. Whatever the sequence of reservations (granted or refused) and
  returns, for every resource kind the amount allocated is the sum of what the running workloads
  requested, what is available is the shared slice minus that sum, and the slice is within what the
  hardware has; no saturation ever takes place.
\<close>
theorem accounting_exact:
  assumes "accounting r live"
  shows "\<forall>k. amt (r_allocated r) k = (\<Sum>w\<leftarrow>live. amt w k) \<and>
     amt (available r) k + (\<Sum>w\<leftarrow>live. amt w k) = amt (r_shared r) k \<and>
     amt (r_shared r) k \<le> amt (r_total r) k"
  using accounting_inv [OF assms] amt_available [of r] by (auto simp: resources_ok_def)

definition demo_machine :: resources where
  "demo_machine = \<lparr>r_total = [(Cpu, 32000), (Gpu, 4)], r_shared = [(Cpu, 16000), (Gpu, 2)],
     r_allocated = [(Cpu, 4000), (Gpu, 2)]\<rparr>"

lemma demo_accounting: "accounting demo_machine [[(Cpu, 4000), (Gpu, 2)]]"
proof -
  let ?r = "\<lparr>r_total = [(Cpu, 32000), (Gpu, 4)], r_shared = [(Cpu, 16000), (Gpu, 2)], r_allocated = []\<rparr>"
  have "accounting ?r []"
    by (rule declared [of "[(Cpu, 32000), (Gpu, 4)]" "[(Cpu, 16000), (Gpu, 2)]"])
      (simp_all add: bt_ok_def less_resource_kind_def declare_resources_def rv_get_def)
  then show ?thesis
    by (rule allocated)
      (simp_all add: bt_ok_def less_resource_kind_def allocate_def available_def rv_get_def
        rv_checked_add_def rv_saturating_sub_def bt_entry_def saturating_add_def demo_machine_def)
qed

lemma accounting_exact_witness: "amt (available demo_machine) Cpu + 4000 = 16000"
  using accounting_exact [OF demo_accounting]
  by (auto dest!: spec [of _ Cpu] simp: demo_machine_def amt_def rv_get_def)

text \<open>
  Admission. A reservation is granted exactly when, for every kind, the running workloads and
  the new one together fit in the shared slice; a refusal changes nothing and names a kind the
  request asks for that is short, with the amount requested and the amount really available.
\<close>
theorem allocate_exactly_when_it_fits:
  assumes "accounting r live" and "bt_ok w"
  shows "(is_ok (allocate r w) \<longleftrightarrow> (\<forall>k. (\<Sum>x\<leftarrow>live. amt x k) + amt w k \<le> amt (r_shared r) k)) \<and>
    (\<forall>e. allocate r w = Inl e \<longrightarrow> (\<exists>k need have'. e = Insufficient k need have' \<and>
       bt_get w k = Some need \<and> have' < need \<and>
       unat have' + (\<Sum>x\<leftarrow>live. amt x k) = amt (r_shared r) k))"
proof (intro conjI)
  note inv = accounting_inv [OF assms(1)]
  then have r: "resources_ok r" by blast
  show "is_ok (allocate r w) \<longleftrightarrow> (\<forall>k. (\<Sum>x\<leftarrow>live. amt x k) + amt w k \<le> amt (r_shared r) k)"
    using inv by (simp add: is_ok_iff allocate_Inr [OF r assms(2)])
  show "\<forall>e. allocate r w = Inl e \<longrightarrow> (\<exists>k need have'. e = Insufficient k need have' \<and>
       bt_get w k = Some need \<and> have' < need \<and>
       unat have' + (\<Sum>x\<leftarrow>live. amt x k) = amt (r_shared r) k)"
  proof (intro allI impI)
    fix e assume "allocate r w = Inl e"
    then obtain k need where k: "(k, need) \<in> set w" "rv_get (available r) k < need"
      "e = Insufficient k need (rv_get (available r) k)"
      by (auto simp: allocate_def rbind_Inl_iff dest: check_request_error)
    have "amt (available r) k + (\<Sum>x\<leftarrow>live. amt x k) = amt (r_shared r) k"
      using inv amt_available [OF r, of k] unfolding resources_ok_def
      by (metis le_add_diff_inverse2)
    with k show "\<exists>k need have'. e = Insufficient k need have' \<and> bt_get w k = Some need \<and>
        have' < need \<and> unat have' + (\<Sum>x\<leftarrow>live. amt x k) = amt (r_shared r) k"
      using bt_entries [OF assms(2), of k need] by (auto simp: amt_def)
  qed
qed

lemma allocate_exactly_when_it_fits_witness:
  "is_ok (allocate demo_machine [(Cpu, 12000)]) \<and> \<not> is_ok (allocate demo_machine [(Gpu, 1)])"
proof -
  have ok: "bt_ok [(Cpu, 12000 :: u64)]" "bt_ok [(Gpu, 1 :: u64)]" by (simp_all add: bt_ok_def)
  have "amt [(Cpu, 4000), (Gpu, 2)] k + amt [(Cpu, 12000)] k \<le> amt (r_shared demo_machine) k" for k
    by (cases k) (simp_all add: amt_def rv_get_def demo_machine_def)
  moreover have "\<not> amt [(Cpu, 4000), (Gpu, 2)] Gpu + amt [(Gpu, 1)] Gpu \<le> amt (r_shared demo_machine) Gpu"
    by (simp add: amt_def rv_get_def demo_machine_def)
  ultimately show ?thesis
    using allocate_exactly_when_it_fits [OF demo_accounting] ok by fastforce
qed

end
