(* ===== verification/Float64.thy ===== *)
theory Float64
  imports Complex_Main Rust_Prelude
begin

text \<open>
  Rust's \<open>f64\<close>: IEEE 754 binary64 with round-to-nearest, ties to even, gradual underflow and
  overflow to infinity, computed exactly on rationals. One NaN stands for all of them (its sign and
  payload are not specified by the language); it sorts above every number, as \<open>total_cmp\<close> orders
  the NaN the arithmetic of the language produces on the platforms that give it a clear sign bit.
\<close>

section \<open>Rounding\<close>

fun ilog2 :: "nat \<Rightarrow> nat" where
  "ilog2 n = (if n < 2 then 0 else Suc (ilog2 (n div 2)))"

declare ilog2.simps [simp del]

definition rat_log2 :: "rat \<Rightarrow> int" where
  "rat_log2 x =
     (let (p, q) = quotient_of x; e = int (ilog2 (nat p)) - int (ilog2 (nat q)) in
      if 2 powi e \<le> x then e else e - 1)"

definition round_half_even :: "rat \<Rightarrow> int" where
  "round_half_even x =
     (let f = \<lfloor>x\<rfloor>; d = x - of_int f in
      if d < 1 / 2 then f else if 1 / 2 < d then f + 1 else if even f then f else f + 1)"

text \<open>The exponent of the last place of the numbers around \<open>x\<close>.\<close>

definition ulp_exp :: "rat \<Rightarrow> int" where
  "ulp_exp x = max (rat_log2 \<bar>x\<bar>) (- 1022) - 52"

definition rd :: "rat \<Rightarrow> rat" where
  "rd x = (if x = 0 then 0
           else of_int (round_half_even (x / 2 powi ulp_exp x)) * 2 powi ulp_exp x)"

subsection \<open>The binary logarithm\<close>

lemma ilog2_bounds: "0 < n \<Longrightarrow> 2 ^ ilog2 n \<le> n \<and> n < 2 ^ Suc (ilog2 n)"
proof (induction n rule: ilog2.induct)
  case (1 n)
  show ?case
  proof (cases "n < 2")
    case True
    then show ?thesis using 1 by (subst (1 2) ilog2.simps) auto
  next
    case False
    then have "2 ^ ilog2 (n div 2) \<le> n div 2 \<and> n div 2 < 2 ^ Suc (ilog2 (n div 2))"
      using 1 by auto
    then have "2 * 2 ^ ilog2 (n div 2) \<le> n \<and> n < 2 * 2 ^ Suc (ilog2 (n div 2))" by auto
    then show ?thesis using False by (subst (1 2) ilog2.simps) auto
  qed
qed

lemma rat_log2_bounds:
  assumes "0 < x"
  shows "2 powi rat_log2 x \<le> x" and "x < 2 powi (rat_log2 x + 1)"
proof -
  obtain p q where pq: "quotient_of x = (p, q)" by (cases "quotient_of x")
  have q: "0 < q" using quotient_of_denom_pos [OF pq] .
  have x: "x = of_int p / of_int q" using quotient_of_div [OF pq] .
  then have p: "0 < p" using assms q by (simp add: zero_less_divide_iff)
  let ?a = "ilog2 (nat p)" and ?b = "ilog2 (nat q)"
  have pb: "2 ^ ?a \<le> p" "p < 2 ^ Suc ?a"
    using ilog2_bounds [of "nat p"] p by (auto simp: nat_less_iff le_nat_iff simp flip: of_nat_le_iff)
  have qb: "2 ^ ?b \<le> q" "q < 2 ^ Suc ?b"
    using ilog2_bounds [of "nat q"] q by (auto simp: nat_less_iff le_nat_iff simp flip: of_nat_le_iff)
  have P: "(2 ^ ?a :: rat) \<le> of_int p" "(of_int p :: rat) < 2 ^ Suc ?a"
    using pb by (metis of_int_le_iff of_int_numeral of_int_power, metis of_int_less_iff of_int_numeral of_int_power)
  have Q: "(2 ^ ?b :: rat) \<le> of_int q" "(of_int q :: rat) < 2 ^ Suc ?b"
    using qb by (metis of_int_le_iff of_int_numeral of_int_power, metis of_int_less_iff of_int_numeral of_int_power)
  have Q0: "(0 :: rat) < of_int q" "(0 :: rat) \<le> of_int p" using q p by simp_all
  define e where "e = int ?a - int ?b"
  have pe: "(2 :: rat) powi e = 2 ^ ?a / 2 ^ ?b" by (simp add: e_def power_int_diff)
  have up: "x < 2 powi (e + 1)"
  proof -
    have "x < 2 ^ Suc ?a / 2 ^ ?b"
      unfolding x using P Q Q0 by (intro frac_less) auto
    then show ?thesis using pe by (simp add: power_int_add mult.commute)
  qed
  have lo: "2 powi (e - 1) < x"
  proof -
    have "(2 ^ ?a / 2 ^ Suc ?b :: rat) < x"
      unfolding x using P Q Q0 by (intro frac_less2) auto
    then show ?thesis using pe by (simp add: power_int_diff)
  qed
  have r: "rat_log2 x = (if 2 powi e \<le> x then e else e - 1)"
    by (simp add: rat_log2_def pq e_def Let_def)
  show "2 powi rat_log2 x \<le> x" using lo by (simp add: r)
  show "x < 2 powi (rat_log2 x + 1)" using up by (simp add: r)
qed

lemma powi2_le_iff: "(2 :: rat) powi a \<le> 2 powi b \<longleftrightarrow> a \<le> b"
  by (meson linorder_not_less one_less_numeral_iff power_int_increasing power_int_strict_increasing
      semiring_norm(76) order_less_imp_le)

lemma powi2_less_iff: "(2 :: rat) powi a < 2 powi b \<longleftrightarrow> a < b"
  using powi2_le_iff by (meson linorder_not_less)

lemma rat_log2_mono: "0 < x \<Longrightarrow> x \<le> y \<Longrightarrow> rat_log2 x \<le> rat_log2 y"
proof -
  assume a: "0 < x" "x \<le> y"
  have "(2 :: rat) powi rat_log2 x < 2 powi (rat_log2 y + 1)"
    using rat_log2_bounds [of x] rat_log2_bounds [of y] a by linarith
  then show ?thesis by (simp add: powi2_less_iff)
qed

subsection \<open>Rounding to an integer\<close>

lemma round_half_even_of_int [simp]: "round_half_even (of_int n) = n"
  by (simp add: round_half_even_def)

lemma round_half_even_mono: "x \<le> y \<Longrightarrow> round_half_even x \<le> round_half_even y"
proof -
  assume xy: "x \<le> y"
  have f: "\<lfloor>x\<rfloor> \<le> \<lfloor>y\<rfloor>" using xy by (rule floor_mono)
  show ?thesis
  proof (cases "\<lfloor>x\<rfloor> = \<lfloor>y\<rfloor>")
    case True
    then show ?thesis using xy by (auto simp: round_half_even_def Let_def)
  next
    case False
    then have "\<lfloor>x\<rfloor> + 1 \<le> \<lfloor>y\<rfloor>" using f by simp
    moreover have "round_half_even x \<le> \<lfloor>x\<rfloor> + 1" "\<lfloor>y\<rfloor> \<le> round_half_even y"
      by (auto simp: round_half_even_def Let_def)
    ultimately show ?thesis by simp
  qed
qed

lemma round_half_even_minus: "round_half_even (- x) = - round_half_even x"
proof (cases "x = of_int \<lfloor>x\<rfloor>")
  case True
  then show ?thesis by (metis of_int_minus round_half_even_of_int)
next
  case False
  have "\<lfloor>- x\<rfloor> = - \<lceil>x\<rceil>" by (simp add: ceiling_def)
  moreover have "\<lceil>x\<rceil> = \<lfloor>x\<rfloor> + 1" using False by (auto simp: ceiling_altdef)
  ultimately have m: "\<lfloor>- x\<rfloor> = - \<lfloor>x\<rfloor> - 1" by simp
  show ?thesis by (auto simp: round_half_even_def Let_def m)
qed

subsection \<open>Rounding to a double\<close>

lemma rd_0 [simp]: "rd 0 = 0"
  by (simp add: rd_def)

lemma ulp_exp_minus [simp]: "ulp_exp (- x) = ulp_exp x"
  by (simp add: ulp_exp_def)

lemma rd_minus: "rd (- x) = - rd x"
  by (simp add: rd_def round_half_even_minus)

text \<open>Numbers with at most 53 significant bits above the smallest exponent are kept.\<close>

lemma rd_exact:
  assumes x: "x = of_int m * 2 powi k" and k: "- 1074 \<le> k" and m: "\<bar>m\<bar> \<le> 2 ^ 53"
  shows "rd x = x"
proof (cases "x = 0")
  case True
  then show ?thesis by simp
next
  case False
  let ?e = "rat_log2 \<bar>x\<bar>" and ?u = "ulp_exp x"
  have "\<exists>n. x / 2 powi ?u = of_int n"
  proof (cases "?u \<le> k")
    case True
    have "x / 2 powi ?u = of_int m * 2 powi (k - ?u)" by (simp add: x power_int_diff)
    also have "\<dots> = of_int (m * 2 ^ nat (k - ?u))" using True by (simp add: power_int_def)
    finally show ?thesis ..
  next
    case False
    then have u: "?u = ?e - 52" "k < ?e - 52" using k by (auto simp: ulp_exp_def)
    have b: "2 powi ?e \<le> \<bar>x\<bar>" using rat_log2_bounds [of "\<bar>x\<bar>"] \<open>x \<noteq> 0\<close> by simp
    have M: "of_int \<bar>m\<bar> \<le> (2 :: rat) ^ 53" using m by (metis of_int_le_iff of_int_numeral of_int_power)
    have ax: "\<bar>x\<bar> = of_int \<bar>m\<bar> * 2 powi k" by (simp add: x abs_mult)
    have "\<bar>x\<bar> \<le> 2 ^ 53 * 2 powi k" unfolding ax using M by (intro mult_right_mono) auto
    also have "\<dots> = 2 powi (k + 53)" by (simp add: power_int_add)
    finally have "(2 :: rat) powi ?e \<le> 2 powi (k + 53)" using b by simp
    then have e: "?e = k + 53" using u by (simp add: powi2_le_iff)
    have "(2 :: rat) powi (k + 53) \<le> \<bar>x\<bar>" using b by (simp only: e)
    then have "of_int \<bar>m\<bar> * 2 powi k \<ge> 2 ^ 53 * (2 :: rat) powi k"
      unfolding ax by (simp add: power_int_add)
    then have "(of_int \<bar>m\<bar> :: rat) = 2 ^ 53" using M by (simp add: mult_le_cancel_right)
    then have "\<bar>m\<bar> = 2 ^ 53" by (metis of_int_eq_iff of_int_numeral of_int_power)
    then have "even m" by (metis abs_dvd_iff dvd_abs_iff even_numeral even_power zero_less_numeral)
    then obtain h where h: "m = 2 * h" by blast
    have u1: "?u = k + 1" using u(1) e by simp
    have "x / 2 powi ?u = of_int m * 2 powi k / 2 powi (k + 1)" unfolding u1 by (simp only: x)
    then have "x / 2 powi ?u = of_int h" by (simp add: h power_int_add)
    then show ?thesis ..
  qed
  then obtain n where n: "x / 2 powi ?u = of_int n" ..
  then have "x = of_int n * 2 powi ?u" by (simp add: divide_eq_eq)
  with n False show ?thesis by (simp add: rd_def)
qed

lemma powi_eq_of_int: "0 \<le> k \<Longrightarrow> (2 :: rat) powi k = of_int (2 ^ nat k)"
  by (simp add: power_int_def)

lemma rd_powi: "- 1022 \<le> e \<Longrightarrow> rd (2 powi e) = 2 powi e"
proof -
  assume "- 1022 \<le> e"
  then show ?thesis
    by (intro rd_exact [of _ "2 ^ 52" "e - 52"]) (simp_all add: power_int_diff)
qed

text \<open>Where \<open>x\<close> lies relative to the binade of its exponent.\<close>

lemma scaled_upper: "0 < x \<Longrightarrow> x / 2 powi ulp_exp x < 2 ^ 53"
proof -
  assume x: "0 < x"
  have "x < 2 powi (rat_log2 x + 1)" using rat_log2_bounds [OF x] by simp
  also have "(2 :: rat) powi (rat_log2 x + 1) \<le> 2 powi (ulp_exp x + 53)"
    unfolding powi2_le_iff using x by (simp add: ulp_exp_def)
  also have "\<dots> = 2 ^ 53 * 2 powi ulp_exp x" by (simp add: power_int_add)
  finally show ?thesis by (simp add: divide_less_eq)
qed

lemma scaled_lower: "0 < x \<Longrightarrow> - 1022 \<le> rat_log2 x \<Longrightarrow> 2 ^ 52 \<le> x / 2 powi ulp_exp x"
proof -
  assume x: "0 < x" and e: "- 1022 \<le> rat_log2 x"
  have "2 ^ 52 * (2 :: rat) powi ulp_exp x = 2 powi rat_log2 x"
    using x e by (simp add: ulp_exp_def power_int_diff)
  also have "\<dots> \<le> x" using rat_log2_bounds [OF x] by simp
  finally show ?thesis by (simp add: le_divide_eq)
qed

lemma rd_mono_pos:
  assumes x: "0 < x" and xy: "x \<le> y"
  shows "rd x \<le> rd y"
proof -
  have y: "0 < y" using assms by simp
  have le: "ulp_exp x \<le> ulp_exp y" using rat_log2_mono [OF x xy] x y by (simp add: ulp_exp_def)
  show ?thesis
  proof (cases "ulp_exp x = ulp_exp y")
    case True
    have "round_half_even (x / 2 powi ulp_exp y) \<le> round_half_even (y / 2 powi ulp_exp y)"
      using xy by (intro round_half_even_mono divide_right_mono) auto
    then show ?thesis using x y True by (simp add: rd_def)
  next
    case False
    then have lt: "ulp_exp x < ulp_exp y" using le by simp
    then have ey: "- 1022 \<le> rat_log2 y" using x y by (auto simp: ulp_exp_def split: if_splits)
    have "x / 2 powi ulp_exp x \<le> of_int (2 ^ 53)" using scaled_upper [OF x] by simp
    then have rx: "round_half_even (x / 2 powi ulp_exp x) \<le> 2 ^ 53"
      using round_half_even_mono round_half_even_of_int by metis
    have "of_int (2 ^ 52) \<le> y / 2 powi ulp_exp y" using scaled_lower [OF y ey] by simp
    then have ry: "2 ^ 52 \<le> round_half_even (y / 2 powi ulp_exp y)"
      using round_half_even_mono round_half_even_of_int by metis
    have "rd x \<le> of_int (2 ^ 53) * 2 powi ulp_exp x"
      using rx x unfolding rd_def by (simp add: mult_right_mono del: of_int_power of_int_numeral)
    also have "\<dots> = 2 ^ 52 * 2 powi (ulp_exp x + 1)" by (simp add: power_int_add)
    also have "\<dots> \<le> 2 ^ 52 * 2 powi ulp_exp y"
      using lt powi2_le_iff [of "ulp_exp x + 1" "ulp_exp y"] by simp
    also have "\<dots> = of_int (2 ^ 52) * 2 powi ulp_exp y" by simp
    also have "\<dots> \<le> rd y"
      using ry y unfolding rd_def by (simp add: mult_right_mono del: of_int_power of_int_numeral)
    finally show ?thesis .
  qed
qed

lemma rd_nonneg: "0 \<le> x \<Longrightarrow> 0 \<le> rd x"
proof -
  assume "0 \<le> x"
  then have "of_int 0 \<le> x / 2 powi ulp_exp x" by simp
  then have "0 \<le> round_half_even (x / 2 powi ulp_exp x)"
    using round_half_even_mono round_half_even_of_int by metis
  then show ?thesis by (simp add: rd_def)
qed

lemma rd_mono: "x \<le> y \<Longrightarrow> rd x \<le> rd y"
proof -
  assume xy: "x \<le> y"
  consider "0 < x" | "x \<le> 0" "0 \<le> y" | "y < 0" by linarith
  then show ?thesis
  proof cases
    case 1
    then show ?thesis using rd_mono_pos xy by blast
  next
    case 2
    then have "0 \<le> rd (- x)" "0 \<le> rd y" by (simp_all add: rd_nonneg)
    then show ?thesis by (simp add: rd_minus)
  next
    case 3
    then have "rd (- y) \<le> rd (- x)" using xy by (intro rd_mono_pos) auto
    then show ?thesis by (simp add: rd_minus)
  qed
qed

lemma rd_idem [simp]: "rd (rd x) = rd x"
proof (cases "x = 0")
  case True
  then show ?thesis by simp
next
  case False
  let ?m = "round_half_even (x / 2 powi ulp_exp x)"
  have "\<bar>?m\<bar> \<le> 2 ^ 53"
  proof -
    have "\<bar>x\<bar> / 2 powi ulp_exp \<bar>x\<bar> < 2 ^ 53" using scaled_upper [of "\<bar>x\<bar>"] False by simp
    moreover have "ulp_exp \<bar>x\<bar> = ulp_exp x" by (simp add: ulp_exp_def)
    ultimately have "\<bar>x / 2 powi ulp_exp x\<bar> \<le> of_int (2 ^ 53)" by (simp add: abs_divide)
    from abs_le_D1 [OF this] abs_le_D2 [OF this]
    have "x / 2 powi ulp_exp x \<le> of_int (2 ^ 53)" "of_int (- (2 ^ 53)) \<le> x / 2 powi ulp_exp x"
      by simp_all
    then have "?m \<le> 2 ^ 53" "- (2 ^ 53) \<le> ?m"
      using round_half_even_mono round_half_even_of_int by metis+
    then show ?thesis by simp
  qed
  moreover have "- 1074 \<le> ulp_exp x" by (simp add: ulp_exp_def)
  ultimately show ?thesis using False by (intro rd_exact [of _ ?m "ulp_exp x"]) (auto simp: rd_def)
qed

lemma rd_1 [simp]: "rd 1 = 1"
  using rd_powi [of 0] by simp

section \<open>The type and its operations\<close>

datatype f64 = Fin rat | NegZero | PosInf | NegInf | NaN

definition max_bound :: rat where
  "max_bound = 2 ^ 1024"

text \<open>Round an exact result; \<open>neg\<close> is the sign a zero result gets.\<close>

definition to_f64 :: "bool \<Rightarrow> rat \<Rightarrow> f64" where
  "to_f64 neg x =
     (let r = rd x in
      if r = 0 then (if x < 0 \<or> (x = 0 \<and> neg) then NegZero else Fin 0)
      else if max_bound \<le> r then PosInf
      else if r \<le> - max_bound then NegInf
      else Fin r)"

fun is_finite :: "f64 \<Rightarrow> bool" where
  "is_finite (Fin _) = True"
| "is_finite NegZero = True"
| "is_finite _ = False"

fun f_val :: "f64 \<Rightarrow> rat" where
  "f_val (Fin r) = r"
| "f_val _ = 0"

fun is_neg :: "f64 \<Rightarrow> bool" where
  "is_neg (Fin r) = (r < 0)"
| "is_neg NegZero = True"
| "is_neg NegInf = True"
| "is_neg _ = False"

text \<open>A literal, and the conversion \<open>n as f64\<close>.\<close>

definition f_lit :: "rat \<Rightarrow> f64" where
  "f_lit x = to_f64 False x"

definition f_of_u64 :: "u64 \<Rightarrow> f64" where
  "f_of_u64 n = to_f64 False (of_nat (unat n))"

fun fneg :: "f64 \<Rightarrow> f64" where
  "fneg (Fin r) = (if r = 0 then NegZero else Fin (- r))"
| "fneg NegZero = Fin 0"
| "fneg PosInf = NegInf"
| "fneg NegInf = PosInf"
| "fneg NaN = NaN"

fun fadd :: "f64 \<Rightarrow> f64 \<Rightarrow> f64" where
  "fadd NaN _ = NaN"
| "fadd _ NaN = NaN"
| "fadd PosInf NegInf = NaN"
| "fadd NegInf PosInf = NaN"
| "fadd PosInf _ = PosInf"
| "fadd NegInf _ = NegInf"
| "fadd _ PosInf = PosInf"
| "fadd _ NegInf = NegInf"
| "fadd NegZero NegZero = NegZero"
| "fadd a b = to_f64 False (f_val a + f_val b)"

definition fsub :: "f64 \<Rightarrow> f64 \<Rightarrow> f64" where
  "fsub a b = fadd a (fneg b)"

definition fmul :: "f64 \<Rightarrow> f64 \<Rightarrow> f64" where
  "fmul a b =
     (let neg = (is_neg a \<noteq> is_neg b) in
      if a = NaN \<or> b = NaN then NaN
      else if is_finite a \<and> is_finite b then to_f64 neg (f_val a * f_val b)
      else if (is_finite a \<and> f_val a = 0) \<or> (is_finite b \<and> f_val b = 0) then NaN
      else if neg then NegInf else PosInf)"

definition fdiv :: "f64 \<Rightarrow> f64 \<Rightarrow> f64" where
  "fdiv a b =
     (let neg = (is_neg a \<noteq> is_neg b); inf = (if neg then NegInf else PosInf) in
      if a = NaN \<or> b = NaN then NaN
      else if is_finite b \<and> f_val b = 0 then
        (if is_finite a \<and> f_val a = 0 then NaN else inf)
      else if is_finite a \<and> is_finite b then to_f64 neg (f_val a / f_val b)
      else if is_finite a then (if neg then NegZero else Fin 0)
      else if is_finite b then inf
      else NaN)"

text \<open>The comparisons of \<open>PartialOrd\<close>: false as soon as one side is a NaN.\<close>

fun inf_class :: "f64 \<Rightarrow> int" where
  "inf_class NegInf = - 1"
| "inf_class PosInf = 1"
| "inf_class _ = 0"

definition flt :: "f64 \<Rightarrow> f64 \<Rightarrow> bool" where
  "flt a b \<longleftrightarrow> a \<noteq> NaN \<and> b \<noteq> NaN \<and>
     (inf_class a < inf_class b \<or> inf_class a = inf_class b \<and> f_val a < f_val b)"

definition fle :: "f64 \<Rightarrow> f64 \<Rightarrow> bool" where
  "fle a b \<longleftrightarrow> a \<noteq> NaN \<and> b \<noteq> NaN \<and>
     (inf_class a < inf_class b \<or> inf_class a = inf_class b \<and> f_val a \<le> f_val b)"

text \<open>\<open>total_cmp\<close>: like the above, with \<open>-0.0 < +0.0\<close> and NaN on top.\<close>

fun total_class :: "f64 \<Rightarrow> int" where
  "total_class NaN = 2"
| "total_class a = inf_class a"

definition total_le :: "f64 \<Rightarrow> f64 \<Rightarrow> bool" where
  "total_le a b \<longleftrightarrow> total_class a < total_class b \<or>
     total_class a = total_class b \<and>
       (f_val a < f_val b \<or> f_val a = f_val b \<and> (a = NegZero \<or> b \<noteq> NegZero))"

definition fclamp :: "f64 \<Rightarrow> f64 \<Rightarrow> f64 \<Rightarrow> f64" where
  "fclamp lo hi x = (let x = (if flt x lo then lo else x) in if flt hi x then hi else x)"

fun fabs :: "f64 \<Rightarrow> f64" where
  "fabs (Fin r) = Fin \<bar>r\<bar>"
| "fabs NegZero = Fin 0"
| "fabs NegInf = PosInf"
| "fabs x = x"

text \<open>\<open>iter().sum::<f64>()\<close>: from left to right, starting at negative zero.\<close>

definition fsum :: "f64 list \<Rightarrow> f64" where
  "fsum xs = foldl fadd NegZero xs"

section \<open>Facts the components use\<close>

text \<open>Every value of the type is a double.\<close>

fun f_ok :: "f64 \<Rightarrow> bool" where
  "f_ok (Fin r) = (rd r = r \<and> \<bar>r\<bar> < max_bound)"
| "f_ok _ = True"

lemma max_bound_gt: "(2 :: rat) ^ 1000 < max_bound" "0 < max_bound" "1 < max_bound"
  unfolding max_bound_def by simp_all

lemma f_ok_to_f64 [simp]: "f_ok (to_f64 neg x)"
  using max_bound_gt by (auto simp: to_f64_def Let_def abs_less_iff)

lemma to_f64_in_range:
  assumes "\<bar>rd x\<bar> < max_bound"
  shows "is_finite (to_f64 neg x)" "f_val (to_f64 neg x) = rd x"
  using assms max_bound_gt by (auto simp: to_f64_def Let_def abs_less_iff)

lemma fadd_finite:
  assumes "is_finite a" "is_finite b" and "\<bar>rd (f_val a + f_val b)\<bar> < max_bound"
  shows "is_finite (fadd a b)" "f_val (fadd a b) = rd (f_val a + f_val b)"
  using assms by (cases a; cases b; simp add: to_f64_in_range)+

lemma fmul_finite:
  assumes "is_finite a" "is_finite b" and "\<bar>rd (f_val a * f_val b)\<bar> < max_bound"
  shows "is_finite (fmul a b)" "f_val (fmul a b) = rd (f_val a * f_val b)"
proof -
  have "a \<noteq> NaN" "b \<noteq> NaN" using assms by auto
  then show "is_finite (fmul a b)" "f_val (fmul a b) = rd (f_val a * f_val b)"
    using assms by (simp_all add: fmul_def Let_def to_f64_in_range)
qed

lemma fdiv_finite:
  assumes "is_finite a" "is_finite b" "f_val b \<noteq> 0" and "\<bar>rd (f_val a / f_val b)\<bar> < max_bound"
  shows "is_finite (fdiv a b)" "f_val (fdiv a b) = rd (f_val a / f_val b)"
proof -
  have "a \<noteq> NaN" "b \<noteq> NaN" using assms by auto
  then show "is_finite (fdiv a b)" "f_val (fdiv a b) = rd (f_val a / f_val b)"
    using assms by (simp_all add: fdiv_def Let_def to_f64_in_range)
qed

lemma rd_le: "x \<le> y \<Longrightarrow> rd y = y \<Longrightarrow> rd x \<le> y"
  by (metis rd_mono)

lemma rd_ge: "y \<le> x \<Longrightarrow> rd y = y \<Longrightarrow> y \<le> rd x"
  by (metis rd_mono)

lemma f_val_rd: "f_ok a \<Longrightarrow> rd (f_val a) = f_val a"
  by (cases a) auto

lemma f_val_bound: "f_ok a \<Longrightarrow> \<bar>f_val a\<bar> < max_bound"
  using max_bound_gt by (cases a) auto

text \<open>The unit interval.\<close>

definition in_unit :: "f64 \<Rightarrow> bool" where
  "in_unit a \<longleftrightarrow> is_finite a \<and> 0 \<le> f_val a \<and> f_val a \<le> 1"

lemma fclamp_unit:
  assumes "a \<noteq> NaN"
  shows "in_unit (fclamp (Fin 0) (Fin 1) a)"
  using assms by (cases a) (auto simp: fclamp_def in_unit_def flt_def)

lemma fclamp_NaN [simp]: "fclamp lo hi NaN = NaN"
  by (simp add: fclamp_def flt_def)

lemma fclamp_id: "in_unit a \<Longrightarrow> fclamp (Fin 0) (Fin 1) a = a"
  by (cases a) (auto simp: fclamp_def in_unit_def flt_def)

lemma flt_finite: "is_finite a \<Longrightarrow> is_finite b \<Longrightarrow> flt a b \<longleftrightarrow> f_val a < f_val b"
  by (cases a; cases b) (auto simp: flt_def)

lemma fle_finite: "is_finite a \<Longrightarrow> is_finite b \<Longrightarrow> fle a b \<longleftrightarrow> f_val a \<le> f_val b"
  by (cases a; cases b) (auto simp: fle_def)

lemma total_le_linear: "total_le a b \<or> total_le b a"
  by (auto simp: total_le_def)

lemma total_le_trans: "total_le a b \<Longrightarrow> total_le b c \<Longrightarrow> total_le a c"
  by (auto simp: total_le_def)

lemma total_le_refl [simp]: "total_le a a"
  by (auto simp: total_le_def)

lemma total_le_antisym: "total_le a b \<Longrightarrow> total_le b a \<Longrightarrow> a = b"
  by (cases a; cases b) (auto simp: total_le_def)

lemma total_le_finite: "is_finite a \<Longrightarrow> is_finite b \<Longrightarrow> f_val a < f_val b \<Longrightarrow> total_le a b"
  by (cases a; cases b) (auto simp: total_le_def)

section \<open>Computing with given numbers\<close>

lemma rat_log2_unique:
  assumes "2 powi e \<le> x" and "x < 2 powi (e + 1)"
  shows "rat_log2 x = e"
proof -
  have "(0 :: rat) < 2 powi e" by simp
  then have x: "0 < x" using assms(1) by linarith
  have "(2 :: rat) powi e < 2 powi (rat_log2 x + 1)" "(2 :: rat) powi rat_log2 x < 2 powi (e + 1)"
    using rat_log2_bounds [OF x] assms by linarith+
  then show ?thesis by (simp add: powi2_less_iff)
qed

lemma round_half_even_eqI: "\<bar>x - of_int m\<bar> < 1 / 2 \<Longrightarrow> round_half_even x = m"
proof -
  assume a: "\<bar>x - of_int m\<bar> < 1 / 2"
  show ?thesis
  proof (cases "of_int m \<le> x")
    case True
    with a have "\<lfloor>x\<rfloor> = m" by (intro floor_unique) (auto simp: abs_less_iff)
    with a show ?thesis by (auto simp: round_half_even_def Let_def)
  next
    case False
    with a have "\<lfloor>x\<rfloor> = m - 1" by (intro floor_unique) (auto simp: abs_less_iff)
    with a False show ?thesis by (auto simp: round_half_even_def Let_def abs_less_iff)
  qed
qed

lemma rd_eqI:
  assumes "2 powi e \<le> x" "x < 2 powi (e + 1)" "- 1022 \<le> e" "\<bar>x / 2 powi (e - 52) - of_int m\<bar> < 1 / 2"
  shows "rd x = of_int m * 2 powi (e - 52)"
proof -
  have "(0 :: rat) < 2 powi e" by simp
  then have x: "0 < x" using assms(1) by linarith
  have "ulp_exp x = e - 52" using x assms(3) rat_log2_unique [OF assms(1,2)] by (simp add: ulp_exp_def)
  then show ?thesis using x round_half_even_eqI [OF assms(4)] by (simp add: rd_def)
qed

lemma rd_fractionI:
  assumes "1 \<le> x * 2 ^ k" "x * 2 ^ k < 2" "k \<le> 1022" "\<bar>x * 2 ^ (k + 52) - of_int m\<bar> < 1 / 2"
  shows "rd x = of_int m / 2 ^ (k + 52)"
proof -
  have p: "2 powi (- int k) = (1 :: rat) / 2 ^ k" "2 powi (- int k - 52) = (1 :: rat) / 2 ^ (k + 52)"
    "2 powi (- int k + 1) = (2 :: rat) / 2 ^ k"
    by (simp_all add: power_int_minus power_int_diff power_int_add power_add field_simps)
  have "rd x = of_int m * 2 powi (- int k - 52)"
  proof (rule rd_eqI)
    show "2 powi (- int k) \<le> x" "x < 2 powi (- int k + 1)"
      unfolding p using assms(1,2) by (simp_all add: pos_divide_le_eq pos_less_divide_eq)
    show "\<bar>x / 2 powi (- int k - 52) - of_int m\<bar> < 1 / 2" unfolding p using assms(4) by simp
  qed (use assms(3) in simp)
  then show ?thesis unfolding p by simp
qed

lemma max_bound_big: "x < 2 ^ 1000 \<Longrightarrow> x < max_bound" using max_bound_gt by linarith

end
