(* ===== verification/Scheduler.thy ===== *)
theory Scheduler
  imports Resources Float64 "HOL-Library.Multiset"
begin

text \<open>
  Placement: the announcements of \<open>crates/protocol\<close> (\<open>capability.rs\<close>, \<open>workload.rs\<close>,
  \<open>provider.rs\<close>, \<open>identity.rs\<close>) and the scheduler \<open>crates/scheduler/src/lib.rs\<close>, a pipeline of
  filters and weighted scorers. Capability names are handled as ASCII.
\<close>

section \<open>Capabilities\<close>

type_synonym capability = string

definition capability_new :: "string \<Rightarrow> capability" where
  "capability_new name = map ascii_lower name"

definition cap_name :: "capability \<Rightarrow> string" where
  "cap_name c = takeWhile (\<lambda>x. x \<noteq> CHR '':'') c"

definition cap_version :: "capability \<Rightarrow> string option" where
  "cap_version c =
     (case dropWhile (\<lambda>x. x \<noteq> CHR '':'') c of [] \<Rightarrow> None | _ # v \<Rightarrow> Some v)"

definition cap_satisfies :: "capability \<Rightarrow> capability \<Rightarrow> bool" where
  "cap_satisfies self required \<longleftrightarrow>
     (if cap_name self \<noteq> cap_name required then False
      else case cap_version required of None \<Rightarrow> True | Some v \<Rightarrow> cap_version self = Some v)"

definition satisfies_all :: "capability list \<Rightarrow> capability list \<Rightarrow> bool" where
  "satisfies_all offered required \<longleftrightarrow>
     list_all (\<lambda>req. list_ex (\<lambda>off. cap_satisfies off req) offered) required"

section \<open>Workloads and providers\<close>

datatype restart_policy = Never | OnFailure | Always

record workload_spec =
  ws_image :: "string option"
  ws_template :: "string option"
  ws_command :: "string list"
  ws_env :: "(string, string) btree_map"
  ws_resources :: resource_vector
  ws_capabilities :: "capability list"
  ws_ports :: "u16 list"
  ws_persistent_storage_mib :: u64
  ws_max_duration_secs :: u64
  ws_max_price_micro_usdc :: u64
  ws_job_value_micro_usdc :: u64
  ws_restart :: restart_policy

definition default_spec :: workload_spec where
  "default_spec = \<lparr>ws_image = None, ws_template = None, ws_command = [], ws_env = [],
     ws_resources = [], ws_capabilities = [], ws_ports = [], ws_persistent_storage_mib = 0,
     ws_max_duration_secs = 0, ws_max_price_micro_usdc = 0, ws_job_value_micro_usdc = 0,
     ws_restart = Never\<rparr>"

type_synonym identity = string

datatype workload_state =
    Declared | Scheduled identity | Preparing identity | Running identity
  | Succeeded | Failed string | Cancelled

fun is_terminal :: "workload_state \<Rightarrow> bool" where
  "is_terminal Succeeded = True"
| "is_terminal (Failed _) = True"
| "is_terminal Cancelled = True"
| "is_terminal _ = False"

datatype health = Healthy | Degraded | Unhealthy

record provider_announcement =
  pa_identity :: identity
  pa_resources :: resources
  pa_capabilities :: "capability list"
  pa_region :: "string option"
  pa_price :: u64
  pa_reputation :: f64
  pa_utilization :: f64
  pa_health :: health
  pa_served_models :: "string list"
  pa_warm_models :: "string list"

record placement =
  pl_node :: identity
  pl_price :: u64
  pl_score :: f64

section \<open>Filters\<close>

type_synonym node_filter = "workload_spec \<Rightarrow> provider_announcement \<Rightarrow> bool"
type_synonym node_scorer = "workload_spec \<Rightarrow> provider_announcement \<Rightarrow> f64"

definition resource_fit :: node_filter where
  "resource_fit spec node = rv_covers (available (pa_resources node)) (ws_resources spec)"

definition capability_match :: node_filter where
  "capability_match spec node = satisfies_all (pa_capabilities node) (ws_capabilities spec)"

definition healthy_only :: node_filter where
  "healthy_only spec node = (pa_health node \<noteq> Unhealthy)"

definition price_ceiling :: node_filter where
  "price_ceiling spec node =
     (ws_max_price_micro_usdc spec = 0 \<or> pa_price node \<le> ws_max_price_micro_usdc spec)"

section \<open>Scorers\<close>

definition cheapest_price :: node_scorer where
  "cheapest_price spec node =
     (let reference = (if 0 < ws_max_price_micro_usdc spec then f_of_u64 (ws_max_price_micro_usdc spec)
                       else f_lit 10000000) in
      fclamp (Fin 0) (Fin 1) (fsub (Fin 1) (fdiv (f_of_u64 (pa_price node)) reference)))"

definition high_reputation :: node_scorer where
  "high_reputation spec node = fclamp (Fin 0) (Fin 1) (pa_reputation node)"

definition low_utilization :: node_scorer where
  "low_utilization spec node = fclamp (Fin 0) (Fin 1) (fsub (Fin 1) (pa_utilization node))"

definition health_bonus :: node_scorer where
  "health_bonus spec node =
     (case pa_health node of Healthy \<Rightarrow> Fin 1 | Degraded \<Rightarrow> f_lit (3 / 10) | Unhealthy \<Rightarrow> Fin 0)"

section \<open>The pipeline\<close>

record pipeline =
  pp_filters :: "node_filter list"
  pp_scorers :: "(node_scorer \<times> f64) list"

definition pipeline_new :: pipeline where
  "pipeline_new = \<lparr>pp_filters = [], pp_scorers = []\<rparr>"

definition with_filter :: "pipeline \<Rightarrow> node_filter \<Rightarrow> pipeline" where
  "with_filter p f = p\<lparr>pp_filters := pp_filters p @ [f]\<rparr>"

definition with_scorer :: "pipeline \<Rightarrow> node_scorer \<Rightarrow> f64 \<Rightarrow> pipeline" where
  "with_scorer p s w = p\<lparr>pp_scorers := pp_scorers p @ [(s, w)]\<rparr>"

definition default_policy :: pipeline where
  "default_policy =
     with_scorer (with_scorer (with_scorer
       (with_filter (with_filter (with_filter (with_filter pipeline_new
         healthy_only) resource_fit) capability_match) price_ceiling)
       high_reputation (f_lit (1 / 2))) low_utilization (f_lit (3 / 10))) health_bonus (f_lit (1 / 5))"

definition admitted :: "pipeline \<Rightarrow> workload_spec \<Rightarrow> provider_announcement \<Rightarrow> bool" where
  "admitted p spec node \<longleftrightarrow> list_all (\<lambda>f. f spec node) (pp_filters p)"

definition node_score :: "pipeline \<Rightarrow> workload_spec \<Rightarrow> provider_announcement \<Rightarrow> f64" where
  "node_score p spec node =
     (let weight_sum = fsum (map snd (pp_scorers p)) in
      if flt (Fin 0) weight_sum then
        fdiv (fsum (map (\<lambda>(s, w). let v = s spec node in fmul (if is_finite v then v else Fin 0) w)
                      (pp_scorers p))) weight_sum
      else Fin 0)"

definition to_placement :: "pipeline \<Rightarrow> workload_spec \<Rightarrow> provider_announcement \<Rightarrow> placement" where
  "to_placement p spec node =
     \<lparr>pl_node = pa_identity node, pl_price = pa_price node, pl_score = node_score p spec node\<rparr>"

text \<open>\<open>sort_by\<close> is a stable sort; here by descending score under \<open>total_cmp\<close>.\<close>

fun insert_ranked :: "placement \<Rightarrow> placement list \<Rightarrow> placement list" where
  "insert_ranked x [] = [x]"
| "insert_ranked x (y # ys) =
     (if total_le (pl_score y) (pl_score x) then x # y # ys else y # insert_ranked x ys)"

definition sort_ranked :: "placement list \<Rightarrow> placement list" where
  "sort_ranked xs = foldr insert_ranked xs []"

definition rank :: "pipeline \<Rightarrow> workload_spec \<Rightarrow> provider_announcement list \<Rightarrow> placement list" where
  "rank p spec nodes =
     sort_ranked (map (to_placement p spec) (filter (admitted p spec) nodes))"

definition place :: "pipeline \<Rightarrow> workload_spec \<Rightarrow> provider_announcement list \<Rightarrow> placement option" where
  "place p spec nodes = (case rank p spec nodes of [] \<Rightarrow> None | x # _ \<Rightarrow> Some x)"

section \<open>The ranking\<close>

abbreviation better :: "placement \<Rightarrow> placement \<Rightarrow> bool" where
  "better x y \<equiv> total_le (pl_score y) (pl_score x)"

lemma mset_insert_ranked [simp]: "mset (insert_ranked x xs) = add_mset x (mset xs)"
  by (induction x xs rule: insert_ranked.induct) auto

lemma mset_sort_ranked [simp]: "mset (sort_ranked xs) = mset xs"
  unfolding sort_ranked_def by (induction xs) auto

lemma set_sort_ranked [simp]: "set (sort_ranked xs) = set xs"
  by (metis mset_sort_ranked set_mset_mset)

lemma sorted_insert_ranked: "sorted_wrt better xs \<Longrightarrow> sorted_wrt better (insert_ranked x xs)"
proof (induction x xs rule: insert_ranked.induct)
  case (1 x)
  then show ?case by simp
next
  case (2 x y ys)
  have s: "set (insert_ranked x ys) = Set.insert x (set ys)"
    by (metis mset_insert_ranked set_mset_add_mset_insert set_mset_mset)
  show ?case
  proof (cases "better x y")
    case True
    with 2 show ?thesis by (auto intro: total_le_trans)
  next
    case False
    then have "better y x" using total_le_linear by blast
    with False 2 show ?thesis by (auto simp: s)
  qed
qed

lemma sorted_sort_ranked: "sorted_wrt better (sort_ranked xs)"
  unfolding sort_ranked_def by (induction xs) (auto intro: sorted_insert_ranked)

text \<open>Stability: the placements of equal score keep their order.\<close>

lemma filter_insert_ranked:
  "filter (\<lambda>z. pl_score z = s) (insert_ranked x xs) =
     (if pl_score x = s then x # filter (\<lambda>z. pl_score z = s) xs else filter (\<lambda>z. pl_score z = s) xs)"
  by (induction x xs rule: insert_ranked.induct) auto

lemma stable_sort_ranked:
  "filter (\<lambda>z. pl_score z = s) (sort_ranked xs) = filter (\<lambda>z. pl_score z = s) xs"
  unfolding sort_ranked_def by (induction xs) (auto simp: filter_insert_ranked)

section \<open>Scores stay in the unit interval\<close>

text \<open>A scorer of the trait: for announcements with doubles in them it answers in \<open>0.0..=1.0\<close>.\<close>

definition announcement_ok :: "provider_announcement \<Rightarrow> bool" where
  "announcement_ok node \<longleftrightarrow> f_ok (pa_reputation node) \<and> f_ok (pa_utilization node)"

locale scorer =
  fixes score :: node_scorer
  assumes score_unit: "announcement_ok node \<Longrightarrow> in_unit (score spec node) \<or> score spec node = NaN"
begin

definition guarded :: "workload_spec \<Rightarrow> provider_announcement \<Rightarrow> f64" where
  "guarded spec node = (let v = score spec node in if is_finite v then v else Fin 0)"

lemma guarded_unit: "announcement_ok node \<Longrightarrow> in_unit (guarded spec node)"
  using score_unit [of node spec] by (auto simp: guarded_def in_unit_def Let_def)

end

lemma fclamp_unit_or_NaN: "in_unit (fclamp (Fin 0) (Fin 1) a) \<or> fclamp (Fin 0) (Fin 1) a = NaN"
  by (cases "a = NaN") (simp_all add: fclamp_unit)

lemma f_lit_unit:
  assumes "0 \<le> x" "x \<le> 1"
  shows "in_unit (f_lit x)" "f_val (f_lit x) = rd x" "f_ok (f_lit x)" "is_finite (f_lit x)"
proof -
  have r: "0 \<le> rd x" "rd x \<le> 1" using rd_nonneg [OF assms(1)] rd_le [OF assms(2)] by simp_all
  then have b: "\<bar>rd x\<bar> < max_bound" using max_bound_gt(3) by simp
  show "f_ok (f_lit x)" by (simp add: f_lit_def)
  show "is_finite (f_lit x)" "f_val (f_lit x) = rd x"
    using to_f64_in_range [OF b] by (simp_all add: f_lit_def)
  then show "in_unit (f_lit x)" using r by (simp add: in_unit_def)
qed

interpretation cheapest: scorer cheapest_price
  by unfold_locales (simp add: cheapest_price_def Let_def fclamp_unit_or_NaN)

interpretation reputation: scorer high_reputation
  by unfold_locales (simp add: high_reputation_def fclamp_unit_or_NaN)

interpretation utilization: scorer low_utilization
  by unfold_locales (simp add: low_utilization_def fclamp_unit_or_NaN)

interpretation health: scorer health_bonus
  by unfold_locales
    (auto simp: health_bonus_def f_lit_unit in_unit_def [of "Fin _"] split: health.splits)

text \<open>Weights a policy may use: finite, not negative, with a finite sum.\<close>

definition weight_ok :: "f64 \<Rightarrow> bool" where
  "weight_ok w \<longleftrightarrow> f_ok w \<and> is_finite w \<and> 0 \<le> f_val w"

lemma fadd_nonneg:
  assumes "is_finite a" "is_finite b" "0 \<le> f_val a" "0 \<le> f_val b"
  shows "fadd a b = PosInf \<or> is_finite (fadd a b) \<and> f_val (fadd a b) = rd (f_val a + f_val b)
           \<and> 0 \<le> f_val (fadd a b)"
proof (cases "rd (f_val a + f_val b) < max_bound")
  case True
  have "0 \<le> rd (f_val a + f_val b)" using assms by (intro rd_nonneg) simp
  with True fadd_finite [of a b] assms show ?thesis by simp
next
  case False
  then have r: "max_bound \<le> rd (f_val a + f_val b)" by simp
  then have "rd (f_val a + f_val b) \<noteq> 0" using max_bound_gt(2) by linarith
  then have "to_f64 False (f_val a + f_val b) = PosInf" using r by (simp add: to_f64_def Let_def)
  moreover have "a \<noteq> NegZero \<or> b \<noteq> NegZero" using r max_bound_gt(2) by auto
  ultimately show ?thesis using assms by (cases a; cases b) auto
qed

lemma foldl_fadd_PosInf: "list_all is_finite ws \<Longrightarrow> foldl fadd PosInf ws = PosInf"
proof (induction ws)
  case Nil
  then show ?case by simp
next
  case (Cons w ws)
  then show ?case by (cases w) auto
qed

lemma weighted_sum_le:
  assumes "\<And>v w. (v, w) \<in> set vws \<Longrightarrow> in_unit v \<and> weight_ok w"
    and "is_finite a" "is_finite b" "0 \<le> f_val a" "f_val a \<le> f_val b"
    and "is_finite (foldl fadd b (map snd vws))"
  shows "is_finite (foldl fadd a (map (\<lambda>(v, w). fmul v w) vws)) \<and>
     0 \<le> f_val (foldl fadd a (map (\<lambda>(v, w). fmul v w) vws)) \<and>
     f_val (foldl fadd a (map (\<lambda>(v, w). fmul v w) vws)) \<le> f_val (foldl fadd b (map snd vws))"
  using assms
proof (induction vws arbitrary: a b)
  case Nil
  then show ?case by simp
next
  case (Cons p vws)
  obtain v w where p: "p = (v, w)" by (cases p)
  have v: "in_unit v" and w: "weight_ok w" using Cons.prems(1) [of v w] by (auto simp: p)
  have le: "f_val v * f_val w \<le> f_val w" "0 \<le> f_val v * f_val w"
    using v w by (auto simp: in_unit_def weight_ok_def mult_left_le_one_le)
  have m: "rd (f_val v * f_val w) \<le> f_val w" "0 \<le> rd (f_val v * f_val w)"
    using w le by (auto simp: weight_ok_def f_val_rd rd_nonneg intro: rd_le)
  then have "\<bar>rd (f_val v * f_val w)\<bar> < max_bound" using f_val_bound [of w] w by (simp add: weight_ok_def)
  note fm = fmul_finite [of v w, OF _ _ this]
  have vf: "is_finite v" "is_finite w" using v w by (simp_all add: in_unit_def weight_ok_def)
  have b: "fadd b w \<noteq> PosInf"
  proof
    assume "fadd b w = PosInf"
    moreover have "list_all is_finite (map snd vws)"
      using Cons.prems(1) by (fastforce simp: list_all_iff weight_ok_def)
    ultimately show False using Cons.prems(6) by (simp add: p foldl_fadd_PosInf)
  qed
  have b0: "0 \<le> f_val b" using Cons.prems by simp
  have bw: "is_finite (fadd b w)" "f_val (fadd b w) = rd (f_val b + f_val w)"
    using fadd_nonneg [of b w] b Cons.prems b0 w by (auto simp: weight_ok_def)
  have step: "rd (f_val a + f_val (fmul v w)) \<le> rd (f_val b + f_val w)"
    using Cons.prems m fm vf by (intro rd_mono) simp
  have "fadd a (fmul v w) \<noteq> PosInf"
  proof
    assume inf: "fadd a (fmul v w) = PosInf"
    have "f_ok (fadd b w)" using Cons.prems(3) vf by (cases b; cases w) auto
    then have "rd (f_val b + f_val w) < max_bound" using f_val_bound [of "fadd b w"] bw by simp
    then have "\<bar>rd (f_val a + f_val (fmul v w))\<bar> < max_bound"
      using step rd_nonneg [of "f_val a + f_val (fmul v w)"] Cons.prems(4) m fm vf by simp
    then have "is_finite (fadd a (fmul v w))" using fadd_finite(1) Cons.prems(2) fm vf by blast
    then show False using inf by simp
  qed
  then have aw: "is_finite (fadd a (fmul v w))" "f_val (fadd a (fmul v w)) = rd (f_val a + f_val (fmul v w))"
    "0 \<le> f_val (fadd a (fmul v w))"
    using fadd_nonneg [of a "fmul v w"] Cons.prems(2,4) m fm vf by auto
  have "is_finite (foldl fadd (fadd b w) (map snd vws))" using Cons.prems(6) by (simp add: p)
  have ih: "\<And>v w. (v, w) \<in> set vws \<Longrightarrow> in_unit v \<and> weight_ok w"
    by (rule Cons.prems(1)) simp
  have "f_val (fadd a (fmul v w)) \<le> f_val (fadd b w)" using step aw bw by simp
  from Cons.IH [OF ih aw(1) bw(1) aw(3) this] \<open>is_finite (foldl fadd (fadd b w) (map snd vws))\<close>
  show ?case by (simp add: p)
qed

lemma node_score_unit:
  assumes sc: "\<And>s w. (s, w) \<in> set (pp_scorers p) \<Longrightarrow>
      (in_unit (s spec node) \<or> \<not> is_finite (s spec node)) \<and> weight_ok w"
    and fin: "is_finite (fsum (map snd (pp_scorers p)))"
  shows "in_unit (node_score p spec node)"
proof -
  let ?g = "\<lambda>s. let v = s spec node in if is_finite v then v else Fin 0"
  let ?vws = "map (\<lambda>(s, w). (?g s, w)) (pp_scorers p)"
  have vws: "in_unit v \<and> weight_ok w" if "(v, w) \<in> set ?vws" for v w
  proof -
    from that obtain s where s: "(s, w) \<in> set (pp_scorers p)" "v = ?g s" by auto
    have "in_unit (Fin 0)" by (simp add: in_unit_def)
    then show ?thesis using sc [OF s(1)] s(2) by (auto simp: Let_def)
  qed
  have ws: "map snd ?vws = map snd (pp_scorers p)" by auto
  have sum: "map (\<lambda>(v, w). fmul v w) ?vws = map (\<lambda>(s, w). fmul (?g s) w) (pp_scorers p)" by auto
  let ?S = "fsum (map (\<lambda>(s, w). fmul (?g s) w) (pp_scorers p))" and ?W = "fsum (map snd (pp_scorers p))"
  have b: "is_finite ?S" "0 \<le> f_val ?S" "f_val ?S \<le> f_val ?W"
    using weighted_sum_le [of ?vws NegZero NegZero, OF vws] fin unfolding ws sum fsum_def by auto
  show ?thesis
  proof (cases "flt (Fin 0) ?W")
    case False
    then show ?thesis by (simp add: node_score_def in_unit_def)
  next
    case True
    then have w: "0 < f_val ?W" using fin by (simp add: flt_finite)
    then have q: "0 \<le> f_val ?S / f_val ?W" "f_val ?S / f_val ?W \<le> 1" using b by simp_all
    then have r: "0 \<le> rd (f_val ?S / f_val ?W)" "rd (f_val ?S / f_val ?W) \<le> 1"
      by (simp_all add: rd_nonneg rd_le)
    then have "\<bar>rd (f_val ?S / f_val ?W)\<bar> < max_bound" using max_bound_gt(3) by simp
    from fdiv_finite [OF b(1) fin _ this] w r have "in_unit (fdiv ?S ?W)" by (simp add: in_unit_def)
    with True show ?thesis by (simp add: node_score_def Let_def)
  qed
qed

lemma unit_weight: "0 \<le> x \<Longrightarrow> x \<le> 1 \<Longrightarrow> weight_ok (f_lit x)"
  using f_lit_unit [of x] by (simp add: weight_ok_def in_unit_def)

lemma default_weights_finite: "is_finite (fsum [f_lit (1 / 2), f_lit (3 / 10), f_lit (1 / 5)])"
proof -
  have rd2: "rd 2 = 2" "rd 4 = 4" using rd_powi [of 1] rd_powi [of 2] by simp_all
  have big: "(4 :: rat) < max_bound" using max_bound_gt by (simp add: max_bound_def)
  have step: "is_finite (fadd a b) \<and> 0 \<le> f_val (fadd a b) \<and> f_val (fadd a b) \<le> n"
    if "is_finite a" "is_finite b" "0 \<le> f_val a" "0 \<le> f_val b" "f_val a + f_val b \<le> n" "rd n = n" "n \<le> 4"
    for a b n
  proof -
    have "0 \<le> rd (f_val a + f_val b)" "rd (f_val a + f_val b) \<le> n"
      using that by (auto intro: rd_nonneg rd_le)
    then show ?thesis using fadd_finite [of a b] that big by simp
  qed
  note u = f_lit_unit [of "1 / 2"] f_lit_unit [of "3 / 10"] f_lit_unit [of "1 / 5"]
  let ?a = "fadd NegZero (f_lit (1 / 2))" and ?b = "fadd (fadd NegZero (f_lit (1 / 2))) (f_lit (3 / 10))"
  have a: "is_finite ?a \<and> 0 \<le> f_val ?a \<and> f_val ?a \<le> 1"
    by (rule step) (use u in \<open>auto simp: in_unit_def\<close>)
  have b: "is_finite ?b \<and> 0 \<le> f_val ?b \<and> f_val ?b \<le> 2"
    by (rule step) (use u a rd2 in \<open>auto simp: in_unit_def\<close>)
  have "is_finite (fadd ?b (f_lit (1 / 5))) \<and> 0 \<le> f_val (fadd ?b (f_lit (1 / 5))) \<and>
      f_val (fadd ?b (f_lit (1 / 5))) \<le> 4"
    by (rule step) (use u b rd2 in \<open>auto simp: in_unit_def\<close>)
  then show ?thesis by (simp add: fsum_def)
qed

lemma default_scorers: "pp_scorers default_policy =
    [(high_reputation, f_lit (1 / 2)), (low_utilization, f_lit (3 / 10)), (health_bonus, f_lit (1 / 5))]"
  by (simp add: default_policy_def with_filter_def with_scorer_def pipeline_new_def)

lemma default_filters:
  "pp_filters default_policy = [healthy_only, resource_fit, capability_match, price_ceiling]"
  by (simp add: default_policy_def with_filter_def with_scorer_def pipeline_new_def)

section \<open>Properties\<close>

text \<open>
  C19. Ranking. For any policy, the ranking lists each admitted node exactly as often as it was
  announced and nothing else, from the highest score to the lowest, nodes of equal score in their
  order of announcement; and a placement is the first of the ranking, so there is one exactly when
  some node is admitted and no admitted node scores higher.
\<close>
theorem rank_best_first:
  "mset (rank p spec nodes) = mset (map (to_placement p spec) (filter (admitted p spec) nodes)) \<and>
   sorted_wrt better (rank p spec nodes) \<and>
   (\<forall>s. filter (\<lambda>x. pl_score x = s) (rank p spec nodes) =
      filter (\<lambda>x. pl_score x = s) (map (to_placement p spec) (filter (admitted p spec) nodes))) \<and>
   (case place p spec nodes of
      None \<Rightarrow> \<not> (\<exists>node \<in> set nodes. admitted p spec node)
    | Some x \<Rightarrow> (\<exists>node \<in> set nodes. admitted p spec node \<and> x = to_placement p spec node) \<and>
        (\<forall>node \<in> set nodes. admitted p spec node \<longrightarrow> total_le (node_score p spec node) (pl_score x)))"
proof -
  let ?r = "rank p spec nodes"
  have s: "sorted_wrt better ?r" by (simp add: rank_def sorted_sort_ranked)
  have set: "set ?r = to_placement p spec ` {node \<in> set nodes. admitted p spec node}"
    by (simp add: rank_def)
  have "case place p spec nodes of
      None \<Rightarrow> \<not> (\<exists>node \<in> set nodes. admitted p spec node)
    | Some x \<Rightarrow> (\<exists>node \<in> set nodes. admitted p spec node \<and> x = to_placement p spec node) \<and>
        (\<forall>node \<in> set nodes. admitted p spec node \<longrightarrow> total_le (node_score p spec node) (pl_score x))"
  proof (cases ?r)
    case Nil
    then show ?thesis using set by (auto simp: place_def)
  next
    case (Cons x xs)
    have "better x (to_placement p spec node)" if "node \<in> set nodes" "admitted p spec node" for node
    proof -
      have "to_placement p spec node \<in> set ?r" using that set by blast
      then show ?thesis using s unfolding Cons by auto
    qed
    moreover have "x \<in> set ?r" using Cons by simp
    ultimately show ?thesis using set Cons by (auto simp: place_def to_placement_def [of _ _ n for n])
  qed
  then show ?thesis using s by (simp add: rank_def stable_sort_ranked)
qed

text \<open>
  A hostile signal cannot float a node. Under the default policy every announcement, whatever
  doubles it carries (a NaN reputation, an infinite utilization), gets a finite score between 0 and
  1, computed with the rounding of the machine.
\<close>
theorem default_score_in_unit:
  assumes "announcement_ok node"
  shows "in_unit (node_score default_policy spec node)"
proof (rule node_score_unit)
  show "is_finite (fsum (map snd (pp_scorers default_policy)))"
    using default_weights_finite by (simp add: default_scorers)
  fix s w assume "(s, w) \<in> set (pp_scorers default_policy)"
  then show "(in_unit (s spec node) \<or> \<not> is_finite (s spec node)) \<and> weight_ok w"
    using reputation.score_unit [OF assms, of spec] utilization.score_unit [OF assms, of spec]
      health.score_unit [OF assms, of spec]
    by (auto simp: default_scorers unit_weight)
qed

definition demo_node :: "identity \<Rightarrow> f64 \<Rightarrow> u64 \<Rightarrow> provider_announcement" where
  "demo_node i r c = \<lparr>pa_identity = i, pa_resources = demo_machine, pa_capabilities = [''cuda:12.8''],
     pa_region = None, pa_price = c, pa_reputation = r, pa_utilization = Fin 0, pa_health = Healthy,
     pa_served_models = [], pa_warm_models = []\<rparr>"

lemma default_score_in_unit_witness:
  "in_unit (node_score default_policy default_spec (demo_node ''n'' NaN 7))"
  by (rule default_score_in_unit) (simp add: announcement_ok_def demo_node_def max_bound_gt)

text \<open>
  C20. Hard constraints. A placement made by the default policy is on an announced node that is not
  unhealthy, has every requested quantity available, offers every required capability, and respects
  the consumer's price ceiling.
\<close>
theorem default_placement_sound:
  assumes "place default_policy spec nodes = Some x" and "bt_ok (ws_resources spec)"
  shows "\<exists>node \<in> set nodes. pl_node x = pa_identity node \<and> pl_price x = pa_price node \<and>
     pa_health node \<noteq> Unhealthy \<and>
     (\<forall>k. amt (ws_resources spec) k \<le> amt (available (pa_resources node)) k) \<and>
     (\<forall>req \<in> set (ws_capabilities spec). \<exists>off \<in> set (pa_capabilities node). cap_satisfies off req) \<and>
     (ws_max_price_micro_usdc spec \<noteq> 0 \<longrightarrow> pl_price x \<le> ws_max_price_micro_usdc spec)"
proof -
  obtain xs where "rank default_policy spec nodes = x # xs"
    using assms(1) by (auto simp: place_def split: list.splits)
  then have "x \<in> set (rank default_policy spec nodes)" by simp
  then obtain node where "node \<in> set nodes" "admitted default_policy spec node"
    "x = to_placement default_policy spec node" by (auto simp: rank_def)
  then show ?thesis
    using rv_covers_iff [OF assms(2)]
    by (intro bexI [of _ node])
      (auto simp: admitted_def default_filters healthy_only_def resource_fit_def capability_match_def
        price_ceiling_def to_placement_def satisfies_all_def list_all_iff list_ex_iff)
qed

definition demo_spec :: workload_spec where
  "demo_spec = default_spec\<lparr>ws_resources := [(Cpu, 2000)], ws_capabilities := [''cuda''],
     ws_max_price_micro_usdc := 10\<rparr>"

lemma demo_admitted: "admitted default_policy demo_spec (demo_node i r 7)"
  by (simp add: admitted_def default_filters healthy_only_def resource_fit_def capability_match_def
      price_ceiling_def demo_spec_def demo_node_def satisfies_all_def rv_covers_def available_def
      rv_saturating_sub_def bt_entry_def demo_machine_def rv_get_def saturating_sub_def
      cap_satisfies_def cap_name_def cap_version_def less_resource_kind_def default_spec_def)

lemma default_placement_sound_witness:
  "\<exists>x. place default_policy demo_spec [demo_node ''n'' (Fin 1) 7] = Some x \<and> pl_node x = ''n''"
proof -
  let ?x = "to_placement default_policy demo_spec (demo_node ''n'' (Fin 1) 7)"
  have p: "place default_policy demo_spec [demo_node ''n'' (Fin 1) 7] = Some ?x"
    by (simp add: place_def rank_def demo_admitted sort_ranked_def)
  have "bt_ok (ws_resources demo_spec)" by (simp add: demo_spec_def bt_ok_def)
  from default_placement_sound [OF p this] p show ?thesis by (auto simp: demo_node_def)
qed

text \<open>
  Undercutting never pays. Under the default policy the prices the nodes announce decide at
  most who is below the consumer's ceiling: changing them in any way that leaves the same nodes
  below it leaves the ranking of the nodes, with their scores, as it was.
\<close>
theorem price_never_wins:
  assumes same: "\<And>node. node \<in> set nodes \<Longrightarrow>
      price_ceiling spec (node\<lparr>pa_price := f node\<rparr>) = price_ceiling spec node"
  shows "map (\<lambda>x. (pl_node x, pl_score x)) (rank default_policy spec (map (\<lambda>n. n\<lparr>pa_price := f n\<rparr>) nodes)) =
     map (\<lambda>x. (pl_node x, pl_score x)) (rank default_policy spec nodes)"
proof -
  let ?re = "\<lambda>n. n\<lparr>pa_price := f n\<rparr>" and ?drop = "\<lambda>x. x\<lparr>pl_price := 0\<rparr>"
  let ?tp = "to_placement default_policy spec"
  have ins: "map ?drop (insert_ranked x ys) = insert_ranked (?drop x) (map ?drop ys)" for x ys
    by (induction x ys rule: insert_ranked.induct) auto
  have drop: "map ?drop (sort_ranked xs) = sort_ranked (map ?drop xs)" for xs
    unfolding sort_ranked_def by (induction xs) (auto simp: ins)
  have ad: "admitted default_policy spec (?re n) = admitted default_policy spec n" if "n \<in> set nodes" for n
    using same [OF that]
    by (simp add: admitted_def default_filters healthy_only_def resource_fit_def capability_match_def)
  have sc: "?drop (?tp (?re n)) = ?drop (?tp n)" for n
    unfolding to_placement_def node_score_def default_scorers
    by (simp add: high_reputation_def low_utilization_def health_bonus_def Let_def cong: if_cong)
  have f: "filter (admitted default_policy spec) (map ?re nodes) =
      map ?re (filter (admitted default_policy spec) nodes)"
    unfolding filter_map using ad by (simp cong: filter_cong)
  have "map ?drop (rank default_policy spec (map ?re nodes)) = map ?drop (rank default_policy spec nodes)"
    by (simp add: rank_def drop f o_def sc)
  from arg_cong [OF this, of "map (\<lambda>x. (pl_node x, pl_score x))"] show ?thesis by (simp add: o_def)
qed

lemma price_never_wins_witness:
  "map (\<lambda>x. (pl_node x, pl_score x)) (rank default_policy default_spec
      [demo_node ''cheap'' (Fin 0) 1, demo_node ''good'' (Fin 1) 1]) =
   map (\<lambda>x. (pl_node x, pl_score x)) (rank default_policy default_spec
      [demo_node ''cheap'' (Fin 0) 9, demo_node ''good'' (Fin 1) 9])"
  using price_never_wins [of "[demo_node ''cheap'' (Fin 0) 9, demo_node ''good'' (Fin 1) 9]"
      default_spec "\<lambda>_. 1"]
  by (simp add: price_ceiling_def default_spec_def demo_node_def)

lemma rank_best_first_witness:
  "mset (rank default_policy demo_spec [demo_node ''n'' (Fin 1) 7]) =
   {# to_placement default_policy demo_spec (demo_node ''n'' (Fin 1) 7) #}"
  using rank_best_first [of default_policy demo_spec "[demo_node ''n'' (Fin 1) 7]"]
  by (simp add: demo_admitted)

end
