(* ===== verification/Reputation.thy ===== *)
theory Reputation
  imports Ordered_Map Float64
begin

text \<open>
  The reputation ramp, \<open>crates/cloudiy/src/reputation.rs\<close>: how canary verdicts move a provider's
  score and which tier and job values the score reaches. Counters are 64 bits wide and wrap as the
  release build does. The \<open>HashMap\<close> of the registry is a sorted map here; the order in which it
  lists the scores is not specified by the language.
\<close>

section \<open>One provider\<close>

record reputation =
  rep_score :: f64
  rep_canary_pass :: u64
  rep_canary_fail :: u64
  rep_jobs_ok :: u64

definition default_reputation :: reputation where
  "default_reputation = \<lparr>rep_score = Fin 0, rep_canary_pass = 0, rep_canary_fail = 0, rep_jobs_ok = 0\<rparr>"

definition CLIMB :: f64 where
  "CLIMB = f_lit (1 / 20)"

definition CRATER :: f64 where
  "CRATER = f_lit (1 / 4)"

definition record_canary :: "bool \<Rightarrow> reputation \<Rightarrow> reputation" where
  "record_canary passed r =
     (if passed then
        r\<lparr>rep_canary_pass := rep_canary_pass r + 1,
          rep_score := fadd (rep_score r) (fmul (fsub (Fin 1) (rep_score r)) CLIMB)\<rparr>
      else
        r\<lparr>rep_canary_fail := rep_canary_fail r + 1, rep_score := fmul (rep_score r) CRATER\<rparr>)"

definition record_job :: "reputation \<Rightarrow> reputation" where
  "record_job r = r\<lparr>rep_jobs_ok := rep_jobs_ok r + 1\<rparr>"

datatype tier = New | Building | Trusted | Veteran

definition reputation_tier :: "reputation \<Rightarrow> tier" where
  "reputation_tier r =
     (if fle (f_lit (95 / 100)) (rep_score r) \<and> 100 \<le> rep_canary_pass r then Veteran
      else if fle (f_lit (80 / 100)) (rep_score r) \<and> 25 \<le> rep_canary_pass r then Trusted
      else if fle (f_lit (50 / 100)) (rep_score r) \<and> 5 \<le> rep_canary_pass r then Building
      else New)"

fun tier_label :: "tier \<Rightarrow> string" where
  "tier_label New = ''new''"
| "tier_label Building = ''building''"
| "tier_label Trusted = ''trusted''"
| "tier_label Veteran = ''veteran''"

record ramp_policy =
  rp_max_job_micro_usdc :: u64
  rp_canary_rate :: f64
  rp_holdback_secs :: i64

fun for_tier :: "tier \<Rightarrow> ramp_policy" where
  "for_tier New = \<lparr>rp_max_job_micro_usdc = 10000, rp_canary_rate = f_lit (20 / 100),
     rp_holdback_secs = 24 * 3600\<rparr>"
| "for_tier Building = \<lparr>rp_max_job_micro_usdc = 100000, rp_canary_rate = f_lit (10 / 100),
     rp_holdback_secs = 12 * 3600\<rparr>"
| "for_tier Trusted = \<lparr>rp_max_job_micro_usdc = 1000000, rp_canary_rate = f_lit (3 / 100),
     rp_holdback_secs = 2 * 3600\<rparr>"
| "for_tier Veteran = \<lparr>rp_max_job_micro_usdc = 10000000, rp_canary_rate = f_lit (1 / 100),
     rp_holdback_secs = 30 * 60\<rparr>"

definition policy :: "reputation \<Rightarrow> ramp_policy" where
  "policy r = for_tier (reputation_tier r)"

definition may_take :: "ramp_policy \<Rightarrow> u64 \<Rightarrow> bool" where
  "may_take p job_micro_usdc \<longleftrightarrow> job_micro_usdc \<le> rp_max_job_micro_usdc p"

definition REPUTATION_ROUTING_FLOOR :: f64 where
  "REPUTATION_ROUTING_FLOOR = f_lit (2 / 10)"

definition max_job_micro_usdc_for_score :: "f64 \<Rightarrow> u64" where
  "max_job_micro_usdc_for_score score =
     (if fle (f_lit (95 / 100)) score then 10000000
      else if fle (f_lit (80 / 100)) score then 1000000
      else if fle (f_lit (50 / 100)) score then 100000
      else 10000)"

definition may_take_value :: "f64 \<Rightarrow> u64 \<Rightarrow> bool" where
  "may_take_value score job_value_micro_usdc \<longleftrightarrow>
     job_value_micro_usdc = 0 \<or> job_value_micro_usdc \<le> max_job_micro_usdc_for_score score"

section \<open>The registry\<close>

type_synonym registry = "(string, reputation) btree_map"

definition registry_get :: "registry \<Rightarrow> string \<Rightarrow> reputation" where
  "registry_get reg node_id = (case bt_get reg node_id of None \<Rightarrow> default_reputation | Some r \<Rightarrow> r)"

definition registry_scores :: "registry \<Rightarrow> (string \<times> f64) list" where
  "registry_scores reg = map (\<lambda>(i, r). (i, rep_score r)) reg"

definition registry_record_canary :: "registry \<Rightarrow> string \<Rightarrow> bool \<Rightarrow> registry \<times> reputation" where
  "registry_record_canary reg node_id passed =
     (let reg' = bt_entry node_id default_reputation (record_canary passed) reg in
      (reg', registry_get reg' node_id))"

text \<open>The items of a \<open>ProbeResult\<close>: prompt, verdict, snippet.\<close>

definition registry_record_probe ::
  "registry \<Rightarrow> string \<Rightarrow> (string \<times> bool \<times> string) list \<Rightarrow> registry \<times> reputation" where
  "registry_record_probe reg node_id items =
     (let reg' = bt_entry node_id default_reputation
                   (\<lambda>r. fold (\<lambda>(_, passed, _). record_canary passed) items r) reg in
      (reg', registry_get reg' node_id))"

definition registry_record_job :: "registry \<Rightarrow> string \<Rightarrow> registry" where
  "registry_record_job reg node_id = bt_entry node_id default_reputation record_job reg"

section \<open>The score under rounding\<close>

lemma round_half_even_double: "0 \<le> t \<Longrightarrow> of_int (round_half_even t) \<le> 2 * t"
proof -
  assume t: "0 \<le> t"
  show ?thesis
  proof (cases "t < 1")
    case True
    then have "\<lfloor>t\<rfloor> = 0" using t by (simp add: floor_eq_iff)
    then show ?thesis using t by (auto simp: round_half_even_def Let_def)
  next
    case False
    have "round_half_even t \<le> \<lfloor>t\<rfloor> + 1" by (auto simp: round_half_even_def Let_def)
    then have "of_int (round_half_even t) \<le> (of_int \<lfloor>t\<rfloor> + 1 :: rat)"
      by (metis of_int_1 of_int_add of_int_le_iff)
    also have "\<dots> \<le> t + 1" by simp
    finally show ?thesis using False by simp
  qed
qed

lemma rd_le_double: "0 \<le> x \<Longrightarrow> rd x \<le> 2 * x"
proof -
  assume "0 \<le> x"
  then have "of_int (round_half_even (x / 2 powi ulp_exp x)) \<le> 2 * (x / 2 powi ulp_exp x)"
    by (intro round_half_even_double) simp
  then have "of_int (round_half_even (x / 2 powi ulp_exp x)) * 2 powi ulp_exp x
      \<le> 2 * (x / 2 powi ulp_exp x) * 2 powi ulp_exp x"
    by (rule mult_right_mono) simp
  then show ?thesis by (simp add: rd_def)
qed

lemma f_lit_unit':
  assumes "0 \<le> x" "x \<le> 1"
  shows "is_finite (f_lit x) \<and> f_val (f_lit x) = rd x \<and> 0 \<le> rd x \<and> rd x \<le> 1"
proof -
  have r: "0 \<le> rd x" "rd x \<le> 1" using rd_nonneg [OF assms(1)] rd_le [OF assms(2)] by simp_all
  then have b: "\<bar>rd x\<bar> < max_bound" using max_bound_gt(3) by simp
  show ?thesis using to_f64_in_range [OF b] r by (simp add: f_lit_def)
qed

lemma rd_quarter: "rd (1 / 4) = 1 / 4" "rd (1 / 16) = 1 / 16" "rd (1 / 2) = 1 / 2"
  using rd_powi [of "- 2"] rd_powi [of "- 4"] rd_powi [of "- 1"] by (simp_all add: power_int_minus)

lemma CLIMB: "is_finite CLIMB" "0 \<le> f_val CLIMB" "f_val CLIMB \<le> 1 / 16"
proof -
  have "rd (1 / 20) \<le> 1 / 16" by (rule rd_le) (simp_all add: rd_quarter)
  then show "is_finite CLIMB" "0 \<le> f_val CLIMB" "f_val CLIMB \<le> 1 / 16"
    using f_lit_unit' [of "1 / 20"] by (simp_all add: CLIMB_def)
qed

lemma CRATER: "is_finite CRATER" "f_val CRATER = 1 / 4"
  using f_lit_unit' [of "1 / 4"] by (simp_all add: CRATER_def rd_quarter)

lemma small_range: "0 \<le> x \<Longrightarrow> x \<le> 1 \<Longrightarrow> \<bar>rd x\<bar> < max_bound \<and> 0 \<le> rd x \<and> rd x \<le> 1"
  using rd_nonneg [of x] rd_le [of x 1] max_bound_gt(3) by auto

text \<open>A pass: the new score is within the unit interval and at most a sixteenth higher.\<close>

lemma climb_step:
  assumes s: "in_unit s" and b: "f_val s \<le> b" and e: "rd (b + 1 / 16) = b + 1 / 16"
  shows "in_unit (fadd s (fmul (fsub (Fin 1) s) CLIMB))"
    and "f_val (fadd s (fmul (fsub (Fin 1) s) CLIMB)) \<le> b + 1 / 16"
proof -
  define v where "v = f_val s"
  have sf: "is_finite s" "0 \<le> v" "v \<le> 1" using s by (auto simp: in_unit_def v_def)
  have nf: "is_finite (fneg s)" "f_val (fneg s) = - v" using sf(1) by (cases s; simp add: v_def)+
  have r1: "\<bar>rd (1 - v)\<bar> < max_bound \<and> 0 \<le> rd (1 - v) \<and> rd (1 - v) \<le> 1"
    using sf by (intro small_range) auto
  have d: "is_finite (fsub (Fin 1) s)" "f_val (fsub (Fin 1) s) = rd (1 - v)"
    unfolding fsub_def using fadd_finite [of "Fin 1" "fneg s"] nf r1 by auto
  let ?p = "rd (1 - v) * f_val CLIMB"
  have p: "0 \<le> ?p" "?p \<le> 1 / 16" "?p \<le> 1"
    using r1 CLIMB mult_mono [of "rd (1 - v)" 1 "f_val CLIMB" "1 / 16"] by auto
  have r2: "\<bar>rd ?p\<bar> < max_bound \<and> 0 \<le> rd ?p \<and> rd ?p \<le> 1" using p by (intro small_range)
  have m: "is_finite (fmul (fsub (Fin 1) s) CLIMB)" "f_val (fmul (fsub (Fin 1) s) CLIMB) = rd ?p"
    using fmul_finite [OF d(1) CLIMB(1)] d(2) r2 by auto
  have m16: "rd ?p \<le> 1 / 16" using p(2) by (rule rd_le) (simp add: rd_quarter)
  have "rd (1 - v) \<le> 2 * (1 - v)" using sf by (intro rd_le_double) simp
  then have "?p \<le> (2 * (1 - v)) * (1 / 16)" using CLIMB sf by (intro mult_mono) auto
  then have "rd ?p \<le> 1 - v" using rd_le_double [OF p(1)] sf by simp
  then have t: "0 \<le> v + rd ?p" "v + rd ?p \<le> 1" using sf r2 by auto
  have r3: "\<bar>rd (v + rd ?p)\<bar> < max_bound \<and> 0 \<le> rd (v + rd ?p) \<and> rd (v + rd ?p) \<le> 1"
    using t by (rule small_range)
  have a: "is_finite (fadd s (fmul (fsub (Fin 1) s) CLIMB))"
    "f_val (fadd s (fmul (fsub (Fin 1) s) CLIMB)) = rd (v + rd ?p)"
    using fadd_finite [OF sf(1) m(1)] m(2) r3 by (auto simp: v_def)
  then show "in_unit (fadd s (fmul (fsub (Fin 1) s) CLIMB))" using r3 by (simp add: in_unit_def)
  have "v + rd ?p \<le> b + 1 / 16" using b m16 by (simp add: v_def)
  then show "f_val (fadd s (fmul (fsub (Fin 1) s) CLIMB)) \<le> b + 1 / 16"
    unfolding a(2) using e by (rule rd_le)
qed

text \<open>A failure: the new score is at most a quarter, and not higher than it was.\<close>

lemma crater_step:
  assumes s: "in_unit s" and ok: "f_ok s"
  shows "in_unit (fmul s CRATER)" and "f_val (fmul s CRATER) \<le> 1 / 4"
    and "f_val (fmul s CRATER) \<le> f_val s"
proof -
  have sf: "is_finite s" "0 \<le> f_val s" "f_val s \<le> 1" using s by (auto simp: in_unit_def)
  let ?p = "f_val s * (1 / 4)"
  have r: "\<bar>rd ?p\<bar> < max_bound \<and> 0 \<le> rd ?p \<and> rd ?p \<le> 1" using sf by (intro small_range) auto
  have m: "is_finite (fmul s CRATER)" "f_val (fmul s CRATER) = rd ?p"
    using fmul_finite [OF sf(1) CRATER(1)] CRATER(2) r by auto
  show "in_unit (fmul s CRATER)" using m r by (simp add: in_unit_def)
  show "f_val (fmul s CRATER) \<le> 1 / 4" unfolding m(2) using sf by (intro rd_le) (simp_all add: rd_quarter)
  show "f_val (fmul s CRATER) \<le> f_val s"
    unfolding m(2) using sf f_val_rd [OF ok] by (intro rd_le) simp_all
qed

lemma fadd_ok: "f_ok a \<Longrightarrow> f_ok b \<Longrightarrow> f_ok (fadd a b)"
  by (cases a; cases b) auto

lemma fmul_ok: "f_ok (fmul a b)"
  by (simp add: fmul_def Let_def)

text \<open>The history of one provider.\<close>

definition history :: "bool list \<Rightarrow> reputation" where
  "history vs = fold record_canary vs default_reputation"

lemma history_snoc: "history (vs @ [v]) = record_canary v (history vs)"
  by (simp add: history_def)

definition passes_of :: "bool list \<Rightarrow> nat" where
  "passes_of vs = length (filter (\<lambda>v. v) vs)"

lemma history_inv:
  "in_unit (rep_score (history vs)) \<and> f_ok (rep_score (history vs)) \<and>
   (passes_of vs \<le> 16 \<longrightarrow> f_val (rep_score (history vs)) \<le> of_nat (passes_of vs) / 16) \<and>
   rep_canary_pass (history vs) = of_nat (passes_of vs)"
proof (induction vs rule: rev_induct)
  case Nil
  then show ?case
    using max_bound_gt by (simp add: history_def default_reputation_def in_unit_def passes_of_def)
next
  case (snoc v vs)
  let ?s = "rep_score (history vs)" and ?n = "passes_of vs"
  have u: "in_unit ?s" and ok: "f_ok ?s" using snoc by blast+
  show ?case
  proof (cases v)
    case True
    let ?s' = "fadd ?s (fmul (fsub (Fin 1) ?s) CLIMB)"
    have h: "rep_score (history (vs @ [v])) = ?s'" "passes_of (vs @ [v]) = Suc ?n"
      using True by (simp_all add: history_snoc record_canary_def passes_of_def)
    have ok': "f_ok ?s'" using ok fmul_ok by (rule fadd_ok)
    have c: "rep_canary_pass (history (vs @ [v])) = of_nat (Suc ?n)"
      using True snoc by (simp add: history_snoc record_canary_def)
    have in': "in_unit ?s'"
    proof -
      have "rd (31 / 16 + 1 / 16) = 31 / 16 + (1 / 16 :: rat)" using rd_powi [of 1] by simp
      moreover have "f_val ?s \<le> 31 / 16" using u by (simp add: in_unit_def)
      ultimately show ?thesis using climb_step(1) [OF u] by blast
    qed
    have "f_val ?s' \<le> of_nat (Suc ?n) / 16" if "Suc ?n \<le> 16"
    proof -
      have "rd (of_nat (Suc ?n) / 16) = of_nat (Suc ?n) / (16 :: rat)"
        using that by (intro rd_exact [of _ "int (Suc ?n)" "- 4"]) (simp_all add: power_int_minus)
      then have "rd (of_nat ?n / 16 + 1 / 16) = of_nat ?n / 16 + (1 / 16 :: rat)"
        by (simp add: add_divide_distrib add.commute)
      moreover have "f_val ?s \<le> of_nat ?n / 16" using snoc that by simp
      ultimately have "f_val ?s' \<le> of_nat ?n / 16 + 1 / 16" using climb_step(2) [OF u] by blast
      then show ?thesis by (simp add: add_divide_distrib add.commute)
    qed
    with in' ok' h c show ?thesis by simp
  next
    case False
    have h: "rep_score (history (vs @ [v])) = fmul ?s CRATER" "passes_of (vs @ [v]) = ?n"
      "rep_canary_pass (history (vs @ [v])) = rep_canary_pass (history vs)"
      using False by (simp_all add: history_snoc record_canary_def passes_of_def)
    from crater_step [OF u ok] fmul_ok [of ?s CRATER] snoc show ?thesis unfolding h by auto
  qed
qed

lemma high_lits:
  assumes "in_unit s" and "fle (f_lit x) s" and "1 / 2 \<le> x" and "x \<le> 1"
  shows "1 / 2 \<le> f_val s"
proof -
  have "1 / 2 \<le> rd x" using assms(3) by (rule rd_ge) (simp add: rd_quarter)
  then show ?thesis using assms f_lit_unit' [of x] by (simp add: fle_finite in_unit_def)
qed

lemma low_score:
  assumes s: "in_unit (rep_score r)" and low: "f_val (rep_score r) < 1 / 2"
  shows "reputation_tier r = New" and "max_job_micro_usdc_for_score (rep_score r) = 10000"
    and "rp_max_job_micro_usdc (policy r) = 10000"
proof -
  have n: "\<not> fle (f_lit (95 / 100)) (rep_score r)" "\<not> fle (f_lit (80 / 100)) (rep_score r)"
    "\<not> fle (f_lit (50 / 100)) (rep_score r)"
    using high_lits [OF s, of "95 / 100"] high_lits [OF s, of "80 / 100"] high_lits [OF s, of "50 / 100"] low
    by auto
  then show "reputation_tier r = New" "max_job_micro_usdc_for_score (rep_score r) = 10000"
    by (simp_all add: reputation_tier_def max_job_micro_usdc_for_score_def)
  then show "rp_max_job_micro_usdc (policy r) = 10000" by (simp add: policy_def)
qed

section \<open>Properties\<close>

text \<open>
  Trust is earned slowly. Whatever the sequence of verdicts, computed with the rounding of the
  machine, the score stays a finite number between 0 and 1; and until the eighth clean canary the
  provider is in the bottom tier and the job-value caps, by tier and by score, are both one cent.
\<close>
theorem trust_is_earned_slowly:
  "in_unit (rep_score (history vs)) \<and>
   (passes_of vs < 8 \<longrightarrow> reputation_tier (history vs) = New \<and>
      max_job_micro_usdc_for_score (rep_score (history vs)) = 10000 \<and>
      rp_max_job_micro_usdc (policy (history vs)) = 10000)"
proof -
  have u: "in_unit (rep_score (history vs))" using history_inv by blast
  have "f_val (rep_score (history vs)) < 1 / 2" if "passes_of vs < 8"
  proof -
    have "f_val (rep_score (history vs)) \<le> of_nat (passes_of vs) / 16" using history_inv that by simp
    also have "\<dots> < 1 / 2" using that by simp
    finally show ?thesis .
  qed
  with low_score [OF u] u show ?thesis by blast
qed

lemma trust_is_earned_slowly_witness: "reputation_tier (history [True, True, False, True]) = New"
  using trust_is_earned_slowly [of "[True, True, False, True]"] by (simp add: passes_of_def)

text \<open>
  One caught cheat is enough. After any history, however long and clean, a failed canary
  leaves the provider with at most a quarter of the scale, in the bottom tier, capped at one cent.
\<close>
theorem one_failure_craters:
  "f_val (rep_score (history (vs @ [False]))) \<le> 1 / 4 \<and>
   f_val (rep_score (history (vs @ [False]))) \<le> f_val (rep_score (history vs)) \<and>
   reputation_tier (history (vs @ [False])) = New \<and>
   max_job_micro_usdc_for_score (rep_score (history (vs @ [False]))) = 10000"
proof -
  have h: "in_unit (rep_score (history vs))" "f_ok (rep_score (history vs))"
    using history_inv by blast+
  have s: "rep_score (history (vs @ [False])) = fmul (rep_score (history vs)) CRATER"
    by (simp add: history_snoc record_canary_def)
  note c = crater_step [OF h]
  have u: "in_unit (rep_score (history (vs @ [False])))" using c(1) by (simp add: s)
  have "f_val (rep_score (history (vs @ [False]))) < 1 / 2" using c(2) by (simp add: s)
  with low_score [OF u] c show ?thesis by (simp add: s)
qed

text \<open>
  Verdicts stay with their provider. Folding a probe into a well-formed registry applies its
  verdicts, in order, to the probed provider's record (the starting record if it had none), returns
  that record, and leaves every other provider's record as it was.
\<close>
theorem probe_hits_one_provider:
  assumes "bt_ok reg"
  shows "registry_get (fst (registry_record_probe reg i items)) j =
       (if j = i then fold record_canary (map (\<lambda>(_, v, _). v) items) (registry_get reg i)
        else registry_get reg j) \<and>
     snd (registry_record_probe reg i items) = registry_get (fst (registry_record_probe reg i items)) i \<and>
     bt_ok (fst (registry_record_probe reg i items))"
proof -
  have f: "fold (\<lambda>(_, passed, _). record_canary passed) items = fold record_canary (map (\<lambda>(_, v, _). v) items)"
    by (induction items) auto
  show ?thesis
    using assms by (simp add: registry_get_def registry_record_probe_def Let_def bt_entry_def
        bt_get_insert bt_ok_insert f)
qed

lemma probe_hits_one_provider_witness:
  "registry_get (fst (registry_record_probe [] ''a'' [(''p'', True, ''s'')])) ''b'' = default_reputation"
  using probe_hits_one_provider [of "[]" "''a''" "[(''p'', True, ''s'')]" "''b''"]
  by (simp add: bt_ok_def registry_get_def)

end
