(* ===== verification/Quorum.thy ===== *)
theory Quorum
  imports Ordered_Map "HOL-Library.Multiset"
begin

text \<open>
  Replicated execution: the tally of \<open>crates/sdk/src/quorum.rs\<close> and the settlement that follows it in
  \<open>run_quorum\<close> of \<open>crates/cloudiy/src/client.rs\<close>. The hash function (SHA-256, from a dependency) is a
  parameter, and so is the outcome of an on-chain release.
\<close>

section \<open>The tally\<close>

record replica_result =
  rr_node :: string
  rr_output :: bytes
  rr_verified :: bool

record winner =
  wn_hash :: bytes
  wn_output :: bytes
  wn_nodes :: "string list"

record tally_result =
  ta_winner :: "winner option"
  ta_best_agreement :: nat
  ta_voters :: nat
  ta_threshold :: nat
  ta_divergent :: "string list"
  ta_unsigned :: "string list"

definition reached :: "tally_result \<Rightarrow> bool" where
  "reached t \<longleftrightarrow> ta_winner t \<noteq> None"

definition unsettleable :: "tally_result \<Rightarrow> string list" where
  "unsettleable t = ta_divergent t @ ta_unsigned t"

definition threshold :: "nat \<Rightarrow> nat" where
  "threshold replicas = replicas div 2 + 1"

definition group_results :: "(bytes \<Rightarrow> bytes) \<Rightarrow> replica_result list \<Rightarrow> (bytes, string list) btree_map" where
  "group_results sha rs =
     fold (\<lambda>r. bt_entry (sha (rr_output r)) [] (\<lambda>ns. ns @ [rr_node r])) (filter rr_verified rs) []"

definition group_bytes :: "(bytes \<Rightarrow> bytes) \<Rightarrow> replica_result list \<Rightarrow> (bytes, bytes) btree_map" where
  "group_bytes sha rs =
     fold (\<lambda>r. bt_entry (sha (rr_output r)) (rr_output r) (\<lambda>b. b)) (filter rr_verified rs) []"

text \<open>\<open>max_by_key\<close>: the last of the greatest; the key is the size, then the lower hash.\<close>

fun best_group :: "(bytes \<times> string list) list \<Rightarrow> (bytes \<times> string list) option" where
  "best_group [] = None"
| "best_group ((h, ns) # gs) =
     (case best_group gs of
        None \<Rightarrow> Some (h, ns)
      | Some (h', ns') \<Rightarrow>
          if length ns' > length ns \<or> (length ns' = length ns \<and> h' \<le> h) then Some (h', ns')
          else Some (h, ns))"

definition tally :: "(bytes \<Rightarrow> bytes) \<Rightarrow> replica_result list \<Rightarrow> nat \<Rightarrow> tally_result" where
  "tally sha results replicas =
     (let th = threshold replicas;
          unsigned = map rr_node (filter (\<lambda>r. \<not> rr_verified r) results);
          groups = group_results sha results;
          voters = sum_list (map (\<lambda>(_, ns). length ns) groups) in
      case best_group groups of
        None \<Rightarrow> \<lparr>ta_winner = None, ta_best_agreement = 0, ta_voters = voters, ta_threshold = th,
                 ta_divergent = [], ta_unsigned = unsigned\<rparr>
      | Some (best_hash, best_nodes) \<Rightarrow>
          \<lparr>ta_winner = (if th \<le> length best_nodes then
               Some \<lparr>wn_hash = best_hash,
                     wn_output = (case bt_get (group_bytes sha results) best_hash of
                                    None \<Rightarrow> [] | Some b \<Rightarrow> b),
                     wn_nodes = best_nodes\<rparr>
             else None),
           ta_best_agreement = length best_nodes, ta_voters = voters, ta_threshold = th,
           ta_divergent = concat (map snd (filter (\<lambda>(h, _). h \<noteq> best_hash) groups)),
           ta_unsigned = unsigned\<rparr>)"

section \<open>Settling a quorum\<close>

record funded_replica =
  fr_node :: string
  fr_escrow :: string
  fr_job_uuid :: string
  fr_amount :: u64

text \<open>
  The end of \<open>run_quorum\<close>: no quorum, nobody is paid and every escrow is reported; otherwise the
  agreeing nodes with an escrow and a proof are released (\<open>released\<close> says which releases succeed),
  and every funded replica not settled is reported as refundable. Without \<open>auto_release\<close> the
  winners are only listed.
\<close>

datatype settlement =
    NoQuorum "funded_replica list"
  | Settled "string list" "funded_replica list"

definition settle_one ::
  "(string \<Rightarrow> funded_replica option) \<Rightarrow> (string \<Rightarrow> (bytes \<times> string \<times> string) option) \<Rightarrow>
   (funded_replica \<Rightarrow> bytes \<times> string \<times> string \<Rightarrow> bool) \<Rightarrow> string \<Rightarrow> string list \<Rightarrow> string list" where
  "settle_one by_node proofs released node settled =
     (case by_node node of None \<Rightarrow> settled
      | Some f \<Rightarrow>
         (case proofs node of None \<Rightarrow> settled
          | Some p \<Rightarrow> if released f p then settled @ [node] else settled))"

definition settle_quorum ::
  "tally_result \<Rightarrow> funded_replica list \<Rightarrow> (string \<Rightarrow> (bytes \<times> string \<times> string) option) \<Rightarrow>
   (funded_replica \<Rightarrow> bytes \<times> string \<times> string \<Rightarrow> bool) \<Rightarrow> bool \<Rightarrow> settlement" where
  "settle_quorum t funded proofs released auto_release =
     (let by_node = (\<lambda>n. List.find (\<lambda>f. fr_node f = n) funded) in
      case ta_winner t of
        None \<Rightarrow> NoQuorum funded
      | Some w \<Rightarrow>
          let settled = (if auto_release then fold (settle_one by_node proofs released) (wn_nodes w) []
                         else wn_nodes w) in
          Settled settled (filter (\<lambda>f. fr_node f \<notin> set settled) funded))"

section \<open>What the groups are\<close>

definition votes :: "(bytes \<Rightarrow> bytes) \<Rightarrow> replica_result list \<Rightarrow> bytes \<Rightarrow> replica_result list" where
  "votes sha rs h = filter (\<lambda>r. rr_verified r \<and> sha (rr_output r) = h) rs"

lemma group_results_get:
  "bt_ok (group_results sha rs) \<and>
   bt_get (group_results sha rs) h =
     (if votes sha rs h = [] then None else Some (map rr_node (votes sha rs h)))"
proof (induction rs arbitrary: h rule: rev_induct)
  case Nil
  then show ?case by (simp add: group_results_def bt_ok_def votes_def)
next
  case (snoc r rs)
  show ?case
  proof (cases "rr_verified r")
    case False
    with snoc show ?thesis by (simp add: group_results_def votes_def)
  next
    case True
    then have "group_results sha (rs @ [r]) =
        bt_entry (sha (rr_output r)) [] (\<lambda>ns. ns @ [rr_node r]) (group_results sha rs)"
      by (simp add: group_results_def)
    with snoc [of "sha (rr_output r)"] snoc [of h] True show ?thesis
      by (auto simp: bt_entry_def bt_ok_insert bt_get_insert votes_def)
  qed
qed

lemma group_bytes_get:
  "bt_ok (group_bytes sha rs) \<and>
   bt_get (group_bytes sha rs) h =
     (case votes sha rs h of [] \<Rightarrow> None | r # _ \<Rightarrow> Some (rr_output r))"
proof (induction rs arbitrary: h rule: rev_induct)
  case Nil
  then show ?case by (simp add: group_bytes_def bt_ok_def votes_def)
next
  case (snoc r rs)
  show ?case
  proof (cases "rr_verified r")
    case False
    with snoc show ?thesis by (simp add: group_bytes_def votes_def)
  next
    case True
    then have "group_bytes sha (rs @ [r]) =
        bt_entry (sha (rr_output r)) (rr_output r) (\<lambda>b. b) (group_bytes sha rs)"
      by (simp add: group_bytes_def)
    with snoc [of "sha (rr_output r)"] snoc [of h] True show ?thesis
      by (auto simp: bt_entry_def bt_ok_insert bt_get_insert votes_def split: list.splits)
  qed
qed

lemma group_entries:
  "(h, ns) \<in> set (group_results sha rs) \<longleftrightarrow> votes sha rs h \<noteq> [] \<and> ns = map rr_node (votes sha rs h)"
  using bt_entries [of "group_results sha rs" h ns] group_results_get [of sha rs h] by auto

lemma best_group_None: "best_group gs = None \<longleftrightarrow> gs = []"
  by (induction gs rule: best_group.induct) (auto split: option.splits)

lemma best_group_Some:
  "best_group gs = Some (h, ns) \<Longrightarrow> (h, ns) \<in> set gs \<and>
     (\<forall>h' ns'. (h', ns') \<in> set gs \<longrightarrow> length ns' < length ns \<or> length ns' = length ns \<and> h \<le> h')"
proof (induction gs arbitrary: h ns)
  case Nil
  then show ?case by simp
next
  case (Cons g gs)
  obtain a as where g: "g = (a, as)" by (cases g)
  show ?case
  proof (cases "best_group gs")
    case None
    with Cons.prems show ?thesis by (simp add: g best_group_None)
  next
    case (Some b)
    obtain c cs where b: "b = (c, cs)" by (cases b)
    from Cons.IH [of c cs] Some have ih: "(c, cs) \<in> set gs"
      "\<And>h' ns'. (h', ns') \<in> set gs \<Longrightarrow> length ns' < length cs \<or> length ns' = length cs \<and> c \<le> h'"
      by (auto simp: b)
    show ?thesis
    proof (cases "length cs > length as \<or> (length cs = length as \<and> c \<le> a)")
      case True
      then have "h = c" "ns = cs" using Cons.prems Some by (auto simp: g b)
      with True ih show ?thesis by (auto simp: g)
    next
      case False
      then have hn: "h = a" "ns = as" using Cons.prems Some by (auto simp: g b)
      have "length ns' < length as \<or> length ns' = length as \<and> a \<le> h'" if "(h', ns') \<in> set gs" for h' ns'
        using ih(2) [OF that] False by (auto intro: order_trans [of a c])
      then show ?thesis by (auto simp: g hn)
    qed
  qed
qed

section \<open>Reading the tally by counting votes\<close>

text \<open>\<open>leads sha rs h\<close>: \<open>h\<close> is the lowest of the hashes with the most verified results.\<close>

definition leads :: "(bytes \<Rightarrow> bytes) \<Rightarrow> replica_result list \<Rightarrow> bytes \<Rightarrow> bool" where
  "leads sha rs h \<longleftrightarrow> votes sha rs h \<noteq> [] \<and>
     (\<forall>h'. length (votes sha rs h') < length (votes sha rs h) \<or>
           length (votes sha rs h') = length (votes sha rs h) \<and> h \<le> h')"

lemma leads_unique: "leads sha rs h \<Longrightarrow> leads sha rs h' \<Longrightarrow> h = h'"
  unfolding leads_def by (metis nat_less_le order_antisym less_asym)

lemma best_group_leads:
  assumes "best_group (group_results sha rs) = Some (h, ns)"
  shows "leads sha rs h" and "ns = map rr_node (votes sha rs h)"
proof -
  note b = best_group_Some [OF assms]
  then show ns: "ns = map rr_node (votes sha rs h)" by (simp add: group_entries)
  show "leads sha rs h" unfolding leads_def
  proof (intro conjI allI)
    show nz: "votes sha rs h \<noteq> []" using b by (simp add: group_entries)
    fix h'
    show "length (votes sha rs h') < length (votes sha rs h) \<or>
        length (votes sha rs h') = length (votes sha rs h) \<and> h \<le> h'"
    proof (cases "votes sha rs h' = []")
      case True
      with nz show ?thesis by simp
    next
      case False
      then have "(h', map rr_node (votes sha rs h')) \<in> set (group_results sha rs)"
        by (simp add: group_entries)
      with b ns show ?thesis by fastforce
    qed
  qed
qed

lemma best_group_none:
  "best_group (group_results sha rs) = None \<longleftrightarrow> (\<forall>r \<in> set rs. \<not> rr_verified r)"
proof
  assume "best_group (group_results sha rs) = None"
  then have e: "group_results sha rs = []" by (simp add: best_group_None)
  show "\<forall>r \<in> set rs. \<not> rr_verified r"
  proof (intro ballI notI)
    fix r assume "r \<in> set rs" "rr_verified r"
    then have "votes sha rs (sha (rr_output r)) \<noteq> []" by (auto simp: votes_def filter_empty_conv)
    then have "(sha (rr_output r), map rr_node (votes sha rs (sha (rr_output r)))) \<in> set (group_results sha rs)"
      by (simp add: group_entries)
    then show False by (simp add: e)
  qed
next
  assume "\<forall>r \<in> set rs. \<not> rr_verified r"
  then have "filter rr_verified rs = []" by (simp add: filter_empty_conv)
  then show "best_group (group_results sha rs) = None" by (simp add: group_results_def)
qed

lemma group_mset:
  "mset (concat (map snd (group_results sha rs))) = mset (map rr_node (filter rr_verified rs)) \<and>
   sum_list (map (\<lambda>(_, ns). length ns) (group_results sha rs)) = length (filter rr_verified rs)"
proof -
  have ins: "mset (concat (map snd (bt_entry h [] (\<lambda>ns. ns @ [n]) g))) = add_mset n (mset (concat (map snd g)))"
    if "bt_ok g" for h n and g :: "(bytes, string list) btree_map"
    using that
  proof (induction g)
    case Nil
    then show ?case by (simp add: bt_entry_def)
  next
    case (Cons e g)
    obtain k v where e: "e = (k, v)" by (cases e)
    have ok: "bt_ok g" using Cons.prems by (simp add: bt_ok_def)
    consider "h < k" | "h = k" | "k < h" by fastforce
    then show ?case
    proof cases
      case 1
      then have "bt_get g h = None"
        using Cons.prems unfolding bt_get_map_of by (auto simp: bt_ok_def e map_of_eq_None_iff)
      with 1 show ?thesis by (auto simp: bt_entry_def e)
    next
      case 2
      then show ?thesis by (simp add: bt_entry_def e)
    next
      case 3
      with Cons.IH [OF ok] show ?thesis by (auto simp: bt_entry_def e)
    qed
  qed
  have m: "mset (concat (map snd (group_results sha rs))) = mset (map rr_node (filter rr_verified rs))"
  proof (induction rs rule: rev_induct)
    case Nil
    then show ?case by (simp add: group_results_def)
  next
    case (snoc r rs)
    have "bt_ok (group_results sha rs)" using group_results_get by blast
    from ins [OF this] snoc show ?case by (simp add: group_results_def)
  qed
  have "sum_list (map (\<lambda>(_, ns). length ns) g) = length (concat (map snd g))"
    for g :: "(bytes, string list) btree_map"
    by (induction g) auto
  with m show ?thesis by (metis length_map size_mset)
qed

lemma votes_majority:
  assumes "length rs \<le> replicas" and "threshold replicas \<le> length (votes sha rs h)" and "h' \<noteq> h"
  shows "length (votes sha rs h') < threshold replicas"
proof -
  have "length (votes sha rs h) + length (votes sha rs h') \<le> length rs"
    using assms(3) unfolding votes_def by (induction rs) auto
  with assms(1,2) show ?thesis by (simp add: threshold_def)
qed

lemma votes_sha: "r \<in> set (votes sha rs h) \<Longrightarrow> sha (rr_output r) = h \<and> rr_verified r \<and> r \<in> set rs"
  by (auto simp: votes_def)

lemma tally_None:
  assumes "best_group (group_results sha rs) = None"
  shows "tally sha rs replicas = \<lparr>ta_winner = None, ta_best_agreement = 0, ta_voters = 0,
     ta_threshold = threshold replicas, ta_divergent = [],
     ta_unsigned = map rr_node rs\<rparr>"
proof -
  from assms have "filter (\<lambda>r. \<not> rr_verified r) rs = rs" by (simp add: best_group_none)
  moreover have "group_results sha rs = []" using assms by (simp add: best_group_None)
  ultimately show ?thesis by (simp add: tally_def Let_def)
qed

lemma tally_Some:
  assumes b: "best_group (group_results sha rs) = Some (h, ns)"
  shows "ta_winner (tally sha rs replicas) =
      (if threshold replicas \<le> length (votes sha rs h)
       then Some \<lparr>wn_hash = h, wn_output = rr_output (hd (votes sha rs h)),
                  wn_nodes = map rr_node (votes sha rs h)\<rparr> else None)"
    and "ta_best_agreement (tally sha rs replicas) = length (votes sha rs h)"
    and "ta_voters (tally sha rs replicas) = length (filter rr_verified rs)"
    and "ta_threshold (tally sha rs replicas) = threshold replicas"
    and "ta_divergent (tally sha rs replicas) =
      concat (map snd (filter (\<lambda>(k, _). k \<noteq> h) (group_results sha rs)))"
    and "ta_unsigned (tally sha rs replicas) = map rr_node (filter (\<lambda>r. \<not> rr_verified r) rs)"
proof -
  note l = best_group_leads [OF b]
  have "votes sha rs h \<noteq> []" using l(1) by (simp add: leads_def)
  then have "(case bt_get (group_bytes sha rs) h of None \<Rightarrow> [] | Some x \<Rightarrow> x) = rr_output (hd (votes sha rs h))"
    using group_bytes_get [of sha rs h] by (auto split: list.splits)
  then show "ta_winner (tally sha rs replicas) =
      (if threshold replicas \<le> length (votes sha rs h)
       then Some \<lparr>wn_hash = h, wn_output = rr_output (hd (votes sha rs h)),
                  wn_nodes = map rr_node (votes sha rs h)\<rparr> else None)"
    "ta_best_agreement (tally sha rs replicas) = length (votes sha rs h)"
    "ta_voters (tally sha rs replicas) = length (filter rr_verified rs)"
    "ta_threshold (tally sha rs replicas) = threshold replicas"
    "ta_divergent (tally sha rs replicas) =
      concat (map snd (filter (\<lambda>(k, _). k \<noteq> h) (group_results sha rs)))"
    "ta_unsigned (tally sha rs replicas) = map rr_node (filter (\<lambda>r. \<not> rr_verified r) rs)"
    using group_mset [of sha rs] l(2) b by (simp_all add: tally_def Let_def)
qed

text \<open>The nodes of the other groups are the verified results that voted otherwise.\<close>

lemma divergent_set:
  "set (concat (map snd (filter (\<lambda>(k, _). k \<noteq> h) (group_results sha rs)))) =
     rr_node ` {r \<in> set rs. rr_verified r \<and> sha (rr_output r) \<noteq> h}"
proof -
  have "n \<in> set (concat (map snd (filter (\<lambda>(k, _). k \<noteq> h) (group_results sha rs)))) \<longleftrightarrow>
      (\<exists>k. k \<noteq> h \<and> n \<in> rr_node ` set (votes sha rs k))" for n
  proof -
    have "n \<in> set (concat (map snd (filter (\<lambda>(k, _). k \<noteq> h) (group_results sha rs)))) \<longleftrightarrow>
        (\<exists>k ns. (k, ns) \<in> set (group_results sha rs) \<and> k \<noteq> h \<and> n \<in> set ns)"
      by force
    also have "\<dots> \<longleftrightarrow> (\<exists>k. k \<noteq> h \<and> n \<in> set (map rr_node (votes sha rs k)))"
      unfolding group_entries by (metis empty_iff list.set(1) list.simps(8))
    finally show ?thesis by simp
  qed
  moreover have "(\<exists>k. k \<noteq> h \<and> n \<in> rr_node ` set (votes sha rs k)) \<longleftrightarrow>
      n \<in> rr_node ` {r \<in> set rs. rr_verified r \<and> sha (rr_output r) \<noteq> h}" for n
    by (auto simp: votes_def)
  ultimately show ?thesis by blast
qed

section \<open>Properties\<close>

text \<open>
  C24. The tally is right. A winner is named exactly when some answer has a strict majority of the
  replicas asked for among the verified results; then it is that answer: its nodes are the nodes that
  gave it, in order of arrival, its output hashes to the winning hash, and, when no more results came
  in than replicas were asked for, no other answer reaches the threshold. The divergent nodes are
  those of the verified results with another hash.
\<close>
theorem tally_strict_majority:
  "(ta_winner (tally sha rs replicas) = None \<longleftrightarrow>
      (\<forall>h. length (votes sha rs h) \<le> replicas div 2)) \<and>
   (\<forall>w. ta_winner (tally sha rs replicas) = Some w \<longrightarrow>
      wn_nodes w = map rr_node (votes sha rs (wn_hash w)) \<and>
      replicas div 2 < length (wn_nodes w) \<and>
      sha (wn_output w) = wn_hash w \<and>
      set (ta_divergent (tally sha rs replicas)) =
        rr_node ` {r \<in> set rs. rr_verified r \<and> sha (rr_output r) \<noteq> wn_hash w} \<and>
      (length rs \<le> replicas \<longrightarrow>
        (\<forall>h. h \<noteq> wn_hash w \<longrightarrow> length (votes sha rs h) \<le> replicas div 2)))"
proof (cases "best_group (group_results sha rs)")
  case None
  then have "votes sha rs h = []" for h by (auto simp: best_group_none votes_def filter_empty_conv)
  then show ?thesis using tally_None [OF None] by simp
next
  case (Some g)
  then obtain h ns where g: "best_group (group_results sha rs) = Some (h, ns)" by (cases g) auto
  note t = tally_Some [OF g, of replicas] and l = best_group_leads(1) [OF g]
  have max: "length (votes sha rs h') \<le> length (votes sha rs h)" for h'
    using l unfolding leads_def by (metis less_imp_le order_refl)
  have ne: "votes sha rs h \<noteq> []" using l by (simp add: leads_def)
  then have out: "sha (rr_output (hd (votes sha rs h))) = h" using votes_sha [of "hd (votes sha rs h)" sha rs h] by simp
  show ?thesis
  proof (cases "threshold replicas \<le> length (votes sha rs h)")
    case True
    have u: "length (votes sha rs h') \<le> replicas div 2" if "length rs \<le> replicas" "h' \<noteq> h" for h'
      using votes_majority [OF that(1) True that(2)] by (simp add: threshold_def)
    have "\<not> (\<forall>h. length (votes sha rs h) \<le> replicas div 2)"
      using True by (auto simp: threshold_def not_le intro!: exI [of _ h])
    with True t out u divergent_set [of h sha rs] show ?thesis by (auto simp: threshold_def)
  next
    case False
    then have "length (votes sha rs h') \<le> replicas div 2" for h'
      using max [of h'] by (simp add: threshold_def)
    with False t show ?thesis by simp
  qed
qed

definition demo_results :: "replica_result list" where
  "demo_results = [\<lparr>rr_node = ''a'', rr_output = [1], rr_verified = True\<rparr>,
     \<lparr>rr_node = ''b'', rr_output = [2], rr_verified = True\<rparr>,
     \<lparr>rr_node = ''c'', rr_output = [1], rr_verified = True\<rparr>]"

lemma demo_tally: "ta_winner (tally (\<lambda>x. x) demo_results 3) =
    Some \<lparr>wn_hash = [1], wn_output = [1], wn_nodes = [''a'', ''c'']\<rparr>"
  by (simp add: tally_def demo_results_def group_results_def group_bytes_def bt_entry_def threshold_def)

lemma tally_strict_majority_witness:
  "length (votes (\<lambda>x. x) demo_results [2]) \<le> 1 \<and> set (ta_divergent (tally (\<lambda>x. x) demo_results 3)) \<subseteq> {''b''}"
  using tally_strict_majority [of "\<lambda>x. x" demo_results 3] demo_tally
  by (auto simp: demo_results_def)

text \<open>
  The tally does not depend on the order in which the answers arrive: permuting the results
  leaves the winning hash, the size of the largest group, the voters and the threshold as they were,
  and permutes the winner's nodes.
\<close>
theorem tally_order_independent:
  assumes "mset rs = mset rs'"
  shows "map_option wn_hash (ta_winner (tally sha rs replicas)) =
      map_option wn_hash (ta_winner (tally sha rs' replicas)) \<and>
    map_option (\<lambda>w. mset (wn_nodes w)) (ta_winner (tally sha rs replicas)) =
      map_option (\<lambda>w. mset (wn_nodes w)) (ta_winner (tally sha rs' replicas)) \<and>
    ta_best_agreement (tally sha rs replicas) = ta_best_agreement (tally sha rs' replicas) \<and>
    ta_voters (tally sha rs replicas) = ta_voters (tally sha rs' replicas)"
proof -
  have v: "mset (votes sha rs h) = mset (votes sha rs' h)" for h
    using assms by (simp add: votes_def mset_filter)
  have vl: "length (votes sha rs h) = length (votes sha rs' h)" for h using v by (metis size_mset)
  have voters: "length (filter rr_verified rs) = length (filter rr_verified rs')"
    using assms by (metis mset_filter size_mset)
  have nodes: "mset (map rr_node (votes sha rs h)) = mset (map rr_node (votes sha rs' h))" for h
    using v by simp
  have leads: "leads sha rs h \<longleftrightarrow> leads sha rs' h" for h
    unfolding leads_def vl using vl [of h] by (metis length_0_conv)
  show ?thesis
  proof (cases "best_group (group_results sha rs)")
    case None
    moreover have "set rs = set rs'" using assms by (metis set_mset_mset)
    ultimately have "best_group (group_results sha rs') = None" by (simp add: best_group_none)
    with None show ?thesis by (simp add: tally_None)
  next
    case (Some g)
    then obtain h ns where g: "best_group (group_results sha rs) = Some (h, ns)" by (cases g) auto
    have "best_group (group_results sha rs') \<noteq> None"
      using g assms by (metis best_group_none option.distinct(1) set_mset_mset)
    then obtain h' ns' where g': "best_group (group_results sha rs') = Some (h', ns')" by auto
    have "h = h'" using best_group_leads(1) [OF g] best_group_leads(1) [OF g'] leads leads_unique by blast
    then show ?thesis
      using tally_Some [OF g, of replicas] tally_Some [OF g', of replicas] vl [of h] voters nodes [of h]
      by simp
  qed
qed

lemma tally_order_independent_witness:
  "map_option wn_hash (ta_winner (tally (\<lambda>x. x) (rev demo_results) 3)) = Some [1]"
  using tally_order_independent [of "rev demo_results" demo_results "\<lambda>x. x" 3] demo_tally by simp

text \<open>
  Only agreeing providers are settled, and no escrow is forgotten. After a quorum run every
  settled node belongs to the winning group (so, when the results come from distinct nodes, it is
  neither divergent nor unsigned), and every funded replica is either settled or reported to the
  consumer as refundable; without a quorum all of them are reported and none is settled.
\<close>
theorem settlement_partition:
  assumes "distinct (map rr_node rs)"
  shows "(case settle_quorum (tally sha rs replicas) funded proofs released auto of
     NoQuorum refundable \<Rightarrow> ta_winner (tally sha rs replicas) = None \<and> refundable = funded
   | Settled settled refundable \<Rightarrow>
       (\<exists>w. ta_winner (tally sha rs replicas) = Some w \<and> set settled \<subseteq> set (wn_nodes w)) \<and>
       set settled \<inter> set (unsettleable (tally sha rs replicas)) = {} \<and>
       refundable = filter (\<lambda>f. fr_node f \<notin> set settled) funded)"
proof (cases "ta_winner (tally sha rs replicas)")
  case None
  then show ?thesis by (simp add: settle_quorum_def)
next
  case (Some w)
  let ?t = "tally sha rs replicas" and ?by = "\<lambda>n. List.find (\<lambda>f. fr_node f = n) funded"
  define settled where "settled = (if auto then fold (settle_one ?by proofs released) (wn_nodes w) [] else wn_nodes w)"
  have fold: "set (fold (settle_one ?by proofs released) ns acc) \<subseteq> set acc \<union> set ns" for ns acc
  proof (induction ns arbitrary: acc)
    case Nil
    then show ?case by simp
  next
    case (Cons n ns)
    have "set (settle_one ?by proofs released n acc) \<subseteq> set acc \<union> {n}"
      by (auto simp: settle_one_def split: option.splits)
    with Cons [of "settle_one ?by proofs released n acc"] show ?case by auto
  qed
  have sub: "set settled \<subseteq> set (wn_nodes w)" using fold [of "wn_nodes w" "[]"] by (simp add: settled_def)
  obtain h ns where g: "best_group (group_results sha rs) = Some (h, ns)"
    using Some tally_None [of sha rs replicas] by (cases "best_group (group_results sha rs)") auto
  note t = tally_Some [OF g, of replicas]
  have w: "wn_nodes w = map rr_node (votes sha rs h)" using Some t(1) by (auto split: if_splits)
  have inj: "rr_node r = rr_node r' \<Longrightarrow> r = r'" if "r \<in> set rs" "r' \<in> set rs" for r r'
    using assms that by (auto simp: distinct_map dest: inj_onD)
  have "rr_node r \<notin> set (unsettleable ?t)" if "r \<in> set (votes sha rs h)" for r
  proof
    assume "rr_node r \<in> set (unsettleable ?t)"
    then obtain r' where r': "r' \<in> set rs" "rr_node r' = rr_node r"
      "rr_verified r' \<longrightarrow> sha (rr_output r') \<noteq> h"
      unfolding unsettleable_def set_append t(5) t(6) divergent_set by auto
    with inj [OF r'(1)] votes_sha [OF that] show False by blast
  qed
  then have "set settled \<inter> set (unsettleable ?t) = {}" using sub w by auto
  then show ?thesis using Some sub by (simp add: settle_quorum_def Let_def settled_def)
qed

lemma settlement_partition_witness:
  "settle_quorum (tally (\<lambda>x. x) demo_results 3) [] (\<lambda>_. None) (\<lambda>_ _. True) True = Settled [] [] \<and>
   set [''a'', ''c''] \<inter> set (unsettleable (tally (\<lambda>x. x) demo_results 3)) = {}"
  using settlement_partition [of demo_results "\<lambda>x. x" 3 "[]" "\<lambda>_. None" "\<lambda>_ _. True" False] demo_tally
  by (auto simp: demo_results_def settle_quorum_def settle_one_def Let_def)

end
