(* ===== verification/Float_Cast.thy ===== *)
theory Float_Cast
  imports Float64
begin

text \<open>
  From doubles to integers: \<open>round\<close> (half away from zero), the saturating cast \<open>as u64\<close> and \<open>max\<close>; the
  relative error of the rounding of \<open>Float64\<close>; and that a price in micro-units survives its trip through
  a number of units.
\<close>

definition round_away :: "rat \<Rightarrow> int" where
  "round_away x = (if x < 0 then - \<lfloor>1 / 2 - x\<rfloor> else \<lfloor>x + 1 / 2\<rfloor>)"

fun f_round :: "f64 \<Rightarrow> f64" where
  "f_round (Fin x) = (if round_away x = 0 \<and> x < 0 then NegZero else Fin (of_int (round_away x)))"
| "f_round x = x"

definition rat_to_u64 :: "rat \<Rightarrow> u64" where
  "rat_to_u64 x = (if x < 0 then 0 else if 2 ^ 64 \<le> x then - 1 else word_of_int \<lfloor>x\<rfloor>)"

fun f_to_u64 :: "f64 \<Rightarrow> u64" where
  "f_to_u64 NaN = 0"
| "f_to_u64 PosInf = - 1"
| "f_to_u64 NegInf = 0"
| "f_to_u64 x = rat_to_u64 (f_val x)"

definition f_max :: "f64 \<Rightarrow> f64 \<Rightarrow> f64" where
  "f_max a b = (if a = NaN then b else if b = NaN then a else if flt a b then b else a)"

section \<open>The error of one rounding\<close>

lemma round_half_even_error: "\<bar>of_int (round_half_even x) - x\<bar> \<le> 1 / 2"
proof -
  define f where "f = \<lfloor>x\<rfloor>"
  have f: "of_int f \<le> x" "x < of_int f + 1" unfolding f_def by linarith+
  consider "round_half_even x = f" "x - of_int f \<le> 1 / 2" | "round_half_even x = f + 1" "1 / 2 \<le> x - of_int f"
    unfolding round_half_even_def Let_def f_def [symmetric]
    by (cases "x - of_int f < 1 / 2"; cases "1 / 2 < x - of_int f"; cases "even f") auto
  then show ?thesis
  proof cases
    case 1
    then show ?thesis using f(1) by (simp add: abs_le_iff)
  next
    case 2
    then show ?thesis using f(2) by (simp add: abs_le_iff)
  qed
qed

lemma rd_error:
  assumes "2 powi e \<le> x" and "- 1022 \<le> e"
  shows "\<bar>rd x - x\<bar> \<le> x / 2 ^ 53"
proof -
  have "(0 :: rat) < 2 powi e" by simp
  then have x: "0 < x" using assms(1) by linarith
  have "(2 :: rat) powi e < 2 powi (rat_log2 x + 1)" using rat_log2_bounds(2) [OF x] assms(1) by linarith
  then have "- 1022 \<le> rat_log2 x" using assms(2) by (simp add: powi2_less_iff)
  then have e: "ulp_exp x = rat_log2 x - 52" using x by (simp add: ulp_exp_def)
  define u where "u = (2 :: rat) powi ulp_exp x"
  have u: "0 < u" by (simp add: u_def)
  have "rd x - x = (of_int (round_half_even (x / u)) - x / u) * u"
    using x u by (simp add: rd_def left_diff_distrib flip: u_def)
  then have "\<bar>rd x - x\<bar> = \<bar>of_int (round_half_even (x / u)) - x / u\<bar> * u" using u by (simp add: abs_mult)
  also have "\<dots> \<le> 1 / 2 * u" using round_half_even_error [of "x / u"] u by (intro mult_right_mono) auto
  also have "\<dots> = 2 powi rat_log2 x / 2 ^ 53" by (simp add: u_def e power_int_diff)
  also have "\<dots> \<le> x / 2 ^ 53" using rat_log2_bounds(1) [OF x] by (simp add: divide_right_mono)
  finally show ?thesis .
qed

section \<open>Micro-units\<close>

text \<open>\<open>(amount * 1e6).round() as u64\<close>.\<close>

definition micro :: "f64 \<Rightarrow> u64" where
  "micro amount = f_to_u64 (f_round (fmul amount (f_lit 1000000)))"

lemma round_away_near: "0 \<le> x \<Longrightarrow> \<bar>x - of_int n\<bar> < 1 / 2 \<Longrightarrow> round_away x = n"
  unfolding round_away_def abs_less_iff by (auto intro!: floor_unique)

lemma rd_million: "rd 1000000 = 1000000"
  using rd_exact [of 1000000 1000000 0] by simp

lemma million: "is_finite (f_lit 1000000)" "f_val (f_lit 1000000) = 1000000"
  using to_f64_in_range [of 1000000 False] max_bound_big [of 1000000] by (simp_all add: f_lit_def rd_million)

lemma micro_near:
  assumes "is_finite a" "0 \<le> f_val a" "\<bar>rd (f_val a * 1000000) - of_nat n\<bar> < 1 / 2" "n < 2 ^ 64"
  shows "micro a = word_of_nat n"
proof -
  define r where "r = rd (f_val a * 1000000)"
  have r0: "0 \<le> r" unfolding r_def using assms(2) by (intro rd_nonneg) simp
  have n: "(of_nat n :: rat) < 18446744073709551616"
    using assms(4) of_nat_less_iff [of n 18446744073709551616, where 'a = rat] by simp
  then have b: "r < 2 ^ 65" using assms(3) unfolding r_def [symmetric] abs_less_iff by simp
  then have "\<bar>r\<bar> < max_bound" using r0 max_bound_gt(1) by simp
  then have m: "is_finite (fmul a (f_lit 1000000))" "f_val (fmul a (f_lit 1000000)) = r"
    using fmul_finite [of a "f_lit 1000000"] assms(1) million by (simp_all add: r_def)
  have ra: "round_away r = int n" using round_away_near [of r "int n"] r0 assms(3) by (simp add: r_def)
  show ?thesis
  proof (cases "fmul a (f_lit 1000000)")
    case (Fin x)
    then have "x = r" using m by simp
    then show ?thesis using Fin ra n r0 by (simp add: micro_def rat_to_u64_def)
  next
    case NegZero
    then have "r = 0" using m by simp
    then have "n = 0" using assms(3) by (simp flip: r_def)
    then show ?thesis using NegZero by (simp add: micro_def rat_to_u64_def)
  qed (use m in simp_all)
qed

text \<open>A price of up to a billion units survives the trip through a double of units.\<close>

lemma price_survives:
  assumes "unat p \<le> 10 ^ 15"
  shows "micro (fdiv (f_of_u64 p) (f_lit 1000000)) = p"
proof -
  define n where "n = unat p"
  define q where "q = (of_nat n :: rat)"
  have "of_nat n \<le> (of_nat (10 ^ 15) :: rat)" using assms by (simp only: of_nat_le_iff n_def)
  then have q: "0 \<le> q" "q \<le> 10 ^ 15" by (simp_all add: q_def)
  have "n \<le> 2 ^ 53" using assms by (simp add: n_def)
  then have "rd q = q" by (intro rd_exact [of q "int n" 0]) (simp_all add: q_def)
  then have f: "is_finite (f_of_u64 p)" "f_val (f_of_u64 p) = q"
    using to_f64_in_range [of q False] q max_bound_big [of q] by (simp_all add: f_of_u64_def q_def n_def)
  define v where "v = rd (q / 1000000)"
  have v0: "0 \<le> v" unfolding v_def using q by (intro rd_nonneg) simp
  have near: "\<bar>v - q / 1000000\<bar> \<le> q / 1000000 / 2 ^ 53 \<and> \<bar>rd (v * 1000000) - v * 1000000\<bar> \<le> v * 1000000 / 2 ^ 53"
  proof (cases "n = 0")
    case True
    then show ?thesis by (simp add: v_def q_def)
  next
    case False
    then have q1: "1 \<le> q" by (simp add: q_def)
    have "(2 :: rat) powi (- 20) \<le> q / 1000000" using q1 by (simp add: power_int_minus)
    then have 1: "\<bar>v - q / 1000000\<bar> \<le> q / 1000000 / 2 ^ 53" unfolding v_def by (rule rd_error) simp
    then have "q / 2000000 \<le> v" using abs_le_D2 [OF 1] q1 by simp
    then have "(2 :: rat) powi (- 1) \<le> v * 1000000" using q1 by (simp add: power_int_minus)
    then have "\<bar>rd (v * 1000000) - v * 1000000\<bar> \<le> v * 1000000 / 2 ^ 53" by (rule rd_error) simp
    with 1 show ?thesis by simp
  qed
  then have vb: "v \<le> 2 * 10 ^ 9" using abs_le_D1 [OF near [THEN conjunct1]] q by simp
  then have "\<bar>v\<bar> < max_bound" using v0 max_bound_gt(3) max_bound_big [of v] by simp
  then have d: "is_finite (fdiv (f_of_u64 p) (f_lit 1000000))" "f_val (fdiv (f_of_u64 p) (f_lit 1000000)) = v"
    using fdiv_finite [of "f_of_u64 p" "f_lit 1000000"] f million by (simp_all add: v_def)
  have "\<bar>rd (v * 1000000) - of_nat n\<bar> < 1 / 2" 
    using abs_le_D1 [OF near [THEN conjunct1]] abs_le_D2 [OF near [THEN conjunct1]]
      abs_le_D1 [OF near [THEN conjunct2]] abs_le_D2 [OF near [THEN conjunct2]] q
    unfolding q_def [symmetric] abs_less_iff by auto
  then have "micro (fdiv (f_of_u64 p) (f_lit 1000000)) = word_of_nat n"
    using d v0 assms by (intro micro_near) (simp_all add: n_def)
  then show ?thesis by (simp add: n_def)
qed

end
