(* ===== verification/Pricing.thy ===== *)
theory Pricing
  imports Ordered_Map Float_Cast
begin

text \<open>
  Posted pricing, \<open>crates/protocol/src/pricing.rs\<close>: the price of one compute unit from the cost of
  the model's class, its measured time and the margin, in 128-bit arithmetic that wraps as the
  release build does, truncated to 64 bits; the price as a double, for display.
\<close>

datatype cu_kind = PerRequest | Per1kTokens | PerAudioSecond

record model_compute =
  mc_class :: string
  mc_compute_ms_per_cu :: u64
  mc_cu :: cu_kind
  mc_benchmarked :: bool

record pricing_table =
  pt_reference_class :: string
  pt_gpu_class_cost :: "(string, u64) btree_map"
  pt_margin_bps :: u32
  pt_models :: "(string, model_compute) btree_map"

definition MS_PER_HOUR :: u128 where
  "MS_PER_HOUR = 3600000"

definition BPS :: u128 where
  "BPS = 10000"

definition posted_price_micro_usdc :: "pricing_table \<Rightarrow> string \<Rightarrow> u64 option" where
  "posted_price_micro_usdc self model_key =
     Option.bind (bt_get (pt_models self) model_key) (\<lambda>m.
     Option.bind (bt_get (pt_gpu_class_cost self) (mc_class m)) (\<lambda>cost.
     let num = (ucast cost :: u128) * ucast (mc_compute_ms_per_cu m) * ucast (pt_margin_bps self);
         den = MS_PER_HOUR * BPS in
     Some (ucast ((num + den div 2) div den))))"

definition posted_price_usdc :: "pricing_table \<Rightarrow> string \<Rightarrow> f64 option" where
  "posted_price_usdc self model_key =
     map_option (\<lambda>m. fdiv (f_of_u64 m) (f_lit 1000000)) (posted_price_micro_usdc self model_key)"

definition devnet_model :: "string \<Rightarrow> u64 \<Rightarrow> cu_kind \<Rightarrow> model_compute" where
  "devnet_model class' ms cu =
     \<lparr>mc_class = class', mc_compute_ms_per_cu = ms, mc_cu = cu, mc_benchmarked = False\<rparr>"

definition devnet_models :: "(string \<times> model_compute) list" where
  "devnet_models =
    [(''wan'', devnet_model ''h100'' 246857 PerRequest),
     (''ltx'', devnet_model ''h100'' 154286 PerRequest),
     (''flux2-klein'', devnet_model ''a100-80g'' 107143 PerRequest),
     (''qwen-image'', devnet_model ''a100-80g'' 85714 PerRequest),
     (''flux-schnell'', devnet_model ''a100-80g'' 75000 PerRequest),
     (''qwen-edit'', devnet_model ''a100-80g'' 64286 PerRequest),
     (''z-image'', devnet_model ''a100-80g'' 25714 PerRequest),
     (''whisper'', devnet_model ''cpu-16c'' 192857 PerRequest),
     (''chatterbox'', devnet_model ''cpu-16c'' 642857 PerRequest),
     (''kokoro'', devnet_model ''cpu-16c'' 96429 PerRequest),
     (''qwen3'', devnet_model ''cpu-16c'' 128571 Per1kTokens),
     (''llama-ep'', devnet_model ''cpu-16c'' 128571 Per1kTokens),
     (''bge-m3'', devnet_model ''cpu-16c'' 25714 PerRequest),
     (''minilm'', devnet_model ''cpu-16c'' 15429 PerRequest),
     (''bge-rerank'', devnet_model ''cpu-16c'' 51429 PerRequest)]"

definition devnet_v1 :: pricing_table where
  "devnet_v1 =
     \<lparr>pt_reference_class = ''rtx-4090'',
      pt_gpu_class_cost = bt_from_list [(''cpu-16c'', 80000), (''rtx-4090'', 350000),
        (''a100-80g'', 1200000), (''h100'', 2500000)],
      pt_margin_bps = 14000,
      pt_models = bt_from_list devnet_models\<rparr>"

section \<open>The price\<close>

text \<open>What the price is meant to be: cost per hour, times the time, times the margin.\<close>

definition exact_num :: "u64 \<Rightarrow> u64 \<Rightarrow> u32 \<Rightarrow> nat" where
  "exact_num cost ms margin = unat cost * unat ms * unat margin"

lemma price_formula:
  assumes "exact_num cost ms margin + 18000000000 < 2 ^ 128"
  shows "unat ((((ucast cost :: u128) * ucast ms * ucast margin)
       + MS_PER_HOUR * BPS div 2) div (MS_PER_HOUR * BPS))
     = (exact_num cost ms margin + 18000000000) div 36000000000"
proof -
  have d: "MS_PER_HOUR * BPS = 36000000000" "MS_PER_HOUR * BPS div 2 = 18000000000"
    by (simp_all add: MS_PER_HOUR_def BPS_def)
  have u: "unat (ucast cost :: u128) = unat cost" "unat (ucast ms :: u128) = unat ms"
    "unat (ucast margin :: u128) = unat margin" by (simp_all add: unat_ucast_up)
  have 1: "unat cost * unat ms < 2 ^ 128"
  proof -
    have "unat cost * unat ms < 2 ^ 64 * 2 ^ 64"
      using unsigned_less [of cost, where ?'a = nat] unsigned_less [of ms, where ?'a = nat]
      by (intro mult_strict_mono') auto
    then show ?thesis by simp
  qed
  have a: "unat ((ucast cost :: u128) * ucast ms) = unat cost * unat ms"
    using 1 by (simp add: unat_mult_exact u)
  have b: "unat ((ucast cost :: u128) * ucast ms * ucast margin) = exact_num cost ms margin"
    using assms a by (simp add: unat_mult_exact u exact_num_def)
  have c: "unat ((ucast cost :: u128) * ucast ms * ucast margin + 18000000000)
      = exact_num cost ms margin + 18000000000"
    using assms b by (simp add: unat_plus_exact)
  show ?thesis unfolding d unat_div using c by simp
qed

text \<open>
  The posted price is the cost-plus price, rounded to the nearest micro-USDC. As long as the
  price fits in 64 bits, twice the price differs from twice the exact
  quotient by at most one; an unlisted model, or one whose class has no cost, has no price.
\<close>
theorem posted_price_nearest:
  assumes m: "bt_get (pt_models t) key = Some m" and c: "bt_get (pt_gpu_class_cost t) (mc_class m) = Some cost"
    and fit: "exact_num cost (mc_compute_ms_per_cu m) (pt_margin_bps t) + 18000000000 < 36000000000 * 2 ^ 64"
  shows "\<exists>p. posted_price_micro_usdc t key = Some p \<and>
     2 * exact_num cost (mc_compute_ms_per_cu m) (pt_margin_bps t) \<le> (2 * unat p + 1) * 36000000000 \<and>
     2 * unat p * 36000000000 \<le> 2 * exact_num cost (mc_compute_ms_per_cu m) (pt_margin_bps t) + 36000000000"
proof -
  let ?n = "exact_num cost (mc_compute_ms_per_cu m) (pt_margin_bps t)"
  let ?q = "(?n + 18000000000) div 36000000000"
  let ?w = "(((ucast cost :: u128) * ucast (mc_compute_ms_per_cu m) * ucast (pt_margin_bps t))
       + MS_PER_HOUR * BPS div 2) div (MS_PER_HOUR * BPS)"
  have "?n + 18000000000 < 2 ^ 128" using fit by simp
  then have w: "unat ?w = ?q" by (rule price_formula)
  have "?q < 2 ^ 64" using fit by simp
  then have u: "unat (ucast ?w :: u64) = ?q"
    unfolding unsigned_ucast_eq w by (simp add: take_bit_nat_eq_self_iff)
  have p: "posted_price_micro_usdc t key = Some (ucast ?w)"
    using m c by (simp add: posted_price_micro_usdc_def Let_def)
  have "2 * ?n \<le> (2 * ?q + 1) * 36000000000" "2 * ?q * 36000000000 \<le> 2 * ?n + 36000000000" by simp_all
  with p u show ?thesis by (intro exI [of _ "ucast ?w"]) simp
qed

text \<open>The price shown in USDC, sent back through the conversion of the client, is the posted price.\<close>

lemma shown_price_converts_back:
  assumes "posted_price_micro_usdc t key = Some p" and "unat p \<le> 10 ^ 15"
  shows "map_option micro (posted_price_usdc t key) = Some p"
  using assms price_survives [of p] by (simp add: posted_price_usdc_def)

definition demo_table :: pricing_table where
  "demo_table = \<lparr>pt_reference_class = ''ref'', pt_gpu_class_cost = [(''ref'', 1200000)], pt_margin_bps = 14000,
     pt_models = [(''chat'', \<lparr>mc_class = ''ref'', mc_compute_ms_per_cu = 900, mc_cu = Per1kTokens,
       mc_benchmarked = True\<rparr>)]\<rparr>"

lemma posted_price_nearest_witness:
  "\<exists>p. posted_price_micro_usdc demo_table ''chat'' = Some p \<and> 419 < unat p \<and> unat p < 421"
proof -
  let ?m = "\<lparr>mc_class = ''ref'', mc_compute_ms_per_cu = 900, mc_cu = Per1kTokens, mc_benchmarked = True\<rparr>"
  have "\<exists>p. posted_price_micro_usdc demo_table ''chat'' = Some p \<and>
     2 * exact_num 1200000 (mc_compute_ms_per_cu ?m) (pt_margin_bps demo_table) \<le> (2 * unat p + 1) * 36000000000 \<and>
     2 * unat p * 36000000000 \<le> 2 * exact_num 1200000 (mc_compute_ms_per_cu ?m) (pt_margin_bps demo_table) + 36000000000"
    by (rule posted_price_nearest) (simp_all add: demo_table_def exact_num_def)
  then show ?thesis by (auto simp: demo_table_def exact_num_def)
qed

text \<open>The catalog published before prices were computed.\<close>

definition published_catalog :: "(string \<times> u64) list" where
  "published_catalog = [(''wan'', 240000), (''ltx'', 150000), (''flux2-klein'', 50000), (''qwen-image'', 40000),
     (''flux-schnell'', 35000), (''qwen-edit'', 30000), (''z-image'', 12000), (''whisper'', 6000),
     (''chatterbox'', 20000), (''kokoro'', 3000), (''qwen3'', 4000), (''llama-ep'', 4000),
     (''bge-m3'', 800), (''minilm'', 480), (''bge-rerank'', 1600)]"

lemma devnet_get: "bt_get (pt_models devnet_v1) = map_of devnet_models"
    "bt_get (pt_gpu_class_cost devnet_v1) = map_of [(''cpu-16c'', 80000), (''rtx-4090'', 350000),
        (''a100-80g'', 1200000), (''h100'', 2500000)]"
proof -
  have d: "distinct (map fst devnet_models)" by (simp add: devnet_models_def)
  show "bt_get (pt_models devnet_v1) = map_of devnet_models"
    using bt_from_list_get(2) [OF d] by (simp add: devnet_v1_def fun_eq_iff)
  show "bt_get (pt_gpu_class_cost devnet_v1) = map_of [(''cpu-16c'', 80000), (''rtx-4090'', 350000),
        (''a100-80g'', 1200000), (''h100'', 2500000)]"
    by (rule ext) (simp add: devnet_v1_def bt_from_list_get(2))
qed

lemma devnet_margin: "pt_margin_bps devnet_v1 = 14000"
  by (simp add: devnet_v1_def)

lemma devnet_price:
  assumes "map_of devnet_models key = Some (devnet_model c ms cu)"
    and "map_of [(''cpu-16c'', 80000), (''rtx-4090'', 350000), (''a100-80g'', 1200000), (''h100'', 2500000)] c
      = Some cost"
  shows "posted_price_micro_usdc devnet_v1 key =
    Some (ucast (((ucast (cost :: u64) :: u128) * ucast ms * 14000 + 18000000000) div 36000000000))"
  using assms
  using devnet_margin
  by (auto simp: posted_price_micro_usdc_def devnet_get devnet_model_def MS_PER_HOUR_def BPS_def Let_def
      split: if_splits)

text \<open>
  The devnet table reproduces the published catalog: every model of the catalog has exactly
  its published price, and no other model has a price; and the table says of each model that it is
  not benchmarked yet.
\<close>
theorem devnet_matches_catalog:
  "posted_price_micro_usdc devnet_v1 key = map_of published_catalog key \<and>
   list_all (\<lambda>(_, m). \<not> mc_benchmarked m) devnet_models"
proof
  show "list_all (\<lambda>(_, m). \<not> mc_benchmarked m) devnet_models"
    by (simp add: devnet_models_def devnet_model_def)
  have keys: "map fst devnet_models = map fst published_catalog"
    by (simp add: devnet_models_def published_catalog_def)
  show "posted_price_micro_usdc devnet_v1 key = map_of published_catalog key"
  proof (cases "key \<in> set (map fst published_catalog)")
    case False
    then have "map_of published_catalog key = None" "map_of devnet_models key = None"
      using keys by (metis map_of_eq_None_iff set_map)+
    then show ?thesis by (simp add: posted_price_micro_usdc_def devnet_get)
  next
    case True
    then show ?thesis
      by (auto simp: published_catalog_def devnet_models_def devnet_price)
  qed
qed

end
