(* ===== verification/Signatures.thy ===== *)
theory Signatures
  imports Scheduler
begin

text \<open>
  The signed messages of \<open>crates/common/src/sig.rs\<close> (job results, announcements, reputation) and of
  \<open>run_auth_message\<close> in \<open>crates/cloudiy/src/payments.rs\<close>. Hashing, hex decoding, key parsing,
  signature verification and JSON are dependencies: fields of the parameter \<open>crypto\<close>.
\<close>

section \<open>The dependencies\<close>

record ('key, 'sig) crypto =
  cr_sha256 :: "bytes \<Rightarrow> bytes"
  cr_parse_key :: "string \<Rightarrow> 'key option"
  cr_key_of_bytes :: "bytes \<Rightarrow> 'key option"
  cr_hex_decode :: "string \<Rightarrow> bytes option"
  cr_sig_of_bytes :: "bytes \<Rightarrow> 'sig option"
  cr_verify :: "'key \<Rightarrow> bytes \<Rightarrow> 'sig \<Rightarrow> bool"
  cr_announcement_of_json :: "string \<Rightarrow> string + provider_announcement"
  cr_scores_of_json :: "string \<Rightarrow> string + (string \<times> f64) list"

section \<open>Results\<close>

definition RESULT_SIG_DOMAIN :: bytes where
  "RESULT_SIG_DOMAIN = as_bytes ''cloudiy/result/v2''"

definition signing_payload :: "('k, 's) crypto \<Rightarrow> string \<Rightarrow> bytes \<Rightarrow> bytes \<Rightarrow> bytes" where
  "signing_payload cr job_id input output =
     RESULT_SIG_DOMAIN @ [0] @ as_bytes job_id @ [0] @ cr_sha256 cr input @ [0] @ cr_sha256 cr output"

definition verify_result ::
  "('k, 's) crypto \<Rightarrow> 'k \<Rightarrow> string \<Rightarrow> bytes \<Rightarrow> bytes \<Rightarrow> string \<Rightarrow> bool" where
  "verify_result cr signer job_id input output signature_hex =
     (case cr_hex_decode cr signature_hex of
        None \<Rightarrow> False
      | Some bs \<Rightarrow>
         (case cr_sig_of_bytes cr bs of
            None \<Rightarrow> False
          | Some sig \<Rightarrow> cr_verify cr signer (signing_payload cr job_id input output) sig))"

section \<open>Announcements and reputation\<close>

definition ANNOUNCE_DOMAIN :: bytes where
  "ANNOUNCE_DOMAIN = as_bytes ''cloudiy/announce/v1''"

definition ANNOUNCE_TTL_SECS :: i64 where
  "ANNOUNCE_TTL_SECS = 180"

definition ANNOUNCE_MAX_SKEW_SECS :: i64 where
  "ANNOUNCE_MAX_SKEW_SECS = 30"

definition REPUTATION_DOMAIN :: bytes where
  "REPUTATION_DOMAIN = as_bytes ''cloudiy/reputation/v1''"

definition REPUTATION_TTL_SECS :: i64 where
  "REPUTATION_TTL_SECS = 600"

record signed_payload =
  sp_payload :: string
  sp_issued_at :: i64
  sp_signed_by :: string
  sp_signature :: string

definition announce_signing_payload :: "i64 \<Rightarrow> string \<Rightarrow> bytes" where
  "announce_signing_payload issued_at payload =
     ANNOUNCE_DOMAIN @ [0] @ to_be_bytes issued_at @ [0] @ as_bytes payload"

definition reputation_signing_payload :: "i64 \<Rightarrow> string \<Rightarrow> bytes" where
  "reputation_signing_payload issued_at payload =
     REPUTATION_DOMAIN @ [0] @ to_be_bytes issued_at @ [0] @ as_bytes payload"

text \<open>The part the two verifications share: signer, signature, check.\<close>

definition check_signature ::
  "('k, 's) crypto \<Rightarrow> string \<Rightarrow> string \<Rightarrow> bytes \<Rightarrow> string \<Rightarrow> string + unit" where
  "check_signature cr signed_by signature msg failure =
     rbind (ok_or (cr_parse_key cr signed_by) ''invalid signer id'') (\<lambda>signer.
     rbind (ok_or (cr_hex_decode cr signature) ''invalid signature hex'') (\<lambda>sig_bytes.
     rbind (ok_or (cr_sig_of_bytes cr sig_bytes) ''invalid signature length'') (\<lambda>sig.
     require (cr_verify cr signer msg sig) failure)))"

definition verify_announcement ::
  "('k, 's) crypto \<Rightarrow> signed_payload \<Rightarrow> i64 \<Rightarrow> string + provider_announcement" where
  "verify_announcement cr sa now =
     rbind (require (\<not> sint ANNOUNCE_TTL_SECS < sint (s_saturating_sub now (sp_issued_at sa)))
              ''announcement expired'') (\<lambda>_.
     rbind (require (\<not> sint ANNOUNCE_MAX_SKEW_SECS < sint (s_saturating_sub (sp_issued_at sa) now))
              ''announcement from the future (clock skew?)'') (\<lambda>_.
     rbind (check_signature cr (sp_signed_by sa) (sp_signature sa)
              (announce_signing_payload (sp_issued_at sa) (sp_payload sa))
              ''signature verification failed'') (\<lambda>_.
     rbind (case cr_announcement_of_json cr (sp_payload sa) of
              Inl e \<Rightarrow> Inl (''invalid payload: '' @ e) | Inr a \<Rightarrow> Inr a) (\<lambda>announcement.
     rbind (require (pa_identity announcement = sp_signed_by sa)
              ''announced identity does not match signer'') (\<lambda>_.
     Inr announcement)))))"

definition verify_reputation ::
  "('k, 's) crypto \<Rightarrow> signed_payload \<Rightarrow> string \<Rightarrow> i64 \<Rightarrow> string + (string \<times> f64) list" where
  "verify_reputation cr sr expected_signer now =
     rbind (require (\<not> sint REPUTATION_TTL_SECS < sint (s_saturating_sub now (sp_issued_at sr)))
              ''reputation expired'') (\<lambda>_.
     rbind (require (\<not> sint ANNOUNCE_MAX_SKEW_SECS < sint (s_saturating_sub (sp_issued_at sr) now))
              ''reputation from the future (clock skew?)'') (\<lambda>_.
     rbind (require (sp_signed_by sr = expected_signer)
              ''reputation signed by a different directory than dialed'') (\<lambda>_.
     rbind (check_signature cr (sp_signed_by sr) (sp_signature sr)
              (reputation_signing_payload (sp_issued_at sr) (sp_payload sr))
              ''reputation signature verification failed'') (\<lambda>_.
     (case cr_scores_of_json cr (sp_payload sr) of
        Inl e \<Rightarrow> Inl (''invalid payload: '' @ e) | Inr s \<Rightarrow> Inr s)))))"

section \<open>Run authorizations\<close>

definition run_auth_message :: "('k, 's) crypto \<Rightarrow> bytes \<Rightarrow> bytes \<Rightarrow> i64 \<Rightarrow> bytes" where
  "run_auth_message cr job_id_bytes input expiry_unix =
     as_bytes ''cloudiy/escrow-run/v3'' @ [0] @ job_id_bytes @ [0] @ cr_sha256 cr input @ [0] @
     to_be_bytes expiry_unix"

section \<open>What a message determines\<close>

text \<open>Documented behaviour of SHA-256: a digest has 32 bytes.\<close>

definition sha_laws :: "('k, 's) crypto \<Rightarrow> bool" where
  "sha_laws cr \<longleftrightarrow> (\<forall>x. length (cr_sha256 cr x) = 32)"

lemma sha_length: "sha_laws cr \<Longrightarrow> length (cr_sha256 cr x) = 32"
  by (simp add: sha_laws_def)

lemma length_be_i64 [simp]: "length (to_be_bytes (t :: i64)) = 8"
  by simp

lemma be_i64_inject [simp]: "to_be_bytes (s :: i64) = to_be_bytes t \<longleftrightarrow> s = t"
  using to_be_bytes_inj [of s t] by auto

lemma signing_payload_inject:
  assumes "sha_laws cr"
  shows "signing_payload cr i x y = signing_payload cr i' x' y' \<longleftrightarrow> i = i' \<and>
     cr_sha256 cr x = cr_sha256 cr x' \<and> cr_sha256 cr y = cr_sha256 cr y'"
proof
  assume a: "signing_payload cr i x y = signing_payload cr i' x' y'"
  let ?s = "cr_sha256 cr"
  from a have "as_bytes i @ [0] @ ?s x @ [0] @ ?s y = as_bytes i' @ [0] @ ?s x' @ [0] @ ?s y'"
    by (simp add: signing_payload_def)
  moreover have "length ([0 :: u8] @ ?s x @ [0] @ ?s y) = length ([0 :: u8] @ ?s x' @ [0] @ ?s y')"
    using sha_length [OF assms] by simp
  ultimately have "as_bytes i = as_bytes i'" "?s x @ [0] @ ?s y = ?s x' @ [0] @ ?s y'"
    by (simp_all add: append_eq_append_conv)
  moreover from this(2) have "?s x = ?s x'" "?s y = ?s y'"
    using sha_length [OF assms] by (simp_all add: append_eq_append_conv)
  ultimately show "i = i' \<and> ?s x = ?s x' \<and> ?s y = ?s y'" by simp
qed (simp add: signing_payload_def)

lemma announce_payload_inject:
  "announce_signing_payload t p = announce_signing_payload t' p' \<longleftrightarrow> t = t' \<and> p = p'"
  by (auto simp: announce_signing_payload_def append_eq_append_conv)

lemma reputation_payload_inject:
  "reputation_signing_payload t p = reputation_signing_payload t' p' \<longleftrightarrow> t = t' \<and> p = p'"
  by (auto simp: reputation_signing_payload_def append_eq_append_conv)

lemma run_auth_inject:
  assumes "sha_laws cr" "length j = 16" "length j' = 16"
  shows "run_auth_message cr j x t = run_auth_message cr j' x' t' \<longleftrightarrow>
     j = j' \<and> cr_sha256 cr x = cr_sha256 cr x' \<and> t = t'"
  using assms sha_length [OF assms(1)]
  by (auto simp: run_auth_message_def append_eq_append_conv)

text \<open>The four kinds of message differ in their first bytes.\<close>

lemma domain_heads:
  "take 9 (signing_payload cr i x y) = as_bytes ''cloudiy/r''"
  "take 11 (signing_payload cr i x y) = as_bytes ''cloudiy/res''"
  "take 9 (announce_signing_payload t p) = as_bytes ''cloudiy/a''"
  "take 11 (reputation_signing_payload t p) = as_bytes ''cloudiy/rep''"
  "take 9 (reputation_signing_payload t p) = as_bytes ''cloudiy/r''"
  "take 9 (run_auth_message cr j x t) = as_bytes ''cloudiy/e''"
  by (simp_all add: signing_payload_def RESULT_SIG_DOMAIN_def announce_signing_payload_def
      ANNOUNCE_DOMAIN_def reputation_signing_payload_def REPUTATION_DOMAIN_def run_auth_message_def
      as_bytes_def)

text \<open>
  C14. No signature serves twice. The messages a node or a consumer signs for results,
  announcements, reputation and run authorizations are pairwise different, and each determines
  everything it binds: a result its job and the digests of its input and output, an announcement its time
  and contents, a run authorization its job, the digest of its input, and its expiry.
\<close>
theorem messages_unambiguous:
  assumes "sha_laws cr"
  shows "signing_payload cr i x y \<noteq> announce_signing_payload t p \<and>
     signing_payload cr i x y \<noteq> reputation_signing_payload t p \<and>
     signing_payload cr i x y \<noteq> run_auth_message cr j z t \<and>
     announce_signing_payload t p \<noteq> reputation_signing_payload t' p' \<and>
     announce_signing_payload t p \<noteq> run_auth_message cr j z t' \<and>
     reputation_signing_payload t p \<noteq> run_auth_message cr j z t' \<and>
     (signing_payload cr i x y = signing_payload cr i' x' y' \<longleftrightarrow>
        i = i' \<and> cr_sha256 cr x = cr_sha256 cr x' \<and> cr_sha256 cr y = cr_sha256 cr y') \<and>
     (announce_signing_payload t p = announce_signing_payload t' p' \<longleftrightarrow> t = t' \<and> p = p') \<and>
     (reputation_signing_payload t p = reputation_signing_payload t' p' \<longleftrightarrow> t = t' \<and> p = p') \<and>
     (length j = 16 \<and> length j' = 16 \<longrightarrow>
       (run_auth_message cr j z t = run_auth_message cr j' z' t' \<longleftrightarrow>
          j = j' \<and> cr_sha256 cr z = cr_sha256 cr z' \<and> t = t'))"
proof -
  have h: "as_bytes ''cloudiy/r'' \<noteq> as_bytes ''cloudiy/a''" "as_bytes ''cloudiy/r'' \<noteq> as_bytes ''cloudiy/e''"
    "as_bytes ''cloudiy/a'' \<noteq> as_bytes ''cloudiy/e''" "as_bytes ''cloudiy/res'' \<noteq> as_bytes ''cloudiy/rep''"
    by simp_all
  have "signing_payload cr i x y \<noteq> announce_signing_payload t p"
    "signing_payload cr i x y \<noteq> reputation_signing_payload t p"
    "signing_payload cr i x y \<noteq> run_auth_message cr j z t"
    "announce_signing_payload t p \<noteq> reputation_signing_payload t' p'"
    "announce_signing_payload t p \<noteq> run_auth_message cr j z t'"
    "reputation_signing_payload t p \<noteq> run_auth_message cr j z t'"
    using h domain_heads by metis+
  then show ?thesis
    using signing_payload_inject [OF assms] announce_payload_inject reputation_payload_inject
      run_auth_inject [OF assms] by simp
qed

section \<open>Freshness\<close>

lemma saturating_within:
  assumes "0 \<le> m" "m < 2 ^ 62"
  shows "\<not> m < sint (s_saturating_sub (a :: i64) b) \<longleftrightarrow> sint a - sint b \<le> m"
  using assms by (auto simp: sint_saturating_sub s_clamp_def s_min_def s_max_def)

lemma secs_sint [simp]: "sint ANNOUNCE_TTL_SECS = 180" "sint ANNOUNCE_MAX_SKEW_SECS = 30"
  "sint REPUTATION_TTL_SECS = 600"
  by (simp_all add: ANNOUNCE_TTL_SECS_def ANNOUNCE_MAX_SKEW_SECS_def REPUTATION_TTL_SECS_def)

definition signed_by :: "('k, 's) crypto \<Rightarrow> string \<Rightarrow> bytes \<Rightarrow> string \<Rightarrow> bool" where
  "signed_by cr signer msg signature \<longleftrightarrow>
     (\<exists>k bs sig. cr_parse_key cr signer = Some k \<and> cr_hex_decode cr signature = Some bs \<and>
        cr_sig_of_bytes cr bs = Some sig \<and> cr_verify cr k msg sig)"

lemma check_signature_Inr: "check_signature cr s g msg e = Inr u \<longleftrightarrow> signed_by cr s msg g"
  by (auto simp: check_signature_def signed_by_def result_iff)

text \<open>
  An announcement is accepted exactly when it is fresh (issued at most 180 seconds ago and at
  most 30 seconds ahead, for every pair of 64-bit times, without overflow), its payload parses, the
  identity announced is the signer's, and that signer's key verifies the time and the payload. So no
  node can announce for another, and a relay cannot alter what it relays.
\<close>
theorem announcement_accepted_iff:
  "verify_announcement cr sa now = Inr a \<longleftrightarrow>
     sint now - sint (sp_issued_at sa) \<le> 180 \<and> sint (sp_issued_at sa) - sint now \<le> 30 \<and>
     signed_by cr (pa_identity a) (announce_signing_payload (sp_issued_at sa) (sp_payload sa))
       (sp_signature sa) \<and>
     cr_announcement_of_json cr (sp_payload sa) = Inr a \<and> pa_identity a = sp_signed_by sa"
  by (auto simp: verify_announcement_def result_iff check_signature_Inr saturating_within
      split: sum.splits)

text \<open>
  Reputation scores are accepted exactly when they are fresh, signed by the directory that was
  dialled, and verify under its key.
\<close>
theorem reputation_accepted_iff:
  "verify_reputation cr sr dialled now = Inr scores \<longleftrightarrow>
     sint now - sint (sp_issued_at sr) \<le> 600 \<and> sint (sp_issued_at sr) - sint now \<le> 30 \<and>
     sp_signed_by sr = dialled \<and>
     signed_by cr dialled (reputation_signing_payload (sp_issued_at sr) (sp_payload sr))
       (sp_signature sr) \<and>
     cr_scores_of_json cr (sp_payload sr) = Inr scores"
  by (auto simp: verify_reputation_def result_iff check_signature_Inr saturating_within
      split: sum.splits)

text \<open>A toy instance of the dependencies, to run the code on.\<close>

definition toy_crypto :: "(string, bytes) crypto" where
  "toy_crypto = \<lparr>cr_sha256 = (\<lambda>x. take 32 (x @ replicate 32 0)), cr_parse_key = Some,
     cr_key_of_bytes = (\<lambda>b. Some (map (\<lambda>x. char_of (unat x)) b)),
     cr_hex_decode = (\<lambda>s. Some (as_bytes s)), cr_sig_of_bytes = Some,
     cr_verify = (\<lambda>k m s. s = as_bytes k), cr_announcement_of_json = (\<lambda>s. Inr (demo_node s (Fin 0) 1)),
     cr_scores_of_json = (\<lambda>s. Inr [(s, Fin 1)])\<rparr>"

lemma messages_unambiguous_witness:
  "signing_payload toy_crypto ''a'' [1] [2] \<noteq> signing_payload toy_crypto ''a'' [1] [3]"
proof -
  have "sha_laws toy_crypto" by (auto simp: sha_laws_def toy_crypto_def min_def)
  from messages_unambiguous [OF this, of "''a''" "[1]" "[2]" 0 "[]" "[]" "[]" 0 "[]" "''a''" "[1]" "[3]" "[]" "[]"]
  show ?thesis by (simp add: toy_crypto_def)
qed

end
