(* ===== verification/History_Io.thy ===== *)
theory History_Io
  imports Rust_Prelude
begin

text \<open>
  Computations over a history: a program that talks to the outside world is a function from the history of
  what was said so far to a result and the history after it. The outside world is any function of the
  history, so the order of the effects is part of the model. The combinators follow the \<open>?\<close> operator, and
  the lemmas say which effects a computation may have and with which history before each of them.
\<close>

type_synonym ('h, 'e, 'a) hio = "'h \<Rightarrow> ('e + 'a) \<times> 'h"

definition vret :: "'a \<Rightarrow> ('h, 'e, 'a) hio" where
  "vret x h = (Inr x, h)"

definition vlift :: "'e + 'a \<Rightarrow> ('h, 'e, 'a) hio" where
  "vlift r h = (r, h)"

definition vbind :: "('h, 'e, 'a) hio \<Rightarrow> ('a \<Rightarrow> ('h, 'e, 'b) hio) \<Rightarrow> ('h, 'e, 'b) hio" where
  "vbind m f h = (case m h of (Inl e, h') \<Rightarrow> (Inl e, h') | (Inr x, h') \<Rightarrow> f x h')"

text \<open>\<open>m.ok()\<close>: the outcome is dropped.\<close>

definition vtry :: "('h, 'e, 'a) hio \<Rightarrow> ('h, 'f, 'e + 'a) hio" where
  "vtry m h = (case m h of (r, h') \<Rightarrow> (Inr r, h'))"

definition vmap_err :: "('e \<Rightarrow> 'f) \<Rightarrow> ('h, 'e, 'a) hio \<Rightarrow> ('h, 'f, 'a) hio" where
  "vmap_err f m h = (case m h of (Inl e, h') \<Rightarrow> (Inl (f e), h') | (Inr x, h') \<Rightarrow> (Inr x, h'))"

lemma hio_iff [result_iff]:
  "vbind m f h = (Inr y, h2) \<longleftrightarrow> (\<exists>x h1. m h = (Inr x, h1) \<and> f x h1 = (Inr y, h2))"
  "vret x h = (Inr x', h2) \<longleftrightarrow> x' = x \<and> h2 = h"
  "vlift r h = (Inr x', h2) \<longleftrightarrow> r = Inr x' \<and> h2 = h"
  "vtry m h = (Inr r', h2) \<longleftrightarrow> m h = (r', h2)"
  by (auto simp: vbind_def vret_def vlift_def vtry_def split: prod.splits sum.splits)

section \<open>Loops\<close>

primrec vfold :: "('a \<Rightarrow> 's \<Rightarrow> ('h, 'e, 's) hio) \<Rightarrow> 'a list \<Rightarrow> 's \<Rightarrow> ('h, 'e, 's) hio" where
  "vfold f [] s = vret s"
| "vfold f (x # xs) s = vbind (f x s) (vfold f xs)"

text \<open>An invariant along a loop.\<close>

lemma vfold_inv:
  assumes "vfold f xs s h = (Inr s', h')" and "I [] s h"
    and "\<And>pre x post s1 h1 s2 h2. xs = pre @ x # post \<Longrightarrow> I pre s1 h1 \<Longrightarrow> f x s1 h1 = (Inr s2, h2) \<Longrightarrow> I (pre @ [x]) s2 h2"
  shows "I xs s' h'"
proof -
  have "I (pre @ ys) s' h'" if "xs = pre @ ys" "I pre s1 h1" "vfold f ys s1 h1 = (Inr s', h')" for pre ys s1 h1
    using that
  proof (induction ys arbitrary: pre s1 h1)
    case Nil
    then show ?case by (simp add: vret_def)
  next
    case (Cons y ys)
    from Cons.prems(3) obtain s2 h2 where y: "f y s1 h1 = (Inr s2, h2)" "vfold f ys s2 h2 = (Inr s', h')"
      by (auto simp: result_iff)
    have "I (pre @ [y]) s2 h2" using assms(3) Cons.prems(1,2) y(1) by blast
    then show ?case using Cons.IH [of "pre @ [y]" s2 h2] Cons.prems(1) y(2) by simp
  qed
  from this [of "[]" xs s h] assms show ?thesis by simp
qed

section \<open>The effects of a computation\<close>

text \<open>All effects satisfy a predicate.\<close>

definition emits :: "('c \<Rightarrow> bool) \<Rightarrow> ('c list, 'e, 'a) hio \<Rightarrow> bool" where
  "emits P m \<longleftrightarrow> (\<forall>h. \<exists>cs. snd (m h) = h @ cs \<and> (\<forall>c \<in> set cs. P c))"

lemma emits_basic [intro!]:
  "emits P (vret x)" "emits P (vlift r)"
  by (auto simp: emits_def vret_def vlift_def)

lemma emits_try [intro!]: "emits P m \<Longrightarrow> emits P (vtry m)"
  by (auto simp: emits_def vtry_def split: prod.splits) (metis snd_conv)

lemma emits_bind [intro!]:
  assumes "emits P m" and "\<And>x. emits P (f x)"
  shows "emits P (vbind m f)"
  unfolding emits_def
proof
  fix h
  obtain r h1 where m: "m h = (r, h1)" by (cases "m h")
  with assms(1) obtain cs where h1: "h1 = h @ cs" "\<forall>c \<in> set cs. P c" unfolding emits_def by (metis snd_conv)
  show "\<exists>cs. snd (vbind m f h) = h @ cs \<and> (\<forall>c \<in> set cs. P c)"
  proof (cases r)
    case (Inl e)
    then show ?thesis using m h1 by (simp add: vbind_def)
  next
    case (Inr x)
    from assms(2) obtain ds where "snd (f x h1) = h1 @ ds" "\<forall>c \<in> set ds. P c" unfolding emits_def by blast
    then show ?thesis using m h1 Inr by (auto simp: vbind_def)
  qed
qed

lemma emits_if [intro!]: "emits P a \<Longrightarrow> emits P b \<Longrightarrow> emits P (if c then a else b)"
  by simp

lemma emitsD: "emits P m \<Longrightarrow> m h = (r, h') \<Longrightarrow> \<exists>cs. h' = h @ cs \<and> (\<forall>c \<in> set cs. P c)"
  unfolding emits_def by (metis snd_conv)

text \<open>What a computation runs, judged with the history before each command.\<close>

definition runs_at :: "('c list \<Rightarrow> 'c \<Rightarrow> bool) \<Rightarrow> ('c list, 'e, 'a) hio \<Rightarrow> 'c list \<Rightarrow> bool" where
  "runs_at Q m h \<longleftrightarrow> (\<exists>cs. snd (m h) = h @ cs \<and> (\<forall>i < length cs. Q (h @ take i cs) (cs ! i)))"

definition runs :: "('c list \<Rightarrow> 'c \<Rightarrow> bool) \<Rightarrow> ('c list, 'e, 'a) hio \<Rightarrow> bool" where
  "runs Q m \<longleftrightarrow> (\<forall>h. runs_at Q m h)"

lemma runs_at_basic [intro!]:
  "runs_at Q (vret x) h" "runs_at Q (vlift r) h"
  by (auto simp: runs_at_def vret_def vlift_def)

lemma runs_at_bind:
  assumes "runs_at Q m h" and "\<And>x h'. m h = (Inr x, h') \<Longrightarrow> runs_at Q (f x) h'"
  shows "runs_at Q (vbind m f) h"
proof -
  obtain r h1 where m: "m h = (r, h1)" by (cases "m h")
  with assms(1) obtain cs where h1: "h1 = h @ cs" and cs: "\<forall>i < length cs. Q (h @ take i cs) (cs ! i)"
    unfolding runs_at_def by (metis snd_conv)
  show ?thesis
  proof (cases r)
    case (Inl e)
    then show ?thesis using m h1 cs by (auto simp: runs_at_def vbind_def)
  next
    case (Inr x)
    then obtain ds where ds: "snd (f x h1) = h1 @ ds" "\<forall>i < length ds. Q (h1 @ take i ds) (ds ! i)"
      using assms(2) m unfolding runs_at_def by blast
    have "Q (h @ take i (cs @ ds)) ((cs @ ds) ! i)" if "i < length (cs @ ds)" for i
      using that cs ds(2) h1 by (cases "i < length cs") (auto simp: nth_append dest: spec [of _ "i - length cs"])
    then show ?thesis using m h1 ds(1) Inr by (auto simp: runs_at_def vbind_def)
  qed
qed

lemma runs_basic [intro!]: "runs Q (vret x)" "runs Q (vlift r)"
  by (auto simp: runs_def)

lemma runs_bind [intro!]: "runs Q m \<Longrightarrow> (\<And>x. runs Q (f x)) \<Longrightarrow> runs Q (vbind m f)"
  by (auto simp: runs_def intro: runs_at_bind)

lemma runs_try [intro!]: "runs Q m \<Longrightarrow> runs Q (vtry m)"
  unfolding runs_def runs_at_def vtry_def by (metis (mono_tags, lifting) case_prod_beta snd_conv)

lemma runs_map_err [intro!]: "runs Q m \<Longrightarrow> runs Q (vmap_err f m)"
  unfolding runs_def runs_at_def vmap_err_def
  by (auto split: prod.splits sum.splits) (metis snd_conv)+

lemma runs_if [intro!]: "runs Q a \<Longrightarrow> runs Q b \<Longrightarrow> runs Q (if c then a else b)"
  by simp

lemma runs_option: "runs Q a \<Longrightarrow> (\<And>x. runs Q (f x)) \<Longrightarrow> runs Q (case m of None \<Rightarrow> a | Some x \<Rightarrow> f x)"
  by (cases m) auto

lemma runs_prod: "(\<And>a b. runs Q (f a b)) \<Longrightarrow> runs Q (case p of (a, b) \<Rightarrow> f a b)"
  by (cases p) auto

end
