(* ===== verification/Vm.thy ===== *)
theory Vm
  imports Rust_Text Scheduler History_Io
begin

text \<open>
  The VM manager of a node, \<open>crates/cloudiy/src/vm.rs\<close>: one container for each owner, its lease, its
  volume and its ports, driven through the Docker command line. Docker is a dependency: every command
  and its outcome is observed in a history, and Docker is any function from the history so far and the
  arguments to an answer. Environment variables, SHA-256, HKDF, the clock and the RFC 3339 and
  floating point printers are parameters.
\<close>

section \<open>Commands\<close>

record cli_output =
  co_success :: bool
  co_stdout :: string
  co_stderr :: string

type_synonym command = "string list"
type_synonym docker = "command list \<Rightarrow> command \<Rightarrow> cli_output option"
type_synonym datetime = int

record vm_env =
  ve_docker :: docker
  ve_var :: "string \<Rightarrow> string option"
  ve_sha256 :: "bytes \<Rightarrow> bytes"
  ve_hkdf :: "bytes \<Rightarrow> bytes \<Rightarrow> bytes \<Rightarrow> bytes"
  ve_rfc3339 :: "datetime \<Rightarrow> string"
  ve_parse_rfc3339 :: "string \<Rightarrow> datetime option"
  ve_show_f64 :: "f64 \<Rightarrow> string"

datatype vm_error =
    ImageEmpty | ImageTooLong | ImageDash | ImageChars
  | ArgDash string
  | NetEmpty | NetTooLong | NetDash | NetChars
  | UntrustedPosture | CliFailed
  | VolumeCreateFailed string | PullFailed string | StartFailed string
  | SyncFailed string | SnapshotFailed string | NoKeySig | BadKeySig | NoVm

text \<open>A date is a number of nanoseconds since the epoch. A fallible computation that issues commands.\<close>

type_synonym ('e, 'a) cio = "(command list, 'e, 'a) hio"
type_synonym 'a vio = "(vm_error, 'a) cio"

definition cli :: "vm_env \<Rightarrow> command \<Rightarrow> cli_output vio" where
  "cli env args h = (ok_or (ve_docker env h args) CliFailed, h @ [args])"

definition cli_ok :: "vm_env \<Rightarrow> command \<Rightarrow> (string \<Rightarrow> vm_error) \<Rightarrow> cli_output vio" where
  "cli_ok env args failed =
     vbind (cli env args) (\<lambda>out. vbind (vlift (require (co_success out) (failed (co_stderr out)))) (\<lambda>_. vret out))"

section \<open>Validation\<close>

definition DEFAULT_IMAGE :: string where
  "DEFAULT_IMAGE = ''debian:12-slim''"

definition MAX_PORTS :: nat where
  "MAX_PORTS = 16"

definition ascii_alphanumeric :: "char \<Rightarrow> bool" where
  "ascii_alphanumeric c \<longleftrightarrow> (let v = of_char c :: nat in
     48 \<le> v \<and> v \<le> 57 \<or> 65 \<le> v \<and> v \<le> 90 \<or> 97 \<le> v \<and> v \<le> 122)"

definition image_char :: "char \<Rightarrow> bool" where
  "image_char c \<longleftrightarrow> ascii_alphanumeric c \<or> c \<in> set ''_./:@-''"

definition validate_image :: "string \<Rightarrow> vm_error + unit" where
  "validate_image img =
     rbind (require (img \<noteq> []) ImageEmpty) (\<lambda>_.
     rbind (require (length img \<le> 256) ImageTooLong) (\<lambda>_.
     rbind (require (\<not> starts_with img ''-'') ImageDash) (\<lambda>_.
     require (list_all image_char img) ImageChars)))"

fun validate_command :: "string list \<Rightarrow> vm_error + unit" where
  "validate_command [] = Inr ()"
| "validate_command (arg # args) =
     rbind (require (\<not> starts_with arg ''-'') (ArgDash arg)) (\<lambda>_. validate_command args)"

definition network_char :: "char \<Rightarrow> bool" where
  "network_char c \<longleftrightarrow> ascii_alphanumeric c \<or> c \<in> set ''_.-''"

definition validate_network :: "string \<Rightarrow> vm_error + unit" where
  "validate_network name =
     rbind (require (name \<noteq> []) NetEmpty) (\<lambda>_.
     rbind (require (length name \<le> 128) NetTooLong) (\<lambda>_.
     rbind (require (\<not> starts_with name ''-'') NetDash) (\<lambda>_.
     require (list_all network_char name) NetChars)))"

section \<open>Names and settings\<close>

definition name_tag :: "vm_env \<Rightarrow> string \<Rightarrow> string" where
  "name_tag env owner = hex_encode (take 16 (ve_sha256 env (as_bytes owner)))"

definition container_name :: "vm_env \<Rightarrow> string \<Rightarrow> string" where
  "container_name env owner = ''cloudiy-vm-'' @ name_tag env owner"

definition volume_name :: "vm_env \<Rightarrow> string \<Rightarrow> string" where
  "volume_name env owner = ''cloudiy-vol-'' @ name_tag env owner"

definition non_blank :: "string option \<Rightarrow> string option" where
  "non_blank v = (case v of None \<Rightarrow> None | Some s \<Rightarrow> if s = [] then None else Some s)"

definition volume_remote :: "vm_env \<Rightarrow> string option" where
  "volume_remote env = non_blank (ve_var env ''CLOUDIY_VOLUME_REMOTE'')"

datatype volume_mode = Rclone | Snapshot

definition volume_mode_of :: "vm_env \<Rightarrow> volume_mode" where
  "volume_mode_of env =
     (if ve_var env ''CLOUDIY_VOLUME_MODE'' = Some ''snapshot'' then Snapshot else Rclone)"

definition tenant_network :: "vm_env \<Rightarrow> string option" where
  "tenant_network env = non_blank (ve_var env ''CLOUDIY_TENANT_NETWORK'')"

definition untrusted_tenants :: "vm_env \<Rightarrow> bool" where
  "untrusted_tenants env \<longleftrightarrow>
     ve_var env ''CLOUDIY_UNTRUSTED_TENANTS'' \<in> {Some ''1'', Some ''true'', Some ''yes''}"

definition tenant_isolation_ok :: "bool \<Rightarrow> string option \<Rightarrow> string option \<Rightarrow> bool" where
  "tenant_isolation_ok untrusted runtime network \<longleftrightarrow> \<not> untrusted \<or> runtime \<noteq> None \<or> network \<noteq> None"

definition trim_slashes :: "string \<Rightarrow> string" where
  "trim_slashes s = rev (dropWhile (\<lambda>c. c = CHR ''/'') (rev s))"

definition restic_repo :: "string \<Rightarrow> string \<Rightarrow> string" where
  "restic_repo remote owner = ''rclone:'' @ trim_slashes remote @ ''/'' @ owner"

definition VOLUME_KEY_DOMAIN :: bytes where
  "VOLUME_KEY_DOMAIN = as_bytes ''cloudiy/volume-key/v1''"

definition volume_key_from_signature :: "vm_env \<Rightarrow> bytes \<Rightarrow> bytes \<Rightarrow> bytes" where
  "volume_key_from_signature env signature owner_id = ve_hkdf env VOLUME_KEY_DOMAIN signature owner_id"

definition restic_password :: "bytes \<Rightarrow> string" where
  "restic_password key = hex_encode key"

fun hex_pairs :: "string \<Rightarrow> bytes option" where
  "hex_pairs (a # b # rest) =
     (case parse_radix 16 256 [a, b] of None \<Rightarrow> None
      | Some v \<Rightarrow> map_option (\<lambda>bs. of_nat v # bs) (hex_pairs rest))"
| "hex_pairs _ = Some []"

definition hex_decode_64 :: "string \<Rightarrow> bytes option" where
  "hex_decode_64 s = (if length s = 128 then hex_pairs s else None)"

definition snapshot_password :: "vm_env \<Rightarrow> string \<Rightarrow> vm_error + string" where
  "snapshot_password env owner =
     rbind (ok_or (ve_var env ''CLOUDIY_VOLUME_KEY_SIG'') NoKeySig) (\<lambda>sig_hex.
     rbind (ok_or (hex_decode_64 (trim sig_hex)) BadKeySig) (\<lambda>raw.
     Inr (restic_password (volume_key_from_signature env raw (as_bytes owner)))))"

definition restic_container_args ::
  "vm_env \<Rightarrow> string \<Rightarrow> string \<Rightarrow> string \<Rightarrow> string list \<Rightarrow> command" where
  "restic_container_args env volume repo password restic_cmd =
     (let img = (case ve_var env ''CLOUDIY_RESTIC_IMAGE'' of Some i \<Rightarrow> i | None \<Rightarrow> ''cloudiy/restic-rclone'') in
      [''run'', ''--rm'', ''-v'', volume @ '':/data'', ''-e'', ''RESTIC_PASSWORD='' @ password,
       ''-e'', ''RESTIC_REPOSITORY='' @ repo] @
      (case ve_var env ''CLOUDIY_RCLONE_CONFIG'' of None \<Rightarrow> []
       | Some cfg \<Rightarrow> [''-v'', cfg @ '':/root/.config/rclone/rclone.conf:ro'']) @
      [img] @ restic_cmd)"

definition redact_arg :: "string \<Rightarrow> string" where
  "redact_arg a =
     (if starts_with a ''RESTIC_PASSWORD='' then ''RESTIC_PASSWORD=<redacted>''
      else if starts_with a ''RESTIC_PASSWORD_FILE='' then ''RESTIC_PASSWORD_FILE=<redacted>'' else a)"

definition redact_args :: "command \<Rightarrow> string" where
  "redact_args args = join_with '' '' (map redact_arg args)"

section \<open>The record of a VM and its lease\<close>

record vm_record =
  vr_vm_id :: string
  vr_image :: string
  vr_volume :: string
  vr_ports :: "u16 list"
  vr_host_ports :: "u16 \<Rightarrow> u16 option"
  vr_allocated :: resource_vector
  vr_created_at :: datetime
  vr_rate :: u64
  vr_budget :: u64

text \<open>\<open>TimeDelta::num_seconds\<close> rounds towards zero.\<close>

definition num_seconds :: "int \<Rightarrow> int" where
  "num_seconds d = (if 0 \<le> d then d div 1000000000 else - ((- d) div 1000000000))"

definition accrued :: "vm_record \<Rightarrow> datetime \<Rightarrow> u64" where
  "accrued self now =
     (let secs = (word_of_int (max (num_seconds (now - vr_created_at self)) 0) :: u128) in
      ucast (secs * ucast (vr_rate self) div 3600))"

text \<open>The quotient is in i128 and of non-negative numbers.\<close>

definition remaining_secs :: "vm_record \<Rightarrow> datetime \<Rightarrow> i64 option" where
  "remaining_secs self now =
     (if vr_budget self = 0 \<or> vr_rate self = 0 then None
      else let left = saturating_sub (vr_budget self) (accrued self now) in
           Some (ucast ((ucast left :: u128) * 3600 div ucast (vr_rate self))))"

definition exhausted :: "vm_record \<Rightarrow> datetime \<Rightarrow> bool" where
  "exhausted self now \<longleftrightarrow> 0 < vr_budget self \<and> 0 < vr_rate self \<and> vr_budget self \<le> accrued self now"

section \<open>The manager\<close>

record vm_manager =
  vm_vms :: "string \<Rightarrow> vm_record option"
  vm_binary :: string
  vm_runtime :: "string option"
  vm_cache :: "string \<Rightarrow> (u64 \<times> datetime) option"
  vm_measuring :: "string set"

definition VOL_CACHE_TTL_SECS :: int where
  "VOL_CACHE_TTL_SECS = 30"

definition vm_manager_new :: "string option \<Rightarrow> vm_manager" where
  "vm_manager_new runtime = \<lparr>vm_vms = (\<lambda>_. None), vm_binary = ''docker'', vm_runtime = runtime,
     vm_cache = (\<lambda>_. None), vm_measuring = {}\<rparr>"

record vm_info =
  vi_vm_id :: string
  vi_owner :: string
  vi_image :: string
  vi_state :: string
  vi_cpu_millis :: u64
  vi_memory_mib :: u64
  vi_gpu :: bool
  vi_volume :: string
  vi_ports :: "u16 list"
  vi_created_at :: datetime
  vi_price_per_hour :: u64
  vi_lease :: u64
  vi_lease_remaining_secs :: "i64 option"
  vi_volume_bytes :: "u64 option"
  vi_volume_measured_at :: "datetime option"
  vi_volume_backend :: string
  vi_external_store :: bool

definition volume_backend_label :: "vm_env \<Rightarrow> string" where
  "volume_backend_label env =
     (case volume_remote env of None \<Rightarrow> ''local''
      | Some _ \<Rightarrow> (case volume_mode_of env of Snapshot \<Rightarrow> ''restic-snapshot'' | Rclone \<Rightarrow> ''rclone''))"

definition record_to_info :: "vm_env \<Rightarrow> vm_manager \<Rightarrow> string \<Rightarrow> vm_record \<Rightarrow> string \<Rightarrow> datetime \<Rightarrow> vm_info" where
  "record_to_info env self owner rec state now = \<lparr>vi_vm_id = vr_vm_id rec, vi_owner = owner,
     vi_image = vr_image rec, vi_state = state, vi_cpu_millis = rv_get (vr_allocated rec) Cpu,
     vi_memory_mib = rv_get (vr_allocated rec) Memory, vi_gpu = (0 < rv_get (vr_allocated rec) Gpu),
     vi_volume = vr_volume rec, vi_ports = vr_ports rec, vi_created_at = vr_created_at rec,
     vi_price_per_hour = vr_rate rec, vi_lease = vr_budget rec,
     vi_lease_remaining_secs = remaining_secs rec now,
     vi_volume_bytes = map_option fst (vm_cache self owner),
     vi_volume_measured_at = map_option snd (vm_cache self owner),
     vi_volume_backend = volume_backend_label env, vi_external_store = (volume_remote env \<noteq> None)\<rparr>"

definition vm_status_of :: "vm_env \<Rightarrow> vm_manager \<Rightarrow> string \<Rightarrow> datetime \<Rightarrow> vm_info option" where
  "vm_status_of env self owner now =
     map_option (\<lambda>rec. record_to_info env self owner rec ''running'' now) (vm_vms self owner)"

definition has_running :: "vm_manager \<Rightarrow> string \<Rightarrow> bool" where
  "has_running self owner \<longleftrightarrow> vm_vms self owner \<noteq> None"

definition lease_exhausted :: "vm_manager \<Rightarrow> string \<Rightarrow> datetime \<Rightarrow> bool" where
  "lease_exhausted self owner now \<longleftrightarrow> (case vm_vms self owner of None \<Rightarrow> False | Some rec \<Rightarrow> exhausted rec now)"

definition host_port :: "vm_manager \<Rightarrow> string \<Rightarrow> u16 \<Rightarrow> u16 option" where
  "host_port self owner container_port =
     (case vm_vms self owner of None \<Rightarrow> None | Some rec \<Rightarrow> vr_host_ports rec container_port)"

definition vm_resources :: "workload_spec \<Rightarrow> bool \<Rightarrow> resource_vector" where
  "vm_resources spec gpu_available =
     (let r = ws_resources spec;
          r = (if rv_get r Cpu = 0 then rv_with r Cpu 1000 else r);
          r = (if rv_get r Memory = 0 then rv_with r Memory 512 else r) in
      if gpu_available then r else bt_remove Vram (bt_remove Gpu r))"

section \<open>Ports\<close>

definition parse_port_line :: "string \<Rightarrow> (u16 \<times> u16) option" where
  "parse_port_line line =
     (case split_once '' -> '' line of
        None \<Rightarrow> None
      | Some (cpart, hpart) \<Rightarrow>
         (case (parse_word (trim (hd (split_on CHR ''/'' cpart))), parse_word (trim (last (split_on CHR '':'' hpart)))) of
            (Some c, Some h) \<Rightarrow> Some (c, h)
          | _ \<Rightarrow> None))"

definition parse_docker_port :: "string \<Rightarrow> (u16 \<Rightarrow> u16 option)" where
  "parse_docker_port text =
     fold (\<lambda>line m. case parse_port_line line of None \<Rightarrow> m | Some (c, h) \<Rightarrow> m(c \<mapsto> h)) (text_lines text) (\<lambda>_. None)"

definition read_host_ports :: "vm_env \<Rightarrow> string \<Rightarrow> u16 list \<Rightarrow> (u16 \<Rightarrow> u16 option) vio" where
  "read_host_ports env name container_ports =
     (if container_ports = [] then vret (\<lambda>_. None)
      else vbind (vtry (cli env [''port'', name])) (\<lambda>r.
        vret (case r of Inr out \<Rightarrow> if co_success out then parse_docker_port (co_stdout out) else (\<lambda>_. None)
              | Inl _ \<Rightarrow> (\<lambda>_. None))))"

section \<open>The external store\<close>

definition rclone_args :: "vm_env \<Rightarrow> string \<Rightarrow> string \<Rightarrow> string \<Rightarrow> bool \<Rightarrow> command" where
  "rclone_args env owner volume remote to_remote =
     (let remote_path = trim_slashes remote @ ''/'' @ owner;
          (src, dst) = (if to_remote then (''/data'', remote_path) else (remote_path, ''/data'')) in
      [''run'', ''--rm'', ''-v'', volume @ '':/data''] @
      (case ve_var env ''CLOUDIY_RCLONE_CONFIG'' of None \<Rightarrow> []
       | Some cfg \<Rightarrow> [''-v'', cfg @ '':/config/rclone/rclone.conf:ro'']) @
      [''rclone/rclone'', ''copy'', src, dst, ''--transfers'', ''8''])"

definition volume_sync_rclone :: "vm_env \<Rightarrow> string \<Rightarrow> string \<Rightarrow> string \<Rightarrow> bool \<Rightarrow> unit vio" where
  "volume_sync_rclone env owner volume remote to_remote =
     vbind (cli_ok env (rclone_args env owner volume remote to_remote) SyncFailed) (\<lambda>_. vret ())"

definition restic_restore :: "vm_env \<Rightarrow> string \<Rightarrow> string \<Rightarrow> string \<Rightarrow> unit vio" where
  "restic_restore env volume repo password =
     vbind (cli env (restic_container_args env volume repo password [''snapshots'', ''--json''])) (\<lambda>listed.
     if \<not> co_success listed then vret ()
     else if trim (co_stdout listed) \<in> {'''', ''[]'', ''null''} then vret ()
     else vbind (cli env (restic_container_args env volume repo password
             [''restore'', ''latest'', ''--target'', ''/data''])) (\<lambda>restored. vret ()))"

definition restic_persist :: "vm_env \<Rightarrow> string \<Rightarrow> string \<Rightarrow> string \<Rightarrow> unit vio" where
  "restic_persist env volume repo password =
     vbind (vtry (cli env (restic_container_args env volume repo password [''init'']))) (\<lambda>_.
     vbind (cli_ok env (restic_container_args env volume repo password [''backup'', ''/data'']) SnapshotFailed)
       (\<lambda>_. vret ()))"

definition volume_sync_restic :: "vm_env \<Rightarrow> string \<Rightarrow> string \<Rightarrow> string \<Rightarrow> bool \<Rightarrow> unit vio" where
  "volume_sync_restic env owner volume remote to_remote =
     vbind (vlift (snapshot_password env owner)) (\<lambda>password.
     let repo = restic_repo remote owner in
     if \<not> to_remote then restic_restore env volume repo password
     else restic_persist env volume repo password)"

definition volume_sync :: "vm_env \<Rightarrow> string \<Rightarrow> string \<Rightarrow> bool \<Rightarrow> unit vio" where
  "volume_sync env owner volume to_remote =
     (case volume_remote env of None \<Rightarrow> vret ()
      | Some remote \<Rightarrow>
         (case volume_mode_of env of
            Snapshot \<Rightarrow> volume_sync_restic env owner volume remote to_remote
          | Rclone \<Rightarrow> volume_sync_rclone env owner volume remote to_remote))"

section \<open>Starting a VM\<close>

definition label :: "string \<Rightarrow> string \<Rightarrow> string list" where
  "label key v = [''--label'', ''cloudiy.'' @ key @ ''='' @ v]"

definition vm_run_options ::
  "vm_env \<Rightarrow> string option \<Rightarrow> string option \<Rightarrow> string \<Rightarrow> string \<Rightarrow> string \<Rightarrow> u16 list \<Rightarrow>
   resource_vector \<Rightarrow> u64 \<Rightarrow> u64 \<Rightarrow> datetime \<Rightarrow> string list" where
  "vm_run_options env runtime network owner img volume ports allocated rate budget now =
     (let cpu_millis = rv_get allocated Cpu; mem_mib = rv_get allocated Memory; gpu = 0 < rv_get allocated Gpu in
      [''--detach'', ''--name'', container_name env owner] @
      (case runtime of None \<Rightarrow> [] | Some rt \<Rightarrow> [''--runtime'', rt]) @
      (case network of None \<Rightarrow> [] | Some net \<Rightarrow> [''--network'', net]) @
      label ''managed'' ''1'' @ label ''owner'' owner @ label ''image'' img @
      label ''cpu'' (show_word cpu_millis) @ label ''mem'' (show_word mem_mib) @
      label ''gpu'' (if gpu then ''1'' else ''0'') @
      label ''ports'' (join_with '','' (map show_word ports)) @ label ''volume'' volume @
      label ''rate'' (show_word rate) @ label ''budget'' (show_word budget) @
      label ''created'' (ve_rfc3339 env now) @
      [''--security-opt'', ''no-new-privileges'', ''--pids-limit'', ''1024'',
       ''--cpus'', ve_show_f64 env (fdiv (f_of_u64 cpu_millis) (f_lit 1000)),
       ''--memory'', show_word (max mem_mib 64) @ ''m'', ''--volume'', volume @ '':/root'', ''--workdir'', ''/root''] @
      (if gpu then [''--gpus'', ''all''] else []) @
      concat (map (\<lambda>p. [''--publish'', ''127.0.0.1::'' @ show_word p]) ports))"

definition vm_run_args ::
  "vm_env \<Rightarrow> string option \<Rightarrow> string option \<Rightarrow> string \<Rightarrow> string \<Rightarrow> string \<Rightarrow> u16 list \<Rightarrow>
   resource_vector \<Rightarrow> u64 \<Rightarrow> u64 \<Rightarrow> datetime \<Rightarrow> command" where
  "vm_run_args env runtime network owner img volume ports allocated rate budget now =
     ''run'' # vm_run_options env runtime network owner img volume ports allocated rate budget now @
     [img, ''sleep'', ''infinity'']"

text \<open>
  \<open>vm_launch\<close> is the part of \<open>start\<close> between the lookup of the owner and the insertion of the new
  record: it reads nothing of the manager but its OCI runtime, and changes nothing of it.
\<close>

definition vm_checks :: "vm_env \<Rightarrow> string option \<Rightarrow> string \<Rightarrow> vm_error + unit" where
  "vm_checks env runtime img =
     rbind (validate_image img) (\<lambda>_.
     rbind (case tenant_network env of None \<Rightarrow> Inr () | Some net \<Rightarrow> validate_network net) (\<lambda>_.
     require (tenant_isolation_ok (untrusted_tenants env) runtime (tenant_network env)) UntrustedPosture))"

definition vm_launch ::
  "vm_env \<Rightarrow> string option \<Rightarrow> string \<Rightarrow> workload_spec \<Rightarrow> resource_vector \<Rightarrow> u64 \<Rightarrow> u64 \<Rightarrow> datetime \<Rightarrow>
   datetime \<Rightarrow> vm_record vio" where
  "vm_launch env runtime owner spec allocated rate budget now1 now2 =
     (let img = (case ws_image spec of Some i \<Rightarrow> i | None \<Rightarrow> DEFAULT_IMAGE);
          name = container_name env owner; volume = volume_name env owner;
          ports = take MAX_PORTS (ws_ports spec) in
     vbind (vlift (vm_checks env runtime img)) (\<lambda>_.
     vbind (cli_ok env [''volume'', ''create'', volume] VolumeCreateFailed) (\<lambda>_.
     vbind (if volume_remote env \<noteq> None then vbind (vtry (volume_sync env owner volume False)) (\<lambda>_. vret ())
            else vret ()) (\<lambda>_.
     vbind (cli_ok env [''pull'', img] PullFailed) (\<lambda>_.
     vbind (vtry (cli env [''rm'', ''--force'', name])) (\<lambda>_.
     vbind (cli_ok env (vm_run_args env runtime (tenant_network env) owner img volume ports allocated rate
                          budget now1) StartFailed) (\<lambda>_.
     vbind (read_host_ports env name ports) (\<lambda>host_ports.
     vret \<lparr>vr_vm_id = name, vr_image = img, vr_volume = volume, vr_ports = ports,
       vr_host_ports = host_ports, vr_allocated = allocated, vr_created_at = now2,
       vr_rate = rate, vr_budget = budget\<rparr>))))))))"

definition vm_insert :: "string \<Rightarrow> vm_record \<Rightarrow> vm_manager \<Rightarrow> vm_manager" where
  "vm_insert owner rec self = self\<lparr>vm_vms := (vm_vms self)(owner \<mapsto> rec)\<rparr>"

definition vm_start ::
  "vm_env \<Rightarrow> vm_manager \<Rightarrow> string \<Rightarrow> workload_spec \<Rightarrow> resource_vector \<Rightarrow> u64 \<Rightarrow> u64 \<Rightarrow> datetime \<Rightarrow>
   datetime \<Rightarrow> command list \<Rightarrow> ((vm_error + vm_info) \<times> vm_manager) \<times> command list" where
  "vm_start env self owner spec allocated rate budget now1 now2 h =
     (case vm_vms self owner of
        Some rec \<Rightarrow> ((Inr (record_to_info env self owner rec ''running'' now1), self), h)
      | None \<Rightarrow>
         (case vm_launch env (vm_runtime self) owner spec allocated rate budget now1 now2 h of
            (Inl e, h') \<Rightarrow> ((Inl e, self), h')
          | (Inr rec, h') \<Rightarrow>
              ((Inr (record_to_info env self owner rec ''running'' now2), vm_insert owner rec self), h')))"

section \<open>Stopping, reaping, measuring\<close>

definition vm_teardown :: "vm_env \<Rightarrow> string \<Rightarrow> vm_record \<Rightarrow> bool \<Rightarrow> unit vio" where
  "vm_teardown env owner rec wipe =
     vbind (vtry (cli env [''rm'', ''--force'', vr_vm_id rec])) (\<lambda>_.
     if wipe then vbind (vtry (cli env [''volume'', ''rm'', ''--force'', vr_volume rec])) (\<lambda>_. vret ())
     else if volume_remote env \<noteq> None then
       vbind (vtry (volume_sync env owner (vr_volume rec) True)) (\<lambda>r.
         case r of Inr _ \<Rightarrow> vbind (vtry (cli env [''volume'', ''rm'', ''--force'', vr_volume rec])) (\<lambda>_. vret ())
         | Inl _ \<Rightarrow> vret ())
     else vret ())"

definition vm_stop ::
  "vm_env \<Rightarrow> vm_manager \<Rightarrow> string \<Rightarrow> bool \<Rightarrow> command list \<Rightarrow> (resource_vector \<times> vm_manager) \<times> command list" where
  "vm_stop env self owner wipe h =
     (case vm_vms self owner of
        None \<Rightarrow> (([], self), h)
      | Some rec \<Rightarrow>
          ((vr_allocated rec, self\<lparr>vm_vms := (vm_vms self)(owner := None)\<rparr>), snd (vm_teardown env owner rec wipe h)))"

text \<open>
  The reaper: \<open>owners\<close> lists the keys of the map in the order of its iteration.
\<close>

fun reap_all ::
  "vm_env \<Rightarrow> string list \<Rightarrow> vm_manager \<Rightarrow> resources \<Rightarrow> command list \<Rightarrow> (vm_manager \<times> resources) \<times> command list" where
  "reap_all env [] self rs h = ((self, rs), h)"
| "reap_all env (owner # owners) self rs h =
     (case vm_stop env self owner False h of
        ((released, self'), h') \<Rightarrow> reap_all env owners self' (release_resources rs released) h')"

definition reap_expired ::
  "vm_env \<Rightarrow> string list \<Rightarrow> datetime \<Rightarrow> vm_manager \<Rightarrow> resources \<Rightarrow> command list \<Rightarrow>
   (string list \<times> vm_manager \<times> resources) \<times> command list" where
  "reap_expired env owners now self rs h =
     (let expired = filter (\<lambda>owner. lease_exhausted self owner now) owners in
      case reap_all env expired self rs h of (r, h') \<Rightarrow> ((expired, r), h'))"

definition first_word :: "string \<Rightarrow> string option" where
  "first_word s =
     (let w = takeWhile (\<lambda>c. \<not> is_space c) (trim_start s) in if w = [] then None else Some w)"

definition parse_du_bytes :: "string \<Rightarrow> u64 option" where
  "parse_du_bytes out =
     (case first_word out of None \<Rightarrow> None
      | Some w \<Rightarrow> map_option (\<lambda>kb. saturating_mul kb 1024) (parse_word w))"

text \<open>The timeout of the command is one of the ways in which Docker does not answer.\<close>

definition measure_volume_bytes :: "vm_env \<Rightarrow> string \<Rightarrow> u64 option vio" where
  "measure_volume_bytes env vm_id =
     vbind (vtry (cli env [''exec'', vm_id, ''du'', ''-sk'', ''/root''])) (\<lambda>r.
     vret (case r of Inr out \<Rightarrow> if co_success out then parse_du_bytes (co_stdout out) else None | Inl _ \<Rightarrow> None))"

definition refresh_volume_size ::
  "vm_env \<Rightarrow> vm_manager \<Rightarrow> string \<Rightarrow> datetime \<Rightarrow> datetime \<Rightarrow> command list \<Rightarrow> vm_manager \<times> command list" where
  "refresh_volume_size env self owner now1 now2 h =
     (case vm_vms self owner of
        None \<Rightarrow> (self, h)
      | Some rec \<Rightarrow>
         if (case vm_cache self owner of Some (_, measured_at) \<Rightarrow> num_seconds (now1 - measured_at) < VOL_CACHE_TTL_SECS | None \<Rightarrow> False)
         then (self, h)
         else if owner \<in> vm_measuring self then (self, h)
         else (case measure_volume_bytes env (vr_vm_id rec) h of
                 (Inr (Some n), h') \<Rightarrow> (self\<lparr>vm_cache := (vm_cache self)(owner \<mapsto> (n, now2))\<rparr>, h')
               | (_, h') \<Rightarrow> (self, h')))"

section \<open>Adopting the VMs of an earlier run\<close>

definition ascii_eq_ignore_case :: "string \<Rightarrow> string \<Rightarrow> bool" where
  "ascii_eq_ignore_case a b \<longleftrightarrow> map ascii_lower a = map ascii_lower b"

definition field_or :: "string list \<Rightarrow> nat \<Rightarrow> (string \<Rightarrow> 'a option) \<Rightarrow> 'a \<Rightarrow> 'a" where
  "field_or f i parse d =
     (if i < length f then case parse (f ! i) of Some v \<Rightarrow> v | None \<Rightarrow> d else d)"

definition adopt_resources :: "string list \<Rightarrow> resource_vector" where
  "adopt_resources f =
     (let a = []; cpu = field_or f 4 parse_word 0; mem = field_or f 5 parse_word 0;
          a = (if 0 < cpu then rv_with a Cpu cpu else a);
          a = (if 0 < mem then rv_with a Memory mem else a) in
      if f ! 6 = ''1'' then rv_with a Gpu 1 else a)"

definition adopt_revive :: "vm_env \<Rightarrow> string \<Rightarrow> string \<Rightarrow> bool vio" where
  "adopt_revive env name state =
     (if ascii_eq_ignore_case state ''running'' then vret True
      else vbind (vtry (cli env [''start'', name])) (\<lambda>r.
        if (case r of Inr out \<Rightarrow> co_success out | Inl _ \<Rightarrow> False) then vret True
        else vbind (vtry (cli env [''rm'', ''--force'', name])) (\<lambda>_. vret False)))"

definition adopt_line ::
  "vm_env \<Rightarrow> datetime \<Rightarrow> string \<Rightarrow> vm_manager \<times> resources \<times> nat \<Rightarrow> command list \<Rightarrow>
   (vm_manager \<times> resources \<times> nat) \<times> command list" where
  "adopt_line env now line s h =
     (let f = split_on CHR 0x09 line in
      if length f < 9 \<or> f ! 2 = [] then (s, h)
      else let name = f ! 0; owner = f ! 2 in
      case adopt_revive env name (f ! 1) h of
        (Inr True, h1) \<Rightarrow>
          (let allocated = adopt_resources f;
               ports = List.map_filter parse_word (split_on CHR '','' (f ! 7)) in
           case read_host_ports env name ports h1 of
             (Inr host_ports, h2) \<Rightarrow>
               (case s of (self, rs, adopted) \<Rightarrow>
                 let rs' = (case allocate rs allocated of Inr r \<Rightarrow> r | Inl _ \<Rightarrow> rs);
                     rec = \<lparr>vr_vm_id = name, vr_image = f ! 3,
                       vr_volume = (if f ! 8 = [] then volume_name env owner else f ! 8),
                       vr_ports = ports, vr_host_ports = host_ports, vr_allocated = allocated,
                       vr_created_at = field_or f 11 (ve_parse_rfc3339 env) now,
                       vr_rate = field_or f 9 parse_word 0, vr_budget = field_or f 10 parse_word 0\<rparr> in
                 ((vm_insert owner rec self, rs', adopted + 1), h2))
           | (Inl _, h2) \<Rightarrow> (s, h2))
      | (_, h1) \<Rightarrow> (s, h1))"

fun adopt_lines ::
  "vm_env \<Rightarrow> datetime \<Rightarrow> string list \<Rightarrow> vm_manager \<times> resources \<times> nat \<Rightarrow> command list \<Rightarrow>
   (vm_manager \<times> resources \<times> nat) \<times> command list" where
  "adopt_lines env now [] s h = (s, h)"
| "adopt_lines env now (line # lines) s h =
     (case adopt_line env now line s h of (s', h') \<Rightarrow> adopt_lines env now lines s' h')"

text \<open>The template prints the twelve columns separated by tabs.\<close>

definition reconcile_columns :: string where
  "reconcile_columns = join_with [CHR 0x09]
     ([''{{.Names}}'', ''{{.State}}''] @
      map (\<lambda>k. ''{{.Label '' @ [CHR 0x22] @ ''cloudiy.'' @ k @ [CHR 0x22] @ ''}}'')
        [''owner'', ''image'', ''cpu'', ''mem'', ''gpu'', ''ports'', ''volume'', ''rate'', ''budget'', ''created''])"

definition reconcile ::
  "vm_env \<Rightarrow> datetime \<Rightarrow> vm_manager \<Rightarrow> resources \<Rightarrow> command list \<Rightarrow> (vm_manager \<times> resources \<times> nat) \<times> command list" where
  "reconcile env now self rs h =
     (case cli env [''ps'', ''-a'', ''--filter'', ''label=cloudiy.managed'', ''--format'', reconcile_columns] h of
        (Inr out, h') \<Rightarrow>
          if co_success out then adopt_lines env now (text_lines (co_stdout out)) (self, rs, 0) h'
          else ((self, rs, 0), h')
      | (Inl _, h') \<Rightarrow> ((self, rs, 0), h'))"

section \<open>Shells\<close>

definition shell_args :: "string \<Rightarrow> string list \<Rightarrow> command" where
  "shell_args container command =
     [''exec'', ''-it'', container] @
     (if command = [] then [''/bin/sh'', ''-c'',
        ''if command -v bash >/dev/null 2>&1; then exec bash; else exec sh; fi'']
      else command)"

definition open_shell ::
  "vm_manager \<Rightarrow> string \<Rightarrow> string list \<Rightarrow> u16 \<Rightarrow> u16 \<Rightarrow> vm_error + (command \<times> u16 \<times> u16)" where
  "open_shell self owner command cols rows =
     rbind (ok_or (map_option vr_vm_id (vm_vms self owner)) NoVm) (\<lambda>name.
     rbind (validate_command command) (\<lambda>_.
     Inr (shell_args name command, if cols = 0 then 80 else cols, if rows = 0 then 24 else rows)))"

end
