(* ===== verification/Vm_Theorems.thy ===== *)
theory Vm_Theorems
  imports Vm
begin

text \<open>
  What the VM manager guarantees: the lease, the isolation of a VM, the safety of its volume, and the
  translation of its ports.
\<close>

section \<open>The lease\<close>

definition uptime :: "vm_record \<Rightarrow> datetime \<Rightarrow> nat" where
  "uptime rec now = nat (num_seconds (now - vr_created_at rec))"

lemma accrued_exact:
  assumes "uptime rec now * unat (vr_rate rec) < 3600 * 2 ^ 64"
  shows "unat (accrued rec now) = uptime rec now * unat (vr_rate rec) div 3600"
proof (cases "vr_rate rec = 0")
  case True
  then show ?thesis by (simp add: accrued_def)
next
  case False
  let ?s = "word_of_int (max (num_seconds (now - vr_created_at rec)) 0) :: u128"
  let ?r = "ucast (vr_rate rec) :: u128"
  have r: "unat ?r = unat (vr_rate rec)" by (rule unat_ucast_up) simp
  have "0 < unat (vr_rate rec)" using False by (simp add: unat_gt_0)
  then have s0: "uptime rec now < 3600 * 2 ^ 64" using assms
    by (metis (no_types, lifting) One_nat_def Suc_leI le_less_trans mult.right_neutral mult_le_mono2)
  have "?s = of_nat (uptime rec now)"
    by (cases "0 \<le> num_seconds (now - vr_created_at rec)") (simp_all add: uptime_def)
  then have s: "unat ?s = uptime rec now" using s0 by (simp add: unat_of_nat)
  have m: "unat (?s * ?r) = uptime rec now * unat (vr_rate rec)"
    using assms unat_mult_exact [of ?s ?r] by (simp add: s r)
  have d: "unat (?s * ?r div 3600) = uptime rec now * unat (vr_rate rec) div 3600"
    by (simp add: unat_div m)
  have lt: "uptime rec now * unat (vr_rate rec) div 3600 < 2 ^ 64"
    using assms by (simp add: less_mult_imp_div_less)
  have "unat (ucast (?s * ?r div 3600) :: u64) = unat (?s * ?r div 3600) mod 2 ^ 64"
    by (simp add: unsigned_ucast_eq take_bit_eq_mod)
  then show ?thesis using d lt by (simp add: accrued_def Let_def)
qed


lemma remaining_exact:
  assumes "vr_budget rec \<noteq> 0" and "vr_rate rec \<noteq> 0" and "3600 * unat (vr_budget rec) < 2 ^ 63 * unat (vr_rate rec)"
  shows "\<exists>left. remaining_secs rec now = Some left \<and>
     sint left = int ((unat (vr_budget rec) - unat (accrued rec now)) * 3600 div unat (vr_rate rec))"
proof -
  let ?left = "saturating_sub (vr_budget rec) (accrued rec now)"
  let ?a = "unat (vr_budget rec) - unat (accrued rec now)" and ?r = "unat (vr_rate rec)"
  let ?q = "(ucast ?left :: u128) * 3600 div ucast (vr_rate rec)"
  have l: "unat (ucast ?left :: u128) = ?a"
    by (subst unat_ucast_up) (simp_all add: unat_saturating_sub)
  have "?a < 2 ^ 64" using unsigned_less [of "vr_budget rec", where ?'a = nat] by simp
  then have "unat ((ucast ?left :: u128) * 3600) = ?a * 3600"
    using unat_mult_exact [of "ucast ?left :: u128" 3600] l by simp
  moreover have "unat (ucast (vr_rate rec) :: u128) = ?r" by (rule unat_ucast_up) simp
  ultimately have q: "unat ?q = ?a * 3600 div ?r" by (simp add: unat_div)
  have r0: "0 < ?r" using assms(2) by (simp add: unat_gt_0)
  have "?a * 3600 < 2 ^ 63 * ?r"
    using assms(3) mult_le_mono1 [OF diff_le_self [of "unat (vr_budget rec)" "unat (accrued rec now)"], of 3600]
    by (simp add: mult.commute)
  then have lt: "?a * 3600 div ?r < 2 ^ 63" using r0 by (simp add: less_mult_imp_div_less)
  have "(ucast ?q :: i64) = word_of_int (int (?a * 3600 div ?r))"
  proof -
    have "(word_of_int (int (unat ?q)) :: i64) = of_nat (unat ?q)" by (rule of_int_of_nat_eq)
    then show ?thesis by (simp only: q [symmetric] of_nat_unat)
  qed
  moreover have "sint (word_of_int (int (?a * 3600 div ?r)) :: i64) = int (?a * 3600 div ?r)"
    using lt by (intro sint_word_of_int_fits) (simp add: s_fits_def s_min_def s_max_def)
  ultimately show ?thesis using assms(1,2) by (simp add: remaining_secs_def Let_def)
qed

lemma div_between:
  fixes a q r :: nat
  assumes "0 < r"
  shows "a div r * r \<le> a" "a < (a div r + 1) * r"
  using assms by (simp, metis add.commute div_mult_mod_eq mod_less_divisor mult.commute mult_Suc_right nat_add_left_cancel_less plus_1_eq_Suc)

text \<open>
  The prepaid lease. While the accrued amount fits in 64 bits, a metered VM is exhausted exactly
  when its uptime at the hourly rate has used the whole budget; until then the reported remaining
  time is never negative, and running that many seconds more uses the budget up to less than one
  micro-USDC, one second more uses all of it. A VM without a budget is never exhausted and reports
  no remaining time.
\<close>
theorem lease_exact:
  assumes "uptime rec now * unat (vr_rate rec) < 3600 * 2 ^ 64"
    and "3600 * unat (vr_budget rec) < 2 ^ 63 * unat (vr_rate rec) \<or> vr_budget rec = 0"
  shows "(if vr_budget rec = 0 then \<not> exhausted rec now \<and> remaining_secs rec now = None
     else (exhausted rec now \<longleftrightarrow> 3600 * unat (vr_budget rec) \<le> uptime rec now * unat (vr_rate rec)) \<and>
       (\<exists>left n. remaining_secs rec now = Some left \<and> sint left = int n \<and>
         (if exhausted rec now then n = 0
          else (uptime rec now + n) * unat (vr_rate rec) < 3600 * unat (vr_budget rec) + 3600 \<and>
            3600 * unat (vr_budget rec) < (uptime rec now + n + 1) * unat (vr_rate rec))))"
proof (cases "vr_budget rec = 0")
  case True
  then show ?thesis by (simp add: exhausted_def remaining_secs_def)
next
  case False
  let ?u = "uptime rec now" and ?r = "unat (vr_rate rec)" and ?b = "unat (vr_budget rec)"
  let ?a = "?u * ?r div 3600"
  have b: "3600 * ?b < 2 ^ 63 * ?r" using assms(2) False by simp
  have r: "0 < ?r" using b by (metis less_zeroE mult_0_right neq0_conv)
  then have r': "vr_rate rec \<noteq> 0" by (metis unat_0 less_irrefl)
  have acc: "unat (accrued rec now) = ?a" by (rule accrued_exact [OF assms(1)])
  have e: "exhausted rec now \<longleftrightarrow> ?b \<le> ?a"
    using False r' acc by (simp add: exhausted_def word_le_nat_alt word_gt_0)
  also have "\<dots> \<longleftrightarrow> 3600 * ?b \<le> ?u * ?r" by (simp add: less_eq_div_iff_mult_less_eq mult.commute)
  finally have ex: "exhausted rec now \<longleftrightarrow> 3600 * ?b \<le> ?u * ?r" .
  obtain left where left: "remaining_secs rec now = Some left" "sint left = int ((?b - ?a) * 3600 div ?r)"
    using remaining_exact [OF False r' b, of now] acc by auto
  let ?n = "(?b - ?a) * 3600 div ?r"
  have "if exhausted rec now then ?n = 0
     else (?u + ?n) * ?r < 3600 * ?b + 3600 \<and> 3600 * ?b < (?u + ?n + 1) * ?r"
  proof (cases "exhausted rec now")
    case True
    then show ?thesis using e by simp
  next
    case False
    then have lt: "?a < ?b" using e by simp
    have a: "?a * 3600 \<le> ?u * ?r" "?u * ?r < (?a + 1) * 3600" by (rule div_between, simp)+
    have n: "?n * ?r \<le> (?b - ?a) * 3600" "(?b - ?a) * 3600 < (?n + 1) * ?r" by (rule div_between [OF r])+
    have s: "(?b - ?a) * 3600 + ?a * 3600 = 3600 * ?b" using lt by (simp add: diff_mult_distrib)
    have "(?u + ?n) * ?r = ?u * ?r + ?n * ?r" "(?u + ?n + 1) * ?r = ?u * ?r + (?n + 1) * ?r"
      by (simp_all add: algebra_simps)
    then show ?thesis using False a n s by (simp only: if_False) linarith
  qed
  then show ?thesis using False ex left by auto
qed

definition demo_vm :: vm_record where
  "demo_vm = \<lparr>vr_vm_id = ''vm'', vr_image = ''debian:12-slim'', vr_volume = ''vol'', vr_ports = [8080],
     vr_host_ports = [8080 \<mapsto> 49153], vr_allocated = [(Cpu, 1500)], vr_created_at = 0, vr_rate = 60000,
     vr_budget = 30000\<rparr>"

lemma lease_exact_witness:
  "\<not> exhausted demo_vm (1799 * 1000000000) \<and> exhausted demo_vm (1800 * 1000000000)"
  using lease_exact [of demo_vm "1799 * 1000000000"] lease_exact [of demo_vm "1800 * 1000000000"]
  by (simp add: demo_vm_def uptime_def num_seconds_def)

section \<open>Isolation\<close>

text \<open>The options of the command as pairs of a flag and its value, after \<open>--detach\<close>.\<close>

definition run_pairs ::
  "vm_env \<Rightarrow> string option \<Rightarrow> string option \<Rightarrow> string \<Rightarrow> string \<Rightarrow> string \<Rightarrow> u16 list \<Rightarrow>
   resource_vector \<Rightarrow> u64 \<Rightarrow> u64 \<Rightarrow> datetime \<Rightarrow> (string \<times> string) list" where
  "run_pairs env runtime network owner img volume ports allocated rate budget now =
     (let cpu = rv_get allocated Cpu; mem = rv_get allocated Memory; gpu = 0 < rv_get allocated Gpu;
          lab = (\<lambda>k v. (''--label'', ''cloudiy.'' @ k @ ''='' @ v)) in
      [(''--name'', container_name env owner)] @
      (case runtime of None \<Rightarrow> [] | Some rt \<Rightarrow> [(''--runtime'', rt)]) @
      (case network of None \<Rightarrow> [] | Some net \<Rightarrow> [(''--network'', net)]) @
      [lab ''managed'' ''1'', lab ''owner'' owner, lab ''image'' img, lab ''cpu'' (show_word cpu),
       lab ''mem'' (show_word mem), lab ''gpu'' (if gpu then ''1'' else ''0''),
       lab ''ports'' (join_with '','' (map show_word ports)), lab ''volume'' volume,
       lab ''rate'' (show_word rate), lab ''budget'' (show_word budget), lab ''created'' (ve_rfc3339 env now),
       (''--security-opt'', ''no-new-privileges''), (''--pids-limit'', ''1024''),
       (''--cpus'', ve_show_f64 env (fdiv (f_of_u64 cpu) (f_lit 1000))),
       (''--memory'', show_word (max mem 64) @ ''m''), (''--volume'', volume @ '':/root''), (''--workdir'', ''/root'')] @
      (if gpu then [(''--gpus'', ''all'')] else []) @
      map (\<lambda>p. (''--publish'', ''127.0.0.1::'' @ show_word p)) ports)"

lemma concat_publish: "concat (map (\<lambda>p. [f, g p]) ps) = concat (map (\<lambda>(k, v). [k, v]) (map (\<lambda>p. (f, g p)) ps))"
  by (induction ps) simp_all

lemma vm_run_options_pairs:
  "vm_run_options env runtime network owner img volume ports allocated rate budget now =
     ''--detach'' # concat (map (\<lambda>(k, v). [k, v])
       (run_pairs env runtime network owner img volume ports allocated rate budget now))"
  unfolding vm_run_options_def run_pairs_def Let_def label_def concat_publish
  by (cases runtime; cases network; simp)

text \<open>
  The only flags of the command, and what is known of each: no host directory is mounted, no
  capability added, nothing privileged.
\<close>

definition pair_ok :: "vm_env \<Rightarrow> string \<Rightarrow> string option \<Rightarrow> string \<times> string \<Rightarrow> bool" where
  "pair_ok env owner runtime kv \<longleftrightarrow> (case kv of (k, v) \<Rightarrow>
     (k = ''--name'' \<and> v = container_name env owner) \<or>
     (k = ''--runtime'' \<and> runtime = Some v) \<or>
     (k = ''--network'' \<and> tenant_network env = Some v \<and> validate_network v = Inr ()) \<or>
     (k = ''--label'' \<and> starts_with v ''cloudiy.'') \<or>
     (k = ''--security-opt'' \<and> v = ''no-new-privileges'') \<or>
     (k = ''--pids-limit'' \<and> v = ''1024'') \<or> k = ''--cpus'' \<or> k = ''--memory'' \<or>
     (k = ''--volume'' \<and> v = volume_name env owner @ '':/root'') \<or>
     (k = ''--workdir'' \<and> v = ''/root'') \<or> (k = ''--gpus'' \<and> v = ''all'') \<or>
     (k = ''--publish'' \<and> starts_with v ''127.0.0.1::''))"

lemma label_ok: "pair_ok env owner runtime (''--label'', ''cloudiy.'' @ k @ ''='' @ v)"
  using starts_with_append [of "''cloudiy.''" "k @ ''='' @ v"] by (simp add: pair_ok_def)

lemma publish_ok: "pair_ok env owner runtime (''--publish'', ''127.0.0.1::'' @ v)"
  using starts_with_append [of "''127.0.0.1::''" v] by (simp add: pair_ok_def)

lemma pair_ok_simps:
  "pair_ok env owner runtime (''--name'', container_name env owner)"
  "pair_ok env owner (Some rt) (''--runtime'', rt)"
  "tenant_network env = Some net \<Longrightarrow> validate_network net = Inr () \<Longrightarrow> pair_ok env owner runtime (''--network'', net)"
  "pair_ok env owner runtime (''--security-opt'', ''no-new-privileges'')"
  "pair_ok env owner runtime (''--pids-limit'', ''1024'')"
  "pair_ok env owner runtime (''--cpus'', v)" "pair_ok env owner runtime (''--memory'', v)"
  "pair_ok env owner runtime (''--volume'', volume_name env owner @ '':/root'')"
  "pair_ok env owner runtime (''--workdir'', ''/root'')" "pair_ok env owner runtime (''--gpus'', ''all'')"
  by (simp_all add: pair_ok_def)

lemma run_pairs_ok:
  assumes "vm_checks env runtime img = Inr ()"
  shows "list_all (pair_ok env owner runtime)
    (run_pairs env runtime (tenant_network env) owner img (volume_name env owner) ports allocated rate budget now)"
proof -
  have n: "validate_network net = Inr ()" if "tenant_network env = Some net" for net
    using assms that by (simp add: vm_checks_def result_iff)
  have p: "list_all (pair_ok env owner runtime) (map (\<lambda>p. (''--publish'', ''127.0.0.1::'' @ show_word p)) ports)"
    by (simp only: list_all_iff set_map) (use publish_ok in blast)
  have g: "list_all (pair_ok env owner runtime) (if c then [(''--gpus'', ''all'')] else [])" for c
    by (simp add: pair_ok_simps)
  have r: "list_all (pair_ok env owner runtime) (case runtime of None \<Rightarrow> [] | Some rt \<Rightarrow> [(''--runtime'', rt)])"
    by (cases runtime) (simp_all add: pair_ok_simps)
  have t: "list_all (pair_ok env owner runtime)
      (case tenant_network env of None \<Rightarrow> [] | Some net \<Rightarrow> [(''--network'', net)])"
    by (cases "tenant_network env") (simp_all add: pair_ok_simps n)
  show ?thesis
    unfolding run_pairs_def Let_def list_all_append
    by (intro conjI r t g p) (simp_all only: list.pred_inject label_ok pair_ok_simps simp_thms)
qed

section \<open>Histories\<close>

lemma cli_ok_iff [result_iff]:
  "cli_ok env args failed h = (Inr out, h2) \<longleftrightarrow>
     ve_docker env h args = Some out \<and> co_success out \<and> h2 = h @ [args]"
  by (auto simp: cli_ok_def result_iff cli_def)

text \<open>A computation only adds commands to the history.\<close>

definition grows :: "('e, 'a) cio \<Rightarrow> bool" where
  "grows m \<longleftrightarrow> (\<forall>h. \<exists>cs. snd (m h) = h @ cs)"

lemma grows_basic [intro!]:
  "grows (vret x)" "grows (vlift r)" "grows (cli env args)" "grows (cli_ok env args failed)"
  by (auto simp: grows_def vret_def vlift_def cli_def cli_ok_def vbind_def split: sum.splits prod.splits)

lemma grows_try [intro!]: "grows m \<Longrightarrow> grows (vtry m)"
  by (auto simp: grows_def vtry_def split: prod.splits) (metis snd_conv)

lemma grows_bind [intro!]:
  assumes "grows m" and "\<And>x. grows (f x)"
  shows "grows (vbind m f)"
  unfolding grows_def
proof
  fix h
  obtain r h1 where m: "m h = (r, h1)" by (cases "m h")
  with assms(1) obtain cs where h1: "h1 = h @ cs" unfolding grows_def by (metis snd_conv)
  show "\<exists>cs. snd (vbind m f h) = h @ cs"
  proof (cases r)
    case (Inl e)
    then show ?thesis using m h1 by (simp add: vbind_def)
  next
    case (Inr x)
    from assms(2) obtain ds where "snd (f x h1) = h1 @ ds" unfolding grows_def by blast
    then show ?thesis using m h1 Inr by (simp add: vbind_def)
  qed
qed

lemma grows_if [intro!]: "grows a \<Longrightarrow> grows b \<Longrightarrow> grows (if c then a else b)"
  by simp

lemma grows_sync: "grows (volume_sync env owner volume to_remote)"
  by (auto simp: volume_sync_def volume_sync_rclone_def volume_sync_restic_def restic_restore_def
      restic_persist_def Let_def split: option.splits volume_mode.splits)

lemma grows_keeps: "grows m \<Longrightarrow> m h = (r, h2) \<Longrightarrow> set h \<subseteq> set h2"
  unfolding grows_def by (metis Un_upper1 set_append snd_conv)

lemma grows_ports: "grows (read_host_ports env name ports)"
  by (auto simp: read_host_ports_def)

lemma unit_ex: "(\<exists>x :: unit. P x) \<longleftrightarrow> P ()"
  by auto

lemma vm_launch_Inr:
  assumes "vm_launch env runtime owner spec allocated rate budget now1 now2 h = (Inr rec, h2)"
  defines "img \<equiv> case ws_image spec of Some i \<Rightarrow> i | None \<Rightarrow> DEFAULT_IMAGE"
    and "ports \<equiv> take MAX_PORTS (ws_ports spec)"
  shows "vm_checks env runtime img = Inr ()"
    and "vm_run_args env runtime (tenant_network env) owner img (volume_name env owner) ports allocated rate
           budget now1 \<in> set h2"
    and "vr_allocated rec = allocated" and "vr_ports rec = ports" and "vr_rate rec = rate"
    and "vr_budget rec = budget" and "vr_created_at rec = now2" and "vr_vm_id rec = container_name env owner"
proof -
  from assms obtain hp h1 where
    c: "vm_checks env runtime img = Inr ()" and
    k: "read_host_ports env (container_name env owner) ports
      (h1 @ [vm_run_args env runtime (tenant_network env) owner img (volume_name env owner) ports allocated rate
           budget now1]) = (Inr hp, h2)" and
    rec: "rec = \<lparr>vr_vm_id = container_name env owner, vr_image = img, vr_volume = volume_name env owner,
       vr_ports = ports, vr_host_ports = hp, vr_allocated = allocated, vr_created_at = now2,
       vr_rate = rate, vr_budget = budget\<rparr>"
    unfolding vm_launch_def Let_def result_iff unit_ex img_def ports_def by blast
  show "vm_checks env runtime img = Inr ()" by (rule c)
  show "vm_run_args env runtime (tenant_network env) owner img (volume_name env owner) ports allocated rate
           budget now1 \<in> set h2"
    using grows_keeps [OF grows_ports k] by simp
  show "vr_allocated rec = allocated" "vr_ports rec = ports" "vr_rate rec = rate"
    "vr_budget rec = budget" "vr_created_at rec = now2" "vr_vm_id rec = container_name env owner"
    by (simp_all add: rec)
qed

text \<open>
  C8. A tenant's VM is confined. When \<open>start\<close> brings up a VM, the command it ran gives Docker only the
  flags listed above \<open>pair_ok\<close> (only the owner's own volume is mounted, every port is bound to the
  loopback address, no privilege is added), always with \<open>no-new-privileges\<close> and the pids limit; an
  image that could be read as a flag is refused; and a node whose operator declared its tenants
  untrusted runs none without a sandboxed runtime or a filtered network.
\<close>
theorem vm_start_confined:
  assumes "vm_vms self owner = None"
    and "vm_start env self owner spec allocated rate budget now1 now2 h = ((Inr info, self'), h')"
  shows "\<exists>kvs img. ''run'' # ''--detach'' # concat (map (\<lambda>(k, v). [k, v]) kvs) @ [img, ''sleep'', ''infinity'']
        \<in> set h' \<and>
      list_all (pair_ok env owner (vm_runtime self)) kvs \<and> validate_image img = Inr () \<and>
      (''--name'', container_name env owner) \<in> set kvs \<and>
      (''--security-opt'', ''no-new-privileges'') \<in> set kvs \<and> (''--pids-limit'', ''1024'') \<in> set kvs \<and>
      (untrusted_tenants env \<longrightarrow> (\<exists>v. (''--runtime'', v) \<in> set kvs \<or> (''--network'', v) \<in> set kvs))"
proof -
  from assms obtain rec where
    l: "vm_launch env (vm_runtime self) owner spec allocated rate budget now1 now2 h = (Inr rec, h')"
    by (auto simp: vm_start_def split: prod.splits sum.splits)
  let ?img = "case ws_image spec of Some i \<Rightarrow> i | None \<Rightarrow> DEFAULT_IMAGE"
  let ?kvs = "run_pairs env (vm_runtime self) (tenant_network env) owner ?img (volume_name env owner)
     (take MAX_PORTS (ws_ports spec)) allocated rate budget now1"
  have c: "vm_checks env (vm_runtime self) ?img = Inr ()" by (rule vm_launch_Inr(1) [OF l])
  have i: "validate_image ?img = Inr ()"
    and t: "tenant_isolation_ok (untrusted_tenants env) (vm_runtime self) (tenant_network env)"
    using c by (auto simp: vm_checks_def result_iff)
  have r: "''run'' # ''--detach'' # concat (map (\<lambda>(k, v). [k, v]) ?kvs) @ [?img, ''sleep'', ''infinity''] \<in> set h'"
    using vm_launch_Inr(2) [OF l] by (simp add: vm_run_args_def vm_run_options_pairs)
  have n: "(''--name'', container_name env owner) \<in> set ?kvs" "(''--security-opt'', ''no-new-privileges'') \<in> set ?kvs"
    "(''--pids-limit'', ''1024'') \<in> set ?kvs"
    by (simp_all add: run_pairs_def Let_def)
  have "untrusted_tenants env \<longrightarrow> (\<exists>v. (''--runtime'', v) \<in> set ?kvs \<or> (''--network'', v) \<in> set ?kvs)"
    using t by (auto simp: tenant_isolation_ok_def run_pairs_def Let_def)
  with r i n run_pairs_ok [OF c] show ?thesis by blast
qed

definition demo_vm_env :: vm_env where
  "demo_vm_env = \<lparr>ve_docker = (\<lambda>_ _. Some \<lparr>co_success = True, co_stdout = [], co_stderr = []\<rparr>),
     ve_var = [''CLOUDIY_UNTRUSTED_TENANTS'' \<mapsto> ''1''], ve_sha256 = (\<lambda>_. replicate 32 171),
     ve_hkdf = (\<lambda>_ _ _. replicate 32 1), ve_rfc3339 = (\<lambda>_. ''1970-01-01T00:00:00+00:00''),
     ve_parse_rfc3339 = (\<lambda>_. None), ve_show_f64 = (\<lambda>_. ''1'')\<rparr>"

lemma default_image_valid: "validate_image DEFAULT_IMAGE = Inr ()"
  by (simp add: validate_image_def DEFAULT_IMAGE_def starts_with_def image_char_def ascii_alphanumeric_def)

lemma demo_launch:
  "\<exists>rec h'. vm_launch demo_vm_env (Some ''runsc'') ''alice'' default_spec [(Cpu, 1000)] 0 0 0 0 [] = (Inr rec, h')"
  by (simp add: vm_launch_def Let_def result_iff vm_checks_def default_spec_def default_image_valid
      tenant_network_def non_blank_def tenant_isolation_ok_def volume_remote_def demo_vm_env_def
      read_host_ports_def cli_def unit_ex)

lemma vm_start_confined_witness:
  "\<exists>info self' h' kvs img.
     vm_start demo_vm_env (vm_manager_new (Some ''runsc'')) ''alice'' default_spec [(Cpu, 1000)] 0 0 0 0 []
       = ((Inr info, self'), h') \<and>
     ''run'' # ''--detach'' # concat (map (\<lambda>(k, v). [k, v]) kvs) @ [img, ''sleep'', ''infinity''] \<in> set h' \<and>
     (\<exists>v. (''--runtime'', v) \<in> set kvs \<or> (''--network'', v) \<in> set kvs)"
proof -
  have n: "vm_vms (vm_manager_new (Some ''runsc'')) ''alice'' = None" by (simp add: vm_manager_new_def)
  have u: "untrusted_tenants demo_vm_env" by (simp add: untrusted_tenants_def demo_vm_env_def)
  obtain rec h1 where l: "vm_launch demo_vm_env (Some ''runsc'') ''alice'' default_spec [(Cpu, 1000)] 0 0 0 0 [] = (Inr rec, h1)"
    using demo_launch by blast
  then obtain info self' h' where s: "vm_start demo_vm_env (vm_manager_new (Some ''runsc'')) ''alice'' default_spec
      [(Cpu, 1000)] 0 0 0 0 [] = ((Inr info, self'), h')"
    by (simp add: vm_start_def vm_manager_new_def)
  from vm_start_confined [OF n s] u s show ?thesis by blast
qed

section \<open>The volume\<close>

lemma teardown_cases:
  "snd (vm_teardown env owner rec wipe h) =
    (let h1 = h @ [[''rm'', ''--force'', vr_vm_id rec]]; rmv = [''volume'', ''rm'', ''--force'', vr_volume rec] in
     if wipe then h1 @ [rmv]
     else if volume_remote env = None then h1
     else case volume_sync env owner (vr_volume rec) True h1 of
            (Inr _, h2) \<Rightarrow> h2 @ [rmv] | (Inl _, h2) \<Rightarrow> h2)"
  by (auto simp: vm_teardown_def vbind_def vtry_def cli_def vret_def Let_def split: prod.splits sum.splits)

text \<open>The commands by which a volume reaches the external store, and that they ran and succeeded.\<close>

definition persists :: "vm_env \<Rightarrow> string \<Rightarrow> string \<Rightarrow> command \<Rightarrow> bool" where
  "persists env owner volume args \<longleftrightarrow> (\<exists>remote. volume_remote env = Some remote \<and>
     (case volume_mode_of env of
        Rclone \<Rightarrow> args = rclone_args env owner volume remote True
      | Snapshot \<Rightarrow> \<exists>password. snapshot_password env owner = Inr password \<and>
          args = restic_container_args env volume (restic_repo remote owner) password [''backup'', ''/data'']))"

lemma sync_out_Inr:
  assumes "volume_sync env owner volume True h = (Inr u, h2)" and "volume_remote env \<noteq> None"
  shows "\<exists>h1 args out. h2 = h1 @ [args] \<and> persists env owner volume args \<and>
    ve_docker env h1 args = Some out \<and> co_success out"
proof -
  obtain remote where r: "volume_remote env = Some remote" using assms(2) by blast
  show ?thesis
  proof (cases "volume_mode_of env")
    case Rclone
    then show ?thesis using assms(1) r
      by (auto simp: volume_sync_def volume_sync_rclone_def result_iff persists_def)
  next
    case Snapshot
    with assms(1) r obtain password h1 out where
      p: "snapshot_password env owner = Inr password" and
      c: "cli_ok env (restic_container_args env volume (restic_repo remote owner) password [''backup'', ''/data''])
        SnapshotFailed h1 = (Inr out, h2)"
      by (auto simp: volume_sync_def volume_sync_restic_def restic_persist_def hio_iff Let_def)
    then show ?thesis using r Snapshot by (auto simp: result_iff persists_def)
  qed
qed

lemma rm_not_volume [simp]: "[''rm'', ''--force'', x] \<noteq> [''volume'', ''rm'', ''--force'', y]"
  by simp

lemma sync_commands:
  assumes "volume_sync env owner volume True h = (r, h2)" and "c \<in> set (drop (length h) h2)"
  shows "hd c = ''run''"
proof -
  have "\<exists>cs. snd (volume_sync env owner volume True h) = h @ cs \<and> (\<forall>c \<in> set cs. hd c = ''run'')"
    by (auto simp: volume_sync_def volume_sync_rclone_def volume_sync_restic_def restic_persist_def
        rclone_args_def restic_container_args_def vbind_def vret_def vlift_def vtry_def cli_ok_def cli_def
        Let_def split: option.splits volume_mode.splits sum.splits prod.splits)
  then show ?thesis using assms by auto
qed

text \<open>
  Stopping never loses the data. Without \<open>wipe\<close>, whatever Docker answers and in both modes, the
  local volume is removed only right after the command that copies it to the external store of this
  very owner has succeeded; without an external store it is never removed.
\<close>
theorem stop_keeps_the_data:
  assumes "vm_vms self owner = Some rec" and "vm_stop env self owner False h = (r, h')"
    and "[''volume'', ''rm'', ''--force'', vr_volume rec] \<in> set (drop (length h) h')"
  shows "\<exists>h1 args out. h' = h1 @ [args, [''volume'', ''rm'', ''--force'', vr_volume rec]] \<and>
     persists env owner (vr_volume rec) args \<and> ve_docker env h1 args = Some out \<and> co_success out"
proof -
  let ?rm = "[''rm'', ''--force'', vr_vm_id rec]" and ?rmv = "[''volume'', ''rm'', ''--force'', vr_volume rec]"
  have h': "h' = (if volume_remote env = None then h @ [?rm]
      else case volume_sync env owner (vr_volume rec) True (h @ [?rm]) of
            (Inr _, h2) \<Rightarrow> h2 @ [?rmv] | (Inl _, h2) \<Rightarrow> h2)"
    using assms(1,2) by (auto simp: vm_stop_def teardown_cases Let_def)
  then have rem: "volume_remote env \<noteq> None" using assms(3) by (auto split: if_splits)
  obtain s h2 where s: "volume_sync env owner (vr_volume rec) True (h @ [?rm]) = (s, h2)"
    by fastforce
  obtain cs where h2: "h2 = h @ ?rm # cs"
    using grows_sync [of env owner "vr_volume rec" True] s unfolding grows_def
    by (metis append.assoc append_Cons append_Nil snd_conv)
  have new: "hd c = ''run''" if "c \<in> set cs" for c
    using sync_commands [OF s, of c] that h2 by simp
  show ?thesis
  proof (cases s)
    case (Inl e)
    then have "?rmv \<in> set cs" using assms(3) h' rem s h2 by auto
    then show ?thesis using new by fastforce
  next
    case (Inr u)
    then show ?thesis using sync_out_Inr [of env owner "vr_volume rec"] s rem h' by force
  qed
qed

definition demo_store_env :: vm_env where
  "demo_store_env = demo_vm_env\<lparr>ve_var := [''CLOUDIY_VOLUME_REMOTE'' \<mapsto> ''s3:vms/'']\<rparr>"

definition demo_manager :: vm_manager where
  "demo_manager = (vm_manager_new None)\<lparr>vm_vms := [''alice'' \<mapsto> demo_vm]\<rparr>"

lemma demo_stop:
  "vm_stop demo_store_env demo_manager ''alice'' False [] =
    (([(Cpu, 1500)], demo_manager\<lparr>vm_vms := Map.empty\<rparr>),
     [[''rm'', ''--force'', ''vm''],
      [''run'', ''--rm'', ''-v'', ''vol:/data'', ''rclone/rclone'', ''copy'', ''/data'', ''s3:vms/alice'', ''--transfers'', ''8''],
      [''volume'', ''rm'', ''--force'', ''vol'']])"
  by (simp add: vm_stop_def teardown_cases Let_def demo_manager_def demo_vm_def volume_remote_def non_blank_def
      demo_store_env_def demo_vm_env_def volume_sync_def volume_mode_of_def volume_sync_rclone_def vbind_def
      cli_ok_def cli_def rclone_args_def trim_slashes_def vlift_def vret_def)

lemma stop_keeps_the_data_witness:
  "\<exists>args. persists demo_store_env ''alice'' ''vol'' args"
proof -
  have r: "vm_vms demo_manager ''alice'' = Some demo_vm" by (simp add: demo_manager_def)
  have v: "vr_volume demo_vm = ''vol''" by (simp add: demo_vm_def)
  from stop_keeps_the_data [OF r demo_stop] show ?thesis unfolding v by auto
qed

section \<open>Ports\<close>

definition port_line :: "u16 \<times> string \<times> u16 \<Rightarrow> string" where
  "port_line e = (case e of (c, addr, p) \<Rightarrow> show_word c @ ''/tcp -> '' @ addr @ CHR '':'' # show_word p)"

lemma split_once_first:
  "x \<notin> set a \<Longrightarrow> split_once (x # pat) (a @ (x # pat) @ b) = Some (a, b)"
  by (induction a) auto

lemma show_word_no: "digit_val 10 c = None \<Longrightarrow> c \<notin> set (show_word w)"
  by (simp add: show_word_def show_nat_no)

lemma split_on_last: "c \<notin> set w \<Longrightarrow> split_on c (a @ c # w) = split_on c a @ [w]"
proof (induction a)
  case Nil
  then show ?case by (simp add: split_on_no)
next
  case (Cons x xs)
  then show ?case by (cases "split_on c xs") auto
qed

lemma last_split_on: "c \<notin> set w \<Longrightarrow> last (split_on c (a @ c # w)) = w"
  by (simp add: split_on_last)

lemma show_word_no_chars [simp]:
  "CHR ''/'' \<notin> set (show_word w)" "CHR '' '' \<notin> set (show_word w)" "CHR '':'' \<notin> set (show_word w)"
  "CHR 0x0A \<notin> set (show_word w)" "CHR 0x0D \<notin> set (show_word w)" "show_word w \<noteq> []"
  by (simp_all add: show_word_no) (simp add: show_word_def)

lemma trim_show_word [simp]: "trim (show_word w) = show_word w"
  by (simp add: show_word_def)

lemma parse_port_line_of: "parse_port_line (port_line (c, addr, p)) = Some (c, p)"
proof -
  have l: "port_line (c, addr, p) = (show_word c @ ''/tcp'') @ '' -> '' @ addr @ CHR '':'' # show_word p"
    by (simp add: port_line_def)
  have s: "split_once '' -> '' (port_line (c, addr, p)) = Some (show_word c @ ''/tcp'', addr @ CHR '':'' # show_word p)"
    unfolding l by (rule split_once_first) simp
  have h: "hd (split_on CHR ''/'' (show_word c @ ''/tcp'')) = show_word c"
    using split_on_append [of "CHR ''/''" "show_word c" "''tcp''"] by simp
  show ?thesis unfolding parse_port_line_def s by (simp add: h last_split_on)
qed

lemma port_line_last: "last (port_line e) \<in> set (show_word (snd (snd e)))"
  by (cases e) (simp add: port_line_def)

lemma text_lines_of:
  assumes "\<forall>w \<in> set ws. CHR 0x0A \<notin> set w \<and> w \<noteq> [] \<and> last w \<noteq> CHR 0x0D"
  shows "text_lines (concat (map (\<lambda>w. w @ [CHR 0x0A]) ws)) = ws"
proof -
  have "split_on CHR 0x0A (concat (map (\<lambda>w. w @ [CHR 0x0A]) ws)) = ws @ [[]]"
    using assms by (induction ws) (simp_all add: split_on_append)
  moreover have "map (\<lambda>w. if w \<noteq> [] \<and> last w = CHR 0x0D then butlast w else w) ws = ws"
    using assms by (intro map_idI) auto
  ultimately show ?thesis by (simp add: text_lines_def)
qed

lemma parse_lines_fold:
  "fold (\<lambda>line m. case parse_port_line line of None \<Rightarrow> m | Some (c, h) \<Rightarrow> m(c \<mapsto> h)) (map port_line es) m =
     m ++ map_of (rev (map (\<lambda>(c, addr, p). (c, p)) es))"
proof (induction es arbitrary: m)
  case (Cons e es)
  obtain c addr p where e: "e = (c, addr, p)" by (cases e)
  from Cons show ?case by (simp add: e parse_port_line_of) (simp add: fun_upd_def)
qed simp

text \<open>
  Reading back the ports. From Docker's listing of the bindings of a container, whatever the
  addresses (IPv6 ones included), the node reads exactly the container port and host port of each
  line; the last line of a port counts.
\<close>
theorem docker_port_roundtrip:
  assumes "\<forall>(c, addr, p) \<in> set es. CHR 0x0A \<notin> set addr"
  shows "parse_docker_port (concat (map (\<lambda>e. port_line e @ [CHR 0x0A]) es)) =
    map_of (rev (map (\<lambda>(c, addr, p). (c, p)) es))"
proof -
  have "\<forall>w \<in> set (map port_line es). CHR 0x0A \<notin> set w \<and> w \<noteq> [] \<and> last w \<noteq> CHR 0x0D"
  proof
    fix w assume "w \<in> set (map port_line es)"
    then obtain c addr p where e: "(c, addr, p) \<in> set es" "w = port_line (c, addr, p)" by auto
    then have "CHR 0x0A \<notin> set addr" using assms by blast
    moreover have "last w \<noteq> CHR 0x0D" using port_line_last [of "(c, addr, p)"] e(2) by auto
    ultimately show "CHR 0x0A \<notin> set w \<and> w \<noteq> [] \<and> last w \<noteq> CHR 0x0D"
      using e(2) by (simp add: port_line_def)
  qed
  from text_lines_of [OF this] show ?thesis
    using parse_lines_fold [of es Map.empty] by (simp add: parse_docker_port_def comp_def)
qed

lemma docker_port_roundtrip_witness:
  "parse_docker_port (port_line (8080, ''127.0.0.1'', 49153) @ [CHR 0x0A] @ port_line (22, ''[::1]'', 49154) @ [CHR 0x0A]) 22
    = Some 49154"
  using docker_port_roundtrip [of "[(8080, ''127.0.0.1'', 49153), (22, ''[::1]'', 49154)]"] by simp

section \<open>Adopted VMs that were not counted\<close>

lemma adopt_line_refused:
  assumes a: "adopt_line env now line (self, rs, n) h = ((self', rs', Suc n), h')"
    and r: "allocate rs (adopt_resources (split_on CHR 0x09 line)) = Inl e"
  shows "rs' = rs \<and> (\<exists>rec. self' = vm_insert (split_on CHR 0x09 line ! 2) rec self \<and>
    vr_allocated rec = adopt_resources (split_on CHR 0x09 line))"
  using a r by (auto simp: adopt_line_def Let_def split: if_splits prod.splits sum.splits bool.splits)

text \<open>
  A VM that is adopted although its resources could not be reserved again is recorded as holding
  them: when it stops, what is handed back was never taken, so the reservations of others are freed.
\<close>

lemma adopted_vm_overfrees:
  assumes "adopt_line env now line (self, rs, n) h = ((self', rs', Suc n), h')"
    and "allocate rs (adopt_resources (split_on CHR 0x09 line)) = Inl e"
    and "resources_ok rs" and "bt_ok (adopt_resources (split_on CHR 0x09 line))"
    and "vm_stop env self' (split_on CHR 0x09 line ! 2) wipe h' = ((released, self''), h'')"
  shows "amt (r_allocated (release_resources rs' released)) k =
    amt (r_allocated rs) k - amt (adopt_resources (split_on CHR 0x09 line)) k"
  using adopt_line_refused [OF assms(1,2)] assms(3-5)
  by (auto simp: vm_stop_def vm_insert_def release_effect split: prod.splits)

end
