(* ===== verification/Payments.thy ===== *)
theory Payments
  imports Signatures Escrow_Theorems
begin

text \<open>
  Verification of a funded escrow by the provider, \<open>crates/cloudiy/src/payments.rs\<close>: parsing the
  bytes of the on-chain \<open>Job\<close> account, the margin before the deadline, the window of the run
  authorization, and \<open>verify_escrow\<close>. The RPC endpoint, base64, base58 and the ed25519 code are
  dependencies. Error messages are constructors that carry the values the text shows.
\<close>

section \<open>Parsing the account\<close>

record escrow_job =
  ej_job_id :: bytes
  ej_consumer :: bytes
  ej_provider :: bytes
  ej_mint :: bytes
  ej_amount :: u64
  ej_deadline :: i64
  ej_state :: u8

datatype payment_error =
    AccountTooSmall | DeadlineTooNear i64 i64 | AuthExpired | AuthTooFar
  | RpcFailed string | NoSuchAccount | WrongOwner | NoData | BadBase64 | NotActiveEscrow
  | JobIdMismatch | OtherProvider | WrongMint | Underfunded u64 u64 | MissingConsumerSig
  | SigNotHex | SigBadLength | BadConsumerKey | BadConsumerSig

definition DISCRIMINATOR :: nat where
  "DISCRIMINATOR = 8"

definition JOB_LEN :: nat where
  "JOB_LEN = DISCRIMINATOR + 16 + 32 + 32 + 32 + 8 + 8 + 1 + 1"

definition parse_job :: "bytes \<Rightarrow> payment_error + escrow_job" where
  "parse_job data =
     (if length data < JOB_LEN then Inl AccountTooSmall
      else
        let o1 = DISCRIMINATOR; job_id = slice data o1 (o1 + 16);
            o2 = o1 + 16; consumer = slice data o2 (o2 + 32);
            o3 = o2 + 32; provider = slice data o3 (o3 + 32);
            o4 = o3 + 32; mint = slice data o4 (o4 + 32);
            o5 = o4 + 32; amount = from_le_bytes (slice data o5 (o5 + 8));
            o6 = o5 + 8; deadline = from_le_bytes (slice data o6 (o6 + 8));
            o7 = o6 + 8; state = data ! o7 in
        Inr \<lparr>ej_job_id = job_id, ej_consumer = consumer, ej_provider = provider, ej_mint = mint,
             ej_amount = amount, ej_deadline = deadline, ej_state = state\<rparr>)"

section \<open>The checks\<close>

definition RUN_AUTH_MAX_WINDOW_SECS :: i64 where
  "RUN_AUTH_MAX_WINDOW_SECS = 3600"

text \<open>The subtraction wraps, as in the release build.\<close>

definition deadline_has_margin :: "i64 \<Rightarrow> i64 \<Rightarrow> i64 \<Rightarrow> payment_error + unit" where
  "deadline_has_margin deadline now min_remaining_secs =
     (if sint (deadline - now) < sint min_remaining_secs
      then Inl (DeadlineTooNear (deadline - now) min_remaining_secs) else Inr ())"

definition auth_within_window :: "i64 \<Rightarrow> i64 \<Rightarrow> payment_error + unit" where
  "auth_within_window auth_expiry now =
     (if sint auth_expiry < sint now then Inl AuthExpired
      else if sint RUN_AUTH_MAX_WINDOW_SECS < sint (s_saturating_sub auth_expiry now) then Inl AuthTooFar
      else Inr ())"

record rpc_account =
  ra_owner :: "string option"
  ra_data_b64 :: "string option"

record ('k, 's) chain_env =
  ce_crypto :: "('k, 's) crypto"
  ce_fetch :: "string \<Rightarrow> string \<Rightarrow> string + rpc_account option"
  ce_b64_decode :: "string \<Rightarrow> bytes option"
  ce_b58_encode :: "bytes \<Rightarrow> string"

definition fetch_job :: "('k, 's) chain_env \<Rightarrow> string \<Rightarrow> string \<Rightarrow> string \<Rightarrow> payment_error + escrow_job" where
  "fetch_job env rpc_url escrow_account program_id =
     rbind (case ce_fetch env rpc_url escrow_account of
              Inl e \<Rightarrow> Inl (RpcFailed e) | Inr None \<Rightarrow> Inl NoSuchAccount | Inr (Some a) \<Rightarrow> Inr a) (\<lambda>acc.
     rbind (require ((case ra_owner acc of None \<Rightarrow> [] | Some w \<Rightarrow> w) = program_id) WrongOwner) (\<lambda>_.
     rbind (ok_or (ra_data_b64 acc) NoData) (\<lambda>data_b64.
     rbind (ok_or (ce_b64_decode env data_b64) BadBase64) (\<lambda>raw.
     parse_job raw))))"

definition verify_escrow ::
  "('k, 's) chain_env \<Rightarrow> string \<Rightarrow> string \<Rightarrow> string \<Rightarrow> string \<Rightarrow> string \<Rightarrow> u64 \<Rightarrow> bytes \<Rightarrow> i64 \<Rightarrow>
   string option \<Rightarrow> bytes \<Rightarrow> i64 \<Rightarrow> i64 \<Rightarrow> payment_error + u64" where
  "verify_escrow env rpc_url escrow_account program_id expected_provider expected_mint min_amount
       job_id_bytes min_remaining_secs consumer_sig_hex input auth_expiry now =
     (let cr = ce_crypto env in
     rbind (fetch_job env rpc_url escrow_account program_id) (\<lambda>job.
     rbind (require (ej_state job = 0) NotActiveEscrow) (\<lambda>_.
     rbind (require (ej_job_id job = job_id_bytes) JobIdMismatch) (\<lambda>_.
     rbind (require (ce_b58_encode env (ej_provider job) = expected_provider) OtherProvider) (\<lambda>_.
     rbind (require (ce_b58_encode env (ej_mint job) = expected_mint) WrongMint) (\<lambda>_.
     rbind (require (min_amount \<le> ej_amount job) (Underfunded (ej_amount job) min_amount)) (\<lambda>_.
     rbind (deadline_has_margin (ej_deadline job) now min_remaining_secs) (\<lambda>_.
     rbind (ok_or consumer_sig_hex MissingConsumerSig) (\<lambda>sig_hex.
     rbind (ok_or (cr_hex_decode cr sig_hex) SigNotHex) (\<lambda>sig_bytes.
     rbind (ok_or (cr_sig_of_bytes cr sig_bytes) SigBadLength) (\<lambda>sig.
     rbind (ok_or (cr_key_of_bytes cr (ej_consumer job)) BadConsumerKey) (\<lambda>consumer_key.
     rbind (auth_within_window auth_expiry now) (\<lambda>_.
     rbind (require (cr_verify cr consumer_key (run_auth_message cr job_id_bytes input auth_expiry) sig)
              BadConsumerSig) (\<lambda>_.
     Inr (ej_amount job)))))))))))))))"

section \<open>The account the contract writes\<close>

text \<open>
  Anchor stores an account as an 8-byte discriminator followed by the fields of the struct in order
  (Borsh: integers in little endian, enum variants as one byte).
\<close>

fun state_byte :: "job_state \<Rightarrow> u8" where
  "state_byte Active = 0"
| "state_byte Released = 1"
| "state_byte Refunded = 2"

definition job_account_bytes :: "bytes \<Rightarrow> job \<Rightarrow> bytes" where
  "job_account_bytes disc j =
     disc @ job_id j @ job_consumer j @ job_provider j @ job_mint j @ to_le_bytes (job_amount j) @
     to_le_bytes (job_deadline j) @ [state_byte (job_state j)] @ [job_bump j] @
     job_provider_node_key j @ job_storage_payee j @ to_le_bytes (job_storage_bps j) @
     job_author_payee j @ to_le_bytes (job_author_bps j) @ to_le_bytes (job_created_at j)"

definition job_sizes :: "bytes \<Rightarrow> job \<Rightarrow> bool" where
  "job_sizes disc j \<longleftrightarrow> length disc = 8 \<and> length (job_id j) = 16 \<and> length (job_consumer j) = 32 \<and>
     length (job_provider j) = 32 \<and> length (job_mint j) = 32"

definition view_of_job :: "job \<Rightarrow> escrow_job" where
  "view_of_job j = \<lparr>ej_job_id = job_id j, ej_consumer = job_consumer j, ej_provider = job_provider j,
     ej_mint = job_mint j, ej_amount = job_amount j, ej_deadline = job_deadline j,
     ej_state = state_byte (job_state j)\<rparr>"

lemma slice_append_skip: "length xs \<le> a \<Longrightarrow> slice (xs @ ys) a b = slice ys (a - length xs) (b - length xs)"
  by (simp add: slice_def)

lemma slice_append_take: "length xs = b \<Longrightarrow> slice (xs @ ys) 0 b = xs"
  by (simp add: slice_def)

lemma from_to_le_u64 [simp]: "from_le_bytes (to_le_bytes (w :: u64)) = w"
  by (rule from_to_le_bytes) simp

lemma parse_job_roundtrip':
  assumes "job_sizes disc j"
  shows "parse_job (job_account_bytes disc j) = Inr (view_of_job j)"
proof -
  let ?d = "job_account_bytes disc j"
  have l: "length disc = 8" "length (job_id j) = 16" "length (job_consumer j) = 32"
    "length (job_provider j) = 32" "length (job_mint j) = 32"
    using assms by (simp_all add: job_sizes_def)
  have big: "\<not> length ?d < JOB_LEN" by (simp add: job_account_bytes_def JOB_LEN_def DISCRIMINATOR_def l)
  have s: "slice ?d 8 24 = job_id j" "slice ?d 24 56 = job_consumer j" "slice ?d 56 88 = job_provider j"
    "slice ?d 88 120 = job_mint j" "slice ?d 120 128 = to_le_bytes (job_amount j)"
    "slice ?d 128 136 = to_le_bytes (job_deadline j)" "?d ! 136 = state_byte (job_state j)"
    by (simp_all add: job_account_bytes_def slice_append_skip slice_append_take l nth_append)
  show ?thesis
    using big s by (simp add: parse_job_def DISCRIMINATOR_def Let_def view_of_job_def)
qed

text \<open>
  Provider and contract agree on the account. Whatever job the contract stores, the provider's
  hand-written parser reads back exactly its identifier, parties, mint, amount, deadline and state.
\<close>
theorem parse_job_roundtrip:
  assumes "job_sizes disc j"
  shows "parse_job (job_account_bytes disc j) = Inr (view_of_job j)"
  by (rule parse_job_roundtrip' [OF assms])

lemma demo_sizes: "job_sizes (replicate 8 0) demo_job"
  by (simp add: job_sizes_def demo_job_def demo_id_def demo_consumer_def demo_provider_def demo_mint_def)

lemma parse_job_roundtrip_witness:
  "parse_job (job_account_bytes (replicate 8 0) demo_job) = Inr (view_of_job demo_job)"
  by (rule parse_job_roundtrip [OF demo_sizes])

section \<open>What a verified escrow guarantees\<close>

lemma deadline_has_margin_ok:
  assumes "0 \<le> sint deadline" "0 \<le> sint now"
  shows "deadline_has_margin deadline now m = Inr u \<longleftrightarrow> sint m \<le> sint deadline - sint now"
proof -
  have f: "s_fits TYPE(64) (sint deadline - sint now)"
    using assms sint_lt [of deadline] sint_lt [of now] by (simp add: s_fits_def s_min_def s_max_def)
  have "deadline - now = word_of_int (sint deadline - sint now)" by simp
  then have "sint (deadline - now) = sint deadline - sint now"
    by (simp only: sint_word_of_int_fits [OF f])
  then show ?thesis by (auto simp: deadline_has_margin_def)
qed

lemma auth_within_window_ok:
  "auth_within_window e now = Inr u \<longleftrightarrow> sint now \<le> sint e \<and> sint e \<le> sint now + 3600"
  using saturating_within [of 3600 e now]
  by (auto simp: auth_within_window_def RUN_AUTH_MAX_WINDOW_SECS_def)

text \<open>The RPC endpoint serves the account of the job \<open>j\<close>, as the contract wrote it.\<close>

definition serves_job :: "('k, 's) chain_env \<Rightarrow> string \<Rightarrow> string \<Rightarrow> string \<Rightarrow> bytes \<Rightarrow> job \<Rightarrow> bool" where
  "serves_job env rpc_url account program disc j \<longleftrightarrow>
     (case ce_fetch env rpc_url account of
        Inr (Some a) \<Rightarrow> ra_owner a = Some program \<and>
          (case ra_data_b64 a of None \<Rightarrow> False
           | Some d \<Rightarrow> ce_b64_decode env d = Some (job_account_bytes disc j))
      | _ \<Rightarrow> False)"

lemma fetch_job_serves:
  assumes "serves_job env rpc account program disc j" "job_sizes disc j"
  shows "fetch_job env rpc account program = Inr (view_of_job j)"
  using assms by (auto simp: serves_job_def fetch_job_def parse_job_roundtrip' split: sum.splits option.splits)

text \<open>
  C6. A provider that starts a verified run can be paid. If the escrow verification succeeds against
  the account of a job on the chain, then the returned amount is what the job's vault covers, at least
  the price, for this provider; the escrow's own consumer signed for exactly this job, input and
  expiry, at most an hour ahead; and before the required time has passed nobody but the provider can
  have the escrow refunded.
\<close>
theorem verified_escrow_is_safe:
  assumes laws: "spl_laws rt" "pda_laws rt" and w: "chain_reachable rt w" and job: "w_jobs w jk = Some j"
    and sizes: "job_sizes disc j" and serves: "serves_job env rpc account program disc j"
    and clocks: "0 \<le> sint now" "0 \<le> sint (job_created_at j)"
    and ok: "verify_escrow env rpc account program provider mint min_amount jid m sig input expiry now = Inr amount"
  shows "amount = job_amount j \<and> min_amount \<le> amount \<and> job_id j = jid \<and>
     ce_b58_encode env (job_provider j) = provider \<and>
     unat amount \<le> bal (w_tokens w) (vault_of rt jk) \<and>
     (\<exists>k s. cr_key_of_bytes (ce_crypto env) (job_consumer j) = Some k \<and>
        cr_verify (ce_crypto env) k (run_auth_message (ce_crypto env) jid input expiry) s) \<and>
     sint now \<le> sint expiry \<and> sint expiry \<le> sint now + 3600 \<and>
     (\<forall>t signer. sint (job_created_at j) \<le> sint t \<longrightarrow> sint t < sint now + sint m \<longrightarrow>
        refund_allowed signer t j \<longrightarrow> signer = job_provider j)"
proof -
  note inv = escrow_invD [OF chain_reachable_inv [OF laws w] job]
  have dl: "0 \<le> sint (job_deadline j)" using inv clocks by (simp add: job_ok_def)
  obtain v where "w_tokens w (vault_of rt jk) = Some v" "unat (job_amount j) \<le> unat (ta_amount v)"
    using inv by (auto simp: funded_def split: option.splits)
  then have vault: "unat (job_amount j) \<le> bal (w_tokens w) (vault_of rt jk)" by (simp add: bal_def)
  note ok' = ok [unfolded verify_escrow_def Let_def fetch_job_serves [OF serves sizes] rbind_simps result_iff]
  have a: "amount = job_amount j" "min_amount \<le> job_amount j" "job_id j = jid"
    "ce_b58_encode env (job_provider j) = provider"
    using ok' by (auto simp: view_of_job_def)
  have e: "sint now \<le> sint expiry \<and> sint expiry \<le> sint now + 3600"
    using ok' unfolding auth_within_window_ok by blast
  have s: "\<exists>k s. cr_key_of_bytes (ce_crypto env) (job_consumer j) = Some k \<and>
        cr_verify (ce_crypto env) k (run_auth_message (ce_crypto env) jid input expiry) s"
    using ok' by (auto simp: view_of_job_def)
  have d: "sint m \<le> sint (job_deadline j) - sint now"
    using ok' deadline_has_margin_ok [OF dl clocks(1), of m] by (auto simp: view_of_job_def)
  have "signer = job_provider j"
    if "sint (job_created_at j) \<le> sint t" "sint t < sint now + sint m" "refund_allowed signer t j" for t signer
    using that d by (auto simp: refund_allowed_def Let_def CHALLENGE_WINDOW_SECS_def)
  with a e s vault show ?thesis by simp
qed

definition demo_env :: "(string, bytes) chain_env" where
  "demo_env = \<lparr>ce_crypto = toy_crypto\<lparr>cr_verify := (\<lambda>_ _ _. True)\<rparr>,
     ce_fetch = (\<lambda>_ _. Inr (Some \<lparr>ra_owner = Some ''prog'', ra_data_b64 = Some ''data''\<rparr>)),
     ce_b64_decode = (\<lambda>_. Some (job_account_bytes (replicate 8 0) demo_job)),
     ce_b58_encode = map (\<lambda>x. char_of (unat x))\<rparr>"

lemma demo_serves: "serves_job demo_env rpc acc ''prog'' (replicate 8 0) demo_job"
  by (simp add: serves_job_def demo_env_def)

lemma demo_verified_amount:
  "verify_escrow demo_env rpc acc ''prog'' (ce_b58_encode demo_env (job_provider demo_job))
     (ce_b58_encode demo_env (job_mint demo_job)) 500 (job_id demo_job) 420 (Some ''sig'') inp 2000 1000
   = Inr 1000000"
proof -
  have f: "fetch_job demo_env rpc acc ''prog'' = Inr (view_of_job demo_job)"
    by (rule fetch_job_serves [OF demo_serves demo_sizes])
  have d: "deadline_has_margin (job_deadline demo_job) 1000 420 = Inr ()"
    by (simp add: deadline_has_margin_ok demo_job_def)
  have a: "auth_within_window 2000 1000 = Inr ()" by (simp add: auth_within_window_ok)
  show ?thesis
    unfolding verify_escrow_def Let_def f
    using d a by (simp add: view_of_job_def) (simp add: demo_job_def demo_env_def toy_crypto_def)
qed

lemma verified_escrow_is_safe_witness:
  "unat (1000000 :: u64) \<le> bal (w_tokens (demo_live 1000000 1000)) (vault_of ledger_runtime (cc_job demo_ctx)) \<and>
   \<not> refund_allowed (job_consumer demo_job) 1419 demo_job"
proof -
  have job: "w_jobs (demo_live 1000000 1000) (cc_job demo_ctx) = Some demo_job" by (simp add: demo_live_def)
  have "job_consumer demo_job \<noteq> job_provider demo_job"
    by (simp add: demo_job_def demo_consumer_def demo_provider_def)
  moreover have "sint (job_created_at demo_job) = 1000" by (simp add: demo_job_def)
  ultimately have s: "1000000 \<le> bal (w_tokens (demo_live 1000000 1000)) (vault_of ledger_runtime (cc_job demo_ctx))"
    "\<forall>t. 1000 \<le> sint t \<longrightarrow> sint t < 1420 \<longrightarrow>
       (\<forall>signer. refund_allowed signer t demo_job \<longrightarrow> signer = job_provider demo_job)"
    using verified_escrow_is_safe [OF ledger_laws demo_reachable job demo_sizes demo_serves _ _ demo_verified_amount]
    by simp_all
  from spec [OF s(2), of 1419] s(1) \<open>job_consumer demo_job \<noteq> job_provider demo_job\<close>
  show ?thesis by auto
qed

end
