(* ===== verification/Bounded_Stores.thy ===== *)
theory Bounded_Stores
  imports Ordered_Map
begin

text \<open>
  The bounded memories of a node (\<open>JobStore\<close> and \<open>ServedEscrows\<close> in \<open>crates/cloudiy/src/core.rs\<close>):
  first-in first-out stores keyed by a string, and the contract they share. The receipts file of the
  job store is the list of the receipts in it (writing is taken to succeed).
\<close>

section \<open>The contract\<close>

text \<open>\<open>keys\<close> lists the remembered keys, the oldest first.\<close>

locale bounded_fifo =
  fixes key_of :: "'a \<Rightarrow> 'k" and keys :: "'s \<Rightarrow> 'k list" and put :: "'a \<Rightarrow> 's \<Rightarrow> 's"
    and cap :: nat and ok :: "'s \<Rightarrow> bool"
  assumes cap_pos: "0 < cap"
    and ok_distinct: "ok s \<Longrightarrow> distinct (keys s) \<and> length (keys s) \<le> cap"
    and ok_put: "ok s \<Longrightarrow> ok (put x s)"
    and keys_put: "ok s \<Longrightarrow> keys (put x s) =
      (if key_of x \<in> set (keys s) then keys s
       else if length (keys s) < cap then keys s @ [key_of x] else tl (keys s) @ [key_of x])"
begin

definition holds :: "'k \<Rightarrow> 's \<Rightarrow> bool" where
  "holds k s \<longleftrightarrow> k \<in> set (keys s)"

definition put_all :: "'a list \<Rightarrow> 's \<Rightarrow> 's" where
  "put_all xs s = fold put xs s"

lemma put_all_ok: "ok s \<Longrightarrow> ok (put_all xs s)"
  by (induction xs arbitrary: s) (auto simp: put_all_def ok_put)

lemma holds_put: "ok s \<Longrightarrow> holds (key_of x) (put x s)"
  by (simp add: holds_def keys_put)

text \<open>A key is only forgotten after \<open>cap\<close> items have been put in after it.\<close>

lemma put_suffix:
  assumes "ok s" and "keys s = xs @ k # ys" and "length ys < cap - 1"
  shows "\<exists>xs' ys'. keys (put x s) = xs' @ k # ys' \<and> length ys' \<le> Suc (length ys)"
proof (cases "key_of x \<in> set (keys s)")
  case True
  with assms have "keys (put x s) = xs @ k # ys" by (simp add: keys_put)
  then show ?thesis by (intro exI [of _ xs] exI [of _ ys]) simp
next
  case False
  show ?thesis
  proof (cases "length (keys s) < cap")
    case True
    with False assms have "keys (put x s) = xs @ k # (ys @ [key_of x])" by (simp add: keys_put)
    then show ?thesis by (intro exI [of _ xs] exI [of _ "ys @ [key_of x]"]) simp
  next
    case full: False
    with assms(1) ok_distinct have "length (keys s) = cap" by fastforce
    with assms(2,3) have "xs \<noteq> []" by auto
    then obtain z xs0 where "xs = z # xs0" by (cases xs) auto
    with False full assms have "keys (put x s) = xs0 @ k # (ys @ [key_of x])" by (simp add: keys_put)
    then show ?thesis by (intro exI [of _ xs0] exI [of _ "ys @ [key_of x]"]) simp
  qed
qed

lemma remembered:
  assumes "ok s" and "keys s = xs @ k # ys" and "length ys + length zs < cap"
  shows "holds k (put_all zs s)"
  using assms
proof (induction zs arbitrary: s xs ys)
  case Nil
  then show ?case by (simp add: put_all_def holds_def)
next
  case (Cons z zs)
  have "length ys < cap - 1" using Cons.prems(3) by simp
  with put_suffix [OF Cons.prems(1,2), of z] obtain xs' ys' where
    k: "keys (put z s) = xs' @ k # ys'" "length ys' \<le> Suc (length ys)" by blast
  from Cons.IH [OF ok_put [OF Cons.prems(1)] k(1)] k(2) Cons.prems(3) show ?case
    by (simp add: put_all_def)
qed

lemma put_remembered:
  assumes "ok s" and "key_of x \<notin> set (keys s)" and "length zs < cap"
  shows "holds (key_of x) (put_all zs (put x s))"
proof -
  have "keys (put x s) = (if length (keys s) < cap then keys s else tl (keys s)) @ key_of x # []"
    using assms by (simp add: keys_put)
  from remembered [OF ok_put [OF assms(1)] this] assms(3) show ?thesis by simp
qed

end

section \<open>Served escrows\<close>

record served_escrows =
  se_seen :: "string list"
  se_order :: "string list"

definition MAX_SERVED_ESCROWS :: nat where
  "MAX_SERVED_ESCROWS = 4096"

definition served_empty :: served_escrows where
  "served_empty = \<lparr>se_seen = [], se_order = []\<rparr>"

definition served_contains :: "served_escrows \<Rightarrow> string \<Rightarrow> bool" where
  "served_contains s escrow \<longleftrightarrow> escrow \<in> set (se_seen s)"

text \<open>The eviction loop; it pops while the queue is too long.\<close>

fun served_evict :: "string list \<Rightarrow> string list \<Rightarrow> served_escrows" where
  "served_evict seen [] = \<lparr>se_seen = seen, se_order = []\<rparr>"
| "served_evict seen (oldest # order) =
     (if MAX_SERVED_ESCROWS < Suc (length order) then served_evict (removeAll oldest seen) order
      else \<lparr>se_seen = seen, se_order = oldest # order\<rparr>)"

definition served_insert :: "string \<Rightarrow> served_escrows \<Rightarrow> served_escrows" where
  "served_insert escrow s =
     (if served_contains s escrow then s
      else served_evict (escrow # se_seen s) (se_order s @ [escrow]))"

definition served_ok :: "served_escrows \<Rightarrow> bool" where
  "served_ok s \<longleftrightarrow> distinct (se_order s) \<and> set (se_seen s) = set (se_order s) \<and>
     length (se_order s) \<le> MAX_SERVED_ESCROWS"

lemma served_evict_fits: "length order \<le> MAX_SERVED_ESCROWS \<Longrightarrow>
    served_evict seen order = \<lparr>se_seen = seen, se_order = order\<rparr>"
  by (cases order) auto

lemma served_insert_cases:
  assumes "served_ok s" and "\<not> served_contains s k"
  shows "served_insert k s =
    (if length (se_order s) < MAX_SERVED_ESCROWS then \<lparr>se_seen = k # se_seen s, se_order = se_order s @ [k]\<rparr>
     else \<lparr>se_seen = removeAll (hd (se_order s)) (k # se_seen s), se_order = tl (se_order s) @ [k]\<rparr>)"
proof (cases "length (se_order s) < MAX_SERVED_ESCROWS")
  case True
  with assms show ?thesis by (simp add: served_insert_def served_evict_fits)
next
  case False
  with assms have l: "length (se_order s) = MAX_SERVED_ESCROWS" by (simp add: served_ok_def)
  then obtain x xs where x: "se_order s = x # xs"
    by (cases "se_order s") (auto simp: MAX_SERVED_ESCROWS_def)
  have "length (xs @ [k]) \<le> MAX_SERVED_ESCROWS" "MAX_SERVED_ESCROWS < Suc (length (xs @ [k]))"
    using l x by simp_all
  with assms False x show ?thesis by (simp add: served_insert_def served_evict_fits)
qed

interpretation served: bounded_fifo "\<lambda>k. k" se_order served_insert MAX_SERVED_ESCROWS served_ok
proof
  show "0 < MAX_SERVED_ESCROWS" by (simp add: MAX_SERVED_ESCROWS_def)
  fix s k assume ok: "served_ok s"
  then show "distinct (se_order s) \<and> length (se_order s) \<le> MAX_SERVED_ESCROWS"
    by (simp add: served_ok_def)
  have c: "served_contains s k \<longleftrightarrow> k \<in> set (se_order s)" using ok by (simp add: served_contains_def served_ok_def)
  show "se_order (served_insert k s) =
      (if k \<in> set (se_order s) then se_order s
       else if length (se_order s) < MAX_SERVED_ESCROWS then se_order s @ [k] else tl (se_order s) @ [k])"
  proof (cases "k \<in> set (se_order s)")
    case True
    then show ?thesis using c by (simp add: served_insert_def)
  next
    case False
    then show ?thesis using served_insert_cases [OF ok] c by simp
  qed
  show "served_ok (served_insert k s)"
  proof (cases "k \<in> set (se_order s)")
    case True
    then show ?thesis using c ok by (simp add: served_insert_def)
  next
    case False
    then have i: "\<not> served_contains s k" using c by simp
    show ?thesis
    proof (cases "length (se_order s) < MAX_SERVED_ESCROWS")
      case True
      then show ?thesis using served_insert_cases [OF ok i] ok False by (simp add: served_ok_def)
    next
      case full: False
      then obtain x xs where x: "se_order s = x # xs"
        by (cases "se_order s") (auto simp: MAX_SERVED_ESCROWS_def)
      have "x \<noteq> k" using False x by auto
      then show ?thesis using served_insert_cases [OF ok i] full ok False x
        by (auto simp: served_ok_def)
    qed
  qed
qed

lemma served_contains_holds: "served_ok s \<Longrightarrow> served_contains s k \<longleftrightarrow> served.holds k s"
  by (simp add: served.holds_def served_contains_def served_ok_def)

lemma served_empty_ok: "served_ok served_empty"
  by (simp add: served_ok_def served_empty_def)

section \<open>The job store\<close>

record job_response =
  jr_job_id :: string
  jr_output :: bytes
  jr_status :: string
  jr_error :: "string option"
  jr_provider :: "string option"
  jr_receipt :: "string option"
  jr_signature :: "string option"
  jr_signed_by :: "string option"

record job_store =
  js_map :: "string \<Rightarrow> job_response option"
  js_order :: "string list"
  js_log :: "job_response list option"
  js_appends :: nat

definition MAX_STORED_JOBS :: nat where
  "MAX_STORED_JOBS = 1024"

definition store_empty :: job_store where
  "store_empty = \<lparr>js_map = (\<lambda>_. None), js_order = [], js_log = None, js_appends = 0\<rparr>"

text \<open>
  The number of stored jobs is the number of queued ids (\<open>js_ok\<close> below), which is what the loop
  \<open>while map.len() > MAX\<close> compares.
\<close>

fun js_evict :: "job_store \<Rightarrow> string list \<Rightarrow> job_store" where
  "js_evict s [] = s\<lparr>js_order := []\<rparr>"
| "js_evict s (oldest # order) =
     (if MAX_STORED_JOBS < Suc (length order)
      then js_evict (s\<lparr>js_map := (js_map s)(oldest := None)\<rparr>) order
      else s\<lparr>js_order := oldest # order\<rparr>)"

definition js_remember :: "job_response \<Rightarrow> job_store \<Rightarrow> job_store" where
  "js_remember j s =
     (let order = (if js_map s (jr_job_id j) = None then js_order s @ [jr_job_id j] else js_order s) in
      js_evict (s\<lparr>js_map := (js_map s)(jr_job_id j \<mapsto> j)\<rparr>) order)"

definition receipt_of :: "job_response \<Rightarrow> job_response" where
  "receipt_of j = j\<lparr>jr_output := []\<rparr>"

definition js_compact :: "job_store \<Rightarrow> job_store" where
  "js_compact s =
     (case js_log s of None \<Rightarrow> s
      | Some _ \<Rightarrow> s\<lparr>js_log := Some (map receipt_of (List.map_filter (js_map s) (js_order s))), js_appends := 0\<rparr>)"

definition js_insert :: "job_response \<Rightarrow> job_store \<Rightarrow> job_store" where
  "js_insert j s =
     (let s1 = s\<lparr>js_log := map_option (\<lambda>l. l @ [receipt_of j]) (js_log s)\<rparr>;
          s2 = js_remember j s1 in
      if js_log s2 \<noteq> None then
        let s3 = s2\<lparr>js_appends := js_appends s2 + 1\<rparr> in
        if MAX_STORED_JOBS \<le> js_appends s3 then js_compact s3 else s3
      else s2)"

definition with_persistence :: "job_response list \<Rightarrow> job_store" where
  "with_persistence lines =
     js_compact (fold js_remember lines (store_empty\<lparr>js_log := Some lines\<rparr>))"

definition js_get :: "job_store \<Rightarrow> string \<Rightarrow> job_response option" where
  "js_get s job_id = js_map s job_id"

definition js_len :: "job_store \<Rightarrow> nat" where
  "js_len s = length (js_order s)"

definition js_ok :: "job_store \<Rightarrow> bool" where
  "js_ok s \<longleftrightarrow> distinct (js_order s) \<and> length (js_order s) \<le> MAX_STORED_JOBS \<and>
     dom (js_map s) = set (js_order s) \<and> (\<forall>k j. js_map s k = Some j \<longrightarrow> jr_job_id j = k)"

lemma js_ok_card: "js_ok s \<Longrightarrow> card (dom (js_map s)) = js_len s"
  by (simp add: js_ok_def js_len_def distinct_card)

lemma js_evict_fits: "length order \<le> MAX_STORED_JOBS \<Longrightarrow> js_evict s order = s\<lparr>js_order := order\<rparr>"
  by (cases order) auto

lemma js_remember_cases:
  assumes ok: "js_ok s"
  shows "js_remember j s =
    (if jr_job_id j \<in> set (js_order s) then s\<lparr>js_map := (js_map s)(jr_job_id j \<mapsto> j)\<rparr>
     else if length (js_order s) < MAX_STORED_JOBS
     then s\<lparr>js_map := (js_map s)(jr_job_id j \<mapsto> j), js_order := js_order s @ [jr_job_id j]\<rparr>
     else s\<lparr>js_map := ((js_map s)(jr_job_id j \<mapsto> j))(hd (js_order s) := None),
            js_order := tl (js_order s) @ [jr_job_id j]\<rparr>)"
proof -
  have n: "js_map s (jr_job_id j) = None \<longleftrightarrow> jr_job_id j \<notin> set (js_order s)"
    using ok by (auto simp: js_ok_def)
  have l: "length (js_order s) \<le> MAX_STORED_JOBS" using ok by (simp add: js_ok_def)
  show ?thesis
  proof (cases "jr_job_id j \<in> set (js_order s) \<or> length (js_order s) < MAX_STORED_JOBS")
    case True
    then show ?thesis using n l by (auto simp: js_remember_def js_evict_fits)
  next
    case False
    then have f: "length (js_order s) = MAX_STORED_JOBS" using l by simp
    then obtain x xs where x: "js_order s = x # xs"
      by (cases "js_order s") (auto simp: MAX_STORED_JOBS_def)
    have "length (xs @ [jr_job_id j]) \<le> MAX_STORED_JOBS" "MAX_STORED_JOBS < Suc (length (xs @ [jr_job_id j]))"
      using f x by simp_all
    then show ?thesis using False n x by (simp add: js_remember_def js_evict_fits)
  qed
qed

lemma js_ok_remember: "js_ok s \<Longrightarrow> js_ok (js_remember j s)"
proof -
  assume ok: "js_ok s"
  show ?thesis
  proof (cases "jr_job_id j \<in> set (js_order s) \<or> length (js_order s) < MAX_STORED_JOBS")
    case True
    then show ?thesis using ok by (auto simp: js_remember_cases js_ok_def)
  next
    case False
    then obtain x xs where x: "js_order s = x # xs"
      by (cases "js_order s") (auto simp: MAX_STORED_JOBS_def)
    then have "x \<noteq> jr_job_id j" using False by auto
    then show ?thesis using False ok x by (auto simp: js_remember_cases js_ok_def)
  qed
qed

lemma js_order_remember:
  "js_ok s \<Longrightarrow> js_order (js_remember j s) =
    (if jr_job_id j \<in> set (js_order s) then js_order s
     else if length (js_order s) < MAX_STORED_JOBS then js_order s @ [jr_job_id j]
     else tl (js_order s) @ [jr_job_id j])"
  by (simp add: js_remember_cases)

interpretation jobs: bounded_fifo jr_job_id js_order js_remember MAX_STORED_JOBS js_ok
  by unfold_locales (simp_all add: MAX_STORED_JOBS_def js_ok_remember js_order_remember,
      simp add: js_ok_def MAX_STORED_JOBS_def)

lemma js_ok_log [simp]: "js_ok (s\<lparr>js_log := l\<rparr>) = js_ok s" "js_ok (s\<lparr>js_appends := n\<rparr>) = js_ok s"
  by (simp_all add: js_ok_def)

lemma js_remember_log: "js_ok s \<Longrightarrow> js_log (js_remember j s) = js_log s \<and> js_appends (js_remember j s) = js_appends s"
  by (simp add: js_remember_cases)

lemma js_compact_core: "js_map (js_compact s) = js_map s" "js_order (js_compact s) = js_order s"
  by (simp_all add: js_compact_def split: option.splits)

lemma js_insert_core:
  assumes "js_ok s"
  shows "js_map (js_insert j s) = js_map (js_remember j s)" "js_order (js_insert j s) = js_order (js_remember j s)"
  using assms by (simp_all add: js_insert_def js_remember_cases Let_def js_compact_core)

lemma js_ok_insert: "js_ok s \<Longrightarrow> js_ok (js_insert j s)"
  using js_ok_remember [of s j] js_insert_core [of s j] by (simp add: js_ok_def)

interpretation receipts: bounded_fifo jr_job_id js_order js_insert MAX_STORED_JOBS js_ok
  by unfold_locales
    (simp_all add: js_ok_insert js_insert_core js_order_remember jobs.ok_distinct,
     simp add: MAX_STORED_JOBS_def)

text \<open>The receipts file: bounded, and never with a payload.\<close>

definition log_ok :: "job_store \<Rightarrow> bool" where
  "log_ok s \<longleftrightarrow> (case js_log s of None \<Rightarrow> True
     | Some l \<Rightarrow> length l \<le> MAX_STORED_JOBS + js_appends s \<and> js_appends s < MAX_STORED_JOBS \<and>
         (\<forall>r \<in> set l. jr_output r = []))"

lemma length_map_filter: "length (List.map_filter f xs) \<le> length xs"
  by (induction xs) (auto simp: List.map_filter_simps split: option.splits)

lemma log_ok_compact: "js_ok s \<Longrightarrow> log_ok (js_compact s)"
proof -
  assume "js_ok s"
  then have "length (List.map_filter (js_map s) (js_order s)) \<le> MAX_STORED_JOBS"
    using length_map_filter [of "js_map s" "js_order s"] by (simp add: js_ok_def)
  then show ?thesis
    by (auto simp: log_ok_def js_compact_def receipt_of_def MAX_STORED_JOBS_def split: option.splits)
qed

lemma log_ok_insert:
  assumes ok: "js_ok s" and log: "log_ok s"
  shows "log_ok (js_insert j s)"
proof (cases "js_log s")
  case None
  with ok show ?thesis by (simp add: js_insert_def js_remember_log log_ok_def Let_def)
next
  case (Some l)
  let ?s2 = "js_remember j (s\<lparr>js_log := Some (l @ [receipt_of j])\<rparr>)"
  let ?s3 = "?s2\<lparr>js_appends := js_appends ?s2 + 1\<rparr>"
  have ok2: "js_ok ?s3" using ok by (simp add: js_ok_remember)
  have l3: "js_log ?s3 = Some (l @ [receipt_of j])" "js_appends ?s3 = js_appends s + 1"
    using ok by (simp_all add: js_remember_log)
  have i: "js_insert j s = (if MAX_STORED_JOBS \<le> js_appends ?s3 then js_compact ?s3 else ?s3)"
    using Some ok by (simp add: js_insert_def js_remember_log Let_def)
  show ?thesis
  proof (cases "MAX_STORED_JOBS \<le> js_appends ?s3")
    case True
    then show ?thesis using i log_ok_compact [OF ok2] by simp
  next
    case False
    then show ?thesis unfolding i using log Some l3 by (simp add: log_ok_def receipt_of_def)
  qed
qed

lemma store_empty_ok: "js_ok store_empty"
  by (simp add: js_ok_def store_empty_def)

lemma with_persistence_ok: "js_ok (with_persistence lines)" "log_ok (with_persistence lines)"
proof -
  have "js_ok (fold js_remember lines (store_empty\<lparr>js_log := Some lines\<rparr>))"
    using jobs.put_all_ok [of "store_empty\<lparr>js_log := Some lines\<rparr>" lines]
    by (simp add: jobs.put_all_def store_empty_ok)
  then show "js_ok (with_persistence lines)" "log_ok (with_persistence lines)"
    using log_ok_compact by (simp_all add: with_persistence_def js_ok_def js_compact_core)
qed

lemma with_persistence_log: "js_log (with_persistence lines) \<noteq> None"
proof -
  have l: "js_ok s \<Longrightarrow> js_log (fold js_remember xs s) = js_log s" for xs s
    by (induction xs arbitrary: s) (simp_all add: js_ok_remember js_remember_log)
  have "js_log (fold js_remember lines (store_empty\<lparr>js_log := Some lines\<rparr>)) = Some lines"
    by (simp add: l store_empty_ok)
  then show ?thesis by (simp add: with_persistence_def js_compact_def)
qed

lemma js_insert_value:
  assumes "js_ok s" and "js_map (js_insert x s) k = Some v" and "k \<noteq> jr_job_id x"
  shows "js_map s k = Some v"
  using assms by (auto simp: js_insert_core js_remember_cases split: if_splits)

lemma js_inserts_value:
  assumes "js_ok s" and "js_map (fold js_insert xs s) k = Some v" and "k \<notin> jr_job_id ` set xs"
  shows "js_map s k = Some v"
  using assms
proof (induction xs arbitrary: s)
  case Nil
  then show ?case by simp
next
  case (Cons x xs)
  from Cons.IH [OF js_ok_insert [OF Cons.prems(1)]] Cons.prems
  have "js_map (js_insert x s) k = Some v" by simp
  with Cons.prems show ?case by (auto intro: js_insert_value)
qed

lemma js_insert_own:
  assumes "js_ok s" and "jr_job_id x \<notin> set (js_order s)"
  shows "js_map (js_insert x s) (jr_job_id x) = Some x"
proof (cases "length (js_order s) < MAX_STORED_JOBS")
  case True
  with assms show ?thesis by (simp add: js_insert_core js_remember_cases)
next
  case False
  then obtain y ys where "js_order s = y # ys"
    by (cases "js_order s") (auto simp: MAX_STORED_JOBS_def)
  with assms False show ?thesis by (auto simp: js_insert_core js_remember_cases)
qed

lemma log_oks: "js_ok s \<Longrightarrow> log_ok s \<Longrightarrow> js_ok (fold js_insert xs s) \<and> log_ok (fold js_insert xs s)"
  by (induction xs arbitrary: s) (simp_all add: js_ok_insert log_ok_insert)

lemma log_kept: "js_ok s \<Longrightarrow> js_log s \<noteq> None \<Longrightarrow> js_log (fold js_insert xs s) \<noteq> None"
proof (induction xs arbitrary: s)
  case Nil
  then show ?case by simp
next
  case (Cons x xs)
  have "js_log (js_insert x s) \<noteq> None"
    using Cons.prems by (auto simp: js_insert_def Let_def js_compact_def js_remember_log)
  with Cons show ?case by (simp add: js_ok_insert)
qed

text \<open>
  The job store is bounded and forgets only the oldest. From any receipts file and after any
  number of completed jobs, at most 1024 jobs are in memory, the receipts file holds fewer than 2048
  lines and no payload; and a new job that completes is found, with its response, as long as fewer
  than 1024 others have completed after it.
\<close>
theorem job_store_bounded:
  assumes s0: "s0 = fold js_insert earlier (with_persistence lines)"
    and s: "s = fold js_insert later (js_insert j s0)"
  shows "card (dom (js_map s)) \<le> 1024 \<and>
     (\<exists>l. js_log s = Some l \<and> length l < 2048 \<and> (\<forall>r \<in> set l. jr_output r = [])) \<and>
     (jr_job_id j \<notin> set (js_order s0) \<and> jr_job_id j \<notin> jr_job_id ` set later \<and> length later < 1024 \<longrightarrow>
       js_get s (jr_job_id j) = Some j)"
proof -
  have ok0: "js_ok s0" "log_ok s0" "js_log s0 \<noteq> None"
    using log_oks [OF with_persistence_ok] log_kept [OF with_persistence_ok(1) with_persistence_log]
    by (simp_all add: s0)
  have s': "s = fold js_insert (j # later) s0" by (simp add: s)
  have ok: "js_ok s" "log_ok s" "js_log s \<noteq> None"
    using log_oks [OF ok0(1,2), of "j # later"] log_kept [OF ok0(1,3), of "j # later"] unfolding s' by auto
  have "card (dom (js_map s)) \<le> 1024"
    using ok(1) js_ok_card [OF ok(1)] by (simp add: js_ok_def js_len_def MAX_STORED_JOBS_def)
  moreover have "\<exists>l. js_log s = Some l \<and> length l < 2048 \<and> (\<forall>r \<in> set l. jr_output r = [])"
    using ok(2,3) by (auto simp: log_ok_def MAX_STORED_JOBS_def)
  moreover have "js_get s (jr_job_id j) = Some j"
    if n: "jr_job_id j \<notin> set (js_order s0)" "jr_job_id j \<notin> jr_job_id ` set later" "length later < 1024"
  proof -
    have "receipts.holds (jr_job_id j) s"
      using receipts.put_remembered [OF ok0(1) n(1), of later] n(3)
      by (simp add: s receipts.put_all_def MAX_STORED_JOBS_def)
    then have "jr_job_id j \<in> dom (js_map s)" using ok(1) by (simp add: receipts.holds_def js_ok_def)
    then obtain v where v: "js_map s (jr_job_id j) = Some v" by blast
    then have "js_map (js_insert j s0) (jr_job_id j) = Some v"
      using js_inserts_value [OF js_ok_insert [OF ok0(1)]] n(2) by (simp add: s)
    then show ?thesis using v js_insert_own [OF ok0(1) n(1)] by (simp add: js_get_def)
  qed
  ultimately show ?thesis by blast
qed

definition demo_response :: "string \<Rightarrow> job_response" where
  "demo_response i = \<lparr>jr_job_id = i, jr_output = [1], jr_status = ''completed'', jr_error = None,
     jr_provider = None, jr_receipt = None, jr_signature = None, jr_signed_by = None\<rparr>"

lemma job_store_bounded_witness:
  "js_get (js_insert (demo_response ''b'') (js_insert (demo_response ''a'') (with_persistence []))) ''a''
     = Some (demo_response ''a'')"
proof -
  have e: "js_order (with_persistence []) = []"
    by (simp add: with_persistence_def js_compact_core store_empty_def)
  from job_store_bounded [of "with_persistence []" "[]" "[]" _ "[demo_response ''b'']" "demo_response ''a''"]
  show ?thesis by (simp add: e) (simp add: demo_response_def)
qed

text \<open>
  An escrow is remembered. After an escrow has been recorded as served, it is recognised as a
  replay until 4096 other escrows have been recorded after it, and never more than 4096 are kept.
\<close>
theorem served_remembered:
  assumes "served_ok s" and "\<not> served_contains s e" and "length later < 4096"
  shows "served_contains (fold served_insert later (served_insert e s)) e \<and>
     length (se_order (fold served_insert later (served_insert e s))) \<le> 4096"
proof -
  have "e \<notin> set (se_order s)" using assms by (simp add: served_contains_def served_ok_def)
  then have h: "served.holds e (fold served_insert later (served_insert e s))"
    using served.put_remembered [OF assms(1), of e later] assms(3)
    by (simp add: served.put_all_def MAX_SERVED_ESCROWS_def)
  have "served_ok (fold served_insert later (served_insert e s))"
    using served.put_all_ok [OF served.ok_put [OF assms(1)]] by (simp add: served.put_all_def)
  with h show ?thesis using served_contains_holds by (auto simp: served_ok_def MAX_SERVED_ESCROWS_def)
qed

lemma served_remembered_witness:
  "served_contains (served_insert ''y'' (served_insert ''x'' served_empty)) ''x''"
  using served_remembered [of served_empty "''x''" "[''y'']"]
  by (simp add: served_empty_ok) (simp add: served_empty_def served_contains_def)

end
