(* ===== verification/Json_Value.thy ===== *)
theory Json_Value
  imports Rust_Text Float64
begin

text \<open>
  JSON values as \<open>serde_json\<close> gives them: integers apart from other numbers, which keep their text, and
  objects as lists of fields; and the accessors the program uses. Reading the text of a number that is
  not an integer is a parameter of the one accessor that needs it.
\<close>

datatype json =
    JNull | JBool bool | JInt int | JReal string | JStr string
  | JArr "json list" | JObj "(string \<times> json) list"

fun json_get :: "string \<Rightarrow> json \<Rightarrow> json option" where
  "json_get k (JObj kvs) = map_of kvs k"
| "json_get k _ = None"

fun json_str :: "json \<Rightarrow> string option" where
  "json_str (JStr s) = Some s"
| "json_str _ = None"

fun json_i64 :: "json \<Rightarrow> i64 option" where
  "json_i64 (JInt i) = (if s_fits TYPE(64) i then Some (word_of_int i) else None)"
| "json_i64 _ = None"

fun json_set :: "string \<Rightarrow> json \<Rightarrow> json \<Rightarrow> json" where
  "json_set k v (JObj kvs) =
     JObj (if k \<in> set (map fst kvs) then map (\<lambda>(k', v'). (k', if k' = k then v else v')) kvs else kvs @ [(k, v)])"
| "json_set k v j = j"

definition jfield :: "json \<Rightarrow> string \<Rightarrow> json" where
  "jfield j k = (case json_get k j of Some v \<Rightarrow> v | None \<Rightarrow> JNull)"

definition jtext :: "json \<Rightarrow> string" where
  "jtext j = (case json_str j of Some s \<Rightarrow> s | None \<Rightarrow> '''')"

fun jfirst :: "json \<Rightarrow> json" where
  "jfirst (JArr (j # _)) = j"
| "jfirst _ = JNull"

text \<open>\<open>Value::pointer\<close>, by the segments of the path.\<close>

fun json_at :: "string list \<Rightarrow> json \<Rightarrow> json option" where
  "json_at [] j = Some j"
| "json_at (k # ks) (JObj kvs) = Option.bind (map_of kvs k) (json_at ks)"
| "json_at (k # ks) (JArr js) =
     Option.bind (parse_uint (2 ^ 64) k) (\<lambda>i. if i < length js then json_at ks (js ! i) else None)"
| "json_at (k # ks) _ = None"

fun json_u64 :: "json \<Rightarrow> u64 option" where
  "json_u64 (JInt i) = (if 0 \<le> i \<and> i < 2 ^ 64 then Some (word_of_int i) else None)"
| "json_u64 _ = None"

fun json_f64 :: "(string \<Rightarrow> f64) \<Rightarrow> json \<Rightarrow> f64 option" where
  "json_f64 parse (JInt i) = Some (to_f64 False (of_int i))"
| "json_f64 parse (JReal s) = Some (parse s)"
| "json_f64 parse _ = None"

text \<open>\<open>as_array\<close> and \<open>as_object\<close>, with nothing for other values.\<close>

fun json_items :: "json \<Rightarrow> json list" where
  "json_items (JArr js) = js"
| "json_items _ = []"

fun json_fields :: "json \<Rightarrow> (string \<times> json) list" where
  "json_fields (JObj kvs) = kvs"
| "json_fields _ = []"

definition json_strings :: "json \<Rightarrow> string list" where
  "json_strings j = List.map_filter json_str (json_items j)"

end
