(* ===== verification/Node.thy ===== *)
theory Node
  imports Payments Bounded_Stores Vm Json_Value
begin

text \<open>
  The node logic shared by the transports, \<open>crates/cloudiy/src/core.rs\<close>: the state of a provider,
  payment gating, kernel jobs, endpoint runs, workloads, the life of a tenant's VM and the limits on
  concurrency and rate. Base64, JSON text, UUIDs, the node's signing key, the workload runtimes and
  the endpoint workers are parameters. Where the code awaits an answer, the operation is cut in the
  parts that run without interruption, and composed again for the case without interleaving.
\<close>

section \<open>The state of a node and its environment\<close>

record job_request =
  rq_job_id :: string
  rq_kernel :: string
  rq_input_data :: bytes
  rq_auth_token :: string
  rq_consumer_pubkey :: "string option"
  rq_payment :: "string option"

datatype outcome = OutSucceeded | OutFailed "i32 option"

text \<open>
  An implementation of the \<open>Runtime\<close> trait for one workload; \<open>rt_wait\<close> gives the outcome and the
  seconds it takes.
\<close>

record workload_runtime =
  rt_name :: string
  rt_supports :: bool
  rt_prepare :: "workload_spec \<Rightarrow> string + unit"
  rt_run :: "string \<Rightarrow> workload_spec \<Rightarrow> string + string"
  rt_wait :: "string \<Rightarrow> (string + outcome) \<times> nat"
  rt_logs :: "string \<Rightarrow> string + string"

record ('k, 's) node_env =
  ne_chain :: "('k, 's) chain_env"
  ne_b64_encode :: "bytes \<Rightarrow> string"
  ne_json_parse :: "bytes \<Rightarrow> json option"
  ne_json_text :: "json \<Rightarrow> string"
  ne_uuid_parse :: "string \<Rightarrow> bytes option"
  ne_utf8 :: "bytes \<Rightarrow> string option"
  ne_sign :: "bytes \<Rightarrow> string"
  ne_docker :: "string option \<Rightarrow> bool \<Rightarrow> string option \<Rightarrow> workload_runtime"
  ne_endpoint :: "string \<Rightarrow> string \<Rightarrow> json"
  ne_vm :: vm_env

record app_state =
  as_gpu :: "(string \<Rightarrow> string \<Rightarrow> string + string) option"
  as_wgsl :: "workload_runtime option"
  as_jobs :: job_store
  as_busy :: nat
  as_sessions :: nat
  as_inbound :: nat
  as_token :: string
  as_endpoint_id :: string
  as_pubkey :: string
  as_gpu_model :: string
  as_vram_mb :: u64
  as_price :: u64
  as_price_per_hour :: u64
  as_usdc_mint :: string
  as_network :: string
  as_resources :: resources
  as_capabilities :: "capability list"
  as_vm :: vm_manager
  as_rpc_url :: "string option"
  as_require_payment :: bool
  as_escrow_program :: string
  as_container_runtime :: "string option"
  as_allow_runc_untrusted :: bool
  as_gpu_device :: "string option"
  as_served :: served_escrows

definition JOB_TIMEOUT_SECS :: nat where
  "JOB_TIMEOUT_SECS = 60"

definition MAX_CONCURRENT_JOBS :: nat where
  "MAX_CONCURRENT_JOBS = 4"

definition WORKLOAD_TIMEOUT_SECS :: u64 where
  "WORKLOAD_TIMEOUT_SECS = 300"

definition X402_FEE_BPS :: int where
  "X402_FEE_BPS = 400"

section \<open>Quotes, payments and status\<close>

text \<open>The comparison in constant time has the value of the comparison.\<close>

definition tokens_match :: "string \<Rightarrow> string \<Rightarrow> bool" where
  "tokens_match a b \<longleftrightarrow> as_bytes a = as_bytes b"

definition payment_requirements :: "app_state \<Rightarrow> json" where
  "payment_requirements st = JObj [
     (''x402Version'', JInt 1),
     (''error'', JStr ''X-PAYMENT header is required''),
     (''accepts'', JArr [JObj [
        (''scheme'', JStr ''exact''), (''network'', JStr (as_network st)),
        (''maxAmountRequired'', JStr (show_word (as_price st))), (''resource'', JStr ''/submit''),
        (''description'', JStr (''GPU job execution on '' @ as_gpu_model st)),
        (''mimeType'', JStr ''application/json''), (''payTo'', JStr (as_pubkey st)),
        (''maxTimeoutSeconds'', JInt 300), (''asset'', JStr (as_usdc_mint st)),
        (''extra'', JObj [(''escrowProgram'', JStr (as_escrow_program st)), (''feeBps'', JInt X402_FEE_BPS)])]])]"

definition payment_requirements_with_error :: "app_state \<Rightarrow> string \<Rightarrow> json" where
  "payment_requirements_with_error st e = json_set ''error'' (JStr e) (payment_requirements st)"

definition decode_payment :: "('k, 's) node_env \<Rightarrow> string \<Rightarrow> json option" where
  "decode_payment env raw =
     (if 8 * 1024 < length raw then None
      else Option.bind (ce_b64_decode (ne_chain env) raw) (ne_json_parse env))"

text \<open>The progress is an f32; both literals are whole numbers.\<close>

record status_response =
  sr_job_id :: string
  sr_status :: string
  sr_progress :: nat
  sr_provider :: "string option"

definition job_status :: "app_state \<Rightarrow> string \<Rightarrow> status_response" where
  "job_status st jid =
     (case js_get (as_jobs st) jid of
        Some job \<Rightarrow> \<lparr>sr_job_id = jid, sr_status = jr_status job,
          sr_progress = (if jr_status job = ''completed'' then 100 else 50), sr_provider = jr_provider job\<rparr>
      | None \<Rightarrow> \<lparr>sr_job_id = jid, sr_status = ''not_found'', sr_progress = 0, sr_provider = None\<rparr>)"

fun payment_error_text :: "payment_error \<Rightarrow> string" where
  "payment_error_text AccountTooSmall = ''escrow account too small to be a Job''"
| "payment_error_text (DeadlineTooNear left need) = ''escrow deadline too near ('' @ show_int (sint left) @
     ''s left, need '' @ show_int (sint need) @ ''s) - refund risk''"
| "payment_error_text AuthExpired = ''run authorization has expired''"
| "payment_error_text AuthTooFar = ''run authorization expiry is too far in the future''"
| "payment_error_text (RpcFailed e) = e"
| "payment_error_text NoSuchAccount = ''escrow account does not exist on-chain''"
| "payment_error_text WrongOwner = ''account is not owned by the escrow program''"
| "payment_error_text NoData = ''escrow account has no base64 data''"
| "payment_error_text BadBase64 = ''escrow data is not valid base64''"
| "payment_error_text NotActiveEscrow = ''escrow is not Active (already released or refunded)''"
| "payment_error_text JobIdMismatch = ''escrow job_id does not match this job''"
| "payment_error_text OtherProvider = ''escrow pays a different provider''"
| "payment_error_text WrongMint = ''escrow is funded in the wrong token (mint mismatch)''"
| "payment_error_text (Underfunded amount need) = ''escrow underfunded: '' @ show_word amount @ '' < '' @
     show_word need @ '' micro-USDC''"
| "payment_error_text MissingConsumerSig = ''missing consumer authorization signature''"
| "payment_error_text SigNotHex = ''consumer sig is not hex''"
| "payment_error_text SigBadLength = ''consumer sig is not 64 bytes''"
| "payment_error_text BadConsumerKey = ''escrow consumer is not a valid ed25519 key''"
| "payment_error_text BadConsumerSig = ''consumer authorization signature is invalid''"

fun resource_error_text :: "resource_error \<Rightarrow> string" where
  "resource_error_text (Insufficient kind requested avail) = ''insufficient '' @ kind_to_string kind @
     '': requested '' @ show_word requested @ '', available '' @ show_word avail"
| "resource_error_text (ShareExceedsTotal kind) = ''cannot share more than total for '' @ kind_to_string kind"

section \<open>Admission\<close>

text \<open>
  \<open>authorize\<close> awaits the answer of the chain: \<open>authorize_begin\<close> is what it does before, ending with a
  decision or with a verification to be made, \<open>authorize_end\<close> what it does with the answer.
\<close>

record pending =
  pd_rpc :: string
  pd_account :: string
  pd_job :: bytes
  pd_sig :: "string option"
  pd_input :: bytes
  pd_expiry :: i64
  pd_now :: i64

type_synonym admission = "json + (string \<times> u64)"

definition authorize_begin ::
  "('k, 's) node_env \<Rightarrow> app_state \<Rightarrow> job_request \<Rightarrow> string option \<Rightarrow> i64 \<Rightarrow> admission + pending" where
  "authorize_begin env st req payment_override now =
     (let payment = Option.bind (case payment_override of Some p \<Rightarrow> Some p | None \<Rightarrow> rq_payment req) (decode_payment env);
          escrow = Option.bind (Option.bind payment (json_get ''escrow'')) json_str;
          consumer_sig = Option.bind (Option.bind payment (json_get ''consumer_sig'')) json_str;
          auth_expiry = (case Option.bind (Option.bind payment (json_get ''expiry'')) json_i64 of Some e \<Rightarrow> e | None \<Rightarrow> 0) in
      case (escrow, as_rpc_url st) of
        (Some acct, Some rpc) \<Rightarrow>
          (case ne_uuid_parse env (rq_job_id req) of
             None \<Rightarrow> Inl (Inl (payment_requirements_with_error st ''job_id must be a UUID to bind an escrow''))
           | Some job_bytes \<Rightarrow>
               if served_contains (as_served st) acct
               then Inl (Inl (payment_requirements_with_error st ''escrow already consumed by a prior job (replay)''))
               else Inr \<lparr>pd_rpc = rpc, pd_account = acct, pd_job = job_bytes, pd_sig = consumer_sig,
                      pd_input = rq_input_data req, pd_expiry = auth_expiry, pd_now = now\<rparr>)
      | _ \<Rightarrow>
          if as_require_payment st
          then Inl (Inl (payment_requirements_with_error st
                 ''provider requires an on-chain escrow payment (attach `escrow`)''))
          else if payment \<noteq> None then Inl (Inr (''x402-demo'', 0))
          else if tokens_match (rq_auth_token req) (as_token st) then Inl (Inr (''dev-token'', 0))
          else Inl (Inl (payment_requirements st)))"

definition authorize_end :: "('k, 's) node_env \<Rightarrow> app_state \<Rightarrow> pending \<Rightarrow> admission \<times> app_state" where
  "authorize_end env st p =
     (case verify_escrow (ne_chain env) (pd_rpc p) (pd_account p) (as_escrow_program st) (as_pubkey st)
             (as_usdc_mint st) (as_price st) (pd_job p) (ucast WORKLOAD_TIMEOUT_SECS + 120) (pd_sig p)
             (pd_input p) (pd_expiry p) (pd_now p) of
        Inr amount \<Rightarrow>
          (Inr (''escrow-verified'', amount), st\<lparr>as_served := served_insert (pd_account p) (as_served st)\<rparr>)
      | Inl e \<Rightarrow> (Inl (payment_requirements_with_error st (payment_error_text e)), st))"

definition authorize ::
  "('k, 's) node_env \<Rightarrow> app_state \<Rightarrow> job_request \<Rightarrow> string option \<Rightarrow> i64 \<Rightarrow> admission \<times> app_state" where
  "authorize env st req payment_override now =
     (case authorize_begin env st req payment_override now of
        Inl decision \<Rightarrow> (decision, st) | Inr p \<Rightarrow> authorize_end env st p)"


section \<open>Responses\<close>

definition receipt_json :: "app_state \<Rightarrow> string \<Rightarrow> json" where
  "receipt_json st settled_via = JObj [(''success'', JBool True), (''network'', JStr (as_network st)),
     (''settledVia'', JStr settled_via), (''payee'', JStr (as_pubkey st))]"

definition sign_result :: "('k, 's) node_env \<Rightarrow> string \<Rightarrow> bytes \<Rightarrow> bytes \<Rightarrow> string" where
  "sign_result env jid input output = ne_sign env (signing_payload (ce_crypto (ne_chain env)) jid input output)"

definition signed_response ::
  "('k, 's) node_env \<Rightarrow> app_state \<Rightarrow> string \<Rightarrow> bytes \<Rightarrow> bytes \<Rightarrow> string \<Rightarrow> job_response" where
  "signed_response env st jid input output settled_via =
     \<lparr>jr_job_id = jid, jr_output = output, jr_status = ''completed'', jr_error = None,
      jr_provider = Some (as_pubkey st),
      jr_receipt = Some (ne_b64_encode env (as_bytes (ne_json_text env (receipt_json st settled_via)))),
      jr_signature = Some (sign_result env jid input output), jr_signed_by = Some (as_endpoint_id st)\<rparr>"

definition error_response :: "app_state \<Rightarrow> string \<Rightarrow> string \<Rightarrow> job_response" where
  "error_response st jid message =
     \<lparr>jr_job_id = jid, jr_output = [], jr_status = ''error'', jr_error = Some message,
      jr_provider = Some (as_pubkey st), jr_receipt = None, jr_signature = None, jr_signed_by = None\<rparr>"

definition remember_job :: "job_response \<Rightarrow> app_state \<Rightarrow> app_state" where
  "remember_job r st = st\<lparr>as_jobs := js_insert r (as_jobs st)\<rparr>"

datatype submit_outcome = Completed job_response | PaymentRequired json

section \<open>Kernel jobs\<close>

definition execute_on_gpu ::
  "('k, 's) node_env \<Rightarrow> (string \<Rightarrow> string \<Rightarrow> string + string) \<Rightarrow> string \<Rightarrow> bytes \<Rightarrow> string + string" where
  "execute_on_gpu env gpu kname input =
     rbind (ok_or (ne_utf8 env input) ''input must be UTF-8 text'') (\<lambda>text. gpu kname text)"

definition submit ::
  "('k, 's) node_env \<Rightarrow> app_state \<Rightarrow> job_request \<Rightarrow> string \<Rightarrow> submit_outcome \<times> app_state" where
  "submit env st req settled_via =
     (let result = (case as_gpu st of
             Some gpu \<Rightarrow> execute_on_gpu env gpu (rq_kernel req) (rq_input_data req)
           | None \<Rightarrow> Inl ''this node shares CPU/RAM only (no GPU) - submit a container workload instead'');
          response = (case result of
             Inr output \<Rightarrow> signed_response env st (rq_job_id req) (rq_input_data req) (as_bytes output) settled_via
           | Inl message \<Rightarrow> error_response st (rq_job_id req) message) in
      (Completed response, remember_job response st))"

text \<open>
  \<open>took\<close> is the number of seconds the job takes. A job that is cut loose still runs to its end and
  returns its permit then.
\<close>

definition acquire_permit :: "app_state \<Rightarrow> app_state option" where
  "acquire_permit st = (if as_busy st = 0 then None else Some (st\<lparr>as_busy := as_busy st - 1\<rparr>))"

definition drop_permit :: "app_state \<Rightarrow> app_state" where
  "drop_permit st = st\<lparr>as_busy := as_busy st + 1\<rparr>"

definition submit_guarded ::
  "('k, 's) node_env \<Rightarrow> app_state \<Rightarrow> job_request \<Rightarrow> string option \<Rightarrow> i64 \<Rightarrow> nat \<Rightarrow>
   (string + submit_outcome) \<times> app_state" where
  "submit_guarded env st req payment_override now took =
     (case authorize env st req payment_override now of
        (Inl requirements, st1) \<Rightarrow> (Inr (PaymentRequired requirements), st1)
      | (Inr (settled_via, amount), st1) \<Rightarrow>
         (case acquire_permit st1 of
            None \<Rightarrow> (Inl ''node busy - try again shortly'', st1)
          | Some st2 \<Rightarrow>
             (case submit env st2 req settled_via of
                (out, st3) \<Rightarrow>
                  (if JOB_TIMEOUT_SECS < took then Inl (''job timed out after '' @ show_nat JOB_TIMEOUT_SECS @ ''s'')
                   else Inr out, drop_permit st3))))"

section \<open>Endpoint runs\<close>

type_synonym rate_hits = "string \<Rightarrow> nat list"

definition RATE_WINDOW :: nat where
  "RATE_WINDOW = 60 * 10 ^ 9"

definition MAX_PER_WINDOW :: nat where
  "MAX_PER_WINDOW = 30"

text \<open>Instants are nanoseconds; \<open>duration_since\<close> is zero when the other instant is later.\<close>

definition endpoint_rate_ok :: "rate_hits \<Rightarrow> string \<Rightarrow> nat \<Rightarrow> bool \<times> rate_hits" where
  "endpoint_rate_ok hits owner now =
     (let recent = filter (\<lambda>t. now - t < RATE_WINDOW) (hits owner) in
      if MAX_PER_WINDOW \<le> length recent then (False, hits(owner := recent))
      else (True, hits(owner := recent @ [now])))"

definition run_endpoint_guarded ::
  "('k, 's) node_env \<Rightarrow> app_state \<Rightarrow> rate_hits \<Rightarrow> job_request \<Rightarrow> string \<Rightarrow> string \<Rightarrow> string \<Rightarrow> nat \<Rightarrow> i64 \<Rightarrow>
   (string + submit_outcome) \<times> app_state \<times> rate_hits" where
  "run_endpoint_guarded env st hits req key prompt owner instant now =
     (case endpoint_rate_ok hits owner instant of
        (False, hits1) \<Rightarrow> (Inl ''rate limit exceeded - too many endpoint runs, slow down'', st, hits1)
      | (True, hits1) \<Rightarrow>
         (case authorize env st req None now of
            (Inl requirements, st1) \<Rightarrow> (Inr (PaymentRequired requirements), st1, hits1)
          | (Inr (settled_via, amount), st1) \<Rightarrow>
              (Inr (Completed (signed_response env st1 (rq_job_id req) (as_bytes prompt)
                 (as_bytes (ne_json_text env (ne_endpoint env key prompt))) settled_via)), st1, hits1)))"

section \<open>Workloads\<close>

text \<open>What a runtime was asked to do with an execution environment.\<close>

datatype lifecycle = Prepared | Started string | Destroyed string

definition workload_timeout :: "workload_spec \<Rightarrow> u64" where
  "workload_timeout spec =
     (if 0 < ws_max_duration_secs spec then min (ws_max_duration_secs spec) 3600 else WORKLOAD_TIMEOUT_SECS)"

fun exit_code_text :: "i32 option \<Rightarrow> string" where
  "exit_code_text None = ''None''"
| "exit_code_text (Some c) = ''Some('' @ show_int (sint c) @ '')''"

definition run_execution :: "workload_runtime \<Rightarrow> string \<Rightarrow> workload_spec \<Rightarrow> (string + string) \<times> lifecycle list" where
  "run_execution rt jid spec =
     (case rt_prepare rt spec of
        Inl e \<Rightarrow> (Inl e, [])
      | Inr _ \<Rightarrow>
         (case rt_run rt jid spec of
            Inl e \<Rightarrow> (Inl e, [Prepared])
          | Inr handle \<Rightarrow>
             (let (outcome, took) = rt_wait rt handle;
                  logs = (case rt_logs rt handle of Inr l \<Rightarrow> l | Inl _ \<Rightarrow> '''') in
              (if unat (workload_timeout spec) < took
               then Inl (''workload timed out after '' @ show_word (workload_timeout spec) @ ''s'')
               else case outcome of
                 Inl e \<Rightarrow> Inl (''runtime error: '' @ e)
               | Inr OutSucceeded \<Rightarrow> Inr logs
               | Inr (OutFailed exit_code) \<Rightarrow> Inl (''workload exited with code '' @ exit_code_text exit_code @
                   ''; logs:'' @ CHR 0x0A # logs),
               [Prepared, Started handle, Destroyed handle]))))"

definition select_runtime :: "('k, 's) node_env \<Rightarrow> app_state \<Rightarrow> workload_spec \<Rightarrow> string + workload_runtime" where
  "select_runtime env st spec =
     (if ws_image spec \<noteq> None then
        let docker = ne_docker env (as_container_runtime st) (as_allow_runc_untrusted st) (as_gpu_device st) in
        if rt_supports docker then Inr docker
        else Inl ''no container runtime on this node - declare a `template` kernel instead''
      else ok_or (as_wgsl st) ''this node has no GPU - submit a container workload (`image`) instead'')"

definition run_admit ::
  "('k, 's) node_env \<Rightarrow> app_state \<Rightarrow> workload_spec \<Rightarrow> string + (workload_runtime \<times> app_state)" where
  "run_admit env st spec =
     rbind (require (satisfies_all (as_capabilities st) (ws_capabilities spec))
        (''capabilities not satisfied - node offers: '' @ join_with '', '' (as_capabilities st))) (\<lambda>_.
     rbind (select_runtime env st spec) (\<lambda>rt.
     rbind (ok_or (acquire_permit st) ''node busy - try again shortly'') (\<lambda>st1.
     (case allocate (as_resources st1) (ws_resources spec) of
        Inl e \<Rightarrow> Inl (resource_error_text e)
      | Inr rs \<Rightarrow> Inr (rt, st1\<lparr>as_resources := rs\<rparr>)))))"

definition run_finish ::
  "('k, 's) node_env \<Rightarrow> app_state \<Rightarrow> job_request \<Rightarrow> workload_spec \<Rightarrow> string \<Rightarrow> string + string \<Rightarrow>
   submit_outcome \<times> app_state" where
  "run_finish env st req spec settled_via result =
     (let st1 = st\<lparr>as_resources := release_resources (as_resources st) (ws_resources spec)\<rparr>;
          response = (case result of
             Inr logs \<Rightarrow> signed_response env st1 (rq_job_id req) (rq_input_data req) (as_bytes logs) settled_via
           | Inl message \<Rightarrow> error_response st1 (rq_job_id req) message) in
      (Completed response, drop_permit (remember_job response st1)))"

definition run_workload ::
  "('k, 's) node_env \<Rightarrow> app_state \<Rightarrow> job_request \<Rightarrow> workload_spec \<Rightarrow> string option \<Rightarrow> i64 \<Rightarrow>
   (string + submit_outcome) \<times> app_state \<times> lifecycle list" where
  "run_workload env st req spec payment_override now =
     (case authorize env st req payment_override now of
        (Inl requirements, st1) \<Rightarrow> (Inr (PaymentRequired requirements), st1, [])
      | (Inr (settled_via, amount), st1) \<Rightarrow>
         (case run_admit env st1 spec of
            Inl e \<Rightarrow> (Inl e, st1, [])
          | Inr (rt, st2) \<Rightarrow>
             (case run_execution rt (rq_job_id req) spec of
                (result, events) \<Rightarrow>
                  (case run_finish env st2 req spec settled_via result of
                     (out, st3) \<Rightarrow> (Inr out, st3, events)))))"

section \<open>The VM of a tenant\<close>

datatype vm_failure = NoContainerRuntime | VmResources resource_error | VmStartFailed vm_error
datatype vm_outcome = Ready vm_info | VmPaymentRequired json

definition node_has_docker :: "app_state \<Rightarrow> bool" where
  "node_has_docker st \<longleftrightarrow> list_ex (\<lambda>c. cap_name c = ''docker'') (as_capabilities st)"

definition start_vm_reserve :: "app_state \<Rightarrow> workload_spec \<Rightarrow> vm_failure + (resource_vector \<times> app_state)" where
  "start_vm_reserve st spec =
     rbind (require (node_has_docker st) NoContainerRuntime) (\<lambda>_.
     let rv = vm_resources spec (as_gpu st \<noteq> None) in
     (case allocate (as_resources st) rv of
        Inl e \<Rightarrow> Inl (VmResources e) | Inr rs \<Rightarrow> Inr (rv, st\<lparr>as_resources := rs\<rparr>)))"

text \<open>What is done with the answer of the manager; the rate of the lease is the price of a job.\<close>

definition start_vm_finish ::
  "app_state \<Rightarrow> resource_vector \<Rightarrow> (vm_error + vm_info) \<times> vm_manager \<Rightarrow> (vm_failure + vm_outcome) \<times> app_state" where
  "start_vm_finish st rv r =
     (case r of
        (Inr info, mgr) \<Rightarrow> (Inr (Ready info), st\<lparr>as_vm := mgr\<rparr>)
      | (Inl e, mgr) \<Rightarrow>
          (Inl (VmStartFailed e), st\<lparr>as_vm := mgr, as_resources := release_resources (as_resources st) rv\<rparr>))"

definition start_vm ::
  "('k, 's) node_env \<Rightarrow> app_state \<Rightarrow> string \<Rightarrow> job_request \<Rightarrow> workload_spec \<Rightarrow> string option \<Rightarrow> i64 \<Rightarrow>
   datetime \<Rightarrow> datetime \<Rightarrow> command list \<Rightarrow> ((vm_failure + vm_outcome) \<times> app_state) \<times> command list" where
  "start_vm env st owner req spec payment_override now now1 now2 h =
     (case vm_status_of (ne_vm env) (as_vm st) owner now1 of
        Some info \<Rightarrow> ((Inr (Ready info), st), h)
      | None \<Rightarrow>
         (case authorize env st req payment_override now of
            (Inl requirements, st1) \<Rightarrow> ((Inr (VmPaymentRequired requirements), st1), h)
          | (Inr (settled_via, amount), st1) \<Rightarrow>
             (case start_vm_reserve st1 spec of
                Inl e \<Rightarrow> ((Inl e, st1), h)
              | Inr (rv, st2) \<Rightarrow>
                 (case vm_start (ne_vm env) (as_vm st2) owner spec rv (as_price st2) amount now1 now2 h of
                    (r, h') \<Rightarrow> (start_vm_finish st2 rv r, h')))))"

definition missing_vm :: "vm_env \<Rightarrow> string \<Rightarrow> datetime \<Rightarrow> vm_info" where
  "missing_vm env owner now = \<lparr>vi_vm_id = '''', vi_owner = owner, vi_image = '''', vi_state = ''missing'',
     vi_cpu_millis = 0, vi_memory_mib = 0, vi_gpu = False, vi_volume = '''', vi_ports = [], vi_created_at = now,
     vi_price_per_hour = 0, vi_lease = 0, vi_lease_remaining_secs = None, vi_volume_bytes = None,
     vi_volume_measured_at = None, vi_volume_backend = '''', vi_external_store = (volume_remote env \<noteq> None)\<rparr>"

definition vm_status ::
  "('k, 's) node_env \<Rightarrow> app_state \<Rightarrow> string \<Rightarrow> datetime \<Rightarrow> datetime \<Rightarrow> command list \<Rightarrow>
   (vm_info \<times> app_state) \<times> command list" where
  "vm_status env st owner now1 now2 h =
     (case refresh_volume_size (ne_vm env) (as_vm st) owner now1 now2 h of
        (mgr, h') \<Rightarrow>
          ((case vm_status_of (ne_vm env) mgr owner now2 of
              Some info \<Rightarrow> info | None \<Rightarrow> missing_vm (ne_vm env) owner now2, st\<lparr>as_vm := mgr\<rparr>), h'))"

definition stop_vm ::
  "('k, 's) node_env \<Rightarrow> app_state \<Rightarrow> string \<Rightarrow> bool \<Rightarrow> command list \<Rightarrow> app_state \<times> command list" where
  "stop_vm env st owner wipe h =
     (case vm_stop (ne_vm env) (as_vm st) owner wipe h of
        ((released, mgr), h') \<Rightarrow>
          (st\<lparr>as_vm := mgr, as_resources := release_resources (as_resources st) released\<rparr>, h'))"

record node_info =
  ni_protocol :: string
  ni_endpoint_id :: string
  ni_solana_pubkey :: "string option"
  ni_gpu_model :: string
  ni_vram_mb :: u64
  ni_jobs_completed :: nat
  ni_price_usdc :: f64
  ni_usdc_mint :: string
  ni_network :: string
  ni_payment :: string
  ni_escrow_program :: string
  ni_fee_bps :: int
  ni_resources :: "resources option"
  ni_capabilities :: "capability list"

text \<open>The version of the package is left out.\<close>

definition node_info_of :: "app_state \<Rightarrow> node_info" where
  "node_info_of st = \<lparr>ni_protocol = ''cloudiy'', ni_endpoint_id = as_endpoint_id st,
     ni_solana_pubkey = (if starts_with (as_pubkey st) ''<no-'' then None else Some (as_pubkey st)),
     ni_gpu_model = as_gpu_model st, ni_vram_mb = as_vram_mb st, ni_jobs_completed = js_len (as_jobs st),
     ni_price_usdc = fdiv (f_of_u64 (as_price st)) (f_lit 1000000), ni_usdc_mint = as_usdc_mint st,
     ni_network = as_network st, ni_payment = ''x402'', ni_escrow_program = as_escrow_program st,
     ni_fee_bps = X402_FEE_BPS, ni_resources = Some (as_resources st), ni_capabilities = as_capabilities st\<rparr>"

end
