(* ===== verification/Node_Theorems.thy ===== *)
theory Node_Theorems
  imports Node "HOL-Library.Multiset"
begin

text \<open>
  What the node guarantees: an escrow pays for one run (and the race in which it pays for two), a
  workload leaves nothing behind, the rate limit, and the accounting of permits and resources under
  every interleaving of the operations.
\<close>

section \<open>One escrow, one run\<close>

definition escrow_of :: "('k, 's) node_env \<Rightarrow> job_request \<Rightarrow> string option \<Rightarrow> string option" where
  "escrow_of env req ov =
     Option.bind (Option.bind (Option.bind (case ov of Some p \<Rightarrow> Some p | None \<Rightarrow> rq_payment req) (decode_payment env))
       (json_get ''escrow'')) json_str"

lemma authorize_begin_pending:
  assumes "authorize_begin env st req ov now = Inr p"
  shows "escrow_of env req ov = Some (pd_account p)" and "\<not> served_contains (as_served st) (pd_account p)"
  using assms by (auto simp: authorize_begin_def Let_def escrow_of_def split: option.splits if_splits)

lemma authorize_end_admits:
  "authorize_end env st p = (Inr x, st') \<Longrightarrow>
     st' = st\<lparr>as_served := served_insert (pd_account p) (as_served st)\<rparr>"
  by (auto simp: authorize_end_def split: sum.splits)

lemma authorize_escrow:
  assumes "authorize env st req ov now = (Inr x, st')" and "escrow_of env req ov = Some e" and "as_rpc_url st \<noteq> None"
  shows "\<not> served_contains (as_served st) e \<and> as_served st' = served_insert e (as_served st)"
proof -
  from assms(3) obtain rpc where rpc: "as_rpc_url st = Some rpc" by blast
  obtain p where p: "authorize_begin env st req ov now = Inr p"
    using assms(1,2) rpc
    by (auto simp: authorize_def authorize_begin_def Let_def escrow_of_def split: option.splits if_splits)
  with assms(1) have "authorize_end env st p = (Inr x, st')" by (simp add: authorize_def)
  from authorize_end_admits [OF this] authorize_begin_pending [OF p] assms(2) show ?thesis by simp
qed

text \<open>
  C7. No replay. Once a request was admitted on an escrow, every later request that presents the same
  escrow is refused without asking the chain and without changing the node, whatever its payment says,
  until 4096 other escrows have been recorded.
\<close>
theorem escrow_pays_once:
  assumes "served_ok (as_served st)" and "as_rpc_url st \<noteq> None"
    and "authorize env st req ov now = (Inr x, st1)" and "escrow_of env req ov = Some e"
    and "length later < 4096" and "as_served st2 = fold served_insert later (as_served st1)"
    and "as_rpc_url st2 \<noteq> None" and "escrow_of env req' ov' = Some e"
  shows "\<exists>body. authorize env st2 req' ov' now' = (Inl body, st2)"
proof -
  from authorize_escrow [OF assms(3,4,2)]
  have e: "\<not> served_contains (as_served st) e" "as_served st1 = served_insert e (as_served st)" by auto
  have "e \<notin> set (se_order (as_served st))" using assms(1) e(1) by (simp add: served_contains_def served_ok_def)
  then have "served.holds e (as_served st2)"
    using served.put_remembered [OF assms(1), of e later] assms(5,6) e(2)
    by (simp add: served.put_all_def MAX_SERVED_ESCROWS_def)
  moreover have "served_ok (as_served st2)"
    using served.put_all_ok [OF served.ok_put [OF assms(1)], of later e] assms(6) e(2)
    by (simp add: served.put_all_def)
  ultimately have s: "served_contains (as_served st2) e" by (simp add: served_contains_holds)
  obtain rpc where rpc: "as_rpc_url st2 = Some rpc" using assms(7) by blast
  show ?thesis
    using assms(8) rpc s
    by (auto simp: authorize_def authorize_begin_def Let_def escrow_of_def split: option.splits if_splits)
qed

text \<open>
  The race. The check for a replay and the recording of the escrow are on the two sides of the
  await: if two copies of a request both begin before the first is answered, and the chain answers the
  first with the funded escrow, the second is admitted as well, on the same escrow and for the full
  amount.
\<close>
theorem escrow_pays_twice_in_a_race:
  assumes "authorize_begin env st req ov now = Inr p" and "authorize_end env st p = (Inr x, st1)"
  shows "authorize_end env st1 p = (Inr x, st1\<lparr>as_served := served_insert (pd_account p) (as_served st1)\<rparr>)"
proof -
  have st1: "st1 = st\<lparr>as_served := served_insert (pd_account p) (as_served st)\<rparr>"
    by (rule authorize_end_admits [OF assms(2)])
  show ?thesis using assms by (auto simp: st1 authorize_end_def split: sum.splits)
qed


text \<open>A concrete node, with an escrow on its chain.\<close>

definition demo_node_env :: "(string, bytes) node_env" where
  "demo_node_env = \<lparr>ne_chain = demo_env, ne_b64_encode = (\<lambda>_. ''b64''),
     ne_json_parse = (\<lambda>_. Some (JObj [(''escrow'', JStr ''acc''), (''consumer_sig'', JStr ''sig''), (''expiry'', JInt 2000)])),
     ne_json_text = (\<lambda>_. ''{}''), ne_uuid_parse = (\<lambda>_. Some (job_id demo_job)),
     ne_utf8 = (\<lambda>b. Some (map (\<lambda>x. char_of (unat x)) b)), ne_sign = (\<lambda>_. ''sig''),
     ne_docker = (\<lambda>_ _ _. \<lparr>rt_name = ''docker'', rt_supports = True, rt_prepare = (\<lambda>_. Inr ()),
       rt_run = (\<lambda>_ _. Inr ''c1''), rt_wait = (\<lambda>_. (Inr OutSucceeded, 5)), rt_logs = (\<lambda>_. Inr ''done'')\<rparr>),
     ne_endpoint = (\<lambda>_ _. JNull),
     ne_vm = \<lparr>ve_docker = (\<lambda>_ _. Some \<lparr>co_success = True, co_stdout = [], co_stderr = []\<rparr>), ve_var = Map.empty,
       ve_sha256 = (\<lambda>_. []), ve_hkdf = (\<lambda>_ _ _. []), ve_rfc3339 = (\<lambda>_. ''''), ve_parse_rfc3339 = (\<lambda>_. None),
       ve_show_f64 = (\<lambda>_. ''1'')\<rparr>\<rparr>"

definition demo_state :: app_state where
  "demo_state = \<lparr>as_gpu = None, as_wgsl = None, as_jobs = store_empty, as_busy = 4, as_sessions = 16,
     as_inbound = 64, as_token = ''dev'', as_endpoint_id = ''node'', as_pubkey = ce_b58_encode demo_env (job_provider demo_job),
     as_gpu_model = ''none'', as_vram_mb = 0, as_price = 500, as_price_per_hour = 100,
     as_usdc_mint = ce_b58_encode demo_env (job_mint demo_job), as_network = ''solana-devnet'',
     as_resources = \<lparr>r_total = [(Cpu, 32000), (Memory, 4096)], r_shared = [(Cpu, 16000), (Memory, 4096)], r_allocated = []\<rparr>,
     as_capabilities = [''docker'', ''linux''], as_vm = vm_manager_new None, as_rpc_url = Some ''rpc'',
     as_require_payment = True, as_escrow_program = ''prog'', as_container_runtime = None,
     as_allow_runc_untrusted = False, as_gpu_device = None, as_served = served_empty\<rparr>"

definition demo_request :: job_request where
  "demo_request = \<lparr>rq_job_id = ''job'', rq_kernel = '''', rq_input_data = [1], rq_auth_token = '''',
     rq_consumer_pubkey = None, rq_payment = Some ''payment''\<rparr>"

definition demo_pending :: pending where
  "demo_pending = \<lparr>pd_rpc = ''rpc'', pd_account = ''acc'', pd_job = job_id demo_job, pd_sig = Some ''sig'',
     pd_input = [1], pd_expiry = 2000, pd_now = 1000\<rparr>"

lemma demo_escrow: "escrow_of demo_node_env demo_request None = Some ''acc''"
  by (simp add: escrow_of_def demo_request_def decode_payment_def demo_node_env_def demo_env_def)

lemma demo_begin: "authorize_begin demo_node_env demo_state demo_request None 1000 = Inr demo_pending"
  by (simp add: authorize_begin_def Let_def demo_request_def decode_payment_def demo_node_env_def demo_env_def
      demo_state_def served_contains_def served_empty_def demo_pending_def s_fits_def s_min_def s_max_def)

lemma demo_min_remaining: "WORKLOAD_TIMEOUT_SECS + 120 = 420"
  by (simp add: WORKLOAD_TIMEOUT_SECS_def)

lemma demo_end: "authorize_end demo_node_env demo_state demo_pending =
    (Inr (''escrow-verified'', 1000000), demo_state\<lparr>as_served := served_insert ''acc'' served_empty\<rparr>)"
  using demo_verified_amount [of "''rpc''" "''acc''" "[1]"]
  by (simp add: authorize_end_def demo_min_remaining demo_pending_def demo_state_def) (simp add: demo_node_env_def)

lemma demo_authorize: "authorize demo_node_env demo_state demo_request None 1000 =
    (Inr (''escrow-verified'', 1000000), demo_state\<lparr>as_served := served_insert ''acc'' served_empty\<rparr>)"
  by (simp add: authorize_def demo_begin demo_end)

lemma escrow_pays_once_witness:
  "\<exists>body st2. authorize demo_node_env st2 demo_request None 1001 = (Inl body, st2) \<and>
     as_served st2 = served_insert ''other'' (served_insert ''acc'' served_empty)"
proof -
  let ?st2 = "demo_state\<lparr>as_served := served_insert ''other'' (served_insert ''acc'' served_empty)\<rparr>"
  have "served_ok (as_served demo_state)" "as_rpc_url demo_state \<noteq> None"
    by (simp_all add: demo_state_def served_empty_ok)
  from escrow_pays_once [OF this demo_authorize demo_escrow, of "[''other'']" ?st2 demo_request None 1001]
  show ?thesis using demo_escrow by (force simp: demo_state_def)
qed

lemma escrow_pays_twice_in_a_race_witness:
  "\<exists>st2. authorize_end demo_node_env (demo_state\<lparr>as_served := served_insert ''acc'' served_empty\<rparr>) demo_pending
     = (Inr (''escrow-verified'', 1000000), st2)"
  using escrow_pays_twice_in_a_race [OF demo_begin demo_end] by blast

section \<open>Workloads\<close>

lemma run_admit_Inr:
  "run_admit env st spec = Inr (rt, st') \<longleftrightarrow> satisfies_all (as_capabilities st) (ws_capabilities spec) \<and>
     select_runtime env st spec = Inr rt \<and> 0 < as_busy st \<and>
     (\<exists>rs. allocate (as_resources st) (ws_resources spec) = Inr rs \<and>
       st' = st\<lparr>as_busy := as_busy st - 1, as_resources := rs\<rparr>)"
  by (cases "allocate (as_resources st) (ws_resources spec)") (auto simp: run_admit_def result_iff acquire_permit_def)

lemma run_finish_state:
  "run_finish env st req spec settled r = (out, st') \<Longrightarrow>
     as_busy st' = as_busy st + 1 \<and> as_resources st' = release_resources (as_resources st) (ws_resources spec) \<and>
     (\<exists>j. jr_job_id j = rq_job_id req \<and> out = Completed j \<and> as_jobs st' = js_insert j (as_jobs st)) \<and>
     as_served st' = as_served st \<and> as_vm st' = as_vm st \<and> as_capabilities st' = as_capabilities st"
  by (auto simp: run_finish_def Let_def drop_permit_def remember_job_def signed_response_def error_response_def
      split: sum.splits)

lemma run_execution_events:
  "run_execution rt jid spec = (r, events) \<Longrightarrow> Started c \<in> set events \<Longrightarrow> last events = Destroyed c"
  by (auto simp: run_execution_def Let_def split: sum.splits prod.splits)

lemma authorize_keeps:
  "authorize env st req ov now = (r, st') \<Longrightarrow> as_busy st' = as_busy st \<and> as_resources st' = as_resources st \<and>
     as_jobs st' = as_jobs st \<and> as_vm st' = as_vm st"
  by (auto simp: authorize_def authorize_end_def split: sum.splits)

text \<open>
  A workload leaves nothing behind. Whatever the runtime does at every stage (a failed pull, a
  failed start, a time-out, a crash, a non-zero exit, unreadable logs), every container that was
  started is destroyed as the last act, the permit and all resources are back, and a workload that was
  admitted has its response stored, whatever the outcome.
\<close>
theorem workload_leaves_nothing:
  assumes "resources_ok (as_resources st)" and "bt_ok (ws_resources spec)"
    and "run_workload env st req spec ov now = (r, st', events)"
  shows "(\<forall>c. Started c \<in> set events \<longrightarrow> last events = Destroyed c) \<and> as_busy st' = as_busy st \<and>
     (\<forall>k. amt (r_allocated (as_resources st')) k = amt (r_allocated (as_resources st)) k) \<and>
     (\<forall>j. r = Inr (Completed j) \<longrightarrow> jr_job_id j = rq_job_id req \<and> as_jobs st' = js_insert j (as_jobs st)) \<and>
     (\<forall>e. r = Inl e \<longrightarrow> events = [] \<and> as_jobs st' = as_jobs st)"
proof -
  obtain d st1 where a: "authorize env st req ov now = (d, st1)" by fastforce
  note k = authorize_keeps [OF a]
  show ?thesis
  proof (cases d)
    case (Inl body)
    then show ?thesis using assms(3) a k by (auto simp: run_workload_def)
  next
    case (Inr x)
    obtain settled amount where x: "x = (settled, amount)" by (cases x)
    show ?thesis
    proof (cases "run_admit env st1 spec")
      case (Inl e)
      then show ?thesis using assms(3) a k Inr x by (auto simp: run_workload_def)
    next
      case adm: (Inr y)
      obtain rt st2 where y: "y = (rt, st2)" by (cases y)
      from adm y obtain rs where s: "0 < as_busy st1" "allocate (as_resources st1) (ws_resources spec) = Inr rs"
        "st2 = st1\<lparr>as_busy := as_busy st1 - 1, as_resources := rs\<rparr>"
        by (auto simp: run_admit_Inr)
      obtain res ev where e: "run_execution rt (rq_job_id req) spec = (res, ev)" by fastforce
      obtain out st3 where f: "run_finish env st2 req spec settled res = (out, st3)" by fastforce
      have r: "r = Inr out" "st' = st3" "events = ev"
        using assms(3) a Inr x adm y e f by (auto simp: run_workload_def)
      note al = allocate_effect [OF assms(1,2) s(2) [unfolded conjunct1 [OF conjunct2 [OF k]]]]
      have "amt (r_allocated (as_resources st')) c = amt (r_allocated (as_resources st)) c" for c
        using run_finish_state [OF f] s(3) r(2) release_effect(2) [OF al(1) assms(2), of c] al(4) [of c] by simp
      then show ?thesis
        using run_finish_state [OF f] run_execution_events [OF e] s r k by auto
    qed
  qed
qed

lemma demo_resources_ok: "resources_ok (as_resources demo_state)"
  by (auto simp: demo_state_def resources_ok_def bt_ok_def less_resource_kind_def amt_def rv_get_def)

definition demo_spec :: workload_spec where
  "demo_spec = default_spec\<lparr>ws_image := Some ''alpine'', ws_resources := [(Cpu, 2000)], ws_capabilities := [''docker'']\<rparr>"

lemma workload_leaves_nothing_witness:
  "as_busy (fst (snd (run_workload demo_node_env demo_state demo_request demo_spec None 1000))) = 4"
proof -
  obtain r st' ev where w: "run_workload demo_node_env demo_state demo_request demo_spec None 1000 = (r, st', ev)"
    by (cases "run_workload demo_node_env demo_state demo_request demo_spec None 1000") auto
  have "bt_ok (ws_resources demo_spec)" by (simp add: demo_spec_def bt_ok_def)
  from workload_leaves_nothing [OF demo_resources_ok this w] w show ?thesis by (simp add: demo_state_def)
qed


section \<open>The rate limit\<close>

text \<open>Calls in the order of their arrival; \<open>granted\<close> collects the ones that were let through.\<close>

definition rate_step :: "string \<times> nat \<Rightarrow> (string \<times> nat) list \<times> rate_hits \<Rightarrow> (string \<times> nat) list \<times> rate_hits" where
  "rate_step call s =
     (case s of (granted, hits) \<Rightarrow>
        (case endpoint_rate_ok hits (fst call) (snd call) of
           (ok, hits') \<Rightarrow> (if ok then granted @ [call] else granted, hits')))"

definition granted_calls :: "(string \<times> nat) list \<Rightarrow> (string \<times> nat) list" where
  "granted_calls calls = fst (fold rate_step calls ([], \<lambda>_. []))"

definition calls_of :: "string \<Rightarrow> (string \<times> nat) list \<Rightarrow> nat list" where
  "calls_of owner cs = map snd (filter (\<lambda>c. fst c = owner) cs)"

definition in_window :: "nat \<Rightarrow> nat \<Rightarrow> bool" where
  "in_window s t \<longleftrightarrow> s \<le> t \<and> t < s + RATE_WINDOW"

definition rate_inv :: "nat \<Rightarrow> (string \<times> nat) list \<times> rate_hits \<Rightarrow> bool" where
  "rate_inv now s \<longleftrightarrow> (case s of (granted, hits) \<Rightarrow> \<forall>owner.
     (\<forall>t \<in> set (calls_of owner granted). t \<le> now) \<and>
     (\<forall>n \<ge> now. filter (\<lambda>t. n - t < RATE_WINDOW) (hits owner) = filter (\<lambda>t. n - t < RATE_WINDOW) (calls_of owner granted)) \<and>
     (\<forall>b. length (filter (in_window b) (calls_of owner granted)) \<le> MAX_PER_WINDOW))"

lemma window_in_recent:
  assumes "\<forall>t \<in> set g. t \<le> n" and "in_window b n"
  shows "length (filter (in_window b) g) \<le> length (filter (\<lambda>t. n - t < RATE_WINDOW) g)"
proof -
  have "filter (in_window b) g = filter (in_window b) (filter (\<lambda>t. n - t < RATE_WINDOW) g)"
    unfolding filter_filter using assms by (intro filter_cong) (auto simp: in_window_def)
  then show ?thesis by (metis length_filter_le)
qed

lemma filter_recent_twice:
  assumes "now \<le> n"
  shows "filter (\<lambda>t. n - t < RATE_WINDOW) (filter (\<lambda>t. now - t < RATE_WINDOW) xs) = filter (\<lambda>t. n - t < RATE_WINDOW) xs"
  unfolding filter_filter using assms by (intro filter_cong) auto

lemma rate_inv_step:
  assumes inv: "rate_inv now0 s" and le: "now0 \<le> now"
  shows "rate_inv now (rate_step (owner, now) s)"
proof -
  obtain granted hits where s: "s = (granted, hits)" by (cases s)
  let ?recent = "filter (\<lambda>t. now - t < RATE_WINDOW) (hits owner)"
  have old: "\<forall>t \<in> set (calls_of o' granted). t \<le> now"
    "\<forall>n \<ge> now. filter (\<lambda>t. n - t < RATE_WINDOW) (hits o') = filter (\<lambda>t. n - t < RATE_WINDOW) (calls_of o' granted)"
    "\<forall>b. length (filter (in_window b) (calls_of o' granted)) \<le> MAX_PER_WINDOW" for o'
    using inv le by (fastforce simp: rate_inv_def s)+
  show ?thesis
  proof (cases "MAX_PER_WINDOW \<le> length ?recent")
    case True
    then have step: "rate_step (owner, now) s = (granted, hits(owner := ?recent))"
      by (simp add: rate_step_def s endpoint_rate_ok_def)
    show ?thesis unfolding step rate_inv_def using old filter_recent_twice [of now _ "hits owner"] by auto
  next
    case False
    then have step: "rate_step (owner, now) s = (granted @ [(owner, now)], hits(owner := ?recent @ [now]))"
      by (simp add: rate_step_def s endpoint_rate_ok_def)
    have calls: "calls_of o' (granted @ [(owner, now)]) = calls_of o' granted @ (if o' = owner then [now] else [])" for o'
      by (simp add: calls_of_def)
    have "length (filter (in_window b) (calls_of owner granted)) < MAX_PER_WINDOW" if "in_window b now" for b
      using window_in_recent [OF old(1) that, of owner] old(2) [of owner] False by simp
    then have w: "length (filter (in_window b) (calls_of o' granted @ (if o' = owner then [now] else []))) \<le> MAX_PER_WINDOW" for b o'
      using old(3) [of o'] by (auto simp: Suc_le_eq)
    have f: "filter (\<lambda>t. n - t < RATE_WINDOW) ((hits(owner := ?recent @ [now])) o') =
        filter (\<lambda>t. n - t < RATE_WINDOW) (calls_of o' granted @ (if o' = owner then [now] else []))" if n: "now \<le> n" for n o'
    proof (cases "o' = owner")
      case True
      have "filter (\<lambda>t. n - t < RATE_WINDOW) (?recent @ [now]) =
          filter (\<lambda>t. n - t < RATE_WINDOW) (hits owner) @ filter (\<lambda>t. n - t < RATE_WINDOW) [now]"
        by (simp only: filter_append filter_recent_twice [OF n])
      with True old(2) [of owner] n show ?thesis by simp
    next
      case False
      with old(2) [of o'] n show ?thesis by simp
    qed
    have t: "\<forall>t \<in> set (calls_of o' granted @ (if o' = owner then [now] else [])). t \<le> now" for o'
      using old(1) [of o'] by auto
    show ?thesis unfolding step rate_inv_def prod.case calls using f t w by blast
  qed
qed

lemma rate_inv_run:
  "sorted (map snd calls) \<Longrightarrow> rate_inv (if calls = [] then 0 else snd (last calls)) (fold rate_step calls ([], \<lambda>_. []))"
proof (induction calls rule: rev_induct)
  case Nil
  then show ?case by (simp add: rate_inv_def calls_of_def)
next
  case (snoc c cs)
  have "(if cs = [] then 0 else snd (last cs)) \<le> snd c" using snoc.prems by (auto simp: sorted_append)
  with snoc rate_inv_step [of _ "fold rate_step cs ([], \<lambda>_. [])" "snd c" "fst c"] show ?case
    by (simp add: sorted_append)
qed

text \<open>
  The rate limit. Whatever the calls of whatever identities, in any stretch of 60 seconds at most
  30 endpoint runs of one identity are let through (and the calls of others do not count).
\<close>
theorem endpoint_rate_bounded:
  assumes "sorted (map snd calls)"
  shows "length (filter (\<lambda>t. b \<le> t \<and> t < b + 60 * 10 ^ 9) (calls_of owner (granted_calls calls))) \<le> 30"
proof -
  obtain g h where s: "fold rate_step calls ([], \<lambda>_. []) = (g, h)" by fastforce
  from rate_inv_run [OF assms] have "length (filter (in_window b) (calls_of owner g)) \<le> MAX_PER_WINDOW"
    by (simp add: s rate_inv_def)
  moreover have "in_window b = (\<lambda>t. b \<le> t \<and> t < b + 60 * 10 ^ 9)"
    by (rule ext) (simp add: in_window_def RATE_WINDOW_def)
  ultimately show ?thesis by (simp add: granted_calls_def s MAX_PER_WINDOW_def)
qed

lemma endpoint_rate_bounded_witness:
  "length (filter (\<lambda>t. 0 \<le> t \<and> t < 60 * 10 ^ 9) (calls_of ''alice'' (granted_calls (replicate 31 (''alice'', 5))))) \<le> 30"
  using endpoint_rate_bounded [of "replicate 31 (''alice'', 5)" 0 "''alice''"] by simp

end
