(* ===== verification/Node_World.thy ===== *)
theory Node_World
  imports Node_Theorems
begin

text \<open>
  A node in which workloads, kernel jobs and VM starts of many clients run at once: each step is one
  part of an operation of \<open>core.rs\<close> that runs without awaiting. Beside the state of the node the world
  remembers what is in flight.
\<close>

record node_world =
  nw_app :: app_state
  nw_running :: "(job_request \<times> workload_spec) multiset"
  nw_kernels :: nat
  nw_starting :: "(string \<times> resource_vector) multiset"
  nw_vms :: "(string \<times> resource_vector) multiset"
  nw_lost :: "resource_vector multiset"

text \<open>
  \<open>racing\<close> says whether one owner may have two VM starts in flight. \<open>nw_lost\<close> collects reservations
  that no running thing accounts for any more.
\<close>

inductive node_step :: "('k, 's) node_env \<Rightarrow> bool \<Rightarrow> node_world \<Rightarrow> node_world \<Rightarrow> bool"
  for env :: "('k, 's) node_env" and racing :: bool where
  authorised: "authorize_end env (nw_app w) p = (r, st) \<Longrightarrow> node_step env racing w (w\<lparr>nw_app := st\<rparr>)"
| workload_admitted: "run_admit env (nw_app w) spec = Inr (rt, st) \<Longrightarrow> bt_ok (ws_resources spec) \<Longrightarrow>
     node_step env racing w (w\<lparr>nw_app := st, nw_running := add_mset (req, spec) (nw_running w)\<rparr>)"
| workload_done: "(req, spec) \<in># nw_running w \<Longrightarrow> run_finish env (nw_app w) req spec settled result = (out, st) \<Longrightarrow>
     node_step env racing w (w\<lparr>nw_app := st, nw_running := nw_running w - {#(req, spec)#}\<rparr>)"
| kernel_started: "acquire_permit (nw_app w) = Some st \<Longrightarrow>
     node_step env racing w (w\<lparr>nw_app := st, nw_kernels := nw_kernels w + 1\<rparr>)"
| kernel_done: "0 < nw_kernels w \<Longrightarrow> submit env (nw_app w) req settled = (out, st) \<Longrightarrow>
     node_step env racing w (w\<lparr>nw_app := drop_permit st, nw_kernels := nw_kernels w - 1\<rparr>)"
| vm_reserved: "start_vm_reserve (nw_app w) spec = Inr (rv, st) \<Longrightarrow> bt_ok (ws_resources spec) \<Longrightarrow>
     racing \<or> vm_vms (as_vm (nw_app w)) owner = None \<and> owner \<notin># image_mset fst (nw_starting w) \<Longrightarrow>
     node_step env racing w (w\<lparr>nw_app := st, nw_starting := add_mset (owner, rv) (nw_starting w)\<rparr>)"
| vm_found: "(owner, rv) \<in># nw_starting w \<Longrightarrow> vm_vms (as_vm (nw_app w)) owner = Some rec \<Longrightarrow>
     node_step env racing w (w\<lparr>nw_starting := nw_starting w - {#(owner, rv)#}, nw_lost := add_mset rv (nw_lost w)\<rparr>)"
| vm_up: "(owner, rv) \<in># nw_starting w \<Longrightarrow> vm_vms (as_vm (nw_app w)) owner = None \<Longrightarrow> vr_allocated rec = rv \<Longrightarrow>
     start_vm_finish (nw_app w) rv (Inr info, vm_insert owner rec (as_vm (nw_app w))) = (out, st) \<Longrightarrow>
     node_step env racing w (w\<lparr>nw_app := st, nw_starting := nw_starting w - {#(owner, rv)#},
       nw_vms := add_mset (owner, rv) (nw_vms w)\<rparr>)"
| vm_overwritten: "(owner, rv) \<in># nw_starting w \<Longrightarrow> vm_vms (as_vm (nw_app w)) owner = Some old \<Longrightarrow> vr_allocated rec = rv \<Longrightarrow>
     start_vm_finish (nw_app w) rv (Inr info, vm_insert owner rec (as_vm (nw_app w))) = (out, st) \<Longrightarrow>
     node_step env racing w (w\<lparr>nw_app := st, nw_starting := nw_starting w - {#(owner, rv)#},
       nw_vms := add_mset (owner, rv) (nw_vms w - {#(owner, vr_allocated old)#}),
       nw_lost := add_mset (vr_allocated old) (nw_lost w)\<rparr>)"
| vm_failed: "(owner, rv) \<in># nw_starting w \<Longrightarrow>
     start_vm_finish (nw_app w) rv (Inl e, as_vm (nw_app w)) = (out, st) \<Longrightarrow>
     node_step env racing w (w\<lparr>nw_app := st, nw_starting := nw_starting w - {#(owner, rv)#}\<rparr>)"
| vm_stopped: "vm_vms (as_vm (nw_app w)) owner = Some rec \<Longrightarrow> stop_vm env (nw_app w) owner wipe h = (st, h') \<Longrightarrow>
     node_step env racing w (w\<lparr>nw_app := st, nw_vms := nw_vms w - {#(owner, vr_allocated rec)#}\<rparr>)"

definition node_boot :: "node_world \<Rightarrow> bool" where
  "node_boot w \<longleftrightarrow> (\<exists>tot shared rs lines rt. bt_ok tot \<and> bt_ok shared \<and> declare_resources tot shared = Inr rs \<and>
     as_resources (nw_app w) = rs \<and> as_busy (nw_app w) = MAX_CONCURRENT_JOBS \<and>
     as_jobs (nw_app w) = with_persistence lines \<and> as_served (nw_app w) = served_empty \<and>
     as_vm (nw_app w) = vm_manager_new rt) \<and>
     nw_running w = {#} \<and> nw_kernels w = 0 \<and> nw_starting w = {#} \<and> nw_vms w = {#} \<and> nw_lost w = {#}"

inductive node_reach :: "('k, 's) node_env \<Rightarrow> bool \<Rightarrow> node_world \<Rightarrow> bool"
  for env :: "('k, 's) node_env" and racing :: bool where
  booted: "node_boot w \<Longrightarrow> node_reach env racing w"
| stepped: "node_reach env racing w \<Longrightarrow> node_step env racing w w' \<Longrightarrow> node_reach env racing w'"

section \<open>What is held\<close>

definition held :: "node_world \<Rightarrow> resource_vector multiset" where
  "held w = image_mset (ws_resources \<circ> snd) (nw_running w) + image_mset snd (nw_starting w) +
     image_mset snd (nw_vms w) + nw_lost w"

definition holds_exactly :: "resources \<Rightarrow> resource_vector multiset \<Rightarrow> bool" where
  "holds_exactly rs live \<longleftrightarrow> resources_ok rs \<and> (\<forall>x \<in># live. bt_ok x) \<and>
     (\<forall>k. amt (r_allocated rs) k = (\<Sum>x \<in># live. amt x k))"

lemma holds_allocate:
  assumes "holds_exactly rs live" and "bt_ok x" and "allocate rs x = Inr rs'"
  shows "holds_exactly rs' (add_mset x live)"
  using assms allocate_effect [of rs x rs'] by (auto simp: holds_exactly_def)

lemma holds_release:
  assumes h: "holds_exactly rs live" and x: "x \<in># live"
  shows "holds_exactly (release_resources rs x) (live - {#x#})"
proof -
  obtain rest where l: "live = add_mset x rest" using x by (metis mset_add)
  then show ?thesis using h release_effect [of rs x] by (auto simp: holds_exactly_def)
qed

lemma vm_resources_ok: "bt_ok (ws_resources spec) \<Longrightarrow> bt_ok (vm_resources spec gpu)"
  by (simp add: vm_resources_def Let_def rv_with_def bt_ok_insert bt_ok_remove)


section \<open>The invariant\<close>

definition vms_listed :: "node_world \<Rightarrow> bool" where
  "vms_listed w \<longleftrightarrow> (\<forall>owner rv. count (nw_vms w) (owner, rv) =
     (case vm_vms (as_vm (nw_app w)) owner of Some rec \<Rightarrow> if vr_allocated rec = rv then 1 else 0 | None \<Rightarrow> 0))"

definition permits_ok :: "node_world \<Rightarrow> bool" where
  "permits_ok w \<longleftrightarrow> as_busy (nw_app w) + size (nw_running w) + nw_kernels w = MAX_CONCURRENT_JOBS"

definition no_race :: "node_world \<Rightarrow> bool" where
  "no_race w \<longleftrightarrow> nw_lost w = {#} \<and>
     (\<forall>owner. count (image_mset fst (nw_starting w)) owner \<le> 1 \<and>
       (owner \<in># image_mset fst (nw_starting w) \<longrightarrow> vm_vms (as_vm (nw_app w)) owner = None))"

definition node_inv :: "bool \<Rightarrow> node_world \<Rightarrow> bool" where
  "node_inv racing w \<longleftrightarrow> holds_exactly (as_resources (nw_app w)) (held w) \<and> permits_ok w \<and> vms_listed w \<and>
     served_ok (as_served (nw_app w)) \<and> js_ok (as_jobs (nw_app w)) \<and> (\<not> racing \<longrightarrow> no_race w)"

lemma vms_listed_mem: "vms_listed w \<Longrightarrow> vm_vms (as_vm (nw_app w)) owner = Some rec \<Longrightarrow>
    (owner, vr_allocated rec) \<in># nw_vms w"
  by (simp add: vms_listed_def flip: count_greater_zero_iff)

lemma authorize_end_app:
  assumes "authorize_end env st p = (r, st')"
  shows "as_resources st' = as_resources st" "as_busy st' = as_busy st" "as_vm st' = as_vm st"
    "as_jobs st' = as_jobs st" "served_ok (as_served st) \<Longrightarrow> served_ok (as_served st')"
  using assms by (auto simp: authorize_end_def served.ok_put split: sum.splits)

lemma run_admit_app:
  assumes "run_admit env st spec = Inr (rt, st')"
  shows "allocate (as_resources st) (ws_resources spec) = Inr (as_resources st')"
    "as_busy st = Suc (as_busy st')" "as_vm st' = as_vm st" "as_jobs st' = as_jobs st" "as_served st' = as_served st"
  using assms by (cases "allocate (as_resources st) (ws_resources spec)";
    auto simp: run_admit_def result_iff acquire_permit_def split: if_splits)+

lemma run_finish_app:
  assumes "run_finish env st req spec settled r = (out, st')"
  shows "as_busy st' = Suc (as_busy st)" "as_resources st' = release_resources (as_resources st) (ws_resources spec)"
    "as_vm st' = as_vm st" "as_served st' = as_served st" "js_ok (as_jobs st) \<Longrightarrow> js_ok (as_jobs st')"
  using assms by (auto simp: run_finish_def Let_def drop_permit_def remember_job_def js_ok_insert)

lemma submit_app:
  assumes "submit env st req settled = (out, st')"
  shows "as_busy st' = as_busy st" "as_resources st' = as_resources st" "as_vm st' = as_vm st"
    "as_served st' = as_served st" "js_ok (as_jobs st) \<Longrightarrow> js_ok (as_jobs st')"
  using assms by (auto simp: submit_def Let_def remember_job_def js_ok_insert)

lemma acquire_permit_app:
  assumes "acquire_permit st = Some st'"
  shows "as_busy st = Suc (as_busy st')" "as_resources st' = as_resources st" "as_vm st' = as_vm st"
    "as_served st' = as_served st" "as_jobs st' = as_jobs st"
  using assms by (auto simp: acquire_permit_def split: if_splits)

lemma reserve_app:
  assumes "start_vm_reserve st spec = Inr (rv, st')"
  shows "allocate (as_resources st) rv = Inr (as_resources st')" "rv = vm_resources spec (as_gpu st \<noteq> None)"
    "as_busy st' = as_busy st" "as_vm st' = as_vm st" "as_jobs st' = as_jobs st" "as_served st' = as_served st"
  using assms by (auto simp: start_vm_reserve_def result_iff Let_def split: sum.splits)

lemma vm_up_app:
  assumes "start_vm_finish st rv (Inr info, m) = (out, st')"
  shows "as_vm st' = m" "as_resources st' = as_resources st" "as_busy st' = as_busy st"
    "as_jobs st' = as_jobs st" "as_served st' = as_served st"
  using assms by (auto simp: start_vm_finish_def)

lemma vm_failed_app:
  assumes "start_vm_finish st rv (Inl e, m) = (out, st')"
  shows "as_vm st' = m" "as_resources st' = release_resources (as_resources st) rv" "as_busy st' = as_busy st"
    "as_jobs st' = as_jobs st" "as_served st' = as_served st"
  using assms by (auto simp: start_vm_finish_def)

lemma stop_app:
  assumes "stop_vm env st owner wipe h = (st', h')" and "vm_vms (as_vm st) owner = Some rec"
  shows "vm_vms (as_vm st') = (vm_vms (as_vm st))(owner := None)"
    "as_resources st' = release_resources (as_resources st) (vr_allocated rec)" "as_busy st' = as_busy st"
    "as_jobs st' = as_jobs st" "as_served st' = as_served st"
  using assms by (auto simp: stop_vm_def vm_stop_def split: prod.splits)

lemmas app_facts = authorize_end_app run_admit_app run_finish_app submit_app acquire_permit_app reserve_app
  vm_up_app vm_failed_app stop_app

lemma node_inv_boot: "node_boot w \<Longrightarrow> node_inv racing w"
proof -
  assume b: "node_boot w"
  then obtain tot shared lines rt where
    r: "bt_ok tot" "bt_ok shared" "declare_resources tot shared = Inr (as_resources (nw_app w))" and
    o: "as_busy (nw_app w) = MAX_CONCURRENT_JOBS" "as_jobs (nw_app w) = with_persistence lines"
    "as_served (nw_app w) = served_empty" "as_vm (nw_app w) = vm_manager_new rt"
    unfolding node_boot_def by metis
  have e: "nw_running w = {#}" "nw_kernels w = 0" "nw_starting w = {#}" "nw_vms w = {#}" "nw_lost w = {#}"
    using b by (simp_all add: node_boot_def)
  have "holds_exactly (as_resources (nw_app w)) {#}"
    using r by (auto simp: holds_exactly_def declare_Inr resources_ok_def)
  then show ?thesis using o e
    by (simp add: node_inv_def held_def permits_ok_def vms_listed_def no_race_def vm_manager_new_def
        served_empty_ok with_persistence_ok)
qed


lemma held_simps [simp]:
  "held (w\<lparr>nw_app := st\<rparr>) = held w"
  "held (w\<lparr>nw_app := st, nw_kernels := n\<rparr>) = held w"
  "held (w\<lparr>nw_app := st, nw_running := add_mset (req, spec) (nw_running w)\<rparr>) = add_mset (ws_resources spec) (held w)"
  "held (w\<lparr>nw_app := st, nw_starting := add_mset (owner, rv) (nw_starting w)\<rparr>) = add_mset rv (held w)"
  by (simp_all add: held_def)

lemma held_less:
  "(req, spec) \<in># nw_running w \<Longrightarrow>
     held (w\<lparr>nw_app := st, nw_running := nw_running w - {#(req, spec)#}\<rparr>) = held w - {#ws_resources spec#} \<and>
     ws_resources spec \<in># held w"
  "(owner, rv) \<in># nw_starting w \<Longrightarrow>
     held (w\<lparr>nw_app := st, nw_starting := nw_starting w - {#(owner, rv)#}\<rparr>) = held w - {#rv#} \<and> rv \<in># held w"
  "(owner, rv) \<in># nw_vms w \<Longrightarrow>
     held (w\<lparr>nw_app := st, nw_vms := nw_vms w - {#(owner, rv)#}\<rparr>) = held w - {#rv#} \<and> rv \<in># held w"
  by (auto simp: held_def dest!: multi_member_split)

lemma held_moves:
  "(owner, rv) \<in># nw_starting w \<Longrightarrow>
     held (w\<lparr>nw_starting := nw_starting w - {#(owner, rv)#}, nw_lost := add_mset rv (nw_lost w)\<rparr>) = held w"
  "(owner, rv) \<in># nw_starting w \<Longrightarrow>
     held (w\<lparr>nw_app := st, nw_starting := nw_starting w - {#(owner, rv)#}, nw_vms := add_mset (owner, rv) (nw_vms w)\<rparr>)
       = held w"
  "(owner, rv) \<in># nw_starting w \<Longrightarrow> (owner, rv') \<in># nw_vms w \<Longrightarrow>
     held (w\<lparr>nw_app := st, nw_starting := nw_starting w - {#(owner, rv)#},
       nw_vms := add_mset (owner, rv) (nw_vms w - {#(owner, rv')#}), nw_lost := add_mset rv' (nw_lost w)\<rparr>) = held w"
  by (auto simp: held_def dest!: multi_member_split)

lemma holds_step:
  assumes "node_step env racing w w'" and "holds_exactly (as_resources (nw_app w)) (held w)" and "vms_listed w"
  shows "holds_exactly (as_resources (nw_app w')) (held w')"
  using assms
proof (induction rule: node_step.induct)
  case (authorised w p r st)
  then show ?case by (simp add: authorize_end_app)
next
  case (workload_admitted w spec rt st req)
  then show ?case using holds_allocate run_admit_app(1) [OF workload_admitted(1)] by simp
next
  case (workload_done req spec w settled result out st)
  then show ?case using held_less(1) [OF workload_done(1)] holds_release run_finish_app(2) [OF workload_done(2)] by simp
next
  case (kernel_started w st)
  then show ?case by (simp add: acquire_permit_app)
next
  case (kernel_done w req settled out st)
  then show ?case using submit_app(2) [OF kernel_done(2)] by (simp add: drop_permit_def)
next
  case (vm_reserved w spec rv st owner)
  then show ?case using holds_allocate reserve_app(1,2) [OF vm_reserved(1)] vm_resources_ok by simp
next
  case (vm_found owner rv w rec)
  then show ?case using held_moves(1) [OF vm_found(1)] by simp
next
  case (vm_up owner rv w rec info out st)
  then show ?case using held_moves(2) [OF vm_up(1)] vm_up_app(2) [OF vm_up(4)] by simp
next
  case (vm_overwritten owner rv w old rec info out st)
  then show ?case using held_moves(3) [OF vm_overwritten(1) vms_listed_mem] vm_up_app(2) [OF vm_overwritten(4)] by simp
next
  case (vm_failed owner rv w e out st)
  then show ?case using held_less(2) [OF vm_failed(1)] holds_release vm_failed_app(2) [OF vm_failed(2)] by simp
next
  case (vm_stopped w owner rec wipe h st h')
  then show ?case
    using held_less(3) [OF vms_listed_mem [OF vm_stopped(4,1)]] holds_release stop_app(2) [OF vm_stopped(2,1)] by simp
qed

lemma permits_step:
  assumes "node_step env racing w w'" and "permits_ok w"
  shows "permits_ok w'"
  using assms
  by (induction rule: node_step.induct)
    (auto simp: permits_ok_def drop_permit_def authorize_end_app(2) run_admit_app(2) run_finish_app(1) submit_app(1)
      acquire_permit_app(1) reserve_app(3) vm_up_app(3) vm_failed_app(3) stop_app(3) dest!: multi_member_split)

lemma stores_step:
  assumes "node_step env racing w w'" and "served_ok (as_served (nw_app w))" and "js_ok (as_jobs (nw_app w))"
  shows "served_ok (as_served (nw_app w')) \<and> js_ok (as_jobs (nw_app w'))"
  using assms
  by (induction rule: node_step.induct)
    (auto simp: authorize_end_app run_admit_app run_finish_app submit_app acquire_permit_app reserve_app
      vm_up_app vm_failed_app stop_app drop_permit_def)

lemma vms_listed_app: "vms_listed w \<Longrightarrow> as_vm st = as_vm (nw_app w) \<Longrightarrow> nw_app w' = st \<Longrightarrow> nw_vms w' = nw_vms w \<Longrightarrow>
    vms_listed w'"
  by (simp add: vms_listed_def)

lemma vms_step:
  assumes "node_step env racing w w'" and "vms_listed w"
  shows "vms_listed w'"
  using assms
proof (induction rule: node_step.induct)
  case (vm_up owner rv w rec info out st)
  then show ?case using vm_up_app(1) [OF vm_up(4)]
    by (auto simp: vms_listed_def vm_insert_def split: option.splits)
next
  case (vm_overwritten owner rv w old rec info out st)
  then show ?case using vm_up_app(1) [OF vm_overwritten(4)]
    by (auto simp: vms_listed_def vm_insert_def split: option.splits)
next
  case (vm_stopped w owner rec wipe h st h')
  then show ?case using stop_app(1) [OF vm_stopped(2,1)]
    by (auto simp: vms_listed_def split: option.splits)
next
  case (vm_failed owner rv w e out st)
  then show ?case using vm_failed_app(1) [OF vm_failed(2)] by (simp add: vms_listed_def)
next
  case (vm_found owner rv w rec)
  then show ?case by (simp add: vms_listed_def)
qed (auto simp: vms_listed_def authorize_end_app(3) run_admit_app(3) run_finish_app(3) submit_app(3)
      acquire_permit_app(3) reserve_app(4) drop_permit_def)

lemma starts_less:
  assumes "\<forall>b. count (add_mset a R) b \<le> 1 \<and> (b \<in># add_mset a R \<longrightarrow> P b)"
  shows "count R b \<le> 1" and "b \<in># R \<Longrightarrow> P b \<and> b \<noteq> a"
proof -
  have c: "count (add_mset a R) b \<le> 1" and m: "b \<in># add_mset a R \<longrightarrow> P b" using assms by blast+
  show "count R b \<le> 1" using c by (simp split: if_splits)
  assume b: "b \<in># R"
  then have "0 < count R b" by simp
  with c have "b \<noteq> a" by (auto simp del: count_greater_zero_iff split: if_splits)
  with b m show "P b \<and> b \<noteq> a" by simp
qed

lemma race_step:
  assumes "node_step env False w w'" and "no_race w"
  shows "no_race w'"
  using assms
proof (induction rule: node_step.induct)
  case (vm_reserved w spec rv st owner)
  then show ?case using reserve_app(4) [OF vm_reserved(1)] by (auto simp: no_race_def count_eq_zero_iff)
next
  case (vm_found owner rv w rec)
  then show ?case by (force simp: no_race_def)
next
  case (vm_overwritten owner rv w old rec info out st)
  then show ?case by (force simp: no_race_def)
next
  case (vm_up owner rv w rec info out st)
  then obtain rest where s: "nw_starting w = add_mset (owner, rv) rest" by (metis mset_add)
  then have f: "\<forall>b. count (add_mset owner (image_mset fst rest)) b \<le> 1 \<and>
      (b \<in># add_mset owner (image_mset fst rest) \<longrightarrow> vm_vms (as_vm (nw_app w)) b = None)"
    using vm_up(5) by (simp add: no_race_def)
  have "nw_lost w = {#}" using vm_up(5) by (simp add: no_race_def)
  then show ?case using starts_less [OF f] s vm_up_app(1) [OF vm_up(4)]
    by (simp add: no_race_def vm_insert_def del: in_image_mset)
next
  case (vm_failed owner rv w e out st)
  then obtain rest where s: "nw_starting w = add_mset (owner, rv) rest" by (metis mset_add)
  then have f: "\<forall>b. count (add_mset owner (image_mset fst rest)) b \<le> 1 \<and>
      (b \<in># add_mset owner (image_mset fst rest) \<longrightarrow> vm_vms (as_vm (nw_app w)) b = None)"
    using vm_failed(3) by (simp add: no_race_def)
  have "nw_lost w = {#}" using vm_failed(3) by (simp add: no_race_def)
  then show ?case using starts_less [OF f] s vm_failed_app(1) [OF vm_failed(2)]
    by (simp add: no_race_def del: in_image_mset)
next
  case (vm_stopped w owner rec wipe h st h')
  then show ?case using stop_app(1) [OF vm_stopped(2,1)] by (auto simp: no_race_def)
qed (auto simp: no_race_def authorize_end_app(3) run_admit_app(3) run_finish_app(3) submit_app(3)
      acquire_permit_app(3) drop_permit_def)

lemma node_reach_inv: "node_reach env racing w \<Longrightarrow> node_inv racing w"
proof (induction rule: node_reach.induct)
  case (booted w)
  then show ?case by (rule node_inv_boot)
next
  case (stepped w w')
  then show ?case
    using holds_step [OF stepped(2)] permits_step [OF stepped(2)] vms_step [OF stepped(2)] stores_step [OF stepped(2)]
      race_step [of env w w'] by (auto simp: node_inv_def)
qed



section \<open>The leak\<close>

definition vm_of :: "resource_vector \<Rightarrow> vm_record" where
  "vm_of rv = \<lparr>vr_vm_id = '''', vr_image = '''', vr_volume = '''', vr_ports = [], vr_host_ports = Map.empty,
     vr_allocated = rv, vr_created_at = 0, vr_rate = 0, vr_budget = 0\<rparr>"

lemma start_vm_finish_up:
  "start_vm_finish st rv (Inr info, m) = (Inr (Ready info), st\<lparr>as_vm := m\<rparr>)"
  by (simp add: start_vm_finish_def)

text \<open>
  The race leaks. If an owner's two starts are both in flight and both fit, then after the first
  has brought the VM up, the second has found it, and the VM has been stopped again, the reservation of
  the second is still counted, though nothing holds it.
\<close>
theorem vm_start_race_leaks:
  assumes w: "node_reach env True w" and none: "vm_vms (as_vm (nw_app w)) owner = None"
    and spec: "bt_ok (ws_resources spec)"
    and r1: "start_vm_reserve (nw_app w) spec = Inr (rv, st1)" and r2: "start_vm_reserve st1 spec = Inr (rv, st2)"
  shows "\<exists>w'. node_reach env True w' \<and> nw_running w' = nw_running w \<and> nw_starting w' = nw_starting w \<and>
     nw_vms w' = nw_vms w \<and> nw_lost w' = add_mset rv (nw_lost w) \<and>
     (\<forall>k. amt (r_allocated (as_resources (nw_app w'))) k = amt (r_allocated (as_resources (nw_app w))) k + amt rv k)"
proof -
  let ?w1 = "w\<lparr>nw_app := st1, nw_starting := add_mset (owner, rv) (nw_starting w)\<rparr>"
  let ?w2 = "?w1\<lparr>nw_app := st2, nw_starting := add_mset (owner, rv) (nw_starting ?w1)\<rparr>"
  obtain info :: vm_info where True by blast
  let ?m = "vm_insert owner (vm_of rv) (as_vm st2)"
  let ?w3 = "?w2\<lparr>nw_app := st2\<lparr>as_vm := ?m\<rparr>, nw_starting := nw_starting ?w2 - {#(owner, rv)#},
     nw_vms := add_mset (owner, rv) (nw_vms ?w2)\<rparr>"
  let ?w4 = "?w3\<lparr>nw_starting := nw_starting ?w3 - {#(owner, rv)#}, nw_lost := add_mset rv (nw_lost ?w3)\<rparr>"
  obtain st5 h5 where s5: "stop_vm env (nw_app ?w4) owner False [] = (st5, h5)" by fastforce
  let ?w5 = "?w4\<lparr>nw_app := st5, nw_vms := nw_vms ?w4 - {#(owner, rv)#}\<rparr>"
  have vm2: "vm_vms (as_vm st2) owner = None" using none r1 r2 by (simp add: reserve_app)
  have a: "vr_allocated (vm_of rv) = rv" by (simp add: vm_of_def)
  have "node_reach env True ?w1" by (rule stepped [OF w vm_reserved [OF r1 spec]]) simp
  moreover have "node_step env True ?w1 ?w2"
    by (rule vm_reserved [where st = st2 and spec = spec]) (use r2 spec in simp_all)
  ultimately have w2: "node_reach env True ?w2" by (rule stepped)
  have "node_step env True ?w2 ?w3"
    by (rule vm_up [where st = "st2\<lparr>as_vm := ?m\<rparr>" and rec = "vm_of rv" and info = info])
      (use vm2 a in \<open>simp_all add: start_vm_finish_up\<close>)
  with w2 have w3: "node_reach env True ?w3" by (rule stepped)
  have "node_step env True ?w3 ?w4"
    by (rule vm_found [where rec = "vm_of rv"]) (simp_all add: vm_insert_def)
  with w3 have w4: "node_reach env True ?w4" by (rule stepped)
  have v4: "vm_vms (as_vm (nw_app ?w4)) owner = Some (vm_of rv)" by (simp add: vm_insert_def)
  have "node_step env True ?w4 ?w5" using vm_stopped [OF v4 s5] by (simp add: a)
  with w4 have w5: "node_reach env True ?w5" by (rule stepped)
  have h: "held ?w5 = add_mset rv (held w)" by (simp add: held_def)
  have "amt (r_allocated (as_resources (nw_app ?w5))) k = amt (r_allocated (as_resources (nw_app w))) k + amt rv k" for k
    using node_reach_inv [OF w5] node_reach_inv [OF w] h by (simp add: node_inv_def holds_exactly_def)
  then show ?thesis using w5 by (intro exI [of _ ?w5]) simp
qed

definition demo_world :: node_world where
  "demo_world = \<lparr>nw_app = demo_state\<lparr>as_jobs := with_persistence []\<rparr>, nw_running = {#}, nw_kernels = 0,
     nw_starting = {#}, nw_vms = {#}, nw_lost = {#}\<rparr>"

lemma demo_boot: "node_boot demo_world"
proof -
  have "declare_resources [(Cpu, 32000), (Memory, 4096)] [(Cpu, 16000), (Memory, 4096)] = Inr (as_resources demo_state)"
    by (simp add: declare_resources_def demo_state_def rv_get_def)
  moreover have "bt_ok [(Cpu, 32000 :: u64), (Memory, 4096)]" "bt_ok [(Cpu, 16000 :: u64), (Memory, 4096)]"
    by (simp_all add: bt_ok_def less_resource_kind_def)
  ultimately show ?thesis unfolding node_boot_def demo_world_def
    by (auto simp: demo_state_def MAX_CONCURRENT_JOBS_def)
qed

lemma demo_world_reach: "node_reach demo_node_env racing demo_world"
  by (rule booted [OF demo_boot])



lemma demo_vm_resources: "vm_resources demo_spec False = [(Cpu, 2000), (Memory, 512)]"
  by (simp add: vm_resources_def demo_spec_def default_spec_def rv_get_def rv_with_def Let_def
      less_resource_kind_def bt_remove_def)

lemma demo_reserve:
  "\<exists>st1 st2. start_vm_reserve (nw_app demo_world) demo_spec = Inr ([(Cpu, 2000), (Memory, 512)], st1) \<and>
     start_vm_reserve st1 demo_spec = Inr ([(Cpu, 2000), (Memory, 512)], st2)"
  by (simp add: start_vm_reserve_def demo_world_def demo_state_def node_has_docker_def cap_name_def
      demo_vm_resources Let_def allocate_def available_def rv_get_def rv_saturating_sub_def rv_checked_add_def
      bt_entry_def saturating_add_def saturating_sub_def less_resource_kind_def)

lemma vm_start_race_leaks_witness:
  "\<exists>w'. node_reach demo_node_env True w' \<and> nw_vms w' = {#} \<and> nw_running w' = {#} \<and> nw_starting w' = {#} \<and>
     amt (r_allocated (as_resources (nw_app w'))) Cpu = 2000"
proof -
  obtain st1 st2 where r: "start_vm_reserve (nw_app demo_world) demo_spec = Inr ([(Cpu, 2000), (Memory, 512)], st1)"
    "start_vm_reserve st1 demo_spec = Inr ([(Cpu, 2000), (Memory, 512)], st2)" using demo_reserve by blast
  have n: "vm_vms (as_vm (nw_app demo_world)) ''alice'' = None"
    by (simp add: demo_world_def demo_state_def vm_manager_new_def)
  have b: "bt_ok (ws_resources demo_spec)" by (simp add: demo_spec_def bt_ok_def)
  have "amt [(Cpu, 2000), (Memory, 512)] Cpu = 2000" "amt (r_allocated (as_resources (nw_app demo_world))) Cpu = 0"
    by (simp_all add: amt_def rv_get_def demo_world_def demo_state_def)
  with vm_start_race_leaks [OF demo_world_reach n b r] show ?thesis by (force simp: demo_world_def)
qed

end
