(* ===== verification/P2p.thy ===== *)
theory P2p
  imports Node_World
begin

text \<open>
  The wire protocol (\<open>crates/common/src/proto.rs\<close>) and its front on a provider
  (\<open>crates/cloudiy/src/p2p.rs\<close>): length-prefixed frames, the frames of an interactive session, the
  admission of streams, the dispatch of requests, sessions and tunnels. JSON and the QUIC streams are
  dependencies: a stream is the bytes the peer has sent.
\<close>

section \<open>Frames\<close>

definition MAX_FRAME :: nat where
  "MAX_FRAME = 8 * 1024 * 1024"

datatype frame_error = FrameTooLong | ReadLength | FrameLengthTooLong | ReadBody

definition write_frame :: "bytes \<Rightarrow> frame_error + bytes" where
  "write_frame bs =
     rbind (require (length bs \<le> MAX_FRAME) FrameTooLong) (\<lambda>_.
     Inr (to_be_bytes (of_nat (length bs) :: u32) @ bs))"

text \<open>The frame and the rest of the stream; \<open>None\<close> at a clean end.\<close>

definition read_frame :: "bytes \<Rightarrow> frame_error + (bytes \<times> bytes) option" where
  "read_frame stream =
     (if stream = [] then Inr None
      else if length stream < 4 then Inl ReadLength
      else let len = unat (from_be_bytes (take 4 stream) :: u32); rest = drop 4 stream in
        rbind (require (len \<le> MAX_FRAME) FrameLengthTooLong) (\<lambda>_.
        rbind (require (len \<le> length rest) ReadBody) (\<lambda>_.
        Inr (Some (take len rest, drop len rest)))))"

section \<open>Sessions\<close>

datatype session_frame = FData bytes | FResize u16 u16 | FEof | FExit "i32 option" | FError string

definition TAG_DATA :: u8 where "TAG_DATA = 1"
definition TAG_RESIZE :: u8 where "TAG_RESIZE = 2"
definition TAG_EOF :: u8 where "TAG_EOF = 3"
definition TAG_EXIT :: u8 where "TAG_EXIT = 4"
definition TAG_ERROR :: u8 where "TAG_ERROR = 5"

definition I32_MIN :: i32 where
  "I32_MIN = 0x80000000"

fun session_bytes :: "session_frame \<Rightarrow> bytes" where
  "session_bytes (FData d) = TAG_DATA # d"
| "session_bytes (FResize cols rows) = TAG_RESIZE # to_be_bytes cols @ to_be_bytes rows"
| "session_bytes FEof = [TAG_EOF]"
| "session_bytes (FExit code) = TAG_EXIT # to_be_bytes (case code of Some c \<Rightarrow> c | None \<Rightarrow> I32_MIN)"
| "session_bytes (FError msg) = TAG_ERROR # as_bytes msg"

definition write_session_frame :: "session_frame \<Rightarrow> frame_error + bytes" where
  "write_session_frame f = write_frame (session_bytes f)"

datatype session_error = SFrame frame_error | EmptyFrame | BadResize | BadExit | UnknownTag u8

text \<open>\<open>String::from_utf8_lossy\<close> is a parameter.\<close>

definition parse_session_frame :: "(bytes \<Rightarrow> string) \<Rightarrow> bytes \<Rightarrow> session_error + session_frame" where
  "parse_session_frame lossy buf =
     (case buf of
        [] \<Rightarrow> Inl EmptyFrame
      | tag # payload \<Rightarrow>
          if tag = TAG_DATA then Inr (FData payload)
          else if tag = TAG_RESIZE then
            rbind (require (length payload = 4) BadResize) (\<lambda>_.
            Inr (FResize (from_be_bytes (take 2 payload)) (from_be_bytes (drop 2 payload))))
          else if tag = TAG_EOF then Inr FEof
          else if tag = TAG_EXIT then
            rbind (require (length payload = 4) BadExit) (\<lambda>_.
            let code = from_be_bytes payload in Inr (FExit (if code \<noteq> I32_MIN then Some code else None)))
          else if tag = TAG_ERROR then Inr (FError (lossy payload))
          else Inl (UnknownTag tag))"

definition read_session_frame ::
  "(bytes \<Rightarrow> string) \<Rightarrow> bytes \<Rightarrow> session_error + (session_frame \<times> bytes) option" where
  "read_session_frame lossy stream =
     (case read_frame stream of
        Inl e \<Rightarrow> Inl (SFrame e)
      | Inr None \<Rightarrow> Inr None
      | Inr (Some (buf, rest)) \<Rightarrow> rbind (parse_session_frame lossy buf) (\<lambda>f. Inr (Some (f, rest))))"

text \<open>A whole session: frames until the stream ends or a frame is bad.\<close>

lemma read_frame_shorter: "read_frame s = Inr (Some (buf, rest)) \<Longrightarrow> length rest < length s"
  by (auto simp: read_frame_def result_iff Let_def split: if_splits)

function read_session :: "(bytes \<Rightarrow> string) \<Rightarrow> bytes \<Rightarrow> session_frame list" where
  "read_session lossy stream =
     (case read_session_frame lossy stream of
        Inr (Some (f, rest)) \<Rightarrow> f # read_session lossy rest
      | _ \<Rightarrow> [])"
  by auto
termination
proof (relation "measure (\<lambda>(lossy, s). length s)")
  fix lossy s x2 opt p f rest
  assume "read_session_frame lossy s = Inr opt" "opt = Some p" "(f, rest) = p"
  then show "((lossy, rest), lossy, s) \<in> measure (\<lambda>(lossy, s). length s)"
    by (auto simp: read_session_frame_def result_iff dest!: read_frame_shorter split: sum.splits option.splits)
qed simp

declare read_session.simps [simp del]

section \<open>Requests and responses\<close>

datatype request =
    RSubmit job_request | RRunWorkload job_request workload_spec | RStatus string | RInfo
  | RAnnounce signed_payload | RProviders | RReputation | REndpointInterest string | RDemand
  | RStartVm job_request workload_spec | RVmStatus job_request | RStopVm job_request bool
  | ROpenSession job_request "string list" u16 u16 | RTunnel job_request u16
  | RRunEndpoint job_request string string

record demand_entry =
  de_key :: string
  de_recent_interest :: u32
  de_providers :: u32

datatype response =
    SJob job_response | SStatus status_response | SInfo node_info | SPaymentRequired json | SAck
  | SProviders "signed_payload list" | SDemand "demand_entry list" | SReputation signed_payload
  | SVm vm_info | SSessionOpened string | SError string | SVmError vm_failure

text \<open>
  What the node keeps while it serves, and the readings of its clocks and timers during one request.
\<close>

record provider_state =
  ps_app :: app_state
  ps_hits :: rate_hits
  ps_history :: "command list"

record readings =
  rd_now :: i64
  rd_took :: nat
  rd_instant :: nat
  rd_t1 :: datetime
  rd_t2 :: datetime

fun submit_response :: "string + submit_outcome \<Rightarrow> response" where
  "submit_response (Inr (Completed r)) = SJob r"
| "submit_response (Inr (PaymentRequired requirements)) = SPaymentRequired requirements"
| "submit_response (Inl message) = SError message"

fun vm_response :: "vm_failure + vm_outcome \<Rightarrow> response" where
  "vm_response (Inr (Ready info)) = SVm info"
| "vm_response (Inr (VmPaymentRequired requirements)) = SPaymentRequired requirements"
| "vm_response (Inl e) = SVmError e"

fun handle_rpc ::
  "('k, 's) node_env \<Rightarrow> readings \<Rightarrow> string \<Rightarrow> request \<Rightarrow> provider_state \<Rightarrow> response \<times> provider_state" where
  "handle_rpc env clk owner RInfo ps = (SInfo (node_info_of (ps_app ps)), ps)"
| "handle_rpc env clk owner (RStatus jid) ps = (SStatus (job_status (ps_app ps) jid), ps)"
| "handle_rpc env clk owner (RSubmit job) ps =
     (case submit_guarded env (ps_app ps) job None (rd_now clk) (rd_took clk) of
        (r, st) \<Rightarrow> (submit_response r, ps\<lparr>ps_app := st\<rparr>))"
| "handle_rpc env clk owner (RRunWorkload req spec) ps =
     (case run_workload env (ps_app ps) req spec None (rd_now clk) of
        (r, st, _) \<Rightarrow> (submit_response r, ps\<lparr>ps_app := st\<rparr>))"
| "handle_rpc env clk owner (RStartVm req spec) ps =
     (case start_vm env (ps_app ps) owner req spec None (rd_now clk) (rd_t1 clk) (rd_t2 clk) (ps_history ps) of
        ((r, st), h) \<Rightarrow> (vm_response r, ps\<lparr>ps_app := st, ps_history := h\<rparr>))"
| "handle_rpc env clk owner (RRunEndpoint req key prompt) ps =
     (case run_endpoint_guarded env (ps_app ps) (ps_hits ps) req key prompt owner (rd_instant clk) (rd_now clk) of
        (r, st, hits) \<Rightarrow> (submit_response r, ps\<lparr>ps_app := st, ps_hits := hits\<rparr>))"
| "handle_rpc env clk owner (RVmStatus _) ps =
     (case vm_status env (ps_app ps) owner (rd_t1 clk) (rd_t2 clk) (ps_history ps) of
        ((info, st), h) \<Rightarrow> (SVm info, ps\<lparr>ps_app := st, ps_history := h\<rparr>))"
| "handle_rpc env clk owner (RStopVm _ wipe) ps =
     (case stop_vm env (ps_app ps) owner wipe (ps_history ps) of
        (st, h) \<Rightarrow> (SAck, ps\<lparr>ps_app := st, ps_history := h\<rparr>))"
| "handle_rpc env clk owner (ROpenSession _ _ _ _) ps = (SError ''internal routing error'', ps)"
| "handle_rpc env clk owner (RTunnel _ _) ps = (SError ''internal routing error'', ps)"
| "handle_rpc env clk owner _ ps =
     (SError ''this is a provider node - discovery/demand requests go to a directory node'', ps)"

section \<open>Sessions and tunnels\<close>

datatype session_start = SessionRefused response | SessionRun response command u16 u16

definition lease_expired :: response where
  "lease_expired = SError ''VM lease exhausted - top up and re-provision (`cloudiy vm up`)''"

definition session_busy :: response where
  "session_busy = SError ''provider is at interactive-session capacity - try again shortly''"

definition node_busy :: response where
  "node_busy = SError ''provider is at inbound-stream capacity - retry shortly''"

definition handle_session ::
  "vm_env \<Rightarrow> app_state \<Rightarrow> string \<Rightarrow> string list \<Rightarrow> u16 \<Rightarrow> u16 \<Rightarrow> datetime \<Rightarrow> session_start" where
  "handle_session env st owner command cols rows now =
     (if \<not> has_running (as_vm st) owner
      then SessionRefused (SError ''no VM for this identity - run `cloudiy vm up` first'')
      else if lease_exhausted (as_vm st) owner now then SessionRefused lease_expired
      else case open_shell (as_vm st) owner command cols rows of
        Inl e \<Rightarrow> SessionRefused (SVmError (VmStartFailed e))
      | Inr (args, c, r) \<Rightarrow>
          SessionRun (SSessionOpened (case vm_status_of env (as_vm st) owner now of
            Some v \<Rightarrow> vi_vm_id v | None \<Rightarrow> '''')) args c r)"

text \<open>The host port a tunnel is connected to, or the refusal.\<close>

definition handle_tunnel :: "vm_env \<Rightarrow> app_state \<Rightarrow> string \<Rightarrow> u16 \<Rightarrow> datetime \<Rightarrow> response + u16" where
  "handle_tunnel env st owner port now =
     (let unpublished = SError (''port '' @ show_word port @ '' is not published by your VM'') in
      rbind (require (case vm_status_of env (as_vm st) owner now of
                 Some v \<Rightarrow> port \<in> set (vi_ports v) | None \<Rightarrow> False) unpublished) (\<lambda>_.
      rbind (require (\<not> lease_exhausted (as_vm st) owner now) lease_expired) (\<lambda>_.
      ok_or (host_port (as_vm st) owner port) unpublished)))"

text \<open>
  Streams and their permits: the budget of the node and of the connection, both held until the stream
  ends. \<open>None\<close> is a refusal with \<open>node_busy\<close>.
\<close>

definition MAX_CONCURRENT_INBOUND_STREAMS :: nat where
  "MAX_CONCURRENT_INBOUND_STREAMS = 64"

definition MAX_INBOUND_STREAMS_PER_CONN :: nat where
  "MAX_INBOUND_STREAMS_PER_CONN = 16"

definition admit_stream :: "nat \<Rightarrow> nat \<Rightarrow> (nat \<times> nat) option" where
  "admit_stream inbound per_conn =
     (if inbound = 0 then None else if per_conn = 0 then None else Some (inbound - 1, per_conn - 1))"

datatype served = OneShot response | Refused response | Session command u16 u16 | TunnelTo u16

definition handle_stream ::
  "('k, 's) node_env \<Rightarrow> readings \<Rightarrow> string \<Rightarrow> (string + request) \<Rightarrow> provider_state \<Rightarrow> served \<times> provider_state" where
  "handle_stream env clk owner msg ps =
     (case msg of
        Inl e \<Rightarrow> (Refused (SError (''bad request: '' @ e)), ps)
      | Inr (ROpenSession _ command cols rows) \<Rightarrow>
          (if as_sessions (ps_app ps) = 0 then (Refused session_busy, ps)
           else case handle_session (ne_vm env) (ps_app ps) owner command cols rows (rd_t1 clk) of
             SessionRefused r \<Rightarrow> (Refused r, ps) | SessionRun _ args c r \<Rightarrow> (Session args c r, ps))
      | Inr (RTunnel _ port) \<Rightarrow>
          (if as_sessions (ps_app ps) = 0 then (Refused session_busy, ps)
           else case handle_tunnel (ne_vm env) (ps_app ps) owner port (rd_t1 clk) of
             Inl r \<Rightarrow> (Refused r, ps) | Inr hp \<Rightarrow> (TunnelTo hp, ps))
      | Inr req \<Rightarrow> (case handle_rpc env clk owner req ps of (resp, ps') \<Rightarrow> (OneShot resp, ps')))"


section \<open>Frames round-trip\<close>

lemma read_frame_write:
  assumes "write_frame bs = Inr w"
  shows "read_frame (w @ rest) = Inr (Some (bs, rest))"
proof -
  have len: "length bs \<le> MAX_FRAME" and w: "w = to_be_bytes (of_nat (length bs) :: u32) @ bs"
    using assms by (auto simp: write_frame_def result_iff)
  have "unat (from_be_bytes (to_be_bytes (of_nat (length bs) :: u32)) :: u32) = length bs"
    using len by (simp add: from_to_be_bytes unat_of_nat MAX_FRAME_def)
  then show ?thesis
    using len by (auto simp: read_frame_def w Let_def simp flip: length_0_conv)
qed

definition as_received :: "session_frame \<Rightarrow> session_frame" where
  "as_received f = (if f = FExit (Some I32_MIN) then FExit None else f)"

lemma parse_session_bytes:
  assumes "\<And>msg. f = FError msg \<Longrightarrow> lossy (as_bytes msg) = msg"
  shows "parse_session_frame lossy (session_bytes f) = Inr (as_received f)"
  using assms
  by (cases f) (auto simp: parse_session_frame_def as_received_def from_to_be_bytes Let_def TAG_DATA_def
      TAG_RESIZE_def TAG_EOF_def TAG_EXIT_def TAG_ERROR_def split: option.splits)

lemma read_session_write:
  assumes "write_session_frame f = Inr w" and "\<And>msg. f = FError msg \<Longrightarrow> lossy (as_bytes msg) = msg"
  shows "read_session_frame lossy (w @ rest) = Inr (Some (as_received f, rest))"
  using read_frame_write [OF assms(1) [unfolded write_session_frame_def], of rest] parse_session_bytes [of f lossy, OF assms(2)]
  by (simp add: read_session_frame_def)

lemma frames_read_back:
  assumes "map write_session_frame fs = map Inr ws"
    and "\<And>msg. FError msg \<in> set fs \<Longrightarrow> lossy (as_bytes msg) = msg"
  shows "read_session lossy (concat ws) = map (\<lambda>f. if f = FExit (Some I32_MIN) then FExit None else f) fs"
  using assms
proof (induction fs arbitrary: ws)
  case Nil
  then show ?case by (simp add: read_session.simps [of lossy "[]"] read_session_frame_def read_frame_def)
next
  case (Cons f fs)
  then obtain w ws' where ws: "ws = w # ws'" by (cases ws) auto
  have "read_session_frame lossy (w @ concat ws') = Inr (Some (as_received f, concat ws'))"
    using Cons.prems ws by (intro read_session_write) auto
  then show ?case
    using Cons.IH [of ws'] Cons.prems ws by (simp add: read_session.simps [of lossy "w @ concat ws'"] as_received_def)
qed

text \<open>
  C25. What one side of a session writes is what the other reads: a byte stream made of any sequence of
  written frames decodes, boundaries and contents, to that sequence, and reading it ends. The one
  exception is an exit code of -2147483648, the number the wire uses for an exit without a code.
\<close>
theorem session_roundtrip:
  assumes "map write_session_frame fs = map Inr ws"
    and "\<And>msg. FError msg \<in> set fs \<Longrightarrow> lossy (as_bytes msg) = msg"
  shows "read_session lossy (concat ws) = map (\<lambda>f. if f = FExit (Some I32_MIN) then FExit None else f) fs"
  using assms by (rule frames_read_back)

lemma session_roundtrip_witness:
  "\<exists>w1 w2. map write_session_frame [FResize 80 24, FExit (Some I32_MIN)] = map Inr [w1, w2] \<and>
     read_session (\<lambda>_. []) (w1 @ w2) = [FResize 80 24, FExit None]"
proof -
  obtain w1 w2 where w: "map write_session_frame [FResize 80 24, FExit (Some I32_MIN)] = map Inr [w1, w2]"
    by (auto simp: write_session_frame_def write_frame_def MAX_FRAME_def)
  from session_roundtrip [OF w, of "\<lambda>_. []"] w show ?thesis by auto
qed

section \<open>Who reaches what\<close>

text \<open>
  C10. Interactive streams only reach the caller's own VM. A stream is connected to a port of the host
  only if that is the port Docker bound for a port which the authenticated peer's own running VM
  published, and a shell only runs inside the container of that VM; in both cases the lease is not
  used up and a permit for interactive streams was free. Neither changes the state of the node.
\<close>
theorem streams_reach_own_vm:
  assumes "handle_stream env clk owner msg ps = (out, ps')"
  shows "(\<forall>hp. out = TunnelTo hp \<longrightarrow> 0 < as_sessions (ps_app ps) \<and> ps' = ps \<and>
            (\<exists>rec port. vm_vms (as_vm (ps_app ps)) owner = Some rec \<and> port \<in> set (vr_ports rec) \<and>
               vr_host_ports rec port = Some hp \<and> \<not> exhausted rec (rd_t1 clk))) \<and>
         (\<forall>args cols rows. out = Session args cols rows \<longrightarrow> 0 < as_sessions (ps_app ps) \<and> ps' = ps \<and>
            (\<exists>rec inside. vm_vms (as_vm (ps_app ps)) owner = Some rec \<and> \<not> exhausted rec (rd_t1 clk) \<and>
               args = [''exec'', ''-it'', vr_vm_id rec] @ inside \<and> inside \<noteq> [] \<and> 0 < cols \<and> 0 < rows))"
proof (rule conjI; intro allI impI)
  fix hp assume o: "out = TunnelTo hp"
  then obtain req port where "msg = Inr (RTunnel req port)"
    using assms by (auto simp: handle_stream_def split: sum.splits request.splits if_splits session_start.splits prod.splits)
  then show "0 < as_sessions (ps_app ps) \<and> ps' = ps \<and>
      (\<exists>rec port. vm_vms (as_vm (ps_app ps)) owner = Some rec \<and> port \<in> set (vr_ports rec) \<and>
         vr_host_ports rec port = Some hp \<and> \<not> exhausted rec (rd_t1 clk))"
    using assms o by (auto simp: handle_stream_def handle_tunnel_def result_iff Let_def vm_status_of_def
        record_to_info_def host_port_def lease_exhausted_def split: if_splits sum.splits option.splits)
next
  fix args cols rows assume o: "out = Session args cols rows"
  then obtain req c co ro where "msg = Inr (ROpenSession req c co ro)"
    using assms by (auto simp: handle_stream_def split: sum.splits request.splits if_splits session_start.splits prod.splits)
  then show "0 < as_sessions (ps_app ps) \<and> ps' = ps \<and>
      (\<exists>rec inside. vm_vms (as_vm (ps_app ps)) owner = Some rec \<and> \<not> exhausted rec (rd_t1 clk) \<and>
         args = [''exec'', ''-it'', vr_vm_id rec] @ inside \<and> inside \<noteq> [] \<and> 0 < cols \<and> 0 < rows)"
    using assms o by (auto simp: handle_stream_def handle_session_def open_shell_def result_iff has_running_def
        lease_exhausted_def shell_args_def word_gt_0 split: if_splits sum.splits option.splits session_start.splits)
qed

lemma stop_vm_others: "stop_vm env st owner wipe h = (st', h') \<Longrightarrow> other \<noteq> owner \<Longrightarrow>
    vm_vms (as_vm st') other = vm_vms (as_vm st) other"
  by (auto simp: stop_vm_def vm_stop_def split: prod.splits option.splits)

lemma vm_start_others: "vm_start env self owner spec rv rate budget t1 t2 h = ((r, self'), h') \<Longrightarrow> other \<noteq> owner \<Longrightarrow>
    vm_vms self' other = vm_vms self other"
  by (auto simp: vm_start_def vm_insert_def split: prod.splits option.splits sum.splits)

lemma start_vm_others:
  assumes "start_vm env st owner req spec ov now t1 t2 h = ((r, st'), h')" and "other \<noteq> owner"
  shows "vm_vms (as_vm st') other = vm_vms (as_vm st) other"
  using assms vm_start_others [OF _ assms(2)]
  by (auto simp: start_vm_def start_vm_finish_def start_vm_reserve_def result_iff Let_def
      dest!: authorize_keeps split: prod.splits option.splits sum.splits)

fun response_owner :: "response \<Rightarrow> string option" where
  "response_owner (SVm info) = Some (vi_owner info)"
| "response_owner _ = None"

lemma submit_guarded_vm: "submit_guarded env st req ov now took = (r, st') \<Longrightarrow> as_vm st' = as_vm st"
  by (auto simp: submit_guarded_def acquire_permit_def drop_permit_def dest!: authorize_keeps submit_app(3)
      split: prod.splits sum.splits if_splits)

lemma run_endpoint_vm: "run_endpoint_guarded env st hits req key prompt owner i now = (r, st', hits') \<Longrightarrow> as_vm st' = as_vm st"
  by (auto simp: run_endpoint_guarded_def dest!: authorize_keeps split: prod.splits sum.splits bool.splits)

lemma run_workload_vm:
  assumes "run_workload env st req spec ov now = (r, st', ev)"
  shows "as_vm st' = as_vm st"
  using assms by (auto simp: run_workload_def dest!: authorize_keeps run_admit_app(3) run_finish_app(3)
      split: prod.splits sum.splits)

lemma vm_status_vms: "vm_status env st owner t1 t2 h = ((info, st'), h') \<Longrightarrow>
    vm_vms (as_vm st') = vm_vms (as_vm st) \<and> vi_owner info = owner"
  by (auto simp: vm_status_def refresh_volume_size_def vm_status_of_def record_to_info_def missing_vm_def
      split: prod.splits option.splits if_splits sum.splits)

lemma start_vm_owner:
  assumes "start_vm env st owner req spec ov now t1 t2 h = ((Inr (Ready info), st'), h')"
  shows "vi_owner info = owner"
  using assms by (auto simp: start_vm_def start_vm_finish_def vm_start_def vm_status_of_def record_to_info_def
      split: prod.splits option.splits sum.splits)

lemma vm_response_owner: "response_owner (vm_response r) = Some o1 \<Longrightarrow> \<exists>info. r = Inr (Ready info) \<and> vi_owner info = o1"
  by (cases r; simp; cases "projr r") (auto split: vm_outcome.splits)

lemma submit_response_owner [simp]: "response_owner (submit_response r) = None"
  by (cases r rule: submit_response.cases) auto

lemma rpc_owner:
  assumes "handle_rpc env clk owner req ps = (resp, ps')" and "other \<noteq> owner"
  shows "vm_vms (as_vm (ps_app ps')) other = vm_vms (as_vm (ps_app ps)) other \<and>
     (\<forall>o1. response_owner resp = Some o1 \<longrightarrow> o1 = owner)"
proof (cases req)
  case (RStartVm r spec)
  then show ?thesis
    using assms start_vm_others [OF _ assms(2)]
    by (auto split: prod.splits dest!: vm_response_owner start_vm_owner)
next
  case (RStopVm r wipe)
  then show ?thesis using assms stop_vm_others [OF _ assms(2)] by (auto split: prod.splits)
next
  case (RVmStatus r)
  then show ?thesis using assms vm_status_vms by (fastforce split: prod.splits)
next
  case (RRunEndpoint r k p)
  then show ?thesis using assms by (auto split: prod.splits dest!: run_endpoint_vm)
next
  case (RRunWorkload r s)
  then show ?thesis using assms by (auto split: prod.splits dest!: run_workload_vm)
next
  case (RSubmit r)
  then show ?thesis using assms by (auto split: prod.splits dest!: submit_guarded_vm)
qed (use assms in auto)

text \<open>
  A request only touches the caller's own VM. Whatever one authenticated peer sends (also the
  requests of interactive streams and those meant for a directory), the records of the VMs of all
  other owners (container, ports, lease, reserved resources) are what they were, and a response that
  describes a VM describes the caller's.
\<close>
theorem requests_stay_with_owner:
  assumes "handle_stream env clk owner msg ps = (out, ps')" and "other \<noteq> owner"
  shows "vm_vms (as_vm (ps_app ps')) other = vm_vms (as_vm (ps_app ps)) other \<and>
     (\<forall>resp o1. out = OneShot resp \<and> response_owner resp = Some o1 \<longrightarrow> o1 = owner)"
proof (cases "\<exists>req. msg = Inr req \<and> handle_stream env clk owner msg ps =
    (case handle_rpc env clk owner req ps of (resp, ps1) \<Rightarrow> (OneShot resp, ps1))")
  case True
  then obtain req where r: "handle_stream env clk owner msg ps =
    (case handle_rpc env clk owner req ps of (resp, ps1) \<Rightarrow> (OneShot resp, ps1))" by blast
  obtain resp ps1 where h: "handle_rpc env clk owner req ps = (resp, ps1)" by fastforce
  show ?thesis using rpc_owner [OF h assms(2)] r h assms(1) by auto
next
  case False
  then have "ps' = ps \<and> (\<forall>resp. out \<noteq> OneShot resp)"
    using assms(1) by (cases msg; cases "projr msg")
      (auto simp: handle_stream_def split: if_splits session_start.splits sum.splits)
  then show ?thesis by simp
qed

section \<open>A provider with one VM\<close>

definition demo_record :: vm_record where
  "demo_record = \<lparr>vr_vm_id = ''cloudiy-vm-alice'', vr_image = ''ubuntu'', vr_volume = ''cloudiy-vol-alice'',
     vr_ports = [80], vr_host_ports = [80 \<mapsto> 49153], vr_allocated = [(Cpu, 1000)], vr_created_at = 0,
     vr_rate = 100, vr_budget = 50\<rparr>"

definition demo_provider :: provider_state where
  "demo_provider = \<lparr>ps_app = demo_state\<lparr>as_vm := vm_insert ''alice'' demo_record (as_vm demo_state), as_sessions := 16\<rparr>,
     ps_hits = (\<lambda>_. []), ps_history = []\<rparr>"

definition demo_readings :: readings where
  "demo_readings = \<lparr>rd_now = 1000, rd_took = 1, rd_instant = 0, rd_t1 = 60 * 10 ^ 9, rd_t2 = 61 * 10 ^ 9\<rparr>"

lemma demo_tunnel:
  "handle_stream demo_node_env demo_readings ''alice'' (Inr (RTunnel demo_request 80)) demo_provider =
     (TunnelTo 49153, demo_provider)"
  by (simp add: handle_stream_def handle_tunnel_def demo_provider_def demo_readings_def demo_record_def vm_insert_def
      vm_status_of_def record_to_info_def lease_exhausted_def exhausted_def accrued_def num_seconds_def host_port_def word_le_nat_alt)

lemma streams_reach_own_vm_witness:
  "\<exists>rec port. vm_vms (as_vm (ps_app demo_provider)) ''alice'' = Some rec \<and> port \<in> set (vr_ports rec) \<and>
     vr_host_ports rec port = Some 49153"
proof -
  have "handle_stream demo_node_env demo_readings ''alice'' (Inr (RTunnel demo_request 80)) demo_provider =
      (TunnelTo 49153, demo_provider)" by (fact demo_tunnel)
  from streams_reach_own_vm [OF this] show ?thesis by blast
qed

lemma requests_stay_with_owner_witness:
  "vm_vms (as_vm (ps_app (snd (handle_stream demo_node_env demo_readings ''bob''
     (Inr (RStopVm demo_request True)) demo_provider)))) ''alice'' = vm_vms (as_vm (ps_app demo_provider)) ''alice''"
  using requests_stay_with_owner [of demo_node_env demo_readings "''bob''" "Inr (RStopVm demo_request True)" demo_provider
      "fst (handle_stream demo_node_env demo_readings ''bob'' (Inr (RStopVm demo_request True)) demo_provider)"
      "snd (handle_stream demo_node_env demo_readings ''bob'' (Inr (RStopVm demo_request True)) demo_provider)" "''alice''"]
  by simp

end
