(* ===== verification/Rust_Search.thy ===== *)
theory Rust_Search
  imports Rust_Text
begin

text \<open>
  Searching in text and in bytes, as the Rust standard library does it: patterns, lines ended by CR LF,
  words, the last occurrence of a character, case folding. White space is the ASCII one.
\<close>

section \<open>Patterns\<close>

text \<open>\<open>windows(n).position(..)\<close> and \<open>find\<close>, for a pattern that is not empty.\<close>

fun find_pat :: "'a list \<Rightarrow> 'a list \<Rightarrow> nat option" where
  "find_pat pat [] = None"
| "find_pat pat (x # xs) =
     (if take (length pat) (x # xs) = pat then Some 0 else map_option Suc (find_pat pat xs))"

definition contains_str :: "string \<Rightarrow> string \<Rightarrow> bool" where
  "contains_str s pat \<longleftrightarrow> pat = [] \<or> find_pat pat s \<noteq> None"

lemma find_pat_Some: "find_pat pat s = Some i \<Longrightarrow> s = take i s @ pat @ drop (i + length pat) s"
proof (induction s arbitrary: i)
  case (Cons x xs)
  show ?case
  proof (cases "take (length pat) (x # xs) = pat")
    case True
    then have "i = 0" using Cons.prems by simp
    then show ?thesis using True by (metis add_0 append_Nil append_take_drop_id take0)
  next
    case False
    then obtain j where "i = Suc j" "find_pat pat xs = Some j" using Cons.prems by (auto split: if_splits)
    then show ?thesis using Cons.IH [of j] by simp
  qed
qed simp

lemma find_pat_None: "pat \<noteq> [] \<Longrightarrow> find_pat pat s = None \<longleftrightarrow> (\<nexists>a b. s = a @ pat @ b)"
proof (induction s)
  case (Cons x xs)
  show ?case
  proof (cases "take (length pat) (x # xs) = pat")
    case True
    then have "x # xs = [] @ pat @ drop (length pat) (x # xs)" by (metis append_Nil append_take_drop_id)
    then have "\<exists>a b. x # xs = a @ pat @ b" by metis
    with True show ?thesis by simp
  next
    case False
    then have "x # xs = a @ pat @ b \<longleftrightarrow> (\<exists>a'. a = x # a' \<and> xs = a' @ pat @ b)" for a b
      by (cases a) auto
    with False Cons show ?thesis by auto
  qed
qed simp

text \<open>A text in which the first character of the pattern does not occur can stand before it.\<close>

lemma find_pat_first: "p \<notin> set a \<Longrightarrow> find_pat (p # pat) (a @ (p # pat) @ b) = Some (length a)"
  by (induction a) (auto simp: take_Cons')

section \<open>The last occurrence of a character\<close>

definition rsplit_once :: "char \<Rightarrow> string \<Rightarrow> (string \<times> string) option" where
  "rsplit_once c s = map_option (\<lambda>(a, b). (rev b, rev a)) (split_once [c] (rev s))"

lemma split_once_first_char: "c \<notin> set a \<Longrightarrow> split_once [c] (a @ c # b) = Some (a, b)"
  by (induction a) auto

lemma split_once_no_char: "c \<notin> set s \<Longrightarrow> split_once [c] s = None"
  by (induction s) auto

lemma rsplit_once_last: "c \<notin> set w \<Longrightarrow> rsplit_once c (a @ c # w) = Some (a, w)"
  by (simp add: rsplit_once_def split_once_first_char)

lemma rsplit_once_no: "c \<notin> set s \<Longrightarrow> rsplit_once c s = None"
  by (simp add: rsplit_once_def split_once_no_char)

lemma hd_split_on: "c \<notin> set a \<Longrightarrow> hd (split_on c (a @ c # b)) = a"
  by (simp add: split_on_append)

lemma split_on_hd_takeWhile: "hd (split_on c s) = takeWhile (\<lambda>x. x \<noteq> c) s"
  by (induction s) (auto split: list.splits)

section \<open>Lines and words\<close>

definition CR :: char where "CR = CHR 0x0D"
definition LF :: char where "LF = CHR 0x0A"

fun split_crlf :: "string \<Rightarrow> string list" where
  "split_crlf [] = [[]]"
| "split_crlf [x] = [[x]]"
| "split_crlf (x # y # s) =
     (if x = CR \<and> y = LF then [] # split_crlf s
      else case split_crlf (y # s) of [] \<Rightarrow> [[x]] | w # ws \<Rightarrow> (x # w) # ws)"

lemma split_crlf_nonempty [simp]: "split_crlf s \<noteq> []"
  by (induction s rule: split_crlf.induct) (auto split: list.splits)

lemma split_crlf_no: "CR \<notin> set s \<Longrightarrow> split_crlf s = [s]"
  by (induction s rule: split_crlf.induct) auto

lemma split_crlf_append: "CR \<notin> set w \<Longrightarrow> split_crlf (w @ CR # LF # s) = w # split_crlf s"
proof (induction w)
  case (Cons x w)
  then show ?case by (cases w) (auto simp: CR_def LF_def)
qed simp

fun split_by :: "(char \<Rightarrow> bool) \<Rightarrow> string \<Rightarrow> string list" where
  "split_by P [] = [[]]"
| "split_by P (x # xs) =
     (if P x then [] # split_by P xs
      else case split_by P xs of [] \<Rightarrow> [[x]] | w # ws \<Rightarrow> (x # w) # ws)"

definition split_whitespace :: "string \<Rightarrow> string list" where
  "split_whitespace s = filter (\<lambda>w. w \<noteq> []) (split_by is_space s)"

lemma split_by_nonempty [simp]: "split_by P s \<noteq> []"
  by (induction s) (auto split: list.splits)

lemma split_by_no: "\<forall>c \<in> set w. \<not> P c \<Longrightarrow> split_by P w = [w]"
  by (induction w) auto

lemma split_by_append: "\<forall>c \<in> set w. \<not> P c \<Longrightarrow> P x \<Longrightarrow> split_by P (w @ x # s) = w # split_by P s"
  by (induction w) auto

lemma split_whitespace_append:
  "w \<noteq> [] \<Longrightarrow> \<forall>c \<in> set w. \<not> is_space c \<Longrightarrow> is_space x \<Longrightarrow> split_whitespace (w @ x # s) = w # split_whitespace s"
  by (simp add: split_whitespace_def split_by_append)

section \<open>Case\<close>

definition lower :: "string \<Rightarrow> string" where
  "lower s = map ascii_lower s"

lemma lower_simps [simp]: "lower [] = []" "lower (s @ t) = lower s @ lower t" "length (lower s) = length s"
  by (simp_all add: lower_def)

end
