(* ===== verification/Manifest.thy ===== *)
theory Manifest
  imports Rust_Search
begin

text \<open>
  Worker manifests and the license policy (\<open>crates/cloudiy/src/manifest.rs\<close>, \<open>license.rs\<close>) and the
  built-in catalog the gateway embeds (the files of \<open>crates/cloudiy/manifests\<close>). JSON decoding is a
  parameter.
\<close>

section \<open>Licenses\<close>

datatype license =
    Apache2_0 | Mit | Bsd2Clause | Bsd3Clause | OpenRailPlusPlusM | LlamaCommunity
  | Agpl3_0 | CcByNc | PaidCommercial | RestrictedModel

fun license_is_allowed :: "license \<Rightarrow> bool" where
  "license_is_allowed l = (l \<in> {Apache2_0, Mit, Bsd2Clause, Bsd3Clause, OpenRailPlusPlusM, LlamaCommunity})"

fun license_label :: "license \<Rightarrow> string" where
  "license_label Apache2_0 = ''Apache-2.0''"
| "license_label Mit = ''MIT''"
| "license_label Bsd2Clause = ''BSD-2-Clause''"
| "license_label Bsd3Clause = ''BSD-3-Clause''"
| "license_label OpenRailPlusPlusM = ''CreativeML-Open-RAIL++-M''"
| "license_label LlamaCommunity = ''Llama-Community''"
| "license_label Agpl3_0 = ''AGPL-3.0''"
| "license_label CcByNc = ''CC-BY-NC''"
| "license_label PaidCommercial = ''Paid-Commercial-License''"
| "license_label RestrictedModel = ''Restricted-Model-License''"

definition all_licenses :: "license list" where
  "all_licenses = [Apache2_0, Mit, Bsd2Clause, Bsd3Clause, OpenRailPlusPlusM, LlamaCommunity,
     Agpl3_0, CcByNc, PaidCommercial, RestrictedModel]"

definition license_from_label :: "string \<Rightarrow> license option" where
  "license_from_label s = find (\<lambda>l. lower (license_label l) = lower (trim s)) all_licenses"

fun license_note :: "license \<Rightarrow> string option" where
  "license_note LlamaCommunity =
     Some ''commercial use is free below 700M monthly active users; above that needs a Meta license''"
| "license_note OpenRailPlusPlusM =
     Some ''use-based restrictions apply (no illegal/harmful use); commercial use is allowed''"
| "license_note _ = None"

section \<open>Manifests\<close>

definition CURRENT_SCHEMA_VERSION :: u32 where
  "CURRENT_SCHEMA_VERSION = 1"

record compatibility =
  cp_min :: u32
  cp_max :: u32

definition compat_accepts :: "compatibility \<Rightarrow> u32 \<Rightarrow> bool" where
  "compat_accepts self version \<longleftrightarrow> cp_min self \<le> version \<and> version \<le> cp_max self"

record requirements =
  rq_vram_gb :: u64
  rq_memory_gb :: u64

datatype status = Available | Planned

definition status_is_available :: "status \<Rightarrow> bool" where
  "status_is_available s \<longleftrightarrow> s = Available"

fun status_label :: "status \<Rightarrow> string" where
  "status_label Available = ''available''"
| "status_label Planned = ''planned''"

record worker =
  wk_id :: string
  wk_image :: string
  wk_digest :: string
  wk_status :: status
  wk_category :: string
  wk_license :: string
  wk_model :: string
  wk_needs_gpu :: bool
  wk_health :: string
  wk_api_path :: string
  wk_port :: u16
  wk_ui_path :: string
  wk_startup_timeout_secs :: u64
  wk_gpu_backends :: "string list"
  wk_requirements :: requirements

record worker_manifest =
  mf_schema_version :: u32
  mf_compatibility :: compatibility
  mf_worker :: worker

record validated_worker =
  vw_worker :: worker
  vw_license :: license

datatype manifest_error =
    BadManifest | ExcludesBuild string u32 u32 | StampOutside string u32
  | UnknownLicense string string | BannedLicense string license

definition manifest_load :: "(string \<Rightarrow> worker_manifest option) \<Rightarrow> string \<Rightarrow> manifest_error + validated_worker" where
  "manifest_load parse js =
     rbind (ok_or (parse js) BadManifest) (\<lambda>m.
     rbind (require (compat_accepts (mf_compatibility m) CURRENT_SCHEMA_VERSION)
        (ExcludesBuild (wk_id (mf_worker m)) (cp_min (mf_compatibility m)) (cp_max (mf_compatibility m)))) (\<lambda>_.
     rbind (require (compat_accepts (mf_compatibility m) (mf_schema_version m))
        (StampOutside (wk_id (mf_worker m)) (mf_schema_version m))) (\<lambda>_.
     rbind (ok_or (license_from_label (wk_license (mf_worker m)))
        (UnknownLicense (wk_id (mf_worker m)) (wk_license (mf_worker m)))) (\<lambda>license.
     rbind (require (license_is_allowed license) (BannedLicense (wk_id (mf_worker m)) license)) (\<lambda>_.
     Inr \<lparr>vw_worker = mf_worker m, vw_license = license\<rparr>)))))"

text \<open>A directory is the list of its entries: the extension and the content, if it can be read.\<close>

definition load_dir ::
  "(string \<Rightarrow> worker_manifest option) \<Rightarrow> (string option \<times> string option) list \<Rightarrow> validated_worker list" where
  "load_dir parse entries =
     List.map_filter (\<lambda>(extension, content).
       if extension \<noteq> Some ''json'' then None
       else case content of
         None \<Rightarrow> None
       | Some js \<Rightarrow> (case manifest_load parse js of Inr w \<Rightarrow> Some w | Inl _ \<Rightarrow> None)) entries"

section \<open>The built-in catalog\<close>

definition builtin ::
  "string \<Rightarrow> string \<Rightarrow> string \<Rightarrow> string \<Rightarrow> string \<Rightarrow> bool \<Rightarrow> status \<Rightarrow> string \<Rightarrow> u64 \<Rightarrow> worker_manifest" where
  "builtin key img category license model gpu st digest vram =
     \<lparr>mf_schema_version = 1, mf_compatibility = \<lparr>cp_min = 1, cp_max = 1\<rparr>,
      mf_worker = \<lparr>wk_id = key, wk_image = img, wk_digest = digest, wk_status = st, wk_category = category,
        wk_license = license, wk_model = model, wk_needs_gpu = gpu, wk_health = '''', wk_api_path = '''', wk_port = 0,
        wk_ui_path = '''', wk_startup_timeout_secs = 0, wk_gpu_backends = [],
        wk_requirements = \<lparr>rq_vram_gb = vram, rq_memory_gb = 0\<rparr>\<rparr>\<rparr>"

definition BUILTIN_MANIFESTS :: "worker_manifest list" where
  "BUILTIN_MANIFESTS =
    [
     builtin ''bge-m3'' ''ghcr.io/cloudiy-cloud/worker-embed:latest'' ''embed'' ''MIT'' ''BGE-M3 (BAAI)'' False Planned '''' 0,
     builtin ''bge-rerank'' ''ghcr.io/cloudiy-cloud/worker-rerank:latest'' ''rerank'' ''Apache-2.0'' ''BGE-reranker-v2-m3'' False Planned '''' 0,
     builtin ''birefnet'' ''ghcr.io/cloudiy-cloud/worker-birefnet:latest'' ''vision'' ''MIT'' ''BiRefNet'' False Planned '''' 0,
     builtin ''chatterbox'' ''ghcr.io/cloudiy-cloud/worker-tts:latest'' ''audio'' ''MIT'' ''Chatterbox-Turbo'' False Planned '''' 0,
     builtin ''depth-anything'' ''ghcr.io/cloudiy-cloud/worker-depth-anything:latest'' ''vision'' ''Apache-2.0'' ''Depth Anything V2 Small'' False Planned '''' 0,
     builtin ''docling'' ''ghcr.io/cloudiy-cloud/worker-docling:latest'' ''ocr'' ''Apache-2.0'' ''Granite-Docling (IBM)'' False Planned '''' 0,
     builtin ''esrgan'' ''ghcr.io/cloudiy-cloud/worker-esrgan:latest'' ''vision'' ''BSD-3-Clause'' ''Real-ESRGAN'' False Planned '''' 0,
     builtin ''flux-schnell'' ''ghcr.io/cloudiy-cloud/worker-flux-schnell:latest'' ''image'' ''Apache-2.0'' ''FLUX.1-schnell'' True Planned '''' 12,
     builtin ''flux2-klein'' ''ghcr.io/cloudiy-cloud/worker-flux2-klein:latest'' ''image'' ''Apache-2.0'' ''FLUX.2 [klein] 4B'' True Planned '''' 8,
     builtin ''kokoro'' ''ghcr.io/cloudiy-cloud/worker-kokoro:latest'' ''audio'' ''Apache-2.0'' ''Kokoro TTS'' False Planned '''' 0,
     builtin ''llama-ep'' ''ollama/ollama'' ''language'' ''Llama-Community'' ''Llama 3.2'' False Available ''sha256:f1a705f2bd113fb8d15f85f7c217f0dc5f6bebda6b0cc42b82c3ad165ffcb9dc'' 0,
     builtin ''ltx'' ''ghcr.io/cloudiy-cloud/worker-ltx:latest'' ''video'' ''Apache-2.0'' ''LTX-2 (Lightricks)'' True Planned '''' 24,
     builtin ''minilm'' ''ghcr.io/cloudiy-cloud/worker-embed:latest'' ''embed'' ''Apache-2.0'' ''all-MiniLM-L6-v2'' False Planned '''' 0,
     builtin ''moondream'' ''ghcr.io/cloudiy-cloud/worker-moondream:latest'' ''vision'' ''Apache-2.0'' ''Moondream 2'' False Planned '''' 0,
     builtin ''paddleocr'' ''ghcr.io/cloudiy-cloud/worker-paddleocr:latest'' ''ocr'' ''Apache-2.0'' ''PaddleOCR'' False Planned '''' 0,
     builtin ''qwen-coder'' ''ollama/ollama'' ''code'' ''Apache-2.0'' ''Qwen3-Coder'' False Available ''sha256:f1a705f2bd113fb8d15f85f7c217f0dc5f6bebda6b0cc42b82c3ad165ffcb9dc'' 0,
     builtin ''qwen-edit'' ''ghcr.io/cloudiy-cloud/worker-qwen-edit:latest'' ''image'' ''Apache-2.0'' ''Qwen-Image-Edit'' True Planned '''' 16,
     builtin ''qwen-image'' ''ghcr.io/cloudiy-cloud/worker-qwen-image:latest'' ''image'' ''Apache-2.0'' ''Qwen-Image-2512'' True Planned '''' 16,
     builtin ''qwen3'' ''ollama/ollama'' ''language'' ''Apache-2.0'' ''Qwen3'' False Available ''sha256:f1a705f2bd113fb8d15f85f7c217f0dc5f6bebda6b0cc42b82c3ad165ffcb9dc'' 0,
     builtin ''rtdetr'' ''ghcr.io/cloudiy-cloud/worker-rtdetr:latest'' ''detect'' ''Apache-2.0'' ''RT-DETR'' False Planned '''' 0,
     builtin ''sam2'' ''ghcr.io/cloudiy-cloud/worker-sam2:latest'' ''vision'' ''Apache-2.0'' ''SAM 2'' False Planned '''' 0,
     builtin ''sdxl'' ''ghcr.io/cloudiy-cloud/worker-sdxl:latest'' ''image'' ''CreativeML-Open-RAIL++-M'' ''Stable Diffusion XL (Stability)'' True Planned '''' 8,
     builtin ''smolvlm'' ''ghcr.io/cloudiy-cloud/worker-smolvlm:latest'' ''vision'' ''Apache-2.0'' ''SmolVLM 2B'' False Planned '''' 0,
     builtin ''tesseract'' ''ghcr.io/cloudiy-cloud/worker-tesseract:latest'' ''ocr'' ''Apache-2.0'' ''Tesseract'' False Planned '''' 0,
     builtin ''wan'' ''ghcr.io/cloudiy-cloud/worker-wan:latest'' ''video'' ''Apache-2.0'' ''Wan 2.2 (Alibaba)'' True Planned '''' 24,
     builtin ''whisper'' ''onerahmet/openai-whisper-asr-webservice:latest'' ''audio'' ''MIT'' ''Whisper (OpenAI)'' False Available ''sha256:03b402335881cdab2e4939b24620809df8d6ceec3bf2712217d41c8761a0f5d4'' 0,
     builtin ''z-image'' ''ghcr.io/cloudiy-cloud/worker-z-image:latest'' ''image'' ''Apache-2.0'' ''Z-Image Turbo'' True Planned '''' 16]"

text \<open>The embedded files are valid JSON, so loading one is the check of what it holds.\<close>

definition load_builtin :: "worker_manifest \<Rightarrow> manifest_error + validated_worker" where
  "load_builtin m = manifest_load (\<lambda>_. Some m) ''''"

definition builtin_workers :: "manifest_error + validated_worker list" where
  "builtin_workers =
     foldr (\<lambda>m ws. rbind (load_builtin m) (\<lambda>w. rbind ws (\<lambda>rest. Inr (w # rest)))) BUILTIN_MANIFESTS (Inr [])"

type_synonym model_entry = "string \<times> string \<times> bool \<times> string \<times> license"

definition model_entry_of :: "validated_worker \<Rightarrow> model_entry" where
  "model_entry_of v = (let w = vw_worker v in (wk_id w, wk_image w, wk_needs_gpu w, wk_category w, vw_license v))"

definition model_catalog :: "model_entry list" where
  "model_catalog = (case builtin_workers of Inr ws \<Rightarrow> map model_entry_of ws | Inl _ \<Rightarrow> [])"

section \<open>What loads is allowed\<close>

lemma from_label_Some: "license_from_label s = Some l \<longleftrightarrow> lower (trim s) = lower (license_label l)"
proof -
  have "distinct (map (\<lambda>l. lower (license_label l)) all_licenses)" by code_simp
  moreover have "a \<in> set all_licenses" for a by (cases a) (simp_all add: all_licenses_def)
  ultimately have d: "lower (license_label a) = lower (license_label b) \<longleftrightarrow> a = b" for a b
    by (auto simp: distinct_map inj_on_def)
  show ?thesis
  proof
    assume "license_from_label s = Some l"
    then show "lower (trim s) = lower (license_label l)"
      by (auto simp: license_from_label_def find_Some_iff)
  next
    assume h: "lower (trim s) = lower (license_label l)"
    have "find (\<lambda>x. lower (license_label x) = lower (trim s)) all_licenses = Some l"
    proof -
      have "find (\<lambda>x. x = l) all_licenses = Some l" by (cases l) (simp_all add: all_licenses_def)
      then show ?thesis by (simp add: h d)
    qed
    then show "license_from_label s = Some l" by (simp add: license_from_label_def)
  qed
qed

text \<open>
  C39. Only a model with an allowed license is ever loaded. A manifest loads exactly when its JSON is
  well formed, the range it declares contains both the schema of this build and the version it stamps,
  and its license, up to case and surrounding blanks, is the label of one of the six allowed licenses;
  the loaded worker is the one described, under that license.
\<close>
theorem manifest_loads_iff:
  "manifest_load parse js = Inr v \<longleftrightarrow>
     (\<exists>m. parse js = Some m \<and> cp_min (mf_compatibility m) \<le> 1 \<and> 1 \<le> cp_max (mf_compatibility m) \<and>
        cp_min (mf_compatibility m) \<le> mf_schema_version m \<and> mf_schema_version m \<le> cp_max (mf_compatibility m) \<and>
        vw_worker v = mf_worker m \<and>
        vw_license v \<in> {Apache2_0, Mit, Bsd2Clause, Bsd3Clause, OpenRailPlusPlusM, LlamaCommunity} \<and>
        lower (trim (wk_license (mf_worker m))) = lower (license_label (vw_license v)))"
proof -
  obtain w l where v: "v = \<lparr>vw_worker = w, vw_license = l\<rparr>" by (cases v)
  have "manifest_load parse js = Inr v \<longleftrightarrow> (\<exists>m. parse js = Some m \<and>
      compat_accepts (mf_compatibility m) 1 \<and> compat_accepts (mf_compatibility m) (mf_schema_version m) \<and>
      w = mf_worker m \<and> license_is_allowed l \<and> license_from_label (wk_license (mf_worker m)) = Some l)"
    by (auto simp: manifest_load_def result_iff CURRENT_SCHEMA_VERSION_def v simp del: license_is_allowed.simps)
  then show ?thesis by (simp add: v compat_accepts_def from_label_Some)
qed

lemma label_roundtrip: "license_from_label (license_label l) = Some l"
proof -
  have "list_all (\<lambda>l. trim (license_label l) = license_label l) all_licenses" by code_simp
  moreover have "l \<in> set all_licenses" by (cases l) (simp_all add: all_licenses_def)
  ultimately have "trim (license_label l) = license_label l" by (simp add: list_all_iff)
  then show ?thesis by (simp add: from_label_Some)
qed

lemmas used_labels = label_roundtrip [of Apache2_0, unfolded license_label.simps] label_roundtrip [of Mit, unfolded license_label.simps]
  label_roundtrip [of Bsd3Clause, unfolded license_label.simps] label_roundtrip [of OpenRailPlusPlusM, unfolded license_label.simps]
  label_roundtrip [of LlamaCommunity, unfolded license_label.simps]

lemma load_builtin_ok:
  assumes "license_from_label lic = Some l" and "license_is_allowed l"
  shows "load_builtin (builtin key img category lic model gpu st digest vram) =
    Inr \<lparr>vw_worker = mf_worker (builtin key img category lic model gpu st digest vram), vw_license = l\<rparr>"
  using assms by (simp add: load_builtin_def manifest_load_def builtin_def compat_accepts_def CURRENT_SCHEMA_VERSION_def)

definition loads_allowed :: "worker_manifest \<Rightarrow> bool" where
  "loads_allowed m \<longleftrightarrow> (\<exists>l. license_is_allowed l \<and> load_builtin m = Inr \<lparr>vw_worker = mf_worker m, vw_license = l\<rparr>)"

lemma builtin_loads_allowed:
  assumes "license_from_label lic = Some l" and "license_is_allowed l"
  shows "loads_allowed (builtin key img category lic model gpu st digest vram)"
  using load_builtin_ok [OF assms] assms(2) unfolding loads_allowed_def by blast

lemma builtin_manifests_load: "list_all loads_allowed BUILTIN_MANIFESTS"
  unfolding BUILTIN_MANIFESTS_def list.pred_inject
  by (intro conjI list.pred_inject(1)) (simp | rule builtin_loads_allowed, rule used_labels, simp)+

lemma load_all:
  assumes "list_all loads_allowed ms"
  shows "\<exists>ws. foldr (\<lambda>m ws. rbind (load_builtin m) (\<lambda>w. rbind ws (\<lambda>rest. Inr (w # rest)))) ms (Inr []) = Inr ws \<and>
    map vw_worker ws = map mf_worker ms \<and> list_all (\<lambda>w. license_is_allowed (vw_license w)) ws"
  using assms
proof (induction ms)
  case (Cons m ms)
  then obtain ws l where "foldr (\<lambda>m ws. rbind (load_builtin m) (\<lambda>w. rbind ws (\<lambda>rest. Inr (w # rest)))) ms (Inr []) = Inr ws"
    "map vw_worker ws = map mf_worker ms" "list_all (\<lambda>w. license_is_allowed (vw_license w)) ws"
    "license_is_allowed l" "load_builtin m = Inr \<lparr>vw_worker = mf_worker m, vw_license = l\<rparr>"
    by (auto simp: loads_allowed_def)
  then show ?case by simp
qed simp

lemma builtin_ids_distinct: "distinct (map (\<lambda>m. wk_id (mf_worker m)) BUILTIN_MANIFESTS)"
  by (simp add: BUILTIN_MANIFESTS_def builtin_def)

text \<open>
  The embedded catalog is sound. Every built-in manifest loads (the start of a node does not fail on
  one), the catalog has them all, in order, no key twice, and none under a license that is not allowed.
\<close>
theorem builtin_catalog_valid:
  "map fst model_catalog = map (\<lambda>m. wk_id (mf_worker m)) BUILTIN_MANIFESTS \<and> distinct (map fst model_catalog) \<and>
     list_all (\<lambda>(_, _, _, _, license). license_is_allowed license) model_catalog"
proof -
  obtain ws where ws: "builtin_workers = Inr ws" "map vw_worker ws = map mf_worker BUILTIN_MANIFESTS"
    "list_all (\<lambda>w. license_is_allowed (vw_license w)) ws"
    using load_all [OF builtin_manifests_load] unfolding builtin_workers_def by blast
  have "map fst model_catalog = map wk_id (map vw_worker ws)"
    unfolding model_catalog_def ws(1) by (simp add: model_entry_of_def Let_def)
  then have ids: "map fst model_catalog = map (\<lambda>m. wk_id (mf_worker m)) BUILTIN_MANIFESTS"
    unfolding ws(2) by simp
  moreover have "list_all (\<lambda>(_, _, _, _, license). license_is_allowed license) model_catalog"
    using ws(3) unfolding model_catalog_def ws(1)
    by (simp add: model_entry_of_def Let_def list_all_iff del: license_is_allowed.simps)
  ultimately show ?thesis using builtin_ids_distinct by simp
qed

end
