(* ===== verification/Gateway_Catalog.thy ===== *)
theory Gateway_Catalog
  imports Manifest P2p Vm_Theorems
begin

text \<open>
  The model catalog of the gateway (\<open>crates/cloudiy/src/gateway.rs\<close>): which worker serves a model, what
  the hardware can run, the supply chain of worker images (digests, strict mode, signatures) and the
  choice of a provider for an endpoint. The programs the gateway runs (Docker and, with the program's
  name in front, cosign) are any function of the history of commands.
\<close>

section \<open>The environment of the gateway\<close>

record gateway_env =
  ge_run :: docker
  ge_var :: "string \<Rightarrow> string option"
  ge_external :: "validated_worker list"
  ge_nvidia_smi :: bool
  ge_iter :: "string set \<Rightarrow> string list"

type_synonym 'a gio = "(string, 'a) cio"

definition gdocker :: "gateway_env \<Rightarrow> command \<Rightarrow> cli_output gio" where
  "gdocker env args h = (ok_or (ge_run env h args) ''docker not runnable'', h @ [args])"

lemma emits_docker [intro!]: "P args \<Longrightarrow> emits P (gdocker env args)"
  by (simp add: emits_def gdocker_def)

section \<open>Models and their workers\<close>

definition canonical_key :: "string \<Rightarrow> string" where
  "canonical_key key = (if key = ''whisper-ep'' then ''whisper'' else key)"

definition catalog_entry :: "string \<Rightarrow> model_entry option" where
  "catalog_entry key = find (\<lambda>e. fst e = key) model_catalog"

definition ollama_model_for :: "string \<Rightarrow> string option" where
  "ollama_model_for key =
     (if key \<in> {''llama-ep'', ''ollama'', ''vllm''} then Some ''llama3.2:1b''
      else if key = ''qwen3'' then Some ''qwen3:1.7b''
      else if key = ''qwen-coder'' then Some ''qwen3-coder:30b''
      else None)"

definition image_worker_for :: "string \<Rightarrow> (string \<times> string) option" where
  "image_worker_for key =
     (if key = ''sdxl'' then Some (''ghcr.io/cloudiy-cloud/worker-sdxl:latest'', ''/sdapi/v1/txt2img'') else None)"

definition video_worker_for :: "string \<Rightarrow> string option" where
  "video_worker_for key = (if key = ''ltx'' then Some ''ghcr.io/cloudiy-cloud/worker-ltx:latest'' else None)"

definition endpoint_is_live :: "string \<Rightarrow> bool" where
  "endpoint_is_live key =
     (let key = canonical_key key in
      ollama_model_for key \<noteq> None \<or> image_worker_for key \<noteq> None \<or> video_worker_for key \<noteq> None \<or> key = ''whisper'')"

definition model_status :: "gateway_env \<Rightarrow> string \<Rightarrow> status" where
  "model_status env key =
     (let key = canonical_key key in
      case find (\<lambda>v. wk_id (vw_worker v) = key)
          ((case builtin_workers of Inr ws \<Rightarrow> ws | Inl _ \<Rightarrow> []) @ ge_external env) of
        Some v \<Rightarrow> wk_status (vw_worker v)
      | None \<Rightarrow> Planned)"

definition model_min_vram_gb :: "string \<Rightarrow> u64 option" where
  "model_min_vram_gb key =
     (let k = canonical_key key in
      if k \<in> {''sdxl'', ''flux2-klein''} then Some 8
      else if k = ''flux-schnell'' then Some 12
      else if k \<in> {''z-image'', ''qwen-edit'', ''qwen-image''} then Some 16
      else if k \<in> {''ltx'', ''wan''} then Some 24
      else None)"

definition cpu_models :: "string list" where
  "cpu_models = map fst (filter (\<lambda>(k, _, needs_gpu, _). \<not> needs_gpu \<and> endpoint_is_live k) model_catalog)"

text \<open>The two lists of a hint: what fits, and what is short of memory with the floor it needs.\<close>

definition gpu_models :: "(string \<times> u64) list" where
  "gpu_models = List.map_filter (\<lambda>(key, _, needs_gpu, _).
     case model_min_vram_gb key of None \<Rightarrow> None | Some vram \<Rightarrow> if needs_gpu then Some (key, vram) else None) model_catalog"

definition hardware_hint :: "u64 \<Rightarrow> bool \<Rightarrow> string" where
  "hardware_hint vram_mb has_gpu =
     (let vram_gb = vram_mb div 1024;
          fits = map fst (filter (\<lambda>(_, vram). has_gpu \<and> vram \<le> vram_gb) gpu_models);
          short = map (\<lambda>(key, vram). key @ '' ('' @ show_word vram @ ''GB)'')
            (filter (\<lambda>(_, vram). \<not> (has_gpu \<and> vram \<le> vram_gb)) gpu_models) in
      (if has_gpu then
         ''Hardware: ~'' @ show_word vram_gb @ '' GB VRAM detected'' @ [LF] @
         (if fits \<noteq> [] then ''   Can serve on this GPU: '' @ join_with '', '' fits @ [LF] else []) @
         (if short \<noteq> [] then ''   Not enough VRAM for:   '' @ join_with '', '' short @ [LF] else [])
       else ''Hardware: CPU-only (no NVIDIA GPU)'' @ [LF] @
         ''   GPU image/video models are not servable on this machine.'' @ [LF]) @
      ''   CPU models (always): '' @ (if cpu_models = [] then ''-'' else join_with '', '' cpu_models))"

definition bootstrap_models :: "gateway_env \<Rightarrow> string list" where
  "bootstrap_models env =
     (case ge_var env ''CLOUDIY_NO_BOOTSTRAP'' of
        Some v \<Rightarrow> if trim v \<noteq> [] then [] else cpu_models
      | None \<Rightarrow> cpu_models)"

section \<open>Images\<close>

definition image_present :: "gateway_env \<Rightarrow> string \<Rightarrow> ('e, bool) cio" where
  "image_present env img =
     vbind (vtry (gdocker env [''image'', ''inspect'', img])) (\<lambda>r.
     vret (case r :: string + cli_output of Inr out \<Rightarrow> co_success out | Inl _ \<Rightarrow> False))"

definition image_size_bytes :: "gateway_env \<Rightarrow> string \<Rightarrow> ('e, u64 option) cio" where
  "image_size_bytes env img =
     vbind (vtry (gdocker env [''image'', ''inspect'', img, ''--format'', ''{{.Size}}''])) (\<lambda>r.
     vret (case r :: string + cli_output of
       Inr out \<Rightarrow> if co_success out then parse_word (trim (co_stdout out)) else None
     | Inl _ \<Rightarrow> None))"

definition gpu_available :: "gateway_env \<Rightarrow> ('e, bool) cio" where
  "gpu_available env =
     vbind (vtry (gdocker env [''info'', ''--format'', ''{{.Runtimes}}''])) (\<lambda>r.
     vret ((case r :: string + cli_output of Inr out \<Rightarrow> contains_str (co_stdout out) ''nvidia'' | Inl _ \<Rightarrow> False)
           \<or> ge_nvidia_smi env))"

text \<open>The entries of \<open>worker_digests.json\<close>, without the comment.\<close>

definition worker_digests :: "(string \<times> string) list" where
  "worker_digests =
    [(''ollama/ollama'', ''sha256:f1a705f2bd113fb8d15f85f7c217f0dc5f6bebda6b0cc42b82c3ad165ffcb9dc''),
     (''onerahmet/openai-whisper-asr-webservice:latest'',
      ''sha256:03b402335881cdab2e4939b24620809df8d6ceec3bf2712217d41c8761a0f5d4''),
     (''ghcr.io/cloudiy-cloud/worker-tts:latest'',
      ''sha256:7b1ebf725a8c2723471c11ecdd50c646e760d5960195d719de9d543cb6a474f0''),
     (''ghcr.io/cloudiy-cloud/worker-audio:latest'',
      ''sha256:281f7b2daba8e7ea03d6261f16a5618d5ace16fe8a1e932072132d79fb7aa086''),
     (''ghcr.io/cloudiy-cloud/worker-sdxl:latest'',
      ''sha256:072bf935d8b0495a02d42c583a1388040f3ec2fbd56fd9d3987707fec3753068''),
     (''ghcr.io/cloudiy-cloud/worker-ltx:latest'',
      ''sha256:9e29300e2cba2b2978a963a4f2d34064a5ef6646e86c0972e24825ff0fc16b19'')]"

definition pinned_digest :: "string \<Rightarrow> string option" where
  "pinned_digest img = map_of worker_digests img"

definition repo_of :: "string \<Rightarrow> string" where
  "repo_of img =
     (case rsplit_once CHR '':'' img of
        Some (repo, tag) \<Rightarrow> if CHR ''/'' \<notin> set tag then repo else img
      | None \<Rightarrow> img)"

definition pinned_ref :: "string \<Rightarrow> string" where
  "pinned_ref img = (case pinned_digest img of Some d \<Rightarrow> repo_of img @ ''@'' @ d | None \<Rightarrow> img)"

definition image_is_pinned :: "string \<Rightarrow> bool" where
  "image_is_pinned img = contains_str img ''@sha256:''"

definition strict_images :: "gateway_env \<Rightarrow> bool" where
  "strict_images env \<longleftrightarrow> ge_var env ''CLOUDIY_REQUIRE_PINNED_IMAGES'' \<noteq> None"

definition check_pinned :: "gateway_env \<Rightarrow> string \<Rightarrow> string + unit" where
  "check_pinned env img =
     require (\<not> (strict_images env \<and> \<not> image_is_pinned img \<and> pinned_digest img = None))
       (''CLOUDIY_REQUIRE_PINNED_IMAGES is set but worker image '' @ img @ '' is not pinned by digest (@sha256:...); ''
        @ ''set the matching CLOUDIY_*_IMAGE env to a pinned ref'')"

definition cosign_args :: "gateway_env \<Rightarrow> string list option" where
  "cosign_args env =
     (case ge_var env ''CLOUDIY_COSIGN_KEY'' of
        Some key \<Rightarrow> Some [''--key'', key]
      | None \<Rightarrow>
         (case (ge_var env ''CLOUDIY_COSIGN_IDENTITY'', ge_var env ''CLOUDIY_COSIGN_ISSUER'') of
            (Some i, Some iss) \<Rightarrow> Some [''--certificate-identity'', i, ''--certificate-oidc-issuer'', iss]
          | _ \<Rightarrow> None))"

definition verify_image_signature :: "gateway_env \<Rightarrow> string \<Rightarrow> unit gio" where
  "verify_image_signature env img =
     (if ge_var env ''CLOUDIY_COSIGN_VERIFY'' = None then vret ()
      else vbind (vlift (ok_or (cosign_args env) ''CLOUDIY_COSIGN_VERIFY is set but no verifier configured'')) (\<lambda>args.
       vbind (gdocker env ([''cosign'', ''verify''] @ args @ [img])) (\<lambda>out.
       vlift (require (co_success out) (''cosign signature verification failed: '' @ co_stderr out)))))"

definition pull_worker :: "gateway_env \<Rightarrow> string \<Rightarrow> unit gio" where
  "pull_worker env img =
     vbind (vlift (check_pinned env img)) (\<lambda>_.
     let reference = pinned_ref img in
     vbind (gdocker env [''pull'', reference]) (\<lambda>out.
     vbind (vlift (require (co_success out) (''pull failed: '' @ trim (co_stderr out)))) (\<lambda>_.
     vbind (if reference \<noteq> img
            then vbind (vtry (gdocker env [''tag'', reference, img])) (\<lambda>r :: string + cli_output. vret ())
            else vret ()) (\<lambda>_.
     verify_image_signature env img))))"

section \<open>The provider of an endpoint\<close>

datatype ordering = Less | Equal | Greater

fun ord_then :: "ordering \<Rightarrow> ordering \<Rightarrow> ordering" where
  "ord_then Equal x = x"
| "ord_then x _ = x"

definition cmp_bool :: "bool \<Rightarrow> bool \<Rightarrow> ordering" where
  "cmp_bool a b = (if a = b then Equal else if b then Less else Greater)"

definition cmp_u64 :: "u64 \<Rightarrow> u64 \<Rightarrow> ordering" where
  "cmp_u64 a b = (if a < b then Less else if a = b then Equal else Greater)"

text \<open>\<open>partial_cmp(..).unwrap_or(Equal)\<close>.\<close>

definition cmp_f64 :: "f64 \<Rightarrow> f64 \<Rightarrow> ordering" where
  "cmp_f64 a b = (if flt a b then Less else if flt b a then Greater else Equal)"

text \<open>\<open>Iterator::min_by\<close> keeps the first of equal elements.\<close>

fun min_by :: "('a \<Rightarrow> 'a \<Rightarrow> ordering) \<Rightarrow> 'a list \<Rightarrow> 'a option" where
  "min_by cmp [] = None"
| "min_by cmp (x # xs) = Some (foldl (\<lambda>best y. if cmp best y = Greater then y else best) x xs)"

definition provider_cmp :: "string \<Rightarrow> provider_announcement \<Rightarrow> provider_announcement \<Rightarrow> ordering" where
  "provider_cmp key a b =
     (let aw = key \<in> set (pa_warm_models a); bw = key \<in> set (pa_warm_models b) in
      ord_then (ord_then (cmp_bool bw aw) (cmp_f64 (pa_utilization a) (pa_utilization b)))
        (cmp_u64 (pa_price a) (pa_price b)))"

definition select_endpoint_provider :: "provider_announcement list \<Rightarrow> string \<Rightarrow> provider_announcement option" where
  "select_endpoint_provider providers key =
     min_by (provider_cmp key) (filter (\<lambda>p. key \<in> set (pa_served_models p)) providers)"

section \<open>Which provider is chosen\<close>

lemma foldl_min:
  assumes "\<And>a b c. le a b \<Longrightarrow> le b c \<Longrightarrow> le a c" and "\<And>a. le a a"
    and "\<And>a b. a \<in> S \<Longrightarrow> b \<in> S \<Longrightarrow> (cmp a b = Greater) = (\<not> le a b)"
    and "\<And>a b. a \<in> S \<Longrightarrow> b \<in> S \<Longrightarrow> le a b \<or> le b a"
    and "x \<in> S" and "set xs \<subseteq> S"
  shows "foldl (\<lambda>best y. if cmp best y = Greater then y else best) x xs \<in> Set.insert x (set xs) \<and>
    (\<forall>y \<in> Set.insert x (set xs). le (foldl (\<lambda>best y. if cmp best y = Greater then y else best) x xs) y)"
  using assms(5,6)
proof (induction xs arbitrary: x)
  case Nil
  then show ?case using assms(2) by simp
next
  case (Cons y ys)
  let ?z = "if cmp x y = Greater then y else x"
  have z: "?z \<in> S" "le ?z x" "le ?z y"
    using Cons.prems assms(2,3) assms(4) [of x y] by auto
  let ?r = "foldl (\<lambda>best y. if cmp best y = Greater then y else best) ?z ys"
  have "?r \<in> Set.insert ?z (set ys) \<and> (\<forall>w \<in> Set.insert ?z (set ys). le ?r w)"
    using Cons.IH [OF z(1)] Cons.prems by simp
  then have r: "le ?r ?z" "?r \<in> Set.insert ?z (set ys)" "\<forall>w \<in> set ys. le ?r w" by simp_all
  have "le ?r x" "le ?r y" using assms(1) [OF r(1) z(2)] assms(1) [OF r(1) z(3)] .
  then show ?case using r(2,3) by (auto split: if_splits)
qed

text \<open>The order of preference: warm, then utilization, then price; utilizations are numbers.\<close>

definition preferred :: "string \<Rightarrow> provider_announcement \<Rightarrow> provider_announcement \<Rightarrow> bool" where
  "preferred key a b \<longleftrightarrow>
     (let aw = key \<in> set (pa_warm_models a); bw = key \<in> set (pa_warm_models b);
          ua = pa_utilization a; ub = pa_utilization b in
      aw \<and> \<not> bw \<or> aw = bw \<and> (f_val ua < f_val ub \<or> f_val ua = f_val ub \<and> pa_price a \<le> pa_price b))"

lemma preferred_order:
  "preferred key a b \<Longrightarrow> preferred key b c \<Longrightarrow> preferred key a c" "preferred key a a"
  "preferred key a b \<or> preferred key b a"
  by (auto simp: preferred_def Let_def)

lemma cmp_preferred:
  assumes "is_finite (pa_utilization a)" and "is_finite (pa_utilization b)"
  shows "(provider_cmp key a b = Greater) = (\<not> preferred key a b)"
  using assms
  by (auto simp: provider_cmp_def preferred_def Let_def cmp_bool_def cmp_u64_def cmp_f64_def flt_finite)

lemma best_provider:
  assumes "\<forall>p \<in> set providers. is_finite (pa_utilization p)"
  shows "(select_endpoint_provider providers key = None \<longleftrightarrow> (\<forall>p \<in> set providers. key \<notin> set (pa_served_models p))) \<and>
    (\<forall>p. select_endpoint_provider providers key = Some p \<longrightarrow> p \<in> set providers \<and> key \<in> set (pa_served_models p) \<and>
       (\<forall>q \<in> set providers. key \<in> set (pa_served_models q) \<longrightarrow> preferred key p q))"
proof (cases "filter (\<lambda>p. key \<in> set (pa_served_models p)) providers")
  case Nil
  then show ?thesis by (auto simp: select_endpoint_provider_def filter_empty_conv)
next
  case (Cons x xs)
  let ?S = "{p \<in> set providers. key \<in> set (pa_served_models p)}"
  have s: "Set.insert x (set xs) = ?S" using Cons by (metis list.simps(15) set_filter)
  let ?best = "foldl (\<lambda>best y. if provider_cmp key best y = Greater then y else best) x xs"
  have "?best \<in> Set.insert x (set xs) \<and> (\<forall>y \<in> Set.insert x (set xs). preferred key ?best y)"
  proof (rule foldl_min [where S = ?S])
    show "(provider_cmp key a b = Greater) = (\<not> preferred key a b)" if "a \<in> ?S" "b \<in> ?S" for a b
      using that assms by (intro cmp_preferred) auto
    show "x \<in> ?S" "set xs \<subseteq> ?S" using s by auto
    show "preferred key a b \<or> preferred key b a" for a b by (rule preferred_order)
  qed (erule preferred_order(1), assumption | rule preferred_order(2))+
  then have b: "?best \<in> ?S" "\<forall>y \<in> ?S. preferred key ?best y" unfolding s by auto
  have "select_endpoint_provider providers key = Some ?best" by (simp add: select_endpoint_provider_def Cons)
  then show ?thesis using b Cons by auto
qed

text \<open>
  Unlike the scheduler, this choice takes the announced utilization as it is: a warm provider that
  announces a negative utilization is chosen before every honest one.
\<close>

lemma negative_utilization_wins:
  assumes "\<forall>q \<in> set providers. is_finite (pa_utilization q)" and "p \<in> set providers"
    and "key \<in> set (pa_served_models p)" and "key \<in> set (pa_warm_models p)" and "f_val (pa_utilization p) < 0"
    and "\<forall>q \<in> set providers. q \<noteq> p \<longrightarrow> 0 \<le> f_val (pa_utilization q)"
  shows "select_endpoint_provider providers key = Some p"
proof -
  have n: "select_endpoint_provider providers key \<noteq> None"
    using best_provider [OF assms(1), of key] assms(2,3) by blast
  then obtain b where b: "select_endpoint_provider providers key = Some b" by blast
  then have "b \<in> set providers" "preferred key b p"
    using best_provider [OF assms(1), of key] assms(2,3) by blast+
  then have "b = p" using assms(4-6) by (force simp: preferred_def Let_def)
  then show ?thesis using b by simp
qed

text \<open>
  A routed run goes to the best provider that serves the model. With utilizations that are numbers
  (JSON has no others), a provider is found exactly when one serves the model; the chosen one serves it
  and none that does is preferred to it: warm before cold, then the lower utilization, then the lower
  hourly price.
\<close>
theorem endpoint_provider_best:
  assumes "\<forall>p \<in> set providers. is_finite (pa_utilization p)"
  shows "(select_endpoint_provider providers key = None \<longleftrightarrow> (\<forall>p \<in> set providers. key \<notin> set (pa_served_models p))) \<and>
    (\<forall>p. select_endpoint_provider providers key = Some p \<longrightarrow> p \<in> set providers \<and> key \<in> set (pa_served_models p) \<and>
       (\<forall>q \<in> set providers. key \<in> set (pa_served_models q) \<longrightarrow> preferred key p q))"
  by (rule best_provider [OF assms])

lemma endpoint_provider_best_witness:
  "\<exists>p. select_endpoint_provider
       [(demo_node ''busy'' (Fin 1) 10)\<lparr>pa_served_models := [''qwen3'']\<rparr>,
        (demo_node ''warm'' (Fin 1) 90)\<lparr>pa_served_models := [''qwen3''], pa_warm_models := [''qwen3'']\<rparr>] ''qwen3'' = Some p \<and>
     pa_warm_models p = [''qwen3'']"
proof -
  let ?a = "(demo_node ''busy'' (Fin 1) 10)\<lparr>pa_served_models := [''qwen3'']\<rparr>"
  let ?b = "(demo_node ''warm'' (Fin 1) 90)\<lparr>pa_served_models := [''qwen3''], pa_warm_models := [''qwen3'']\<rparr>"
  have "\<forall>p \<in> set [?a, ?b]. is_finite (pa_utilization p)" by (simp add: demo_node_def)
  note best = endpoint_provider_best [OF this, of "''qwen3''"]
  then obtain p where p: "select_endpoint_provider [?a, ?b] ''qwen3'' = Some p"
    by (cases "select_endpoint_provider [?a, ?b] ''qwen3''") auto
  then have "p \<in> set [?a, ?b]" "preferred ''qwen3'' p ?b" using best by auto
  then have "p = ?b" by (auto simp: preferred_def demo_node_def)
  with p show ?thesis by simp
qed

end
