(* ===== verification/Gateway_Hosting.thy ===== *)
theory Gateway_Hosting
  imports Gateway_Catalog
begin

text \<open>
  Which models a node hosts (\<open>crates/cloudiy/src/gateway.rs\<close>): the set of warm models, the persisted set
  of hosted models, installation and removal, what is announced as servable, and the controller that
  fills a disk budget with the models in demand. Files are the fields of the state; writing one is
  taken to succeed. An instant is a number of nanoseconds.
\<close>

section \<open>State\<close>

record autohost_action =
  ac_at :: i64
  ac_action :: string
  ac_key :: string
  ac_reason :: string

record host_policy =
  hp_mode :: string
  hp_budget_bytes :: u64

definition default_policy_hosting :: host_policy where
  "default_policy_hosting = \<lparr>hp_mode = ''manual'', hp_budget_bytes = 0\<rparr>"

record hosting =
  ho_hosted :: "string set"
  ho_warm :: "string \<Rightarrow> nat option"
  ho_installed_at :: "string \<Rightarrow> nat option"
  ho_policy :: host_policy
  ho_log :: "autohost_action list"

definition mark_warm :: "string \<Rightarrow> nat \<Rightarrow> hosting \<Rightarrow> hosting" where
  "mark_warm key now st = st\<lparr>ho_warm := (ho_warm st)(key \<mapsto> now)\<rparr>"

definition warm_models :: "gateway_env \<Rightarrow> hosting \<Rightarrow> string list" where
  "warm_models env st = ge_iter env (dom (ho_warm st))"

definition evict_idle :: "gateway_env \<Rightarrow> nat \<Rightarrow> nat \<Rightarrow> hosting \<Rightarrow> string list \<times> hosting" where
  "evict_idle env ttl now st =
     (let keep = (\<lambda>k. case ho_warm st k of Some t \<Rightarrow> now - t < ttl | None \<Rightarrow> False) in
      (filter (\<lambda>k. \<not> keep k) (ge_iter env (dom (ho_warm st))),
       st\<lparr>ho_warm := (\<lambda>k. if keep k then ho_warm st k else None)\<rparr>))"

definition hosted_models :: "gateway_env \<Rightarrow> hosting \<Rightarrow> string list" where
  "hosted_models env st = ge_iter env (ho_hosted st)"

definition set_hosted :: "string \<Rightarrow> bool \<Rightarrow> hosting \<Rightarrow> hosting" where
  "set_hosted key on st = st\<lparr>ho_hosted := (if on then Set.insert key (ho_hosted st) else ho_hosted st - {key})\<rparr>"

section \<open>What is announced\<close>

definition servable_step :: "gateway_env \<Rightarrow> bool \<Rightarrow> string \<Rightarrow> string list \<Rightarrow> string list gio" where
  "servable_step env gpu key v =
     (case catalog_entry key of
        None \<Rightarrow> vret v
      | Some (_, img, needs_gpu, _) \<Rightarrow>
          if \<not> status_is_available (model_status env key) then vret v
          else if needs_gpu \<and> \<not> gpu then vret v
          else vbind (image_present env img) (\<lambda>present. vret (if \<not> present then v else v @ [key])))"

text \<open>Sorting and removing duplicates.\<close>

definition servable_models :: "gateway_env \<Rightarrow> hosting \<Rightarrow> string list gio" where
  "servable_models env st =
     vbind (gpu_available env) (\<lambda>gpu.
     let candidates = ho_hosted st \<union> set (bootstrap_models env) in
     vbind (vfold (servable_step env gpu) (ge_iter env candidates) []) (\<lambda>v.
     vret (sorted_list_of_set (set v))))"

definition bootstrap_pull :: "gateway_env \<Rightarrow> string list \<Rightarrow> unit gio" where
  "bootstrap_pull env keys =
     (let images = sorted_list_of_set (set (List.map_filter (\<lambda>k. map_option (fst \<circ> snd) (catalog_entry k)) keys)) in
      vbind (vfold (\<lambda>img pulling. vbind (image_present env img) (\<lambda>p. vret (if p then pulling else pulling @ [img])))
               images []) (\<lambda>pulling.
      vfold (\<lambda>img _. vbind (vtry (pull_worker env img)) (\<lambda>r :: string + unit. vret ())) pulling ()))"

section \<open>Installing and removing by hand\<close>

definition models_install ::
  "gateway_env \<Rightarrow> string \<Rightarrow> hosting \<Rightarrow> command list \<Rightarrow> ((string + string \<times> bool \<times> u64 option) \<times> hosting) \<times> command list" where
  "models_install env key st h =
     (case catalog_entry key of
        None \<Rightarrow> ((Inl ''unknown model'', st), h)
      | Some (k, img, needs_gpu, _) \<Rightarrow>
         (case (vbind (image_present env img) (\<lambda>p. if p then vret () else pull_worker env img)) h of
            (Inl e, h1) \<Rightarrow> ((Inl e, st), h1)
          | (Inr _, h1) \<Rightarrow>
             (case image_size_bytes env img h1 of
                (r, h2) \<Rightarrow> ((Inr (k, needs_gpu, case r :: string + u64 option of Inr n \<Rightarrow> n | Inl _ \<Rightarrow> None), set_hosted k True st), h2))))"

text \<open>Whether a model that is still hosted runs on an image.\<close>

definition image_shared :: "gateway_env \<Rightarrow> hosting \<Rightarrow> string \<Rightarrow> bool" where
  "image_shared env st img =
     list_ex (\<lambda>k. case catalog_entry k of Some (_, i, _) \<Rightarrow> i = img | None \<Rightarrow> False) (hosted_models env st)"

definition stop_containers :: "gateway_env \<Rightarrow> string \<Rightarrow> unit gio" where
  "stop_containers env img =
     vbind (vtry (gdocker env [''ps'', ''-q'', ''--filter'', ''ancestor='' @ img])) (\<lambda>r :: string + cli_output.
     case r of
       Inr out \<Rightarrow> vfold (\<lambda>c _. vbind (vtry (gdocker env [''rm'', ''-f'', c])) (\<lambda>x :: string + cli_output. vret ()))
                    (split_whitespace (co_stdout out)) ()
     | Inl _ \<Rightarrow> vret ())"

definition models_uninstall ::
  "gateway_env \<Rightarrow> string \<Rightarrow> hosting \<Rightarrow> command list \<Rightarrow> ((string + string \<times> bool) \<times> hosting) \<times> command list" where
  "models_uninstall env key st h =
     (case catalog_entry key of
        None \<Rightarrow> ((Inl ''unknown model'', st), h)
      | Some (k, img, _) \<Rightarrow>
         (let st1 = set_hosted k False st in
          case stop_containers env img h of
            (_, h1) \<Rightarrow>
              if image_shared env st1 img then ((Inr (k, False), st1), h1)
              else case gdocker env [''rmi'', img] h1 of
                (r, h2) \<Rightarrow> ((Inr (k, case r of Inr out \<Rightarrow> co_success out | Inl _ \<Rightarrow> False), st1), h2)))"

definition set_policy :: "string option \<Rightarrow> u64 option \<Rightarrow> hosting \<Rightarrow> hosting" where
  "set_policy mode budget st =
     (let p = ho_policy st;
          p = (case mode of Some m \<Rightarrow> if m = ''manual'' \<or> m = ''auto'' then p\<lparr>hp_mode := m\<rparr> else p | None \<Rightarrow> p);
          p = (case budget of Some b \<Rightarrow> p\<lparr>hp_budget_bytes := b\<rparr> | None \<Rightarrow> p) in
      st\<lparr>ho_policy := p\<rparr>)"

section \<open>The controller\<close>

definition append_autohost_log :: "autohost_action list \<Rightarrow> autohost_action list \<Rightarrow> autohost_action list" where
  "append_autohost_log new recent =
     (if new = [] then recent else take 50 (fold (\<lambda>e l. e # l) (rev new) recent))"

definition est_size :: "string \<Rightarrow> string \<Rightarrow> u64" where
  "est_size img category =
     (if contains_str img ''ollama'' then 5000000000
      else if category = ''video'' then 15000000000
      else if category = ''image'' then 12000000000
      else if category = ''audio'' then 5500000000
      else 3000000000)"

definition endpoint_price_table :: "(string \<times> rat) list" where
  "endpoint_price_table =
    [(''wan'', 24 / 100), (''ltx'', 15 / 100), (''flux2-klein'', 5 / 100), (''qwen-image'', 4 / 100),
     (''flux-schnell'', 35 / 1000), (''qwen-edit'', 3 / 100), (''sdxl'', 2 / 100), (''z-image'', 12 / 1000),
     (''chatterbox'', 2 / 100), (''kokoro'', 15 / 1000), (''whisper'', 6 / 1000), (''qwen-coder'', 8 / 1000),
     (''qwen3'', 5 / 1000), (''llama-ep'', 4 / 1000), (''sam2'', 2 / 100), (''smolvlm'', 12 / 1000),
     (''moondream'', 1 / 100), (''depth-anything'', 8 / 1000), (''esrgan'', 8 / 1000), (''birefnet'', 6 / 1000),
     (''rtdetr'', 5 / 1000), (''docling'', 1 / 100), (''paddleocr'', 6 / 1000), (''tesseract'', 3 / 1000),
     (''bge-rerank'', 2 / 1000), (''bge-m3'', 1 / 1000), (''minilm'', 6 / 10000)]"

definition endpoint_price :: "string \<Rightarrow> f64" where
  "endpoint_price key =
     f_lit (case map_of endpoint_price_table (canonical_key key) of Some p \<Rightarrow> p | None \<Rightarrow> 2 / 100)"

definition MIN_RESIDENCY_SECS :: nat where
  "MIN_RESIDENCY_SECS = 1800"

text \<open>\<open>f64::max\<close>: the other one, when one is a NaN.\<close>

definition fmax :: "f64 \<Rightarrow> f64 \<Rightarrow> f64" where
  "fmax a b = (if a = NaN then b else if b = NaN then a else if flt a b then b else a)"

text \<open>\<open>replies\<close> are the answers of the directories, in their order; \<open>None\<close> stands for a failed call.\<close>

definition demand_of :: "response option list \<Rightarrow> (string \<Rightarrow> f64 option)" where
  "demand_of replies =
     foldl (\<lambda>demand reply. case reply of
         Some (SDemand entries) \<Rightarrow>
           foldl (\<lambda>m e. let s = fdiv (f_of_u64 (ucast (de_recent_interest e)))
                                 (fadd (f_of_u64 (ucast (de_providers e))) (f_lit 1));
                            cur = (case m (de_key e) of Some c \<Rightarrow> c | None \<Rightarrow> Fin 0) in
                    m(de_key e \<mapsto> fmax cur s)) demand entries
       | _ \<Rightarrow> demand) (\<lambda>_. None) replies"

record cand =
  cd_key :: string
  cd_image :: string
  cd_size :: u64
  cd_score :: f64

definition size_or_estimate :: "gateway_env \<Rightarrow> string \<Rightarrow> string \<Rightarrow> u64 gio" where
  "size_or_estimate env img category =
     vbind (image_size_bytes env img) (\<lambda>n. vret (case n of Some b \<Rightarrow> b | None \<Rightarrow> est_size img category))"

definition candidate_step ::
  "gateway_env \<Rightarrow> bool \<Rightarrow> (string \<Rightarrow> f64 option) \<Rightarrow> model_entry \<Rightarrow> cand list \<Rightarrow> cand list gio" where
  "candidate_step env gpu demand entry cands =
     (case entry of (key, img, needs_gpu, category, _) \<Rightarrow>
        if needs_gpu \<and> \<not> gpu then vret cands
        else let d = (case demand key of Some x \<Rightarrow> x | None \<Rightarrow> Fin 0) in
          if fle d (Fin 0) then vret cands
          else vbind (size_or_estimate env img category) (\<lambda>n.
            vret (cands @ [\<lparr>cd_key = key, cd_image = img, cd_size = n, cd_score = fmul d (endpoint_price key)\<rparr>])))"

definition density :: "cand \<Rightarrow> f64" where
  "density c = fdiv (cd_score c) (f_of_u64 (cd_size c))"

text \<open>The stable sort by descending density.\<close>

fun insert_dense :: "cand \<Rightarrow> cand list \<Rightarrow> cand list" where
  "insert_dense x [] = [x]"
| "insert_dense x (y # ys) = (if total_le (density y) (density x) then x # y # ys else y # insert_dense x ys)"

definition sort_dense :: "cand list \<Rightarrow> cand list" where
  "sort_dense xs = foldr insert_dense xs []"

definition manual_pins :: "hosting \<Rightarrow> string set" where
  "manual_pins st = {k \<in> ho_hosted st. k \<notin> dom (ho_installed_at st)}"

definition pin_step ::
  "gateway_env \<Rightarrow> string set \<Rightarrow> model_entry \<Rightarrow> u64 \<times> string set \<Rightarrow> (u64 \<times> string set) gio" where
  "pin_step env manual entry s =
     (case entry of (key, img, _, category, _) \<Rightarrow> case s of (used, counted) \<Rightarrow>
        if key \<in> manual \<and> img \<notin> counted
        then vbind (size_or_estimate env img category) (\<lambda>n. vret (used + n, Set.insert img counted))
        else vret (used, counted))"

definition fill_step ::
  "u64 \<Rightarrow> string set \<times> u64 \<times> string set \<Rightarrow> cand \<Rightarrow> string set \<times> u64 \<times> string set" where
  "fill_step budget s c =
     (case s of (target, used, counted) \<Rightarrow>
        if cd_key c \<in> target then s
        else let incr = (if cd_image c \<in> counted then 0 else cd_size c) in
          if used + incr \<le> budget
          then (Set.insert (cd_key c) target, used + incr, Set.insert (cd_image c) counted)
          else s)"

definition install_step ::
  "gateway_env \<Rightarrow> (string \<Rightarrow> nat) \<Rightarrow> string \<Rightarrow> hosting \<times> string list \<Rightarrow> (hosting \<times> string list) gio" where
  "install_step env clk key s =
     (case s of (st, installed) \<Rightarrow>
        case catalog_entry key of
          None \<Rightarrow> vret s
        | Some (k, img, _) \<Rightarrow>
            vbind (image_present env img) (\<lambda>p.
            vbind (if p then vret True
                   else vbind (vtry (pull_worker env img)) (\<lambda>r :: string + unit. vret (is_ok r))) (\<lambda>ok.
            vret (if ok
              then ((set_hosted k True st)\<lparr>ho_installed_at := (ho_installed_at st)(k \<mapsto> clk key)\<rparr>, installed @ [k])
              else s))))"

definition young :: "hosting \<Rightarrow> (string \<Rightarrow> nat) \<Rightarrow> string \<Rightarrow> bool" where
  "young st clk key =
     (case ho_installed_at st key of Some t \<Rightarrow> (clk key - t) div 10 ^ 9 < MIN_RESIDENCY_SECS | None \<Rightarrow> False)"

definition evict_step ::
  "gateway_env \<Rightarrow> (string \<Rightarrow> nat) \<Rightarrow> string set \<Rightarrow> string \<Rightarrow> hosting \<times> string list \<Rightarrow> (hosting \<times> string list) gio" where
  "evict_step env clk warm key s =
     (case s of (st, evicted) \<Rightarrow>
        if key \<in> warm then vret s
        else if young st clk key then vret s
        else case catalog_entry key of
          None \<Rightarrow> vret s
        | Some (k, img, _) \<Rightarrow>
            let st1 = (set_hosted k False st)\<lparr>ho_installed_at := (ho_installed_at st)(k := None)\<rparr> in
            vbind (if image_shared env st1 img then vret ()
                   else vbind (vtry (gdocker env [''rmi'', img])) (\<lambda>r :: string + cli_output. vret ())) (\<lambda>_.
            vret (st1, evicted @ [k])))"

record autohost_report =
  ar_budget :: u64
  ar_planned :: u64
  ar_installed :: "string list"
  ar_evicted :: "string list"
  ar_target :: "string set"

text \<open>The plan: which keys to host, and the disk they are expected to use.\<close>

definition autohost_plan ::
  "gateway_env \<Rightarrow> hosting \<Rightarrow> response option list \<Rightarrow> (string set \<times> u64 \<times> string set) gio" where
  "autohost_plan env st replies =
     vbind (gpu_available env) (\<lambda>gpu.
     vbind (vfold (candidate_step env gpu (demand_of replies)) model_catalog []) (\<lambda>cands.
     let manual = manual_pins st in
     vbind (vfold (pin_step env manual) model_catalog (0, {})) (\<lambda>(used, counted).
     vret (foldl (fill_step (hp_budget_bytes (ho_policy st))) (manual, used, counted) (sort_dense cands)))))"

definition autohost_apply ::
  "gateway_env \<Rightarrow> (string \<Rightarrow> nat) \<Rightarrow> string set \<Rightarrow> hosting \<Rightarrow> (hosting \<times> string list \<times> string list) gio" where
  "autohost_apply env clk target st =
     (let warm = dom (ho_warm st); hosted_now = ho_hosted st in
      vbind (vfold (install_step env clk) (ge_iter env (target - hosted_now)) (st, [])) (\<lambda>(st1, installed).
      vbind (vfold (evict_step env clk warm) (ge_iter env (hosted_now - target)) (st1, [])) (\<lambda>(st2, evicted).
      vret (st2, installed, evicted))))"

definition autohost_actions :: "i64 \<Rightarrow> string list \<Rightarrow> string list \<Rightarrow> autohost_action list" where
  "autohost_actions now installed evicted =
     map (\<lambda>k. \<lparr>ac_at = now, ac_action = ''install'', ac_key = k, ac_reason = ''in demand, fits the budget''\<rparr>) installed @
     map (\<lambda>k. \<lparr>ac_at = now, ac_action = ''evict'', ac_key = k, ac_reason = ''idle / crowded out of budget''\<rparr>) evicted"

definition autohost_cycle ::
  "gateway_env \<Rightarrow> (string \<Rightarrow> nat) \<Rightarrow> i64 \<Rightarrow> response option list \<Rightarrow> hosting \<Rightarrow> (hosting \<times> autohost_report option) gio" where
  "autohost_cycle env clk now replies st =
     (if hp_mode (ho_policy st) \<noteq> ''auto'' \<or> hp_budget_bytes (ho_policy st) = 0 then vret (st, None)
      else vbind (autohost_plan env st replies) (\<lambda>(target, used, _).
       vbind (autohost_apply env clk target st) (\<lambda>(st1, installed, evicted).
       vret (st1\<lparr>ho_log := append_autohost_log (autohost_actions now installed evicted) (ho_log st1)\<rparr>,
         Some \<lparr>ar_budget = hp_budget_bytes (ho_policy st), ar_planned = used, ar_installed = installed,
           ar_evicted = evicted, ar_target = target\<rparr>))))"

section \<open>The plan\<close>

definition fill_sizes_ok :: "(string \<Rightarrow> nat) \<Rightarrow> u64 \<Rightarrow> cand list \<Rightarrow> bool" where
  "fill_sizes_ok sz used cs \<longleftrightarrow> (\<forall>c \<in> set cs. unat (cd_size c) = sz (cd_image c)) \<and>
     unat used + (\<Sum>c\<leftarrow>cs. unat (cd_size c)) < 2 ^ 64"

definition unfit :: "(string \<Rightarrow> nat) \<Rightarrow> u64 \<Rightarrow> u64 \<Rightarrow> string set \<Rightarrow> string \<Rightarrow> bool" where
  "unfit sz budget used counted img \<longleftrightarrow> unat budget < unat used + (if img \<in> counted then 0 else sz img)"

lemma fill_step_effect:
  assumes "fill_sizes_ok sz used (c # cs)" and "finite counted"
    and "fill_step budget (target, used, counted) c = (target', used', counted')"
  shows "fill_sizes_ok sz used' cs" "finite counted'" "target \<subseteq> target'" "target' \<subseteq> Set.insert (cd_key c) target"
    "counted \<subseteq> counted'" "unat used' = unat used + (\<Sum>i \<in> counted' - counted. sz i)"
    "unat used' \<le> max (unat budget) (unat used)"
    "cd_key c \<notin> target' \<Longrightarrow> unfit sz budget used counted (cd_image c) \<and> used' = used \<and> counted' = counted"
    "img \<in> counted' - counted \<Longrightarrow> \<not> unfit sz budget used counted img"
proof -
  have n: "unat (used + cd_size c) = unat used + unat (cd_size c)"
    using assms(1) by (intro unat_plus_exact) (simp add: fill_sizes_ok_def)
  show "fill_sizes_ok sz used' cs" "finite counted'" "target \<subseteq> target'" "target' \<subseteq> Set.insert (cd_key c) target"
    "counted \<subseteq> counted'" "unat used' \<le> max (unat budget) (unat used)"
    "cd_key c \<notin> target' \<Longrightarrow> unfit sz budget used counted (cd_image c) \<and> used' = used \<and> counted' = counted"
    "img \<in> counted' - counted \<Longrightarrow> \<not> unfit sz budget used counted img"
    using assms n
    by (auto simp: fill_step_def fill_sizes_ok_def unfit_def Let_def word_le_nat_alt split: if_splits)
  show "unat used' = unat used + (\<Sum>i \<in> counted' - counted. sz i)"
    using assms n
    by (auto simp: fill_step_def fill_sizes_ok_def Let_def insert_Diff_if split: if_splits)
qed

lemma fill_effect:
  assumes "fill_sizes_ok sz used cs" and "finite counted"
    and "foldl (fill_step budget) (target, used, counted) cs = (target', used', counted')"
  shows "target \<subseteq> target' \<and> target' \<subseteq> target \<union> cd_key ` set cs \<and> counted \<subseteq> counted' \<and>
    unat used' = unat used + (\<Sum>i \<in> counted' - counted. sz i) \<and> unat used' \<le> max (unat budget) (unat used) \<and>
    (\<forall>img. unfit sz budget used counted img \<longrightarrow> unfit sz budget used' counted' img) \<and>
    (\<forall>c \<in> set cs. cd_key c \<notin> target' \<longrightarrow> unfit sz budget used' counted' (cd_image c)) \<and> finite counted'"
  using assms
proof (induction cs arbitrary: target used counted)
  case (Cons c cs)
  obtain t1 u1 n1 where s: "fill_step budget (target, used, counted) c = (t1, u1, n1)"
    by (cases "fill_step budget (target, used, counted) c") auto
  note e = fill_step_effect [OF Cons.prems(1,2) s]
  have f: "foldl (fill_step budget) (t1, u1, n1) cs = (target', used', counted')" using Cons.prems(3) s by simp
  note ih = Cons.IH [OF e(1,2) f]
  have fin: "finite (counted' - counted)" using ih by blast
  have sum: "(\<Sum>i \<in> counted' - counted. sz i) = (\<Sum>i \<in> counted' - n1. sz i) + (\<Sum>i \<in> n1 - counted. sz i)"
  proof -
    have "counted' - counted = (counted' - n1) \<union> (n1 - counted)" using ih e(5) by blast
    then show ?thesis using fin by (simp add: sum.union_disjoint) (subst sum.union_disjoint, auto)
  qed
  have keep: "unfit sz budget u1 n1 img" if "unfit sz budget used counted img" for img
    using that e(5,6) e(9) [of img] by (cases "img \<in> counted"; cases "img \<in> n1") (auto simp: unfit_def)
  have sets: "target \<subseteq> target'" "target' \<subseteq> target \<union> cd_key ` set (c # cs)" "counted \<subseteq> counted'"
    using ih e(3-5) by auto
  have used: "unat used' = unat used + (\<Sum>i \<in> counted' - counted. sz i)" using ih e(6) sum by linarith
  have bound: "unat used' \<le> max (unat budget) (unat used)" using ih e(7) by linarith
  have left: "unfit sz budget used' counted' (cd_image c)" if "cd_key c \<notin> target'"
    using that ih e(8) keep by blast
  show ?case using sets used bound left ih keep by simp
qed (auto simp: unfit_def)

text \<open>
  C23. The plan fills the disk budget and never overdraws it. Starting from the manual pins (always
  kept, whatever they use), the target has only pins and candidates; the planned bytes are exactly the
  pins plus one image size for every image added, and exceed the budget only if the pins alone do; and
  every candidate left out does not fit in what remains. (An image has one size and the sizes add up
  without overflow.)
\<close>
theorem autohost_fills_the_budget:
  assumes "fill_sizes_ok sz used (sort_dense cands)" and "finite counted"
    and "foldl (fill_step budget) (pins, used, counted) (sort_dense cands) = (target, planned, counted')"
  shows "pins \<subseteq> target \<and> target \<subseteq> pins \<union> cd_key ` set cands \<and>
    unat planned = unat used + (\<Sum>i \<in> counted' - counted. sz i) \<and> unat planned \<le> max (unat budget) (unat used) \<and>
    (\<forall>c \<in> set cands. cd_key c \<notin> target \<longrightarrow>
       unat budget < unat planned + (if cd_image c \<in> counted' then 0 else unat (cd_size c)))"
proof -
  have s: "set (insert_dense x xs) = Set.insert x (set xs)" for x xs
    by (induction x xs rule: insert_dense.induct) auto
  have set: "set (sort_dense cands) = set cands"
    unfolding sort_dense_def by (induction cands) (auto simp: s)
  have sz: "\<forall>c \<in> set cands. unat (cd_size c) = sz (cd_image c)" using assms(1) set by (simp add: fill_sizes_ok_def)
  show ?thesis
    using fill_effect [OF assms] sz unfolding set unfit_def by (auto split: if_splits)
qed

lemma autohost_fills_the_budget_witness:
  "\<exists>target planned counted. foldl (fill_step 10) ({''pin''}, 4, {''img''})
     (sort_dense [\<lparr>cd_key = ''a'', cd_image = ''x'', cd_size = 5, cd_score = Fin 1\<rparr>]) = (target, planned, counted) \<and>
     unat planned \<le> 10"
proof -
  let ?c = "\<lparr>cd_key = ''a'', cd_image = ''x'', cd_size = 5, cd_score = Fin 1\<rparr>"
  have ok: "fill_sizes_ok (\<lambda>_. 5) 4 (sort_dense [?c])" by (simp add: fill_sizes_ok_def sort_dense_def)
  obtain target planned counted where f: "foldl (fill_step 10) ({''pin''}, 4, {''img''}) (sort_dense [?c]) = (target, planned, counted)"
    by (cases "foldl (fill_step 10) ({''pin''}, 4, {''img''}) (sort_dense [?c])") auto
  from autohost_fills_the_budget [OF ok _ f] have "unat planned \<le> max (unat (10 :: u64)) (unat (4 :: u64))" by simp
  then show ?thesis using f by auto
qed

section \<open>What the controller may remove\<close>

lemma catalog_entry_key: "catalog_entry key = Some e \<Longrightarrow> fst e = key"
  by (auto simp: catalog_entry_def find_Some_iff)

definition no_rmi :: "command \<Rightarrow> bool" where
  "no_rmi c \<longleftrightarrow> hd c \<noteq> ''rmi''"

lemma pull_no_rmi: "emits no_rmi (pull_worker env img)" "emits no_rmi (image_present env img)"
  by (auto simp: pull_worker_def verify_image_signature_def image_present_def no_rmi_def Let_def)

definition uses_image :: "string \<Rightarrow> string \<Rightarrow> bool" where
  "uses_image img key \<longleftrightarrow> (case catalog_entry key of Some e \<Rightarrow> fst (snd e) = img | None \<Rightarrow> False)"

definition iter_ok :: "gateway_env \<Rightarrow> bool" where
  "iter_ok env \<longleftrightarrow> (\<forall>S. finite S \<longrightarrow> set (ge_iter env S) = S)"

lemma image_shared_iff:
  "iter_ok env \<Longrightarrow> finite (ho_hosted st) \<Longrightarrow> image_shared env st img \<longleftrightarrow> (\<exists>k \<in> ho_hosted st. uses_image img k)"
  by (auto simp: image_shared_def hosted_models_def iter_ok_def list_ex_iff uses_image_def split: option.splits prod.splits)

text \<open>The part of a history after a point has no removal of an image that is in use.\<close>

definition no_rmi_of_used :: "command list \<Rightarrow> string set \<Rightarrow> bool" where
  "no_rmi_of_used cs keys \<longleftrightarrow> (\<forall>img. [''rmi'', img] \<in> set cs \<longrightarrow> (\<forall>k \<in> keys. \<not> uses_image img k))"

lemma no_rmi_all: "\<forall>c \<in> set cs. no_rmi c \<Longrightarrow> no_rmi_of_used cs keys"
  by (auto simp: no_rmi_of_used_def no_rmi_def)

lemma no_rmi_append: "no_rmi_of_used (cs @ ds) keys \<longleftrightarrow> no_rmi_of_used cs keys \<and> no_rmi_of_used ds keys"
  by (auto simp: no_rmi_of_used_def)

lemma no_rmi_fewer: "no_rmi_of_used cs keys \<Longrightarrow> keys' \<subseteq> keys \<Longrightarrow> no_rmi_of_used cs keys'"
  by (auto simp: no_rmi_of_used_def)

lemma install_step_effect:
  assumes "install_step env clk key (st, inst) h = (Inr (st', inst'), h')"
  shows "(inst' = inst \<and> st' = st \<or> inst' = inst @ [key] \<and> ho_hosted st' = Set.insert key (ho_hosted st)) \<and>
    ho_warm st' = ho_warm st \<and> ho_policy st' = ho_policy st \<and>
    (\<forall>k. k \<noteq> key \<longrightarrow> ho_installed_at st' k = ho_installed_at st k) \<and>
    (\<exists>cs. h' = h @ cs \<and> (\<forall>c \<in> set cs. no_rmi c))"
proof (cases "catalog_entry key")
  case None
  then show ?thesis using assms by (auto simp: install_step_def vret_def)
next
  case (Some e)
  obtain k img rest where e: "e = (k, img, rest)" by (cases e)
  have k: "k = key" using catalog_entry_key [OF Some] e by simp
  have "emits no_rmi (install_step env clk key (st, inst))"
    using Some e pull_no_rmi by (auto simp: install_step_def split: prod.splits)
  note em = emitsD [OF this assms]
  show ?thesis
    using assms Some e k em by (auto simp: install_step_def result_iff set_hosted_def split: if_splits)
qed

lemma evict_step_effect:
  assumes "evict_step env clk warm key (st, ev) h = (Inr (st', ev'), h')" and "iter_ok env" and "finite (ho_hosted st)"
  shows "(ev' = ev \<and> st' = st \<or> ev' = ev @ [key] \<and> key \<notin> warm \<and> \<not> young st clk key \<and>
       ho_hosted st' = ho_hosted st - {key}) \<and>
    (\<forall>k. k \<noteq> key \<longrightarrow> ho_installed_at st' k = ho_installed_at st k) \<and> ho_policy st' = ho_policy st \<and>
    (\<exists>cs. h' = h @ cs \<and> no_rmi_of_used cs (ho_hosted st'))"
proof (cases "key \<in> warm \<or> young st clk key \<or> catalog_entry key = None")
  case True
  then show ?thesis
    using assms(1) by (auto simp: evict_step_def vret_def no_rmi_of_used_def split: if_splits option.splits)
next
  case False
  then obtain k img rest where e: "catalog_entry key = Some (k, img, rest)" by (cases "catalog_entry key") auto
  have k: "k = key" using catalog_entry_key [OF e] by simp
  let ?st1 = "(set_hosted key False st)\<lparr>ho_installed_at := (ho_installed_at st)(key := None)\<rparr>"
  have h: "ho_hosted ?st1 = ho_hosted st - {key}" by (simp add: set_hosted_def)
  have eq: "evict_step env clk warm key (st, ev) =
      vbind (if image_shared env ?st1 img then vret ()
             else vbind (vtry (gdocker env [''rmi'', img])) (\<lambda>r :: string + cli_output. vret ())) (\<lambda>_. vret (?st1, ev @ [key]))"
    using False e k by (simp add: evict_step_def)
  have st': "st' = ?st1" "ev' = ev @ [key]" using assms(1) unfolding eq by (auto simp: result_iff)
  have "\<exists>cs. h' = h @ cs \<and> no_rmi_of_used cs (ho_hosted ?st1)"
  proof (cases "image_shared env ?st1 img")
    case True
    then show ?thesis using assms(1) unfolding eq by (auto simp: result_iff no_rmi_of_used_def)
  next
    case ns: False
    then have h': "h' = h @ [[''rmi'', img]]" using assms(1) unfolding eq by (auto simp: result_iff gdocker_def)
    have "\<forall>k \<in> ho_hosted ?st1. \<not> uses_image img k"
      using ns image_shared_iff [OF assms(2), of ?st1] assms(3) h by auto
    then show ?thesis using h' by (simp add: no_rmi_of_used_def)
  qed
  then show ?thesis using st' False h by (auto simp: set_hosted_def)
qed

text \<open>
  The controller only removes what it installed itself. In one step of applying a plan that keeps
  the manual pins, every evicted model had been installed by the controller, is cold and past its
  minimum residency; all manual pins and everything planned and installed stay hosted; and no worker
  image is removed that a model still hosted runs on.
\<close>
theorem autohost_evicts_only_its_own:
  assumes "autohost_apply env clk target st h = (Inr (st', installed, evicted), h')"
    and "manual_pins st \<subseteq> target" and "iter_ok env" and "finite (ho_hosted st)" and "finite target"
  shows "(\<forall>k \<in> set evicted. k \<in> ho_hosted st \<and> k \<notin> target \<and> k \<in> dom (ho_installed_at st) \<and>
      ho_warm st k = None \<and> \<not> young st clk k) \<and>
    set installed \<subseteq> target \<and> ho_hosted st' = (ho_hosted st \<union> set installed) - set evicted \<and> manual_pins st \<subseteq> ho_hosted st' \<and>
    (\<exists>cs. h' = h @ cs \<and> no_rmi_of_used cs (ho_hosted st'))"
proof -
  obtain st1 h1 where i: "vfold (install_step env clk) (ge_iter env (target - ho_hosted st)) (st, []) h = (Inr (st1, installed), h1)"
    and e: "vfold (evict_step env clk (dom (ho_warm st))) (ge_iter env (ho_hosted st - target)) (st1, []) h1 = (Inr (st', evicted), h')"
    using assms(1) by (auto simp: autohost_apply_def result_iff Let_def)
  have it: "set (ge_iter env (target - ho_hosted st)) = target - ho_hosted st"
    "set (ge_iter env (ho_hosted st - target)) = ho_hosted st - target"
    using assms(3-5) by (simp_all add: iter_ok_def)
  let ?I = "\<lambda>pre s h2. set (snd s) \<subseteq> set pre \<and> ho_hosted (fst s) = ho_hosted st \<union> set (snd s) \<and>
      (\<forall>k. k \<notin> set pre \<longrightarrow> ho_installed_at (fst s) k = ho_installed_at st k) \<and>
      (\<exists>cs. h2 = h @ cs \<and> (\<forall>c \<in> set cs. no_rmi c))"
  have "?I (ge_iter env (target - ho_hosted st)) (st1, installed) h1"
  proof (rule vfold_inv [OF i, where I = ?I])
    show "?I [] (st, []) h" by simp
    fix pre x post s1 h2 s2 h3 assume inv: "?I pre s1 h2" and step: "install_step env clk x s1 h2 = (Inr s2, h3)"
    obtain a b c d where s: "s1 = (a, b)" "s2 = (c, d)" by (cases s1; cases s2)
    note ef = install_step_effect [OF step [unfolded s]]
    obtain cs ds where "h2 = h @ cs" "h3 = h2 @ ds" "\<forall>c \<in> set cs. no_rmi c" "\<forall>c \<in> set ds. no_rmi c"
      using inv ef by blast
    then have "\<exists>cs. h3 = h @ cs \<and> (\<forall>c \<in> set cs. no_rmi c)" by (intro exI [of _ "cs @ ds"]) auto
    then show "?I (pre @ [x]) s2 h3" using inv ef s by auto
  qed
  then obtain cs1 where I: "set installed \<subseteq> target - ho_hosted st" "ho_hosted st1 = ho_hosted st \<union> set installed"
    "\<forall>k. k \<notin> target - ho_hosted st \<longrightarrow> ho_installed_at st1 k = ho_installed_at st k"
    "h1 = h @ cs1" "\<forall>c \<in> set cs1. no_rmi c" using it(1) by auto
  let ?J = "\<lambda>pre s h2. set (snd s) \<subseteq> set pre \<and> ho_hosted (fst s) = ho_hosted st1 - set (snd s) \<and>
      (\<forall>k. k \<notin> set (snd s) \<longrightarrow> ho_installed_at (fst s) k = ho_installed_at st1 k) \<and>
      (\<forall>k \<in> set (snd s). k \<notin> dom (ho_warm st) \<and> \<not> young st1 clk k) \<and>
      (\<exists>cs. h2 = h1 @ cs \<and> no_rmi_of_used cs (ho_hosted (fst s)))"
  have fin1: "finite (ho_hosted st1)" using I(2) assms(4) by simp
  have "?J (ge_iter env (ho_hosted st - target)) (st', evicted) h'"
  proof (rule vfold_inv [OF e, where I = ?J])
    show "?J [] (st1, []) h1" by (simp add: no_rmi_of_used_def)
    fix pre x post s1 h2 s2 h3 assume inv: "?J pre s1 h2"
      and step: "evict_step env clk (dom (ho_warm st)) x s1 h2 = (Inr s2, h3)"
    obtain a b c d where s: "s1 = (a, b)" "s2 = (c, d)" by (cases s1; cases s2)
    have fin: "finite (ho_hosted a)" using inv s fin1 by simp
    note ef = evict_step_effect [OF step [unfolded s] assms(3) fin]
    obtain cs where cs1: "h2 = h1 @ cs" "no_rmi_of_used cs (ho_hosted a)" using inv s by auto
    obtain ds where "h3 = h2 @ ds" "no_rmi_of_used ds (ho_hosted c)" using ef by blast
    note cs = cs1(1) this(1) cs1(2) this(2)
    have "ho_hosted c \<subseteq> ho_hosted a" using ef by auto
    then have "no_rmi_of_used (cs @ ds) (ho_hosted c)" using cs(3,4) no_rmi_fewer by (simp add: no_rmi_append)
    then have hist: "\<exists>cs. h3 = h1 @ cs \<and> no_rmi_of_used cs (ho_hosted c)" using cs(1,2) by auto
    have y: "\<not> young st1 clk x" if "x \<notin> set b" "\<not> young a clk x"
      using that inv s by (auto simp: young_def)
    show "?J (pre @ [x]) s2 h3"
    proof (cases "d = b")
      case True
      then show ?thesis using inv ef s hist by auto
    next
      case False
      then have "d = b @ [x]" "x \<notin> dom (ho_warm st)" "\<not> young a clk x" "ho_hosted c = ho_hosted a - {x}" using ef by auto
      then show ?thesis using inv ef s hist y by auto
    qed
  qed
  then obtain cs2 where J: "set evicted \<subseteq> ho_hosted st - target" "ho_hosted st' = ho_hosted st1 - set evicted"
    "\<forall>k \<in> set evicted. k \<notin> dom (ho_warm st) \<and> \<not> young st1 clk k"
    "h' = h1 @ cs2" "no_rmi_of_used cs2 (ho_hosted st')" using it(2) by auto
  have own: "k \<in> dom (ho_installed_at st)" if "k \<in> set evicted" for k
    using that J(1) assms(2) by (auto simp: manual_pins_def)
  have yng: "young st1 clk k = young st clk k" if "k \<in> set evicted" for k
    using that J(1) I(3) by (simp add: young_def subset_iff)
  have "no_rmi_of_used (cs1 @ cs2) (ho_hosted st')" using no_rmi_all [OF I(5)] J(5) by (simp add: no_rmi_append)
  then have hist: "\<exists>cs. h' = h @ cs \<and> no_rmi_of_used cs (ho_hosted st')" using I(4) J(4) by auto
  have pins: "manual_pins st \<subseteq> ho_hosted st'" using J(1,2) I(2) assms(2) by (auto simp: manual_pins_def)
  show ?thesis using J I own yng hist pins by auto
qed

definition demo_gateway_env :: gateway_env where
  "demo_gateway_env = \<lparr>ge_run = (\<lambda>_ _. Some \<lparr>co_success = True, co_stdout = '''', co_stderr = ''''\<rparr>), ge_var = (\<lambda>_. None),
     ge_external = [], ge_nvidia_smi = False, ge_iter = sorted_list_of_set\<rparr>"

definition demo_hosting :: hosting where
  "demo_hosting = \<lparr>ho_hosted = {''m''}, ho_warm = [''m'' \<mapsto> 0], ho_installed_at = [''m'' \<mapsto> 0],
     ho_policy = \<lparr>hp_mode = ''auto'', hp_budget_bytes = 1\<rparr>, ho_log = []\<rparr>"

lemma autohost_evicts_only_its_own_witness:
  "\<exists>st' h'. autohost_apply demo_gateway_env (\<lambda>_. 0) {} demo_hosting [] = (Inr (st', [], []), h') \<and> ho_hosted st' = {''m''}"
proof -
  have "autohost_apply demo_gateway_env (\<lambda>_. 0) {} demo_hosting [] = (Inr (demo_hosting, [], []), [])"
    by (simp add: autohost_apply_def demo_gateway_env_def demo_hosting_def evict_step_def vbind_def vret_def Let_def)
  moreover have "iter_ok demo_gateway_env" by (simp add: iter_ok_def demo_gateway_env_def)
  moreover have "manual_pins demo_hosting \<subseteq> {}" "finite (ho_hosted demo_hosting)"
    by (simp_all add: manual_pins_def demo_hosting_def)
  ultimately have "ho_hosted demo_hosting = (ho_hosted demo_hosting \<union> set []) - set []"
    using autohost_evicts_only_its_own [of demo_gateway_env "\<lambda>_. 0" "{}" demo_hosting "[]" demo_hosting "[]" "[]" "[]"] by blast
  then show ?thesis
    using \<open>autohost_apply demo_gateway_env (\<lambda>_. 0) {} demo_hosting [] = (Inr (demo_hosting, [], []), [])\<close>
    by (simp add: demo_hosting_def)
qed

section \<open>Two departures from the comments\<close>

text \<open>
  The times of installation are lost on a restart; then every hosted model counts as a manual pin and
  the controller never evicts one of them again.
\<close>

lemma restart_pins_everything: "ho_installed_at st = (\<lambda>_. None) \<Longrightarrow> manual_pins st = ho_hosted st"
  by (simp add: manual_pins_def)

text \<open>The actions of one cycle are stored in the order they were made, not newest first.\<close>

lemma autohost_log_order: "new \<noteq> [] \<Longrightarrow> append_autohost_log new recent = take 50 (new @ recent)"
proof -
  have "fold (\<lambda>e l. e # l) (rev xs) ys = xs @ ys" for xs ys :: "autohost_action list"
    by (induction xs arbitrary: ys) auto
  then show "new \<noteq> [] \<Longrightarrow> append_autohost_log new recent = take 50 (new @ recent)"
    by (simp add: append_autohost_log_def)
qed

end
