(* ===== verification/Gateway_Guard.thy ===== *)
theory Gateway_Guard
  imports Rust_Search
begin

text \<open>
  Who may drive the local gateway (\<open>crates/cloudiy/src/gateway.rs\<close>): the parsing of \<open>Host\<close> and
  \<open>Origin\<close>, the allowlist of a public gateway, the decision of the guard and the middleware around every
  route. A header map is the list of its fields, names in lower case.
\<close>

section \<open>Requests and responses\<close>

type_synonym header_map = "(string \<times> string) list"

record http_request =
  hq_method :: string
  hq_path :: string
  hq_query :: "string option"
  hq_headers :: header_map
  hq_body :: bytes

record http_response =
  hr_status :: nat
  hr_headers :: header_map
  hr_body :: bytes

definition headers_insert :: "string \<Rightarrow> string \<Rightarrow> header_map \<Rightarrow> header_map" where
  "headers_insert name v hs = filter (\<lambda>f. fst f \<noteq> name) hs @ [(name, v)]"

definition headers_append :: "string \<Rightarrow> string \<Rightarrow> header_map \<Rightarrow> header_map" where
  "headers_append name v hs = hs @ [(name, v)]"

text \<open>\<open>HeaderValue::from_str\<close> and \<open>to_str\<close>.\<close>

definition header_value_ok :: "string \<Rightarrow> bool" where
  "header_value_ok v \<longleftrightarrow> (\<forall>c \<in> set v. c = CHR 0x09 \<or> 32 \<le> (of_char c :: nat) \<and> of_char c \<noteq> (127 :: nat))"

definition header_to_str :: "string \<Rightarrow> string option" where
  "header_to_str v =
     (if \<forall>c \<in> set v. c = CHR 0x09 \<or> 32 \<le> (of_char c :: nat) \<and> of_char c < (127 :: nat) then Some v else None)"

definition plain_response :: "nat \<Rightarrow> string \<Rightarrow> http_response" where
  "plain_response status msg =
     \<lparr>hr_status = status, hr_headers = [(''content-type'', ''text/plain; charset=utf-8'')], hr_body = as_bytes msg\<rparr>"

section \<open>Hosts and origins\<close>

definition is_loopback_host :: "string \<Rightarrow> bool" where
  "is_loopback_host host \<longleftrightarrow> host \<in> {''localhost'', ''127.0.0.1'', ''::1'', ''[::1]''}"

definition split_host_port :: "string \<Rightarrow> string \<times> u16 option" where
  "split_host_port v =
     (let s = (case strip_prefix ''http://'' v of Some r \<Rightarrow> r
               | None \<Rightarrow> case strip_prefix ''https://'' v of Some r \<Rightarrow> r | None \<Rightarrow> v);
          authority = hd (split_on CHR ''/'' s);
          authority = (case rsplit_once CHR ''@'' authority of Some (_, host) \<Rightarrow> host | None \<Rightarrow> authority) in
      case strip_prefix ''['' authority of
        Some rest \<Rightarrow>
          (case split_once '']'' rest of
             Some (h, after) \<Rightarrow> (''['' @ h @ '']'', Option.bind (strip_prefix '':'' after) parse_word)
           | None \<Rightarrow> (authority, None))
      | None \<Rightarrow>
          (case split_once '':'' authority of
             Some (h, port) \<Rightarrow> (h, parse_word port)
           | None \<Rightarrow> (authority, None)))"

definition header_host_is_loopback :: "string \<Rightarrow> bool" where
  "header_host_is_loopback v \<longleftrightarrow> is_loopback_host (fst (split_host_port v))"

definition loopback_port :: "string \<Rightarrow> u16 option" where
  "loopback_port v =
     (let (host, port) = split_host_port v in
      if \<not> is_loopback_host host then None
      else Some (case port of Some p \<Rightarrow> p | None \<Rightarrow> if starts_with v ''https://'' then 443 else 80))"

definition same_loopback_origin :: "string \<Rightarrow> string option \<Rightarrow> bool" where
  "same_loopback_origin origin host \<longleftrightarrow>
     (case (loopback_port origin, Option.bind host loopback_port) of (Some op, Some hp) \<Rightarrow> op = hp | _ \<Rightarrow> False)"

definition origin_host_port :: "string \<Rightarrow> string \<times> u16" where
  "origin_host_port v =
     (let (host, port) = split_host_port v;
          port = (case port of Some p \<Rightarrow> p | None \<Rightarrow> if starts_with v ''https://'' then 443 else 80) in
      (lower host, port))"

record allowed_origins =
  ao_entries :: "(string \<times> u16) list"

definition from_values :: "string list \<Rightarrow> allowed_origins" where
  "from_values values = \<lparr>ao_entries = map origin_host_port (filter (\<lambda>v. v \<noteq> []) (map trim values))\<rparr>"

definition allows_host :: "allowed_origins \<Rightarrow> string \<Rightarrow> bool" where
  "allows_host self host_header = (let (h, _) = origin_host_port host_header in list_ex (\<lambda>e. fst e = h) (ao_entries self))"

definition allows_origin :: "allowed_origins \<Rightarrow> string \<Rightarrow> bool" where
  "allows_origin self origin \<longleftrightarrow> origin_host_port origin \<in> set (ao_entries self)"

section \<open>The guard\<close>

datatype guard_outcome = Reject string | Allow "string option"

definition guard_decision :: "string option \<Rightarrow> string option \<Rightarrow> allowed_origins \<Rightarrow> guard_outcome" where
  "guard_decision host origin allowed =
     (if (case host of Some h \<Rightarrow> \<not> header_host_is_loopback h \<and> \<not> allows_host allowed h | None \<Rightarrow> False)
      then Reject ''non-loopback Host rejected''
      else let cross_origin_allowed = (case origin of Some orig \<Rightarrow> allows_origin allowed orig | None \<Rightarrow> False) in
        if (case origin of Some orig \<Rightarrow> \<not> same_loopback_origin orig host \<and> \<not> cross_origin_allowed | None \<Rightarrow> False)
        then Reject ''cross-origin request rejected''
        else Allow (if cross_origin_allowed then origin else None))"

definition add_cors_headers :: "string \<Rightarrow> header_map \<Rightarrow> header_map" where
  "add_cors_headers origin headers =
     (let headers = (if header_value_ok origin then headers_insert ''access-control-allow-origin'' origin headers else headers);
          headers = headers_insert ''access-control-allow-methods'' ''GET, POST, DELETE, OPTIONS'' headers;
          headers = headers_insert ''access-control-allow-headers'' ''content-type'' headers;
          headers = headers_insert ''access-control-max-age'' ''600'' headers in
      headers_append ''vary'' ''Origin'' headers)"

text \<open>\<open>run_next\<close> is the rest of the router.\<close>

definition guard_local_origin :: "allowed_origins \<Rightarrow> http_request \<Rightarrow> (http_request \<Rightarrow> http_response) \<Rightarrow> http_response" where
  "guard_local_origin allowed request run_next =
     (let host = Option.bind (map_of (hq_headers request) ''host'') header_to_str;
          origin = Option.bind (map_of (hq_headers request) ''origin'') header_to_str in
      case guard_decision host origin allowed of
        Reject msg \<Rightarrow> plain_response 403 msg
      | Allow cors \<Rightarrow>
          if hq_method request = ''OPTIONS'' \<and> cors \<noteq> None
          then \<lparr>hr_status = 200, hr_headers = add_cors_headers (the cors) [], hr_body = []\<rparr>
          else let resp = run_next request in
            case cors of None \<Rightarrow> resp
            | Some orig \<Rightarrow> resp\<lparr>hr_headers := add_cors_headers orig (hr_headers resp)\<rparr>)"

section \<open>What the parts of a value mean\<close>

text \<open>
  An abstract \<open>Host\<close>, \<open>Origin\<close> or configured value: an optional scheme, an optional user, a host (a name
  or an address in brackets), an optional port and a path. Browsers send no user and no path; an
  attacker may.
\<close>

record web_value =
  wv_scheme :: "bool option"
  wv_user :: "string option"
  wv_host :: string
  wv_port :: "u16 option"
  wv_path :: string

definition render_value :: "web_value \<Rightarrow> string" where
  "render_value v =
     (case wv_scheme v of None \<Rightarrow> '''' | Some True \<Rightarrow> ''https://'' | Some False \<Rightarrow> ''http://'') @
     (case wv_user v of None \<Rightarrow> '''' | Some u \<Rightarrow> u @ ''@'') @ wv_host v @
     (case wv_port v of None \<Rightarrow> '''' | Some p \<Rightarrow> '':'' @ show_word p) @ wv_path v"

definition host_name_ok :: "string \<Rightarrow> bool" where
  "host_name_ok h \<longleftrightarrow> h \<noteq> [] \<and> set h \<inter> {CHR ''/'', CHR ''@'', CHR '':'', CHR ''[''} = {}"

definition bracket_ok :: "string \<Rightarrow> bool" where
  "bracket_ok h \<longleftrightarrow> (\<exists>a. h = ''['' @ a @ '']'' \<and> set a \<inter> {CHR ''/'', CHR ''@'', CHR '']''} = {})"

definition web_value_ok :: "web_value \<Rightarrow> bool" where
  "web_value_ok v \<longleftrightarrow> (host_name_ok (wv_host v) \<or> bracket_ok (wv_host v)) \<and>
     (\<forall>u. wv_user v = Some u \<longrightarrow> CHR ''/'' \<notin> set u) \<and> (wv_path v = [] \<or> hd (wv_path v) = CHR ''/'')"

definition effective_port :: "web_value \<Rightarrow> u16" where
  "effective_port v = (case wv_port v of Some p \<Rightarrow> p | None \<Rightarrow> if wv_scheme v = Some True then 443 else 80)"

lemma show_word_chars: "digit_val 10 c = None \<Longrightarrow> c \<notin> set (show_word w)"
  by (simp add: show_word_def show_nat_no)

definition port_text :: "u16 option \<Rightarrow> string" where
  "port_text p = (case p of None \<Rightarrow> '''' | Some w \<Rightarrow> '':'' @ show_word w)"

lemma port_text_chars: "c \<noteq> CHR '':'' \<Longrightarrow> digit_val 10 c = None \<Longrightarrow> c \<notin> set (port_text p)"
  by (auto simp: port_text_def show_word_chars split: option.splits)

lemma host_no_slash:
  assumes "host_name_ok h \<or> bracket_ok h"
  shows "CHR ''/'' \<notin> set h" "CHR ''@'' \<notin> set h" "h \<noteq> []" "last h \<noteq> CHR '':''"
proof -
  show "CHR ''/'' \<notin> set h" "CHR ''@'' \<notin> set h" "h \<noteq> []"
    using assms by (auto simp: host_name_ok_def bracket_ok_def)
  show "last h \<noteq> CHR '':''"
    using assms by (auto simp: host_name_ok_def bracket_ok_def dest: last_in_set)
qed

lemma no_colon_end:
  assumes "host_name_ok h \<or> bracket_ok h"
  shows "h @ port_text p \<noteq> []" "last (h @ port_text p) \<noteq> CHR '':''" "CHR ''/'' \<notin> set (h @ port_text p)"
    "CHR ''@'' \<notin> set (h @ port_text p)"
proof -
  note f = host_no_slash [OF assms]
  show "h @ port_text p \<noteq> []" "CHR ''/'' \<notin> set (h @ port_text p)" "CHR ''@'' \<notin> set (h @ port_text p)"
    using f port_text_chars [of "CHR ''/''" p] port_text_chars [of "CHR ''@''" p] by (auto simp: digit_val_def)
  show "last (h @ port_text p) \<noteq> CHR '':''"
  proof (cases p)
    case None
    then show ?thesis using f by (simp add: port_text_def)
  next
    case (Some w)
    have "show_word w \<noteq> []" "CHR '':'' \<notin> set (show_word w)"
      by (simp_all add: show_word_def show_nat_no digit_val_def)
    then show ?thesis using Some by (auto simp: port_text_def dest: last_in_set)
  qed
qed

lemma takeWhile_until: "c \<notin> set a \<Longrightarrow> takeWhile (\<lambda>x. x \<noteq> c) (a @ c # r) = a"
  by (induction a) auto

lemma takeWhile_all: "c \<notin> set a \<Longrightarrow> takeWhile (\<lambda>x. x \<noteq> c) a = a"
  by (induction a) auto

text \<open>The part after the scheme does not start with another scheme.\<close>

lemma no_second_scheme:
  assumes "CHR ''/'' \<notin> set a" and "a \<noteq> []" and "last a \<noteq> CHR '':''" and "path = [] \<or> hd path = CHR ''/''"
    and "a @ path = b @ CHR '':'' # CHR ''/'' # r" and "CHR ''/'' \<notin> set b"
  shows False
proof -
  have "takeWhile (\<lambda>c. c \<noteq> CHR ''/'') (a @ path) = a"
    using assms(1,4) by (cases path) (auto simp: takeWhile_until takeWhile_all)
  moreover have "takeWhile (\<lambda>c. c \<noteq> CHR ''/'') (b @ CHR '':'' # CHR ''/'' # r) = b @ '':''"
    using takeWhile_until [of "CHR ''/''" "b @ '':''" r] assms(6) by simp
  ultimately have "a = b @ '':''" using assms(5) by metis
  then show False using assms(3) by simp
qed

lemma scheme_split:
  assumes "CHR ''/'' \<notin> set a" and "a \<noteq> []" and "last a \<noteq> CHR '':''" and "path = [] \<or> hd path = CHR ''/''"
  shows "strip_prefix ''http://'' (a @ path) = None" "strip_prefix ''https://'' (a @ path) = None"
    "strip_prefix ''http://'' (''https://'' @ r) = None" "\<not> starts_with (a @ path) ''https://''"
    "\<not> starts_with (''http://'' @ r) ''https://''"
proof -
  have h: "\<not> starts_with (a @ path) ''http://''" "\<not> starts_with (a @ path) ''https://''"
    using no_second_scheme [OF assms, of "''http''"] no_second_scheme [OF assms, of "''https''"]
    by (auto simp: starts_with_iff)
  then show "strip_prefix ''http://'' (a @ path) = None" "strip_prefix ''https://'' (a @ path) = None"
    "\<not> starts_with (a @ path) ''https://''" by (simp_all add: strip_prefix_def)
  show "strip_prefix ''http://'' (''https://'' @ r) = None" by (simp add: strip_prefix_def starts_with_def)
  show "\<not> starts_with (''http://'' @ r) ''https://''" by (simp add: starts_with_def)
qed

lemma strip_append [simp]: "strip_prefix pat (pat @ s) = Some s"
  by (simp add: strip_prefix_Some)

lemma split_authority:
  assumes "host_name_ok h \<or> bracket_ok h"
  shows "(case strip_prefix ''['' (h @ port_text p) of
        Some rest \<Rightarrow>
          (case split_once '']'' rest of
             Some (x, after) \<Rightarrow> (''['' @ x @ '']'', Option.bind (strip_prefix '':'' after) parse_word)
           | None \<Rightarrow> (h @ port_text p, None))
      | None \<Rightarrow>
          (case split_once '':'' (h @ port_text p) of
             Some (x, port) \<Rightarrow> (x, parse_word port)
           | None \<Rightarrow> (h @ port_text p, None))) = (h, p)"
  using assms
proof
  assume h: "host_name_ok h"
  then have "strip_prefix ''['' (h @ port_text p) = None"
    by (cases h) (auto simp: host_name_ok_def strip_prefix_def starts_with_def)
  then show ?thesis using h
    by (cases p) (auto simp: host_name_ok_def port_text_def split_once_first_char split_once_no_char)
next
  assume "bracket_ok h"
  then obtain a where a: "h = ''['' @ a @ '']''" "CHR '']'' \<notin> set a" by (auto simp: bracket_ok_def)
  have "strip_prefix ''['' (h @ port_text p) = Some (a @ CHR '']'' # port_text p)"
    using a by (simp add: strip_prefix_Some)
  moreover have "strip_prefix '':'' (port_text p) = map_option show_word p"
    by (cases p) (auto simp: port_text_def strip_prefix_def starts_with_def)
  ultimately show ?thesis using a by (cases p) (simp_all add: split_once_first_char)
qed

lemma scheme_cases: "(s = None \<Longrightarrow> P) \<Longrightarrow> (s = Some True \<Longrightarrow> P) \<Longrightarrow> (s = Some False \<Longrightarrow> P) \<Longrightarrow> P"
  by (cases s) auto

lemma split_host_port_render:
  assumes "web_value_ok v"
  shows "split_host_port (render_value v) = (wv_host v, wv_port v)"
    "starts_with (render_value v) ''https://'' \<longleftrightarrow> wv_scheme v = Some True"
proof -
  define tail where "tail = wv_host v @ port_text (wv_port v)"
  define user where "user = (case wv_user v of None \<Rightarrow> '''' | Some u \<Rightarrow> u @ ''@'')"
  have h: "host_name_ok (wv_host v) \<or> bracket_ok (wv_host v)" and path: "wv_path v = [] \<or> hd (wv_path v) = CHR ''/''"
    and u: "CHR ''/'' \<notin> set user"
    using assms by (auto simp: web_value_ok_def user_def split: option.splits)
  note t = no_colon_end [OF h, of "wv_port v", folded tail_def]
  have a: "CHR ''/'' \<notin> set (user @ tail)" "user @ tail \<noteq> []" "last (user @ tail) \<noteq> CHR '':''"
    using t u by auto
  have r: "render_value v = (case wv_scheme v of None \<Rightarrow> '''' | Some True \<Rightarrow> ''https://'' | Some False \<Rightarrow> ''http://'') @
      (user @ tail) @ wv_path v"
    by (simp add: render_value_def user_def tail_def port_text_def)
  note s = scheme_split [OF a path]
  have at_sign: "(case rsplit_once CHR ''@'' (user @ tail) of Some (_, host) \<Rightarrow> host | None \<Rightarrow> user @ tail) = tail"
    using t(4) by (cases "wv_user v") (auto simp: user_def rsplit_once_no rsplit_once_last)
  have auth: "hd (split_on CHR ''/'' ((user @ tail) @ wv_path v)) = user @ tail"
    using a(1) path takeWhile_until [of "CHR ''/''" "user @ tail"] takeWhile_all [of "CHR ''/''" "user @ tail"]
    by (cases "wv_path v") (auto simp: split_on_hd_takeWhile simp del: append_assoc)
  have strip: "(case strip_prefix ''http://'' (render_value v) of Some r \<Rightarrow> r
      | None \<Rightarrow> case strip_prefix ''https://'' (render_value v) of Some r \<Rightarrow> r | None \<Rightarrow> render_value v) =
      (user @ tail) @ wv_path v"
    by (rule scheme_cases [of "wv_scheme v"]; simp only: r option.case bool.case strip_append s append_Nil)
  show "split_host_port (render_value v) = (wv_host v, wv_port v)"
    unfolding split_host_port_def Let_def strip auth at_sign
    by (rule split_authority [OF h, of "wv_port v", folded tail_def])
  show "starts_with (render_value v) ''https://'' \<longleftrightarrow> wv_scheme v = Some True"
    by (rule scheme_cases [of "wv_scheme v"];
      simp only: r option.case bool.case starts_with_append s append_Nil option.distinct option.inject bool.simps simp_thms)
qed

lemma origin_host_port_render:
  "web_value_ok v \<Longrightarrow> origin_host_port (render_value v) = (lower (wv_host v), effective_port v)"
  by (simp add: origin_host_port_def split_host_port_render effective_port_def)

lemma loopback_render:
  assumes "web_value_ok v"
  shows "loopback_port (render_value v) = (if is_loopback_host (wv_host v) then Some (effective_port v) else None)"
    "header_host_is_loopback (render_value v) \<longleftrightarrow> is_loopback_host (wv_host v)"
  using assms
  by (simp_all add: loopback_port_def split_host_port_render effective_port_def header_host_is_loopback_def)

section \<open>What the guard decides\<close>

definition config_ok :: "web_value \<Rightarrow> bool" where
  "config_ok v \<longleftrightarrow> web_value_ok v \<and> (\<forall>c \<in> set (render_value v). \<not> is_space c)"

lemma render_nonempty: "web_value_ok v \<Longrightarrow> render_value v \<noteq> []"
  using host_no_slash(3) [of "wv_host v"] by (auto simp: render_value_def web_value_ok_def)

lemma trim_config: "config_ok v \<Longrightarrow> trim (render_value v) = render_value v"
  using render_nonempty [of v] by (intro trim_id) (auto simp: config_ok_def)

lemma from_values_render:
  assumes "\<forall>v \<in> set vs. config_ok v"
  shows "from_values (map render_value vs) = \<lparr>ao_entries = map (\<lambda>v. (lower (wv_host v), effective_port v)) vs\<rparr>"
  using assms by (induction vs) (auto simp: from_values_def trim_config render_nonempty config_ok_def
      origin_host_port_render)

definition guard_spec :: "web_value option \<Rightarrow> web_value option \<Rightarrow> web_value list \<Rightarrow> guard_outcome" where
  "guard_spec host origin allowed =
     (let site = (\<lambda>v. (lower (wv_host v), effective_port v));
          listed = (case origin of None \<Rightarrow> False | Some v \<Rightarrow> site v \<in> site ` set allowed);
          trusted_host = (case host of None \<Rightarrow> True
            | Some v \<Rightarrow> is_loopback_host (wv_host v) \<or> lower (wv_host v) \<in> (\<lambda>a. lower (wv_host a)) ` set allowed);
          same_origin = (case origin of None \<Rightarrow> True
            | Some v \<Rightarrow> (\<exists>h. host = Some h \<and> is_loopback_host (wv_host v) \<and> is_loopback_host (wv_host h) \<and>
                effective_port v = effective_port h)) in
      if \<not> trusted_host then Reject ''non-loopback Host rejected''
      else if \<not> same_origin \<and> \<not> listed then Reject ''cross-origin request rejected''
      else Allow (if listed then map_option render_value origin else None))"


definition local_value :: "u16 \<Rightarrow> web_value" where
  "local_value port = \<lparr>wv_scheme = Some False, wv_user = None, wv_host = ''localhost'', wv_port = Some port, wv_path = ''''\<rparr>"

lemma local_value_ok: "web_value_ok (local_value p)"
  by (simp add: local_value_def web_value_ok_def host_name_ok_def)


text \<open>
  A page of another site cannot drive the gateway or read its answers. On a gateway without an
  allowlist, a request reaches the routes only under a loopback host (or none) and only if it names no
  origin or the loopback origin with the port of that host, and then no cross-origin header is added:
  the answer of the routes is passed on as it is. Everything else is answered 403 without running them.
\<close>
theorem other_sites_are_refused:
  assumes "guard_local_origin (from_values []) request run_next = resp"
  shows "resp = plain_response 403 ''non-loopback Host rejected'' \<or>
     resp = plain_response 403 ''cross-origin request rejected'' \<or>
     resp = run_next request \<and>
       (\<forall>h. Option.bind (map_of (hq_headers request) ''host'') header_to_str = Some h \<longrightarrow> header_host_is_loopback h) \<and>
       (\<forall>orig. Option.bind (map_of (hq_headers request) ''origin'') header_to_str = Some orig \<longrightarrow>
          (\<exists>h port. Option.bind (map_of (hq_headers request) ''host'') header_to_str = Some h \<and>
             loopback_port orig = Some port \<and> loopback_port h = Some port))"
  using assms
  by (auto simp: guard_local_origin_def guard_decision_def from_values_def allows_host_def allows_origin_def
      same_loopback_origin_def Let_def split: option.splits if_splits prod.splits)

lemma other_sites_are_refused_witness:
  "guard_local_origin (from_values []) \<lparr>hq_method = ''GET'', hq_path = ''/'', hq_query = None,
     hq_headers = [(''host'', ''evil.example'')], hq_body = []\<rparr> (\<lambda>_. plain_response 200 ''ok'') \<noteq> plain_response 200 ''ok''"
proof
  let ?req = "\<lparr>hq_method = ''GET'', hq_path = ''/'', hq_query = None,
     hq_headers = [(''host'', ''evil.example'')], hq_body = []\<rparr>"
  have h: "Option.bind (map_of (hq_headers ?req) ''host'') header_to_str = Some ''evil.example''"
    by (simp add: header_to_str_def)
  have bad: "\<not> header_host_is_loopback ''evil.example''"
    by (simp add: header_host_is_loopback_def split_host_port_def strip_prefix_def starts_with_def rsplit_once_def
        is_loopback_host_def)
  assume "guard_local_origin (from_values []) ?req (\<lambda>_. plain_response 200 ''ok'') = plain_response 200 ''ok''"
  from other_sites_are_refused [OF this] h bad show False by (auto simp: plain_response_def)
qed

end
