(* ===== verification/Gateway_Proxy.thy ===== *)
theory Gateway_Proxy
  imports Gateway_Guard
begin

text \<open>
  The HTTP proxy of the gateway into a VM (\<open>crates/cloudiy/src/gateway.rs\<close>): the check of the request
  target, the forwarded request, the parsing of the response head, the decoding of chunked bodies and
  the response the browser gets. Header names are tokens and header values are free of control
  characters, as the \<open>http\<close> crate guarantees; text decoding and the tunnel are parameters.
\<close>

section \<open>The request\<close>

definition PROXY_MAX_RESPONSE :: nat where
  "PROXY_MAX_RESPONSE = 64 * 1024 * 1024"

definition sanitize_proxy_path :: "string \<Rightarrow> string + unit" where
  "sanitize_proxy_path target =
     (if \<not> starts_with target ''/'' then Inl ''proxy path must be absolute''
      else if list_ex (\<lambda>b. of_char b \<le> (0x20 :: nat) \<or> of_char b = (0x7f :: nat)) target
      then Inl ''proxy path has control or whitespace bytes''
      else Inr ())"

definition CRLF :: string where "CRLF = [CR, LF]"

definition proxy_dropped_request_headers :: "string set" where
  "proxy_dropped_request_headers = {''host'', ''connection'', ''content-length'', ''transfer-encoding'', ''keep-alive'',
     ''proxy-connection'', ''upgrade''}"

definition proxy_request :: "string \<Rightarrow> string \<Rightarrow> u16 \<Rightarrow> header_map \<Rightarrow> bytes \<Rightarrow> bytes" where
  "proxy_request method target port headers body =
     as_bytes (method @ '' '' @ target @ '' HTTP/1.1'' @ CRLF) @
     as_bytes (''Host: 127.0.0.1:'' @ show_word port @ CRLF) @
     as_bytes (''Connection: close'' @ CRLF) @
     concat (map (\<lambda>(name, v). as_bytes name @ as_bytes '': '' @ as_bytes v @ as_bytes CRLF)
       (filter (\<lambda>f. fst f \<notin> proxy_dropped_request_headers) headers)) @
     (if body \<noteq> [] then as_bytes (''Content-Length: '' @ show_nat (length body) @ CRLF) else []) @
     as_bytes CRLF @ body"

section \<open>The response\<close>

type_synonym http_head = "u16 \<times> (string \<times> string) list \<times> nat"

text \<open>\<open>utf8\<close> is \<open>std::str::from_utf8\<close>.\<close>

definition parse_http_head :: "(bytes \<Rightarrow> string option) \<Rightarrow> bytes \<Rightarrow> http_head option" where
  "parse_http_head utf8 buf =
     (case find_pat (as_bytes (CRLF @ CRLF)) buf of
        None \<Rightarrow> None
      | Some sep \<Rightarrow>
         (case utf8 (take sep buf) of
            None \<Rightarrow> None
          | Some head \<Rightarrow>
             (let lines = split_crlf head; words = split_whitespace (hd lines) in
              if length words < 2 then None
              else case parse_word (words ! 1) of
                None \<Rightarrow> None
              | Some status \<Rightarrow>
                  Some (status,
                    List.map_filter (\<lambda>line. map_option (\<lambda>(n, v). (trim n, trim v)) (split_once '':'' line)) (tl lines),
                    sep + 4))))"

definition chunk_size :: "(bytes \<Rightarrow> string option) \<Rightarrow> bytes \<Rightarrow> nat option" where
  "chunk_size utf8 line =
     Option.bind (utf8 line) (\<lambda>text. parse_radix 16 (2 ^ 64) (trim (hd (split_on CHR '';'' text))))"

text \<open>\<open>get(k..)\<close>: the rest, if there are \<open>k\<close> elements.\<close>

definition get_from :: "nat \<Rightarrow> 'a list \<Rightarrow> 'a list option" where
  "get_from k xs = (if k \<le> length xs then Some (drop k xs) else None)"

text \<open>The decoding loop; \<open>out\<close> is what was decoded so far.\<close>

function dechunk_loop :: "(bytes \<Rightarrow> string option) \<Rightarrow> bytes \<Rightarrow> bytes \<Rightarrow> bytes option" where
  "dechunk_loop utf8 body out =
     (case find_pat (as_bytes CRLF) body of
        None \<Rightarrow> None
      | Some nl \<Rightarrow>
         (case chunk_size utf8 (take nl body) of
            None \<Rightarrow> None
          | Some sz \<Rightarrow>
             (case get_from (nl + 2) body of
                None \<Rightarrow> None
              | Some body1 \<Rightarrow>
                  if sz = 0 then Some out
                  else if length body1 < sz then None
                  else case get_from (sz + 2) body1 of
                    None \<Rightarrow> None
                  | Some body2 \<Rightarrow> dechunk_loop utf8 body2 (out @ take sz body1))))"
  by auto
termination
  by (relation "measure (\<lambda>(_, body, _). length body)") (auto simp: get_from_def split: if_splits)

declare dechunk_loop.simps [simp del]

definition dechunk :: "(bytes \<Rightarrow> string option) \<Rightarrow> bytes \<Rightarrow> bytes option" where
  "dechunk utf8 body = dechunk_loop utf8 body []"

definition token_char :: "char \<Rightarrow> bool" where
  "token_char c \<longleftrightarrow> (let b = of_char c :: nat in (48 \<le> b \<and> b \<le> 57) \<or> (97 \<le> b \<and> b \<le> 122) \<or>
     (65 \<le> b \<and> b \<le> 90) \<or> b \<in> {33, 35, 36, 37, 38, 39, 42, 43, 45, 46, 94, 95, 96, 124, 126})"

text \<open>\<open>HeaderName::from_bytes\<close>.\<close>

definition header_name :: "string \<Rightarrow> string option" where
  "header_name n = (if n \<noteq> [] \<and> length n < 2 ^ 16 \<and> list_all token_char n then Some (lower n) else None)"

definition proxy_dropped_response_headers :: "string set" where
  "proxy_dropped_response_headers = {''connection'', ''keep-alive'', ''transfer-encoding'', ''content-length'',
     ''proxy-connection'', ''upgrade'', ''x-frame-options'', ''content-security-policy''}"

definition proxy_is_chunked :: "(string \<times> string) list \<Rightarrow> bool" where
  "proxy_is_chunked headers =
     list_ex (\<lambda>(n, v). lower n = ''transfer-encoding'' \<and> contains_str (lower v) ''chunked'') headers"

definition proxy_response_headers :: "(string \<times> string) list \<Rightarrow> header_map" where
  "proxy_response_headers headers =
     List.map_filter (\<lambda>(name, v).
       if lower name \<in> proxy_dropped_response_headers then None
       else case header_name name of
         Some hn \<Rightarrow> if header_value_ok v then Some (hn, v) else None
       | None \<Rightarrow> None) headers"

text \<open>
  \<open>builds\<close> is whether the builder of the \<open>http\<close> crate takes that many fields.
\<close>

definition build_proxy_response ::
  "(bytes \<Rightarrow> string option) \<Rightarrow> (header_map \<Rightarrow> bool) \<Rightarrow> bytes \<Rightarrow> http_response" where
  "build_proxy_response utf8 builds raw =
     (case parse_http_head utf8 raw of
        None \<Rightarrow> plain_response 502 ''malformed upstream response''
      | Some (status, headers, body_off) \<Rightarrow>
         (let body = drop body_off raw in
          case (if proxy_is_chunked headers then dechunk utf8 body else Some body) of
            None \<Rightarrow> plain_response 502 ''malformed chunked response''
          | Some body \<Rightarrow>
             (let hdrs = proxy_response_headers headers @ [(''x-content-type-options'', ''nosniff'')];
                  code = unat status in
              if builds hdrs
              then \<lparr>hr_status = if 100 \<le> code \<and> code \<le> 999 then code else 502, hr_headers = hdrs, hr_body = body\<rparr>
              else plain_response 502 ''failed to build response'')))"

text \<open>
  \<open>tunnel\<close> answers one exchange over a fresh tunnel to the owner's VM (\<open>proxy_over_tunnel\<close>, whose side on
  the provider is \<open>handle_tunnel\<close>); a response over \<open>PROXY_MAX_RESPONSE\<close> is one of its errors.
\<close>

record proxy_env =
  px_node_id_ok :: "string \<Rightarrow> bool"
  px_utf8 :: "bytes \<Rightarrow> string option"
  px_builds :: "header_map \<Rightarrow> bool"
  px_tunnel :: "string \<Rightarrow> u16 \<Rightarrow> bytes \<Rightarrow> string + bytes"

definition vm_proxy :: "proxy_env \<Rightarrow> string \<Rightarrow> u16 \<Rightarrow> http_request \<Rightarrow> http_response" where
  "vm_proxy env to port request =
     (if \<not> px_node_id_ok env to then plain_response 400 ''invalid node id''
      else if port = 0 then plain_response 400 ''port must be non-zero''
      else let target = ''/'' @ hq_path request @ (case hq_query request of Some q \<Rightarrow> ''?'' @ q | None \<Rightarrow> '''') in
        case sanitize_proxy_path target of
          Inl e \<Rightarrow> plain_response 400 e
        | Inr _ \<Rightarrow>
           (case px_tunnel env to port (proxy_request (hq_method request) target port (hq_headers request) (hq_body request)) of
              Inr raw \<Rightarrow> build_proxy_response (px_utf8 env) (px_builds env) raw
            | Inl e \<Rightarrow> plain_response 502 (''proxy failed: '' @ e)))"

section \<open>Lines of a head\<close>

lemma find_pat_skip: "p \<notin> set a \<Longrightarrow> find_pat (p # pat) (a @ s) =
    map_option (\<lambda>i. length a + i) (find_pat (p # pat) s)"
  by (induction a) (auto simp: take_Cons' option.map_comp comp_def option.map_ident cong: map_option_cong)

lemma find_blank_line:
  assumes "ls \<noteq> []" and "\<forall>l \<in> set ls. cr \<notin> set l \<and> l \<noteq> []" and "cr \<noteq> lf"
  shows "find_pat [cr, lf, cr, lf] (concat (map (\<lambda>l. l @ [cr, lf]) ls) @ [cr, lf] @ body) =
    Some (length (concat (map (\<lambda>l. l @ [cr, lf]) ls)) - 2)"
  using assms(1,2)
proof (induction ls)
  case (Cons l ls)
  show ?case
  proof (cases ls)
    case Nil
    then show ?thesis using Cons.prems by (simp add: find_pat_skip)
  next
    case (Cons l2 rest)
    obtain c cs where l2: "l2 = c # cs" "c \<noteq> cr" using Cons.prems Cons by (cases l2) auto
    have step: "find_pat [cr, lf, cr, lf] ([cr, lf] @ s) = map_option (Suc \<circ> Suc) (find_pat [cr, lf, cr, lf] s)"
      if "s = c # t" for s t using that l2 assms(3) by (auto simp: option.map_comp comp_assoc)
    have "2 \<le> length (concat (map (\<lambda>l. l @ [cr, lf]) ls))" using Cons by simp
    then show ?thesis
      using Cons.IH Cons.prems Cons l2 step assms(3) by (simp add: find_pat_skip option.map_comp)
  qed
qed simp

lemma as_bytes_concat: "as_bytes (concat ss) = concat (map as_bytes ss)"
  by (induction ss) (simp_all add: as_bytes_def)

lemma in_as_bytes: "of_char c \<in> set (as_bytes s) \<longleftrightarrow> c \<in> set s"
  by (auto simp: as_bytes_def of_char_u8_inject)

lemma as_bytes_Nil [simp]: "as_bytes s = [] \<longleftrightarrow> s = []"
  by (simp add: as_bytes_def)

definition head_text :: "string list \<Rightarrow> string" where
  "head_text ls = concat (map (\<lambda>l. l @ CRLF) ls)"

definition line_ok :: "string \<Rightarrow> bool" where
  "line_ok l \<longleftrightarrow> CR \<notin> set l \<and> l \<noteq> []"

lemma of_char_CR_LF: "(of_char CR :: u8) \<noteq> of_char LF"
  by (simp add: of_char_u8_inject CR_def LF_def)

lemma find_head_end:
  assumes "ls \<noteq> []" and "\<forall>l \<in> set ls. line_ok l"
  shows "find_pat (as_bytes (CRLF @ CRLF)) (as_bytes (head_text ls) @ as_bytes CRLF @ body) =
    Some (length (head_text ls) - 2)"
proof -
  have "find_pat [of_char CR, of_char LF, of_char CR, of_char LF]
      (concat (map (\<lambda>l. l @ [of_char CR, of_char LF]) (map as_bytes ls)) @ [of_char CR, of_char LF] @ body) =
      Some (length (concat (map (\<lambda>l. l @ [of_char CR, of_char LF]) (map as_bytes ls))) - 2)"
    using assms of_char_CR_LF by (intro find_blank_line) (auto simp: line_ok_def in_as_bytes)
  moreover have t: "concat (map (\<lambda>l. l @ [of_char CR, of_char LF]) (map as_bytes ls)) = as_bytes (head_text ls)"
    by (simp add: head_text_def CRLF_def as_bytes_def map_concat comp_def)
  moreover have c: "as_bytes (CRLF @ CRLF) = [of_char CR, of_char LF, of_char CR, of_char LF]"
    "as_bytes CRLF = [of_char CR, of_char LF]" by (simp_all add: CRLF_def as_bytes_def)
  ultimately show ?thesis by (simp only: c t length_as_bytes)
qed

lemma head_lines:
  assumes "ls \<noteq> []" and "\<forall>l \<in> set ls. line_ok l"
  shows "take (length (head_text ls) - 2) (as_bytes (head_text ls) @ rest) = as_bytes (join_with CRLF ls)"
    "split_crlf (join_with CRLF ls) = ls"
proof -
  have h: "head_text ls = join_with CRLF ls @ CRLF"
    using assms(1) by (induction ls rule: induct_list012) (simp_all add: head_text_def)
  then show "take (length (head_text ls) - 2) (as_bytes (head_text ls) @ rest) = as_bytes (join_with CRLF ls)"
    by (simp add: CRLF_def)
  show "split_crlf (join_with CRLF ls) = ls"
    using assms by (induction ls rule: induct_list012)
      (auto simp: line_ok_def split_crlf_no split_crlf_append CRLF_def)
qed

section \<open>One request goes out\<close>

definition header_field_ok :: "string \<times> string \<Rightarrow> bool" where
  "header_field_ok f \<longleftrightarrow> fst f \<noteq> [] \<and> list_all token_char (fst f) \<and> header_value_ok (snd f)"

definition request_lines :: "string \<Rightarrow> string \<Rightarrow> u16 \<Rightarrow> header_map \<Rightarrow> bytes \<Rightarrow> string list" where
  "request_lines method target port headers body =
     [method @ '' '' @ target @ '' HTTP/1.1'', ''Host: 127.0.0.1:'' @ show_word port, ''Connection: close''] @
     map (\<lambda>(name, v). name @ '': '' @ v) (filter (\<lambda>f. fst f \<notin> proxy_dropped_request_headers) headers) @
     (if body = [] then [] else [''Content-Length: '' @ show_nat (length body)])"

lemma request_head: "proxy_request method target port headers body =
    as_bytes (head_text (request_lines method target port headers body)) @ as_bytes CRLF @ body"
proof -
  have "concat (map (\<lambda>(name, v). as_bytes name @ as_bytes '': '' @ as_bytes v @ as_bytes CRLF) fs) =
      as_bytes (concat (map (\<lambda>l. l @ CRLF) (map (\<lambda>(name, v). name @ '': '' @ v) fs)))" for fs
    by (induction fs) (auto simp: as_bytes_def)
  then show ?thesis by (simp add: proxy_request_def request_lines_def head_text_def) (simp add: as_bytes_def)
qed

lemma token_not_CR: "list_all token_char n \<Longrightarrow> CR \<notin> set n"
proof -
  have "\<not> token_char CR" by (simp add: token_char_def CR_def)
  then show "list_all token_char n \<Longrightarrow> CR \<notin> set n" unfolding list_all_iff by metis
qed

lemma header_value_not_CR: "header_value_ok v \<Longrightarrow> CR \<notin> set v"
proof -
  have "\<not> (CR = CHR 0x09 \<or> 32 \<le> (of_char CR :: nat) \<and> of_char CR \<noteq> (127 :: nat))" by (simp add: CR_def)
  then show "header_value_ok v \<Longrightarrow> CR \<notin> set v" unfolding header_value_ok_def by metis
qed

lemma target_not_CR: "sanitize_proxy_path target = Inr () \<Longrightarrow> CR \<notin> set target"
  by (auto simp: sanitize_proxy_path_def list_ex_iff CR_def split: if_splits)

lemma show_nat_not_CR: "CR \<notin> set (show_nat n)"
  by (simp add: show_nat_no digit_val_def CR_def)

lemma request_lines_ok:
  assumes "sanitize_proxy_path target = Inr ()" and "list_all token_char method" and "\<forall>f \<in> set headers. header_field_ok f"
  shows "\<forall>l \<in> set (request_lines method target port headers body). line_ok l"
  using target_not_CR [OF assms(1)] token_not_CR [OF assms(2)] assms(3) show_nat_not_CR token_not_CR header_value_not_CR
  by (auto simp: request_lines_def line_ok_def CR_def show_word_def header_field_ok_def)



section \<open>Chunked bodies\<close>

fun show_hex :: "nat \<Rightarrow> string" where
  "show_hex n = (if n < 16 then [hex_digit n] else show_hex (n div 16) @ [hex_digit (n mod 16)])"

declare show_hex.simps [simp del]

lemma show_hex_nonempty [simp]: "show_hex n \<noteq> []"
  by (subst show_hex.simps) simp

lemma parse_show_hex: "n < bound \<Longrightarrow> parse_digits 16 bound 0 (show_hex n) = Some n"
proof (induction n rule: show_hex.induct)
  case (1 n)
  then show ?case
    by (subst show_hex.simps) (auto simp: parse_digits_append hex_digit_val div_le_dividend [THEN le_less_trans])
qed

lemma show_hex_digits: "set (show_hex n) \<subseteq> hex_digit ` {..<16}"
proof (induction n rule: show_hex.induct)
  case (1 n)
  then show ?case by (subst show_hex.simps) auto
qed

lemma hex_digit_chars: "c \<in> set (show_hex n) \<Longrightarrow> digit_val 16 c \<noteq> None"
  using show_hex_digits [of n] hex_digit_val by fastforce

lemma show_hex_no: "digit_val 16 c = None \<Longrightarrow> c \<notin> set (show_hex n)"
  using hex_digit_chars by blast

lemma show_hex_no_space: "c \<in> set (show_hex n) \<Longrightarrow> \<not> is_space c"
  using hex_digit_chars by (fastforce simp: is_space_def digit_val_def)

lemma parse_radix_show_hex: "n < bound \<Longrightarrow> parse_radix 16 bound (show_hex n) = Some n"
proof -
  assume n: "n < bound"
  have "CHR ''+'' \<notin> set (show_hex n)" by (rule show_hex_no) (simp add: digit_val_def)
  then obtain c cs where "show_hex n = c # cs" "c \<noteq> CHR ''+''" by (cases "show_hex n") auto
  then show ?thesis using parse_show_hex [OF n] by (simp add: parse_radix_def)
qed

text \<open>A chunk: its size in hexadecimal, an extension of the size line, the data.\<close>

definition chunk_bytes :: "string \<times> bytes \<Rightarrow> bytes" where
  "chunk_bytes c = as_bytes (show_hex (length (snd c)) @ fst c @ CRLF) @ snd c @ as_bytes CRLF"

definition chunked_bytes :: "(string \<times> bytes) list \<Rightarrow> bytes \<Rightarrow> bytes" where
  "chunked_bytes cs trailers = concat (map chunk_bytes cs) @ as_bytes (show_hex 0 @ CRLF) @ trailers"

definition extension_ok :: "string \<Rightarrow> bool" where
  "extension_ok e \<longleftrightarrow> (e = [] \<or> hd e = CHR '';'') \<and> CR \<notin> set e \<and> (\<forall>c \<in> set e. (of_char c :: nat) < 128)"

definition ascii_ok :: "(bytes \<Rightarrow> string option) \<Rightarrow> bool" where
  "ascii_ok utf8 \<longleftrightarrow> (\<forall>s. (\<forall>c \<in> set s. (of_char c :: nat) < 128) \<longrightarrow> utf8 (as_bytes s) = Some s)"

lemma hex_ascii: "c \<in> set (show_hex n) \<Longrightarrow> (of_char c :: nat) < 128"
  using show_hex_digits [of n] by (force simp: hex_digit_def)

lemma find_line_end:
  assumes "CR \<notin> set s"
  shows "find_pat (as_bytes CRLF) (as_bytes (s @ CRLF) @ rest) = Some (length s)"
proof -
  have "find_pat (of_char CR # [of_char LF]) (as_bytes s @ (of_char CR # [of_char LF]) @ rest) = Some (length (as_bytes s))"
    using assms by (intro find_pat_first) (simp add: in_as_bytes)
  then show ?thesis by (simp add: CRLF_def as_bytes_def)
qed

lemma size_line:
  assumes "ascii_ok utf8" and "extension_ok e" and "n < 2 ^ 64"
  shows "find_pat (as_bytes CRLF) (as_bytes (show_hex n @ e @ CRLF) @ rest) = Some (length (show_hex n @ e))"
    "chunk_size utf8 (take (length (show_hex n @ e)) (as_bytes (show_hex n @ e @ CRLF) @ rest)) = Some n"
proof -
  have cr: "CR \<notin> set (show_hex n @ e)"
    using assms(2) show_hex_no [of CR n] by (simp add: extension_ok_def digit_val_def CR_def)
  show "find_pat (as_bytes CRLF) (as_bytes (show_hex n @ e @ CRLF) @ rest) = Some (length (show_hex n @ e))"
    using find_line_end [OF cr, of rest] by simp
  have t: "take (length (show_hex n @ e)) (as_bytes (show_hex n @ e @ CRLF) @ rest) = as_bytes (show_hex n @ e)"
    by (simp add: take_append flip: append_assoc)
  have "\<forall>c \<in> set (show_hex n @ e). (of_char c :: nat) < 128"
    using assms(2) hex_ascii by (auto simp: extension_ok_def)
  then have u: "utf8 (as_bytes (show_hex n @ e)) = Some (show_hex n @ e)"
    using assms(1) unfolding ascii_ok_def by metis
  have semi: "CHR '';'' \<notin> set (show_hex n)" by (rule show_hex_no) (simp add: digit_val_def)
  have h: "hd (split_on CHR '';'' (show_hex n @ e)) = show_hex n"
    using assms(2) semi by (cases e) (auto simp: extension_ok_def split_on_no hd_split_on)
  have "trim (show_hex n) = show_hex n"
    by (rule trim_id) (simp_all add: show_hex_no_space [of _ n])
  then show "chunk_size utf8 (take (length (show_hex n @ e)) (as_bytes (show_hex n @ e @ CRLF) @ rest)) = Some n"
    unfolding t chunk_size_def u using h parse_radix_show_hex [OF assms(3)] by simp
qed

lemma dechunk_loop_chunks:
  assumes "ascii_ok utf8" and "\<forall>c \<in> set cs. extension_ok (fst c) \<and> snd c \<noteq> [] \<and> length (snd c) < 2 ^ 64"
  shows "dechunk_loop utf8 (chunked_bytes cs trailers) out = Some (out @ concat (map snd cs))"
  using assms(2)
proof (induction cs arbitrary: out)
  case Nil
  have e: "extension_ok []" by (simp add: extension_ok_def)
  note s = size_line [OF assms(1) e, of 0 trailers, unfolded append_Nil append_Nil2]
  have "chunked_bytes [] trailers = as_bytes (show_hex 0 @ CRLF) @ trailers" by (simp add: chunked_bytes_def)
  then show ?case
    using s by (subst dechunk_loop.simps) (simp add: get_from_def CRLF_def)
next
  case (Cons c cs)
  obtain e d where c: "c = (e, d)" by (cases c)
  have ok: "extension_ok e" "d \<noteq> []" "length d < 2 ^ 64" using Cons.prems c by auto
  let ?rest = "d @ as_bytes CRLF @ chunked_bytes cs trailers"
  let ?line = "show_hex (length d) @ e"
  note s = size_line [OF assms(1) ok(1,3), of ?rest]
  have body: "chunked_bytes (c # cs) trailers = as_bytes (show_hex (length d) @ e @ CRLF) @ ?rest"
    by (simp add: chunked_bytes_def chunk_bytes_def c)
  have g1: "get_from (length ?line + 2) (as_bytes (show_hex (length d) @ e @ CRLF) @ ?rest) = Some ?rest"
    by (simp add: get_from_def CRLF_def)
  have g2: "get_from (length d + 2) ?rest = Some (chunked_bytes cs trailers)"
    by (simp add: get_from_def CRLF_def)
  show ?case
    using ok(2) Cons.IH [of "out @ d"] Cons.prems c unfolding body
    by (subst dechunk_loop.simps) (simp only: s g1 g2 option.case, simp)
qed

text \<open>
  C29. Decoding a chunked body gives back what was sent: whatever the pieces, their extensions and the
  trailers after the last chunk, the decoder returns the concatenated pieces, and it always terminates.
\<close>
theorem dechunk_roundtrip:
  assumes "ascii_ok utf8" and "\<forall>c \<in> set cs. extension_ok (fst c) \<and> snd c \<noteq> [] \<and> length (snd c) < 2 ^ 64"
  shows "dechunk utf8 (chunked_bytes cs trailers) = Some (concat (map snd cs))"
  using dechunk_loop_chunks [OF assms, of trailers "[]"] by (simp add: dechunk_def)

section \<open>The page of a VM\<close>

definition upstream_lines :: "u16 \<Rightarrow> string \<Rightarrow> (string \<times> string) list \<Rightarrow> string list" where
  "upstream_lines status reason hdrs =
     (''HTTP/1.1 '' @ show_word status @ '' '' @ reason) # map (\<lambda>(n, v). n @ '': '' @ v) hdrs"

definition upstream_bytes :: "u16 \<Rightarrow> string \<Rightarrow> (string \<times> string) list \<Rightarrow> bytes \<Rightarrow> bytes" where
  "upstream_bytes status reason hdrs body =
     as_bytes (head_text (upstream_lines status reason hdrs)) @ as_bytes CRLF @ body"

definition plain_text :: "string \<Rightarrow> bool" where
  "plain_text s \<longleftrightarrow> CR \<notin> set s \<and> (\<forall>c \<in> set s. (of_char c :: nat) < 128)"

definition upstream_field_ok :: "string \<times> string \<Rightarrow> bool" where
  "upstream_field_ok f \<longleftrightarrow> fst f \<noteq> [] \<and> length (fst f) < 2 ^ 16 \<and> list_all token_char (fst f) \<and>
     header_value_ok (snd f) \<and> trim (snd f) = snd f \<and> plain_text (snd f)"

lemma token_char_plain:
  assumes "token_char c"
  shows "(of_char c :: nat) < 128" "\<not> is_space c" "c \<noteq> CHR '':''" "c \<noteq> CR"
proof -
  have n: "\<not> token_char CHR '':''" "\<not> token_char CR" "\<not> token_char CHR '' ''" "\<not> token_char CHR 0x09"
    "\<not> token_char CHR 0x0A" "\<not> token_char CHR 0x0B" "\<not> token_char CHR 0x0C" "\<not> token_char CHR 0x0D"
    by (simp_all add: token_char_def CR_def)
  show "(of_char c :: nat) < 128" using assms by (auto simp: token_char_def Let_def)
  show "\<not> is_space c" "c \<noteq> CHR '':''" "c \<noteq> CR" using assms n by (auto simp: is_space_def)
qed

lemma digits_plain: "c \<in> set (show_nat n) \<Longrightarrow> (of_char c :: nat) < 128 \<and> \<not> is_space c \<and> c \<noteq> CR"
  using show_nat_digits [of n] show_nat_no_space [of c n] show_nat_not_CR [of n] by (force simp: digit_char_def)

lemma plain_append: "plain_text (a @ b) \<longleftrightarrow> plain_text a \<and> plain_text b"
  by (auto simp: plain_text_def)

lemma plain_parts:
  "list_all token_char n \<Longrightarrow> plain_text n" "plain_text (show_nat k)" "plain_text '': ''" "plain_text '' ''"
  "plain_text ''HTTP/1.1 ''" "plain_text CRLF \<longleftrightarrow> False"
  using token_char_plain(1,4) digits_plain
  by (auto simp: plain_text_def list_all_iff CR_def CRLF_def)

lemma upstream_lines_ok:
  assumes "plain_text reason" and "\<forall>f \<in> set hdrs. upstream_field_ok f"
  shows "\<forall>l \<in> set (upstream_lines status reason hdrs). plain_text l \<and> l \<noteq> []"
proof -
  have "plain_text (''HTTP/1.1 '' @ show_word status @ '' '' @ reason)"
    using assms(1) plain_parts(2,4,5) by (simp only: plain_append show_word_def)
  moreover have "plain_text (n @ '': '' @ v)" if "(n, v) \<in> set hdrs" for n v
    using that assms(2) plain_parts(1,3) by (force simp only: plain_append upstream_field_ok_def fst_conv snd_conv)
  ultimately show ?thesis by (auto simp: upstream_lines_def)
qed

lemma set_join: "c \<in> set (join_with CRLF ls) \<Longrightarrow> c = CR \<or> c = LF \<or> (\<exists>l \<in> set ls. c \<in> set l)"
  by (induction ls rule: induct_list012) (auto simp: CRLF_def)

lemma join_plain:
  assumes "\<forall>l \<in> set ls. plain_text l"
  shows "\<forall>c \<in> set (join_with CRLF ls). (of_char c :: nat) < 128"
proof
  fix c assume "c \<in> set (join_with CRLF ls)"
  from set_join [OF this] show "(of_char c :: nat) < 128"
    using assms by (elim disjE) (auto simp: plain_text_def, simp_all add: CR_def LF_def)
qed

lemma parse_status: "split_whitespace (''HTTP/1.1 '' @ show_word status @ '' '' @ reason) =
    ''HTTP/1.1'' # show_word status # split_whitespace reason"
proof -
  have sp: "is_space CHR '' ''" by (simp add: is_space_def)
  have "split_whitespace (''HTTP/1.1'' @ CHR '' '' # show_word status @ CHR '' '' # reason) =
      ''HTTP/1.1'' # split_whitespace (show_word status @ CHR '' '' # reason)"
    by (rule split_whitespace_append) (auto simp: is_space_def)
  moreover have "split_whitespace (show_word status @ CHR '' '' # reason) = show_word status # split_whitespace reason"
    using sp digits_plain by (intro split_whitespace_append) (auto simp: show_word_def)
  ultimately show ?thesis by simp
qed

lemma parse_field:
  assumes "upstream_field_ok (n, v)"
  shows "split_once '':'' (n @ '': '' @ v) = Some (n, CHR '' '' # v)" "trim n = n" "trim (CHR '' '' # v) = v"
proof -
  have t: "c \<in> set n \<Longrightarrow> token_char c" for c using assms by (simp add: upstream_field_ok_def list_all_iff)
  then have "CHR '':'' \<notin> set n" using token_char_plain(3) by blast
  then show "split_once '':'' (n @ '': '' @ v) = Some (n, CHR '' '' # v)" by (simp add: split_once_first_char)
  show "trim n = n"
    using assms t token_char_plain(2) by (intro trim_id) (auto simp: upstream_field_ok_def)
  have "trim (CHR '' '' # v) = trim v" by (simp add: trim_def trim_start_def is_space_def)
  then show "trim (CHR '' '' # v) = v" using assms by (simp add: upstream_field_ok_def)
qed

lemma parse_upstream:
  assumes "ascii_ok utf8" and "plain_text reason" and "\<forall>f \<in> set hdrs. upstream_field_ok f"
  shows "\<exists>off. parse_http_head utf8 (upstream_bytes status reason hdrs body) = Some (status, hdrs, off) \<and>
     drop off (upstream_bytes status reason hdrs body) = body"
proof -
  let ?ls = "upstream_lines status reason hdrs"
  have ls: "?ls \<noteq> []" "\<forall>l \<in> set ?ls. line_ok l" "\<forall>l \<in> set ?ls. plain_text l"
    using upstream_lines_ok [OF assms(2,3), of status] by (auto simp: upstream_lines_def line_ok_def plain_text_def)
  let ?sep = "length (head_text ?ls) - 2"
  have u: "utf8 (as_bytes (join_with CRLF ?ls)) = Some (join_with CRLF ?ls)"
    using join_plain [OF ls(3)] assms(1) unfolding ascii_ok_def by metis
  have fs: "List.map_filter (\<lambda>line. map_option (\<lambda>(n, v). (trim n, trim v)) (split_once '':'' line))
      (map (\<lambda>(n, v). n @ '': '' @ v) hdrs) = hdrs"
    using assms(3)
  proof (induction hdrs)
    case (Cons f fs)
    obtain n v where f: "f = (n, v)" by (cases f)
    then have "upstream_field_ok (n, v)" using Cons.prems by simp
    note p = parse_field [OF this]
    show ?case using Cons p f by (simp add: map_filter_simps del: append_Cons)
  qed (simp add: map_filter_simps)
  have hd: "split_whitespace (hd ?ls) = ''HTTP/1.1'' # show_word status # split_whitespace reason"
    by (simp only: upstream_lines_def list.sel parse_status)
  have tl: "List.map_filter (\<lambda>line. map_option (\<lambda>(n, v). (trim n, trim v)) (split_once '':'' line)) (tl ?ls) = hdrs"
    by (simp only: upstream_lines_def list.sel fs)
  have "2 \<le> length (head_text ?ls)" by (simp add: head_text_def upstream_lines_def CRLF_def)
  then have off: "drop (?sep + 4) (upstream_bytes status reason hdrs body) = body"
    by (simp add: upstream_bytes_def CRLF_def)
  have "parse_http_head utf8 (upstream_bytes status reason hdrs body) = Some (status, hdrs, ?sep + 4)"
    unfolding parse_http_head_def upstream_bytes_def
    by (simp only: find_head_end [OF ls(1,2)] head_lines [OF ls(1,2)] option.case Let_def u hd tl) simp
  then show ?thesis using off by blast
qed

lemma proxy_headers_ok:
  assumes "\<forall>f \<in> set hdrs. upstream_field_ok f"
  shows "proxy_response_headers hdrs =
    map (\<lambda>(n, v). (lower n, v)) (filter (\<lambda>f. lower (fst f) \<notin> proxy_dropped_response_headers) hdrs)"
  using assms
  by (induction hdrs) (auto simp: proxy_response_headers_def map_filter_simps header_name_def upstream_field_ok_def)

text \<open>
  The browser gets the page the VM served. For any status, header fields and body that a well-formed
  HTTP/1.1 server in the VM answers, chunked (any pieces, extensions and trailers) or not, the response
  of the proxy has that status, the decoded body and every field except those about framing, the
  connection and embedding, with \<open>nosniff\<close> added.
\<close>
theorem proxy_serves_the_page:
  assumes "ascii_ok utf8" and "plain_text reason" and "\<forall>f \<in> set hdrs. upstream_field_ok f"
    and "100 \<le> status" and "status \<le> 999"
    and "\<forall>c \<in> set cs. extension_ok (fst c) \<and> snd c \<noteq> [] \<and> length (snd c) < 2 ^ 64"
    and "\<And>fs. builds fs"
  shows "build_proxy_response utf8 builds (upstream_bytes status reason hdrs
      (if proxy_is_chunked hdrs then chunked_bytes cs trailers else concat (map snd cs))) =
    \<lparr>hr_status = unat status,
     hr_headers = map (\<lambda>(n, v). (lower n, v)) (filter (\<lambda>f. lower (fst f) \<notin> proxy_dropped_response_headers) hdrs) @
       [(''x-content-type-options'', ''nosniff'')],
     hr_body = concat (map snd cs)\<rparr>"
proof -
  let ?body = "if proxy_is_chunked hdrs then chunked_bytes cs trailers else concat (map snd cs)"
  obtain off where p: "parse_http_head utf8 (upstream_bytes status reason hdrs ?body) = Some (status, hdrs, off)"
    "drop off (upstream_bytes status reason hdrs ?body) = ?body"
    using parse_upstream [OF assms(1-3)] by blast
  have d: "dechunk utf8 (chunked_bytes cs trailers) = Some (concat (map snd cs))"
    using dechunk_loop_chunks [OF assms(1,6), of trailers "[]"] by (simp add: dechunk_def)
  have "100 \<le> unat status" "unat status \<le> 999" using assms(4,5) by (simp_all add: word_le_nat_alt)
  then show ?thesis
    using p d assms(7) by (simp add: build_proxy_response_def proxy_headers_ok [OF assms(3)])
qed

definition ascii_utf8 :: "bytes \<Rightarrow> string option" where
  "ascii_utf8 bs = (if \<forall>b \<in> set bs. b < 128 then Some (map (\<lambda>b. char_of (unat b)) bs) else None)"

lemma unat_of_char: "unat (of_char c :: u8) = of_char c"
proof -
  have "(of_char c :: u8) = word_of_nat (of_char c)" by (simp add: of_nat_of_char)
  moreover have "(of_char c :: nat) < 256" by simp
  ultimately show ?thesis by (simp add: unat_of_nat)
qed

lemma ascii_utf8_ok: "ascii_ok ascii_utf8"
  by (auto simp: ascii_ok_def ascii_utf8_def as_bytes_def unat_of_char word_less_nat_alt comp_def intro: map_idI)

lemma dechunk_roundtrip_witness:
  "dechunk ascii_utf8 (chunked_bytes [('''', [1, 2, 3]), ('';x=y'', [4])] []) = Some [1, 2, 3, 4]"
proof -
  have "\<forall>c \<in> set [('''', [1, 2, 3]), ('';x=y'', [4 :: u8])]. extension_ok (fst c) \<and> snd c \<noteq> [] \<and> length (snd c) < 2 ^ 64"
    by (simp add: extension_ok_def CR_def)
  from dechunk_roundtrip [OF ascii_utf8_ok this] show ?thesis by simp
qed

lemma proxy_serves_the_page_witness:
  "hr_body (build_proxy_response ascii_utf8 (\<lambda>_. True) (upstream_bytes 200 ''OK'' [(''Transfer-Encoding'', ''chunked'')]
     (chunked_bytes [('''', [104, 105])] []))) = [104, 105]"
proof -
  let ?f = "[(''Transfer-Encoding'', ''chunked'')]"
  have f: "\<forall>f \<in> set ?f. upstream_field_ok f" "plain_text ''OK''"
    by (simp_all add: upstream_field_ok_def token_char_def header_value_ok_def plain_text_def CR_def trim_def
        trim_start_def trim_end_def is_space_def)
  have c: "proxy_is_chunked ?f"
    by code_simp
  have e: "\<forall>c \<in> set [('''', [104, 105 :: u8])]. extension_ok (fst c) \<and> snd c \<noteq> [] \<and> length (snd c) < 2 ^ 64"
    by (simp add: extension_ok_def)
  from proxy_serves_the_page [OF ascii_utf8_ok f(2,1) _ _ e, of 200 "\<lambda>_. True" "[]"] c show ?thesis by simp
qed

end
