(* ===== verification/Gateway_Workers.thy ===== *)
theory Gateway_Workers
  imports Gateway_Hosting Gateway_Proxy
begin

text \<open>
  Running a model on this host (\<open>crates/cloudiy/src/gateway.rs\<close>): the containers of the model workers,
  how they are confined, and the routing of an endpoint key to its worker. The HTTP exchanges with a
  worker are a parameter; polling until a worker answers only waits, and is left out.
\<close>

section \<open>The environment\<close>

datatype post_error = PostTimeout | PostFailed string | PostDecode string

record worker_env =
  we_gateway :: gateway_env
  we_post :: "string \<Rightarrow> json \<Rightarrow> post_error + json"
  we_post_audio :: "string \<Rightarrow> string \<Rightarrow> bytes \<Rightarrow> string + json"
  we_json_text :: "json \<Rightarrow> string"
  we_b64_decode :: "string \<Rightarrow> bytes option"
  we_media_dir :: string
  we_media_ready :: "string + unit"
  we_clip_id :: string

definition post_error_text :: "post_error \<Rightarrow> string" where
  "post_error_text e = (case e of PostTimeout \<Rightarrow> ''timeout'' | PostFailed m \<Rightarrow> m | PostDecode m \<Rightarrow> m)"

definition json_error :: "string \<Rightarrow> json" where
  "json_error e = JObj [(''error'', JStr e)]"

section \<open>Containers of workers\<close>

definition worker_hardening :: "string list" where
  "worker_hardening = [''--cap-drop'', ''ALL'', ''--security-opt'', ''no-new-privileges'', ''--pids-limit'', ''512'']"

definition sealed_mode :: "gateway_env \<Rightarrow> bool" where
  "sealed_mode env \<longleftrightarrow> ge_var env ''CLOUDIY_WORKER_NO_EGRESS'' \<noteq> None"

definition SEALED_NET :: string where "SEALED_NET = ''cloudiy-sealed''"

definition OLLAMA_VOLUME :: string where "OLLAMA_VOLUME = ''cloudiy-ollama-models''"

definition ensure_sealed_network :: "gateway_env \<Rightarrow> unit gio" where
  "ensure_sealed_network env =
     vbind (vtry (gdocker env [''network'', ''create'', ''--internal'', SEALED_NET])) (\<lambda>r :: string + cli_output. vret ())"

definition worker_network :: "gateway_env \<Rightarrow> string list" where
  "worker_network env = (if sealed_mode env then [''--network'', SEALED_NET] else [])"

definition worker_image_ref :: "gateway_env \<Rightarrow> string \<Rightarrow> string \<Rightarrow> string" where
  "worker_image_ref env env_key dflt = (case ge_var env env_key of Some i \<Rightarrow> i | None \<Rightarrow> dflt)"

definition seccomp_arg :: "gateway_env \<Rightarrow> string option" where
  "seccomp_arg env = map_option (\<lambda>p. ''seccomp='' @ p) (ge_var env ''CLOUDIY_SECCOMP_PROFILE'')"

definition worker_user :: "gateway_env \<Rightarrow> string option" where
  "worker_user env = non_blank (ge_var env ''CLOUDIY_WORKER_USER'')"

definition worker_gpu_arg :: "gateway_env \<Rightarrow> string" where
  "worker_gpu_arg env =
     (case non_blank (ge_var env ''CLOUDIY_GPU_DEVICE'') of Some ids \<Rightarrow> ''device='' @ ids | None \<Rightarrow> ''all'')"

text \<open>The arguments every worker is started with, before its own.\<close>

definition worker_base_args :: "gateway_env \<Rightarrow> command" where
  "worker_base_args env =
     [''run'', ''-d''] @ worker_hardening @ worker_network env @
     (case seccomp_arg env of Some s \<Rightarrow> [''--security-opt'', s] | None \<Rightarrow> []) @
     (case worker_user env of Some u \<Rightarrow> [''--user'', u] | None \<Rightarrow> [])"

definition worker_running :: "gateway_env \<Rightarrow> string \<Rightarrow> bool gio" where
  "worker_running env name =
     vbind (vtry (gdocker env [''inspect'', ''-f'', ''{{.State.Running}}'', name])) (\<lambda>r :: string + cli_output.
     vret (case r of Inr out \<Rightarrow> trim (co_stdout out) = ''true'' | Inl _ \<Rightarrow> False))"

text \<open>
  Removing the old container, the sealed network, the checks of the image and the start: the same
  sequence in every worker. \<open>own\<close> are the worker's own arguments.
\<close>

definition launch_worker :: "gateway_env \<Rightarrow> string \<Rightarrow> string \<Rightarrow> string list \<Rightarrow> unit gio" where
  "launch_worker env name img own =
     vbind (vtry (gdocker env [''rm'', ''-f'', name])) (\<lambda>r :: string + cli_output.
     vbind (if sealed_mode env then ensure_sealed_network env else vret ()) (\<lambda>_.
     vbind (vlift (check_pinned env img)) (\<lambda>_.
     vbind (verify_image_signature env img) (\<lambda>_.
     vbind (gdocker env (worker_base_args env @ own @ [img])) (\<lambda>out.
     vlift (require (co_success out) (''worker start failed: '' @ co_stderr out)))))))"

section \<open>Text\<close>

definition OLLAMA_WORKER :: string where "OLLAMA_WORKER = ''cloudiy-wk-ollama''"
definition OLLAMA_PORT :: string where "OLLAMA_PORT = ''11435''"
definition OLLAMA_URL :: string where "OLLAMA_URL = ''http://127.0.0.1:11435''"

definition ensure_ollama :: "gateway_env \<Rightarrow> string \<Rightarrow> bool gio" where
  "ensure_ollama env model =
     vbind (worker_running env OLLAMA_WORKER) (\<lambda>running.
     vbind (if \<not> running
       then launch_worker env OLLAMA_WORKER (worker_image_ref env ''CLOUDIY_OLLAMA_IMAGE'' ''ollama/ollama'')
         [''--read-only'', ''--tmpfs'', ''/tmp'', ''--memory'', ''8g'', ''--name'', OLLAMA_WORKER,
          ''-p'', ''127.0.0.1:'' @ OLLAMA_PORT @ '':11434'', ''-v'', OLLAMA_VOLUME @ '':/root/.ollama'']
       else vret ()) (\<lambda>_.
     vbind (vtry (gdocker env [''exec'', OLLAMA_WORKER, ''ollama'', ''list''])) (\<lambda>r :: string + cli_output.
     let has_model = (case r of Inr out \<Rightarrow> contains_str (co_stdout out) model | Inl _ \<Rightarrow> False) in
     if \<not> has_model then
       vbind (vlift (require (\<not> sealed_mode env)
         (''sealed mode (CLOUDIY_WORKER_NO_EGRESS): model is not warmed: '' @ model))) (\<lambda>_.
       vbind (gdocker env [''exec'', OLLAMA_WORKER, ''ollama'', ''pull'', model]) (\<lambda>out.
       vbind (vlift (require (co_success out) (''model pull failed: '' @ co_stderr out))) (\<lambda>_. vret True)))
     else vret False)))"

definition text_max_tokens :: "gateway_env \<Rightarrow> u32" where
  "text_max_tokens env =
     (case Option.bind (ge_var env ''CLOUDIY_TEXT_MAX_TOKENS'') (\<lambda>s. parse_word (trim s)) of
        Some n \<Rightarrow> min (max n 16) 8192
      | None \<Rightarrow> 256)"

definition run_text_worker :: "worker_env \<Rightarrow> string \<Rightarrow> string \<Rightarrow> (json, json) cio" where
  "run_text_worker we model prompt =
     vbind (vmap_err (\<lambda>e. json_error (''provisioning failed: '' @ e)) (ensure_ollama (we_gateway we) model)) (\<lambda>cold.
     vlift (case we_post we (OLLAMA_URL @ ''/api/generate'')
         (JObj [(''model'', JStr model), (''prompt'', JStr prompt), (''stream'', JBool False),
           (''options'', JObj [(''num_predict'', JInt (uint (text_max_tokens (we_gateway we))))])]) of
       Inl (PostDecode e) \<Rightarrow> Inl (json_error (''bad model response: '' @ e))
     | Inl PostTimeout \<Rightarrow> Inl (json_error (''inference timed out: the model is running on CPU and this answer took too long. ''
         @ ''Try a shorter prompt, or serve this model on a GPU node.''))
     | Inl (PostFailed e) \<Rightarrow> Inl (json_error (''inference failed: '' @ e))
     | Inr body \<Rightarrow> Inr (JObj [(''kind'', JStr ''text''), (''output'', JStr (trim (jtext (jfield body ''response'')))),
         (''model'', JStr model), (''tokens'', jfield body ''eval_count''), (''cold_start'', JBool cold),
         (''settled_via'', JStr ''local-node'')])))"

section \<open>Speech\<close>

definition WHISPER_WORKER :: string where "WHISPER_WORKER = ''cloudiy-wk-whisper''"
definition WHISPER_PORT :: string where "WHISPER_PORT = ''9977''"
definition WHISPER_URL :: string where "WHISPER_URL = ''http://127.0.0.1:9977''"

definition whisper_known :: "string list" where
  "whisper_known = [''tiny'', ''tiny.en'', ''base'', ''base.en'', ''small'', ''small.en'', ''medium'', ''medium.en'',
     ''large'', ''large-v1'', ''large-v2'', ''large-v3'', ''turbo'']"

definition whisper_model :: "gateway_env \<Rightarrow> string" where
  "whisper_model env =
     (let m = (case ge_var env ''CLOUDIY_WHISPER_MODEL'' of Some s \<Rightarrow> lower (trim s) | None \<Rightarrow> '''') in
      if m \<in> set whisper_known then m else ''base'')"

definition whisper_mem :: "string \<Rightarrow> string" where
  "whisper_mem m =
     (if m \<in> {''large'', ''large-v1'', ''large-v2'', ''large-v3''} then ''10g''
      else if m \<in> {''medium'', ''medium.en''} then ''6g'' else ''4g'')"

definition whisper_matches :: "gateway_env \<Rightarrow> string \<Rightarrow> bool \<Rightarrow> bool gio" where
  "whisper_matches env want_model running =
     (if \<not> running then vret True
      else vbind (vtry (gdocker env [''inspect'', ''-f'', ''{{range .Config.Env}}{{println .}}{{end}}'', WHISPER_WORKER]))
        (\<lambda>r :: string + cli_output.
         vret (case r of Inr out \<Rightarrow> (''ASR_MODEL='' @ want_model) \<in> set (text_lines (co_stdout out)) | Inl _ \<Rightarrow> False)))"

definition ensure_whisper :: "gateway_env \<Rightarrow> bool gio" where
  "ensure_whisper env =
     (let want_model = whisper_model env in
      vbind (worker_running env WHISPER_WORKER) (\<lambda>running.
      vbind (whisper_matches env want_model running) (\<lambda>model_matches.
      if \<not> running \<or> \<not> model_matches then
        vbind (launch_worker env WHISPER_WORKER
            (worker_image_ref env ''CLOUDIY_WHISPER_IMAGE'' ''onerahmet/openai-whisper-asr-webservice:latest'')
            [''--memory'', whisper_mem want_model, ''-e'', ''ASR_MODEL='' @ want_model, ''--name'', WHISPER_WORKER,
             ''-p'', ''127.0.0.1:'' @ WHISPER_PORT @ '':9000'']) (\<lambda>_. vret True)
      else vret False)))"

definition whisper_boundary :: string where "whisper_boundary = ''cloudiy-b7f3a19c4e''"

definition multipart_body :: "string \<Rightarrow> bytes \<Rightarrow> bytes" where
  "multipart_body boundary audio =
     as_bytes (''--'' @ boundary @ CRLF @ ''Content-Disposition: form-data; name='' @ [CHR 0x22] @ ''audio_file'' @ [CHR 0x22] @
       ''; filename='' @ [CHR 0x22] @ ''audio'' @ [CHR 0x22] @ CRLF @ ''Content-Type: application/octet-stream'' @ CRLF @ CRLF) @
     audio @ as_bytes (CRLF @ ''--'' @ boundary @ ''--'' @ CRLF)"

definition run_whisper_worker :: "worker_env \<Rightarrow> bytes \<Rightarrow> json gio" where
  "run_whisper_worker we audio =
     vbind (ensure_whisper (we_gateway we)) (\<lambda>cold.
     vbind (vlift (we_post_audio we (WHISPER_URL @ ''/asr?encode=true&task=transcribe&output=json'')
        (''multipart/form-data; boundary='' @ whisper_boundary) (multipart_body whisper_boundary audio))) (\<lambda>v.
     let text = trim (jtext (jfield v ''text'')) in
     vbind (vlift (require (text \<noteq> []) (''worker returned no transcription: '' @ we_json_text we v))) (\<lambda>_.
     vret (JObj [(''kind'', JStr ''text''), (''output'', JStr text),
       (''model'', JStr (''whisper '' @ whisper_model (we_gateway we) @ '' (CPU)'')),
       (''cold_start'', JBool cold), (''settled_via'', JStr ''local-node'')]))))"

definition TTS_WORKER :: string where "TTS_WORKER = ''cloudiy-wk-tts''"
definition TTS_PORT :: string where "TTS_PORT = ''9978''"
definition TTS_URL :: string where "TTS_URL = ''http://127.0.0.1:9978''"

definition run_tts_worker :: "worker_env \<Rightarrow> string \<Rightarrow> json gio" where
  "run_tts_worker we prompt =
     (let env = we_gateway we in
      vbind (worker_running env TTS_WORKER) (\<lambda>running.
      vbind (if \<not> running then
         vbind (launch_worker env TTS_WORKER (worker_image_ref env ''CLOUDIY_TTS_IMAGE'' ''ghcr.io/cloudiy-cloud/worker-tts:latest'')
           [''--memory'', ''2g'', ''--name'', TTS_WORKER, ''-p'', ''127.0.0.1:'' @ TTS_PORT @ '':8000'']) (\<lambda>_. vret True)
       else vret False) (\<lambda>cold.
      vbind (vlift (case we_post we (TTS_URL @ ''/tts'') (JObj [(''text'', JStr prompt)]) of
         Inl e \<Rightarrow> Inl (post_error_text e) | Inr v \<Rightarrow> Inr v)) (\<lambda>v.
      let wav = jtext (jfield v ''wav_b64'') in
      vbind (vlift (require (wav \<noteq> []) (''worker returned no audio: '' @ we_json_text we v))) (\<lambda>_.
      vret (JObj [(''kind'', JStr ''audio''), (''audio_b64'', JStr wav), (''model'', JStr ''piper (CPU)''),
        (''cold_start'', JBool cold), (''settled_via'', JStr ''local-node'')]))))))"

section \<open>Images and video\<close>

definition gpu_required :: "string \<Rightarrow> string \<Rightarrow> string \<Rightarrow> json" where
  "gpu_required key worker kind = JObj [
     (''error'', JStr (CHR 0x27 # key @ CHR 0x27 # '' is a GPU '' @ kind @ '' model - this node has no NVIDIA GPU. '' @
       ''Run `cloudiy share` on a Linux + NVIDIA machine to serve it.'')),
     (''needs'', JStr ''nvidia-gpu''), (''worker'', JStr worker)]"

definition IMAGE_WORKER :: string where "IMAGE_WORKER = ''cloudiy-wk-sdxl''"
definition IMAGE_PORT :: string where "IMAGE_PORT = ''7860''"
definition IMAGE_URL :: string where "IMAGE_URL = ''http://127.0.0.1:7860''"

definition run_image_worker :: "worker_env \<Rightarrow> string \<Rightarrow> string \<Rightarrow> string \<Rightarrow> json gio" where
  "run_image_worker we worker_image api_path prompt =
     (let env = we_gateway we in
      vbind (worker_running env IMAGE_WORKER) (\<lambda>running.
      vbind (if \<not> running then
         vbind (launch_worker env IMAGE_WORKER (worker_image_ref env ''CLOUDIY_IMAGE_WORKER'' worker_image)
           [''--memory'', ''24g'', ''--gpus'', worker_gpu_arg env, ''--name'', IMAGE_WORKER,
            ''-p'', ''127.0.0.1:'' @ IMAGE_PORT @ '':7860'']) (\<lambda>_. vret True)
       else vret False) (\<lambda>cold.
      vbind (vlift (case we_post we (IMAGE_URL @ api_path) (JObj [(''prompt'', JStr prompt), (''steps'', JInt 30),
           (''width'', JInt 1024), (''height'', JInt 1024)]) of
         Inl e \<Rightarrow> Inl (post_error_text e) | Inr v \<Rightarrow> Inr v)) (\<lambda>resp.
      vret (JObj [(''kind'', JStr ''image''), (''image_b64'', JStr (jtext (jfirst (jfield resp ''images'')))),
        (''model'', JStr worker_image), (''cold_start'', JBool cold), (''settled_via'', JStr ''gpu-node'')])))))"

definition VIDEO_WORKER :: string where "VIDEO_WORKER = ''cloudiy-wk-ltx''"
definition VIDEO_PORT :: string where "VIDEO_PORT = ''7861''"
definition VIDEO_URL :: string where "VIDEO_URL = ''http://127.0.0.1:7861''"

definition run_video_worker :: "worker_env \<Rightarrow> string \<Rightarrow> string \<Rightarrow> json gio" where
  "run_video_worker we worker_image prompt =
     (let env = we_gateway we in
      vbind (vlift (we_media_ready we)) (\<lambda>_.
      vbind (worker_running env VIDEO_WORKER) (\<lambda>running.
      vbind (if \<not> running then
         vbind (launch_worker env VIDEO_WORKER (worker_image_ref env ''CLOUDIY_VIDEO_WORKER'' worker_image)
           [''--memory'', ''24g'', ''--gpus'', worker_gpu_arg env, ''--name'', VIDEO_WORKER,
            ''-p'', ''127.0.0.1:'' @ VIDEO_PORT @ '':7860'', ''-v'', we_media_dir we @ '':/out'']) (\<lambda>_. vret True)
       else vret False) (\<lambda>cold.
      vbind (vlift (case we_post we (VIDEO_URL @ ''/generate'') (JObj [(''prompt'', JStr prompt),
           (''out'', JStr (we_clip_id we @ ''.mp4'')), (''duration'', JInt 5)]) of
         Inl e \<Rightarrow> Inl (post_error_text e) | Inr v \<Rightarrow> Inr v)) (\<lambda>resp.
      vbind (vlift (require (jfield resp ''ok'' = JBool True) (''worker error: '' @ we_json_text we resp))) (\<lambda>_.
      vret (JObj [(''kind'', JStr ''video''), (''media_url'', JStr (''/media/'' @ we_clip_id we @ ''.mp4'')),
        (''model'', JStr worker_image), (''cold_start'', JBool cold), (''settled_via'', JStr ''gpu-node'')])))))))"

text \<open>\<open>files\<close> reads a path.\<close>

definition serve_media :: "worker_env \<Rightarrow> (string \<Rightarrow> bytes option) \<Rightarrow> string \<Rightarrow> http_response" where
  "serve_media we files name =
     (if CHR ''/'' \<in> set name \<or> contains_str name ''..'' then plain_response 400 ''bad name''
      else case files (we_media_dir we @ ''/'' @ name) of
        Some bs \<Rightarrow> \<lparr>hr_status = 200, hr_headers = [(''content-type'',
            if ends_with name ''.mp4'' then ''video/mp4'' else ''application/octet-stream'')], hr_body = bs\<rparr>
      | None \<Rightarrow> plain_response 404 ''not found'')"

section \<open>Routing an endpoint\<close>

definition MAX_PROMPT_BYTES :: nat where
  "MAX_PROMPT_BYTES = 16 * 1024"

definition model_pending :: "string \<Rightarrow> string \<Rightarrow> string \<Rightarrow> json" where
  "model_pending key worker category = JObj [
     (''error'', JStr (CHR 0x27 # key @ CHR 0x27 # '' is a '' @ category @ '' model awaiting its worker node ('' @ worker @ ''). '' @
       ''Run `cloudiy share` on a node hosting it.'')),
     (''needs'', JStr ''worker-node''), (''worker'', JStr worker), (''category'', JStr category)]"

definition endpoint_fallback :: "string \<Rightarrow> json" where
  "endpoint_fallback key =
     (case catalog_entry key of
        Some (_, img, _, category, _) \<Rightarrow> model_pending key img category
      | None \<Rightarrow> json_error (''unknown endpoint '' @ CHR 0x27 # key @ [CHR 0x27]))"

text \<open>An answer that also marks the model as warm is \<open>Inr\<close>; every other answer is \<open>Inl\<close>.\<close>

definition route_endpoint :: "worker_env \<Rightarrow> string \<Rightarrow> string \<Rightarrow> string option \<Rightarrow> (json, json) cio" where
  "route_endpoint we key prompt audio_b64 =
     (let env = we_gateway we; failed = (\<lambda>what e. json_error (what @ '' failed: '' @ e)) in
      case ollama_model_for key of Some model \<Rightarrow> run_text_worker we model prompt
      | None \<Rightarrow>
      (case image_worker_for key of Some (worker_image, api_path) \<Rightarrow>
         vbind (gpu_available env) (\<lambda>gpu.
         if \<not> gpu then vlift (Inl (gpu_required key worker_image ''image''))
         else vmap_err (failed ''image inference'') (run_image_worker we worker_image api_path prompt))
      | None \<Rightarrow>
      (case video_worker_for key of Some worker_image \<Rightarrow>
         vbind (gpu_available env) (\<lambda>gpu.
         if \<not> gpu then vlift (Inl (gpu_required key worker_image ''video''))
         else vmap_err (failed ''video inference'') (run_video_worker we worker_image prompt))
      | None \<Rightarrow>
      if key = ''whisper'' then
        (case audio_b64 of
           None \<Rightarrow> vlift (Inl (JObj [(''error'', JStr ''whisper transcribes audio - attach an audio file (audio_b64)''),
             (''needs'', JStr ''audio-input'')]))
         | Some a \<Rightarrow>
             if 24 * 1024 * 1024 < length a then vlift (Inl (json_error ''audio too large (max ~18 MB)''))
             else case we_b64_decode we a of
               None \<Rightarrow> vlift (Inl (json_error ''audio_b64 is not valid base64''))
             | Some bs \<Rightarrow> vmap_err (failed ''transcription'') (run_whisper_worker we bs))
      else if key = ''chatterbox'' then vmap_err (failed ''tts'') (run_tts_worker we prompt)
      else vlift (Inl (endpoint_fallback key)))))"

definition serve_endpoint ::
  "worker_env \<Rightarrow> string \<Rightarrow> string \<Rightarrow> string option \<Rightarrow> nat \<Rightarrow> hosting \<Rightarrow> command list \<Rightarrow> (json \<times> hosting) \<times> command list" where
  "serve_endpoint we key prompt audio_b64 now st h =
     (let key = canonical_key key; audio_b64 = non_blank audio_b64 in
      if trim prompt = [] \<and> audio_b64 = None then ((json_error ''prompt is required'', st), h)
      else if MAX_PROMPT_BYTES < length prompt then
        ((json_error (''prompt too large ('' @ show_nat (length prompt) @ '' bytes; max '' @ show_nat MAX_PROMPT_BYTES @ '')''), st), h)
      else case route_endpoint we key prompt audio_b64 h of
        (Inl j, h') \<Rightarrow> ((j, st), h')
      | (Inr j, h') \<Rightarrow> ((j, mark_warm key now st), h'))"

section \<open>Every container a request starts is confined\<close>

lemma runs_docker [intro!]:
  "Q h args \<Longrightarrow> runs_at Q (gdocker env args) h" "(\<And>h. Q h args) \<Longrightarrow> runs Q (gdocker env args)"
  by (auto simp: runs_def runs_at_def gdocker_def)

fun worker_flags_ok :: "string \<Rightarrow> string list \<Rightarrow> bool" where
  "worker_flags_ok media [] = True"
| "worker_flags_ok media [f] = (f = ''--read-only'')"
| "worker_flags_ok media (f # v # rest) =
     (if f = ''--read-only'' then worker_flags_ok media (v # rest)
      else (f \<in> {''--memory'', ''--name'', ''--tmpfs'', ''-e'', ''--gpus'', ''--user''} \<or>
            f = ''--security-opt'' \<and> starts_with v ''seccomp='' \<or>
            f = ''-p'' \<and> starts_with v ''127.0.0.1:'' \<or>
            f = ''-v'' \<and> v \<in> {''cloudiy-ollama-models:/root/.ollama'', media @ '':/out''}) \<and>
           worker_flags_ok media rest)"

definition image_signed :: "gateway_env \<Rightarrow> command list \<Rightarrow> string \<Rightarrow> bool" where
  "image_signed env hist img \<longleftrightarrow>
     (\<exists>before args out. cosign_args env = Some args \<and> hist = before @ [[''cosign'', ''verify''] @ args @ [img]] \<and>
        ge_run env before ([''cosign'', ''verify''] @ args @ [img]) = Some out \<and> co_success out)"

definition confined_start :: "worker_env \<Rightarrow> command list \<Rightarrow> command \<Rightarrow> bool" where
  "confined_start we hist c \<longleftrightarrow> (let env = we_gateway we in
     \<exists>flags img.
       c = [''run'', ''-d'', ''--cap-drop'', ''ALL'', ''--security-opt'', ''no-new-privileges'', ''--pids-limit'', ''512''] @
           (if sealed_mode env then [''--network'', ''cloudiy-sealed''] else []) @ flags @ [img] \<and>
       worker_flags_ok (we_media_dir we) flags \<and> ''--memory'' \<in> set flags \<and>
       (strict_images env \<longrightarrow> image_is_pinned img \<or> pinned_digest img \<noteq> None) \<and>
       (ge_var env ''CLOUDIY_COSIGN_VERIFY'' \<noteq> None \<longrightarrow> image_signed env hist img))"

definition run_ok :: "worker_env \<Rightarrow> command list \<Rightarrow> command \<Rightarrow> bool" where
  "run_ok we hist c \<longleftrightarrow> (hd c = ''run'' \<longrightarrow> confined_start we hist c)"

lemma run_ok_other: "hd c \<noteq> ''run'' \<Longrightarrow> run_ok we hist c"
  by (simp add: run_ok_def)

lemma verify_signed:
  "verify_image_signature env img h = (Inr u, h') \<Longrightarrow> ge_var env ''CLOUDIY_COSIGN_VERIFY'' \<noteq> None \<Longrightarrow> image_signed env h' img"
  by (auto simp: verify_image_signature_def result_iff image_signed_def gdocker_def)

lemma flags_base:
  assumes "worker_flags_ok media own"
  shows "worker_flags_ok media ((case seccomp_arg env of Some s \<Rightarrow> [''--security-opt'', s] | None \<Rightarrow> []) @
    (case worker_user env of Some u \<Rightarrow> [''--user'', u] | None \<Rightarrow> []) @ own)"
  using assms by (auto simp: seccomp_arg_def starts_with_def split: option.splits)

lemma launch_confined:
  assumes "worker_flags_ok (we_media_dir we) own" and "''--memory'' \<in> set own"
  shows "runs (run_ok we) (launch_worker (we_gateway we) name img own)"
  unfolding runs_def launch_worker_def
proof (intro allI runs_at_bind)
  let ?env = "we_gateway we"
  fix h
  show "runs_at (run_ok we) (vtry (gdocker ?env [''rm'', ''-f'', name]) :: (string + cli_output) gio) h" for h
  proof -
    have "runs (run_ok we) (vtry (gdocker ?env [''rm'', ''-f'', name]) :: (string + cli_output) gio)" by (auto simp: run_ok_other)
    then show ?thesis by (simp add: runs_def)
  qed
  show "runs_at (run_ok we) (if sealed_mode ?env then ensure_sealed_network ?env else vret ()) h" for h
  proof -
    have "runs (run_ok we) (ensure_sealed_network ?env)"
      by (auto simp: ensure_sealed_network_def run_ok_other)
    then show ?thesis by (auto simp: runs_def)
  qed
  show "runs_at (run_ok we) (vlift (check_pinned ?env img)) h" for h by auto
  show "runs_at (run_ok we) (verify_image_signature ?env img) h" for h
  proof -
    have "runs (run_ok we) (verify_image_signature ?env img)"
      by (auto simp: verify_image_signature_def run_ok_other)
    then show ?thesis by (simp add: runs_def)
  qed
  fix u1 u2 and h1 h2 :: "command list" assume p: "vlift (check_pinned ?env img) h1 = (Inr u1, h2)"
  fix u3 h3 assume v: "verify_image_signature ?env img h2 = (Inr u3, h3)"
  have "confined_start we h3 (worker_base_args ?env @ own @ [img])"
    unfolding confined_start_def Let_def
  proof (intro exI conjI)
    show "worker_base_args ?env @ own @ [img] =
      [''run'', ''-d'', ''--cap-drop'', ''ALL'', ''--security-opt'', ''no-new-privileges'', ''--pids-limit'', ''512''] @
      (if sealed_mode ?env then [''--network'', ''cloudiy-sealed''] else []) @
      ((case seccomp_arg ?env of Some s \<Rightarrow> [''--security-opt'', s] | None \<Rightarrow> []) @
       (case worker_user ?env of Some u \<Rightarrow> [''--user'', u] | None \<Rightarrow> []) @ own) @ [img]"
      by (simp add: worker_base_args_def worker_hardening_def worker_network_def SEALED_NET_def)
    show "strict_images ?env \<longrightarrow> image_is_pinned img \<or> pinned_digest img \<noteq> None"
      using p by (auto simp: result_iff check_pinned_def)
    show "ge_var ?env ''CLOUDIY_COSIGN_VERIFY'' \<noteq> None \<longrightarrow> image_signed ?env h3 img"
      using verify_signed [OF v] by simp
  qed (use assms flags_base in auto)
  then show "runs_at (run_ok we) (gdocker ?env (worker_base_args ?env @ own @ [img])) h3"
    by (auto simp: run_ok_def)
  show "runs_at (run_ok we) (vlift r) h" for r :: "string + unit" and h by auto
qed

lemma runs_running: "runs (run_ok we) (worker_running env name)"
  by (auto simp: worker_running_def run_ok_other)

lemma runs_gpu: "runs (run_ok we) (gpu_available env)"
  by (auto simp: gpu_available_def run_ok_other)

lemma runs_ollama: "runs (run_ok we) (ensure_ollama (we_gateway we) model)"
  unfolding ensure_ollama_def Let_def OLLAMA_VOLUME_def
  by (intro runs_bind runs_running runs_if launch_confined runs_basic runs_try)
    (auto simp: run_ok_other starts_with_def)

lemma runs_whisper: "runs (run_ok we) (run_whisper_worker we audio)"
  unfolding run_whisper_worker_def ensure_whisper_def whisper_matches_def Let_def
  by (intro runs_bind runs_running runs_if launch_confined runs_basic runs_try)
    (auto simp: run_ok_other starts_with_def)

lemma runs_tts: "runs (run_ok we) (run_tts_worker we prompt)"
  unfolding run_tts_worker_def Let_def
  by (intro runs_bind runs_running runs_if launch_confined runs_basic runs_try)
    (auto simp: run_ok_other starts_with_def)

lemma runs_image: "runs (run_ok we) (run_image_worker we w p prompt)"
  unfolding run_image_worker_def Let_def
  by (intro runs_bind runs_running runs_if launch_confined runs_basic runs_try)
    (auto simp: run_ok_other starts_with_def)

lemma runs_video: "runs (run_ok we) (run_video_worker we w prompt)"
  unfolding run_video_worker_def Let_def
  by (intro runs_bind runs_running runs_if launch_confined runs_basic runs_try)
    (auto simp: run_ok_other starts_with_def)

lemma runs_route: "runs (run_ok we) (route_endpoint we key prompt audio)"
  unfolding route_endpoint_def Let_def run_text_worker_def
  by (intro runs_option runs_prod runs_if runs_bind runs_map_err runs_ollama runs_whisper runs_tts runs_image runs_video
      runs_gpu runs_basic)

text \<open>
  C11. Every container a request starts is confined. Whatever the key, prompt and audio, each \<open>docker run\<close>
  that answering an endpoint issues drops all capabilities, forbids new privileges, bounds processes and
  memory, publishes on loopback only, mounts only the model cache or the media directory and, in sealed
  mode, is on the network without egress; in strict mode its image is pinned or has a shipped digest,
  and with signatures required the very command before it verified that image and succeeded.
\<close>
theorem endpoint_containers_confined:
  assumes "serve_endpoint we key prompt audio now st h = (r, h')"
  shows "\<exists>cs. h' = h @ cs \<and> (\<forall>i < length cs. hd (cs ! i) = ''run'' \<longrightarrow> confined_start we (h @ take i cs) (cs ! i))"
proof -
  let ?m = "route_endpoint we (canonical_key key) prompt (non_blank audio)"
  have "h' = h \<or> h' = snd (?m h)"
    using assms by (auto simp: serve_endpoint_def Let_def split: if_splits prod.splits sum.splits)
  moreover have "runs_at (run_ok we) ?m h" using runs_route by (simp add: runs_def)
  ultimately show ?thesis by (auto simp: runs_at_def run_ok_def)
qed

text \<open>Strict mode accepts a mutable tag when a digest is shipped for it, and the container is started by the tag.\<close>

lemma strict_mode_runs_a_tag:
  "check_pinned env ''onerahmet/openai-whisper-asr-webservice:latest'' = Inr () \<and>
     \<not> image_is_pinned ''onerahmet/openai-whisper-asr-webservice:latest''"
proof -
  have "pinned_digest ''onerahmet/openai-whisper-asr-webservice:latest'' \<noteq> None"
    by (simp add: pinned_digest_def worker_digests_def)
  then show ?thesis by (simp add: check_pinned_def image_is_pinned_def contains_str_def)
qed

definition demo_worker_env :: worker_env where
  "demo_worker_env = \<lparr>we_gateway = demo_gateway_env, we_post = (\<lambda>_ _. Inl PostTimeout), we_post_audio = (\<lambda>_ _ _. Inl ''''),
     we_json_text = (\<lambda>_. ''''), we_b64_decode = (\<lambda>_. None), we_media_dir = ''/tmp/cloudiy-media'', we_media_ready = Inr (),
     we_clip_id = ''clip''\<rparr>"

lemma endpoint_containers_confined_witness:
  "\<exists>r cs. serve_endpoint demo_worker_env ''qwen3'' ''hello'' None 0 demo_hosting [] = (r, cs) \<and>
     (\<forall>i < length cs. hd (cs ! i) = ''run'' \<longrightarrow> confined_start demo_worker_env (take i cs) (cs ! i))"
proof -
  obtain r cs where s: "serve_endpoint demo_worker_env ''qwen3'' ''hello'' None 0 demo_hosting [] = (r, cs)" by fastforce
  from endpoint_containers_confined [OF s] s show ?thesis by auto
qed

end
