(* ===== verification/Cluster.thy ===== *)
theory Cluster
  imports Rust_Search
begin

text \<open>
  The configuration of the money layer, \<open>crates/common/src/cluster.rs\<close>, and the directories a node starts
  from, \<open>crates/common/src/bootstrap.rs\<close>: an explicit flag first, then the environment, then what is
  compiled in. The environment is a function from the name of a variable to its value.
\<close>

section \<open>Clusters\<close>

definition DEVNET_ESCROW_PROGRAM :: string where "DEVNET_ESCROW_PROGRAM = ''9zMBC7JDA8SJ2mk3ATYqRuJvn14MQyZVg9q3XPnzc1TN''"
definition DEVNET_USDC_MINT :: string where "DEVNET_USDC_MINT = ''4zMMC9srt5Ri5X14GAgXhaHii3GnPAEERYPJgZJDncDU''"
definition DEVNET_RPC_URL :: string where "DEVNET_RPC_URL = ''https://api.devnet.solana.com''"
definition MAINNET_USDC_MINT :: string where "MAINNET_USDC_MINT = ''EPjFWdd5AufqSSqeM2qN1xzybapC8G4wEGGkZwyTDt1v''"
definition MAINNET_RPC_URL :: string where "MAINNET_RPC_URL = ''https://api.mainnet-beta.solana.com''"
definition MAINNET_ESCROW_PROGRAM :: "string option" where "MAINNET_ESCROW_PROGRAM = None"

datatype cluster = Devnet | Mainnet

definition quoted :: "char \<Rightarrow> string \<Rightarrow> string" where
  "quoted q s = q # s @ [q]"

definition cluster_parse :: "string \<Rightarrow> string + cluster" where
  "cluster_parse s = (let t = lower (trim s) in
     if t = ''devnet'' \<or> t = ''dev'' then Inr Devnet
     else if t = ''mainnet'' \<or> t = ''mainnet-beta'' \<or> t = ''main'' then Inr Mainnet
     else Inl (''unknown cluster '' @ quoted (CHR 0x22) t @ '' - expected '' @ quoted (CHR 0x27) ''devnet'' @
       '' or '' @ quoted (CHR 0x27) ''mainnet''))"

fun cluster_str :: "cluster \<Rightarrow> string" where
  "cluster_str Devnet = ''devnet''"
| "cluster_str Mainnet = ''mainnet''"

definition is_mainnet :: "cluster \<Rightarrow> bool" where
  "is_mainnet c \<longleftrightarrow> (case c of Mainnet \<Rightarrow> True | Devnet \<Rightarrow> False)"

fun default_rpc_url :: "cluster \<Rightarrow> string" where
  "default_rpc_url Devnet = DEVNET_RPC_URL"
| "default_rpc_url Mainnet = MAINNET_RPC_URL"

fun default_usdc_mint :: "cluster \<Rightarrow> string" where
  "default_usdc_mint Devnet = DEVNET_USDC_MINT"
| "default_usdc_mint Mainnet = MAINNET_USDC_MINT"

fun default_escrow_program :: "cluster \<Rightarrow> string option" where
  "default_escrow_program Devnet = Some DEVNET_ESCROW_PROGRAM"
| "default_escrow_program Mainnet = MAINNET_ESCROW_PROGRAM"

fun x402_label :: "cluster \<Rightarrow> string" where
  "x402_label Devnet = ''solana-devnet''"
| "x402_label Mainnet = ''solana''"

section \<open>Resolution\<close>

record config_overrides =
  ov_cluster :: "string option"
  ov_rpc_url :: "string option"
  ov_usdc_mint :: "string option"
  ov_escrow_program :: "string option"

definition no_overrides :: config_overrides where
  "no_overrides = \<lparr>ov_cluster = None, ov_rpc_url = None, ov_usdc_mint = None, ov_escrow_program = None\<rparr>"

record solana_config =
  sc_cluster :: cluster
  sc_rpc_url :: string
  sc_usdc_mint :: string
  sc_escrow_program :: string
  sc_x402_network :: string

definition ENV_CLUSTER :: string where "ENV_CLUSTER = ''CLOUDIY_CLUSTER''"
definition ENV_RPC_URL :: string where "ENV_RPC_URL = ''CLOUDIY_RPC_URL''"
definition ENV_USDC_MINT :: string where "ENV_USDC_MINT = ''CLOUDIY_USDC_MINT''"
definition ENV_ESCROW_PROGRAM :: string where "ENV_ESCROW_PROGRAM = ''CLOUDIY_ESCROW_PROGRAM''"

type_synonym environment = "string \<Rightarrow> string option"

definition unless_blank :: "string option \<Rightarrow> string option" where
  "unless_blank v = Option.bind v (\<lambda>s. if trim s = '''' then None else Some s)"

definition from_env :: "environment \<Rightarrow> string \<Rightarrow> string option" where
  "from_env env key = unless_blank (env key)"

definition pick :: "environment \<Rightarrow> string option \<Rightarrow> string \<Rightarrow> string option" where
  "pick env over key = (case unless_blank over of Some v \<Rightarrow> Some v | None \<Rightarrow> from_env env key)"

definition no_program :: "cluster \<Rightarrow> string" where
  "no_program c = ''no escrow program is baked in for '' @ cluster_str c @
     '' - the Cloudiy escrow has not been deployed there yet. Pass --escrow-program <id> or set '' @
     ENV_ESCROW_PROGRAM @ ''. See docs/MAINNET-RUNBOOK.md.''"

definition or_default :: "'a \<Rightarrow> 'a option \<Rightarrow> 'a" where
  "or_default d v = (case v of Some x \<Rightarrow> x | None \<Rightarrow> d)"

definition resolve_with :: "config_overrides \<Rightarrow> environment \<Rightarrow> string + solana_config" where
  "resolve_with ov env =
     rbind (case pick env (ov_cluster ov) ENV_CLUSTER of Some s \<Rightarrow> cluster_parse s | None \<Rightarrow> Inr Devnet) (\<lambda>c.
     rbind (case pick env (ov_escrow_program ov) ENV_ESCROW_PROGRAM of
              Some p \<Rightarrow> Inr p | None \<Rightarrow> ok_or (default_escrow_program c) (no_program c)) (\<lambda>program.
     Inr \<lparr>sc_cluster = c,
       sc_rpc_url = or_default (default_rpc_url c) (pick env (ov_rpc_url ov) ENV_RPC_URL),
       sc_usdc_mint = or_default (default_usdc_mint c) (pick env (ov_usdc_mint ov) ENV_USDC_MINT),
       sc_escrow_program = program, sc_x402_network = x402_label c\<rparr>))"

definition devnet_config :: solana_config where
  "devnet_config = \<lparr>sc_cluster = Devnet, sc_rpc_url = DEVNET_RPC_URL, sc_usdc_mint = DEVNET_USDC_MINT,
     sc_escrow_program = DEVNET_ESCROW_PROGRAM, sc_x402_network = x402_label Devnet\<rparr>"

definition from_env_or_devnet :: "environment \<Rightarrow> solana_config" where
  "from_env_or_devnet env = (case resolve_with no_overrides env of Inr c \<Rightarrow> c | Inl _ \<Rightarrow> devnet_config)"

section \<open>Directories\<close>

definition DIRECTORY_ENV :: string where "DIRECTORY_ENV = ''CLOUDIY_DIRECTORY''"

definition split_ids :: "string \<Rightarrow> string list" where
  "split_ids s = filter (\<lambda>t. t \<noteq> '''') (map trim (split_on (CHR '','') s))"

text \<open>The directory compiled in is an argument.\<close>

definition resolve_directories :: "environment \<Rightarrow> string \<Rightarrow> string list \<Rightarrow> string list" where
  "resolve_directories env DEFAULT_DIRECTORY explicit =
     (if explicit \<noteq> [] then explicit
      else let ids = (case env DIRECTORY_ENV of Some v \<Rightarrow> split_ids v | None \<Rightarrow> []) in
        if ids \<noteq> [] then ids
        else if DEFAULT_DIRECTORY \<noteq> '''' then [DEFAULT_DIRECTORY] else [])"

section \<open>Properties\<close>

text \<open>Money goes to mainnet only when it is asked for by name, and to the devnet program only on devnet.\<close>

definition asked_cluster :: "config_overrides \<Rightarrow> environment \<Rightarrow> string option" where
  "asked_cluster ov env = pick env (ov_cluster ov) ENV_CLUSTER"

definition asked_program :: "config_overrides \<Rightarrow> environment \<Rightarrow> string option" where
  "asked_program ov env = pick env (ov_escrow_program ov) ENV_ESCROW_PROGRAM"

lemma cluster_parse_mainnet:
  "cluster_parse s = Inr Mainnet \<longleftrightarrow> lower (trim s) \<in> {''mainnet'', ''mainnet-beta'', ''main''}"
  by (auto simp: cluster_parse_def Let_def)

lemma pick_not_blank: "pick env ov key = Some v \<Longrightarrow> trim v \<noteq> ''''"
  by (auto simp: pick_def from_env_def unless_blank_def bind_eq_Some_conv split: option.splits if_splits)

text \<open>
  The configuration never points money at a cluster nobody named. Resolution gives mainnet exactly when
  the first non-blank of flag and variable names it, and then never the devnet program: the escrow
  program is the one that was given, and without one resolution fails. Without any setting the result is
  the devnet configuration, and a flag always wins over a variable.
\<close>
theorem mainnet_needs_a_program:
  assumes "resolve_with ov env = Inr c"
  shows "(sc_cluster c = Mainnet \<longleftrightarrow>
      (\<exists>s. asked_cluster ov env = Some s \<and> lower (trim s) \<in> {''mainnet'', ''mainnet-beta'', ''main''})) \<and>
    (sc_cluster c = Mainnet \<longrightarrow> asked_program ov env = Some (sc_escrow_program c)) \<and>
    sc_x402_network c = x402_label (sc_cluster c) \<and>
    (\<forall>p. unless_blank (ov_escrow_program ov) = Some p \<longrightarrow> sc_escrow_program c = p) \<and>
    (\<forall>u. unless_blank (ov_rpc_url ov) = Some u \<longrightarrow> sc_rpc_url c = u) \<and>
    ((\<forall>k. unless_blank (env k) = None) \<and> ov = no_overrides \<longrightarrow> c = devnet_config)"
proof -
  from assms obtain cl program where
    cl: "(case asked_cluster ov env of Some s \<Rightarrow> cluster_parse s | None \<Rightarrow> Inr Devnet) = Inr cl"
    and program: "(case asked_program ov env of Some p \<Rightarrow> Inr p
        | None \<Rightarrow> ok_or (default_escrow_program cl) (no_program cl)) = Inr program"
    and c: "c = \<lparr>sc_cluster = cl,
       sc_rpc_url = or_default (default_rpc_url cl) (pick env (ov_rpc_url ov) ENV_RPC_URL),
       sc_usdc_mint = or_default (default_usdc_mint cl) (pick env (ov_usdc_mint ov) ENV_USDC_MINT),
       sc_escrow_program = program, sc_x402_network = x402_label cl\<rparr>"
    by (auto simp: resolve_with_def result_iff asked_cluster_def asked_program_def)
  have main: "cl = Mainnet \<longleftrightarrow> (\<exists>s. asked_cluster ov env = Some s \<and> lower (trim s) \<in> {''mainnet'', ''mainnet-beta'', ''main''})"
  proof (cases "asked_cluster ov env")
    case None
    then show ?thesis using cl by simp
  next
    case (Some s)
    then show ?thesis using cl cluster_parse_mainnet [of s] by auto
  qed
  have prog: "asked_program ov env = Some program" if "cl = Mainnet"
    using program that by (auto simp: MAINNET_ESCROW_PROGRAM_def ok_or_def split: option.splits)
  have flag: "program = p" if "unless_blank (ov_escrow_program ov) = Some p" for p
    using program that by (simp add: asked_program_def pick_def)
  have none: "c = devnet_config" if "\<forall>k. unless_blank (env k) = None" "ov = no_overrides"
  proof -
    have p: "pick env None k = None" for k using that(1) by (simp add: pick_def from_env_def unless_blank_def)
    have "cl = Devnet" using cl that p by (simp add: asked_cluster_def no_overrides_def)
    moreover have "program = DEVNET_ESCROW_PROGRAM"
      using program that p \<open>cl = Devnet\<close> by (simp add: asked_program_def no_overrides_def ok_or_def)
    ultimately show ?thesis using c that p by (simp add: no_overrides_def or_default_def devnet_config_def)
  qed
  show ?thesis using main prog flag none by (simp add: c pick_def or_default_def)
qed

lemma trim_names: "trim ''main'' = ''main''" "trim ''P'' = ''P''" "lower ''main'' = ''main''"
    "trim ''mainnet'' = ''mainnet''" "lower ''mainnet'' = ''mainnet''"
  by code_simp+

lemma mainnet_needs_a_program_witness:
  "\<exists>c. resolve_with (no_overrides\<lparr>ov_cluster := Some ''main'', ov_escrow_program := Some ''P''\<rparr>) (\<lambda>_. None) = Inr c \<and>
     sc_cluster c = Mainnet \<and> sc_escrow_program c = ''P''"
proof -
  let ?ov = "no_overrides\<lparr>ov_cluster := Some ''main'', ov_escrow_program := Some ''P''\<rparr>"
  have p: "pick (\<lambda>_. None) (Some ''main'') k = Some ''main''" "pick (\<lambda>_. None) (Some ''P'') k = Some ''P''" for k
    by (simp_all add: pick_def unless_blank_def trim_names)
  have "cluster_parse ''main'' = Inr Mainnet" by (simp add: cluster_parse_mainnet trim_names)
  then have "\<exists>c. resolve_with ?ov (\<lambda>_. None) = Inr c" by (simp add: resolve_with_def p rbind_def)
  then obtain c where c: "resolve_with ?ov (\<lambda>_. None) = Inr c" by blast
  have asked: "asked_cluster ?ov (\<lambda>_. None) = Some ''main''" "asked_program ?ov (\<lambda>_. None) = Some ''P''"
    using p by (simp_all add: asked_cluster_def asked_program_def)
  note pr = mainnet_needs_a_program [OF c]
  have "\<exists>s. asked_cluster ?ov (\<lambda>_. None) = Some s \<and> lower (trim s) \<in> {''mainnet'', ''mainnet-beta'', ''main''}"
    using asked(1) by (intro exI [of _ "''main''"]) (simp add: trim_names)
  with pr [THEN conjunct1] have main: "sc_cluster c = Mainnet" by (rule iffD2)
  have "sc_escrow_program c = ''P''" using mp [OF pr [THEN conjunct2, THEN conjunct1] main] asked(2) by simp
  with c main show ?thesis by blast
qed

text \<open>Without a program mainnet is refused.\<close>

lemma mainnet_without_program_refused:
  assumes "asked_cluster ov env = Some ''mainnet''" "asked_program ov env = None"
  shows "resolve_with ov env = Inl (no_program Mainnet)"
proof -
  have "cluster_parse ''mainnet'' = Inr Mainnet" by (simp add: cluster_parse_mainnet trim_names)
  with assms show ?thesis
    by (simp add: resolve_with_def asked_cluster_def asked_program_def MAINNET_ESCROW_PROGRAM_def ok_or_def rbind_def)
qed

end
