(* ===== verification/Solana.thy ===== *)
theory Solana
  imports Precompile_Ix Payments Node
begin

text \<open>
  The consumer's side of the escrow, \<open>crates/cloudiy/src/solana.rs\<close>: derived addresses, the legacy
  transaction message and its compact encoding, the instructions of the escrow program, and the calls
  that fund, release and refund a job. Hashing, base58, base64, the curve, the signature of the wallet
  and the RPC endpoint are parameters; the answer of the endpoint may depend on the number of the call.
\<close>

section \<open>The environment\<close>

record sol_env =
  so_sha256 :: "bytes \<Rightarrow> bytes"
  so_decompresses :: "bytes \<Rightarrow> bool"
  so_b58_decode :: "string \<Rightarrow> bytes option"
  so_b58_encode :: "bytes \<Rightarrow> string"
  so_b64_decode :: "string \<Rightarrow> bytes option"
  so_b64_encode :: "bytes \<Rightarrow> string"
  so_hex_decode :: "string \<Rightarrow> bytes option"
  so_uuid :: "bytes \<Rightarrow> string"
  so_http :: "nat \<Rightarrow> json \<Rightarrow> string + json"

record keypair =
  kp_pubkey :: pubkey
  kp_sign :: "bytes \<Rightarrow> bytes"

definition TOKEN_PROGRAM :: string where "TOKEN_PROGRAM = ''TokenkegQfeZyiNwAJbNbGKPFXCWuBvf9Ss623VQ5DA''"
definition ATA_PROGRAM :: string where "ATA_PROGRAM = ''ATokenGPvbdGVxr1b2hvZbsiqW5xWH25efTNsLJA8knL''"
definition SYSTEM_PROGRAM :: string where "SYSTEM_PROGRAM = ''11111111111111111111111111111111''"
definition FEE_AUTHORITY_B58 :: string where "FEE_AUTHORITY_B58 = ''GnaUN3hxTZaq6FqzVzLjXzJWi6svocFqgYbBJSdusFJP''"
definition CLIENT_FEE_BPS :: nat where "CLIENT_FEE_BPS = 400"
definition SYSVAR_INSTRUCTIONS :: string where "SYSVAR_INSTRUCTIONS = ''Sysvar1nstructions1111111111111111111111111''"
definition CLIENT_RESULT_DOMAIN :: bytes where "CLIENT_RESULT_DOMAIN = as_bytes ''cloudiy/result/v2''"

text \<open>The product is computed at 128 bits.\<close>

definition protocol_fee :: "u64 \<Rightarrow> u64" where
  "protocol_fee amount = ucast ((ucast amount * word_of_nat CLIENT_FEE_BPS :: u128) div 10000)"

definition parse_pubkey :: "sol_env \<Rightarrow> string \<Rightarrow> string + pubkey" where
  "parse_pubkey env s =
     rbind (ok_or (so_b58_decode env s) ''invalid base58 pubkey'') (\<lambda>v.
     rbind (require (length v = 32) ''pubkey must be 32 bytes'') (\<lambda>_. Inr v))"

definition pubkey_str :: "sol_env \<Rightarrow> pubkey \<Rightarrow> string" where
  "pubkey_str env p = so_b58_encode env p"

definition parse_hex32 :: "sol_env \<Rightarrow> string \<Rightarrow> string + pubkey" where
  "parse_hex32 env s =
     ok_or (Option.bind (so_hex_decode env (trim s)) (\<lambda>v. if length v = 32 then Some v else None))
       ''expected a 32-byte hex key''"

definition parse_hex64 :: "sol_env \<Rightarrow> string \<Rightarrow> string + bytes" where
  "parse_hex64 env s =
     ok_or (Option.bind (so_hex_decode env (trim s)) (\<lambda>v. if length v = 64 then Some v else None))
       ''expected a 64-byte hex signature''"

text \<open>
  A wallet file is a JSON byte array; \<open>public_of\<close> and \<open>sign_with\<close> are the ed25519 code.
\<close>

definition keypair_load ::
  "(bytes \<Rightarrow> pubkey) \<Rightarrow> (bytes \<Rightarrow> bytes \<Rightarrow> bytes) \<Rightarrow> (string \<Rightarrow> bytes option) \<Rightarrow> string option \<Rightarrow> string + keypair" where
  "keypair_load public_of sign_with parse content =
     rbind (ok_or content ''reading the file'') (\<lambda>text.
     rbind (ok_or (parse text) ''keypair file is not a JSON byte array'') (\<lambda>bs.
     rbind (require (length bs = 64) ''keypair must be 64 bytes'') (\<lambda>_.
     let seed = take 32 bs; pubkey = public_of seed in
     rbind (require (drop 32 bs = pubkey) ''keypair pubkey mismatch'') (\<lambda>_.
     Inr \<lparr>kp_pubkey = pubkey, kp_sign = sign_with seed\<rparr>))))"

section \<open>Derived addresses\<close>

definition is_on_curve :: "sol_env \<Rightarrow> bytes \<Rightarrow> bool" where
  "is_on_curve env bs = so_decompresses env bs"

definition pda_candidate :: "sol_env \<Rightarrow> bytes list \<Rightarrow> pubkey \<Rightarrow> nat \<Rightarrow> pubkey" where
  "pda_candidate env seeds program_id bump =
     so_sha256 env (concat seeds @ [word_of_nat bump] @ program_id @ as_bytes ''ProgramDerivedAddress'')"

text \<open>The bumps from 255 down; \<open>None\<close> is the panic when all candidates lie on the curve.\<close>

fun find_bump :: "sol_env \<Rightarrow> bytes list \<Rightarrow> pubkey \<Rightarrow> nat \<Rightarrow> (pubkey \<times> u8) option" where
  "find_bump env seeds program_id n =
     (let candidate = pda_candidate env seeds program_id n in
      if \<not> is_on_curve env candidate then Some (candidate, word_of_nat n)
      else case n of 0 \<Rightarrow> None | Suc m \<Rightarrow> find_bump env seeds program_id m)"

declare find_bump.simps [simp del]

definition find_program_address :: "sol_env \<Rightarrow> bytes list \<Rightarrow> pubkey \<Rightarrow> (pubkey \<times> u8) option" where
  "find_program_address env seeds program_id = find_bump env seeds program_id 255"

definition pda :: "sol_env \<Rightarrow> bytes list \<Rightarrow> pubkey \<Rightarrow> string + pubkey" where
  "pda env seeds program_id = map_sum id fst (ok_or (find_program_address env seeds program_id) ''no off-curve bump found'')"

definition associated_token_address :: "sol_env \<Rightarrow> pubkey \<Rightarrow> pubkey \<Rightarrow> string + pubkey" where
  "associated_token_address env owner mint =
     rbind (parse_pubkey env TOKEN_PROGRAM) (\<lambda>token.
     rbind (parse_pubkey env ATA_PROGRAM) (\<lambda>ata.
     pda env [owner, token, mint] ata))"

definition anchor_discriminator :: "sol_env \<Rightarrow> string \<Rightarrow> bytes" where
  "anchor_discriminator env name = take 8 (so_sha256 env (as_bytes (''global:'' @ name)))"

section \<open>The message\<close>

record account_meta =
  am_pubkey :: pubkey
  am_signer :: bool
  am_writable :: bool

record tx_instruction = instruction +
  ix_accounts :: "account_meta list"

fun shortvec :: "nat \<Rightarrow> bytes" where
  "shortvec n =
     (let b = n mod 128; n' = n div 128 in
      if n' \<noteq> 0 then word_of_nat (b + 128) # shortvec n' else [word_of_nat b])"

declare shortvec.simps [simp del]

type_synonym key_flags = "(pubkey, bool \<times> bool) btree_map"

definition touch :: "pubkey \<Rightarrow> bool \<Rightarrow> bool \<Rightarrow> key_flags \<times> pubkey list \<Rightarrow> key_flags \<times> pubkey list" where
  "touch pk s w st =
     (case st of (flags, order) \<Rightarrow>
        (bt_entry pk (False, False) (\<lambda>(a, b). (a \<or> s, b \<or> w)) flags,
         if bt_get flags pk = None then order @ [pk] else order))"

definition touch_accounts :: "account_meta list \<Rightarrow> key_flags \<times> pubkey list \<Rightarrow> key_flags \<times> pubkey list" where
  "touch_accounts accounts st = fold (\<lambda>a. touch (am_pubkey a) (am_signer a) (am_writable a)) accounts st"

definition collect_keys :: "pubkey \<Rightarrow> tx_instruction list \<Rightarrow> key_flags \<times> pubkey list" where
  "collect_keys fee_payer ixs =
     fold (\<lambda>ix st. touch (ix_program_id ix) False False (touch_accounts (ix_accounts ix) st)) ixs
       (touch fee_payer True True ([], []))"

definition flag_of :: "key_flags \<Rightarrow> pubkey \<Rightarrow> bool \<times> bool" where
  "flag_of flags pk = (case bt_get flags pk of Some f \<Rightarrow> f | None \<Rightarrow> (False, False))"

definition key_of :: "pubkey \<Rightarrow> key_flags \<Rightarrow> pubkey list \<Rightarrow> (bool \<Rightarrow> bool \<Rightarrow> bool) \<Rightarrow> pubkey list" where
  "key_of fee_payer flags order pred =
     filter (\<lambda>pk. pk \<noteq> fee_payer \<and> (case flag_of flags pk of (s, w) \<Rightarrow> pred s w)) order"

definition account_keys_of :: "pubkey \<Rightarrow> key_flags \<Rightarrow> pubkey list \<Rightarrow> pubkey list" where
  "account_keys_of fee_payer flags order =
     [fee_payer] @ key_of fee_payer flags order (\<lambda>s w. s \<and> w) @ key_of fee_payer flags order (\<lambda>s w. s \<and> \<not> w) @
     key_of fee_payer flags order (\<lambda>s w. \<not> s \<and> w) @ key_of fee_payer flags order (\<lambda>s w. \<not> s \<and> \<not> w)"

definition index_of :: "pubkey list \<Rightarrow> pubkey \<Rightarrow> nat" where
  "index_of keys pk = length (takeWhile (\<lambda>k. k \<noteq> pk) keys)"

definition instruction_bytes :: "pubkey list \<Rightarrow> tx_instruction \<Rightarrow> bytes" where
  "instruction_bytes keys ix =
     [word_of_nat (index_of keys (ix_program_id ix))] @
     shortvec (length (ix_accounts ix)) @ map (\<lambda>a. word_of_nat (index_of keys (am_pubkey a))) (ix_accounts ix) @
     shortvec (length (ix_data ix)) @ ix_data ix"

definition compile_message :: "pubkey \<Rightarrow> tx_instruction list \<Rightarrow> bytes \<Rightarrow> bytes" where
  "compile_message fee_payer ixs blockhash =
     (case collect_keys fee_payer ixs of (flags, order) \<Rightarrow>
        let account_keys = account_keys_of fee_payer flags order;
            num_signers = length (filter (\<lambda>pk. fst (flag_of flags pk) \<or> pk = fee_payer) account_keys);
            num_ro_signed = length (filter (\<lambda>pk. fst (flag_of flags pk) \<and> \<not> snd (flag_of flags pk) \<and> pk \<noteq> fee_payer) account_keys);
            num_ro_unsigned = length (filter (\<lambda>pk. \<not> fst (flag_of flags pk) \<and> \<not> snd (flag_of flags pk)) account_keys) in
        [word_of_nat num_signers, word_of_nat num_ro_signed, word_of_nat num_ro_unsigned] @
        shortvec (length account_keys) @ concat account_keys @ blockhash @
        shortvec (length ixs) @ concat (map (instruction_bytes account_keys) ixs))"

definition signed_transaction :: "keypair \<Rightarrow> bytes \<Rightarrow> bytes" where
  "signed_transaction kp message = shortvec 1 @ kp_sign kp message @ message"

section \<open>The RPC endpoint\<close>

definition sol_rpc :: "sol_env \<Rightarrow> nat \<Rightarrow> string \<Rightarrow> json \<Rightarrow> string + json" where
  "sol_rpc env n rpc_method params =
     rbind (so_http env n (JObj [(''jsonrpc'', JStr ''2.0''), (''id'', JInt 1), (''method'', JStr rpc_method), (''params'', params)])) (\<lambda>v.
     rbind (require (json_get ''error'' v = None) (''rpc '' @ rpc_method @ '' error'')) (\<lambda>_. Inr v))"

definition latest_blockhash :: "sol_env \<Rightarrow> nat \<Rightarrow> string + bytes" where
  "latest_blockhash env n =
     rbind (sol_rpc env n ''getLatestBlockhash'' (JArr [JObj [(''commitment'', JStr ''finalized'')]])) (\<lambda>v.
     rbind (ok_or (Option.bind (json_at [''result'', ''value'', ''blockhash''] v) json_str) ''no blockhash in response'') (\<lambda>bh.
     parse_pubkey env bh))"

definition send_transaction :: "sol_env \<Rightarrow> nat \<Rightarrow> string \<Rightarrow> string + string" where
  "send_transaction env n tx_b64 =
     rbind (sol_rpc env n ''sendTransaction'' (JArr [JStr tx_b64,
       JObj [(''encoding'', JStr ''base64''), (''preflightCommitment'', JStr ''confirmed'')]])) (\<lambda>v.
     ok_or (Option.bind (json_get ''result'' v) json_str) ''no signature in sendTransaction response'')"

text \<open>What one poll says: \<open>None\<close> is to poll again.\<close>

definition confirmation_status :: "json \<Rightarrow> (string + unit) option" where
  "confirmation_status v =
     (case json_at [''result'', ''value'', ''0''] v of
        None \<Rightarrow> None
      | Some status \<Rightarrow>
          if status = JNull then None
          else if (case json_get ''err'' status of Some err \<Rightarrow> err \<noteq> JNull | None \<Rightarrow> False)
          then Some (Inl ''transaction failed on-chain'')
          else let conf = (case Option.bind (json_get ''confirmationStatus'' status) json_str of Some c \<Rightarrow> c | None \<Rightarrow> '''') in
            if conf = ''confirmed'' \<or> conf = ''finalized'' then Some (Inr ()) else None)"

fun await_loop :: "sol_env \<Rightarrow> nat \<Rightarrow> nat \<Rightarrow> string \<Rightarrow> string + unit" where
  "await_loop env n 0 sig = Inl (''transaction not confirmed in time (sig '' @ sig @ '')'')"
| "await_loop env n (Suc polls) sig =
     rbind (sol_rpc env n ''getSignatureStatuses'' (JArr [JArr [JStr sig], JObj [(''searchTransactionHistory'', JBool True)]])) (\<lambda>v.
     case confirmation_status v of Some r \<Rightarrow> r | None \<Rightarrow> await_loop env (Suc n) polls sig)"

definition await_confirmation :: "sol_env \<Rightarrow> nat \<Rightarrow> string \<Rightarrow> string + unit" where
  "await_confirmation env n sig = await_loop env n 40 sig"

text \<open>The end of every call: the message over the latest block hash is signed, sent and awaited.\<close>

definition submit_instructions :: "sol_env \<Rightarrow> nat \<Rightarrow> keypair \<Rightarrow> tx_instruction list \<Rightarrow> string + string" where
  "submit_instructions env n kp ixs =
     rbind (latest_blockhash env n) (\<lambda>blockhash.
     let message = compile_message (kp_pubkey kp) ixs blockhash;
         tx_b64 = so_b64_encode env (signed_transaction kp message) in
     rbind (send_transaction env (n + 1) tx_b64) (\<lambda>sig.
     rbind (await_confirmation env (n + 2) sig) (\<lambda>_. Inr sig)))"

section \<open>The escrow instructions\<close>

definition meta :: "pubkey \<Rightarrow> bool \<Rightarrow> bool \<Rightarrow> account_meta" where
  "meta pk s w = \<lparr>am_pubkey = pk, am_signer = s, am_writable = w\<rparr>"

record funded_escrow =
  fe_job_account :: pubkey
  fe_job_id :: bytes
  fe_signature :: string

definition create_job_data :: "sol_env \<Rightarrow> bytes \<Rightarrow> u64 \<Rightarrow> i64 \<Rightarrow> pubkey \<Rightarrow> bytes" where
  "create_job_data env jid amount timeout_secs provider_node_key =
     anchor_discriminator env ''create_job'' @ jid @ to_le_bytes amount @ to_le_bytes timeout_secs @ provider_node_key"

definition create_job_ix ::
  "sol_env \<Rightarrow> pubkey \<Rightarrow> pubkey \<Rightarrow> pubkey \<Rightarrow> pubkey \<Rightarrow> u64 \<Rightarrow> i64 \<Rightarrow> bytes \<Rightarrow> pubkey \<Rightarrow> string + pubkey \<times> tx_instruction" where
  "create_job_ix env consumer escrow_program provider mint amount timeout_secs jid provider_node_key =
     rbind (pda env [as_bytes ''job'', consumer, jid] escrow_program) (\<lambda>job.
     rbind (pda env [as_bytes ''vault'', job] escrow_program) (\<lambda>vault.
     rbind (associated_token_address env consumer mint) (\<lambda>consumer_token.
     rbind (parse_pubkey env TOKEN_PROGRAM) (\<lambda>token_program.
     rbind (parse_pubkey env SYSTEM_PROGRAM) (\<lambda>system_program.
     Inr (job,
       \<lparr>ix_program_id = escrow_program,
        ix_data = create_job_data env jid amount timeout_secs provider_node_key,
        ix_accounts =
          [meta consumer True True, meta provider False False, meta mint False False, meta job False True,
           meta vault False True, meta consumer_token False True, meta token_program False False,
           meta system_program False False]\<rparr>))))))"

definition sol_create_job ::
  "sol_env \<Rightarrow> nat \<Rightarrow> keypair \<Rightarrow> pubkey \<Rightarrow> pubkey \<Rightarrow> pubkey \<Rightarrow> u64 \<Rightarrow> i64 \<Rightarrow> bytes \<Rightarrow> pubkey \<Rightarrow> string + funded_escrow" where
  "sol_create_job env n consumer escrow_program provider mint amount timeout_secs jid provider_node_key =
     rbind (create_job_ix env (kp_pubkey consumer) escrow_program provider mint amount timeout_secs jid provider_node_key) (\<lambda>(job, ix).
     rbind (submit_instructions env n consumer [ix]) (\<lambda>sig.
     Inr \<lparr>fe_job_account = job, fe_job_id = jid, fe_signature = sig\<rparr>))"

record job_account =
  ja_job_id :: bytes
  ja_consumer :: pubkey
  ja_provider :: pubkey
  ja_mint :: pubkey
  ja_amount :: u64
  ja_state :: u8

definition parse_job_account :: "bytes \<Rightarrow> string + job_account" where
  "parse_job_account raw =
     rbind (require (8 + 16 + 32 * 3 + 8 + 8 + 2 \<le> length raw) ''job account too small'') (\<lambda>_.
     let o1 = 8 + 16; o2 = o1 + 32; o3 = o2 + 32; o4 = o3 + 32; o5 = o4 + 8 + 8 in
     Inr \<lparr>ja_job_id = slice raw 8 (8 + 16), ja_consumer = slice raw o1 (o1 + 32), ja_provider = slice raw o2 (o2 + 32),
       ja_mint = slice raw o3 (o3 + 32), ja_amount = from_le_bytes (slice raw o4 (o4 + 8)), ja_state = raw ! o5\<rparr>)"

definition sol_fetch_job :: "sol_env \<Rightarrow> nat \<Rightarrow> pubkey \<Rightarrow> string + job_account" where
  "sol_fetch_job env n job_account =
     rbind (sol_rpc env n ''getAccountInfo'' (JArr [JStr (pubkey_str env job_account),
       JObj [(''encoding'', JStr ''base64''), (''commitment'', JStr ''confirmed'')]])) (\<lambda>v.
     rbind (ok_or (Option.bind (json_at [''result'', ''value'', ''data'', ''0''] v) json_str)
        ''escrow job account not found on-chain'') (\<lambda>data_b64.
     rbind (ok_or (so_b64_decode env data_b64) ''invalid base64'') (\<lambda>raw. parse_job_account raw)))"

definition escrow_amount :: "sol_env \<Rightarrow> nat \<Rightarrow> string \<Rightarrow> string + u64" where
  "escrow_amount env n job_account =
     rbind (parse_pubkey env job_account) (\<lambda>acct.
     rbind (sol_fetch_job env n acct) (\<lambda>job. Inr (ja_amount job)))"

definition create_idempotent_ata_ix :: "sol_env \<Rightarrow> pubkey \<Rightarrow> pubkey \<Rightarrow> pubkey \<Rightarrow> string + tx_instruction" where
  "create_idempotent_ata_ix env payer owner mint =
     rbind (associated_token_address env owner mint) (\<lambda>ata.
     rbind (parse_pubkey env TOKEN_PROGRAM) (\<lambda>token.
     rbind (parse_pubkey env ATA_PROGRAM) (\<lambda>ata_program.
     rbind (parse_pubkey env SYSTEM_PROGRAM) (\<lambda>system.
     Inr \<lparr>ix_program_id = ata_program, ix_data = [1],
       ix_accounts = [meta payer True True, meta ata False True, meta owner False False, meta mint False False,
         meta system False False, meta token False False]\<rparr>))))"

record release_result =
  rr_payout :: u64
  rr_fee :: u64
  rr_provider :: pubkey
  rr_signature :: string

definition release_result_of :: "job_account \<Rightarrow> string \<Rightarrow> release_result" where
  "release_result_of job sig =
     (let fee = protocol_fee (ja_amount job) in
      \<lparr>rr_payout = ja_amount job - fee, rr_fee = fee, rr_provider = ja_provider job, rr_signature = sig\<rparr>)"

definition release_ix :: "sol_env \<Rightarrow> pubkey \<Rightarrow> pubkey \<Rightarrow> pubkey \<Rightarrow> job_account \<Rightarrow> string + tx_instruction" where
  "release_ix env consumer escrow_program job_key job =
     rbind (pda env [as_bytes ''vault'', job_key] escrow_program) (\<lambda>vault.
     rbind (parse_pubkey env FEE_AUTHORITY_B58) (\<lambda>fee_authority.
     rbind (associated_token_address env (ja_provider job) (ja_mint job)) (\<lambda>provider_token.
     rbind (associated_token_address env fee_authority (ja_mint job)) (\<lambda>fee_token.
     rbind (parse_pubkey env TOKEN_PROGRAM) (\<lambda>token_program.
     Inr \<lparr>ix_program_id = escrow_program, ix_data = anchor_discriminator env ''release'',
       ix_accounts =
         [meta consumer True True, meta job_key False True, meta vault False True, meta provider_token False True,
          meta fee_token False True, meta escrow_program False False, meta escrow_program False False,
          meta token_program False False]\<rparr>)))))"

definition sol_release :: "sol_env \<Rightarrow> nat \<Rightarrow> keypair \<Rightarrow> pubkey \<Rightarrow> pubkey \<Rightarrow> string + release_result" where
  "sol_release env n consumer escrow_program job_key =
     rbind (sol_fetch_job env n job_key) (\<lambda>job.
     rbind (require (ja_consumer job = kp_pubkey consumer) (''only the job'' @ [CHR 0x27] @ ''s consumer can release it'')) (\<lambda>_.
     rbind (require (ja_state job = 0) ''escrow is not Active (already released/refunded)'') (\<lambda>_.
     rbind (release_ix env (kp_pubkey consumer) escrow_program job_key job) (\<lambda>ix.
     rbind (parse_pubkey env FEE_AUTHORITY_B58) (\<lambda>fee_authority.
     rbind (create_idempotent_ata_ix env (kp_pubkey consumer) (ja_provider job) (ja_mint job)) (\<lambda>ata1.
     rbind (create_idempotent_ata_ix env (kp_pubkey consumer) fee_authority (ja_mint job)) (\<lambda>ata2.
     rbind (submit_instructions env (n + 1) consumer [ata1, ata2, ix]) (\<lambda>sig.
     Inr (release_result_of job sig)))))))))"

record refund_result =
  fr_amount :: u64
  fr_consumer :: pubkey
  fr_signature :: string

definition refund_ix :: "sol_env \<Rightarrow> pubkey \<Rightarrow> pubkey \<Rightarrow> pubkey \<Rightarrow> job_account \<Rightarrow> string + tx_instruction" where
  "refund_ix env signer_key escrow_program job_key job =
     rbind (pda env [as_bytes ''vault'', job_key] escrow_program) (\<lambda>vault.
     rbind (associated_token_address env (ja_consumer job) (ja_mint job)) (\<lambda>consumer_token.
     rbind (parse_pubkey env TOKEN_PROGRAM) (\<lambda>token_program.
     Inr \<lparr>ix_program_id = escrow_program, ix_data = anchor_discriminator env ''refund'',
       ix_accounts =
         [meta signer_key True True, meta (ja_consumer job) False True, meta job_key False True, meta vault False True,
          meta consumer_token False True, meta token_program False False]\<rparr>)))"

definition sol_refund :: "sol_env \<Rightarrow> nat \<Rightarrow> keypair \<Rightarrow> pubkey \<Rightarrow> pubkey \<Rightarrow> string + refund_result" where
  "sol_refund env n kp escrow_program job_key =
     rbind (sol_fetch_job env n job_key) (\<lambda>job.
     rbind (require (ja_state job = 0) ''escrow is not Active (already released/refunded)'') (\<lambda>_.
     rbind (refund_ix env (kp_pubkey kp) escrow_program job_key job) (\<lambda>ix.
     rbind (submit_instructions env (n + 1) kp [ix]) (\<lambda>sig.
     Inr \<lparr>fr_amount = ja_amount job, fr_consumer = ja_consumer job, fr_signature = sig\<rparr>))))"

section \<open>The trustless release\<close>

definition client_result_message :: "sol_env \<Rightarrow> bytes \<Rightarrow> bytes \<Rightarrow> bytes \<Rightarrow> bytes" where
  "client_result_message env jid input output =
     CLIENT_RESULT_DOMAIN @ [0] @ as_bytes (so_uuid env jid) @ [0] @ so_sha256 env input @ [0] @ so_sha256 env output"

definition plain_ix :: "instruction \<Rightarrow> tx_instruction" where
  "plain_ix ix = instruction.extend ix \<lparr>ix_accounts = []\<rparr>"

definition release_verified_ix ::
  "sol_env \<Rightarrow> pubkey \<Rightarrow> pubkey \<Rightarrow> pubkey \<Rightarrow> job_account \<Rightarrow> bytes \<Rightarrow> bytes \<Rightarrow> string + tx_instruction" where
  "release_verified_ix env settler escrow_program job_key job input output =
     rbind (pda env [as_bytes ''vault'', job_key] escrow_program) (\<lambda>vault.
     rbind (parse_pubkey env FEE_AUTHORITY_B58) (\<lambda>fee_authority.
     rbind (associated_token_address env (ja_provider job) (ja_mint job)) (\<lambda>provider_token.
     rbind (associated_token_address env fee_authority (ja_mint job)) (\<lambda>fee_token.
     rbind (parse_pubkey env TOKEN_PROGRAM) (\<lambda>token_program.
     rbind (parse_pubkey env SYSVAR_INSTRUCTIONS) (\<lambda>instructions_sysvar.
     Inr \<lparr>ix_program_id = escrow_program,
       ix_data = anchor_discriminator env ''release_verified'' @ so_sha256 env input @ so_sha256 env output,
       ix_accounts =
         [meta settler True True, meta (ja_consumer job) False True, meta job_key False True, meta vault False True,
          meta provider_token False True, meta fee_token False True, meta escrow_program False False,
          meta escrow_program False False, meta token_program False False, meta instructions_sysvar False False]\<rparr>))))))"

definition release_verified_ixs ::
  "sol_env \<Rightarrow> pubkey \<Rightarrow> pubkey \<Rightarrow> pubkey \<Rightarrow> pubkey \<Rightarrow> job_account \<Rightarrow> bytes \<Rightarrow> bytes \<Rightarrow> bytes \<Rightarrow> string + tx_instruction list" where
  "release_verified_ixs env settler escrow_program job_key provider_node_key job input output signature =
     (let ed_ix = plain_ix (ed25519_verify_ix provider_node_key (client_result_message env (ja_job_id job) input output) signature) in
      rbind (release_verified_ix env settler escrow_program job_key job input output) (\<lambda>rel_ix.
      rbind (parse_pubkey env FEE_AUTHORITY_B58) (\<lambda>fee_authority.
      rbind (create_idempotent_ata_ix env settler (ja_provider job) (ja_mint job)) (\<lambda>ata1.
      rbind (create_idempotent_ata_ix env settler fee_authority (ja_mint job)) (\<lambda>ata2.
      Inr [ed_ix, ata1, ata2, rel_ix])))))"

definition sol_release_verified ::
  "sol_env \<Rightarrow> nat \<Rightarrow> keypair \<Rightarrow> pubkey \<Rightarrow> pubkey \<Rightarrow> pubkey \<Rightarrow> bytes \<Rightarrow> bytes \<Rightarrow> bytes \<Rightarrow> string + release_result" where
  "sol_release_verified env n settler escrow_program job_key provider_node_key input output signature =
     rbind (sol_fetch_job env n job_key) (\<lambda>job.
     rbind (require (ja_state job = 0) ''escrow is not Active'') (\<lambda>_.
     rbind (release_verified_ixs env (kp_pubkey settler) escrow_program job_key provider_node_key job input output signature) (\<lambda>ixs.
     rbind (submit_instructions env (n + 1) settler ixs) (\<lambda>sig.
     Inr (release_result_of job sig)))))"

text \<open>
  The audit harness: the attacker's signature in the second instruction, the provider's key inline in the
  first, whose offsets point to the second.
\<close>

definition spoofed_release_ixs ::
  "sol_env \<Rightarrow> pubkey \<Rightarrow> pubkey \<Rightarrow> pubkey \<Rightarrow> pubkey \<Rightarrow> pubkey \<Rightarrow> (bytes \<Rightarrow> bytes) \<Rightarrow> job_account \<Rightarrow> bytes \<Rightarrow> bytes \<Rightarrow>
   string + tx_instruction list" where
  "spoofed_release_ixs env settler escrow_program job_key provider_node_key attacker_pk attacker_sign job input output =
     (let message = client_result_message env (ja_job_id job) input output;
          attacker_sig = attacker_sign message;
          ix1 = plain_ix (ed25519_verify_ix_at attacker_pk message attacker_sig 0xFFFF);
          ix0 = plain_ix (ed25519_verify_ix_at provider_node_key message attacker_sig 1) in
      rbind (release_verified_ix env settler escrow_program job_key job input output) (\<lambda>rel_ix.
      rbind (parse_pubkey env FEE_AUTHORITY_B58) (\<lambda>fee_authority.
      rbind (create_idempotent_ata_ix env settler (ja_provider job) (ja_mint job)) (\<lambda>ata1.
      rbind (create_idempotent_ata_ix env settler fee_authority (ja_mint job)) (\<lambda>ata2.
      Inr [ix0, ix1, ata1, ata2, rel_ix])))))"

definition attempt_spoofed_release ::
  "sol_env \<Rightarrow> nat \<Rightarrow> keypair \<Rightarrow> pubkey \<Rightarrow> pubkey \<Rightarrow> pubkey \<Rightarrow> pubkey \<Rightarrow> (bytes \<Rightarrow> bytes) \<Rightarrow> bytes \<Rightarrow> bytes \<Rightarrow> string + string" where
  "attempt_spoofed_release env n settler escrow_program job_key provider_node_key attacker_pk attacker_sign input output =
     rbind (sol_fetch_job env n job_key) (\<lambda>job.
     rbind (spoofed_release_ixs env (kp_pubkey settler) escrow_program job_key provider_node_key attacker_pk attacker_sign
       job input output) (\<lambda>ixs.
     submit_instructions env (n + 1) settler ixs))"

end
