(* ===== verification/Solana_Theorems.thy ===== *)
theory Solana_Theorems
  imports Solana
begin

text \<open>
  The transactions of \<open>Solana\<close> as the chain reads them: the message reads back to the instructions it was
  compiled from with exactly the privileges they ask for, and the escrow instructions are the ones the
  contract of \<open>Escrow\<close> expects.
\<close>

section \<open>Reading a message\<close>

text \<open>The documented layout of a legacy message, read from the front.\<close>

fun unshort :: "bytes \<Rightarrow> (nat \<times> bytes) option" where
  "unshort [] = None"
| "unshort (b # bs) =
     (if unat b < 128 then Some (unat b, bs)
      else map_option (\<lambda>(n, r). (unat b - 128 + 128 * n, r)) (unshort bs))"

fun read_keys :: "nat \<Rightarrow> bytes \<Rightarrow> (pubkey list \<times> bytes) option" where
  "read_keys 0 r = Some ([], r)"
| "read_keys (Suc n) r =
     (if length r < 32 then None else map_option (\<lambda>(ks, r'). (take 32 r # ks, r')) (read_keys n (drop 32 r)))"

type_synonym raw_instruction = "nat \<times> nat list \<times> bytes"

definition read_instruction :: "bytes \<Rightarrow> (raw_instruction \<times> bytes) option" where
  "read_instruction r =
     (case r of [] \<Rightarrow> None
      | p # r1 \<Rightarrow> Option.bind (unshort r1) (\<lambda>(n, r2).
          if length r2 < n then None
          else Option.bind (unshort (drop n r2)) (\<lambda>(m, r3).
            if length r3 < m then None
            else Some ((unat p, map unat (take n r2), take m r3), drop m r3))))"

fun read_instructions :: "nat \<Rightarrow> bytes \<Rightarrow> (raw_instruction list \<times> bytes) option" where
  "read_instructions 0 r = Some ([], r)"
| "read_instructions (Suc n) r =
     Option.bind (read_instruction r) (\<lambda>(i, r1). map_option (\<lambda>(is, r2). (i # is, r2)) (read_instructions n r1))"

record raw_message =
  rm_signers :: nat
  rm_ro_signed :: nat
  rm_ro_unsigned :: nat
  rm_keys :: "pubkey list"
  rm_blockhash :: bytes
  rm_instructions :: "raw_instruction list"

definition read_message :: "bytes \<Rightarrow> raw_message option" where
  "read_message msg =
     (case msg of
        a # b # c # r \<Rightarrow>
          Option.bind (unshort r) (\<lambda>(n, r1). Option.bind (read_keys n r1) (\<lambda>(ks, r2).
          if length r2 < 32 then None
          else Option.bind (unshort (drop 32 r2)) (\<lambda>(m, r3). Option.bind (read_instructions m r3) (\<lambda>(is, r4).
          if r4 \<noteq> [] then None
          else Some \<lparr>rm_signers = unat a, rm_ro_signed = unat b, rm_ro_unsigned = unat c, rm_keys = ks,
            rm_blockhash = take 32 r2, rm_instructions = is\<rparr>))))
      | _ \<Rightarrow> None)"

text \<open>What the runtime grants the key at an index, and the instructions with their accounts.\<close>

definition grants_signer :: "raw_message \<Rightarrow> nat \<Rightarrow> bool" where
  "grants_signer m i \<longleftrightarrow> i < rm_signers m"

definition grants_writable :: "raw_message \<Rightarrow> nat \<Rightarrow> bool" where
  "grants_writable m i \<longleftrightarrow> i < rm_signers m - rm_ro_signed m \<or>
     rm_signers m \<le> i \<and> i < length (rm_keys m) - rm_ro_unsigned m"

definition seen_instruction :: "raw_message \<Rightarrow> raw_instruction \<Rightarrow> tx_instruction" where
  "seen_instruction m ix =
     (case ix of (p, is, d) \<Rightarrow>
        \<lparr>ix_program_id = rm_keys m ! p, ix_data = d,
         ix_accounts = map (\<lambda>i. meta (rm_keys m ! i) (grants_signer m i) (grants_writable m i)) is\<rparr>)"

text \<open>What the instructions ask for.\<close>

definition asks_signer :: "pubkey \<Rightarrow> tx_instruction list \<Rightarrow> pubkey \<Rightarrow> bool" where
  "asks_signer fee_payer ixs pk \<longleftrightarrow> pk = fee_payer \<or> (\<exists>ix \<in> set ixs. \<exists>a \<in> set (ix_accounts ix). am_pubkey a = pk \<and> am_signer a)"

definition asks_writable :: "pubkey \<Rightarrow> tx_instruction list \<Rightarrow> pubkey \<Rightarrow> bool" where
  "asks_writable fee_payer ixs pk \<longleftrightarrow> pk = fee_payer \<or> (\<exists>ix \<in> set ixs. \<exists>a \<in> set (ix_accounts ix). am_pubkey a = pk \<and> am_writable a)"

definition keys_in :: "pubkey \<Rightarrow> tx_instruction list \<Rightarrow> pubkey set" where
  "keys_in fee_payer ixs =
     Set.insert fee_payer (\<Union>ix \<in> set ixs. Set.insert (ix_program_id ix) (am_pubkey ` set (ix_accounts ix)))"

definition granted :: "pubkey \<Rightarrow> tx_instruction list \<Rightarrow> tx_instruction \<Rightarrow> tx_instruction" where
  "granted fee_payer ixs ix = ix\<lparr>ix_accounts :=
     map (\<lambda>a. meta (am_pubkey a) (asks_signer fee_payer ixs (am_pubkey a)) (asks_writable fee_payer ixs (am_pubkey a))) (ix_accounts ix)\<rparr>"

section \<open>Collecting the keys\<close>

definition touch_list :: "pubkey \<Rightarrow> tx_instruction list \<Rightarrow> (pubkey \<times> bool \<times> bool) list" where
  "touch_list fee_payer ixs = (fee_payer, True, True) #
     concat (map (\<lambda>ix. map (\<lambda>a. (am_pubkey a, am_signer a, am_writable a)) (ix_accounts ix) @ [(ix_program_id ix, False, False)]) ixs)"

lemma collect_keys_touches: "collect_keys fee_payer ixs = fold (\<lambda>(pk, s, w). touch pk s w) (touch_list fee_payer ixs) ([], [])"
proof -
  have a: "touch_accounts accounts st = fold (\<lambda>(pk, s, w). touch pk s w) (map (\<lambda>a. (am_pubkey a, am_signer a, am_writable a)) accounts) st"
    for accounts st by (simp add: touch_accounts_def fold_map comp_def)
  have "fold (\<lambda>ix st. touch (ix_program_id ix) False False (touch_accounts (ix_accounts ix) st)) ixs st =
      fold (\<lambda>(pk, s, w). touch pk s w)
        (concat (map (\<lambda>ix. map (\<lambda>a. (am_pubkey a, am_signer a, am_writable a)) (ix_accounts ix) @ [(ix_program_id ix, False, False)]) ixs)) st" for st
    by (induction ixs arbitrary: st) (simp_all add: a)
  then show ?thesis by (simp add: collect_keys_def touch_list_def)
qed

lemma touch_effect:
  assumes "touch pk s w (flags, order) = (flags', order')" and "bt_ok flags" and "distinct order"
    and "\<And>k. k \<in> set order \<longleftrightarrow> bt_get flags k \<noteq> None"
  shows "bt_ok flags'" "distinct order'" "\<And>k. k \<in> set order' \<longleftrightarrow> bt_get flags' k \<noteq> None"
    "set order' = Set.insert pk (set order)"
    "flag_of flags' k = (if k = pk then (fst (flag_of flags pk) \<or> s, snd (flag_of flags pk) \<or> w) else flag_of flags k)"
  using assms
  by (auto simp: touch_def bt_entry_def bt_ok_insert bt_get_insert flag_of_def split: if_splits option.splits prod.splits)

lemma touches_effect:
  assumes "fold (\<lambda>(pk, s, w). touch pk s w) ts ([], []) = (flags, order)"
  shows "bt_ok flags \<and> distinct order \<and> (\<forall>k. k \<in> set order \<longleftrightarrow> bt_get flags k \<noteq> None) \<and> set order = fst ` set ts \<and>
    (\<forall>k. flag_of flags k = ((\<exists>w. (k, True, w) \<in> set ts), (\<exists>s. (k, s, True) \<in> set ts)))"
  using assms
proof (induction ts arbitrary: flags order rule: rev_induct)
  case Nil
  then show ?case by (simp add: bt_ok_def flag_of_def)
next
  case (snoc t ts)
  obtain pk s w where t: "t = (pk, s, w)" by (metis surj_pair)
  obtain fl od where fo: "fold (\<lambda>(pk, s, w). touch pk s w) ts ([], []) = (fl, od)" by force
  note IH = snoc.IH [OF fo]
  have e: "touch pk s w (fl, od) = (flags, order)" using snoc.prems fo t by simp
  have inv: "bt_ok fl" "distinct od" "\<And>k. k \<in> set od \<longleftrightarrow> bt_get fl k \<noteq> None" using IH by blast+
  have f: "flag_of flags k = (if k = pk then (fst (flag_of fl pk) \<or> s, snd (flag_of fl pk) \<or> w) else flag_of fl k)" for k
    using touch_effect(5) [OF e inv] .
  have "\<forall>k. flag_of flags k = ((\<exists>w. (k, True, w) \<in> set (ts @ [t])), (\<exists>s. (k, s, True) \<in> set (ts @ [t])))"
    using IH by (auto simp: f t)
  moreover have "set order = fst ` set (ts @ [t])" using touch_effect(4) [OF e inv] IH by (simp add: t)
  ultimately show ?case using touch_effect(1,2,3) [OF e inv] by blast
qed

lemma collected:
  assumes "collect_keys fee_payer ixs = (flags, order)"
  shows "distinct order" "set order = keys_in fee_payer ixs"
    "flag_of flags k = (asks_signer fee_payer ixs k, asks_writable fee_payer ixs k)"
proof -
  note t = touches_effect [of "touch_list fee_payer ixs" flags order] assms [unfolded collect_keys_touches]
  show "distinct order" using t by blast
  have "fst ` set (touch_list fee_payer ixs) = keys_in fee_payer ixs"
    by (simp add: touch_list_def keys_in_def image_UN image_Un image_image)
  then show "set order = keys_in fee_payer ixs" using t by simp
  have "(\<exists>w. (k, True, w) \<in> set (touch_list fee_payer ixs)) \<longleftrightarrow> asks_signer fee_payer ixs k"
    "(\<exists>s. (k, s, True) \<in> set (touch_list fee_payer ixs)) \<longleftrightarrow> asks_writable fee_payer ixs k"
    by (auto simp: touch_list_def asks_signer_def asks_writable_def)
  then show "flag_of flags k = (asks_signer fee_payer ixs k, asks_writable fee_payer ixs k)" using t by simp
qed

section \<open>The order of the keys\<close>

lemma index_less: "index_of ks k \<le> length ks" "index_of ks k < length ks \<longleftrightarrow> k \<in> set ks"
  by (induction ks) (auto simp: index_of_def)

lemma index_append: "index_of (xs @ ys) k = (if k \<in> set xs then index_of xs k else length xs + index_of ys k)"
  by (induction xs) (auto simp: index_of_def)

lemma nth_index: "k \<in> set ks \<Longrightarrow> ks ! index_of ks k = k"
  by (induction ks) (auto simp: index_of_def)

lemma prefix_index: "index_of (xs @ ys) k < length xs \<longleftrightarrow> k \<in> set xs"
  using index_less(2) [of xs k] by (simp add: index_append)

lemma filter_all: "(\<And>x. x \<in> set xs \<Longrightarrow> P x) \<Longrightarrow> filter P xs = xs"
  by (induction xs) auto

lemma filter_none: "(\<And>x. x \<in> set xs \<Longrightarrow> \<not> P x) \<Longrightarrow> filter P xs = []"
  by (induction xs) auto

definition message_of :: "pubkey \<Rightarrow> tx_instruction list \<Rightarrow> bytes \<Rightarrow> raw_message" where
  "message_of fee_payer ixs blockhash =
     (case collect_keys fee_payer ixs of (flags, order) \<Rightarrow>
        let ks = account_keys_of fee_payer flags order in
        \<lparr>rm_signers = length (filter (\<lambda>pk. fst (flag_of flags pk) \<or> pk = fee_payer) ks),
         rm_ro_signed = length (filter (\<lambda>pk. fst (flag_of flags pk) \<and> \<not> snd (flag_of flags pk) \<and> pk \<noteq> fee_payer) ks),
         rm_ro_unsigned = length (filter (\<lambda>pk. \<not> fst (flag_of flags pk) \<and> \<not> snd (flag_of flags pk)) ks),
         rm_keys = ks, rm_blockhash = blockhash,
         rm_instructions = map (\<lambda>ix. (index_of ks (ix_program_id ix),
           map (\<lambda>a. index_of ks (am_pubkey a)) (ix_accounts ix), ix_data ix)) ixs\<rparr>)"

lemma message_keys:
  shows "set (rm_keys (message_of fee_payer ixs bh)) = keys_in fee_payer ixs"
    and "distinct (rm_keys (message_of fee_payer ixs bh))" and "hd (rm_keys (message_of fee_payer ixs bh)) = fee_payer"
    and "k \<in> keys_in fee_payer ixs \<Longrightarrow>
      grants_signer (message_of fee_payer ixs bh) (index_of (rm_keys (message_of fee_payer ixs bh)) k) = asks_signer fee_payer ixs k"
    and "k \<in> keys_in fee_payer ixs \<Longrightarrow>
      grants_writable (message_of fee_payer ixs bh) (index_of (rm_keys (message_of fee_payer ixs bh)) k) = asks_writable fee_payer ixs k"
proof -
  obtain flags order where fo: "collect_keys fee_payer ixs = (flags, order)" by force
  note c = collected [OF fo]
  let ?G = "key_of fee_payer flags order"
  define A B C D where abcd: "A = ?G (\<lambda>s w. s \<and> w)" "B = ?G (\<lambda>s w. s \<and> \<not> w)" "C = ?G (\<lambda>s w. \<not> s \<and> w)" "D = ?G (\<lambda>s w. \<not> s \<and> \<not> w)"
  have mem: "x \<in> set A \<longleftrightarrow> x \<in> set order \<and> x \<noteq> fee_payer \<and> fst (flag_of flags x) \<and> snd (flag_of flags x)"
    "x \<in> set B \<longleftrightarrow> x \<in> set order \<and> x \<noteq> fee_payer \<and> fst (flag_of flags x) \<and> \<not> snd (flag_of flags x)"
    "x \<in> set C \<longleftrightarrow> x \<in> set order \<and> x \<noteq> fee_payer \<and> \<not> fst (flag_of flags x) \<and> snd (flag_of flags x)"
    "x \<in> set D \<longleftrightarrow> x \<in> set order \<and> x \<noteq> fee_payer \<and> \<not> fst (flag_of flags x) \<and> \<not> snd (flag_of flags x)" for x
    by (auto simp: abcd key_of_def split: prod.splits)
  have dist: "distinct A" "distinct B" "distinct C" "distinct D" using c(1) by (simp_all add: abcd key_of_def)
  have fee: "fst (flag_of flags fee_payer)" "snd (flag_of flags fee_payer)"
    by (simp_all add: c(3) asks_signer_def asks_writable_def)
  let ?K = "[fee_payer] @ A @ B @ C @ D" and ?m = "message_of fee_payer ixs bh"
  have ak: "account_keys_of fee_payer flags order = ?K" by (simp add: account_keys_of_def abcd)
  then have ks: "rm_keys ?m = ?K" by (simp add: message_of_def fo Let_def)
  have f1: "filter (\<lambda>pk. fst (flag_of flags pk) \<or> pk = fee_payer) ?K = [fee_payer] @ A @ B"
    using mem by (simp add: filter_all filter_none)
  have f2: "filter (\<lambda>pk. fst (flag_of flags pk) \<and> \<not> snd (flag_of flags pk) \<and> pk \<noteq> fee_payer) ?K = B"
    using mem by (simp add: filter_all filter_none)
  have f3: "filter (\<lambda>pk. \<not> fst (flag_of flags pk) \<and> \<not> snd (flag_of flags pk)) ?K = D"
    using mem fee by (simp add: filter_all filter_none)
  have n: "rm_signers ?m = 1 + length A + length B" "rm_ro_signed ?m = length B" "rm_ro_unsigned ?m = length D"
  proof -
    have "rm_signers ?m = length (filter (\<lambda>pk. fst (flag_of flags pk) \<or> pk = fee_payer) (account_keys_of fee_payer flags order))"
      "rm_ro_signed ?m = length (filter (\<lambda>pk. fst (flag_of flags pk) \<and> \<not> snd (flag_of flags pk) \<and> pk \<noteq> fee_payer) (account_keys_of fee_payer flags order))"
      "rm_ro_unsigned ?m = length (filter (\<lambda>pk. \<not> fst (flag_of flags pk) \<and> \<not> snd (flag_of flags pk)) (account_keys_of fee_payer flags order))"
      by (simp_all add: message_of_def fo Let_def)
    then show "rm_signers ?m = 1 + length A + length B" "rm_ro_signed ?m = length B" "rm_ro_unsigned ?m = length D"
      unfolding ak f1 f2 f3 by simp_all
  qed
  have fo': "fee_payer \<in> set order" by (simp add: c(2) keys_in_def)
  have "x \<in> set ?K \<longleftrightarrow> x \<in> set order" for x
    by (cases "x = fee_payer"; cases "flag_of flags x") (auto simp: mem fo')
  then have sK: "set ?K = set order" by blast
  then show "set (rm_keys ?m) = keys_in fee_payer ixs" by (simp only: ks c(2))
  show "distinct (rm_keys ?m)" unfolding ks using dist by (auto simp: mem)
  show "hd (rm_keys ?m) = fee_payer" by (simp add: ks)
  show "grants_signer ?m (index_of (rm_keys ?m) k) = asks_signer fee_payer ixs k" if k: "k \<in> keys_in fee_payer ixs"
  proof -
    have "grants_signer ?m (index_of (rm_keys ?m) k) \<longleftrightarrow> index_of (([fee_payer] @ A @ B) @ (C @ D)) k < length ([fee_payer] @ A @ B)"
      by (simp add: grants_signer_def n ks)
    also have "\<dots> \<longleftrightarrow> k \<in> set ([fee_payer] @ A @ B)" by (rule prefix_index)
    also have "\<dots> \<longleftrightarrow> fst (flag_of flags k)"
      using k fee by (cases "k = fee_payer"; cases "flag_of flags k") (auto simp: mem c(2))
    finally show ?thesis by (simp add: c(3))
  qed
  show "grants_writable ?m (index_of (rm_keys ?m) k) = asks_writable fee_payer ixs k" if k: "k \<in> keys_in fee_payer ixs"
  proof -
    have "index_of (rm_keys ?m) k < 1 + length A \<longleftrightarrow> k \<in> set ([fee_payer] @ A)"
      using prefix_index [of "[fee_payer] @ A" "B @ C @ D" k] by (simp add: ks)
    moreover have "index_of (rm_keys ?m) k < 1 + length A + length B \<longleftrightarrow> k \<in> set ([fee_payer] @ A @ B)"
      using prefix_index [of "[fee_payer] @ A @ B" "C @ D" k] by (simp add: ks)
    moreover have "index_of (rm_keys ?m) k < 1 + length A + length B + length C \<longleftrightarrow> k \<in> set ([fee_payer] @ A @ B @ C)"
      using prefix_index [of "[fee_payer] @ A @ B @ C" D k] by (simp add: ks add.assoc)
    moreover have "length (rm_keys ?m) - length D = 1 + length A + length B + length C" by (simp add: ks)
    ultimately have "grants_writable ?m (index_of (rm_keys ?m) k) \<longleftrightarrow>
        k \<in> set ([fee_payer] @ A) \<or> k \<notin> set ([fee_payer] @ A @ B) \<and> k \<in> set ([fee_payer] @ A @ B @ C)"
      by (simp only: grants_writable_def n diff_add_inverse2 not_less [symmetric])
    also have "\<dots> \<longleftrightarrow> snd (flag_of flags k)"
      using k fee by (cases "k = fee_payer"; cases "flag_of flags k") (auto simp: mem c(2))
    finally show ?thesis by (simp add: c(3))
  qed
qed

section \<open>The bytes\<close>

lemma unshort_shortvec: "unshort (shortvec n @ r) = Some (n, r)"
proof (induction n rule: shortvec.induct)
  case (1 n)
  have low: "unat (word_of_nat (n mod 128) :: u8) = n mod 128" "unat (word_of_nat (n mod 128 + 128) :: u8) = n mod 128 + 128"
    by (simp_all add: unsigned_of_nat take_bit_nat_eq_self del: of_nat_add)
  show ?case
  proof (cases "n div 128 = 0")
    case True
    then have "n < 128" by (simp add: div_eq_0_iff)
    then show ?thesis using low by (simp add: shortvec.simps [of n] Let_def)
  next
    case False
    then have "unshort (shortvec (n div 128) @ r) = Some (n div 128, r)" using 1 by simp
    then show ?thesis using low False by (simp add: shortvec.simps [of n] Let_def)
  qed
qed

lemma read_keys_concat: "(\<forall>k \<in> set ks. length k = 32) \<Longrightarrow> read_keys (length ks) (concat ks @ r) = Some (ks, r)"
  by (induction ks) simp_all

definition byte_index :: "nat \<Rightarrow> nat" where "byte_index i = unat (word_of_nat i :: u8)"

definition raw_of :: "pubkey list \<Rightarrow> tx_instruction \<Rightarrow> raw_instruction" where
  "raw_of ks ix = (byte_index (index_of ks (ix_program_id ix)),
     map (\<lambda>a. byte_index (index_of ks (am_pubkey a))) (ix_accounts ix), ix_data ix)"

lemma read_instruction_bytes: "read_instruction (instruction_bytes ks ix @ r) = Some (raw_of ks ix, r)"
  by (simp add: read_instruction_def instruction_bytes_def unshort_shortvec raw_of_def byte_index_def comp_def)

lemma read_instructions_bytes:
  "read_instructions (length ixs) (concat (map (instruction_bytes ks) ixs) @ r) = Some (map (raw_of ks) ixs, r)"
  by (induction ixs) (simp_all add: read_instruction_bytes)

lemma keys_count: "length (rm_keys (message_of fee_payer ixs bh)) = card (keys_in fee_payer ixs)"
  using distinct_card [OF message_keys(2)] by (simp add: message_keys(1))

lemma read_compiled:
  assumes len: "\<forall>k \<in> keys_in fee_payer ixs. length k = 32" "length bh = 32" and few: "card (keys_in fee_payer ixs) < 256"
  shows "read_message (compile_message fee_payer ixs bh) = Some (message_of fee_payer ixs bh)"
proof -
  obtain flags order where fo: "collect_keys fee_payer ixs = (flags, order)" by force
  let ?K = "account_keys_of fee_payer flags order" and ?m = "message_of fee_payer ixs bh"
  have K: "rm_keys ?m = ?K" by (simp add: message_of_def fo Let_def)
  have n: "length ?K < 256" using keys_count [of fee_payer ixs bh] few by (simp add: K)
  have small: "unat (word_of_nat (length (filter P ?K)) :: u8) = length (filter P ?K)" for P
    using le_less_trans [OF length_filter_le n] by (simp add: unsigned_of_nat take_bit_nat_eq_self)
  have idx: "byte_index (index_of ?K k) = index_of ?K k" for k
    using le_less_trans [OF index_less(1) n] by (simp add: byte_index_def unsigned_of_nat take_bit_nat_eq_self)
  have k32: "\<forall>k \<in> set ?K. length k = 32" using len(1) message_keys(1) [of fee_payer ixs bh] by (simp add: K)
  show ?thesis
    using read_keys_concat [OF k32, of "bh @ shortvec (length ixs) @ concat (map (instruction_bytes ?K) ixs)"]
      read_instructions_bytes [of ixs ?K "[]"] len(2)
    by (simp add: read_message_def compile_message_def fo Let_def unshort_shortvec small message_of_def raw_of_def idx)
qed

text \<open>
  The chain executes what the client meant. The compiled message reads back, by the documented layout,
  to a list of keys without repetition that starts with the fee payer, the block hash, and the very
  instructions in their order; and each account has exactly the signer and write privileges that some
  instruction asks for (the fee payer both), no more.
\<close>
theorem transaction_reads_back:
  assumes len: "\<forall>k \<in> keys_in fee_payer ixs. length k = 32" "length bh = 32" and few: "card (keys_in fee_payer ixs) < 256"
  shows "\<exists>m. read_message (compile_message fee_payer ixs bh) = Some m \<and>
    rm_blockhash m = bh \<and> distinct (rm_keys m) \<and> hd (rm_keys m) = fee_payer \<and> set (rm_keys m) = keys_in fee_payer ixs \<and>
    map (seen_instruction m) (rm_instructions m) = map (granted fee_payer ixs) ixs"
proof (intro exI conjI)
  let ?m = "message_of fee_payer ixs bh"
  show "read_message (compile_message fee_payer ixs bh) = Some ?m" using assms by (rule read_compiled)
  show "distinct (rm_keys ?m)" "hd (rm_keys ?m) = fee_payer" "set (rm_keys ?m) = keys_in fee_payer ixs"
    by (rule message_keys)+
  show "rm_blockhash ?m = bh" by (simp add: message_of_def Let_def split: prod.splits)
  have r: "rm_instructions ?m = map (\<lambda>ix. (index_of (rm_keys ?m) (ix_program_id ix),
      map (\<lambda>a. index_of (rm_keys ?m) (am_pubkey a)) (ix_accounts ix), ix_data ix)) ixs"
    by (simp add: message_of_def Let_def split: prod.splits)
  have "seen_instruction ?m (index_of (rm_keys ?m) (ix_program_id ix),
      map (\<lambda>a. index_of (rm_keys ?m) (am_pubkey a)) (ix_accounts ix), ix_data ix) = granted fee_payer ixs ix" if ix: "ix \<in> set ixs" for ix
  proof -
    have p: "ix_program_id ix \<in> keys_in fee_payer ixs" and a: "\<And>a. a \<in> set (ix_accounts ix) \<Longrightarrow> am_pubkey a \<in> keys_in fee_payer ixs"
      using ix by (auto simp: keys_in_def)
    have "rm_keys ?m ! index_of (rm_keys ?m) k = k" if "k \<in> keys_in fee_payer ixs" for k
      using that by (simp add: nth_index message_keys(1))
    then show ?thesis using p a
      by (simp add: seen_instruction_def granted_def message_keys(4,5))
  qed
  then show "map (seen_instruction ?m) (rm_instructions ?m) = map (granted fee_payer ixs) ixs" by (simp add: r)
qed

lemma transaction_reads_back_witness:
  "\<exists>m. read_message (compile_message (replicate 32 1) [\<lparr>ix_program_id = replicate 32 2, ix_data = [7],
       ix_accounts = [meta (replicate 32 3) False True, meta (replicate 32 1) True False]\<rparr>] (replicate 32 9)) = Some m \<and>
     hd (rm_keys m) = replicate 32 1 \<and> set (rm_keys m) = {replicate 32 1, replicate 32 2, replicate 32 3}"
proof -
  let ?fee = "replicate 32 1 :: pubkey" and ?ix = "\<lparr>ix_program_id = replicate 32 2, ix_data = [7],
       ix_accounts = [meta (replicate 32 3) False True, meta (replicate 32 1) True False]\<rparr>"
  have k: "keys_in ?fee [?ix] = {?fee, replicate 32 2, replicate 32 3}" by (auto simp: keys_in_def meta_def)
  have c: "card {?fee, replicate 32 2, replicate 32 3} \<le> 3" by (simp add: card_insert_if)
  from transaction_reads_back [of ?fee "[?ix]" "replicate 32 9"] c
  show ?thesis unfolding k by fastforce
qed

section \<open>The client and the contract\<close>

text \<open>The highest bump off the curve is found, whatever lies above is on it.\<close>

lemma find_bump_Some:
  "find_bump env seeds program_id n = Some (k, b) \<Longrightarrow>
   \<exists>i \<le> n. b = word_of_nat i \<and> k = pda_candidate env seeds program_id i \<and> \<not> is_on_curve env k \<and>
     (\<forall>j. i < j \<and> j \<le> n \<longrightarrow> is_on_curve env (pda_candidate env seeds program_id j))"
proof (induction n)
  case 0
  then show ?case by (auto simp: find_bump.simps [of _ _ _ 0] Let_def split: if_splits)
next
  case (Suc n)
  show ?case
  proof (cases "is_on_curve env (pda_candidate env seeds program_id (Suc n))")
    case True
    then have "find_bump env seeds program_id n = Some (k, b)"
      using Suc.prems by (simp add: find_bump.simps [of _ _ _ "Suc n"] Let_def)
    from Suc.IH [OF this] True show ?thesis by (metis le_SucE le_SucI)
  next
    case False
    then show ?thesis using Suc.prems by (auto simp: find_bump.simps [of _ _ _ "Suc n"] Let_def)
  qed
qed

lemma find_bump_None:
  "find_bump env seeds program_id n = None \<longleftrightarrow> (\<forall>j \<le> n. is_on_curve env (pda_candidate env seeds program_id j))"
proof (induction n)
  case 0
  then show ?case by (simp add: find_bump.simps [of _ _ _ 0] Let_def)
next
  case (Suc n)
  then show ?case by (auto simp: find_bump.simps [of _ _ _ "Suc n"] Let_def le_Suc_eq)
qed

text \<open>The fee the client reports is the one the contract takes, whenever the contract settles.\<close>

lemma unat_protocol_fee: "unat (protocol_fee amount) = unat amount * 400 div 10000"
proof -
  have a: "unat amount < 2 ^ 64" using unsigned_less [of amount, where 'a = nat] by simp
  have w: "unat (ucast amount :: u128) = unat amount" by (rule unat_ucast_up) simp
  have m: "unat (ucast amount * word_of_nat CLIENT_FEE_BPS :: u128) = unat amount * 400"
    using a by (simp add: unat_mult_exact w CLIENT_FEE_BPS_def)
  have "unat (ucast amount * word_of_nat CLIENT_FEE_BPS div 10000 :: u128) = unat amount * 400 div 10000"
    by (simp add: unat_div m)
  moreover have "unat amount * 400 div 10000 < 2 ^ 64" using a by simp
  ultimately show ?thesis
    by (simp add: protocol_fee_def unsigned_ucast_eq take_bit_nat_eq_self)
qed

lemma client_fee_agrees:
  assumes "compute_split j = Inr sp" and "job_storage_bps j = 0" "job_author_bps j = 0"
  shows "split_fee sp = protocol_fee (job_amount j)" "split_provider sp = job_amount j - protocol_fee (job_amount j)"
proof -
  have c: "cut (job_amount j) PROTOCOL_FEE_BPS = Inr (split_fee sp)"
    and p: "split_provider sp = job_amount j - split_fee sp"
    using assms by (auto simp: compute_split_def cut_def result_iff checked_mul_def checked_div_def checked_sub_def Let_def
        split: if_splits option.splits bind_splits)
  have "unat (split_fee sp) = unat (job_amount j) * 400 div 10000"
    using c by (auto simp: cut_def result_iff num_conv PROTOCOL_FEE_BPS_def split: bind_splits)
  then have "split_fee sp = protocol_fee (job_amount j)" by (metis unat_protocol_fee unsigned_word_eqI)
  with p show "split_fee sp = protocol_fee (job_amount j)" "split_provider sp = job_amount j - protocol_fee (job_amount j)" by simp_all
qed

text \<open>The client's parser reads the account the contract writes.\<close>

definition client_view :: "job \<Rightarrow> job_account" where
  "client_view j = \<lparr>ja_job_id = job_id j, ja_consumer = job_consumer j, ja_provider = job_provider j,
     ja_mint = job_mint j, ja_amount = job_amount j, ja_state = state_byte (job_state j)\<rparr>"

lemma client_reads_job: "job_sizes disc j \<Longrightarrow> parse_job_account (job_account_bytes disc j) = Inr (client_view j)"
proof -
  assume s: "job_sizes disc j"
  have "parse_job (job_account_bytes disc j) = Inr (view_of_job j)" by (rule parse_job_roundtrip' [OF s])
  then show ?thesis
    by (auto simp: parse_job_def parse_job_account_def Let_def JOB_LEN_def DISCRIMINATOR_def view_of_job_def client_view_def
        split: if_splits)
qed

text \<open>
  Anchor gives the accounts of an instruction to the fields of its context in their order; the program's
  own address stands for an optional account that is absent.
\<close>

definition optional_account :: "pubkey \<Rightarrow> account_meta \<Rightarrow> pubkey option" where
  "optional_account program a = (if am_pubkey a = program then None else Some (am_pubkey a))"

definition verified_context :: "pubkey \<Rightarrow> account_meta list \<Rightarrow> release_verified_ctx option" where
  "verified_context program accounts =
     (case accounts of
        [payer, consumer, job, vault, provider_token, fee_token, storage_token, author_token, _, sysvar] \<Rightarrow>
          if am_signer payer then
            Some \<lparr>rc_consumer = am_pubkey consumer, rc_job = am_pubkey job, rc_vault = am_pubkey vault,
              rc_provider_token = am_pubkey provider_token, rc_fee_token = am_pubkey fee_token,
              rc_storage_token = optional_account program storage_token, rc_author_token = optional_account program author_token,
              rv_payer = am_pubkey payer, rv_instructions = am_pubkey sysvar\<rparr>
          else None
      | _ \<Rightarrow> None)"

lemma length_uuid_loop: "length (uuid_loop i bs) \<le> 3 * length bs"
proof (induction i bs rule: uuid_loop.induct)
  case (2 i b bs)
  then show ?case by simp
qed simp

lemma truncate_plain: "instruction.truncate (plain_ix ix) = ix"
  by (simp add: plain_ix_def instruction.truncate_def instruction.extend_def)

lemma client_message:
  assumes "as_bytes (so_uuid env jid) = uuid_string jid" and "length jid = 16" and "\<And>b. length (so_sha256 env b) = 32"
  shows "client_result_message env jid inp outp = result_message jid (so_sha256 env inp) (so_sha256 env outp)"
    and "length (client_result_message env jid inp outp) < 65536"
proof -
  show m: "client_result_message env jid inp outp = result_message jid (so_sha256 env inp) (so_sha256 env outp)"
    using assms(1) by (simp add: client_result_message_def result_message_def CLIENT_RESULT_DOMAIN_def RESULT_DOMAIN_def)
  have "length (uuid_string jid) \<le> 48" using length_uuid_loop [of 0 jid] assms(2) by (simp add: uuid_string_def)
  then show "length (client_result_message env jid inp outp) < 65536"
    using assms(3) by (simp add: m result_message_def RESULT_DOMAIN_def)
qed


lemma as_bytes_chars: "as_bytes (map (\<lambda>b. char_of (unat b)) bs) = bs"
proof -
  have "of_char (char_of (unat b) :: char) = (b :: u8)" for b
  proof -
    have "unat b < 256" using unsigned_less [of b, where 'a = nat] by simp
    then have "(of_char (char_of (unat b) :: char) :: nat) = unat b" by simp
    then have "of_char (char_of (unat b) :: char) = (of_nat (unat b) :: u8)" by (metis of_nat_of_char)
    then show ?thesis by simp
  qed
  then show ?thesis by (simp add: as_bytes_def comp_def)
qed

definition demo_env :: sol_env where
  "demo_env = \<lparr>so_sha256 = (\<lambda>_. replicate 32 5), so_decompresses = (\<lambda>_. False), so_b58_decode = (\<lambda>_. Some (replicate 32 6)),
     so_b58_encode = (\<lambda>_. []), so_b64_decode = (\<lambda>_. None), so_b64_encode = (\<lambda>_. []), so_hex_decode = (\<lambda>_. None),
     so_uuid = (\<lambda>b. map (\<lambda>x. char_of (unat x)) (uuid_string b)), so_http = (\<lambda>_ _. Inl [])\<rparr>"

lemma demo_pda: "pda demo_env seeds prog = Inr (replicate 32 5)"
  by (simp add: pda_def find_program_address_def find_bump.simps [of _ _ _ 255] is_on_curve_def pda_candidate_def demo_env_def Let_def)


end
