(* ===== verification/Signing.thy ===== *)
theory Signing
  imports Signatures
begin

text \<open>
  The signing side of \<open>crates/common/src/sig.rs\<close>. The secret key of a node, hex and JSON are the parameter
  \<open>signer\<close>; \<open>signer_ok\<close> says what the verifying side relies on: the public name parses to the key, hex
  decodes back, a signature verifies under the key for the message signed; \<open>json_reads_back\<close> that JSON
  gives back the value written.
\<close>

record signer =
  sg_public :: string
  sg_sign :: "bytes \<Rightarrow> bytes"
  sg_hex :: "bytes \<Rightarrow> string"
  sg_announcement_json :: "provider_announcement \<Rightarrow> string"
  sg_scores_json :: "(string \<times> f64) list \<Rightarrow> string"

definition sign_result :: "signer \<Rightarrow> ('k, 's) crypto \<Rightarrow> string \<Rightarrow> bytes \<Rightarrow> bytes \<Rightarrow> string" where
  "sign_result sg cr job_id input output = sg_hex sg (sg_sign sg (signing_payload cr job_id input output))"

definition sign_announcement :: "signer \<Rightarrow> provider_announcement \<Rightarrow> i64 \<Rightarrow> signed_payload" where
  "sign_announcement sg announcement issued_at =
     (let payload = sg_announcement_json sg announcement in
      \<lparr>sp_payload = payload, sp_issued_at = issued_at, sp_signed_by = sg_public sg,
       sp_signature = sg_hex sg (sg_sign sg (announce_signing_payload issued_at payload))\<rparr>)"

definition sign_reputation :: "signer \<Rightarrow> (string \<times> f64) list \<Rightarrow> i64 \<Rightarrow> signed_payload" where
  "sign_reputation sg scores issued_at =
     (let payload = sg_scores_json sg scores in
      \<lparr>sp_payload = payload, sp_issued_at = issued_at, sp_signed_by = sg_public sg,
       sp_signature = sg_hex sg (sg_sign sg (reputation_signing_payload issued_at payload))\<rparr>)"

definition signer_ok :: "('k, 's) crypto \<Rightarrow> signer \<Rightarrow> 'k \<Rightarrow> bool" where
  "signer_ok cr sg key \<longleftrightarrow>
     cr_parse_key cr (sg_public sg) = Some key \<and>
     (\<forall>bs. cr_hex_decode cr (sg_hex sg bs) = Some bs) \<and>
     (\<forall>msg. \<exists>s. cr_sig_of_bytes cr (sg_sign sg msg) = Some s \<and> cr_verify cr key msg s)"

definition json_reads_back :: "('k, 's) crypto \<Rightarrow> signer \<Rightarrow> provider_announcement \<Rightarrow> (string \<times> f64) list \<Rightarrow> bool" where
  "json_reads_back cr sg a scores \<longleftrightarrow>
     cr_announcement_of_json cr (sg_announcement_json sg a) = Inr a \<and>
     cr_scores_of_json cr (sg_scores_json sg scores) = Inr scores"

lemma signed_checks:
  assumes "signer_ok cr sg key"
  shows "check_signature cr (sg_public sg) (sg_hex sg (sg_sign sg msg)) msg e = Inr ()"
proof -
  obtain s where "cr_sig_of_bytes cr (sg_sign sg msg) = Some s" "cr_verify cr key msg s"
    using assms by (auto simp: signer_ok_def)
  then show ?thesis using assms by (auto simp: check_signature_def signer_ok_def)
qed

text \<open>
  What a node signs, everyone accepts. A result signed by a node verifies under its key for the
  same job, input and output; an announcement of its own identity is read back unchanged for three
  minutes (and up to thirty seconds early), a directory's scores for ten minutes when the consumer
  dialed that directory.
\<close>
theorem signed_is_accepted:
  assumes ok: "signer_ok cr sg key" and js: "json_reads_back cr sg a scores"
  shows "verify_result cr key job_id input output (sign_result sg cr job_id input output) \<and>
    (pa_identity a = sg_public sg \<and> sint t - 30 \<le> sint now \<and> sint now \<le> sint t + 180 \<longrightarrow>
       verify_announcement cr (sign_announcement sg a t) now = Inr a) \<and>
    (sint t - 30 \<le> sint now \<and> sint now \<le> sint t + 600 \<longrightarrow>
       verify_reputation cr (sign_reputation sg scores t) (sg_public sg) now = Inr scores)"
proof (intro conjI impI)
  obtain s where "cr_sig_of_bytes cr (sg_sign sg (signing_payload cr job_id input output)) = Some s"
    "cr_verify cr key (signing_payload cr job_id input output) s"
    using ok by (auto simp: signer_ok_def)
  then show "verify_result cr key job_id input output (sign_result sg cr job_id input output)"
    using ok by (auto simp: verify_result_def sign_result_def signer_ok_def)
next
  assume a: "pa_identity a = sg_public sg \<and> sint t - 30 \<le> sint now \<and> sint now \<le> sint t + 180"
  have "\<not> sint ANNOUNCE_TTL_SECS < sint (s_saturating_sub now t)" "\<not> sint ANNOUNCE_MAX_SKEW_SECS < sint (s_saturating_sub t now)"
    using a by (auto simp: sint_saturating_sub s_clamp_def s_min_def s_max_def)
  then show "verify_announcement cr (sign_announcement sg a t) now = Inr a"
    using signed_checks [OF ok] js a
    by (simp add: verify_announcement_def sign_announcement_def Let_def json_reads_back_def)
next
  assume a: "sint t - 30 \<le> sint now \<and> sint now \<le> sint t + 600"
  have "\<not> sint REPUTATION_TTL_SECS < sint (s_saturating_sub now t)" "\<not> sint ANNOUNCE_MAX_SKEW_SECS < sint (s_saturating_sub t now)"
    using a by (auto simp: REPUTATION_TTL_SECS_def sint_saturating_sub s_clamp_def s_min_def s_max_def)
  then show "verify_reputation cr (sign_reputation sg scores t) (sg_public sg) now = Inr scores"
    using signed_checks [OF ok] js
    by (simp add: verify_reputation_def sign_reputation_def Let_def json_reads_back_def)
qed

text \<open>A signer and its verification: the signature is the message, hex the bytes as they are.\<close>

definition plain_signer :: signer where
  "plain_signer = \<lparr>sg_public = ''n'', sg_sign = (\<lambda>m. m), sg_hex = map (\<lambda>b. char_of (unat b)),
     sg_announcement_json = (\<lambda>_. []), sg_scores_json = (\<lambda>_. [])\<rparr>"

definition plain_crypto :: "provider_announcement \<Rightarrow> (string, bytes) crypto" where
  "plain_crypto a = \<lparr>cr_sha256 = (\<lambda>_. []), cr_parse_key = (\<lambda>s. Some s), cr_key_of_bytes = (\<lambda>_. None),
     cr_hex_decode = (\<lambda>s. Some (as_bytes s)), cr_sig_of_bytes = (\<lambda>b. Some b), cr_verify = (\<lambda>k m s. m = s),
     cr_announcement_of_json = (\<lambda>_. Inr a), cr_scores_of_json = (\<lambda>_. Inr [])\<rparr>"

lemma plain_ok: "signer_ok (plain_crypto a) plain_signer ''n''"
proof -
  have c: "of_char (char_of (unat b) :: char) = (b :: u8)" for b
  proof -
    have "unat b < 256" using unsigned_less [of b, where 'a = nat] by simp
    then have "(of_char (char_of (unat b) :: char) :: nat) = unat b" by simp
    then have "of_char (char_of (unat b) :: char) = (of_nat (unat b) :: u8)" by (metis of_nat_of_char)
    then show ?thesis by simp
  qed
  show ?thesis by (simp add: signer_ok_def plain_crypto_def plain_signer_def as_bytes_def comp_def c)
qed

lemma signed_is_accepted_witness:
  "\<exists>a :: provider_announcement. verify_announcement (plain_crypto a) (sign_announcement plain_signer a 1000) 1100 = Inr a"
proof -
  define a :: provider_announcement where
    "a = \<lparr>pa_identity = ''n'', pa_resources = demo_machine, pa_capabilities = [], pa_region = None, pa_price = 5,
       pa_reputation = Fin 0, pa_utilization = Fin 0, pa_health = Healthy, pa_served_models = [''llama-ep''], pa_warm_models = []\<rparr>"
  have "json_reads_back (plain_crypto a) plain_signer a []" by (simp add: json_reads_back_def plain_crypto_def)
  from signed_is_accepted [OF plain_ok this, where t = 1000 and now = 1100]
  have "verify_announcement (plain_crypto a) (sign_announcement plain_signer a 1000) 1100 = Inr a"
    by (simp add: a_def plain_signer_def)
  then show ?thesis by blast
qed

end
