(* ===== verification/Sdk.thy ===== *)
theory Sdk
  imports Cluster P2p Solana_Theorems Signing
begin

text \<open>
  The consumer's library, \<open>crates/sdk/src/lib.rs\<close>: quotes, payment payloads, the options of a submission
  and the client, which trusts a result only with the signature of the node it dialed. The network and
  the chain are functions of the history of what this machine did; keys, clocks, UUIDs, base64 and JSON
  text are parameters. The \<open>params\<close> of a job are always empty here and left out.
\<close>

section \<open>The world of a consumer\<close>

datatype chain_call =
    ChCreate pubkey pubkey pubkey u64 i64 bytes pubkey
  | ChRelease pubkey pubkey
  | ChReleaseVerified pubkey pubkey pubkey bytes bytes bytes
  | ChRefund pubkey pubkey
  | ChAmount string

datatype net_event =
    EvConnect string
  | EvAsk string request
  | EvChain string chain_call
  | EvRefundable "string list" string

record ('k, 's) net_env =
  nt_crypto :: "('k, 's) crypto"
  nt_key_text :: "'k \<Rightarrow> string"
  nt_dial :: "net_event list \<Rightarrow> string \<Rightarrow> string + unit"
  nt_ask :: "net_event list \<Rightarrow> string \<Rightarrow> request \<Rightarrow> string + response"
  nt_uuid :: "net_event list \<Rightarrow> bytes"
  nt_uuid_text :: "bytes \<Rightarrow> string"
  nt_uuid_parse :: "string \<Rightarrow> bytes option"
  nt_now :: "net_event list \<Rightarrow> i64"
  nt_var :: environment
  nt_default_directory :: string
  nt_pubkey :: "string option"
  nt_json_text :: "json \<Rightarrow> string"
  nt_json_parse :: "bytes \<Rightarrow> json option"
  nt_b64_encode :: "bytes \<Rightarrow> string"
  nt_b64_decode :: "string \<Rightarrow> bytes option"
  nt_hex_encode :: "bytes \<Rightarrow> string"
  nt_utf8 :: "bytes \<Rightarrow> string option"
  nt_sol :: "string \<Rightarrow> sol_env"
  nt_keypair :: "net_event list \<Rightarrow> string \<Rightarrow> string + keypair"
  nt_default_keypair :: string
  nt_failure_text :: "vm_failure \<Rightarrow> string"
  nt_show_f64 :: "f64 \<Rightarrow> string"

type_synonym ('e, 'a) nio = "(net_event list, 'e, 'a) hio"

section \<open>Payment payloads\<close>

definition x402_network :: "('k, 's) net_env \<Rightarrow> string" where
  "x402_network env = sc_x402_network (from_env_or_devnet (nt_var env))"

definition optional_str :: "string option \<Rightarrow> json" where
  "optional_str v = (case v of Some s \<Rightarrow> JStr s | None \<Rightarrow> JNull)"

definition demo_payment_payload :: "('k, 's) net_env \<Rightarrow> string" where
  "demo_payment_payload env = nt_b64_encode env (as_bytes (nt_json_text env (JObj [
     (''x402Version'', JInt 1), (''scheme'', JStr ''exact''), (''network'', JStr (x402_network env)),
     (''payload'', JObj [(''from'', optional_str (nt_pubkey env)),
        (''note'', JStr ''demo payment - settlement via Cloudiy escrow (devnet)'')])])))"

definition escrow_payload :: "('k, 's) net_env \<Rightarrow> string \<Rightarrow> string \<Rightarrow> i64 \<Rightarrow> json" where
  "escrow_payload env escrow_account consumer_sig expiry = JObj [
     (''x402Version'', JInt 1), (''scheme'', JStr ''exact''), (''network'', JStr (x402_network env)),
     (''escrow'', JStr escrow_account), (''consumer_sig'', JStr consumer_sig), (''expiry'', JInt (sint expiry))]"

definition escrow_payment_payload :: "('k, 's) net_env \<Rightarrow> string \<Rightarrow> string \<Rightarrow> i64 \<Rightarrow> string" where
  "escrow_payment_payload env escrow_account consumer_sig expiry =
     nt_b64_encode env (as_bytes (nt_json_text env (escrow_payload env escrow_account consumer_sig expiry)))"

section \<open>Quotes, results, options\<close>

record quote =
  qu_price_micro_usdc :: u64
  qu_pay_to :: string
  qu_asset :: string
  qu_network :: string
  qu_escrow_program :: string
  qu_raw :: json

definition price_usdc :: "quote \<Rightarrow> f64" where
  "price_usdc q = fdiv (f_of_u64 (qu_price_micro_usdc q)) (f_lit 1000000)"

definition quote_parse :: "json \<Rightarrow> quote" where
  "quote_parse raw =
     (let offer = jfirst (jfield raw ''accepts'') in
      \<lparr>qu_price_micro_usdc = or_default 0 (Option.bind (json_str (jfield offer ''maxAmountRequired'')) parse_word),
       qu_pay_to = jtext (jfield offer ''payTo''), qu_asset = jtext (jfield offer ''asset''),
       qu_network = jtext (jfield offer ''network''),
       qu_escrow_program = jtext (jfield (jfield offer ''extra'') ''escrowProgram''), qu_raw = raw\<rparr>)"

record job_result =
  jo_job_id :: string
  jo_output :: bytes
  jo_signature_verified :: bool
  jo_receipt :: "json option"
  jo_provider :: "string option"
  jo_signature :: "string option"
  jo_signed_by :: "string option"

datatype submit_error = SubPaymentRequired quote | SubBadSignature | SubProvider string | SubTransport string

definition submit_error_text :: "('k, 's) net_env \<Rightarrow> submit_error \<Rightarrow> string" where
  "submit_error_text env e =
     (case e of
        SubPaymentRequired q \<Rightarrow> ''payment required: '' @ nt_show_f64 env (price_usdc q) @ '' USDC to '' @ qu_pay_to q
      | SubBadSignature \<Rightarrow> ''result signature invalid or missing - refusing to trust output''
      | SubProvider m \<Rightarrow> ''provider error: '' @ m
      | SubTransport m \<Rightarrow> m)"

record submit_options =
  op_kernel :: string
  op_data :: bytes
  op_token :: "string option"
  op_payment :: "string option"
  op_job_id :: "string option"
  op_require_signature :: bool

definition opts_kernel :: "string \<Rightarrow> bytes \<Rightarrow> submit_options" where
  "opts_kernel k d = \<lparr>op_kernel = k, op_data = d, op_token = None, op_payment = None, op_job_id = None, op_require_signature = True\<rparr>"

definition opts_token :: "string \<Rightarrow> submit_options \<Rightarrow> submit_options" where
  "opts_token t o1 = o1\<lparr>op_token := Some t\<rparr>"

definition opts_payment :: "string \<Rightarrow> submit_options \<Rightarrow> submit_options" where
  "opts_payment p o1 = o1\<lparr>op_payment := Some p\<rparr>"

definition opts_job_id :: "string \<Rightarrow> submit_options \<Rightarrow> submit_options" where
  "opts_job_id i o1 = o1\<lparr>op_job_id := Some i\<rparr>"

definition opts_demo_payment :: "('k, 's) net_env \<Rightarrow> submit_options \<Rightarrow> submit_options" where
  "opts_demo_payment env o1 = o1\<lparr>op_payment := Some (demo_payment_payload env)\<rparr>"

definition opts_allow_unsigned :: "submit_options \<Rightarrow> submit_options" where
  "opts_allow_unsigned o1 = o1\<lparr>op_require_signature := False\<rparr>"

section \<open>The client\<close>

text \<open>A connected client is the key of the node it dialed.\<close>

definition sdk_connect :: "('k, 's) net_env \<Rightarrow> string \<Rightarrow> (string, 'k) nio" where
  "sdk_connect env node_id =
     vbind (vlift (ok_or (cr_parse_key (nt_crypto env) node_id) ''invalid Node ID - copy it from `cloudiy share`'')) (\<lambda>node.
     vbind (\<lambda>h. (nt_dial env h (nt_key_text env node), h @ [EvConnect (nt_key_text env node)])) (\<lambda>_. vret node))"

definition sdk_request :: "('k, 's) net_env \<Rightarrow> 'k \<Rightarrow> request \<Rightarrow> (string, response) nio" where
  "sdk_request env node req h = (nt_ask env h (nt_key_text env node) req, h @ [EvAsk (nt_key_text env node) req])"

definition error_message :: "('k, 's) net_env \<Rightarrow> response \<Rightarrow> string option" where
  "error_message env resp = (case resp of SError m \<Rightarrow> Some m | SVmError e \<Rightarrow> Some (nt_failure_text env e) | _ \<Rightarrow> None)"

definition other_response :: "('k, 's) net_env \<Rightarrow> response \<Rightarrow> string" where
  "other_response env resp =
     (case error_message env resp of Some m \<Rightarrow> ''provider error: '' @ m | None \<Rightarrow> ''unexpected response'')"

definition sdk_info :: "('k, 's) net_env \<Rightarrow> 'k \<Rightarrow> (string, node_info) nio" where
  "sdk_info env node =
     vbind (sdk_request env node RInfo) (\<lambda>resp.
     case resp of SInfo i \<Rightarrow> vret i | _ \<Rightarrow> vlift (Inl (other_response env resp)))"

definition sdk_status :: "('k, 's) net_env \<Rightarrow> 'k \<Rightarrow> string \<Rightarrow> (string, status_response) nio" where
  "sdk_status env node jid =
     vbind (sdk_request env node (RStatus jid)) (\<lambda>resp.
     case resp of SStatus s \<Rightarrow> vret s | _ \<Rightarrow> vlift (Inl (other_response env resp)))"

definition result_verified :: "('k, 's) net_env \<Rightarrow> 'k \<Rightarrow> bytes \<Rightarrow> job_response \<Rightarrow> bool" where
  "result_verified env node inp resp \<longleftrightarrow>
     (case (jr_signature resp, jr_signed_by resp) of
        (Some sig, Some sb) \<Rightarrow> sb = nt_key_text env node \<and>
          verify_result (nt_crypto env) node (jr_job_id resp) inp (jr_output resp) sig
      | _ \<Rightarrow> False)"

definition handle_job_response ::
  "('k, 's) net_env \<Rightarrow> 'k \<Rightarrow> response \<Rightarrow> bool \<Rightarrow> bytes \<Rightarrow> submit_error + job_result" where
  "handle_job_response env node resp require_signature inp =
     (case resp of
        SJob r \<Rightarrow>
          if jr_status r = ''error'' then Inl (SubProvider (or_default ''unknown error'' (jr_error r)))
          else let verified = result_verified env node inp r in
            if require_signature \<and> \<not> verified then Inl SubBadSignature
            else Inr \<lparr>jo_job_id = jr_job_id r, jo_output = jr_output r, jo_signature_verified = verified,
              jo_receipt = Option.bind (Option.bind (jr_receipt r) (nt_b64_decode env)) (nt_json_parse env),
              jo_provider = jr_provider r, jo_signature = jr_signature r, jo_signed_by = jr_signed_by r\<rparr>
      | SPaymentRequired requirements \<Rightarrow> Inl (SubPaymentRequired (quote_parse requirements))
      | _ \<Rightarrow> Inl (case error_message env resp of Some m \<Rightarrow> SubProvider m
                    | None \<Rightarrow> SubTransport ''unexpected response''))"

definition submitted_job :: "('k, 's) net_env \<Rightarrow> submit_options \<Rightarrow> string \<Rightarrow> job_request" where
  "submitted_job env opts jid =
     \<lparr>rq_job_id = jid, rq_kernel = op_kernel opts, rq_input_data = op_data opts,
      rq_auth_token = or_default '''' (op_token opts), rq_consumer_pubkey = nt_pubkey env, rq_payment = op_payment opts\<rparr>"

definition sdk_submit :: "('k, 's) net_env \<Rightarrow> 'k \<Rightarrow> submit_options \<Rightarrow> (submit_error, job_result) nio" where
  "sdk_submit env node opts h =
     (let jid = or_default (nt_uuid_text env (nt_uuid env h)) (op_job_id opts) in
      vbind (vmap_err SubTransport (sdk_request env node (RSubmit (submitted_job env opts jid)))) (\<lambda>resp.
      vlift (handle_job_response env node resp (op_require_signature opts) (op_data opts))) h)"

definition sdk_run_workload ::
  "('k, 's) net_env \<Rightarrow> 'k \<Rightarrow> workload_spec \<Rightarrow> string option \<Rightarrow> string option \<Rightarrow> (submit_error, job_result) nio" where
  "sdk_run_workload env node spec token payment h =
     (let req = \<lparr>rq_job_id = nt_uuid_text env (nt_uuid env h), rq_kernel = ''workload'', rq_input_data = [],
        rq_auth_token = or_default '''' token, rq_consumer_pubkey = nt_pubkey env, rq_payment = payment\<rparr> in
      vbind (vmap_err SubTransport (sdk_request env node (RRunWorkload req spec))) (\<lambda>resp.
      vlift (handle_job_response env node resp True [])) h)"


section \<open>Trust\<close>

lemma vmap_err_iff [result_iff]: "vmap_err f m h = (Inr x, h') \<longleftrightarrow> m h = (Inr x, h')"
  by (auto simp: vmap_err_def split: prod.splits sum.splits)

lemma handled_result:
  assumes "handle_job_response env node resp req inp = Inr r"
  shows "\<exists>jr. resp = SJob jr \<and> jr_status jr \<noteq> ''error'' \<and> jo_job_id r = jr_job_id jr \<and> jo_output r = jr_output jr \<and>
     jo_signature_verified r = result_verified env node inp jr \<and> jo_signature r = jr_signature jr \<and>
     jo_signed_by r = jr_signed_by jr \<and> (req \<longrightarrow> jo_signature_verified r)"
  using assms by (auto simp: handle_job_response_def Let_def split: response.splits if_splits option.splits)

definition signed_result :: "('k, 's) net_env \<Rightarrow> 'k \<Rightarrow> bytes \<Rightarrow> job_result \<Rightarrow> bool" where
  "signed_result env node inp r \<longleftrightarrow>
     jo_signed_by r = Some (nt_key_text env node) \<and>
     (\<exists>sig. jo_signature r = Some sig \<and> verify_result (nt_crypto env) node (jo_job_id r) inp (jo_output r) sig)"

lemma verified_iff:
  assumes "handle_job_response env node resp req inp = Inr r"
  shows "jo_signature_verified r \<longleftrightarrow> signed_result env node inp r"
  using handled_result [OF assms] by (auto simp: result_verified_def signed_result_def split: option.splits)


section \<open>An honest node\<close>

lemma authorize_keeps_identity:
  "authorize ne st req p now = (a, st') \<Longrightarrow> as_endpoint_id st' = as_endpoint_id st \<and> as_gpu st' = as_gpu st"
  by (auto simp: authorize_def authorize_end_def split: sum.splits)

lemma submit_answer:
  assumes "handle_rpc ne clk owner (RSubmit req) ps = (SJob jr, ps')"
  shows "(\<exists>gpu out st' via. as_gpu (ps_app ps) = Some gpu \<and>
       execute_on_gpu ne gpu (rq_kernel req) (rq_input_data req) = Inr out \<and>
       as_endpoint_id st' = as_endpoint_id (ps_app ps) \<and>
       jr = signed_response ne st' (rq_job_id req) (rq_input_data req) (as_bytes out) via) \<or>
     jr_status jr = ''error''"
proof -
  from assms obtain st via amount st1 st2 where a: "authorize ne (ps_app ps) req None (rd_now clk) = (Inr (via, amount), st1)"
    and p: "acquire_permit st1 = Some st2" and s: "submit ne st2 req via = (Completed jr, st)"
    by (auto simp: submit_guarded_def split: prod.splits sum.splits option.splits if_splits elim!: submit_response.elims)
  have keep: "as_endpoint_id st2 = as_endpoint_id (ps_app ps)" "as_gpu st2 = as_gpu (ps_app ps)"
    using authorize_keeps_identity [OF a] p by (auto simp: acquire_permit_def split: if_splits)
  show ?thesis
  proof (cases "as_gpu st2")
    case None
    then show ?thesis using s by (auto simp: submit_def error_response_def Let_def)
  next
    case (Some gpu)
    show ?thesis
    proof (cases "execute_on_gpu ne gpu (rq_kernel req) (rq_input_data req)")
      case (Inl e)
      then show ?thesis using s Some by (auto simp: submit_def error_response_def Let_def)
    next
      case (Inr out)
      then show ?thesis using s Some keep by (auto simp: submit_def Let_def)
    qed
  qed
qed

text \<open>What both sides share: the keys, hashing and hex, and the name of the node.\<close>

definition same_node :: "('k, 's) net_env \<Rightarrow> 'k \<Rightarrow> ('k, 's) node_env \<Rightarrow> app_state \<Rightarrow> signer \<Rightarrow> bool" where
  "same_node env node ne st sg \<longleftrightarrow>
     ce_crypto (ne_chain ne) = nt_crypto env \<and> signer_ok (nt_crypto env) sg node \<and>
     ne_sign ne = (\<lambda>m. sg_hex sg (sg_sign sg m)) \<and> as_endpoint_id st = sg_public sg \<and> nt_key_text env node = sg_public sg"

lemma signed_response_verified:
  assumes "same_node env node ne st sg" and "as_endpoint_id st' = as_endpoint_id st"
  shows "result_verified env node inp (signed_response ne st' jid inp out via)"
proof -
  have "verify_result (nt_crypto env) node jid inp out (Signing.sign_result sg (nt_crypto env) jid inp out)"
    using assms(1) by (auto simp: same_node_def verify_result_def Signing.sign_result_def signer_ok_def)
      (metis option.simps(5))
  then show ?thesis
    using assms by (simp add: result_verified_def signed_response_def same_node_def Node.sign_result_def Signing.sign_result_def)
qed

text \<open>
  An honest run goes through. When the node dialed is a node of this program whose answer is what it
  computes for the job, the consumer gets exactly what the GPU gave for the kernel and input it
  asked for, marked as verified; and whatever the node refuses or fails at reaches the consumer as an
  error, never as a result.
\<close>
theorem honest_result_is_accepted:
  assumes same: "same_node env node ne (ps_app ps) sg"
    and jid: "jid = or_default (nt_uuid_text env (nt_uuid env h)) (op_job_id opts)"
    and served: "handle_rpc ne clk owner (RSubmit (submitted_job env opts jid)) ps = (resp, ps')"
    and answer: "nt_ask env h (nt_key_text env node) (RSubmit (submitted_job env opts jid)) = Inr resp"
  shows "(\<forall>r. fst (sdk_submit env node opts h) = Inr r \<longrightarrow> jo_signature_verified r \<and> jo_job_id r = jid \<and>
      (\<exists>gpu out. as_gpu (ps_app ps) = Some gpu \<and> execute_on_gpu ne gpu (op_kernel opts) (op_data opts) = Inr out \<and>
         jo_output r = as_bytes out)) \<and>
    (\<forall>jr. resp = SJob jr \<and> jr_status jr = ''completed'' \<longrightarrow> (\<exists>r. fst (sdk_submit env node opts h) = Inr r \<and> jo_output r = jr_output jr))"
proof -
  have sub: "fst (sdk_submit env node opts h) =
      handle_job_response env node resp (op_require_signature opts) (op_data opts)"
    by (simp add: sdk_submit_def Let_def vbind_def vmap_err_def sdk_request_def answer vlift_def flip: jid)
  have job: "rq_job_id (submitted_job env opts jid) = jid" "rq_kernel (submitted_job env opts jid) = op_kernel opts"
    "rq_input_data (submitted_job env opts jid) = op_data opts" by (simp_all add: submitted_job_def)
  have compl: "\<exists>gpu out st' via. as_gpu (ps_app ps) = Some gpu \<and> execute_on_gpu ne gpu (op_kernel opts) (op_data opts) = Inr out \<and>
      as_endpoint_id st' = as_endpoint_id (ps_app ps) \<and> jr = signed_response ne st' jid (op_data opts) (as_bytes out) via"
    if "resp = SJob jr" "jr_status jr \<noteq> ''error''" for jr
    using submit_answer [of ne clk owner "submitted_job env opts jid" ps jr ps'] served that job by auto
  show ?thesis
  proof (intro conjI allI impI)
    fix r assume "fst (sdk_submit env node opts h) = Inr r"
    then obtain jr where jr: "resp = SJob jr" "jr_status jr \<noteq> ''error''" and r: "jo_job_id r = jr_job_id jr" "jo_output r = jr_output jr"
      "jo_signature_verified r = result_verified env node (op_data opts) jr"
      using handled_result sub by metis
    from compl [OF jr] obtain gpu out st' via where d: "as_gpu (ps_app ps) = Some gpu"
      "execute_on_gpu ne gpu (op_kernel opts) (op_data opts) = Inr out" "as_endpoint_id st' = as_endpoint_id (ps_app ps)"
      "jr = signed_response ne st' jid (op_data opts) (as_bytes out) via" by blast
    show "jo_signature_verified r" using r(3) d(4) signed_response_verified [OF same d(3)] by simp
    show "jo_job_id r = jid" using r(1) d(4) by (simp add: signed_response_def)
    show "\<exists>gpu out. as_gpu (ps_app ps) = Some gpu \<and> execute_on_gpu ne gpu (op_kernel opts) (op_data opts) = Inr out \<and> jo_output r = as_bytes out"
      using r(2) d by (auto simp: signed_response_def)
  next
    fix jr assume j: "resp = SJob jr \<and> jr_status jr = ''completed''"
    then obtain st' out via where d: "as_endpoint_id st' = as_endpoint_id (ps_app ps)"
      "jr = signed_response ne st' jid (op_data opts) (as_bytes out) via" using compl [of jr] by auto
    have "result_verified env node (op_data opts) jr" using signed_response_verified [OF same d(1)] d(2) by simp
    then show "\<exists>r. fst (sdk_submit env node opts h) = Inr r \<and> jo_output r = jr_output jr"
      using j by (simp add: sub handle_job_response_def)
  qed
qed

section \<open>A consumer and an honest node\<close>

definition demo_crypto :: "(string, bytes) crypto" where
  "demo_crypto = plain_crypto (demo_node ''n'' (Fin 0) 5)"

definition honest_env :: "(string, bytes) node_env" where
  "honest_env = demo_node_env\<lparr>ne_chain := Payments.demo_env\<lparr>ce_crypto := demo_crypto\<rparr>, ne_sign := (\<lambda>m. map (\<lambda>b. char_of (unat b)) m)\<rparr>"

definition honest_node :: provider_state where
  "honest_node = \<lparr>ps_app = demo_state\<lparr>as_gpu := Some (\<lambda>k text. Inr ''6''), as_endpoint_id := ''n'', as_require_payment := False,
     as_rpc_url := None\<rparr>, ps_hits = (\<lambda>_. []), ps_history = []\<rparr>"

definition demo_net :: "(string, bytes) net_env" where
  "demo_net = \<lparr>nt_crypto = demo_crypto, nt_key_text = (\<lambda>k. k), nt_dial = (\<lambda>_ _. Inr ()),
     nt_ask = (\<lambda>h n req. Inr (fst (handle_rpc honest_env demo_readings ''me'' req honest_node))),
     nt_uuid = (\<lambda>h. [of_nat (length h)]), nt_uuid_text = (\<lambda>b. ''id''), nt_uuid_parse = (\<lambda>_. Some (replicate 16 1)), nt_now = (\<lambda>_. 1000),
     nt_var = (\<lambda>_. None), nt_default_directory = '''', nt_pubkey = None, nt_json_text = (\<lambda>_. ''{}''),
     nt_json_parse = (\<lambda>_. None), nt_b64_encode = (\<lambda>_. ''b64''), nt_b64_decode = (\<lambda>_. None), nt_hex_encode = (\<lambda>_. ''sig''),
     nt_utf8 = (\<lambda>_. None), nt_sol = (\<lambda>_. Solana_Theorems.demo_env), nt_keypair = (\<lambda>_ _. Inl ''no file''), nt_default_keypair = ''id.json'',
     nt_failure_text = (\<lambda>_. ''failed''), nt_show_f64 = (\<lambda>_. ''1'')\<rparr>"

definition demo_opts :: submit_options where
  "demo_opts = opts_token ''dev'' (opts_kernel ''sum'' [49])"

lemma demo_same: "same_node demo_net ''n'' honest_env (ps_app honest_node) plain_signer"
  using plain_ok [of "demo_node ''n'' (Fin 0) 5"]
  by (simp add: same_node_def demo_net_def honest_env_def honest_node_def demo_crypto_def plain_signer_def)

lemma demo_served: "\<exists>jr ps'. handle_rpc honest_env demo_readings ''me'' (RSubmit (submitted_job demo_net demo_opts ''id'')) honest_node =
    (SJob jr, ps') \<and> jr_status jr = ''completed'' \<and> jr_output jr = [54]"
proof -
  let ?job = "submitted_job demo_net demo_opts ''id''"
  have a: "authorize honest_env (ps_app honest_node) ?job None (rd_now demo_readings) = (Inr (''dev-token'', 0), ps_app honest_node)"
    by (simp add: authorize_def authorize_begin_def Let_def honest_node_def submitted_job_def demo_opts_def opts_token_def
        opts_kernel_def demo_state_def tokens_match_def or_default_def)
  show ?thesis
    unfolding handle_rpc.simps submit_guarded_def a
    by (simp add: acquire_permit_def honest_node_def demo_state_def submit_def Let_def
        execute_on_gpu_def honest_env_def demo_node_env_def submitted_job_def demo_opts_def opts_token_def opts_kernel_def
        signed_response_def demo_readings_def JOB_TIMEOUT_SECS_def rbind_def ok_or_def as_bytes_def)
qed

lemma honest_result_is_accepted_witness:
  "\<exists>r. fst (sdk_submit demo_net ''n'' demo_opts []) = Inr r \<and> jo_signature_verified r \<and> jo_output r = [54]"
proof -
  obtain jr ps' where s: "handle_rpc honest_env demo_readings ''me'' (RSubmit (submitted_job demo_net demo_opts ''id'')) honest_node =
      (SJob jr, ps')" "jr_status jr = ''completed''" "jr_output jr = [54]" using demo_served by blast
  have j: "''id'' = or_default (nt_uuid_text demo_net (nt_uuid demo_net [])) (op_job_id demo_opts)"
    by (simp add: demo_net_def demo_opts_def opts_token_def opts_kernel_def or_default_def)
  have a: "nt_ask demo_net [] (nt_key_text demo_net ''n'') (RSubmit (submitted_job demo_net demo_opts ''id'')) = Inr (SJob jr)"
    using s(1) by (simp add: demo_net_def)
  note t = honest_result_is_accepted [OF demo_same j s(1) a]
  show ?thesis using t s(2,3) by metis
qed


end
