(* ===== verification/Consumer.thy ===== *)
theory Consumer
  imports Sdk Float_Cast Quorum Reputation
begin

text \<open>
  The commands of the consumer, \<open>crates/cloudiy/src/client.rs\<close>: discovery over untrusted directories, the
  choice of providers, paid and replicated runs, the escrow commands and the VM plane. What a command only
  prints is left out, apart from the list of escrows the consumer can still reclaim.
\<close>

section \<open>Discovery\<close>

text \<open>One request on a fresh connection under the identity of the client.\<close>

definition client_rpc :: "('k, 's) net_env \<Rightarrow> string \<Rightarrow> string \<Rightarrow> request \<Rightarrow> (string, response) nio" where
  "client_rpc env bad_id to req =
     vbind (vlift (ok_or (cr_parse_key (nt_crypto env) to) bad_id)) (\<lambda>node.
     vbind (\<lambda>h. (nt_dial env h (nt_key_text env node), h @ [EvConnect (nt_key_text env node)])) (\<lambda>_.
     sdk_request env node req))"

definition fetch_one_directory :: "('k, 's) net_env \<Rightarrow> string \<Rightarrow> (string, signed_payload list) nio" where
  "fetch_one_directory env via =
     vbind (client_rpc env ''invalid directory Node ID'' via RProviders) (\<lambda>resp.
     case resp of SProviders l \<Rightarrow> vret l
     | _ \<Rightarrow> vlift (Inl (case error_message env resp of Some m \<Rightarrow> ''directory error: '' @ m
                          | None \<Rightarrow> ''unexpected directory response'')))"

definition fetch_one_reputation :: "('k, 's) net_env \<Rightarrow> string \<Rightarrow> (string, (string \<times> f64) list) nio" where
  "fetch_one_reputation env via =
     vbind (client_rpc env ''invalid directory Node ID'' via RReputation) (\<lambda>resp h.
     (case resp of
        SReputation sr \<Rightarrow>
          (case verify_reputation (nt_crypto env) sr via (nt_now env h) of Inr scores \<Rightarrow> Inr scores | Inl _ \<Rightarrow> Inr [])
      | _ \<Rightarrow> Inr [], h))"

type_synonym score_map = "string \<rightharpoonup> f64"

definition add_score :: "string \<times> f64 \<Rightarrow> score_map \<Rightarrow> score_map" where
  "add_score s m = (case s of (i, score) \<Rightarrow> m(i \<mapsto> (case m i of Some old \<Rightarrow> f_max old score | None \<Rightarrow> score)))"

text \<open>\<open>seen\<close> holds the identities that were merged.\<close>

definition merge_new :: "provider_announcement \<Rightarrow> provider_announcement list \<Rightarrow> provider_announcement list" where
  "merge_new ann merged = (if pa_identity ann \<in> pa_identity ` set merged then merged else merged @ [ann])"

definition consider_announcement ::
  "('k, 's) net_env \<Rightarrow> i64 \<Rightarrow> u64 \<Rightarrow> score_map \<Rightarrow> signed_payload \<Rightarrow> provider_announcement list \<Rightarrow> provider_announcement list" where
  "consider_announcement env now job_value scores sa merged =
     (case verify_announcement (nt_crypto env) sa now of
        Inl _ \<Rightarrow> merged
      | Inr ann \<Rightarrow>
         (case scores (pa_identity ann) of
            Some score \<Rightarrow>
              if flt score REPUTATION_ROUTING_FLOOR then merged
              else if \<not> may_take_value score job_value then merged
              else merge_new (ann\<lparr>pa_reputation := score\<rparr>) merged
          | None \<Rightarrow> merge_new ann merged))"

definition ok_list :: "string + 'a list \<Rightarrow> 'a list" where
  "ok_list r = (case r of Inr l \<Rightarrow> l | Inl _ \<Rightarrow> [])"

definition ask_directory ::
  "('k, 's) net_env \<Rightarrow> i64 \<Rightarrow> u64 \<Rightarrow> string \<Rightarrow> score_map \<times> provider_announcement list \<Rightarrow>
   (string, score_map \<times> provider_announcement list) nio" where
  "ask_directory env now job_value via st =
     vbind (vtry (fetch_one_reputation env via)) (\<lambda>r.
     let scores = fold add_score (ok_list r) (fst st) in
     vbind (vtry (fetch_one_directory env via)) (\<lambda>d.
     vret (scores, fold (consider_announcement env now job_value scores) (ok_list d) (snd st))))"

definition fetch_providers ::
  "('k, 's) net_env \<Rightarrow> string list \<Rightarrow> u64 \<Rightarrow> (string, provider_announcement list) nio" where
  "fetch_providers env vias job_value h =
     vbind (vlift (require (vias \<noteq> []) ''no directory specified'')) (\<lambda>_.
     vbind (vfold (ask_directory env (nt_now env h) job_value) vias (Map.empty, [])) (\<lambda>(_, merged).
     vret merged)) h"

section \<open>Choosing providers\<close>

definition directories :: "('k, 's) net_env \<Rightarrow> string list \<Rightarrow> string list" where
  "directories env via = resolve_directories (nt_var env) (nt_default_directory env) via"

definition resolve_target ::
  "('k, 's) net_env \<Rightarrow> string option \<Rightarrow> string list \<Rightarrow> workload_spec \<Rightarrow> (string, string) nio" where
  "resolve_target env to via spec =
     (case to of
        Some node \<Rightarrow> vret node
      | None \<Rightarrow>
         let dirs = directories env via in
         vbind (vlift (require (dirs \<noteq> []) ''no directory configured - pass --to <node-id>, --via <directory-id>, or set CLOUDIY_DIRECTORY'')) (\<lambda>_.
         vbind (fetch_providers env dirs (ws_job_value_micro_usdc spec)) (\<lambda>nodes.
         vbind (vlift (require (nodes \<noteq> []) ''no live providers on these directories'')) (\<lambda>_.
         vbind (vlift (ok_or (place default_policy spec nodes) (''no provider satisfies this workload'' @ CHR 0x27 # ''s requirements''))) (\<lambda>p.
         vret (pl_node p))))))"

definition resolve_targets ::
  "('k, 's) net_env \<Rightarrow> string list \<Rightarrow> workload_spec \<Rightarrow> nat \<Rightarrow> (string, string list) nio" where
  "resolve_targets env via spec n =
     (let dirs = directories env via in
      vbind (vlift (require (dirs \<noteq> []) ''--replicas needs a directory - pass --via <directory-id> or set CLOUDIY_DIRECTORY'')) (\<lambda>_.
      vbind (fetch_providers env dirs (ws_job_value_micro_usdc spec)) (\<lambda>nodes.
      vret (map pl_node (take n (rank default_policy spec nodes))))))"

section \<open>The chain\<close>

text \<open>
  A call of \<open>solana.rs\<close> makes fewer than a hundred requests to the endpoint; the ones of the call at position
  \<open>n\<close> of the history are numbered from \<open>100 * n\<close>.
\<close>

definition on_chain :: "('k, 's) net_env \<Rightarrow> string \<Rightarrow> chain_call \<Rightarrow> (sol_env \<Rightarrow> nat \<Rightarrow> string + 'a) \<Rightarrow> (string, 'a) nio" where
  "on_chain env rpc_url call run h = (run (nt_sol env rpc_url) (100 * length h), h @ [EvChain rpc_url call])"

definition load_wallet :: "('k, 's) net_env \<Rightarrow> string option \<Rightarrow> (string, keypair) nio" where
  "load_wallet env path h = (nt_keypair env h (or_default (nt_default_keypair env) path), h)"

record funded_summary =
  fs_escrow_account :: string
  fs_job_uuid :: string
  fs_tx :: string
  fs_amount_micro :: u64
  fs_provider_pubkey :: string
  fs_usdc_mint :: string

definition s_max_of :: "i64 \<Rightarrow> i64 \<Rightarrow> i64" where
  "s_max_of a b = (if sint a < sint b then b else a)"

definition fund_escrow ::
  "('k, 's) net_env \<Rightarrow> string \<Rightarrow> string option \<Rightarrow> string \<Rightarrow> f64 option \<Rightarrow> i64 \<Rightarrow> (string, funded_summary) nio" where
  "fund_escrow env to wallet rpc_url amount_usdc timeout_secs =
     (let sol = nt_sol env rpc_url in
      vbind (sdk_connect env to) (\<lambda>node.
      vbind (sdk_info env node) (\<lambda>info.
      vbind (vlift (ok_or (ni_solana_pubkey info) ''provider has no Solana wallet configured - cannot be paid'')) (\<lambda>provider_pk.
      let amount = or_default (ni_price_usdc info) amount_usdc in
      vbind (vlift (require (flt (Fin 0) amount) ''amount must be positive'')) (\<lambda>_.
      let amount_micro = micro amount in
      vbind (load_wallet env wallet) (\<lambda>kp.
      vbind (vlift (parse_pubkey sol (ni_escrow_program info))) (\<lambda>escrow_program.
      vbind (vlift (parse_pubkey sol provider_pk)) (\<lambda>provider.
      vbind (vlift (parse_pubkey sol (ni_usdc_mint info))) (\<lambda>mint.
      vbind (vlift (parse_hex32 sol (ni_endpoint_id info))) (\<lambda>node_key.
      vbind (\<lambda>h. (Inr (nt_uuid env h), h)) (\<lambda>jid.
      let timeout = s_max_of timeout_secs 60 in
      vbind (on_chain env rpc_url (ChCreate escrow_program provider mint amount_micro timeout jid node_key)
          (\<lambda>so n. sol_create_job so n kp escrow_program provider mint amount_micro timeout jid node_key)) (\<lambda>stakes.
      vret \<lparr>fs_escrow_account = pubkey_str sol (fe_job_account stakes), fs_job_uuid = nt_uuid_text env (fe_job_id stakes),
        fs_tx = fe_signature stakes, fs_amount_micro = amount_micro, fs_provider_pubkey = provider_pk,
        fs_usdc_mint = ni_usdc_mint info\<rparr>))))))))))))"

definition release_verified_cmd ::
  "('k, 's) net_env \<Rightarrow> string \<Rightarrow> string option \<Rightarrow> string \<Rightarrow> string option \<Rightarrow> bytes \<Rightarrow> bytes \<Rightarrow> string \<Rightarrow> string \<Rightarrow> (string, release_result) nio" where
  "release_verified_cmd env escrow wallet rpc_url program inp outp signature_hex node_key_hex =
     (let sol = nt_sol env rpc_url in
      vbind (load_wallet env wallet) (\<lambda>kp.
      vbind (vlift (parse_pubkey sol (or_default DEVNET_ESCROW_PROGRAM program))) (\<lambda>prog.
      vbind (vlift (parse_pubkey sol escrow)) (\<lambda>job_account.
      vbind (vlift (parse_hex32 sol node_key_hex)) (\<lambda>node_key.
      vbind (vlift (parse_hex64 sol signature_hex)) (\<lambda>sig.
      on_chain env rpc_url (ChReleaseVerified prog job_account node_key inp outp sig)
        (\<lambda>so n. sol_release_verified so n kp prog job_account node_key inp outp sig)))))))"

section \<open>Authorising a run\<close>

text \<open>The wallet signs job, input and expiry; the authorisation is good for a quarter of an hour.\<close>

definition signed_payment :: "('k, 's) net_env \<Rightarrow> keypair \<Rightarrow> bytes \<Rightarrow> bytes \<Rightarrow> string \<Rightarrow> i64 \<Rightarrow> string" where
  "signed_payment env kp job_bytes inp acct expiry =
     escrow_payment_payload env acct (nt_hex_encode env (kp_sign kp (run_auth_message (nt_crypto env) job_bytes inp expiry))) expiry"

definition expiry_at :: "('k, 's) net_env \<Rightarrow> net_event list \<Rightarrow> i64" where
  "expiry_at env h = nt_now env h + 900"

definition with_token :: "string option \<Rightarrow> submit_options \<Rightarrow> submit_options" where
  "with_token token opts = (case token of Some t \<Rightarrow> opts_token t opts | None \<Rightarrow> opts)"

section \<open>Replicated runs\<close>

record pay_config =
  pc_amount_usdc :: "f64 option"
  pc_timeout_secs :: i64
  pc_wallet :: "string option"
  pc_rpc_url :: string
  pc_escrow_program :: string
  pc_auto_release :: bool

definition report_refundable :: "funded_replica list \<Rightarrow> string \<Rightarrow> ('e, unit) nio" where
  "report_refundable stakes why =
     (if stakes = [] then vret () else (\<lambda>h. (Inr (), h @ [EvRefundable (map fr_escrow stakes) why])))"

definition short_id :: "string \<Rightarrow> string" where
  "short_id i = take (min (length i) 12) i"

fun fund_all :: "('k, 's) net_env \<Rightarrow> pay_config \<Rightarrow> string list \<Rightarrow> funded_replica list \<Rightarrow> (string, funded_replica list) nio" where
  "fund_all env cfg [] stakes = vret stakes"
| "fund_all env cfg (node # nodes) stakes =
     vbind (vtry (fund_escrow env node (pc_wallet cfg) (pc_rpc_url cfg) (pc_amount_usdc cfg) (pc_timeout_secs cfg))) (\<lambda>r.
     case r of
       Inr s \<Rightarrow> fund_all env cfg nodes (stakes @ [\<lparr>fr_node = node, fr_escrow = fs_escrow_account s,
         fr_job_uuid = fs_job_uuid s, fr_amount = fs_amount_micro s\<rparr>])
     | Inl e \<Rightarrow> vbind (report_refundable stakes ''funding aborted before this run started'') (\<lambda>_.
         vlift (Inl (''funding the escrow for '' @ short_id node @ '': '' @ e))))"

type_synonym proof_map = "string \<rightharpoonup> bytes \<times> string \<times> string"

definition replica_options ::
  "('k, 's) net_env \<Rightarrow> string \<Rightarrow> bytes \<Rightarrow> string option \<Rightarrow> bool \<Rightarrow> keypair option \<Rightarrow> funded_replica option \<Rightarrow> (string, submit_options) nio" where
  "replica_options env kname inp token x402_demo signer stakes h =
     (let opts = with_token token (opts_kernel kname inp) in
      case (signer, stakes) of
        (Some kp, Some f) \<Rightarrow>
          vbind (vlift (ok_or (nt_uuid_parse env (fr_job_uuid f)) ''funded job id is not a valid UUID'')) (\<lambda>job_bytes.
          vret (opts_payment (signed_payment env kp job_bytes inp (fr_escrow f) (expiry_at env h))
                 (opts_job_id (fr_job_uuid f) opts))) h
      | _ \<Rightarrow> (Inr (if x402_demo then opts_demo_payment env opts else opts), h))"

definition ask_replica ::
  "('k, 's) net_env \<Rightarrow> string \<Rightarrow> bytes \<Rightarrow> string option \<Rightarrow> bool \<Rightarrow> keypair option \<Rightarrow> funded_replica list \<Rightarrow> nat \<times> string \<Rightarrow>
   replica_result list \<times> proof_map \<Rightarrow> (string, replica_result list \<times> proof_map) nio" where
  "ask_replica env kname inp token x402_demo signer stakes target st =
     (case target of (i, node) \<Rightarrow>
      vbind (replica_options env kname inp token x402_demo signer
          (if i < length stakes then Some (stakes ! i) else None)) (\<lambda>opts.
      vbind (vtry (sdk_connect env node)) (\<lambda>c.
      case c of
        Inl _ \<Rightarrow> vret st
      | Inr key \<Rightarrow>
          vbind (vtry (sdk_submit env key opts)) (\<lambda>r.
          vret (case r of
             Inl _ \<Rightarrow> st
           | Inr res \<Rightarrow>
               (fst st @ [\<lparr>rr_node = node, rr_output = jo_output res, rr_verified = jo_signature_verified res\<rparr>],
                case (jo_signature res, jo_signed_by res) of
                  (Some sig, Some sb) \<Rightarrow> (snd st)(node \<mapsto> (jo_output res, sig, sb))
                | _ \<Rightarrow> snd st))))))"

definition settle_node ::
  "('k, 's) net_env \<Rightarrow> pay_config \<Rightarrow> bytes \<Rightarrow> funded_replica list \<Rightarrow> proof_map \<Rightarrow> string \<Rightarrow> string list \<Rightarrow> (string, string list) nio" where
  "settle_node env cfg inp stakes proofs node settled =
     (case List.find (\<lambda>f. fr_node f = node) stakes of
        None \<Rightarrow> vret settled
      | Some f \<Rightarrow>
         (case proofs node of
            None \<Rightarrow> vret settled
          | Some (outp, sig_hex, node_key_hex) \<Rightarrow>
              vbind (vtry (release_verified_cmd env (fr_escrow f) (pc_wallet cfg) (pc_rpc_url cfg)
                  (Some (pc_escrow_program cfg)) inp outp sig_hex node_key_hex)) (\<lambda>r.
              vret (case r of Inr _ \<Rightarrow> settled @ [node] | Inl _ \<Rightarrow> settled))))"

definition settle_winner ::
  "('k, 's) net_env \<Rightarrow> pay_config \<Rightarrow> bytes \<Rightarrow> funded_replica list \<Rightarrow> proof_map \<Rightarrow> winner \<Rightarrow> (string, unit) nio" where
  "settle_winner env cfg inp stakes proofs win =
     vbind (if pc_auto_release cfg then vfold (settle_node env cfg inp stakes proofs) (wn_nodes win) []
            else vret (wn_nodes win)) (\<lambda>settled.
     report_refundable (filter (\<lambda>f. fr_node f \<notin> set settled) stakes)
       ''not paid (divergent, unsigned, no result, or release failed)'')"

definition no_quorum :: "tally_result \<Rightarrow> string" where
  "no_quorum t = ''no quorum: best agreement '' @ show_nat (ta_best_agreement t) @ ''/'' @ show_nat (ta_voters t) @
     '' verified < required '' @ show_nat (ta_threshold t)"

definition conclude_quorum ::
  "('k, 's) net_env \<Rightarrow> pay_config option \<Rightarrow> bytes \<Rightarrow> funded_replica list \<Rightarrow> nat \<Rightarrow> replica_result list \<times> proof_map \<Rightarrow> (string, winner) nio" where
  "conclude_quorum env cfg_opt inp stakes replicas st =
     (let t = tally (cr_sha256 (nt_crypto env)) (fst st) replicas in
      case ta_winner t of
        None \<Rightarrow> vbind (report_refundable stakes ''no quorum - no provider was paid'') (\<lambda>_. vlift (Inl (no_quorum t)))
      | Some win \<Rightarrow>
         (case cfg_opt of
            None \<Rightarrow> vret win
          | Some cfg \<Rightarrow> vbind (settle_winner env cfg inp stakes (snd st) win) (\<lambda>_. vret win)))"

definition run_quorum ::
  "('k, 's) net_env \<Rightarrow> string list \<Rightarrow> workload_spec \<Rightarrow> string \<Rightarrow> bytes \<Rightarrow> string option \<Rightarrow> bool \<Rightarrow> nat \<Rightarrow> pay_config option \<Rightarrow> (string, winner) nio" where
  "run_quorum env via spec kname inp token x402_demo replicas cfg_opt =
     vbind (resolve_targets env via spec replicas) (\<lambda>targets.
     vbind (vlift (require (replicas \<le> length targets) (''need '' @ show_nat replicas @ '' distinct providers but only '' @
        show_nat (length targets) @ '' are available''))) (\<lambda>_.
     vbind (case cfg_opt of Some cfg \<Rightarrow> fund_all env cfg targets [] | None \<Rightarrow> vret []) (\<lambda>stakes.
     vbind (case cfg_opt of Some cfg \<Rightarrow> vbind (load_wallet env (pc_wallet cfg)) (\<lambda>kp. vret (Some kp)) | None \<Rightarrow> vret None) (\<lambda>signer.
     vbind (vfold (ask_replica env kname inp token x402_demo signer stakes) (enumerate 0 targets) ([], Map.empty)) (\<lambda>st.
     conclude_quorum env cfg_opt inp stakes replicas st)))))"

section \<open>A run on one provider\<close>

record run_args =
  ra_to :: "string option"
  ra_via :: "string list"
  ra_kernel :: string
  ra_data :: bytes
  ra_token :: "string option"
  ra_x402_demo :: bool
  ra_escrow :: "string option"
  ra_job_id :: "string option"
  ra_auto_release :: bool
  ra_wallet :: "string option"
  ra_rpc_url :: string
  ra_escrow_program :: string
  ra_replicas :: nat
  ra_pay :: bool
  ra_amount :: "f64 option"
  ra_timeout_secs :: i64

datatype run_outcome = RanQuorum winner | RanJob job_result "release_result option" | RunQuoted quote

text \<open>What is at stake decides which providers may be chosen.\<close>

definition run_spec :: "('k, 's) net_env \<Rightarrow> run_args \<Rightarrow> (string, workload_spec) nio" where
  "run_spec env a =
     (let spec = default_spec\<lparr>ws_template := Some (ra_kernel a),
        ws_capabilities := [capability_new (''kernel:'' @ ra_kernel a)]\<rparr> in
      case ra_escrow a of
        Some acct \<Rightarrow>
          vbind (vtry (on_chain env (ra_rpc_url a) (ChAmount acct) (\<lambda>so n. escrow_amount so n acct))) (\<lambda>r.
          vret (case r of Inr amount \<Rightarrow> spec\<lparr>ws_job_value_micro_usdc := amount\<rparr> | Inl _ \<Rightarrow> spec))
      | None \<Rightarrow>
          vret (if ra_pay a then (case ra_amount a of Some usdc \<Rightarrow> spec\<lparr>ws_job_value_micro_usdc := micro usdc\<rparr> | None \<Rightarrow> spec)
                else spec))"

definition run_options :: "('k, 's) net_env \<Rightarrow> run_args \<Rightarrow> (string, submit_options) nio" where
  "run_options env a =
     (let opts1 = with_token (ra_token a) (opts_kernel (ra_kernel a) (ra_data a));
          opts2 = (case ra_job_id a of Some i \<Rightarrow> opts_job_id i opts1 | None \<Rightarrow> opts1) in
      case ra_escrow a of
        Some acct \<Rightarrow>
          vbind (vlift (ok_or (ra_job_id a) ''--escrow requires --job-id (the id funded by `cloudiy pay`)'')) (\<lambda>i.
          vbind (vlift (ok_or (nt_uuid_parse env i) ''--job-id must be the UUID used to fund the escrow'')) (\<lambda>job_bytes.
          vbind (load_wallet env (ra_wallet a)) (\<lambda>kp h.
          (Inr (opts_payment (signed_payment env kp job_bytes (ra_data a) acct (expiry_at env h)) opts2), h))))
      | None \<Rightarrow> vret (if ra_x402_demo a then opts_demo_payment env opts2 else opts2))"

definition release_after_run :: "('k, 's) net_env \<Rightarrow> run_args \<Rightarrow> job_result \<Rightarrow> (string, release_result option) nio" where
  "release_after_run env a res =
     (if \<not> ra_auto_release a then vret None
      else
        vbind (vlift (ok_or (ra_escrow a) ''--release needs --escrow (the funded escrow account)'')) (\<lambda>acct.
        vbind (vlift (require (jo_signature_verified res) ''refusing to release: the result signature did not verify'')) (\<lambda>_.
        vbind (vlift (case (jo_signature res, jo_signed_by res) of (Some sig, Some sb) \<Rightarrow> Inr (sig, sb)
                 | _ \<Rightarrow> Inl ''provider returned no signature to release against'')) (\<lambda>(sig_hex, node_key_hex).
        vbind (release_verified_cmd env acct (ra_wallet a) (ra_rpc_url a) (Some (ra_escrow_program a)) (ra_data a)
            (jo_output res) sig_hex node_key_hex) (\<lambda>r.
        vret (Some r))))))"

definition run_single :: "('k, 's) net_env \<Rightarrow> run_args \<Rightarrow> workload_spec \<Rightarrow> (string, run_outcome) nio" where
  "run_single env a spec =
     vbind (resolve_target env (ra_to a) (ra_via a) spec) (\<lambda>to.
     vbind (sdk_connect env to) (\<lambda>node.
     vbind (run_options env a) (\<lambda>opts.
     vbind (vtry (sdk_submit env node opts)) (\<lambda>r.
     case r of
       Inl (SubPaymentRequired q) \<Rightarrow> vret (RunQuoted q)
     | Inl e \<Rightarrow> vlift (Inl (submit_error_text env e))
     | Inr res \<Rightarrow> vbind (release_after_run env a res) (\<lambda>released. vret (RanJob res released))))))"

definition run_job :: "('k, 's) net_env \<Rightarrow> run_args \<Rightarrow> (string, run_outcome) nio" where
  "run_job env a =
     vbind (run_spec env a) (\<lambda>spec.
     if 1 < ra_replicas a then
       vbind (vlift (require (ra_escrow a = None) (''--escrow names a single provider, so it can'' @ CHR 0x27 #
          ''t fund a replicated run - use --pay to fund one escrow per replica (RFC-0008)''))) (\<lambda>_.
       vbind (vlift (require (\<not> ra_auto_release a \<or> ra_pay a)
          ''--release needs a funded run: pass --pay to fund one escrow per replica'')) (\<lambda>_.
       vbind (run_quorum env (ra_via a) spec (ra_kernel a) (ra_data a) (ra_token a) (ra_x402_demo a) (ra_replicas a)
          (if ra_pay a then Some \<lparr>pc_amount_usdc = ra_amount a, pc_timeout_secs = ra_timeout_secs a, pc_wallet = ra_wallet a,
             pc_rpc_url = ra_rpc_url a, pc_escrow_program = ra_escrow_program a, pc_auto_release = ra_auto_release a\<rparr>
           else None)) (\<lambda>win.
       vret (RanQuorum win))))
     else
       vbind (vlift (require (\<not> ra_pay a) (''--pay funds one escrow per replica - pass --replicas N (>1), or fund a single '' @
          ''escrow with `cloudiy pay` and pass --escrow/--job-id''))) (\<lambda>_.
       run_single env a spec))"

section \<open>Workloads and the VM plane\<close>

definition cpu_request :: "f64 \<Rightarrow> u64 \<Rightarrow> resource_vector" where
  "cpu_request cpu memory_mb =
     rv_with (rv_with [] Cpu (f_to_u64 (f_round (fmul cpu (f_lit 1000))))) Memory memory_mb"

definition demo_or_none :: "('k, 's) net_env \<Rightarrow> bool \<Rightarrow> string option" where
  "demo_or_none env x402_demo = (if x402_demo then Some (demo_payment_payload env) else None)"

text \<open>What a workload command shows.\<close>

datatype shown = ShownResult job_result | ShownQuote quote

definition run_spec_on :: "('k, 's) net_env \<Rightarrow> string option \<Rightarrow> string list \<Rightarrow> workload_spec \<Rightarrow> string option \<Rightarrow> bool \<Rightarrow> (string, shown) nio" where
  "run_spec_on env to via spec token x402_demo =
     vbind (resolve_target env to via spec) (\<lambda>to.
     vbind (sdk_connect env to) (\<lambda>node.
     vbind (vtry (sdk_run_workload env node spec token (demo_or_none env x402_demo))) (\<lambda>r.
     vlift (case r of
        Inr res \<Rightarrow> Inr (ShownResult res)
      | Inl (SubPaymentRequired q) \<Rightarrow> Inr (ShownQuote q)
      | Inl e \<Rightarrow> Inl (submit_error_text env e)))))"

definition launch_workload ::
  "('k, 's) net_env \<Rightarrow> string option \<Rightarrow> string list \<Rightarrow> string \<Rightarrow> f64 \<Rightarrow> u64 \<Rightarrow> string list \<Rightarrow> u64 \<Rightarrow> string option \<Rightarrow> bool \<Rightarrow>
   string list \<Rightarrow> (string, shown) nio" where
  "launch_workload env to via img cpu memory_mb caps timeout_secs token x402_demo cmd =
     run_spec_on env to via
       (default_spec\<lparr>ws_image := Some img, ws_command := cmd, ws_resources := cpu_request cpu memory_mb,
          ws_capabilities := map capability_new caps, ws_max_duration_secs := timeout_secs\<rparr>) token x402_demo"

text \<open>The spec file, read and parsed, is an argument.\<close>

definition deploy ::
  "('k, 's) net_env \<Rightarrow> string option \<Rightarrow> string list \<Rightarrow> string + workload_spec \<Rightarrow> string option \<Rightarrow> bool \<Rightarrow> (string, shown) nio" where
  "deploy env to via spec_file token x402_demo =
     vbind (vlift spec_file) (\<lambda>spec.
     vbind (vlift (require (ws_image spec \<noteq> None \<or> ws_template spec \<noteq> None) ''spec needs `image` (OCI) or `template` (kernel)'')) (\<lambda>_.
     run_spec_on env to via spec token x402_demo))"

definition vm_request :: "('k, 's) net_env \<Rightarrow> net_event list \<Rightarrow> string option \<Rightarrow> string option \<Rightarrow> job_request" where
  "vm_request env h token payment = \<lparr>rq_job_id = nt_uuid_text env (nt_uuid env h), rq_kernel = '''', rq_input_data = [],
     rq_auth_token = or_default '''' token, rq_consumer_pubkey = None, rq_payment = payment\<rparr>"

definition vm_rpc :: "('k, 's) net_env \<Rightarrow> string \<Rightarrow> (net_event list \<Rightarrow> request) \<Rightarrow> (string, response) nio" where
  "vm_rpc env to req h = client_rpc env ''invalid provider Node ID'' to (req h) h"

datatype vm_shown = VmShown vm_info | VmQuoted json

definition cli_vm_up ::
  "('k, 's) net_env \<Rightarrow> string \<Rightarrow> string option \<Rightarrow> f64 \<Rightarrow> u64 \<Rightarrow> u16 list \<Rightarrow> string option \<Rightarrow> bool \<Rightarrow> (string, vm_shown) nio" where
  "cli_vm_up env to img cpu memory_mb ports token x402_demo =
     vbind (vm_rpc env to (\<lambda>h. RStartVm (vm_request env h token (demo_or_none env x402_demo))
        (default_spec\<lparr>ws_image := img, ws_resources := cpu_request cpu memory_mb, ws_ports := ports\<rparr>))) (\<lambda>resp.
     case resp of SVm info \<Rightarrow> vret (VmShown info) | SPaymentRequired r \<Rightarrow> vret (VmQuoted r)
     | _ \<Rightarrow> vlift (Inl (other_response env resp)))"

definition cli_vm_status :: "('k, 's) net_env \<Rightarrow> string \<Rightarrow> (string, vm_info) nio" where
  "cli_vm_status env to =
     vbind (vm_rpc env to (\<lambda>h. RVmStatus (vm_request env h None None))) (\<lambda>resp.
     case resp of SVm info \<Rightarrow> vret info | _ \<Rightarrow> vlift (Inl (other_response env resp)))"

definition cli_vm_down :: "('k, 's) net_env \<Rightarrow> string \<Rightarrow> bool \<Rightarrow> (string, unit) nio" where
  "cli_vm_down env to wipe =
     vbind (vm_rpc env to (\<lambda>h. RStopVm (vm_request env h None None) wipe)) (\<lambda>resp.
     case resp of SAck \<Rightarrow> vret () | _ \<Rightarrow> vlift (Inl (other_response env resp)))"

text \<open>\<open>secs.max(0)\<close> in hours, minutes and seconds.\<close>

definition fmt_duration :: "i64 \<Rightarrow> string" where
  "fmt_duration secs =
     (let s = max (sint secs) 0; hours = s div 3600; mins = (s mod 3600) div 60; sec = s mod 60 in
      if 0 < hours then show_int hours @ ''h '' @ show_int mins @ ''m '' @ show_int sec @ ''s''
      else if 0 < mins then show_int mins @ ''m '' @ show_int sec @ ''s''
      else show_int sec @ ''s'')"

text \<open>The output of \<open>stty size\<close>, rows before columns.\<close>

definition term_size :: "string option \<Rightarrow> u16 \<times> u16" where
  "term_size out =
     (case out of
        None \<Rightarrow> (80, 24)
      | Some s \<Rightarrow> (case List.map_filter parse_word (split_whitespace s) of [rows, cols] \<Rightarrow> (cols, rows) | _ \<Rightarrow> (80, 24)))"

text \<open>What the terminal shows of a session, and the exit code it ends with.\<close>

fun shell_output :: "session_frame list \<Rightarrow> bytes \<times> i32 option" where
  "shell_output [] = ([], None)"
| "shell_output (FData d # frames) = (let r = shell_output frames in (d @ fst r, snd r))"
| "shell_output (FExit code # frames) = ([], code)"
| "shell_output (FError m # frames) = ([], None)"
| "shell_output (_ # frames) = shell_output frames"

definition shell_start :: "('k, 's) net_env \<Rightarrow> string \<Rightarrow> string option \<Rightarrow> string list \<Rightarrow> string option \<Rightarrow> (string, string) nio" where
  "shell_start env to token cmd stty =
     (case term_size stty of (cols, rows) \<Rightarrow>
     vbind (vm_rpc env to (\<lambda>h. ROpenSession (vm_request env h token None) cmd cols rows)) (\<lambda>resp.
     case resp of SSessionOpened vm_id \<Rightarrow> vret vm_id
     | _ \<Rightarrow> vlift (Inl (case error_message env resp of Some m \<Rightarrow> m | None \<Rightarrow> ''unexpected response''))))"

definition tunnel_one :: "('k, 's) net_env \<Rightarrow> 'k \<Rightarrow> u16 \<Rightarrow> string option \<Rightarrow> (string, unit) nio" where
  "tunnel_one env node port token =
     vbind (\<lambda>h. sdk_request env node (RTunnel (vm_request env h token None) port) h) (\<lambda>resp.
     case resp of SAck \<Rightarrow> vret ()
     | _ \<Rightarrow> vlift (Inl (case error_message env resp of Some m \<Rightarrow> m | None \<Rightarrow> ''unexpected response'')))"

definition cli_release :: "('k, 's) net_env \<Rightarrow> string \<Rightarrow> string option \<Rightarrow> string \<Rightarrow> string option \<Rightarrow> (string, release_result) nio" where
  "cli_release env escrow wallet rpc_url program =
     (let sol = nt_sol env rpc_url in
      vbind (load_wallet env wallet) (\<lambda>kp.
      vbind (vlift (parse_pubkey sol (or_default DEVNET_ESCROW_PROGRAM program))) (\<lambda>prog.
      vbind (vlift (parse_pubkey sol escrow)) (\<lambda>job_account.
      on_chain env rpc_url (ChRelease prog job_account) (\<lambda>so n. sol_release so n kp prog job_account)))))"

definition cli_refund :: "('k, 's) net_env \<Rightarrow> string \<Rightarrow> string option \<Rightarrow> string \<Rightarrow> string option \<Rightarrow> (string, refund_result) nio" where
  "cli_refund env escrow wallet rpc_url program =
     (let sol = nt_sol env rpc_url in
      vbind (load_wallet env wallet) (\<lambda>kp.
      vbind (vlift (parse_pubkey sol (or_default DEVNET_ESCROW_PROGRAM program))) (\<lambda>prog.
      vbind (vlift (parse_pubkey sol escrow)) (\<lambda>job_account.
      on_chain env rpc_url (ChRefund prog job_account) (\<lambda>so n. sol_refund so n kp prog job_account)))))"

definition job_status :: "('k, 's) net_env \<Rightarrow> string \<Rightarrow> string \<Rightarrow> (string, status_response) nio" where
  "job_status env to jid = vbind (sdk_connect env to) (\<lambda>node. sdk_status env node jid)"

definition cli_node_info :: "('k, 's) net_env \<Rightarrow> string \<Rightarrow> (string, node_info) nio" where
  "cli_node_info env to = vbind (sdk_connect env to) (sdk_info env)"

definition providers :: "('k, 's) net_env \<Rightarrow> string list \<Rightarrow> (string, provider_announcement list) nio" where
  "providers env via =
     (let dirs = directories env via in
      vbind (vlift (require (dirs \<noteq> []) ''no directory configured - pass --via <directory-id> or set CLOUDIY_DIRECTORY'')) (\<lambda>_.
      fetch_providers env dirs 0))"

end
