(* ===== verification/Gateway_Api.thy ===== *)
theory Gateway_Api
  imports Gateway_Workers Gateway_Proxy Consumer Pricing
begin

text \<open>
  The handlers of the gateway (\<open>crates/cloudiy/src/gateway.rs\<close>): discovery and quotes for the browser, the VM
  plane, port forwards, the proxy into a VM, the shell bridge; model runs are in \<open>Gateway_Stream\<close> and the pages
  of a provider in \<open>Gateway_Pages\<close>. Requests to other nodes go through the network of \<open>Sdk\<close>; how Serde writes values is the
  parameter \<open>gw_codec\<close>. Sockets, tasks and channels are left out: what is relayed is a function of what arrives,
  and sending to a peer that has gone ends a relay earlier.
\<close>

record gw_codec =
  gx_f64 :: "f64 \<Rightarrow> json"
  gx_announcements :: "provider_announcement list \<Rightarrow> json"
  gx_info :: "node_info \<Rightarrow> json"
  gx_vm :: "vm_info \<Rightarrow> json"
  gx_lossy :: "bytes \<Rightarrow> string"
  gx_parse :: "bytes \<Rightarrow> json option"
  gx_read_f64 :: "string \<Rightarrow> f64"
  gx_backends :: "string list \<Rightarrow> json"
  gx_actions :: "autohost_action list \<Rightarrow> json"

record gateway =
  gs_id :: string
  gs_forwards :: "(u16, string \<times> u16) btree_map"

section \<open>Asking a node\<close>

definition gw_req :: "('k, 's) net_env \<Rightarrow> net_event list \<Rightarrow> string option \<Rightarrow> string option \<Rightarrow> job_request" where
  "gw_req env h token payment = \<lparr>rq_job_id = nt_uuid_text env (nt_uuid env h), rq_kernel = '''', rq_input_data = [],
     rq_auth_token = or_default '''' token, rq_consumer_pubkey = None, rq_payment = payment\<rparr>"

definition dial :: "('k, 's) net_env \<Rightarrow> string \<Rightarrow> request \<Rightarrow> (string, response) nio" where
  "dial env to req = client_rpc env ''invalid node id'' to req"

text \<open>The end of every route: the response it expects, an error of the node, or anything else.\<close>

definition route_answer :: "('k, 's) net_env \<Rightarrow> (response \<Rightarrow> json option) \<Rightarrow> string + response \<Rightarrow> json" where
  "route_answer env expected r =
     (case r of
        Inl e \<Rightarrow> json_error e
      | Inr resp \<Rightarrow>
         (case expected resp of
            Some j \<Rightarrow> j
          | None \<Rightarrow> json_error (case error_message env resp of Some m \<Rightarrow> m | None \<Rightarrow> ''unexpected response'')))"

definition ask_route ::
  "('k, 's) net_env \<Rightarrow> string \<Rightarrow> (net_event list \<Rightarrow> request) \<Rightarrow> (response \<Rightarrow> json option) \<Rightarrow> (string, json) nio" where
  "ask_route env to req expected h =
     vbind (vtry (dial env to (req h))) (\<lambda>r. vret (route_answer env expected r)) h"

definition get_id :: "gateway \<Rightarrow> json" where
  "get_id g = JObj [(''id'', JStr (gs_id g))]"

section \<open>Discovery\<close>

definition verified_of :: "('k, 's) net_env \<Rightarrow> i64 \<Rightarrow> signed_payload list \<Rightarrow> provider_announcement list" where
  "verified_of env now l =
     List.map_filter (\<lambda>sa. case verify_announcement (nt_crypto env) sa now of Inr a \<Rightarrow> Some a | Inl _ \<Rightarrow> None) l"

definition get_providers :: "('k, 's) net_env \<Rightarrow> gw_codec \<Rightarrow> string \<Rightarrow> (string, json) nio" where
  "get_providers env gx via =
     vbind (vtry (dial env via RProviders)) (\<lambda>r h.
     (Inr (route_answer env (\<lambda>resp. case resp of
          SProviders l \<Rightarrow> Some (JObj [(''providers'', gx_announcements gx (verified_of env (nt_now env h) l))]) | _ \<Rightarrow> None) r), h))"

definition machine_json :: "gw_codec \<Rightarrow> provider_announcement \<Rightarrow> json" where
  "machine_json gx p =
     (let r = r_shared (pa_resources p) in
      JObj [(''node'', JStr (pa_identity p)), (''cpu_cores'', gx_f64 gx (fdiv (f_of_u64 (rv_get r Cpu)) (f_lit 1000))),
        (''memory_mb'', JInt (uint (rv_get r Memory))), (''vram_mb'', JInt (uint (rv_get r Vram))),
        (''storage_mb'', JInt (uint (rv_get r Storage))), (''has_gpu'', JBool (0 < rv_get r Gpu \<or> 0 < rv_get r Vram)),
        (''price_per_hour'', gx_f64 gx (fdiv (f_of_u64 (pa_price p)) (f_lit 1000000))),
        (''utilization'', gx_f64 gx (pa_utilization p)), (''region'', optional_str (pa_region p))])"

definition providers_at :: "('k, 's) net_env \<Rightarrow> i64 \<Rightarrow> string \<Rightarrow> (string, provider_announcement list) nio" where
  "providers_at env now dir =
     vbind (vtry (dial env dir RProviders)) (\<lambda>r.
     vret (case r of Inr (SProviders l) \<Rightarrow> verified_of env now l | _ \<Rightarrow> []))"

definition get_machines :: "('k, 's) net_env \<Rightarrow> gw_codec \<Rightarrow> (string, json) nio" where
  "get_machines env gx h =
     vbind (vfold (\<lambda>dir ms. vbind (providers_at env (nt_now env h) dir) (\<lambda>ps. vret (ms @ ps))) (directories env []) []) (\<lambda>ps.
     vret (JObj [(''machines'', JArr (map (machine_json gx) ps))])) h"

definition via_or_configured :: "('k, 's) net_env \<Rightarrow> string option \<Rightarrow> string list" where
  "via_or_configured env via =
     (case via of Some v \<Rightarrow> if v \<noteq> '''' then [v] else directories env [] | None \<Rightarrow> directories env [])"

text \<open>Each directory is told of the interest before it is asked.\<close>

definition discover_step ::
  "('k, 's) net_env \<Rightarrow> i64 \<Rightarrow> string \<Rightarrow> string \<Rightarrow> provider_announcement list \<Rightarrow> (string, provider_announcement list) nio" where
  "discover_step env now key dir found =
     vbind (vtry (dial env dir (REndpointInterest key))) (\<lambda>_ :: string + response.
     vbind (providers_at env now dir) (\<lambda>ps. vret (found @ filter (\<lambda>p. key \<in> set (pa_served_models p)) ps)))"

definition discover_endpoint_providers ::
  "('k, 's) net_env \<Rightarrow> string option \<Rightarrow> string \<Rightarrow> (string, provider_announcement list \<times> string option) nio" where
  "discover_endpoint_providers env via key h =
     vbind (vfold (discover_step env (nt_now env h) key) (via_or_configured env via) []) (\<lambda>ps.
     vret (ps, map_option pa_identity (select_endpoint_provider ps key))) h"

definition endpoint_providers :: "('k, 's) net_env \<Rightarrow> gw_codec \<Rightarrow> string option \<Rightarrow> string \<Rightarrow> (string, json) nio" where
  "endpoint_providers env gx via key =
     vbind (discover_endpoint_providers env via key) (\<lambda>(ps, best).
     vret (JObj [(''providers'', gx_announcements gx ps), (''best'', optional_str best)]))"

text \<open>The demand of several directories: the interest is added (at 32 bits), the greatest supply is kept.\<close>

type_synonym demand_table = "(string, u32 \<times> u32) btree_map"

definition merge_demand :: "demand_entry \<Rightarrow> demand_table \<Rightarrow> demand_table" where
  "merge_demand e m =
     bt_entry (de_key e) (0, 0) (\<lambda>(interest, supply). (interest + de_recent_interest e, max supply (de_providers e))) m"

definition demand_score :: "u32 \<times> u32 \<Rightarrow> f64" where
  "demand_score d = (case d of (interest, supply) \<Rightarrow>
     fdiv (f_of_u64 (ucast interest)) (fadd (f_of_u64 (ucast supply)) (f_lit 1)))"

fun insert_demand :: "string \<times> u32 \<times> u32 \<Rightarrow> (string \<times> u32 \<times> u32) list \<Rightarrow> (string \<times> u32 \<times> u32) list" where
  "insert_demand x [] = [x]"
| "insert_demand x (y # ys) =
     (if total_le (demand_score (snd y)) (demand_score (snd x)) then x # y # ys else y # insert_demand x ys)"

definition sort_demand :: "(string \<times> u32 \<times> u32) list \<Rightarrow> (string \<times> u32 \<times> u32) list" where
  "sort_demand xs = foldr insert_demand xs []"

definition demand_json :: "gw_codec \<Rightarrow> string \<times> u32 \<times> u32 \<Rightarrow> json" where
  "demand_json gx row = (case row of (key, interest, supply) \<Rightarrow>
     JObj [(''key'', JStr key), (''recent_interest'', JInt (uint interest)), (''providers'', JInt (uint supply)),
       (''score'', gx_f64 gx (demand_score (interest, supply)))])"

definition get_demand :: "('k, 's) net_env \<Rightarrow> gw_codec \<Rightarrow> string option \<Rightarrow> (string, json) nio" where
  "get_demand env gx via =
     vbind (vfold (\<lambda>dir m. vbind (vtry (dial env dir RDemand)) (\<lambda>r.
         vret (case r of Inr (SDemand l) \<Rightarrow> fold merge_demand l m | _ \<Rightarrow> m))) (via_or_configured env via) []) (\<lambda>m.
     vret (JObj [(''demand'', JArr (map (demand_json gx) (sort_demand m)))]))"

section \<open>Quotes\<close>

definition quote_json :: "gw_codec \<Rightarrow> string \<Rightarrow> u64 option \<Rightarrow> node_info \<Rightarrow> json" where
  "quote_json gx node posted_micro i =
     (let posted = map_option (\<lambda>p. fdiv (f_of_u64 p) (f_lit 1000000)) posted_micro in
      JObj [(''node'', JStr node), (''price_usdc'', gx_f64 gx (or_default (ni_price_usdc i) posted)),
        (''pricing'', JStr (if posted \<noteq> None then ''posted'' else ''provider'')), (''usdc_mint'', JStr (ni_usdc_mint i)),
        (''escrow_program'', JStr (ni_escrow_program i)), (''payout'', optional_str (ni_solana_pubkey i)),
        (''node_key'', JStr (ni_endpoint_id i)), (''network'', JStr (ni_network i))])"

definition get_quote :: "('k, 's) net_env \<Rightarrow> gw_codec \<Rightarrow> string \<Rightarrow> string option \<Rightarrow> u64 \<Rightarrow> (string, json) nio" where
  "get_quote env gx key to max_price_micro_usdc =
     vbind (case to of
         Some t \<Rightarrow> if t \<noteq> '''' then vret (Some t) else vbind (discover_endpoint_providers env None key) (\<lambda>d. vret (snd d))
       | None \<Rightarrow> vbind (discover_endpoint_providers env None key) (\<lambda>d. vret (snd d))) (\<lambda>target.
     case target of
       None \<Rightarrow> vret (json_error ''no provider is announcing this model right now'')
     | Some node \<Rightarrow>
         let posted_micro = posted_price_micro_usdc devnet_v1 key in
         (case posted_micro of
            Some p \<Rightarrow>
              if 0 < max_price_micro_usdc \<and> max_price_micro_usdc < p then
                vret (json_error (''posted price ('' @ show_word p @ '' micro-USDC) exceeds your ceiling ('' @
                  show_word max_price_micro_usdc @ '')''))
              else ask_route env node (\<lambda>_. RInfo) (\<lambda>resp. case resp of SInfo i \<Rightarrow> Some (quote_json gx node posted_micro i) | _ \<Rightarrow> None)
          | None \<Rightarrow> ask_route env node (\<lambda>_. RInfo) (\<lambda>resp. case resp of SInfo i \<Rightarrow> Some (quote_json gx node posted_micro i) | _ \<Rightarrow> None)))"

definition get_info :: "('k, 's) net_env \<Rightarrow> gw_codec \<Rightarrow> string \<Rightarrow> (string, json) nio" where
  "get_info env gx to = ask_route env to (\<lambda>_. RInfo) (\<lambda>resp. case resp of SInfo i \<Rightarrow> Some (gx_info gx i) | _ \<Rightarrow> None)"

section \<open>Kernels and VMs\<close>

definition payment_required :: "json \<Rightarrow> json" where
  "payment_required r = JObj [(''payment_required'', r)]"

definition run_kernel :: "('k, 's) net_env \<Rightarrow> gw_codec \<Rightarrow> string \<Rightarrow> string \<Rightarrow> string \<Rightarrow> string option \<Rightarrow> (string, json) nio" where
  "run_kernel env gx to kname data token =
     ask_route env to (\<lambda>h. RSubmit ((gw_req env h token None)\<lparr>rq_kernel := kname, rq_input_data := as_bytes data\<rparr>)) (\<lambda>resp.
     case resp of
       SJob r \<Rightarrow> Some (JObj [(''status'', JStr (jr_status r)), (''output'', JStr (gx_lossy gx (jr_output r))),
         (''signed_by'', optional_str (jr_signed_by r))])
     | SPaymentRequired r \<Rightarrow> Some (payment_required r)
     | _ \<Rightarrow> None)"

definition vm_up_spec :: "string option \<Rightarrow> f64 option \<Rightarrow> u64 option \<Rightarrow> u16 list \<Rightarrow> workload_spec" where
  "vm_up_spec img cpu memory_mb ports =
     default_spec\<lparr>ws_image := img, ws_resources := cpu_request (or_default (f_lit 1) cpu) (or_default 1024 memory_mb), ws_ports := ports\<rparr>"

definition vm_up ::
  "('k, 's) net_env \<Rightarrow> gw_codec \<Rightarrow> string \<Rightarrow> string option \<Rightarrow> f64 option \<Rightarrow> u64 option \<Rightarrow> u16 list \<Rightarrow> string option \<Rightarrow> bool \<Rightarrow> (string, json) nio" where
  "vm_up env gx to img cpu memory_mb ports token x402_demo =
     ask_route env to (\<lambda>h. RStartVm (gw_req env h token (demo_or_none env x402_demo)) (vm_up_spec img cpu memory_mb ports)) (\<lambda>resp.
     case resp of SVm i \<Rightarrow> Some (gx_vm gx i) | SPaymentRequired r \<Rightarrow> Some (payment_required r) | _ \<Rightarrow> None)"

definition gw_vm_status :: "('k, 's) net_env \<Rightarrow> gw_codec \<Rightarrow> string \<Rightarrow> (string, json) nio" where
  "gw_vm_status env gx to =
     ask_route env to (\<lambda>h. RVmStatus (gw_req env h None None)) (\<lambda>resp. case resp of SVm i \<Rightarrow> Some (gx_vm gx i) | _ \<Rightarrow> None)"

definition gw_vm_down :: "('k, 's) net_env \<Rightarrow> string \<Rightarrow> bool \<Rightarrow> (string, json) nio" where
  "gw_vm_down env to wipe =
     ask_route env to (\<lambda>h. RStopVm (gw_req env h None None) wipe) (\<lambda>resp. case resp of
        SAck \<Rightarrow> Some (JObj [(''ok'', JBool True)]) | _ \<Rightarrow> None)"

section \<open>Port forwards\<close>

definition forward_url :: "u16 \<Rightarrow> string" where
  "forward_url local_port = ''http://127.0.0.1:'' @ show_word local_port"

text \<open>\<open>bound\<close> is what binding a free port of the loopback interface gives.\<close>

definition forward_open ::
  "('k, 's) net_env \<Rightarrow> string + u16 \<Rightarrow> string \<Rightarrow> u16 \<Rightarrow> gateway \<Rightarrow> json \<times> gateway" where
  "forward_open env bound to port g =
     (if port = 0 then (json_error ''port must be non-zero'', g)
      else if cr_parse_key (nt_crypto env) to = None then (json_error ''invalid node id'', g)
      else case bound of
        Inl e \<Rightarrow> (json_error (''cannot open a local port: '' @ e), g)
      | Inr local_port \<Rightarrow>
          (JObj [(''ok'', JBool True), (''local_port'', JInt (uint local_port)), (''url'', JStr (forward_url local_port)),
             (''to'', JStr to), (''port'', JInt (uint port))],
           g\<lparr>gs_forwards := bt_insert local_port (to, port) (gs_forwards g)\<rparr>))"

definition forward_list :: "gateway \<Rightarrow> json" where
  "forward_list g = JObj [(''forwards'', JArr (map (\<lambda>(local_port, to, port).
     JObj [(''local_port'', JInt (uint local_port)), (''url'', JStr (forward_url local_port)), (''to'', JStr to), (''port'', JInt (uint port))])
     (gs_forwards g)))]"

definition forward_close :: "u16 \<Rightarrow> gateway \<Rightarrow> json \<times> gateway" where
  "forward_close local_port g =
     (JObj [(''ok'', JBool (bt_get (gs_forwards g) local_port \<noteq> None))],
      g\<lparr>gs_forwards := bt_remove local_port (gs_forwards g)\<rparr>)"

text \<open>Whether the VM is gone; what may be a passing failure counts as still there.\<close>

definition vm_is_gone :: "('k, 's) net_env \<Rightarrow> string + response \<Rightarrow> bool" where
  "vm_is_gone env r =
     (case r of
        Inr (SVm i) \<Rightarrow> vi_state i = ''missing'' \<or> vi_lease_remaining_secs i = Some 0
      | Inr resp \<Rightarrow> (case error_message env resp of Some m \<Rightarrow> contains_str m ''no VM'' | None \<Rightarrow> False)
      | Inl _ \<Rightarrow> False)"

text \<open>What happens to the accept loop of a forward; \<open>Health\<close> comes with the answer about the VM.\<close>

datatype forward_event = FwShutdown | FwHealth "string + response" | FwAccepted | FwAcceptFailed

fun forward_listener :: "('k, 's) net_env \<Rightarrow> u16 \<Rightarrow> forward_event list \<Rightarrow> gateway \<Rightarrow> bool \<times> gateway" where
  "forward_listener env local_port [] g = (True, g)"
| "forward_listener env local_port (FwShutdown # es) g = (False, g)"
| "forward_listener env local_port (FwHealth r # es) g =
     (if vm_is_gone env r then (False, g\<lparr>gs_forwards := bt_remove local_port (gs_forwards g)\<rparr>)
      else forward_listener env local_port es g)"
| "forward_listener env local_port (FwAccepted # es) g = forward_listener env local_port es g"
| "forward_listener env local_port (FwAcceptFailed # es) g = (False, g)"

text \<open>The handshake of a tunnel, for forwards and for the proxy.\<close>

definition open_tunnel :: "('k, 's) net_env \<Rightarrow> string \<Rightarrow> u16 \<Rightarrow> (string, unit) nio" where
  "open_tunnel env to port h =
     vbind (dial env to (RTunnel (gw_req env h None None) port)) (\<lambda>resp.
     case resp of SAck \<Rightarrow> vret ()
     | _ \<Rightarrow> vlift (Inl (case error_message env resp of Some m \<Rightarrow> ''provider refused tunnel: '' @ m | None \<Rightarrow> ''unexpected tunnel response''))) h"

text \<open>\<open>upstream\<close> is what the port of the VM answers to the bytes it gets, read to its end.\<close>

definition proxy_over_tunnel ::
  "('k, 's) net_env \<Rightarrow> (net_event list \<Rightarrow> string \<Rightarrow> u16 \<Rightarrow> bytes \<Rightarrow> string + bytes) \<Rightarrow> string \<Rightarrow> u16 \<Rightarrow> bytes \<Rightarrow> (string, bytes) nio" where
  "proxy_over_tunnel env upstream to port request =
     vbind (open_tunnel env to port) (\<lambda>_ h.
     (case upstream h to port request of
        Inl e \<Rightarrow> Inl (''reading proxied response: '' @ e)
      | Inr raw \<Rightarrow> if PROXY_MAX_RESPONSE < length raw then Inl ''reading proxied response: too long'' else Inr raw, h))"

definition proxy_env_of ::
  "('k, 's) net_env \<Rightarrow> (bytes \<Rightarrow> string option) \<Rightarrow> (header_map \<Rightarrow> bool) \<Rightarrow>
   (net_event list \<Rightarrow> string \<Rightarrow> u16 \<Rightarrow> bytes \<Rightarrow> string + bytes) \<Rightarrow> net_event list \<Rightarrow> proxy_env" where
  "proxy_env_of env utf8 builds upstream h = \<lparr>px_node_id_ok = (\<lambda>to. cr_parse_key (nt_crypto env) to \<noteq> None),
     px_utf8 = utf8, px_builds = builds, px_tunnel = (\<lambda>to port request. fst (proxy_over_tunnel env upstream to port request h))\<rparr>"

section \<open>The shell of the browser\<close>

datatype bridge_event = WsBinary bytes | WsText string | WsClosed | WsOther | UpFrame session_frame | UpEnded

datatype ws_out = OutBinary bytes | OutText string

text \<open>The escape characters of the colours are left out of the texts.\<close>

definition session_ended :: "i32 option \<Rightarrow> string" where
  "session_ended code = ''session ended'' @ (case code of Some c \<Rightarrow> '' (exit '' @ show_int (sint c) @ '')'' | None \<Rightarrow> '''')"

fun shell_bridge ::
  "(string \<Rightarrow> (u16 \<times> u16) option) \<Rightarrow> bridge_event list \<Rightarrow> session_frame list \<times> ws_out list" where
  "shell_bridge resize [] = ([], [])"
| "shell_bridge resize (WsBinary b # es) = (let r = shell_bridge resize es in (FData b # fst r, snd r))"
| "shell_bridge resize (WsText t # es) =
     (let r = shell_bridge resize es in
      ((case resize t of Some (cols, rows) \<Rightarrow> FResize cols rows | None \<Rightarrow> FData (as_bytes t)) # fst r, snd r))"
| "shell_bridge resize (WsClosed # es) = ([FEof], [])"
| "shell_bridge resize (WsOther # es) = shell_bridge resize es"
| "shell_bridge resize (UpFrame (FData d) # es) = (let r = shell_bridge resize es in (fst r, OutBinary d # snd r))"
| "shell_bridge resize (UpFrame (FExit code) # es) = ([], [OutText (session_ended code)])"
| "shell_bridge resize (UpFrame (FError m) # es) = ([], [OutText (''error: '' @ m)])"
| "shell_bridge resize (UpFrame _ # es) = shell_bridge resize es"
| "shell_bridge resize (UpEnded # es) = ([], [])"

text \<open>The start of a shell: an answer to the browser when it fails.\<close>

definition shell_connect :: "('k, 's) net_env \<Rightarrow> string \<Rightarrow> string option \<Rightarrow> u16 \<Rightarrow> u16 \<Rightarrow> (string, unit) nio" where
  "shell_connect env to token cols rows =
     vbind (vlift (ok_or (cr_parse_key (nt_crypto env) to) ''invalid node id'')) (\<lambda>node.
     vbind (vmap_err (\<lambda>e. ''connect failed: '' @ e) (\<lambda>h. (nt_dial env h (nt_key_text env node), h @ [EvConnect (nt_key_text env node)]))) (\<lambda>_.
     vbind (\<lambda>h. sdk_request env node (ROpenSession (gw_req env h token None) [] cols rows) h) (\<lambda>resp.
     case resp of SSessionOpened _ \<Rightarrow> vret ()
     | _ \<Rightarrow> vlift (Inl (case error_message env resp of Some m \<Rightarrow> m | None \<Rightarrow> '''')))))"

end
