(* ===== verification/Gateway_Stream.thy ===== *)
theory Gateway_Stream
  imports Gateway_Api
begin

text \<open>
  Model runs through the gateway (\<open>run_endpoint\<close> and \<open>run_endpoint_stream\<close> of \<open>crates/cloudiy/src/gateway.rs\<close>): on
  the node that was named, or on this machine, and the relay of a model's tokens to the browser, which does
  not depend on how the network cuts the stream into chunks.
\<close>

section \<open>Runs\<close>

record endpoint_body =
  eb_key :: string
  eb_prompt :: string
  eb_to :: "string option"
  eb_token :: "string option"
  eb_payment :: "string option"
  eb_job_id :: "string option"
  eb_audio_b64 :: "string option"

definition filled :: "string option \<Rightarrow> string option" where
  "filled v = Option.bind v (\<lambda>s. if s = '''' then None else Some s)"

text \<open>\<open>v[key] = x\<close>: it fills an object or a null, and panics on any other value.\<close>

fun json_put :: "string \<Rightarrow> json \<Rightarrow> json \<Rightarrow> json option" where
  "json_put k v (JObj kvs) = Some (json_set k v (JObj kvs))"
| "json_put k v JNull = Some (JObj [(k, v)])"
| "json_put k v _ = None"

definition put_some :: "string \<Rightarrow> string option \<Rightarrow> json \<Rightarrow> json option" where
  "put_some k v j = (case v of Some s \<Rightarrow> json_put k (JStr s) j | None \<Rightarrow> Some j)"

definition remote_output :: "gw_codec \<Rightarrow> job_response \<Rightarrow> json option" where
  "remote_output gx r =
     (let out = or_default (JObj [(''output'', JStr (gx_lossy gx (jr_output r)))]) (gx_parse gx (jr_output r)) in
      Option.bind (put_some ''signature'' (jr_signature r) out) (\<lambda>out.
      Option.bind (put_some ''signed_by'' (jr_signed_by r) out)
        (json_put ''settled_via'' (JStr ''remote-provider''))))"

definition endpoint_request :: "('k, 's) net_env \<Rightarrow> net_event list \<Rightarrow> endpoint_body \<Rightarrow> request" where
  "endpoint_request env h b =
     (let request = gw_req env h (eb_token b) (eb_payment b) in
      RRunEndpoint (request\<lparr>rq_job_id := or_default (rq_job_id request) (filled (eb_job_id b)), rq_kernel := ''endpoint:'' @ eb_key b\<rparr>)
        (eb_key b) (eb_prompt b))"

text \<open>On another node; \<open>None\<close> is a panic of the handler.\<close>

definition run_remote :: "('k, 's) net_env \<Rightarrow> gw_codec \<Rightarrow> string \<Rightarrow> endpoint_body \<Rightarrow> (string, json option) nio" where
  "run_remote env gx to b h =
     vbind (vtry (dial env to (endpoint_request env h b))) (\<lambda>r.
     vret (case r of
        Inr (SJob jr) \<Rightarrow> remote_output gx jr
      | _ \<Rightarrow> Some (route_answer env (\<lambda>resp. case resp of SPaymentRequired q \<Rightarrow> Some (payment_required q) | _ \<Rightarrow> None) r))) h"

text \<open>The answer, with the histories of the network and of the commands after it.\<close>

definition run_endpoint ::
  "('k, 's) net_env \<Rightarrow> gw_codec \<Rightarrow> worker_env \<Rightarrow> endpoint_body \<Rightarrow> nat \<Rightarrow> hosting \<Rightarrow> net_event list \<Rightarrow> command list \<Rightarrow>
   json option \<times> hosting \<times> net_event list \<times> command list" where
  "run_endpoint env gx we b now st h cs =
     (let has_audio = filled (eb_audio_b64 b) \<noteq> None in
      if trim (eb_prompt b) = [] \<and> \<not> has_audio then (Some (json_error ''prompt is required''), st, h, cs)
      else case (if has_audio then None else filled (eb_to b)) of
        Some to \<Rightarrow>
          (case run_remote env gx to b h of
             (Inr out, h') \<Rightarrow> (out, st, h', cs)
           | (Inl e, h') \<Rightarrow> (Some (json_error e), st, h', cs))
      | None \<Rightarrow>
          (case serve_endpoint we (eb_key b) (eb_prompt b) (eb_audio_b64 b) now st cs of
             ((j, st'), cs') \<Rightarrow> (Some j, st', h, cs')))"

section \<open>The relay of a stream\<close>

text \<open>The next line of a buffer, without its line feed, and the rest.\<close>

definition next_line :: "bytes \<Rightarrow> (bytes \<times> bytes) option" where
  "next_line buf =
     (if 10 \<in> set buf then Some (takeWhile (\<lambda>b. b \<noteq> 10) buf, tl (dropWhile (\<lambda>b. b \<noteq> 10) buf)) else None)"

record relay =
  rl_out :: "json list"
  rl_total :: u64
  rl_finished :: bool

definition final_message :: "string \<Rightarrow> u64 \<Rightarrow> json" where
  "final_message model tot = JObj [(''done'', JBool True), (''tokens'', JInt (uint tot)), (''model'', JStr model),
     (''settled_via'', JStr ''local-node'')]"

definition json_true :: "json \<Rightarrow> bool" where
  "json_true j \<longleftrightarrow> j = JBool True"

definition relay_line :: "(bytes \<Rightarrow> json option) \<Rightarrow> string \<Rightarrow> bytes \<Rightarrow> relay \<Rightarrow> relay" where
  "relay_line parse model line rl =
     (if line = [] then rl
      else case parse line of
        None \<Rightarrow> rl
      | Some v \<Rightarrow>
         (let tok = jtext (jfield v ''response'');
              out1 = (if tok \<noteq> '''' then rl_out rl @ [JObj [(''token'', JStr tok)]] else rl_out rl) in
          if json_true (jfield v ''done'') then
            let tot = or_default (rl_total rl) (json_u64 (jfield v ''eval_count'')) in
            \<lparr>rl_out = out1 @ [final_message model tot], rl_total = tot, rl_finished = True\<rparr>
          else rl\<lparr>rl_out := out1\<rparr>))"

lemma next_line_shorter: "next_line buf = Some (line, rest) \<Longrightarrow> length rest < length buf"
proof -
  assume n: "next_line buf = Some (line, rest)"
  then have "10 \<in> set buf" and r: "rest = tl (dropWhile (\<lambda>b. b \<noteq> 10) buf)" by (auto simp: next_line_def split: if_splits)
  then have "dropWhile (\<lambda>b. b \<noteq> 10) buf \<noteq> []" by auto
  moreover have "length (dropWhile (\<lambda>b. b \<noteq> 10) buf) \<le> length buf" by (rule length_dropWhile_le)
  ultimately show "length rest < length buf" unfolding r by (cases "dropWhile (\<lambda>b. b \<noteq> 10) buf") auto
qed

text \<open>The complete lines of the buffer are relayed, until one says that the model is through.\<close>

function drain_lines :: "(bytes \<Rightarrow> json option) \<Rightarrow> string \<Rightarrow> bytes \<Rightarrow> relay \<Rightarrow> bytes \<times> relay" where
  "drain_lines parse model buf rl =
     (case next_line buf of
        None \<Rightarrow> (buf, rl)
      | Some (line, rest) \<Rightarrow>
          let rl' = relay_line parse model line rl in
          if rl_finished rl' then (rest, rl') else drain_lines parse model rest rl')"
  by pat_completeness auto
termination by (relation "measure (\<lambda>(_, _, buf, _). length buf)") (auto simp: next_line_shorter)

declare drain_lines.simps [simp del]

text \<open>The chunks as they arrive; a chunk that fails ends the stream.\<close>

fun relay_chunks :: "(bytes \<Rightarrow> json option) \<Rightarrow> string \<Rightarrow> bytes option list \<Rightarrow> bytes \<Rightarrow> relay \<Rightarrow> relay" where
  "relay_chunks parse model [] buf rl = rl"
| "relay_chunks parse model (None # chunks) buf rl = rl"
| "relay_chunks parse model (Some c # chunks) buf rl =
     (case drain_lines parse model (buf @ c) rl of (buf', rl') \<Rightarrow>
      if rl_finished rl' then rl' else relay_chunks parse model chunks buf' rl')"

definition relay_stream :: "(bytes \<Rightarrow> json option) \<Rightarrow> string \<Rightarrow> bool \<Rightarrow> bytes option list \<Rightarrow> json list" where
  "relay_stream parse model cold chunks =
     (let rl = relay_chunks parse model chunks [] \<lparr>rl_out = [], rl_total = 0, rl_finished = False\<rparr> in
      JObj [(''cold_start'', JBool cold), (''model'', JStr model)] # rl_out rl @
      (if rl_finished rl then [] else [final_message model (rl_total rl)]))"

text \<open>The answer to the browser: a refusal, or the lines of the stream.\<close>

datatype stream_reply = StreamRefused nat json | StreamLines "json list"

text \<open>\<open>post\<close> opens the stream of the worker: why it fails, or its chunks.\<close>

definition run_endpoint_stream ::
  "worker_env \<Rightarrow> (bytes \<Rightarrow> json option) \<Rightarrow> (json \<Rightarrow> post_error + bytes option list) \<Rightarrow> endpoint_body \<Rightarrow> nat \<Rightarrow> hosting \<Rightarrow> command list \<Rightarrow>
   (stream_reply \<times> hosting) \<times> command list" where
  "run_endpoint_stream we parse post b now st h =
     (let has_audio = filled (eb_audio_b64 b) \<noteq> None; remote = filled (eb_to b) \<noteq> None in
      case (if remote \<or> has_audio then None else ollama_model_for (eb_key b)) of
        None \<Rightarrow> ((StreamRefused 400 (json_error ''streaming is only for local text models; use /api/endpoint''), st), h)
      | Some model \<Rightarrow>
          if trim (eb_prompt b) = [] then ((StreamRefused 400 (json_error ''prompt is required''), st), h)
          else if MAX_PROMPT_BYTES < length (eb_prompt b) then
            ((StreamRefused 400 (json_error (''prompt too large ('' @ show_nat (length (eb_prompt b)) @ '' bytes; max '' @
               show_nat MAX_PROMPT_BYTES @ '')'')), st), h)
          else case ensure_ollama (we_gateway we) model h of
            (Inl e, h') \<Rightarrow> ((StreamRefused 200 (json_error (''provisioning failed: '' @ e)), st), h')
          | (Inr cold, h') \<Rightarrow>
             (case post (JObj [(''model'', JStr model), (''prompt'', JStr (eb_prompt b)), (''stream'', JBool True),
                  (''options'', JObj [(''num_predict'', JInt (uint (text_max_tokens (we_gateway we))))])]) of
                Inl e \<Rightarrow> ((StreamLines [JObj [(''cold_start'', JBool cold), (''model'', JStr model)],
                    JObj [(''error'', JStr (case e of
                        PostTimeout \<Rightarrow> ''inference timed out: the model is running on CPU. Try a shorter prompt, or serve this model on a GPU node.''
                      | _ \<Rightarrow> ''inference failed: '' @ post_error_text e)), (''done'', JBool True)]], st), h')
              | Inr chunks \<Rightarrow> ((StreamLines (relay_stream parse model cold chunks), mark_warm (eb_key b) now st), h')))"

section \<open>Chunks do not matter\<close>

text \<open>The reference: the complete lines of the whole stream, relayed up to the one that ends it.\<close>

fun complete_lines :: "bytes \<Rightarrow> bytes \<Rightarrow> bytes list" where
  "complete_lines acc [] = []"
| "complete_lines acc (b # bs) = (if b = 10 then acc # complete_lines [] bs else complete_lines (acc @ [b]) bs)"

fun relay_lines :: "(bytes \<Rightarrow> json option) \<Rightarrow> string \<Rightarrow> bytes list \<Rightarrow> relay \<Rightarrow> relay" where
  "relay_lines parse model [] rl = rl"
| "relay_lines parse model (l # ls) rl =
     (let rl' = relay_line parse model l rl in if rl_finished rl' then rl' else relay_lines parse model ls rl')"

lemma complete_lines_acc: "10 \<notin> set pre \<Longrightarrow> complete_lines acc (pre @ bs) = complete_lines (acc @ pre) bs"
  by (induction pre arbitrary: acc) auto

lemma complete_lines_next:
  "complete_lines [] buf = (case next_line buf of None \<Rightarrow> [] | Some (line, rest) \<Rightarrow> line # complete_lines [] rest)"
proof (cases "10 \<in> set buf")
  case True
  define line where "line = takeWhile (\<lambda>b. b \<noteq> 10) buf"
  have d: "dropWhile (\<lambda>b. b \<noteq> 10) buf \<noteq> []" using True by auto
  then have "hd (dropWhile (\<lambda>b. b \<noteq> 10) buf) = 10" using hd_dropWhile [of "\<lambda>b. b \<noteq> 10" buf] by simp
  with d have s: "buf = line @ 10 # tl (dropWhile (\<lambda>b. b \<noteq> 10) buf)"
    unfolding line_def by (metis list.collapse takeWhile_dropWhile_id)
  have "10 \<notin> set line" unfolding line_def by (auto dest: set_takeWhileD)
  then have "complete_lines [] buf = line # complete_lines [] (tl (dropWhile (\<lambda>b. b \<noteq> 10) buf))"
    by (subst s) (simp add: complete_lines_acc)
  then show ?thesis using True by (simp add: next_line_def line_def)
next
  case False
  then have "complete_lines [] buf = []" using complete_lines_acc [of buf "[]" "[]"] by simp
  then show ?thesis using False by (simp add: next_line_def)
qed

lemma complete_lines_append:
  "complete_lines acc (xs @ ys) = complete_lines acc xs @ complete_lines (if 10 \<in> set xs then rev (takeWhile (\<lambda>b. b \<noteq> 10) (rev xs)) else acc @ xs) ys"
proof (induction xs arbitrary: acc)
  case Nil
  then show ?case by simp
next
  case (Cons b bs)
  show ?case
  proof (cases "b = 10")
    case True
    then show ?thesis using Cons.IH [of "[]"] by (auto simp: takeWhile_append)
  next
    case False
    then show ?thesis using Cons.IH [of "acc @ [b]"] by (auto simp: takeWhile_append)
  qed
qed

lemma drain_spec:
  "\<not> rl_finished rl \<Longrightarrow> drain_lines parse model buf rl = (buf', rl') \<Longrightarrow>
     rl' = relay_lines parse model (complete_lines [] buf) rl \<and>
     (\<not> rl_finished rl' \<longrightarrow> (\<forall>more. complete_lines [] (buf @ more) = complete_lines [] buf @ complete_lines [] (buf' @ more)))"
proof (induction parse model buf rl rule: drain_lines.induct)
  case (1 parse model buf rl)
  show ?case
  proof (cases "next_line buf")
    case None
    then have "complete_lines [] buf = []" by (simp add: complete_lines_next)
    then show ?thesis using 1(3) None by (simp add: drain_lines.simps [of parse model buf])
  next
    case (Some p)
    obtain line rest where p: "p = (line, rest)" by (cases p)
    let ?rl = "relay_line parse model line rl"
    have l: "complete_lines [] buf = line # complete_lines [] rest" using Some p by (simp add: complete_lines_next [of buf])
    have m: "complete_lines [] (buf @ more) = line # complete_lines [] (rest @ more)" for more
    proof -
      have "next_line (buf @ more) = Some (line, rest @ more)"
        using Some p by (auto simp: next_line_def split: if_splits)
      then show ?thesis by (simp add: complete_lines_next [of "buf @ more"])
    qed
    show ?thesis
    proof (cases "rl_finished ?rl")
      case True
      then show ?thesis using 1(3) Some p l by (simp add: drain_lines.simps [of parse model buf] Let_def)
    next
      case False
      then have "drain_lines parse model rest ?rl = (buf', rl')"
        using 1(3) Some p by (simp add: drain_lines.simps [of parse model buf] Let_def)
      from 1(1) [OF Some p [symmetric] refl False False this] show ?thesis using l m False by (simp add: Let_def)
    qed
  qed
qed

lemma relay_lines_append:
  "relay_lines parse model (xs @ ys) rl =
     (let r = relay_lines parse model xs rl in if xs \<noteq> [] \<and> rl_finished r then r else relay_lines parse model ys r)"
  by (induction xs arbitrary: rl) (auto simp: Let_def)

lemma relay_chunks_spec:
  "\<not> rl_finished rl \<Longrightarrow> complete_lines [] buf = [] \<Longrightarrow>
     relay_chunks parse model (map Some cs) buf rl = relay_lines parse model (complete_lines [] (buf @ concat cs)) rl"
proof (induction cs arbitrary: buf rl)
  case Nil
  then show ?case by simp
next
  case (Cons c cs)
  obtain buf' rl' where d: "drain_lines parse model (buf @ c) rl = (buf', rl')" by fastforce
  note s = drain_spec [OF Cons.prems(1) d]
  show ?case
  proof (cases "rl_finished rl'")
    case True
    have "complete_lines [] (buf @ c) \<noteq> []" using s True Cons.prems(1) by auto
    moreover obtain acc where "complete_lines [] ((buf @ c) @ concat cs) = complete_lines [] (buf @ c) @ complete_lines acc (concat cs)"
      using complete_lines_append [of "[]" "buf @ c" "concat cs"] by blast
    ultimately have "relay_lines parse model (complete_lines [] ((buf @ c) @ concat cs)) rl = rl'"
      using s True by (simp only:) (simp add: relay_lines_append Let_def)
    then show ?thesis using d True by simp
  next
    case False
    have all: "complete_lines [] ((buf @ c) @ more) = complete_lines [] (buf @ c) @ complete_lines [] (buf' @ more)" for more
      using s False by blast
    have e: "complete_lines [] buf' = []" using all [of "[]"] by simp
    have "relay_lines parse model (complete_lines [] ((buf @ c) @ concat cs)) rl =
        relay_lines parse model (complete_lines [] (buf' @ concat cs)) rl'"
      using s False unfolding all by (simp add: relay_lines_append Let_def)
    then show ?thesis using Cons.IH [OF False e] d False by simp
  qed
qed

text \<open>
  The browser sees the same answer however the stream is cut. What the gateway relays of a model's
  stream are the tokens of its complete lines up to the one that ends it, with the first and last message
  of its own, for any division of the bytes into chunks.
\<close>
theorem relay_ignores_chunks:
  "relay_stream parse model cold (map Some cs) =
     (let rl = relay_lines parse model (complete_lines [] (concat cs)) \<lparr>rl_out = [], rl_total = 0, rl_finished = False\<rparr> in
      JObj [(''cold_start'', JBool cold), (''model'', JStr model)] # rl_out rl @
      (if rl_finished rl then [] else [final_message model (rl_total rl)]))"
  using relay_chunks_spec [of "\<lparr>rl_out = [], rl_total = 0, rl_finished = False\<rparr>" "[]"] by (simp add: relay_stream_def)

end
