(* ===== verification/Gateway_Pages.thy ===== *)
theory Gateway_Pages
  imports Gateway_Stream
begin

text \<open>
  The pages of a provider (\<open>models_list\<close>, \<open>node_dashboard\<close>, \<open>read_receipts_summary\<close>, the policy and the log of
  \<open>crates/cloudiy/src/gateway.rs\<close>) and the marker of a running provider (\<open>local_provider_running\<close> of
  \<open>crates/cloudiy/src/core.rs\<close>). A file is its content, if it can be read; the operating system's table of
  processes is a function from process ids to names.
\<close>

section \<open>Files\<close>

definition load_policy :: "(string \<Rightarrow> host_policy option) \<Rightarrow> string option \<Rightarrow> host_policy" where
  "load_policy parse content = or_default default_policy_hosting (Option.bind content parse)"

definition load_autohost_log :: "(string \<Rightarrow> autohost_action list option) \<Rightarrow> string option \<Rightarrow> autohost_action list" where
  "load_autohost_log parse content = or_default [] (Option.bind content parse)"

definition load_hosted :: "(string \<Rightarrow> string list option) \<Rightarrow> string option \<Rightarrow> string set" where
  "load_hosted parse content = set (or_default [] (Option.bind content parse))"

definition external_workers ::
  "(string \<Rightarrow> worker_manifest option) \<Rightarrow> (string \<Rightarrow> (string option \<times> string option) list) \<Rightarrow> string option \<Rightarrow> validated_worker list" where
  "external_workers parse entries dir =
     (case dir of Some d \<Rightarrow> if trim d \<noteq> [] then load_dir parse (entries d) else [] | None \<Rightarrow> [])"

text \<open>The marker holds the process id of a provider; \<open>self\<close> is the id of the gateway's own process.\<close>

definition local_provider_running :: "(u32 \<Rightarrow> string option) \<Rightarrow> u32 \<Rightarrow> string option \<Rightarrow> bool" where
  "local_provider_running processes self marker =
     (case Option.bind marker (\<lambda>t. parse_word (trim t)) of
        None \<Rightarrow> False
      | Some pid \<Rightarrow> if pid = self then False
          else (case processes pid of Some name \<Rightarrow> contains_str name ''cloudiy'' | None \<Rightarrow> False))"

section \<open>Receipts\<close>

definition receipt_micro :: "(string \<Rightarrow> f64) \<Rightarrow> json \<Rightarrow> u64" where
  "receipt_micro parse v =
     (let job = or_default v (json_get ''job'' v) in
      case Option.bind (json_get ''price_micro_usdc'' job) json_u64 of
        Some m \<Rightarrow> m
      | None \<Rightarrow>
         (case Option.bind (json_get ''price_usdc'' job) (json_f64 parse) of
            Some u \<Rightarrow> f_to_u64 (fmul u (f_lit 1000000))
          | None \<Rightarrow> or_default 0 (Option.bind (json_get ''amount'' job) json_u64)))"

definition receipt_step :: "(string \<Rightarrow> json option) \<Rightarrow> (string \<Rightarrow> f64) \<Rightarrow> string \<Rightarrow> u64 \<times> u64 \<Rightarrow> u64 \<times> u64" where
  "receipt_step parse num line acc =
     (case parse line of None \<Rightarrow> acc | Some v \<Rightarrow> (fst acc + 1, snd acc + receipt_micro num v))"

definition read_receipts_summary :: "(string \<Rightarrow> json option) \<Rightarrow> (string \<Rightarrow> f64) \<Rightarrow> string option \<Rightarrow> u64 \<times> u64" where
  "read_receipts_summary parse num content =
     (case content of
        None \<Rightarrow> (0, 0)
      | Some text \<Rightarrow> fold (receipt_step parse num) (filter (\<lambda>l. trim l \<noteq> []) (text_lines text)) (0, 0))"

section \<open>Models\<close>

definition optional_u64 :: "u64 option \<Rightarrow> json" where
  "optional_u64 v = (case v of Some n \<Rightarrow> JInt (uint n) | None \<Rightarrow> JNull)"

definition size_if_present :: "gateway_env \<Rightarrow> string \<Rightarrow> (bool \<times> u64 option) gio" where
  "size_if_present env img =
     vbind (image_present env img) (\<lambda>present.
     vbind (if present then image_size_bytes env img else vret None) (\<lambda>size. vret (present, size)))"

definition builtin_json :: "gateway_env \<Rightarrow> hosting \<Rightarrow> bool \<Rightarrow> validated_worker \<Rightarrow> bool \<times> u64 option \<Rightarrow> json" where
  "builtin_json env st gpu vw ps =
     (let w = vw_worker vw in
      JObj [(''key'', JStr (wk_id w)), (''image'', JStr (wk_image w)), (''category'', JStr (wk_category w)),
        (''model'', JStr (wk_model w)), (''gpu_required'', JBool (wk_needs_gpu w)),
        (''license'', JStr (license_label (vw_license vw))), (''license_note'', optional_str (license_note (vw_license vw))),
        (''status'', JStr (status_label (wk_status w))), (''planned'', JBool (\<not> status_is_available (wk_status w))),
        (''digest'', if wk_digest w = '''' then JNull else JStr (wk_digest w)),
        (''installed'', JBool (wk_id w \<in> set (hosted_models env st))), (''image_present'', JBool (fst ps)),
        (''size_bytes'', optional_u64 (snd ps)), (''warm'', JBool (wk_id w \<in> set (warm_models env st))),
        (''runnable_here'', JBool (\<not> wk_needs_gpu w \<or> gpu)), (''pinned'', JBool (pinned_digest (wk_image w) \<noteq> None))])"

definition external_json :: "gateway_env \<Rightarrow> gw_codec \<Rightarrow> hosting \<Rightarrow> bool \<Rightarrow> validated_worker \<Rightarrow> bool \<times> u64 option \<Rightarrow> json" where
  "external_json env gx st gpu vw ps =
     (let w = vw_worker vw in
      JObj [(''key'', JStr (wk_id w)), (''image'', JStr (wk_image w)), (''category'', JStr (wk_category w)),
        (''model'', JStr (wk_model w)), (''gpu_required'', JBool (wk_needs_gpu w)),
        (''gpu_backends'', gx_backends gx (wk_gpu_backends w)), (''license'', JStr (license_label (vw_license vw))),
        (''license_note'', optional_str (license_note (vw_license vw))), (''planned'', JBool (\<not> fst ps)),
        (''source'', JStr ''manifest''), (''installed'', JBool (wk_id w \<in> set (hosted_models env st))),
        (''image_present'', JBool (fst ps)), (''size_bytes'', optional_u64 (snd ps)),
        (''warm'', JBool (wk_id w \<in> set (warm_models env st))), (''runnable_here'', JBool (\<not> wk_needs_gpu w \<or> gpu)),
        (''pinned'', JBool (pinned_digest (wk_image w) \<noteq> None)), (''health'', JStr (wk_health w)),
        (''api_path'', JStr (wk_api_path w)), (''port'', JInt (uint (wk_port w))),
        (''ui_path'', JStr (if wk_ui_path w = '''' then ''/'' else wk_ui_path w)),
        (''startup_timeout_secs'', JInt (uint (wk_startup_timeout_secs w))),
        (''requirements'', JObj [(''vram_gb'', JInt (uint (rq_vram_gb (wk_requirements w)))),
           (''memory_gb'', JInt (uint (rq_memory_gb (wk_requirements w))))])])"

text \<open>The built-in models with an allowed license, then the external ones whose id is free.\<close>

definition listed_builtin :: "validated_worker list" where
  "listed_builtin = filter (\<lambda>vw. license_is_allowed (vw_license vw)) (case builtin_workers of Inr ws \<Rightarrow> ws | Inl _ \<Rightarrow> [])"

definition listed_external :: "gateway_env \<Rightarrow> validated_worker list" where
  "listed_external env = filter (\<lambda>vw. wk_id (vw_worker vw) \<notin> set (map fst model_catalog)) (ge_external env)"

definition models_list :: "gateway_env \<Rightarrow> gw_codec \<Rightarrow> hosting \<Rightarrow> json gio" where
  "models_list env gx st =
     vbind (gpu_available env) (\<lambda>gpu.
     vbind (vfold (\<lambda>vw ms. vbind (size_if_present env (wk_image (vw_worker vw))) (\<lambda>ps.
         vret (ms @ [builtin_json env st gpu vw ps]))) listed_builtin []) (\<lambda>ms.
     vbind (vfold (\<lambda>vw ms. vbind (size_if_present env (wk_image (vw_worker vw))) (\<lambda>ps.
         vret (ms @ [external_json env gx st gpu vw ps]))) (listed_external env) ms) (\<lambda>ms.
     vret (JObj [(''gpu'', JBool gpu), (''models'', JArr ms)]))))"

section \<open>The dashboard\<close>

record dashboard =
  db_hosted :: "json list"
  db_disk :: u64
  db_counted :: "string list"

text \<open>An image that several models share counts once.\<close>

definition dashboard_step :: "gateway_env \<Rightarrow> hosting \<Rightarrow> string \<Rightarrow> dashboard \<Rightarrow> dashboard gio" where
  "dashboard_step env st key db =
     (case catalog_entry key of
        None \<Rightarrow> vret db
      | Some (k, img, needs_gpu, cat, _) \<Rightarrow>
         vbind (size_if_present env img) (\<lambda>(present, size).
         let fresh = present \<and> img \<notin> set (db_counted db) in
         vret \<lparr>db_hosted = db_hosted db @ [JObj [(''key'', JStr k), (''image'', JStr img), (''category'', JStr cat),
                 (''gpu_required'', JBool needs_gpu), (''image_present'', JBool present),
                 (''size_bytes'', optional_u64 size), (''warm'', JBool (k \<in> set (warm_models env st)))]],
               db_disk = (if fresh then db_disk db + or_default 0 size else db_disk db),
               db_counted = (if fresh then img # db_counted db else db_counted db)\<rparr>))"

definition dashboard_hosted :: "gateway_env \<Rightarrow> hosting \<Rightarrow> dashboard gio" where
  "dashboard_hosted env st =
     vfold (dashboard_step env st) (hosted_models env st) \<lparr>db_hosted = [], db_disk = 0, db_counted = []\<rparr>"

definition no_provider_text :: string where
  "no_provider_text =
     ''No provider is running on this machine. The gateway only connects your browser to the network - run `cloudiy share` here to provide compute and appear in My Nodes.''"

text \<open>\<open>earned\<close> is the summary of the receipts, \<open>running\<close> what the marker says.\<close>

definition node_dashboard ::
  "gateway_env \<Rightarrow> gw_codec \<Rightarrow> string option \<Rightarrow> gateway \<Rightarrow> u64 \<times> u64 \<Rightarrow> bool \<Rightarrow> hosting \<Rightarrow> json gio" where
  "node_dashboard env gx node_id g earned running st =
     vbind (gpu_available env) (\<lambda>gpu.
     vbind (dashboard_hosted env st) (\<lambda>db.
     vret (JObj [(''node_id'', optional_str node_id), (''bridge_id'', JStr (gs_id g)),
       (''local_provider'', JObj [(''running'', JBool running), (''message'', if running then JNull else JStr no_provider_text)]),
       (''gpu'', JBool gpu), (''jobs'', JInt (uint (fst earned))), (''earned_micro_usdc'', JInt (uint (snd earned))),
       (''hosted'', JArr (db_hosted db)), (''hosted_count'', JInt (int (length (db_hosted db)))),
       (''disk_bytes'', JInt (uint (db_disk db))), (''mode'', JStr (hp_mode (ho_policy st))),
       (''budget_bytes'', JInt (uint (hp_budget_bytes (ho_policy st)))),
       (''autohost_log'', gx_actions gx (take 10 (ho_log st)))])))"

section \<open>The receipts are the earnings\<close>

lemma receipts_fold:
  "fold (receipt_step parse num) ls acc =
     (fst acc + of_nat (length (List.map_filter parse ls)), snd acc + sum_list (map (receipt_micro num) (List.map_filter parse ls)))"
proof (induction ls arbitrary: acc)
  case Nil
  then show ?case by (simp add: List.map_filter_simps)
next
  case (Cons l ls)
  have "receipt_step parse num l acc =
      (case parse l of None \<Rightarrow> acc | Some v \<Rightarrow> (fst acc + 1, snd acc + receipt_micro num v))"
    by (simp add: receipt_step_def)
  then show ?case
    by (cases "parse l") (simp_all add: Cons.IH List.map_filter_simps add.assoc)
qed

text \<open>A line that is not JSON changes nothing, and the order of the lines does not matter.\<close>

lemma receipts_any_order:
  assumes "mset ls = mset ms"
  shows "fold (receipt_step parse num) ls acc = fold (receipt_step parse num) ms acc"
proof -
  have "mset (List.map_filter parse xs) = image_mset (the \<circ> parse) (filter_mset (\<lambda>x. parse x \<noteq> None) (mset xs))" for xs
    by (simp add: List.map_filter_def flip: mset_map mset_filter)
  then have m: "mset (List.map_filter parse ls) = mset (List.map_filter parse ms)" using assms by metis
  then have "mset (map (receipt_micro num) (List.map_filter parse ls)) = mset (map (receipt_micro num) (List.map_filter parse ms))"
    by simp
  with mset_eq_length [OF m] show ?thesis unfolding receipts_fold by (metis sum_mset_sum_list)
qed
end
