(* ===== verification/Canary.thy ===== *)
theory Canary
  imports Gateway_Workers Reputation
begin

text \<open>
  The canaries of \<open>crates/cloudiy/src/canary.rs\<close>: jobs with a known answer, the tolerant comparison of an
  answer with it, the probes of a provider (this node's own worker, or a remote provider) and the
  budget of a prober. Strings are UTF-8 byte lists; the comparison works on their characters, and the
  Unicode tables beyond ASCII are the parameter \<open>unicode\<close>.
\<close>

section \<open>Characters\<close>

text \<open>\<open>str::chars\<close>: each character is a first byte and the continuation bytes after it.\<close>

definition byte_val :: "char \<Rightarrow> nat" where "byte_val c = of_char c"

definition is_continuation :: "char \<Rightarrow> bool" where
  "is_continuation c \<longleftrightarrow> 128 \<le> byte_val c \<and> byte_val c < 192"

definition scalar :: "char \<Rightarrow> string \<Rightarrow> nat" where
  "scalar c rest =
     (let b = byte_val c;
          lead = (if b < 224 then b mod 32 else if b < 240 then b mod 16 else b mod 8) in
      if b < 128 then b else foldl (\<lambda>n x. n * 64 + byte_val x mod 64) lead rest)"

function chars :: "string \<Rightarrow> nat list" where
  "chars [] = []"
| "chars (c # cs) = scalar c (takeWhile is_continuation cs) # chars (dropWhile is_continuation cs)"
  by pat_completeness auto
termination by (relation "measure length") (auto simp: length_dropWhile_le le_imp_less_Suc)

fun take_chars :: "nat \<Rightarrow> string \<Rightarrow> string" where
  "take_chars 0 s = []"
| "take_chars (Suc n) [] = []"
| "take_chars (Suc n) (c # cs) = c # takeWhile is_continuation cs @ take_chars n (dropWhile is_continuation cs)"

record unicode =
  uc_alphanumeric :: "nat \<Rightarrow> bool"
  uc_lowercase :: "nat \<Rightarrow> nat list"

definition char_alphanumeric :: "unicode \<Rightarrow> nat \<Rightarrow> bool" where
  "char_alphanumeric uc x \<longleftrightarrow>
     (if x < 128 then 48 \<le> x \<and> x \<le> 57 \<or> 65 \<le> x \<and> x \<le> 90 \<or> 97 \<le> x \<and> x \<le> 122 else uc_alphanumeric uc x)"

definition char_lower :: "unicode \<Rightarrow> nat \<Rightarrow> nat list" where
  "char_lower uc x = (if x < 128 then [if 65 \<le> x \<and> x \<le> 90 then x + 32 else x] else uc_lowercase uc x)"

text \<open>The white space of Unicode, for \<open>str::trim\<close>, and the ASCII case folding of a character.\<close>

definition white_space :: "nat \<Rightarrow> bool" where
  "white_space x \<longleftrightarrow> x \<in> set [9, 10, 11, 12, 13, 32, 0x85, 0xA0, 0x1680, 0x2028, 0x2029, 0x202F, 0x205F, 0x3000] \<or>
     0x2000 \<le> x \<and> x \<le> 0x200A"

definition trim_chars :: "nat list \<Rightarrow> nat list" where
  "trim_chars s = rev (dropWhile white_space (rev (dropWhile white_space s)))"

definition fold_case :: "nat \<Rightarrow> nat" where
  "fold_case x = (if 65 \<le> x \<and> x \<le> 90 then x + 32 else x)"

section \<open>The comparison\<close>

datatype match_mode = MatchExact | MatchContains | MatchNumber

record canary =
  ca_model :: string
  ca_prompt :: string
  ca_audio_b64 :: "string option"
  ca_expected :: string
  ca_mode :: match_mode

definition text_canary :: "string \<Rightarrow> string \<Rightarrow> string \<Rightarrow> match_mode \<Rightarrow> canary" where
  "text_canary model prompt expected mode =
     \<lparr>ca_model = model, ca_prompt = prompt, ca_audio_b64 = None, ca_expected = expected, ca_mode = mode\<rparr>"

definition audio_canary :: "string \<Rightarrow> string \<Rightarrow> string \<Rightarrow> match_mode \<Rightarrow> canary" where
  "audio_canary model audio_b64 expected mode =
     \<lparr>ca_model = model, ca_prompt = '''', ca_audio_b64 = Some audio_b64, ca_expected = expected, ca_mode = mode\<rparr>"

definition normalize_step :: "unicode \<Rightarrow> nat list \<times> bool \<Rightarrow> nat \<Rightarrow> nat list \<times> bool" where
  "normalize_step uc s c =
     (case s of (out, prev_space) \<Rightarrow>
        if char_alphanumeric uc c then (out @ char_lower uc c, False)
        else if \<not> prev_space then (out @ [32], True) else (out, prev_space))"

definition normalize :: "unicode \<Rightarrow> nat list \<Rightarrow> nat list" where
  "normalize uc s =
     (case foldl (normalize_step uc) ([], True) s of (out, _) \<Rightarrow>
        if out \<noteq> [] \<and> last out = 32 then butlast out else out)"

definition is_digit :: "char \<Rightarrow> bool" where
  "is_digit c \<longleftrightarrow> 48 \<le> byte_val c \<and> byte_val c \<le> 57"

text \<open>The digits and at most one dot that follow; what is left of the text.\<close>

fun number_text :: "bool \<Rightarrow> string \<Rightarrow> string \<times> string" where
  "number_text seen_dot [] = ([], [])"
| "number_text seen_dot (c # cs) =
     (if is_digit c \<or> c = CHR ''.'' \<and> \<not> seen_dot
      then (case number_text (seen_dot \<or> c = CHR ''.'') cs of (n, rest) \<Rightarrow> (c # n, rest))
      else ([], c # cs))"

lemma length_number_text: "number_text d s = (n, rest) \<Longrightarrow> length n + length rest = length s"
  by (induction d s arbitrary: n rule: number_text.induct) (auto split: if_splits prod.splits)

text \<open>\<open>f64::from_str\<close> on digits with an optional sign and an optional fraction.\<close>

definition digits_value :: "string \<Rightarrow> nat" where
  "digits_value ds = foldl (\<lambda>n c. n * 10 + (byte_val c - 48)) 0 ds"

definition decimal_value :: "string \<Rightarrow> rat" where
  "decimal_value s =
     (let whole = takeWhile is_digit s; frac = filter is_digit (dropWhile is_digit s) in
      of_nat (digits_value (whole @ frac)) / 10 ^ length frac)"

definition parse_number :: "bool \<Rightarrow> string \<Rightarrow> f64" where
  "parse_number negative s = to_f64 negative (if negative then - decimal_value s else decimal_value s)"

fun first_number :: "string \<Rightarrow> f64 option" where
  "first_number [] = None"
| "first_number (c # cs) =
     (if is_digit c then Some (parse_number False (fst (number_text False (c # cs))))
      else if c = CHR ''-'' \<and> cs \<noteq> [] \<and> is_digit (hd cs)
      then Some (parse_number True (fst (number_text False cs)))
      else first_number cs)"

definition canary_passes :: "unicode \<Rightarrow> canary \<Rightarrow> string \<Rightarrow> bool" where
  "canary_passes uc c answer \<longleftrightarrow>
     (case ca_mode c of
        MatchExact \<Rightarrow> map fold_case (trim_chars (chars answer)) = map fold_case (trim_chars (chars (ca_expected c)))
      | MatchContains \<Rightarrow>
          (let hay = normalize uc (chars answer); needle = normalize uc (chars (ca_expected c)) in
           needle \<noteq> [] \<and> find_pat needle hay \<noteq> None)
      | MatchNumber \<Rightarrow>
          (case (first_number answer, first_number (ca_expected c)) of
             (Some a, Some e) \<Rightarrow> flt (fabs (fsub a e)) (f_lit (1 / 10 ^ 9))
           | _ \<Rightarrow> False))"

text \<open>The bank; \<open>clip\<close> is the embedded audio file.\<close>

definition default_bank :: "string \<Rightarrow> canary list" where
  "default_bank clip =
    [text_canary ''llama-ep'' ''Reply with only the number and nothing else: 17 + 26'' ''43'' MatchNumber,
     text_canary ''llama-ep'' ''Repeat this word back exactly, nothing else: BANANA'' ''BANANA'' MatchContains,
     text_canary ''llama-ep'' ''What is the capital of France? Answer with the city name only.'' ''Paris'' MatchContains,
     text_canary ''llama-ep'' ''Repeat this token back exactly, nothing else: PING'' ''PING'' MatchExact,
     audio_canary ''whisper'' clip ''quick brown fox'' MatchContains]"

section \<open>Probes\<close>

text \<open>The items of a probe: prompt, verdict and the first characters of the answer.\<close>

type_synonym probe_result = "(string \<times> bool \<times> string) list"

definition probe_passed :: "probe_result \<Rightarrow> nat" where
  "probe_passed items = length (filter (\<lambda>(_, ok, _). ok) items)"

definition probe_total :: "probe_result \<Rightarrow> nat" where
  "probe_total items = length items"

definition probe_score :: "probe_result \<Rightarrow> f64" where
  "probe_score items =
     (if items = [] then f_lit 1
      else fdiv (f_of_u64 (of_nat (probe_passed items))) (f_of_u64 (of_nat (probe_total items))))"

definition verdict :: "unicode \<Rightarrow> canary \<Rightarrow> string \<Rightarrow> string \<times> bool \<times> string" where
  "verdict uc c answer = (ca_prompt c, canary_passes uc c answer, take_chars 60 answer)"

definition answer_of :: "json \<Rightarrow> string" where
  "answer_of out =
     (case Option.bind (json_get ''output'' out) json_str of Some s \<Rightarrow> s
      | None \<Rightarrow> (case Option.bind (json_get ''error'' out) json_str of Some s \<Rightarrow> s | None \<Rightarrow> ''''))"

text \<open>The node's own model: \<open>clk\<close> gives the reading of the clock for each canary.\<close>

fun probe_local_loop ::
  "unicode \<Rightarrow> worker_env \<Rightarrow> (nat \<Rightarrow> nat) \<Rightarrow> canary list \<Rightarrow> hosting \<Rightarrow> command list \<Rightarrow>
   (probe_result \<times> hosting) \<times> command list" where
  "probe_local_loop uc we clk [] st h = (([], st), h)"
| "probe_local_loop uc we clk (c # cs) st h =
     (case serve_endpoint we (ca_model c) (ca_prompt c) (ca_audio_b64 c) (clk (length cs)) st h of
        ((out, st1), h1) \<Rightarrow>
          (case probe_local_loop uc we clk cs st1 h1 of
             ((items, st2), h2) \<Rightarrow> ((verdict uc c (answer_of out) # items, st2), h2)))"

definition probe_local ::
  "unicode \<Rightarrow> string \<Rightarrow> worker_env \<Rightarrow> (nat \<Rightarrow> nat) \<Rightarrow> string \<Rightarrow> hosting \<Rightarrow> command list \<Rightarrow>
   (probe_result \<times> hosting) \<times> command list" where
  "probe_local uc clip we clk model st h =
     probe_local_loop uc we clk (filter (\<lambda>c. ca_model c = model) (default_bank clip)) st h"

text \<open>
  A remote provider: \<open>rpc\<close> is its answer to a request (\<open>None\<close> if it cannot be reached), \<open>uuid\<close> the
  fresh job ids, \<open>parse\<close> the JSON parser.
\<close>

record probe_env =
  pe_uuid :: "nat \<Rightarrow> string"
  pe_parse :: "bytes \<Rightarrow> json option"
  pe_rpc :: "request \<Rightarrow> response option"

definition probe_request :: "probe_env \<Rightarrow> string option \<Rightarrow> nat \<Rightarrow> canary \<Rightarrow> request" where
  "probe_request pe token n c =
     RRunEndpoint \<lparr>rq_job_id = pe_uuid pe n, rq_kernel = ''endpoint:'' @ ca_model c, rq_input_data = [],
       rq_auth_token = (case token of Some t \<Rightarrow> t | None \<Rightarrow> ''''), rq_consumer_pubkey = None, rq_payment = None\<rparr>
       (ca_model c) (ca_prompt c)"

definition remote_answer :: "probe_env \<Rightarrow> string option \<Rightarrow> nat \<Rightarrow> canary \<Rightarrow> string option" where
  "remote_answer pe token n c =
     (case pe_rpc pe (probe_request pe token n c) of
        Some (SJob r) \<Rightarrow> Some (case pe_parse pe (jr_output r) of
            Some v \<Rightarrow> (case Option.bind (json_get ''output'' v) json_str of Some s \<Rightarrow> s | None \<Rightarrow> '''')
          | None \<Rightarrow> '''')
      | _ \<Rightarrow> None)"

definition probe_remote :: "unicode \<Rightarrow> string \<Rightarrow> probe_env \<Rightarrow> string \<Rightarrow> string option \<Rightarrow> probe_result" where
  "probe_remote uc clip pe model token =
     List.map_filter (\<lambda>(n, c). map_option (verdict uc c) (remote_answer pe token n c))
       (enumerate 0 (filter (\<lambda>c. ca_model c = model \<and> ca_audio_b64 c = None) (default_bank clip)))"

section \<open>The budget\<close>

record canary_budget =
  cb_max_runs :: nat
  cb_used :: nat

definition canary_budget_new :: "nat \<Rightarrow> canary_budget" where
  "canary_budget_new max_runs = \<lparr>cb_max_runs = max_runs, cb_used = 0\<rparr>"

definition try_spend :: "canary_budget \<Rightarrow> bool \<times> canary_budget" where
  "try_spend b = (if cb_max_runs b \<le> cb_used b then (False, b) else (True, b\<lparr>cb_used := cb_used b + 1\<rparr>))"

section \<open>What the normal form is\<close>

text \<open>The reference: the words (runs of alphanumeric characters) in lower case, one space between them.\<close>

fun runs_of :: "('a \<Rightarrow> bool) \<Rightarrow> 'a list \<Rightarrow> 'a list list" where
  "runs_of P [] = [[]]"
| "runs_of P (x # xs) = (if P x then (x # hd (runs_of P xs)) # tl (runs_of P xs) else [] # runs_of P xs)"

definition text_words :: "unicode \<Rightarrow> nat list \<Rightarrow> nat list list" where
  "text_words uc s = filter (\<lambda>w. w \<noteq> []) (runs_of (char_alphanumeric uc) s)"

definition lower_word :: "unicode \<Rightarrow> nat list \<Rightarrow> nat list" where
  "lower_word uc w = concat (map (char_lower uc) w)"

fun spaced :: "nat list list \<Rightarrow> nat list" where
  "spaced [] = []"
| "spaced [w] = w"
| "spaced (w # v # ws) = w @ 32 # spaced (v # ws)"

definition lowercase_ok :: "unicode \<Rightarrow> bool" where
  "lowercase_ok uc \<longleftrightarrow> (\<forall>x. uc_alphanumeric uc x \<longrightarrow> uc_lowercase uc x \<noteq> [] \<and> 32 \<notin> set (uc_lowercase uc x))"

lemma runs_nonempty [simp]: "runs_of P s \<noteq> []"
  by (cases s) auto

lemma runs_snoc:
  "runs_of P (s @ [x]) =
     (if P x then butlast (runs_of P s) @ [last (runs_of P s) @ [x]] else runs_of P s @ [[]])"
proof (induction s)
  case (Cons y s)
  then show ?case
    by (cases "runs_of P s" rule: list.exhaust [case_names Nil Cons]) (auto simp: neq_Nil_conv butlast_append)
qed simp

lemma runs_pieces: "\<forall>w \<in> set (runs_of P s). \<forall>x \<in> set w. P x"
proof (induction s)
  case (Cons y s)
  then show ?case by (cases "runs_of P s") auto
qed simp

lemma spaced_append: "ws \<noteq> [] \<Longrightarrow> spaced (ws @ [w]) = spaced ws @ 32 # w"
  by (induction ws rule: spaced.induct) auto

lemma spaced_last: "ws \<noteq> [] \<Longrightarrow> last ws \<noteq> [] \<Longrightarrow> spaced ws \<noteq> [] \<and> last (spaced ws) = last (last ws)"
  by (induction ws rule: spaced.induct) (auto split: if_splits)

lemma char_lower_ok: "lowercase_ok uc \<Longrightarrow> char_alphanumeric uc x \<Longrightarrow> char_lower uc x \<noteq> [] \<and> 32 \<notin> set (char_lower uc x)"
  by (auto simp: lowercase_ok_def char_alphanumeric_def char_lower_def split: if_splits)

lemma spaced_extend: "spaced (ws @ [w @ v]) = spaced (ws @ [w]) @ v"
  by (cases "ws = []") (simp_all add: spaced_append)

lemma normalize_fold:
  assumes "lowercase_ok uc"
  shows "foldl (normalize_step uc) ([], True) s =
    (spaced (map (lower_word uc) (text_words uc s)) @
       (if text_words uc s \<noteq> [] \<and> last (runs_of (char_alphanumeric uc) s) = [] then [32] else []),
     last (runs_of (char_alphanumeric uc) s) = [])"
proof (induction s rule: rev_induct)
  case (snoc x s)
  obtain bs l where rs: "runs_of (char_alphanumeric uc) s = bs @ [l]"
    by (metis append_butlast_last_id runs_nonempty)
  define ws where "ws = filter (\<lambda>w. w \<noteq> []) bs"
  have w: "text_words uc s = ws @ (if l = [] then [] else [l])" by (simp add: text_words_def rs ws_def)
  show ?case
  proof (cases "char_alphanumeric uc x")
    case True
    then have rs': "runs_of (char_alphanumeric uc) (s @ [x]) = bs @ [l @ [x]]" by (simp add: runs_snoc rs)
    then have w': "text_words uc (s @ [x]) = ws @ [l @ [x]]" by (simp add: text_words_def ws_def)
    have lw: "lower_word uc (l @ [x]) = lower_word uc l @ char_lower uc x" by (simp add: lower_word_def)
    show ?thesis
    proof (cases "l = []")
      case True
      then show ?thesis using snoc \<open>char_alphanumeric uc x\<close>
        by (auto simp: w w' rs rs' normalize_step_def lw lower_word_def spaced_append)
    next
      case False
      then show ?thesis using snoc \<open>char_alphanumeric uc x\<close>
        by (simp add: w w' rs rs' normalize_step_def lw spaced_extend)
    qed
  next
    case False
    then have rs': "runs_of (char_alphanumeric uc) (s @ [x]) = (bs @ [l]) @ [[]]" by (simp add: runs_snoc rs)
    then have w': "text_words uc (s @ [x]) = text_words uc s" by (simp add: text_words_def rs)
    show ?thesis using snoc False by (auto simp: w' rs rs' normalize_step_def w)
  qed
qed (simp add: text_words_def)

text \<open>
  The comparison of a canary sees words only: the normal form of any text is its words (the maximal
  runs of alphanumeric characters) in lower case with one space between them. So case, punctuation and
  spacing never decide a verdict.
\<close>
theorem normalize_is_words:
  assumes "lowercase_ok uc"
  shows "normalize uc s = spaced (map (lower_word uc) (text_words uc s))"
proof -
  let ?ws = "map (lower_word uc) (text_words uc s)" and ?r = "runs_of (char_alphanumeric uc) s"
  have ok: "lower_word uc w \<noteq> [] \<and> 32 \<notin> set (lower_word uc w)" if w: "w \<in> set (text_words uc s)" for w
  proof -
    have "w \<noteq> []" "\<forall>x \<in> set w. char_alphanumeric uc x" using w runs_pieces [of "char_alphanumeric uc" s]
      by (auto simp: text_words_def)
    then show ?thesis using char_lower_ok [OF assms] by (cases w) (auto simp: lower_word_def)
  qed
  show ?thesis
  proof (cases "text_words uc s = []")
    case True
    then show ?thesis by (simp add: normalize_def normalize_fold [OF assms])
  next
    case False
    then have "last (text_words uc s) \<in> set (text_words uc s)" by simp
    then have l: "last ?ws \<noteq> []" "32 \<notin> set (last ?ws)" using False ok by (simp_all add: last_map)
    then have "last (last ?ws) \<noteq> 32" by (metis last_in_set)
    then have "spaced ?ws \<noteq> [] \<and> last (spaced ?ws) \<noteq> 32" using spaced_last [of ?ws] l False by simp
    then show ?thesis using False by (auto simp: normalize_def normalize_fold [OF assms])
  qed
qed

definition ascii_only :: unicode where
  "ascii_only = \<lparr>uc_alphanumeric = (\<lambda>_. False), uc_lowercase = (\<lambda>x. [x])\<rparr>"

lemma normalize_is_words_witness: "normalize ascii_only (chars '' It, is:  X! '') = chars ''it is x''"
proof -
  have "lowercase_ok ascii_only" by (simp add: lowercase_ok_def ascii_only_def)
  note n = normalize_is_words [OF this, of "chars '' It, is:  X! ''"]
  show ?thesis unfolding n
    by (simp add: text_words_def lower_word_def scalar_def byte_val_def is_continuation_def char_alphanumeric_def
        char_lower_def)
qed

section \<open>Canned answers\<close>

lemma chars_ascii: "c \<in> set s \<Longrightarrow> byte_val c < 128 \<Longrightarrow> byte_val c \<in> set (chars s)"
proof (induction s rule: chars.induct)
  case (2 d cs)
  then consider "c = d" | "c \<in> set (takeWhile is_continuation cs)" | "c \<in> set (dropWhile is_continuation cs)"
    by (metis Un_iff set_ConsD set_append takeWhile_dropWhile_id)
  then show ?case
  proof cases
    case 1
    then show ?thesis using 2 by (simp add: scalar_def)
  next
    case 2
    then have "is_continuation c" by (rule set_takeWhileD [THEN conjunct2])
    then show ?thesis using \<open>byte_val c < 128\<close> by (simp add: is_continuation_def)
  next
    case 3
    then show ?thesis using 2 by simp
  qed
qed simp

lemma dropWhile_keeps: "x \<in> set s \<Longrightarrow> \<not> P x \<Longrightarrow> x \<in> set (dropWhile P s)"
  by (induction s) auto

lemma trim_keeps: "x \<in> set s \<Longrightarrow> \<not> white_space x \<Longrightarrow> x \<in> set (trim_chars s)"
  unfolding trim_chars_def using dropWhile_keeps [of x _ white_space] by simp

lemma first_number_digit: "first_number s \<noteq> None \<Longrightarrow> \<exists>c \<in> set s. is_digit c"
proof (induction s)
  case (Cons c cs)
  then show ?case by (cases "is_digit c"; cases cs) (auto split: if_splits)
qed simp

definition bank_number :: canary where
  "bank_number = text_canary ''llama-ep'' ''Reply with only the number and nothing else: 17 + 26'' ''43'' MatchNumber"

definition bank_exact :: canary where
  "bank_exact = text_canary ''llama-ep'' ''Repeat this token back exactly, nothing else: PING'' ''PING'' MatchExact"

lemma number_or_token: "\<not> (canary_passes uc bank_number a \<and> canary_passes uc bank_exact a)"
proof
  assume p: "canary_passes uc bank_number a \<and> canary_passes uc bank_exact a"
  then have "first_number a \<noteq> None"
    by (auto simp: canary_passes_def bank_number_def text_canary_def split: option.splits)
  then obtain c where c: "c \<in> set a" "is_digit c" using first_number_digit by blast
  then have "byte_val c \<in> set (chars a)" by (intro chars_ascii) (simp_all add: is_digit_def)
  moreover have "\<not> white_space (byte_val c)" using c(2) by (auto simp: is_digit_def white_space_def)
  ultimately have "fold_case (byte_val c) \<in> set (map fold_case (trim_chars (chars a)))"
    using trim_keeps by simp
  moreover have "map fold_case (trim_chars (chars a)) = [112, 105, 110, 103]"
    using p by (simp add: canary_passes_def bank_exact_def text_canary_def scalar_def byte_val_def
        is_continuation_def trim_chars_def white_space_def fold_case_def)
  moreover have "fold_case (byte_val c) < 58" using c(2) by (simp add: is_digit_def fold_case_def)
  ultimately show False by auto
qed

lemma recovery_bound:
  "passes_of ws \<le> 12 \<Longrightarrow>
   f_val (rep_score (history (vs @ False # ws))) \<le> (4 + of_nat (passes_of ws)) / 16"
proof (induction ws rule: rev_induct)
  case Nil
  have "f_val (rep_score (history (vs @ [False]))) \<le> 1 / 4" using one_failure_craters [of vs] by blast
  then show ?case by (simp add: passes_of_def)
next
  case (snoc v ws)
  let ?s = "rep_score (history (vs @ False # ws))" and ?n = "passes_of ws"
  have u: "in_unit ?s" and ok: "f_ok ?s" using history_inv by blast+
  have h: "history (vs @ False # ws @ [v]) = record_canary v (history (vs @ False # ws))"
    using history_snoc [of "vs @ False # ws" v] by simp
  show ?case
  proof (cases v)
    case True
    then have n: "passes_of (ws @ [v]) = Suc ?n" by (simp add: passes_of_def)
    then have le: "f_val ?s \<le> (4 + of_nat ?n) / 16" "Suc ?n \<le> 12" using snoc by simp_all
    have "rd (of_nat (5 + ?n) / 16) = of_nat (5 + ?n) / (16 :: rat)"
      using le(2) by (intro rd_exact [of _ "int (5 + ?n)" "- 4"]) (simp_all add: power_int_minus)
    then have "rd ((4 + of_nat ?n) / 16 + 1 / 16) = (4 + of_nat ?n) / 16 + (1 / 16 :: rat)"
      by (simp add: field_simps)
    then have "f_val (fadd ?s (fmul (fsub (Fin 1) ?s) CLIMB)) \<le> (4 + of_nat ?n) / 16 + 1 / 16"
      using climb_step(2) [OF u le(1)] by blast
    then show ?thesis using True h n by (simp add: record_canary_def field_simps)
  next
    case False
    then have n: "passes_of (ws @ [v]) = ?n" by (simp add: passes_of_def)
    then have "f_val ?s \<le> (4 + of_nat ?n) / 16" using snoc by simp
    then have "f_val (fmul ?s CRATER) \<le> (4 + of_nat ?n) / 16" using crater_step(3) [OF u ok] by linarith
    then show ?thesis using False h n by (simp add: record_canary_def)
  qed
qed

lemma any_failure_is_new:
  assumes "False \<in> set bs" and "length bs \<le> 4"
  shows "reputation_tier (history (vs @ bs)) = New"
    and "max_job_micro_usdc_for_score (rep_score (history (vs @ bs))) = 10000"
proof -
  obtain pre ws where bs: "bs = pre @ False # ws" using assms(1) by (auto dest: split_list)
  have n: "passes_of ws \<le> length ws" by (simp add: passes_of_def)
  then have "passes_of ws \<le> 3" using assms(2) bs by simp
  then have "f_val (rep_score (history (vs @ bs))) \<le> (4 + of_nat (passes_of ws)) / 16"
    using recovery_bound [of ws "vs @ pre"] bs by simp
  also have "\<dots> < 1 / 2" using \<open>passes_of ws \<le> 3\<close> by simp
  finally have "f_val (rep_score (history (vs @ bs))) < 1 / 2" .
  with low_score [of "history (vs @ bs)"] history_inv [of "vs @ bs"]
  show "reputation_tier (history (vs @ bs)) = New"
    "max_job_micro_usdc_for_score (rep_score (history (vs @ bs))) = 10000" by blast+
qed

text \<open>
  Canned answers are caught. Whatever one text a provider returns to every job, the probe of its
  text model runs all four canaries, at least one fails, and however good the provider's history was,
  recording the probe leaves it in the bottom tier with the one-cent job cap.
\<close>
theorem canned_answers_are_caught:
  assumes reg: "bt_ok reg" "registry_get reg i = history vs"
    and canned: "\<And>req. \<exists>r v. pe_rpc pe req = Some (SJob r) \<and> pe_parse pe (jr_output r) = Some v \<and>
      json_get ''output'' v = Some (JStr a)"
  shows "probe_total (probe_remote uc clip pe ''llama-ep'' token) = 4 \<and>
    probe_passed (probe_remote uc clip pe ''llama-ep'' token) < 4 \<and>
    (let rep = snd (registry_record_probe reg i (probe_remote uc clip pe ''llama-ep'' token)) in
     reputation_tier rep = New \<and> max_job_micro_usdc_for_score (rep_score rep) = 10000)"
proof -
  have ans: "remote_answer pe token n c = Some a" for n c
    using canned [of "probe_request pe token n c"] by (auto simp: remote_answer_def)
  obtain c2 c3 where items: "probe_remote uc clip pe ''llama-ep'' token =
      [verdict uc bank_number a, verdict uc c2 a, verdict uc c3 a, verdict uc bank_exact a]"
    by (simp add: probe_remote_def default_bank_def text_canary_def audio_canary_def ans bank_number_def
        bank_exact_def List.map_filter_simps)
  let ?bs = "[canary_passes uc bank_number a, canary_passes uc c2 a, canary_passes uc c3 a, canary_passes uc bank_exact a]"
  have f: "False \<in> set ?bs" using number_or_token [of uc a] by auto
  have "registry_get (fst (registry_record_probe reg i (probe_remote uc clip pe ''llama-ep'' token))) i
      = fold record_canary ?bs (history vs)"
    using probe_hits_one_provider [OF reg(1), of i "probe_remote uc clip pe ''llama-ep'' token" i] reg(2)
    by (simp add: items verdict_def)
  moreover have "fold record_canary ?bs (history vs) = history (vs @ ?bs)" by (simp add: history_def)
  ultimately have "snd (registry_record_probe reg i (probe_remote uc clip pe ''llama-ep'' token)) = history (vs @ ?bs)"
    using probe_hits_one_provider [OF reg(1), of i "probe_remote uc clip pe ''llama-ep'' token" i] by simp
  moreover have "probe_passed (probe_remote uc clip pe ''llama-ep'' token) < 4"
    using f by (auto simp: items probe_passed_def verdict_def)
  ultimately show ?thesis using any_failure_is_new [OF f, of vs]
    by (simp add: items probe_total_def)
qed

definition banana_provider :: probe_env where
  "banana_provider = \<lparr>pe_uuid = (\<lambda>_. ''j''), pe_parse = (\<lambda>_. Some (JObj [(''output'', JStr ''Paris BANANA 43'')])),
     pe_rpc = (\<lambda>_. Some (SJob \<lparr>jr_job_id = ''j'', jr_output = [], jr_status = ''completed'', jr_error = None,
       jr_provider = None, jr_receipt = None, jr_signature = None, jr_signed_by = None\<rparr>))\<rparr>"

lemma canned_answers_are_caught_witness:
  "probe_passed (probe_remote ascii_only '''' banana_provider ''llama-ep'' None) < 4"
  using canned_answers_are_caught [of "[]" "''a''" "[]" banana_provider "''Paris BANANA 43''" ascii_only "''''" None]
  by (simp add: bt_ok_def registry_get_def history_def banana_provider_def)

text \<open>
  A provider that gives no answer is not penalised, whatever its reason. One unit of the budget of a
  prober covers a whole model, which is up to four canary runs.
\<close>

lemma no_answer_no_verdict:
  "(\<And>req r. pe_rpc pe req \<noteq> Some (SJob r)) \<Longrightarrow> probe_remote uc clip pe model token = []"
  by (auto simp: probe_remote_def remote_answer_def map_filter_def filter_empty_conv split: option.splits response.splits)

end
