(* ===== verification/Directory.thy ===== *)
theory Directory
  imports Signing Canary
begin

text \<open>
  The directory node, \<open>crates/cloudiy/src/directory.rs\<close>: the store of announcements, the demand oracle,
  the requests it answers and its background prober. The two hash maps are sorted maps; the order in
  which the language lists them is not specified.
\<close>

section \<open>The store\<close>

definition MAX_ANNOUNCEMENTS :: nat where "MAX_ANNOUNCEMENTS = 10000"
definition DEMAND_WINDOW_SECS :: i64 where "DEMAND_WINDOW_SECS = 3600"

record store =
  st_by_node :: "(string, signed_payload) btree_map"
  st_reputation :: registry
  st_demand :: "(string, i64 list) btree_map"

definition prune :: "('k, 's) crypto \<Rightarrow> i64 \<Rightarrow> store \<Rightarrow> store" where
  "prune cr now st = st\<lparr>st_by_node := filter (\<lambda>(_, sa). is_ok (verify_announcement cr sa now)) (st_by_node st)\<rparr>"

definition store_insert :: "('k, 's) crypto \<Rightarrow> signed_payload \<Rightarrow> i64 \<Rightarrow> store \<Rightarrow> (string + unit) \<times> store" where
  "store_insert cr sa now st =
     (case verify_announcement cr sa now of
        Inl e \<Rightarrow> (Inl e, st)
      | Inr _ \<Rightarrow>
         (let st1 = prune cr now st in
          if bt_get (st_by_node st1) (sp_signed_by sa) = None \<and> MAX_ANNOUNCEMENTS \<le> length (st_by_node st1)
          then (Inl ''directory full'', st1)
          else (Inr (), st1\<lparr>st_by_node := bt_insert (sp_signed_by sa) sa (st_by_node st1)\<rparr>)))"

definition store_fresh :: "('k, 's) crypto \<Rightarrow> i64 \<Rightarrow> store \<Rightarrow> signed_payload list \<times> store" where
  "store_fresh cr now st = (let st1 = prune cr now st in (map snd (st_by_node st1), st1))"

definition MAX_PINGS :: nat where "MAX_PINGS = 100000"

definition push_ping :: "i64 \<Rightarrow> i64 list \<Rightarrow> i64 list" where
  "push_ping now q =
     (let q1 = dropWhile (\<lambda>t. sint t < sint (now - DEMAND_WINDOW_SECS)) (q @ [now]) in
      drop (length q1 - MAX_PINGS) q1)"

definition record_interest :: "string \<Rightarrow> i64 \<Rightarrow> store \<Rightarrow> store" where
  "record_interest key now st = st\<lparr>st_demand := bt_entry key [] (push_ping now) (st_demand st)\<rparr>"

definition supply_of :: "('k, 's) crypto \<Rightarrow> i64 \<Rightarrow> (string, signed_payload) btree_map \<Rightarrow> (string, u32) btree_map" where
  "supply_of cr now by_node =
     fold (\<lambda>(_, sa) supply.
        case verify_announcement cr sa now of
          Inr ann \<Rightarrow> fold (\<lambda>m. bt_entry m 0 (\<lambda>n. n + 1)) (pa_served_models ann) supply
        | Inl _ \<Rightarrow> supply) by_node []"

definition demand_table :: "('k, 's) crypto \<Rightarrow> i64 \<Rightarrow> store \<Rightarrow> demand_entry list" where
  "demand_table cr now st =
     (let cutoff = now - DEMAND_WINDOW_SECS;
          supply = supply_of cr now (st_by_node st);
          keys = sorted_list_of_set (set (map fst supply) \<union> set (map fst (st_demand st))) in
      map (\<lambda>key.
        \<lparr>de_key = key,
         de_recent_interest = (case bt_get (st_demand st) key of
            Some q \<Rightarrow> of_nat (length (filter (\<lambda>t. sint cutoff \<le> sint t) q)) | None \<Rightarrow> 0),
         de_providers = (case bt_get supply key of Some n \<Rightarrow> n | None \<Rightarrow> 0)\<rparr>) keys)"

section \<open>Requests\<close>

definition directory_handle ::
  "('k, 's) crypto \<Rightarrow> signer \<Rightarrow> i64 \<Rightarrow> request \<Rightarrow> store \<Rightarrow> response \<times> store" where
  "directory_handle cr sg now req st =
     (case req of
        RAnnounce sa \<Rightarrow>
          (case store_insert cr sa now st of
             (Inr _, st1) \<Rightarrow> (SAck, st1) | (Inl message, st1) \<Rightarrow> (SError message, st1))
      | RProviders \<Rightarrow> (case store_fresh cr now st of (list, st1) \<Rightarrow> (SProviders list, st1))
      | RReputation \<Rightarrow> (SReputation (sign_reputation sg (registry_scores (st_reputation st)) now), st)
      | REndpointInterest key \<Rightarrow> (SAck, record_interest key now st)
      | RDemand \<Rightarrow> (SDemand (demand_table cr now st), st)
      | _ \<Rightarrow> (SError ''directory nodes only serve Announce, Providers, Reputation and Demand'', st))"

section \<open>The prober\<close>

text \<open>The order by score (stable, lowest first) of the fresh providers of models with a canary.\<close>

fun insert_low :: "f64 \<times> 'a \<Rightarrow> (f64 \<times> 'a) list \<Rightarrow> (f64 \<times> 'a) list" where
  "insert_low x [] = [x]"
| "insert_low x (y # ys) = (if total_le (fst x) (fst y) then x # y # ys else y # insert_low x ys)"

definition sort_low :: "(f64 \<times> 'a) list \<Rightarrow> (f64 \<times> 'a) list" where
  "sort_low xs = foldr insert_low xs []"

definition canary_models :: "string \<Rightarrow> string list \<Rightarrow> string list" where
  "canary_models clip models = filter (\<lambda>m. list_ex (\<lambda>c. ca_model c = m) (default_bank clip)) models"

definition probe_targets ::
  "('k, 's) crypto \<Rightarrow> string \<Rightarrow> i64 \<Rightarrow> store \<Rightarrow> (string \<times> string list) list \<times> store" where
  "probe_targets cr clip now st =
     (case store_fresh cr now st of (fresh, st1) \<Rightarrow>
        (let anns = List.map_filter (\<lambda>sa. case verify_announcement cr sa now of Inr a \<Rightarrow> Some a | Inl _ \<Rightarrow> None) fresh;
             scored = List.map_filter (\<lambda>ann.
               let models = canary_models clip (pa_served_models ann) in
               if models = [] then None
               else Some (rep_score (registry_get (st_reputation st1) (pa_identity ann)), (pa_identity ann, models))) anns in
         (map snd (sort_low scored), st1)))"

definition probe_period_secs :: "string option \<Rightarrow> u64" where
  "probe_period_secs v = max (case Option.bind v parse_word of Some n \<Rightarrow> n | None \<Rightarrow> 600) 30"

definition max_runs_per_cycle :: "string option \<Rightarrow> u64" where
  "max_runs_per_cycle v = max (case Option.bind v parse_word of Some n \<Rightarrow> n | None \<Rightarrow> 50) 1"

text \<open>
  The body of the inner loop for one provider and model: the budget, the probe (\<open>None\<close> if it failed),
  the verdict. The result says whether the cycle goes on.
\<close>

definition record_verdict :: "string \<Rightarrow> probe_result option \<Rightarrow> store \<Rightarrow> store" where
  "record_verdict provider probe st =
     (case probe of
        Some items \<Rightarrow>
          if items \<noteq> [] then st\<lparr>st_reputation := fst (registry_record_probe (st_reputation st) provider items)\<rparr> else st
      | None \<Rightarrow> st)"

definition probe_step ::
  "string \<Rightarrow> probe_result option \<Rightarrow> canary_budget \<Rightarrow> store \<Rightarrow> bool \<times> canary_budget \<times> store" where
  "probe_step provider probe budget st =
     (case try_spend budget of
        (False, b) \<Rightarrow> (False, b, st)
      | (True, b) \<Rightarrow> (True, b, record_verdict provider probe st))"

section \<open>The directory as it runs\<close>

record dir_world =
  dw_store :: store
  dw_pending :: "(string \<times> string) list"
  dw_budget :: canary_budget

text \<open>
  Requests of anyone at any time, interleaved with the steps of the prober. The list is what the prober
  recorded so far.
\<close>

inductive directory_run ::
  "('k, 's) crypto \<Rightarrow> signer \<Rightarrow> string \<Rightarrow> nat \<Rightarrow> registry \<Rightarrow> dir_world \<Rightarrow> (string \<times> probe_result) list \<Rightarrow> bool"
  for cr sg clip max_runs reg0 where
  dir_start: "directory_run cr sg clip max_runs reg0
     \<lparr>dw_store = \<lparr>st_by_node = [], st_reputation = reg0, st_demand = []\<rparr>, dw_pending = [],
      dw_budget = canary_budget_new max_runs\<rparr> []"
| dir_request: "directory_run cr sg clip max_runs reg0 w recs \<Longrightarrow>
     directory_run cr sg clip max_runs reg0 (w\<lparr>dw_store := snd (directory_handle cr sg now req (dw_store w))\<rparr>) recs"
| dir_cycle: "directory_run cr sg clip max_runs reg0 w recs \<Longrightarrow> dw_pending w = [] \<Longrightarrow>
     probe_targets cr clip now (dw_store w) = (targets, st1) \<Longrightarrow>
     directory_run cr sg clip max_runs reg0
       \<lparr>dw_store = st1, dw_pending = concat (map (\<lambda>(p, ms). map (Pair p) ms) targets),
        dw_budget = canary_budget_new max_runs\<rparr> recs"
| dir_probe: "directory_run cr sg clip max_runs reg0 w recs \<Longrightarrow> dw_pending w = (p, model) # rest \<Longrightarrow>
     probe_step p probe (dw_budget w) (dw_store w) = (True, b, st1) \<Longrightarrow>
     directory_run cr sg clip max_runs reg0 \<lparr>dw_store = st1, dw_pending = rest, dw_budget = b\<rparr>
       (case probe of Some items \<Rightarrow> if items = [] then recs else recs @ [(p, items)] | None \<Rightarrow> recs)"
| dir_stop: "directory_run cr sg clip max_runs reg0 w recs \<Longrightarrow> dw_pending w = (p, model) # rest \<Longrightarrow>
     probe_step p probe (dw_budget w) (dw_store w) = (False, b, st1) \<Longrightarrow>
     directory_run cr sg clip max_runs reg0 \<lparr>dw_store = st1, dw_pending = [], dw_budget = b\<rparr> recs"

definition verdicts_of :: "string \<Rightarrow> (string \<times> probe_result) list \<Rightarrow> bool list" where
  "verdicts_of i recs = concat (map (\<lambda>(p, items). if p = i then map (\<lambda>(_, v, _). v) items else []) recs)"

definition entry_ok :: "('k, 's) crypto \<Rightarrow> string \<times> signed_payload \<Rightarrow> bool" where
  "entry_ok cr e \<longleftrightarrow> fst e = sp_signed_by (snd e) \<and> (\<exists>t. is_ok (verify_announcement cr (snd e) t))"

definition store_ok :: "('k, 's) crypto \<Rightarrow> store \<Rightarrow> bool" where
  "store_ok cr st \<longleftrightarrow> bt_ok (st_by_node st) \<and> length (st_by_node st) \<le> MAX_ANNOUNCEMENTS \<and>
     (\<forall>e \<in> set (st_by_node st). entry_ok cr e)"

lemma bt_insert_set: "set (bt_insert k v m) \<subseteq> Set.insert (k, v) (set m)"
  by (induction k v m rule: bt_insert.induct) auto

lemma bt_insert_length: "bt_ok m \<Longrightarrow> length (bt_insert k v m) = (if bt_get m k = None then Suc (length m) else length m)"
proof (induction k v m rule: bt_insert.induct)
  case (2 k v k' v' m)
  have "bt_get m k = None" if "k < k'"
    using 2(2) that by (auto simp: bt_ok_def bt_get_map_of map_of_eq_None_iff)
  then show ?case using 2 by (auto simp: bt_ok_def)
qed simp

lemma bt_ok_filter: "bt_ok m \<Longrightarrow> bt_ok (filter P m)"
  unfolding bt_ok_def by (induction m) auto

lemma prune_ok: "store_ok cr st \<Longrightarrow> store_ok cr (prune cr now st)"
  by (auto simp: store_ok_def prune_def bt_ok_filter intro: le_trans [OF length_filter_le])

lemma store_insert_ok:
  assumes ok: "store_ok cr st" and ins: "store_insert cr sa now st = (r, st')"
  shows "store_ok cr st'"
proof (cases "verify_announcement cr sa now")
  case (Inr ann)
  let ?st1 = "prune cr now st"
  have ok1: "store_ok cr ?st1" using ok by (rule prune_ok)
  have e: "entry_ok cr (sp_signed_by sa, sa)" using Inr by (auto simp: entry_ok_def is_ok_iff intro: exI [of _ now])
  show ?thesis
  proof (cases "bt_get (st_by_node ?st1) (sp_signed_by sa) = None \<and> MAX_ANNOUNCEMENTS \<le> length (st_by_node ?st1)")
    case True
    then show ?thesis using ins Inr ok1 by (simp add: store_insert_def Let_def)
  next
    case False
    then have "st' = ?st1\<lparr>st_by_node := bt_insert (sp_signed_by sa) sa (st_by_node ?st1)\<rparr>"
      using ins Inr by (simp add: store_insert_def Let_def split: if_splits)
    then show ?thesis using ok1 False e bt_insert_set [of "sp_signed_by sa" sa "st_by_node ?st1"]
        bt_insert_length [of "st_by_node ?st1" "sp_signed_by sa" sa]
      by (auto simp: store_ok_def bt_ok_insert split: if_splits)
  qed
qed (use assms in \<open>simp add: store_insert_def\<close>)

lemma handle_ok: "store_ok cr st \<Longrightarrow> store_ok cr (snd (directory_handle cr sg now req st))"
  using store_insert_ok [of cr st _ now] prune_ok [of cr st now]
  by (auto simp: directory_handle_def store_fresh_def Let_def record_interest_def store_ok_def
      split: request.splits prod.splits sum.splits)

lemma handle_reputation: "st_reputation (snd (directory_handle cr sg now req st)) = st_reputation st"
  by (auto simp: directory_handle_def store_fresh_def store_insert_def Let_def prune_def record_interest_def
      split: request.splits prod.splits sum.splits if_splits)

lemma targets_store: "probe_targets cr clip now st = (targets, st1) \<Longrightarrow> st1 = prune cr now st"
  by (auto simp: probe_targets_def store_fresh_def Let_def)

lemma probe_step_effect:
  assumes "probe_step p probe b st = (go, b', st')" and "cb_used b \<le> cb_max_runs b"
  shows "cb_used b' \<le> cb_max_runs b'" "cb_max_runs b' = cb_max_runs b"
    "st_by_node st' = st_by_node st"
    "\<not> go \<Longrightarrow> st' = st" "go \<Longrightarrow> st' = record_verdict p probe st" "go \<Longrightarrow> cb_used b' = Suc (cb_used b)"
  using assms by (auto simp: probe_step_def try_spend_def record_verdict_def split: if_splits option.splits)

lemma verdicts_snoc: "verdicts_of i (recs @ [(p, items)]) =
    verdicts_of i recs @ (if p = i then map (\<lambda>(_, v, _). v) items else [])"
  by (simp add: verdicts_of_def)

lemma recorded_probe:
  assumes "bt_ok reg"
  shows "bt_ok (fst (registry_record_probe reg p items))"
    and "registry_get (fst (registry_record_probe reg p items)) i =
      fold record_canary (if p = i then map (\<lambda>(_, v, _). v) items else []) (registry_get reg i)"
  using probe_hits_one_provider [OF assms, of p items i] by auto

text \<open>
  Trust is only earned in the directory's own probes. Whatever anyone sends, at whatever time and
  interleaved with the prober: every provider's reputation is its starting record with exactly the
  verdicts of the probes the directory ran on it, in order; each stored announcement is one its own
  signer signed, there is at most one per signer and at most ten thousand; and a cycle never exceeds
  its budget of probes.
\<close>
theorem directory_trust:
  assumes run: "directory_run cr sg clip max_runs reg0 w recs" and reg: "bt_ok reg0"
  shows "store_ok cr (dw_store w) \<and> bt_ok (st_reputation (dw_store w)) \<and>
    registry_get (st_reputation (dw_store w)) i = fold record_canary (verdicts_of i recs) (registry_get reg0 i) \<and>
    cb_max_runs (dw_budget w) = max_runs \<and> cb_used (dw_budget w) \<le> max_runs"
proof -
  have "store_ok cr (dw_store w) \<and> bt_ok (st_reputation (dw_store w)) \<and>
    (\<forall>i. registry_get (st_reputation (dw_store w)) i = fold record_canary (verdicts_of i recs) (registry_get reg0 i)) \<and>
    cb_max_runs (dw_budget w) = max_runs \<and> cb_used (dw_budget w) \<le> max_runs"
    using run
  proof induction
    case dir_start
    then show ?case using reg by (simp add: store_ok_def bt_ok_def verdicts_of_def canary_budget_new_def)
  next
    case (dir_request w recs now req)
    then show ?case using handle_ok [of cr "dw_store w" sg now req] by (simp add: handle_reputation)
  next
    case (dir_cycle w recs now targets st1)
    then show ?case using prune_ok [of cr "dw_store w" now] targets_store [OF dir_cycle(3)]
      by (simp add: prune_def canary_budget_new_def)
  next
    case (dir_probe w recs p model rest probe b st1)
    then have e: "cb_used b \<le> max_runs" "cb_max_runs b = max_runs" "st_by_node st1 = st_by_node (dw_store w)"
      "st1 = record_verdict p probe (dw_store w)"
      using probe_step_effect [OF dir_probe(3)] by auto
    then have "store_ok cr st1" using dir_probe by (simp add: store_ok_def)
    moreover have "bt_ok (st_reputation st1) \<and> (\<forall>i. registry_get (st_reputation st1) i =
        fold record_canary (verdicts_of i (case probe of Some items \<Rightarrow> if items = [] then recs else recs @ [(p, items)] | None \<Rightarrow> recs))
          (registry_get reg0 i))"
      using dir_probe recorded_probe [of "st_reputation (dw_store w)" p]
      by (auto simp: e(4) record_verdict_def verdicts_snoc split: option.splits)
    ultimately show ?case using e by simp
  next
    case (dir_stop w recs p model rest probe b st1)
    then show ?case using probe_step_effect [OF dir_stop(3)] by simp
  qed
  then show ?thesis by blast
qed

definition demo_ann :: provider_announcement where
  "demo_ann = \<lparr>pa_identity = ''n'', pa_resources = demo_machine, pa_capabilities = [], pa_region = None, pa_price = 5,
     pa_reputation = Fin 1, pa_utilization = Fin 0, pa_health = Healthy, pa_served_models = [''llama-ep''], pa_warm_models = []\<rparr>"

lemma demo_ann_fields: "pa_identity demo_ann = ''n''" "pa_served_models demo_ann = [''llama-ep'']"
  by (simp_all add: demo_ann_def)

lemma demo_announcement_ok:
  "verify_announcement (plain_crypto demo_ann) (sign_announcement plain_signer demo_ann 1000) 1000 = Inr demo_ann"
proof -
  have "json_reads_back (plain_crypto demo_ann) plain_signer demo_ann []"
    by (simp add: json_reads_back_def plain_crypto_def)
  note s = signed_checks [OF plain_ok]
  show ?thesis
    using s by (simp add: verify_announcement_def sign_announcement_def Let_def sint_saturating_sub s_clamp_def
        s_min_def s_max_def plain_signer_def plain_crypto_def demo_ann_def)
qed

lemma directory_trust_witness:
  "\<exists>w. directory_run (plain_crypto demo_ann) plain_signer '''' 50 [] w [(''n'', [(''p'', False, ''x'')])] \<and>
     dw_pending w = [] \<and> length (st_by_node (dw_store w)) = 1 \<and>
     registry_get (st_reputation (dw_store w)) ''n'' = record_canary False default_reputation"
proof -
  let ?cr = "plain_crypto demo_ann" and ?sa = "sign_announcement plain_signer demo_ann 1000"
  let ?R = "directory_run ?cr plain_signer '''' 50 []"
  let ?st = "\<lparr>st_by_node = [(''n'', ?sa)], st_reputation = [], st_demand = []\<rparr>"
  have sb: "sp_signed_by ?sa = ''n''" by (simp add: sign_announcement_def plain_signer_def)
  have "snd (directory_handle ?cr plain_signer 1000 (RAnnounce ?sa) \<lparr>st_by_node = [], st_reputation = [], st_demand = []\<rparr>) = ?st"
    by (simp add: directory_handle_def store_insert_def demo_announcement_ok prune_def MAX_ANNOUNCEMENTS_def sb)
  then have 1: "?R \<lparr>dw_store = ?st, dw_pending = [], dw_budget = canary_budget_new 50\<rparr> []"
    using dir_request [OF dir_start [of ?cr plain_signer "''''" 50 "[]"], of 1000 "RAnnounce ?sa"] by simp
  have t: "probe_targets ?cr '''' 1000 ?st = ([(''n'', [''llama-ep''])], ?st)"
    by (simp add: probe_targets_def store_fresh_def prune_def demo_announcement_ok List.map_filter_simps Let_def
        canary_models_def default_bank_def text_canary_def audio_canary_def sort_low_def demo_ann_fields)
  from dir_cycle [OF 1, of 1000 "[(''n'', [''llama-ep''])]" ?st] t
  have 2: "?R \<lparr>dw_store = ?st, dw_pending = [(''n'', ''llama-ep'')], dw_budget = canary_budget_new 50\<rparr> []" by simp
  have p: "probe_step ''n'' (Some [(''p'', False, ''x'')]) (canary_budget_new 50) ?st =
      (True, canary_budget_new 50\<lparr>cb_used := 1\<rparr>, record_verdict ''n'' (Some [(''p'', False, ''x'')]) ?st)"
    by (simp add: probe_step_def try_spend_def canary_budget_new_def)
  from dir_probe [OF 2, of "''n''" "''llama-ep''" "[]" "Some [(''p'', False, ''x'')]"] p
  have 3: "?R \<lparr>dw_store = record_verdict ''n'' (Some [(''p'', False, ''x'')]) ?st, dw_pending = [],
      dw_budget = canary_budget_new 50\<lparr>cb_used := 1\<rparr>\<rparr> [(''n'', [(''p'', False, ''x'')])]" by simp
  from directory_trust [OF 3, of "''n''"] have "registry_get (st_reputation (record_verdict ''n'' (Some [(''p'', False, ''x'')]) ?st)) ''n''
      = record_canary False default_reputation"
    by (simp add: bt_ok_def verdicts_of_def registry_get_def)
  moreover have "length (st_by_node (record_verdict ''n'' (Some [(''p'', False, ''x'')]) ?st)) = 1" by (simp add: record_verdict_def)
  ultimately show ?thesis using 3 by (intro exI conjI) (assumption, simp_all)
qed

section \<open>The demand oracle\<close>

definition directory_serve ::
  "('k, 's) crypto \<Rightarrow> signer \<Rightarrow> (i64 \<times> request) list \<Rightarrow> store \<Rightarrow> store" where
  "directory_serve cr sg reqs st = foldl (\<lambda>st (now, req). snd (directory_handle cr sg now req st)) st reqs"

definition pings_of :: "string \<Rightarrow> (i64 \<times> request) list \<Rightarrow> i64 list" where
  "pings_of key reqs = map fst (filter (\<lambda>(_, req). req = REndpointInterest key) reqs)"

definition since :: "int \<Rightarrow> i64 list \<Rightarrow> nat" where
  "since c ts = length (filter (\<lambda>t. c \<le> sint t) ts)"

lemma since_le: "since c ts \<le> length ts"
  by (simp add: since_def)

lemma since_drop: "sorted (map sint ts) \<Longrightarrow> since c (drop d ts) = min (length ts - d) (since c ts)"
proof (induction ts arbitrary: d)
  case (Cons t ts)
  have all: "since c ts = length ts" if "c \<le> sint t"
  proof -
    have "\<forall>x \<in> set ts. c \<le> sint x" using Cons.prems that by force
    then show ?thesis by (simp add: since_def)
  qed
  have IH: "since c (drop e ts) = min (length ts - e) (since c ts)" for e using Cons by simp
  show ?case
  proof (cases d)
    case 0
    then show ?thesis using since_le [of c "t # ts"] by simp
  next
    case (Suc e)
    then show ?thesis using IH [of e] all by (cases "c \<le> sint t") (simp_all add: since_def)
  qed
qed (simp add: since_def)

lemma since_dropWhile: "sorted (map sint ts) \<Longrightarrow> c \<le> c' \<Longrightarrow> since c' (dropWhile (\<lambda>t. sint t < c) ts) = since c' ts"
  by (induction ts) (auto simp: since_def)

lemma sorted_dropWhile': "sorted (map sint ts) \<Longrightarrow> sorted (map sint (dropWhile P (ts :: i64 list)))"
  by (induction ts) auto

lemma push_window:
  assumes s: "sorted (map sint (q @ [now]))" and c: "sint (now - DEMAND_WINDOW_SECS) \<le> c"
  shows "since c (push_ping now q) = min MAX_PINGS (since c (q @ [now]))"
    and "sorted (map sint (push_ping now q))" and "set (push_ping now q) \<subseteq> Set.insert now (set q)"
proof -
  let ?q1 = "dropWhile (\<lambda>t. sint t < sint (now - DEMAND_WINDOW_SECS)) (q @ [now])"
  have s1: "sorted (map sint ?q1)" using s by (rule sorted_dropWhile')
  have "since c ?q1 = since c (q @ [now])" using s c by (rule since_dropWhile)
  then show "since c (push_ping now q) = min MAX_PINGS (since c (q @ [now]))"
    using since_drop [OF s1, of c "length ?q1 - MAX_PINGS"] since_le [of c ?q1] by (simp add: push_ping_def Let_def)
  show "sorted (map sint (push_ping now q))"
    using s1 by (simp add: push_ping_def Let_def drop_map [symmetric] sorted_wrt_drop)
  show "set (push_ping now q) \<subseteq> Set.insert now (set q)"
    using set_dropWhileD [of _ "\<lambda>t. sint t < sint (now - DEMAND_WINDOW_SECS)" "q @ [now]"]
    by (auto simp: push_ping_def Let_def dest!: in_set_dropD)
qed

lemma window_start: "0 \<le> sint (now :: i64) \<Longrightarrow> sint (now - DEMAND_WINDOW_SECS) = sint now - 3600"
proof -
  assume n: "0 \<le> sint (now :: i64)"
  have e: "now - DEMAND_WINDOW_SECS = word_of_int (sint now - 3600)" by (simp add: DEMAND_WINDOW_SECS_def)
  have "s_fits TYPE(64) (sint now - 3600)"
    using n sint_less [of now] by (simp add: s_fits_def s_min_def s_max_def)
  then show ?thesis unfolding e by (rule sint_word_of_int_fits)
qed

lemma window_exact:
  assumes "sorted (map sint ts)" and "\<forall>t \<in> set ts. 0 \<le> sint t"
    and "ts \<noteq> [] \<Longrightarrow> sint (last ts) - 3600 \<le> c"
  shows "since c (foldl (\<lambda>q t. push_ping t q) [] ts) = min MAX_PINGS (since c ts) \<and>
    sorted (map sint (foldl (\<lambda>q t. push_ping t q) [] ts)) \<and> set (foldl (\<lambda>q t. push_ping t q) [] ts) \<subseteq> set ts"
  using assms
proof (induction ts arbitrary: c rule: rev_induct)
  case Nil
  then show ?case by (simp add: since_def)
next
  case (snoc now ts)
  let ?q = "foldl (\<lambda>q t. push_ping t q) [] ts"
  have s: "sorted (map sint ts)" "\<forall>t \<in> set ts. sint t \<le> sint now" "0 \<le> sint now"
    using snoc.prems by (simp_all add: sorted_append)
  have c: "sint now - 3600 \<le> c" using snoc.prems by simp
  have IH: "since c ?q = min MAX_PINGS (since c ts)" "sorted (map sint ?q)" "set ?q \<subseteq> set ts"
  proof -
    have "sint (last ts) - 3600 \<le> c" if "ts \<noteq> []"
    proof -
      have "sint (last ts) \<le> sint now" using that s(2) by simp
      then show ?thesis using c by linarith
    qed
    with snoc.IH [of c] s snoc.prems show "since c ?q = min MAX_PINGS (since c ts)" "sorted (map sint ?q)" "set ?q \<subseteq> set ts"
      by simp_all
  qed
  have sq: "sorted (map sint (?q @ [now]))" using IH s by (auto simp: sorted_append)
  have cut: "sint (now - DEMAND_WINDOW_SECS) \<le> c" using window_start [OF s(3)] c by simp
  note p = push_window [OF sq cut]
  have snoc_since: "since c (xs @ [now]) = since c xs + since c [now]" for xs by (simp add: since_def)
  show ?case using p IH by (auto simp: snoc_since)
qed

definition queue_of :: "store \<Rightarrow> string \<Rightarrow> i64 list" where
  "queue_of st key = (case bt_get (st_demand st) key of Some q \<Rightarrow> q | None \<Rightarrow> [])"

lemma handle_demand:
  assumes "bt_ok (st_demand st)"
  shows "bt_ok (st_demand (snd (directory_handle cr sg now req st)))"
    and "queue_of (snd (directory_handle cr sg now req st)) key =
      (if req = REndpointInterest key then push_ping now (queue_of st key) else queue_of st key)"
    and "bt_get (st_demand (snd (directory_handle cr sg now req st))) key = None \<longleftrightarrow>
      bt_get (st_demand st) key = None \<and> req \<noteq> REndpointInterest key"
proof -
  have "st_demand (snd (directory_handle cr sg now req st)) =
      (case req of REndpointInterest k \<Rightarrow> bt_entry k [] (push_ping now) (st_demand st) | _ \<Rightarrow> st_demand st)"
    by (auto simp: directory_handle_def store_fresh_def store_insert_def Let_def prune_def record_interest_def
        split: request.splits prod.splits sum.splits if_splits)
  then show "bt_ok (st_demand (snd (directory_handle cr sg now req st)))"
    "queue_of (snd (directory_handle cr sg now req st)) key =
      (if req = REndpointInterest key then push_ping now (queue_of st key) else queue_of st key)"
    "bt_get (st_demand (snd (directory_handle cr sg now req st))) key = None \<longleftrightarrow>
      bt_get (st_demand st) key = None \<and> req \<noteq> REndpointInterest key"
    using assms by (auto simp: queue_of_def bt_entry_def bt_ok_insert bt_get_insert split: request.splits option.splits)
qed

lemma serve_demand:
  "bt_ok (st_demand (directory_serve cr sg reqs \<lparr>st_by_node = [], st_reputation = reg, st_demand = []\<rparr>)) \<and>
   queue_of (directory_serve cr sg reqs \<lparr>st_by_node = [], st_reputation = reg, st_demand = []\<rparr>) key =
     foldl (\<lambda>q t. push_ping t q) [] (pings_of key reqs) \<and>
   (bt_get (st_demand (directory_serve cr sg reqs \<lparr>st_by_node = [], st_reputation = reg, st_demand = []\<rparr>)) key = None
     \<longleftrightarrow> pings_of key reqs = [])"
proof (induction reqs rule: rev_induct)
  case Nil
  then show ?case by (simp add: directory_serve_def queue_of_def pings_of_def bt_ok_def)
next
  case (snoc r reqs)
  obtain now req where r: "r = (now, req)" by force
  let ?st = "directory_serve cr sg reqs \<lparr>st_by_node = [], st_reputation = reg, st_demand = []\<rparr>"
  have s: "directory_serve cr sg (reqs @ [r]) \<lparr>st_by_node = [], st_reputation = reg, st_demand = []\<rparr> =
      snd (directory_handle cr sg now req ?st)" by (simp add: directory_serve_def r)
  have p: "pings_of key (reqs @ [r]) = pings_of key reqs @ (if req = REndpointInterest key then [now] else [])"
    by (simp add: pings_of_def r)
  have ok: "bt_ok (st_demand ?st)" using snoc by blast
  show ?case unfolding s p
    using snoc handle_demand(1) [OF ok, where cr = cr and sg = sg and now = now and req = req]
      handle_demand(2,3) [OF ok, where cr = cr and sg = sg and now = now and req = req and key = key] by simp
qed

text \<open>Supply: every fresh announcement counts as often as it lists the model.\<close>

definition tally_get :: "(string, u32) btree_map \<Rightarrow> string \<Rightarrow> u32" where
  "tally_get s key = (case bt_get s key of Some n \<Rightarrow> n | None \<Rightarrow> 0)"

definition listings :: "('k, 's) crypto \<Rightarrow> i64 \<Rightarrow> string \<Rightarrow> signed_payload \<Rightarrow> nat" where
  "listings cr now key sa =
     (case verify_announcement cr sa now of Inr ann \<Rightarrow> count_list (pa_served_models ann) key | Inl _ \<Rightarrow> 0)"

lemma tally_models:
  "bt_ok s \<Longrightarrow> bt_ok (fold (\<lambda>m. bt_entry m 0 (\<lambda>n. n + 1)) ms s) \<and>
     tally_get (fold (\<lambda>m. bt_entry m 0 (\<lambda>n. n + 1)) ms s) key = tally_get s key + of_nat (count_list ms key)"
proof (induction ms arbitrary: s)
  case (Cons m ms)
  have "bt_ok (bt_entry m 0 (\<lambda>n. n + 1) s)" using Cons.prems by (simp add: bt_entry_def bt_ok_insert)
  moreover have "tally_get (bt_entry m 0 (\<lambda>n. n + 1) s) key = tally_get s key + (if m = key then 1 else 0)"
    using Cons.prems by (auto simp: tally_get_def bt_entry_def bt_get_insert split: option.splits)
  ultimately show ?case using Cons.IH [of "bt_entry m 0 (\<lambda>n. n + 1) s"] by simp
qed simp

lemma supply_counts:
  "bt_ok (supply_of cr now m) \<and> tally_get (supply_of cr now m) key = of_nat (\<Sum>(_, sa) \<leftarrow> m. listings cr now key sa)"
proof (induction m rule: rev_induct)
  case Nil
  then show ?case by (simp add: supply_of_def bt_ok_def tally_get_def)
next
  case (snoc e m)
  obtain k sa where e: "e = (k, sa)" by force
  show ?case
  proof (cases "verify_announcement cr sa now")
    case (Inl x)
    then show ?thesis using snoc by (simp add: supply_of_def e listings_def)
  next
    case (Inr ann)
    then have s: "supply_of cr now (m @ [e]) = fold (\<lambda>m. bt_entry m 0 (\<lambda>n. n + 1)) (pa_served_models ann) (supply_of cr now m)"
      by (simp add: supply_of_def e)
    show ?thesis unfolding s using tally_models [of "supply_of cr now m" "pa_served_models ann" key] snoc Inr
      by (simp add: e listings_def)
  qed
qed

lemma demand_row:
  assumes "e \<in> set (demand_table cr now st)"
  shows "de_recent_interest e = of_nat (since (sint (now - DEMAND_WINDOW_SECS)) (queue_of st (de_key e)))"
    and "de_providers e = tally_get (supply_of cr now (st_by_node st)) (de_key e)"
  using assms by (auto simp: demand_table_def Let_def since_def queue_of_def tally_get_def split: option.splits)

text \<open>
  C32. The demand oracle is exact. After any requests at a clock that does not run backwards, the table
  reports for every model the number of interest pings of the last hour, cut off at a hundred thousand,
  although the store forgets old pings and bounds its queues; a model somebody asked for is in the
  table; and the supply is the number of fresh announcements that list the model.
\<close>
theorem demand_is_exact:
  assumes st: "st = directory_serve cr sg reqs \<lparr>st_by_node = [], st_reputation = reg, st_demand = []\<rparr>"
    and clock: "sorted (map (sint \<circ> fst) reqs)" "\<forall>r \<in> set reqs. 0 \<le> sint (fst r) \<and> sint (fst r) \<le> sint now"
    and now: "0 \<le> sint now"
  shows "(\<forall>e \<in> set (demand_table cr now st).
      unat (de_recent_interest e) = min 100000 (since (sint now - 3600) (pings_of (de_key e) reqs)) \<and>
      de_providers e = of_nat (\<Sum>(_, sa) \<leftarrow> st_by_node st. listings cr now (de_key e) sa)) \<and>
    (\<forall>key. pings_of key reqs \<noteq> [] \<longrightarrow> key \<in> de_key ` set (demand_table cr now st))"
proof (intro conjI ballI allI impI)
  fix e assume e: "e \<in> set (demand_table cr now st)"
  let ?P = "pings_of (de_key e) reqs"
  have sP: "sorted (map sint ?P)"
  proof -
    have "map sint ?P = map (sint \<circ> fst) (filter (\<lambda>(_, req). req = REndpointInterest (de_key e)) reqs)"
      by (simp add: pings_of_def)
    then show ?thesis using clock(1) sorted_filter [of "sint \<circ> fst" reqs] by simp
  qed
  have P: "t \<in> set ?P \<Longrightarrow> 0 \<le> sint t \<and> sint t \<le> sint now" for t using clock(2) by (auto simp: pings_of_def)
  have l: "?P \<noteq> [] \<Longrightarrow> sint (last ?P) - 3600 \<le> sint now - 3600" using P [of "last ?P"] by simp
  have q: "since (sint now - 3600) (queue_of st (de_key e)) = min MAX_PINGS (since (sint now - 3600) ?P)"
    using window_exact [OF sP _ l] P serve_demand [of cr sg reqs reg "de_key e"] by (simp add: st)
  have "unat (of_nat (min MAX_PINGS (since (sint now - 3600) ?P)) :: u32) = min MAX_PINGS (since (sint now - 3600) ?P)"
    by (simp add: unsigned_of_nat take_bit_nat_eq_self MAX_PINGS_def)
  then show "unat (de_recent_interest e) = min 100000 (since (sint now - 3600) ?P)"
    using demand_row(1) [OF e] q window_start [OF now] by (simp add: MAX_PINGS_def)
  show "de_providers e = of_nat (\<Sum>(_, sa) \<leftarrow> st_by_node st. listings cr now (de_key e) sa)"
    using demand_row(2) [OF e] supply_counts [of cr now "st_by_node st" "de_key e"] by simp
next
  fix key assume "pings_of key reqs \<noteq> []"
  then have "bt_get (st_demand st) key \<noteq> None" using serve_demand [of cr sg reqs reg key] st by blast
  then have "key \<in> set (map fst (st_demand st))" by (metis bt_get_map_of image_set map_of_eq_None_iff)
  then show "key \<in> de_key ` set (demand_table cr now st)" by (force simp: demand_table_def Let_def image_iff)
qed

definition demo_requests :: "(i64 \<times> request) list" where
  "demo_requests =
     [(1000, REndpointInterest ''sdxl''), (2000, REndpointInterest ''sdxl''), (5000, REndpointInterest ''wan'')]"

lemma demand_is_exact_witness:
  "\<exists>st. st = directory_serve (plain_crypto demo_ann) plain_signer demo_requests
        \<lparr>st_by_node = [], st_reputation = [], st_demand = []\<rparr> \<and>
     (\<forall>e \<in> set (demand_table (plain_crypto demo_ann) 5000 st). de_key e = ''sdxl'' \<longrightarrow> unat (de_recent_interest e) = 1) \<and>
     ''sdxl'' \<in> de_key ` set (demand_table (plain_crypto demo_ann) 5000 st)"
proof -
  let ?st = "directory_serve (plain_crypto demo_ann) plain_signer demo_requests \<lparr>st_by_node = [], st_reputation = [], st_demand = []\<rparr>"
  have c: "sorted (map (sint \<circ> fst) demo_requests)" "0 \<le> sint (5000 :: i64)"
    "\<forall>r \<in> set demo_requests. 0 \<le> sint (fst r) \<and> sint (fst r) \<le> sint (5000 :: i64)" by (simp_all add: demo_requests_def)
  have p: "since (sint (5000 :: i64) - 3600) (pings_of ''sdxl'' demo_requests) = 1" "pings_of ''sdxl'' demo_requests \<noteq> []"
    by (simp_all add: pings_of_def since_def demo_requests_def)
  from demand_is_exact [OF refl c(1,3,2), of "plain_crypto demo_ann" plain_signer "[]"] p
  show ?thesis by (intro exI [of _ ?st] conjI refl) auto
qed

text \<open>A provider raises the supply the directory reports by listing a model twice.\<close>

lemma repeated_listing_counts_twice:
  "verify_announcement cr sa now = Inr ann \<Longrightarrow> pa_served_models ann = [k, k] \<Longrightarrow>
   tally_get (supply_of cr now [(i, sa)]) k = 2"
  using supply_counts [of cr now "[(i, sa)]" k] by (simp add: listings_def)

text \<open>An older announcement that is still fresh replaces a newer one.\<close>

lemma older_announcement_replaces:
  assumes "verify_announcement cr sa now = Inr ann" and "bt_ok (st_by_node st)"
    and "bt_get (st_by_node st) (sp_signed_by sa) = Some newer" "is_ok (verify_announcement cr newer now)"
  shows "bt_get (st_by_node (snd (store_insert cr sa now st))) (sp_signed_by sa) = Some sa"
proof -
  have "(sp_signed_by sa, newer) \<in> set (st_by_node st)" using assms(2,3) by (simp add: bt_entries)
  then have "(sp_signed_by sa, newer) \<in> set (st_by_node (prune cr now st))" using assms(4) by (simp add: prune_def)
  moreover have ok: "bt_ok (st_by_node (prune cr now st))" using assms(2) by (simp add: prune_def bt_ok_filter)
  ultimately have "bt_get (st_by_node (prune cr now st)) (sp_signed_by sa) = Some newer" by (simp add: bt_entries)
  then show ?thesis using assms(1) ok by (simp add: store_insert_def Let_def bt_get_insert)
qed

end
