(* ===== verification/Consumer_Theorems.thy ===== *)
theory Consumer_Theorems
  imports Consumer
begin

text \<open>
  What the commands of the consumer guarantee: the providers discovered are genuine, a replicated run pays
  only providers of the winning answer and forgets no escrow, and the authorisation of a paid run is the
  one the provider checks.
\<close>

section \<open>Discovery\<close>

definition offered_by :: "('k, 's) net_env \<Rightarrow> i64 \<Rightarrow> u64 \<Rightarrow> net_event list \<Rightarrow> provider_announcement \<Rightarrow> bool" where
  "offered_by env now job_value h a \<longleftrightarrow>
     (\<exists>pre node l sa a'. length pre < length h \<and> pre = take (length pre) h \<and>
        nt_ask env pre node RProviders = Inr (SProviders l) \<and> sa \<in> set l \<and>
        verify_announcement (nt_crypto env) sa now = Inr a' \<and>
        (a = a' \<or> (\<exists>score. a = a'\<lparr>pa_reputation := score\<rparr> \<and> \<not> flt score REPUTATION_ROUTING_FLOOR \<and>
           may_take_value score job_value)))"

lemma considered:
  "set (consider_announcement env now v scores sa merged) \<subseteq> set merged \<union>
     {a. \<exists>a'. verify_announcement (nt_crypto env) sa now = Inr a' \<and>
        (a = a' \<and> scores (pa_identity a') = None \<or> (\<exists>score. scores (pa_identity a') = Some score \<and> a = a'\<lparr>pa_reputation := score\<rparr> \<and>
           \<not> flt score REPUTATION_ROUTING_FLOOR \<and> may_take_value score v))}"
  by (auto simp: consider_announcement_def merge_new_def split: sum.splits option.splits if_splits)

lemma considered_distinct:
  "distinct (map pa_identity merged) \<Longrightarrow> distinct (map pa_identity (consider_announcement env now v scores sa merged))"
  by (auto simp: consider_announcement_def merge_new_def split: sum.splits option.splits if_splits)

lemma all_considered:
  "distinct (map pa_identity merged) \<Longrightarrow>
     distinct (map pa_identity (fold (consider_announcement env now v scores) l merged)) \<and>
     set (fold (consider_announcement env now v scores) l merged) \<subseteq> set merged \<union>
       {a. \<exists>sa \<in> set l. \<exists>a'. verify_announcement (nt_crypto env) sa now = Inr a' \<and>
          (a = a' \<and> scores (pa_identity a') = None \<or> (\<exists>score. scores (pa_identity a') = Some score \<and> a = a'\<lparr>pa_reputation := score\<rparr> \<and>
             \<not> flt score REPUTATION_ROUTING_FLOOR \<and> may_take_value score v))}"
proof (induction l arbitrary: merged)
  case Nil
  then show ?case by simp
next
  case (Cons sa l)
  let ?m = "consider_announcement env now v scores sa merged"
  have d: "distinct (map pa_identity ?m)" using Cons.prems by (rule considered_distinct)
  show ?case using Cons.IH [OF d] considered [of env now v scores sa merged] by auto
qed

lemma client_rpc_history: "client_rpc env e to req h = (r, h') \<Longrightarrow> r = Inr resp \<Longrightarrow>
    \<exists>node pre. h' = pre @ [EvAsk node req] \<and> nt_ask env pre node req = Inr resp"
  by (auto simp: client_rpc_def vbind_def vlift_def sdk_request_def split: sum.splits prod.splits)

definition extends :: "'a list \<Rightarrow> 'a list \<Rightarrow> bool" where
  "extends h' h \<longleftrightarrow> (\<exists>cs. h' = h @ cs)"

lemma extends_refl [simp]: "extends h h" by (simp add: extends_def)

lemma extends_trans: "extends h2 h1 \<Longrightarrow> extends h1 h \<Longrightarrow> extends h2 h" by (auto simp: extends_def)

lemma offered_extends: "offered_by env now v h a \<Longrightarrow> extends h' h \<Longrightarrow> offered_by env now v h' a"
proof -
  assume "offered_by env now v h a" "extends h' h"
  then obtain pre node l sa a' cs where o: "length pre < length h" "pre = take (length pre) h"
    "nt_ask env pre node RProviders = Inr (SProviders l)" "sa \<in> set l" "verify_announcement (nt_crypto env) sa now = Inr a'"
    "a = a' \<or> (\<exists>score. a = a'\<lparr>pa_reputation := score\<rparr> \<and> \<not> flt score REPUTATION_ROUTING_FLOOR \<and> may_take_value score v)"
    "h' = h @ cs" unfolding offered_by_def extends_def by metis
  then have "length pre < length h'" "pre = take (length pre) h'" by auto
  with o show ?thesis unfolding offered_by_def by metis
qed

text \<open>The only events of discovery are connections and questions.\<close>

fun quiet :: "net_event \<Rightarrow> bool" where
  "quiet (EvConnect _) = True"
| "quiet (EvAsk _ _) = True"
| "quiet _ = False"

lemma emits_client_rpc [intro!]: "emits quiet (client_rpc env e to req)"
  unfolding emits_def client_rpc_def by (auto simp: vbind_def vlift_def sdk_request_def split: sum.splits)

lemma emits_directory [intro!]: "emits quiet (fetch_one_directory env via)"
  unfolding fetch_one_directory_def by (intro emits_bind emits_client_rpc) (auto split: response.splits)

lemma emits_reputation [intro!]: "emits quiet (fetch_one_reputation env via)"
  unfolding fetch_one_reputation_def by (intro emits_bind emits_client_rpc) (auto simp: emits_def)

lemma emits_ask_directory [intro!]: "emits quiet (ask_directory env now v via st)"
  unfolding ask_directory_def Let_def by auto

lemma emits_vfold: "(\<And>x s. emits P (f x s)) \<Longrightarrow> emits P (vfold f xs s)"
  by (induction xs arbitrary: s) auto

lemma emits_fetch [intro!]: "emits quiet (fetch_providers env vias v)"
  unfolding emits_def
proof
  fix h
  have "emits quiet (vbind (vlift (require (vias \<noteq> []) ''no directory specified'')) (\<lambda>_.
     vbind (vfold (ask_directory env (nt_now env h) v) vias (Map.empty, [])) (\<lambda>(_, merged). vret merged)))"
    by (auto intro!: emits_vfold split: prod.splits)
  then show "\<exists>cs. snd (fetch_providers env vias v h) = h @ cs \<and> (\<forall>c \<in> set cs. quiet c)"
    unfolding emits_def fetch_providers_def by blast
qed

lemma directory_list:
  assumes "fetch_one_directory env via h = (Inr l, h')"
  shows "client_rpc env ''invalid directory Node ID'' via RProviders h = (Inr (SProviders l), h')"
proof -
  from assms obtain resp h1 where r: "client_rpc env ''invalid directory Node ID'' via RProviders h = (Inr resp, h1)"
    "(case resp of SProviders l \<Rightarrow> vret l
     | _ \<Rightarrow> vlift (Inl (case error_message env resp of Some m \<Rightarrow> ''directory error: '' @ m
                          | None \<Rightarrow> ''unexpected directory response''))) h1 = (Inr l, h')"
    unfolding fetch_one_directory_def result_iff by blast
  then show ?thesis by (cases resp) (simp_all add: vret_def vlift_def)
qed

lemma ask_directory_step:
  assumes "ask_directory env now v via (sc, merged) h = (Inr (sc', merged'), h')"
    and "distinct (map pa_identity merged)" and "\<forall>a \<in> set merged. offered_by env now v h a"
  shows "distinct (map pa_identity merged') \<and> (\<forall>a \<in> set merged'. offered_by env now v h' a)"
proof -
  from assms(1) obtain r h1 d where r: "fetch_one_reputation env via h = (r, h1)" and d: "fetch_one_directory env via h1 = (d, h')"
    and m: "merged' = fold (consider_announcement env now v (fold add_score (ok_list r) sc)) (ok_list d) merged"
    by (auto simp: ask_directory_def Let_def result_iff)
  have e1: "extends h1 h" using emitsD [OF emits_reputation r] by (auto simp: extends_def)
  have e2: "extends h' h1" using emitsD [OF emits_directory d] by (auto simp: extends_def)
  have old: "offered_by env now v h' a" if "a \<in> set merged" for a
    using assms(3) that offered_extends extends_trans [OF e2 e1] by blast
  have new: "offered_by env now v h' a"
    if a: "sa \<in> set (ok_list d)" "verify_announcement (nt_crypto env) sa now = Inr a'"
      "a = a' \<or> (\<exists>score. a = a'\<lparr>pa_reputation := score\<rparr> \<and> \<not> flt score REPUTATION_ROUTING_FLOOR \<and> may_take_value score v)" for sa a a'
  proof -
    from a(1) obtain l where l: "d = Inr l" "sa \<in> set l" by (auto simp: ok_list_def split: sum.splits)
    then have "client_rpc env ''invalid directory Node ID'' via RProviders h1 = (Inr (SProviders l), h')"
      using directory_list d by blast
    from client_rpc_history [OF this refl] obtain node pre where p: "h' = pre @ [EvAsk node RProviders]"
      "nt_ask env pre node RProviders = Inr (SProviders l)" by blast
    then have "length pre < length h'" "pre = take (length pre) h'" by simp_all
    with p(2) l(2) a(2,3) show ?thesis unfolding offered_by_def by blast
  qed
  from all_considered [OF assms(2), of env now v "fold add_score (ok_list r) sc" "ok_list d"]
  show ?thesis using old new by (auto simp flip: m) blast
qed

lemma fetched_are_genuine:
  assumes "fetch_providers env vias job_value h = (Inr anns, h')"
  shows "distinct (map pa_identity anns) \<and> (\<forall>a \<in> set anns. offered_by env (nt_now env h) job_value h' a)"
proof -
  let ?now = "nt_now env h"
  from assms obtain sc where f: "vfold (ask_directory env ?now job_value) vias (Map.empty, []) h = (Inr (sc, anns), h')"
    by (auto simp: fetch_providers_def result_iff split: prod.splits)
  have "(\<lambda>_ st h. distinct (map pa_identity (snd st)) \<and> (\<forall>a \<in> set (snd st). offered_by env ?now job_value h a)) vias (sc, anns) h'"
  proof (rule vfold_inv [OF f])
    show "distinct (map pa_identity (snd (Map.empty :: score_map, []))) \<and>
        (\<forall>a \<in> set (snd (Map.empty :: score_map, [])). offered_by env ?now job_value h a)" by simp
    fix pre x post s1 h1 s2 h2
    assume "distinct (map pa_identity (snd s1)) \<and> (\<forall>a \<in> set (snd s1). offered_by env ?now job_value h1 a)"
      and "ask_directory env ?now job_value x s1 h1 = (Inr s2, h2)"
    then show "distinct (map pa_identity (snd s2)) \<and> (\<forall>a \<in> set (snd s2). offered_by env ?now job_value h2 a)"
      using ask_directory_step [of env ?now job_value x "fst s1" "snd s1" h1 "fst s2" "snd s2" h2] by simp
  qed
  then show ?thesis by simp
qed

text \<open>
  What discovery returns is genuine, whatever the directories say. Every provider comes from an
  announcement that a directory relayed in this query and that verifies now, signed by the provider it names;
  nobody is listed twice; the announcement is passed on as it was signed, except that a score a
  directory signed replaces the reputation the provider claims for itself, and then the score is not below the
  routing floor and its tier may take a job of this value.
\<close>
theorem discovered_providers_are_genuine:
  assumes "fetch_providers env vias job_value h = (Inr anns, h')"
  shows "distinct (map pa_identity anns) \<and> (\<forall>a \<in> set anns. offered_by env (nt_now env h) job_value h' a)"
  by (rule fetched_are_genuine [OF assms])

section \<open>The escrows of a replicated run\<close>

lemma targets_distinct:
  assumes "resolve_targets env via spec n h = (Inr targets, h')"
  shows "distinct targets"
proof -
  from assms obtain nodes where f: "fetch_providers env (directories env via) (ws_job_value_micro_usdc spec) h = (Inr nodes, h')"
    and t: "targets = map pl_node (take n (rank default_policy spec nodes))"
    unfolding resolve_targets_def Let_def result_iff by blast
  have "distinct (map pa_identity nodes)" using fetched_are_genuine [OF f] by simp
  then have "distinct (map pa_identity (filter (admitted default_policy spec) nodes))" by (rule distinct_map_filter)
  moreover have "mset (map pl_node (rank default_policy spec nodes)) = mset (map pa_identity (filter (admitted default_policy spec) nodes))"
    by (simp add: rank_def to_placement_def image_mset.compositionality o_def)
  ultimately have "distinct (map pl_node (rank default_policy spec nodes))" by (metis mset_eq_imp_distinct_iff)
  then show ?thesis unfolding t by (metis distinct_take take_map)
qed

text \<open>What an event does to an escrow account: it is locked, paid out, or named to the consumer as refundable.\<close>

definition locks :: "('k, 's) net_env \<Rightarrow> pay_config \<Rightarrow> net_event list \<Rightarrow> net_event \<Rightarrow> string \<Rightarrow> bool" where
  "locks env cfg h e acct \<longleftrightarrow>
     (\<exists>program provider mint amount timeout jid key kp fe.
        e = EvChain (pc_rpc_url cfg) (ChCreate program provider mint amount timeout jid key) \<and>
        nt_keypair env h (or_default (nt_default_keypair env) (pc_wallet cfg)) = Inr kp \<and>
        sol_create_job (nt_sol env (pc_rpc_url cfg)) (100 * length h) kp program provider mint amount timeout jid key = Inr fe \<and>
        acct = pubkey_str (nt_sol env (pc_rpc_url cfg)) (fe_job_account fe))"

definition pays_out :: "('k, 's) net_env \<Rightarrow> pay_config \<Rightarrow> net_event list \<Rightarrow> net_event \<Rightarrow> string \<Rightarrow> bool" where
  "pays_out env cfg h e acct \<longleftrightarrow>
     (\<exists>program job key inp outp sig kp rr.
        e = EvChain (pc_rpc_url cfg) (ChReleaseVerified program job key inp outp sig) \<and>
        parse_pubkey (nt_sol env (pc_rpc_url cfg)) acct = Inr job \<and>
        nt_keypair env h (or_default (nt_default_keypair env) (pc_wallet cfg)) = Inr kp \<and>
        sol_release_verified (nt_sol env (pc_rpc_url cfg)) (100 * length h) kp program job key inp outp sig = Inr rr)"

definition reports :: "net_event \<Rightarrow> string \<Rightarrow> bool" where
  "reports e acct \<longleftrightarrow> (\<exists>accts why. e = EvRefundable accts why \<and> acct \<in> set accts)"

definition happens :: "(net_event list \<Rightarrow> net_event \<Rightarrow> bool) \<Rightarrow> net_event list \<Rightarrow> net_event list \<Rightarrow> bool" where
  "happens P h cs \<longleftrightarrow> (\<exists>i < length cs. P (h @ take i cs) (cs ! i))"

lemma happens_Nil [simp]: "\<not> happens P h []" by (simp add: happens_def)

lemma happens_one [simp]: "happens P h [e] \<longleftrightarrow> P h e" by (auto simp: happens_def)

lemma happens_append: "happens P h (cs @ ds) \<longleftrightarrow> happens P h cs \<or> happens P (h @ cs) ds"
proof -
  have "(\<exists>i < length (cs @ ds). P (h @ take i (cs @ ds)) ((cs @ ds) ! i)) \<longleftrightarrow>
      (\<exists>i < length cs. P (h @ take i cs) (cs ! i)) \<or> (\<exists>i < length ds. P ((h @ cs) @ take i ds) (ds ! i))"
    (is "?l \<longleftrightarrow> ?a \<or> ?b")
  proof
    assume ?l
    then obtain i where i: "i < length (cs @ ds)" "P (h @ take i (cs @ ds)) ((cs @ ds) ! i)" by blast
    show "?a \<or> ?b"
    proof (cases "i < length cs")
      case True
      with i show ?thesis by (auto simp: nth_append)
    next
      case False
      with i have "i - length cs < length ds" "P ((h @ cs) @ take (i - length cs) ds) (ds ! (i - length cs))"
        by (auto simp: nth_append)
      then show ?thesis by blast
    qed
  next
    assume "?a \<or> ?b"
    then show ?l
    proof
      assume ?a
      then obtain i where "i < length cs" "P (h @ take i cs) (cs ! i)" by blast
      then show ?l by (intro exI [of _ i]) (auto simp: nth_append)
    next
      assume ?b
      then obtain i where "i < length ds" "P ((h @ cs) @ take i ds) (ds ! i)" by blast
      then show ?l by (intro exI [of _ "length cs + i"]) (auto simp: nth_append)
    qed
  qed
  then show ?thesis by (simp add: happens_def)
qed

lemma happens_quiet: "(\<And>h e. quiet e \<Longrightarrow> \<not> P h e) \<Longrightarrow> \<forall>e \<in> set cs. quiet e \<Longrightarrow> \<not> happens P h cs"
  by (auto simp: happens_def)

lemma happens_mono: "happens P h cs \<Longrightarrow> (\<And>h e. P h e \<Longrightarrow> Q h e) \<Longrightarrow> happens Q h cs"
  by (auto simp: happens_def)

lemma quiet_locks: "quiet e \<Longrightarrow> \<not> locks env cfg h e acct" by (cases e) (auto simp: locks_def)

lemma quiet_releases: "quiet e \<Longrightarrow> e \<noteq> EvChain u (ChReleaseVerified p j k i ou s)" by (cases e) auto

text \<open>Funding one escrow: it is locked exactly when the call succeeds.\<close>

lemma connect_history:
  "sdk_connect env to h = (r, h') \<Longrightarrow> \<exists>cs. h' = h @ cs \<and> (\<forall>e \<in> set cs. quiet e)"
  by (auto simp: sdk_connect_def vbind_def vlift_def vret_def split: sum.splits)

lemma emits_connect [intro!]: "emits quiet (sdk_connect env to)"
  unfolding emits_def by (metis connect_history eq_snd_iff)

lemma emits_info [intro!]: "emits quiet (sdk_info env node)"
proof -
  have "emits quiet (sdk_request env node req)" for req by (simp add: emits_def sdk_request_def)
  then show ?thesis unfolding sdk_info_def by (intro emits_bind) (auto split: response.splits)
qed

lemma bindE:
  assumes "vbind m f h = (r, h')"
  obtains (stop) e where "m h = (Inl e, h')" "r = Inl e" | (step) x h1 where "m h = (Inr x, h1)" "f x h1 = (r, h')"
  using assms by (auto simp: vbind_def split: prod.splits sum.splits)

lemma bind_pureE:
  assumes "vbind m f h = (r, h')" and "m h = (v, h)"
  obtains (stop) e where "v = Inl e" "h' = h" "r = Inl e" | (step) x where "v = Inr x" "f x h = (r, h')"
  using assms by (auto simp: vbind_def split: sum.splits)

lemma bind_liftE:
  assumes "vbind (vlift v) f h = (r, h')"
  obtains (stop) e where "v = Inl e" "h' = h" "r = Inl e" | (step) x where "v = Inr x" "f x h = (r, h')"
  using bind_pureE [OF assms] by (auto simp: vlift_def)

lemma bind_walletE:
  assumes "vbind (load_wallet env w) f h = (r, h')"
  obtains (stop) e where "h' = h" "r = Inl e"
  | (step) kp where "nt_keypair env h (or_default (nt_default_keypair env) w) = Inr kp" "f kp h = (r, h')"
  using assms by (auto simp: vbind_def load_wallet_def split: sum.splits)

lemma bind_uuidE:
  assumes "vbind (\<lambda>h. (Inr (nt_uuid env h), h)) f h = (r, h')"
  obtains "f (nt_uuid env h) h = (r, h')"
  using assms by (auto simp: vbind_def)

lemma bind_chainE:
  assumes "vbind (on_chain env u call run) f h = (r, h')"
  obtains (stop) e where "run (nt_sol env u) (100 * length h) = Inl e" "h' = h @ [EvChain u call]" "r = Inl e"
  | (step) x where "run (nt_sol env u) (100 * length h) = Inr x" "f x (h @ [EvChain u call]) = (r, h')"
  using assms by (auto simp: vbind_def on_chain_def split: sum.splits)

lemma retE: "vret x h = (r, h') \<Longrightarrow> (h' = h \<Longrightarrow> r = Inr x \<Longrightarrow> P) \<Longrightarrow> P"
  by (simp add: vret_def)

lemma fund_escrow_cases:
  assumes "fund_escrow env node w url amount t h = (r, h')"
  obtains (unsent) cs e where "h' = h @ cs" "\<forall>e \<in> set cs. quiet e" "r = Inl e"
  | (sent) qs program provider mint am timeout jid nk kp where "\<forall>q \<in> set qs. quiet q"
      "h' = h @ qs @ [EvChain url (ChCreate program provider mint am timeout jid nk)]"
      "nt_keypair env (h @ qs) (or_default (nt_default_keypair env) w) = Inr kp"
      "\<forall>a. amount = Some a \<longrightarrow> am = micro a \<and> flt (Fin 0) a"
      "case sol_create_job (nt_sol env url) (100 * length (h @ qs)) kp program provider mint am timeout jid nk of
         Inl e \<Rightarrow> \<exists>e. r = Inl e
       | Inr fe \<Rightarrow> \<exists>s. r = Inr s \<and> fs_escrow_account s = pubkey_str (nt_sol env url) (fe_job_account fe) \<and> fs_amount_micro s = am"
proof -
  have asked: "\<exists>qs. h2 = h @ qs \<and> (\<forall>q \<in> set qs. quiet q)"
    if "sdk_connect env node h = (Inr key, h1)" "sdk_info env key h1 = (i, h2)" for key h1 h2 i
    using connect_history [OF that(1)] emitsD [OF emits_info that(2)] by auto
  have early: thesis if "h' = h2" "r = Inl e" "sdk_connect env node h = (Inr key, h1)" "sdk_info env key h1 = (i, h2)" for key h1 h2 i e
    using asked [OF that(3,4)] that(1,2) unsent by blast
  have failed: thesis if "sdk_connect env node h = (Inr key, h1)" "sdk_info env key h1 = (Inl e, h')" "r = Inl e" for key h1 e
    using asked [OF that(1,2)] that(3) unsent by blast
  have create: thesis
    if "sdk_connect env node h = (Inr key, h1)" "sdk_info env key h1 = (i, h2)"
      "h' = h2 @ [EvChain url (ChCreate program provider mint am timeout jid nk)]"
      "nt_keypair env h2 (or_default (nt_default_keypair env) w) = Inr kp"
      "\<forall>a. amount = Some a \<longrightarrow> am = micro a \<and> flt (Fin 0) a"
      "(case sol_create_job (nt_sol env url) (100 * length h2) kp program provider mint am timeout jid nk of
         Inl e \<Rightarrow> \<exists>e. r = Inl e
       | Inr fe \<Rightarrow> \<exists>s. r = Inr s \<and> fs_escrow_account s = pubkey_str (nt_sol env url) (fe_job_account fe) \<and> fs_amount_micro s = am)"
    for key h1 h2 i program provider mint am timeout jid nk kp
  proof -
    note c = that
    obtain qs where q: "h2 = h @ qs" "\<forall>q \<in> set qs. quiet q" using asked [OF c(1,2)] by blast
    show thesis by (rule sent [of qs]) (use c(3-6) q in \<open>simp_all add: q(1)\<close>)
  qed
  show thesis
    using assms unfolding fund_escrow_def Let_def
  proof (elim bind_liftE bind_walletE bind_uuidE bind_chainE bindE retE)
    fix e assume "sdk_connect env node h = (Inl e, h')" "r = Inl e"
    then show thesis using connect_history unsent by blast
  qed ((rule failed; assumption) | (rule early; assumption)
      | (rule create, assumption, assumption, assumption, assumption, force simp: or_default_def require_def split: if_splits, force))+
qed

lemma fund_escrow_effect:
  assumes "fund_escrow env node (pc_wallet cfg) (pc_rpc_url cfg) amount t h = (r, h')"
  shows "(\<exists>cs. h' = h @ cs \<and> (\<forall>e \<in> set cs. quiet e) \<and> (\<exists>e. r = Inl e)) \<or>
    (\<exists>qs e. h' = h @ qs @ [e] \<and> (\<forall>q \<in> set qs. quiet q) \<and> (\<forall>acct. \<not> reports e acct) \<and>
       (\<forall>u p j k i ou s. e \<noteq> EvChain u (ChReleaseVerified p j k i ou s)) \<and>
       (\<forall>acct. locks env cfg (h @ qs) e acct \<longleftrightarrow> (\<exists>s. r = Inr s \<and> acct = fs_escrow_account s)))"
  using assms
proof (cases rule: fund_escrow_cases)
  case (unsent cs e)
  then show ?thesis by blast
next
  case (sent qs program provider mint am timeout jid nk kp)
  let ?e = "EvChain (pc_rpc_url cfg) (ChCreate program provider mint am timeout jid nk)"
  have "locks env cfg (h @ qs) ?e acct \<longleftrightarrow> (\<exists>s. r = Inr s \<and> acct = fs_escrow_account s)" for acct
    using sent(3,5) by (auto simp: locks_def split: sum.splits)
  moreover have "\<not> reports ?e acct" for acct by (simp add: reports_def)
  ultimately show ?thesis using sent(1,2) by (intro disjI2 exI [of _ qs] exI [of _ ?e]) simp
qed

definition locked :: "('k, 's) net_env \<Rightarrow> pay_config \<Rightarrow> net_event list \<Rightarrow> net_event list \<Rightarrow> string \<Rightarrow> bool" where
  "locked env cfg h cs acct \<longleftrightarrow> happens (\<lambda>h e. locks env cfg h e acct) h cs"

definition reported :: "net_event list \<Rightarrow> string \<Rightarrow> bool" where
  "reported cs acct \<longleftrightarrow> (\<exists>e \<in> set cs. reports e acct)"

definition pays_nobody :: "net_event list \<Rightarrow> bool" where
  "pays_nobody cs \<longleftrightarrow> (\<forall>u p j k i ou s. EvChain u (ChReleaseVerified p j k i ou s) \<notin> set cs)"

lemma reported_append [simp]: "reported (cs @ ds) acct \<longleftrightarrow> reported cs acct \<or> reported ds acct" "\<not> reported [] acct"
  by (auto simp: reported_def)

lemma pays_nobody_append [simp]: "pays_nobody (cs @ ds) \<longleftrightarrow> pays_nobody cs \<and> pays_nobody ds" "pays_nobody []"
  by (auto simp: pays_nobody_def)

lemma locked_append: "locked env cfg h (cs @ ds) acct \<longleftrightarrow> locked env cfg h cs acct \<or> locked env cfg (h @ cs) ds acct"
  by (simp add: locked_def happens_append)

lemma quiet_events: "\<forall>e \<in> set cs. quiet e \<Longrightarrow> \<not> locked env cfg h cs acct"
  unfolding locked_def by (metis happens_quiet quiet_locks)

lemma quiet_pays_nobody: "\<forall>e \<in> set cs. quiet e \<Longrightarrow> pays_nobody cs"
  unfolding pays_nobody_def using quiet_releases by blast

lemma fund_effect:
  assumes "fund_escrow env node (pc_wallet cfg) (pc_rpc_url cfg) amount t h = (r, h')"
  shows "\<exists>cs. h' = h @ cs \<and> pays_nobody cs \<and> (\<forall>acct. locked env cfg h cs acct \<longleftrightarrow> (\<exists>s. r = Inr s \<and> acct = fs_escrow_account s))"
  using fund_escrow_effect [OF assms]
proof (elim disjE exE conjE)
  fix cs e assume "h' = h @ cs" "\<forall>e \<in> set cs. quiet e" "r = Inl e"
  then show ?thesis using quiet_events quiet_pays_nobody by blast
next
  fix qs e assume a: "h' = h @ qs @ [e]" "\<forall>q \<in> set qs. quiet q"
    "\<forall>u p j k i ou s. e \<noteq> EvChain u (ChReleaseVerified p j k i ou s)"
    "\<forall>acct. locks env cfg (h @ qs) e acct \<longleftrightarrow> (\<exists>s. r = Inr s \<and> acct = fs_escrow_account s)"
  have "pays_nobody [e]" using a(3) by (auto simp: pays_nobody_def)
  then have "pays_nobody (qs @ [e])" using quiet_pays_nobody [OF a(2)] by simp
  moreover have "locked env cfg h (qs @ [e]) acct \<longleftrightarrow> (\<exists>s. r = Inr s \<and> acct = fs_escrow_account s)" for acct
    using a(4) by (simp add: locked_append quiet_events [OF a(2)]) (simp add: locked_def)
  ultimately show ?thesis using a(1) by blast
qed

lemma report_effect:
  "report_refundable st why h = (r, h') \<Longrightarrow>
     \<exists>cs. h' = h @ cs \<and> r = Inr () \<and> pays_nobody cs \<and> (\<forall>acct. \<not> locked env cfg h cs acct) \<and> (\<forall>acct. reported cs acct \<longleftrightarrow> acct \<in> fr_escrow ` set st)"
  by (auto simp: report_refundable_def vret_def pays_nobody_def reported_def reports_def locked_def locks_def happens_def split: if_splits)

lemma fund_all_effect:
  "fund_all env cfg nodes st h = (r, h') \<Longrightarrow>
     \<exists>cs. h' = h @ cs \<and> pays_nobody cs \<and>
       (case r of
          Inr st' \<Rightarrow> \<exists>new. st' = st @ new \<and> map fr_node new = nodes \<and> (\<forall>acct. locked env cfg h cs acct \<longleftrightarrow> acct \<in> fr_escrow ` set new)
        | Inl _ \<Rightarrow> \<forall>acct. locked env cfg h cs acct \<or> acct \<in> fr_escrow ` set st \<longrightarrow> reported cs acct)"
proof (induction env cfg nodes st arbitrary: h r h' rule: fund_all.induct)
  case (1 env cfg st)
  then show ?case by (auto simp: vret_def locked_def)
next
  case (2 env cfg node nodes st)
  let ?fund = "fund_escrow env node (pc_wallet cfg) (pc_rpc_url cfg) (pc_amount_usdc cfg) (pc_timeout_secs cfg)"
  obtain q h1 where q: "?fund h = (q, h1)" by (cases "?fund h")
  obtain cs1 where 1: "h1 = h @ cs1" "pays_nobody cs1"
    "\<And>acct. locked env cfg h cs1 acct \<longleftrightarrow> (\<exists>s. q = Inr s \<and> acct = fs_escrow_account s)"
    using fund_effect [OF q] by blast
  show ?case
  proof (cases q)
    case (Inr s)
    let ?f = "\<lparr>fr_node = node, fr_escrow = fs_escrow_account s, fr_job_uuid = fs_job_uuid s, fr_amount = fs_amount_micro s\<rparr>"
    have "fund_all env cfg nodes (st @ [?f]) h1 = (r, h')" using "2.prems" q Inr by (simp add: vbind_def vtry_def)
    from "2.IH" [OF this] obtain cs2 where 2: "h' = h1 @ cs2" "pays_nobody cs2"
      "case r of Inr st' \<Rightarrow> \<exists>new. st' = (st @ [?f]) @ new \<and> map fr_node new = nodes \<and> (\<forall>acct. locked env cfg h1 cs2 acct \<longleftrightarrow> acct \<in> fr_escrow ` set new)
        | Inl _ \<Rightarrow> \<forall>acct. locked env cfg h1 cs2 acct \<or> acct \<in> fr_escrow ` set (st @ [?f]) \<longrightarrow> reported cs2 acct" by blast
    have l: "locked env cfg h (cs1 @ cs2) acct \<longleftrightarrow> acct = fs_escrow_account s \<or> locked env cfg h1 cs2 acct" for acct
      using 1 Inr by (simp add: locked_append)
    show ?thesis
    proof (intro exI [of _ "cs1 @ cs2"] conjI)
      show "h' = h @ cs1 @ cs2" "pays_nobody (cs1 @ cs2)" using 1 2 by simp_all
      show "case r of
          Inr st' \<Rightarrow> \<exists>new. st' = st @ new \<and> map fr_node new = node # nodes \<and> (\<forall>acct. locked env cfg h (cs1 @ cs2) acct \<longleftrightarrow> acct \<in> fr_escrow ` set new)
        | Inl _ \<Rightarrow> \<forall>acct. locked env cfg h (cs1 @ cs2) acct \<or> acct \<in> fr_escrow ` set st \<longrightarrow> reported (cs1 @ cs2) acct"
      proof (cases r)
        case Inl
        then show ?thesis using 2(3) l by auto
      next
        case (Inr st')
        then obtain new where "st' = (st @ [?f]) @ new" "map fr_node new = nodes" "\<forall>acct. locked env cfg h1 cs2 acct \<longleftrightarrow> acct \<in> fr_escrow ` set new"
          using 2(3) by auto
        then show ?thesis using Inr l by (auto intro!: exI [of _ "?f # new"])
      qed
    qed
  next
    case (Inl e)
    obtain u :: "string + unit" and h2 where rep: "report_refundable st ''funding aborted before this run started'' h1 = (u, h2)"
      by (metis surj_pair)
    obtain cs2 where 2: "h2 = h1 @ cs2" "u = Inr ()" "pays_nobody cs2" "\<forall>acct. \<not> locked env cfg h1 cs2 acct"
      "\<forall>acct. reported cs2 acct \<longleftrightarrow> acct \<in> fr_escrow ` set st" using report_effect [OF rep] by blast
    have "h' = h2 \<and> (\<exists>m. r = Inl m)" using "2.prems" q Inl rep 2(2) by (auto simp: vbind_def vtry_def vlift_def)
    then show ?thesis using 1 2 Inl by (auto simp: locked_append intro!: exI [of _ "cs1 @ cs2"])
  qed
qed

text \<open>Asking the replicas: nobody is paid, and a proof kept for a node is the signed answer of that node.\<close>

lemma emits_submit [intro!]: "emits quiet (sdk_submit env node opts)"
  by (auto simp: emits_def sdk_submit_def Let_def vbind_def vmap_err_def sdk_request_def vlift_def split: sum.splits)

lemma replica_options_data: "replica_options env k inp tok demo signer f h = (Inr opts, h') \<Longrightarrow> op_data opts = inp \<and> h' = h"
  by (auto simp: replica_options_def Let_def with_token_def opts_kernel_def opts_token_def opts_payment_def opts_job_id_def
      opts_demo_payment_def result_iff split: option.splits)

lemma replica_options_quiet [intro!]: "emits quiet (replica_options env k inp tok demo signer f)"
  by (auto simp: emits_def replica_options_def Let_def vbind_def vlift_def vret_def split: option.splits sum.splits)

lemma emits_ask_replica [intro!]: "emits quiet (ask_replica env k inp tok demo signer stakes tgt st)"
  unfolding ask_replica_def by (cases tgt) (auto split: sum.splits)

definition proven :: "('k, 's) net_env \<Rightarrow> bytes \<Rightarrow> string \<Rightarrow> bytes \<times> string \<times> string \<Rightarrow> bool" where
  "proven env inp node p \<longleftrightarrow> (case p of (outp, sig, sb) \<Rightarrow>
     \<exists>key jid. cr_parse_key (nt_crypto env) node = Some key \<and> sb = nt_key_text env key \<and>
       verify_result (nt_crypto env) key jid inp outp sig)"

definition answers_ok :: "('k, 's) net_env \<Rightarrow> bytes \<Rightarrow> string list \<Rightarrow> replica_result list \<times> proof_map \<Rightarrow> bool" where
  "answers_ok env inp nodes st \<longleftrightarrow> distinct (map rr_node (fst st)) \<and> rr_node ` set (fst st) \<subseteq> set nodes \<and>
     (\<forall>n p. snd st n = Some p \<longrightarrow> (\<exists>r \<in> set (fst st). rr_node r = n \<and> rr_output r = fst p \<and> (rr_verified r \<longrightarrow> proven env inp n p)))"

lemma connect_key: "sdk_connect env node h = (Inr key, h') \<Longrightarrow> cr_parse_key (nt_crypto env) node = Some key"
  by (auto simp: sdk_connect_def result_iff ok_or_def split: option.splits)

lemma submit_verified:
  assumes "sdk_submit env key opts h = (Inr res, h')"
  shows "jo_signature_verified res \<longleftrightarrow> signed_result env key (op_data opts) res"
  using assms verified_iff by (fastforce simp: sdk_submit_def Let_def result_iff)

lemma ask_replica_step:
  assumes a: "ask_replica env k inp tok demo signer stakes (i, node) st h = (Inr st', h')"
    and ok: "answers_ok env inp nodes st" and new: "node \<notin> set nodes"
  shows "answers_ok env inp (nodes @ [node]) st'"
proof -
  obtain results proofs where st: "st = (results, proofs)" by (cases st)
  from a [unfolded ask_replica_def prod.case result_iff] obtain opts h0 c h1
    where opts: "replica_options env k inp tok demo signer (if i < length stakes then Some (stakes ! i) else None) h = (Inr opts, h0)"
    and c: "sdk_connect env node h0 = (c, h1)"
    and rest: "(case c of Inl _ \<Rightarrow> vret st | Inr key \<Rightarrow> vbind (vtry (sdk_submit env key opts)) (\<lambda>r. vret (case r of Inl _ \<Rightarrow> st
        | Inr res \<Rightarrow> (fst st @ [\<lparr>rr_node = node, rr_output = jo_output res, rr_verified = jo_signature_verified res\<rparr>],
            case jo_signature res of None \<Rightarrow> snd st | Some sig \<Rightarrow> (case jo_signed_by res of None \<Rightarrow> snd st | Some sb \<Rightarrow> (snd st)(node \<mapsto> (jo_output res, sig, sb))))))) h1 = (Inr st' :: string + replica_result list \<times> proof_map, h')"
    by (elim exE conjE) (rule that; assumption)
  have same: "answers_ok env inp (nodes @ [node]) st" using ok by (auto simp: answers_ok_def)
  show ?thesis
  proof (cases c)
    case (Inl e)
    then show ?thesis using rest same by (simp add: vret_def)
  next
    case (Inr key)
    then obtain r h2 where r: "sdk_submit env key opts h1 = (r, h2)" and st': "st' = (case r of Inl _ \<Rightarrow> st
        | Inr res \<Rightarrow> (fst st @ [\<lparr>rr_node = node, rr_output = jo_output res, rr_verified = jo_signature_verified res\<rparr>],
            case jo_signature res of None \<Rightarrow> snd st | Some sig \<Rightarrow> (case jo_signed_by res of None \<Rightarrow> snd st | Some sb \<Rightarrow> (snd st)(node \<mapsto> (jo_output res, sig, sb)))))"
      using rest by (auto simp: result_iff)
    show ?thesis
    proof (cases r)
      case (Inl e)
      then show ?thesis using st' same by simp
    next
      case r': (Inr res)
      let ?r = "\<lparr>rr_node = node, rr_output = jo_output res, rr_verified = jo_signature_verified res\<rparr>"
      have key: "cr_parse_key (nt_crypto env) node = Some key" using connect_key c Inr by simp
      have ver: "jo_signature_verified res \<longleftrightarrow> signed_result env key inp res"
        using submit_verified r r' replica_options_data [OF opts] by metis
      have prov: "proven env inp node (jo_output res, sig, sb)"
        if "jo_signature_verified res" "jo_signature res = Some sig" "jo_signed_by res = Some sb" for sig sb
        using that ver key by (auto simp: proven_def signed_result_def)
      have fresh: "node \<notin> rr_node ` set results" using ok new by (auto simp: answers_ok_def st)
      show ?thesis
        unfolding answers_ok_def
      proof (intro conjI allI impI)
        show "distinct (map rr_node (fst st'))" "rr_node ` set (fst st') \<subseteq> set (nodes @ [node])"
          using ok fresh by (auto simp: st' r' st answers_ok_def)
        fix n p assume p: "snd st' n = Some p"
        show "\<exists>r \<in> set (fst st'). rr_node r = n \<and> rr_output r = fst p \<and> (rr_verified r \<longrightarrow> proven env inp n p)"
        proof (cases "n = node \<and> (\<exists>sig sb. jo_signature res = Some sig \<and> jo_signed_by res = Some sb)")
          case True
          then obtain sig sb where s: "jo_signature res = Some sig" "jo_signed_by res = Some sb" by blast
          then have "p = (jo_output res, sig, sb)" using p True by (simp add: st' r' st)
          then show ?thesis using True prov [OF _ s] by (intro bexI [of _ ?r]) (simp_all add: st' r')
        next
          case False
          then have "proofs n = Some p" using p by (auto simp: st' r' st split: option.splits if_splits)
          then obtain r0 where "r0 \<in> set results" "rr_node r0 = n" "rr_output r0 = fst p" "rr_verified r0 \<longrightarrow> proven env inp n p"
            using ok unfolding answers_ok_def st fst_conv snd_conv by blast
          then show ?thesis by (intro bexI [of _ r0]) (simp_all add: st' r' st)
        qed
      qed
    qed
  qed
qed

lemma ask_all_replicas:
  assumes "vfold (ask_replica env k inp tok demo signer stakes) (enumerate 0 targets) ([], Map.empty) h = (Inr st, h')"
    and "distinct targets"
  shows "answers_ok env inp targets st"
proof -
  have "(\<lambda>pre st h. answers_ok env inp (map snd pre) st) (enumerate 0 targets) st h'"
  proof (rule vfold_inv [OF assms(1)])
    show "answers_ok env inp (map snd ([] :: (nat \<times> string) list)) ([], Map.empty)" by (simp add: answers_ok_def)
    fix pre x post s1 h1 s2 h2
    assume e: "enumerate 0 targets = pre @ x # post" and i: "answers_ok env inp (map snd pre) s1"
      and s: "ask_replica env k inp tok demo signer stakes x s1 h1 = (Inr s2, h2)"
    have "targets = map snd (pre @ x # post)" using e by (metis map_snd_enumerate)
    then have "snd x \<notin> set (map snd pre)" using assms(2) by auto
    then show "answers_ok env inp (map snd (pre @ [x])) s2"
      using ask_replica_step [of env k inp tok demo signer stakes "fst x" "snd x" s1 h1 s2 h2 "map snd pre"] s i by simp
  qed
  then show ?thesis by simp
qed

text \<open>Settling: only the escrow of an agreeing node is touched, with the proof of that node.\<close>

definition settles ::
  "('k, 's) net_env \<Rightarrow> pay_config \<Rightarrow> bytes \<Rightarrow> funded_replica list \<Rightarrow> proof_map \<Rightarrow> string \<Rightarrow> net_event \<Rightarrow> bool" where
  "settles env cfg inp stakes proofs node e \<longleftrightarrow> (let sol = nt_sol env (pc_rpc_url cfg) in
     \<exists>f outp sig_hex sb program job key sig.
        List.find (\<lambda>f. fr_node f = node) stakes = Some f \<and> proofs node = Some (outp, sig_hex, sb) \<and>
        e = EvChain (pc_rpc_url cfg) (ChReleaseVerified program job key inp outp sig) \<and>
        parse_pubkey sol (pc_escrow_program cfg) = Inr program \<and> parse_pubkey sol (fr_escrow f) = Inr job \<and>
        parse_hex32 sol sb = Inr key \<and> parse_hex64 sol sig_hex = Inr sig)"

definition got_paid :: "('k, 's) net_env \<Rightarrow> pay_config \<Rightarrow> net_event list \<Rightarrow> net_event list \<Rightarrow> string \<Rightarrow> bool" where
  "got_paid env cfg h cs acct \<longleftrightarrow> happens (\<lambda>h e. pays_out env cfg h e acct) h cs"

lemma got_paid_append: "got_paid env cfg h (cs @ ds) acct \<longleftrightarrow> got_paid env cfg h cs acct \<or> got_paid env cfg (h @ cs) ds acct"
  by (simp add: got_paid_def happens_append)

lemma release_call_effect:
  assumes "release_verified_cmd env escrow (pc_wallet cfg) (pc_rpc_url cfg) (Some (pc_escrow_program cfg)) inp outp sig_hex sb h = (r, h')"
  shows "(h' = h \<and> (\<exists>e. r = Inl e)) \<or> (\<exists>program job key sig. let sol = nt_sol env (pc_rpc_url cfg) in
     h' = h @ [EvChain (pc_rpc_url cfg) (ChReleaseVerified program job key inp outp sig)] \<and>
     parse_pubkey sol (pc_escrow_program cfg) = Inr program \<and> parse_pubkey sol escrow = Inr job \<and>
     parse_hex32 sol sb = Inr key \<and> parse_hex64 sol sig_hex = Inr sig \<and>
     (\<forall>rr. r = Inr rr \<longrightarrow> pays_out env cfg h (EvChain (pc_rpc_url cfg) (ChReleaseVerified program job key inp outp sig)) escrow))"
  using assms unfolding release_verified_cmd_def Let_def
  by (elim bind_walletE bind_liftE) (auto simp: on_chain_def pays_out_def or_default_def)

lemma settle_node_effect:
  assumes "settle_node env cfg inp stakes proofs node s h = (r, h')"
  shows "\<exists>cs s'. h' = h @ cs \<and> r = Inr s' \<and> (\<forall>e \<in> set cs. settles env cfg inp stakes proofs node e) \<and>
    (s' = s \<or> s' = s @ [node] \<and> (\<exists>f. List.find (\<lambda>f. fr_node f = node) stakes = Some f \<and> got_paid env cfg h cs (fr_escrow f)))"
proof (cases "List.find (\<lambda>f. fr_node f = node) stakes")
  case None
  then show ?thesis using assms by (auto simp: settle_node_def vret_def)
next
  case f: (Some f)
  show ?thesis
  proof (cases "proofs node")
    case None
    then show ?thesis using assms f by (auto simp: settle_node_def vret_def)
  next
    case (Some p)
    obtain outp sig sb where p: "proofs node = Some (outp, sig, sb)" using Some by (cases p) auto
    let ?rel = "release_verified_cmd env (fr_escrow f) (pc_wallet cfg) (pc_rpc_url cfg) (Some (pc_escrow_program cfg)) inp outp sig sb"
    obtain q h1 where q: "?rel h = (q, h1)" by (cases "?rel h")
    have r: "h' = h1" "r = Inr (case q of Inr _ \<Rightarrow> s @ [node] | Inl _ \<Rightarrow> s)"
      using assms f p q by (auto simp: settle_node_def vbind_def vtry_def vret_def)
    from release_call_effect [OF q] show ?thesis
    proof (elim disjE)
      assume "h1 = h \<and> (\<exists>e. q = Inl e)"
      then show ?thesis using r by auto
    next
      assume "\<exists>program job key sg. let sol = nt_sol env (pc_rpc_url cfg) in
         h1 = h @ [EvChain (pc_rpc_url cfg) (ChReleaseVerified program job key inp outp sg)] \<and>
         parse_pubkey sol (pc_escrow_program cfg) = Inr program \<and> parse_pubkey sol (fr_escrow f) = Inr job \<and>
         parse_hex32 sol sb = Inr key \<and> parse_hex64 sol sig = Inr sg \<and>
         (\<forall>rr. q = Inr rr \<longrightarrow> pays_out env cfg h (EvChain (pc_rpc_url cfg) (ChReleaseVerified program job key inp outp sg)) (fr_escrow f))"
      then obtain program job key sg where e: "h1 = h @ [EvChain (pc_rpc_url cfg) (ChReleaseVerified program job key inp outp sg)]"
        "parse_pubkey (nt_sol env (pc_rpc_url cfg)) (pc_escrow_program cfg) = Inr program"
        "parse_pubkey (nt_sol env (pc_rpc_url cfg)) (fr_escrow f) = Inr job"
        "parse_hex32 (nt_sol env (pc_rpc_url cfg)) sb = Inr key" "parse_hex64 (nt_sol env (pc_rpc_url cfg)) sig = Inr sg"
        "\<And>rr. q = Inr rr \<Longrightarrow> pays_out env cfg h (EvChain (pc_rpc_url cfg) (ChReleaseVerified program job key inp outp sg)) (fr_escrow f)"
        unfolding Let_def by blast
      let ?e = "EvChain (pc_rpc_url cfg) (ChReleaseVerified program job key inp outp sg)"
      have "settles env cfg inp stakes proofs node ?e"
        unfolding settles_def Let_def using e(2-5) f p by blast
      moreover have "got_paid env cfg h [?e] (fr_escrow f)" if "q = Inr rr" for rr using e(6) [OF that] by (simp add: got_paid_def)
      ultimately show ?thesis using r e(1) f
        by (intro exI [of _ "[?e]"] exI [of _ "case q of Inr _ \<Rightarrow> s @ [node] | Inl _ \<Rightarrow> s"]) (auto split: sum.splits)
    qed
  qed
qed

lemma settle_all_effect:
  "vfold (settle_node env cfg inp stakes proofs) nodes s h = (r, h') \<Longrightarrow>
     \<exists>cs s'. h' = h @ cs \<and> r = Inr s' \<and> (\<forall>e \<in> set cs. \<exists>n \<in> set nodes. settles env cfg inp stakes proofs n e) \<and>
       (\<forall>n \<in> set s'. n \<in> set s \<or> n \<in> set nodes \<and> (\<exists>f. List.find (\<lambda>f. fr_node f = n) stakes = Some f \<and> got_paid env cfg h cs (fr_escrow f)))"
proof (induction nodes arbitrary: s h)
  case Nil
  then show ?case by (auto simp: vret_def)
next
  case (Cons n nodes)
  obtain q h1 where q: "settle_node env cfg inp stakes proofs n s h = (q, h1)"
    by (cases "settle_node env cfg inp stakes proofs n s h")
  from settle_node_effect [OF q] obtain cs1 s1 where 1: "h1 = h @ cs1" "q = Inr s1" "\<forall>e \<in> set cs1. settles env cfg inp stakes proofs n e"
    "s1 = s \<or> s1 = s @ [n] \<and> (\<exists>f. List.find (\<lambda>f. fr_node f = n) stakes = Some f \<and> got_paid env cfg h cs1 (fr_escrow f))" by blast
  have "vfold (settle_node env cfg inp stakes proofs) nodes s1 h1 = (r, h')" using Cons.prems q 1(2) by (simp add: vbind_def)
  from Cons.IH [OF this] obtain cs2 s2 where 2: "h' = h1 @ cs2" "r = Inr s2"
    "\<forall>e \<in> set cs2. \<exists>n \<in> set nodes. settles env cfg inp stakes proofs n e"
    "\<forall>m \<in> set s2. m \<in> set s1 \<or> m \<in> set nodes \<and> (\<exists>f. List.find (\<lambda>f. fr_node f = m) stakes = Some f \<and> got_paid env cfg h1 cs2 (fr_escrow f))" by blast
  show ?case
  proof (intro exI conjI)
    show "h' = h @ cs1 @ cs2" "r = Inr s2" using 1 2 by simp_all
    show "\<forall>e \<in> set (cs1 @ cs2). \<exists>m \<in> set (n # nodes). settles env cfg inp stakes proofs m e" using 1(3) 2(3) by auto
    show "\<forall>m \<in> set s2. m \<in> set s \<or> m \<in> set (n # nodes) \<and>
        (\<exists>f. List.find (\<lambda>f. fr_node f = m) stakes = Some f \<and> got_paid env cfg h (cs1 @ cs2) (fr_escrow f))"
      using 1 2(4) by (auto simp: got_paid_append)
  qed
qed

lemma settles_not_locked: "\<forall>e \<in> set cs. \<exists>n \<in> ns. settles env cfg inp stakes proofs n e \<Longrightarrow> \<not> locked env cfg h cs acct"
  unfolding locked_def happens_def locks_def settles_def Let_def by (metis net_event.inject(3) chain_call.distinct(3) nth_mem)

lemma winner_votes:
  "ta_winner (tally sha rs n) = Some win \<Longrightarrow> wn_nodes win = map rr_node (votes sha rs (wn_hash win))"
  using tally_Some(1) [of sha rs] tally_None [of sha rs] by (cases "best_group (group_results sha rs)") (auto split: if_splits)

lemma find_distinct: "distinct (map fr_node stakes) \<Longrightarrow> f \<in> set stakes \<Longrightarrow> List.find (\<lambda>g. fr_node g = fr_node f) stakes = Some f"
  by (induction stakes) auto

lemma conclude_effect:
  assumes "conclude_quorum env (Some cfg) inp stakes replicas st h = (r, h')" and d: "distinct (map fr_node stakes)"
  shows "\<exists>cs. h' = h @ cs \<and> (\<forall>acct. \<not> locked env cfg h cs acct) \<and>
    (\<forall>f \<in> set stakes. reported cs (fr_escrow f) \<or> got_paid env cfg h cs (fr_escrow f) \<or>
       (\<not> pc_auto_release cfg \<and> (\<exists>win. r = Inr win \<and> fr_node f \<in> set (wn_nodes win)))) \<and>
    (\<forall>e \<in> set cs. pays_nobody [e] \<or> (\<exists>win. r = Inr win \<and> ta_winner (tally (cr_sha256 (nt_crypto env)) (fst st) replicas) = Some win \<and>
       pc_auto_release cfg \<and> (\<exists>n \<in> set (wn_nodes win). settles env cfg inp stakes (snd st) n e)))"
proof (cases "ta_winner (tally (cr_sha256 (nt_crypto env)) (fst st) replicas)")
  case None
  obtain u :: "string + unit" and h1 where rep: "report_refundable stakes ''no quorum - no provider was paid'' h = (u, h1)" by (metis surj_pair)
  from report_effect [OF rep] obtain cs where c: "h1 = h @ cs" "u = Inr ()" "pays_nobody cs" "\<forall>acct. \<not> locked env cfg h cs acct"
    "\<forall>acct. reported cs acct \<longleftrightarrow> acct \<in> fr_escrow ` set stakes" by blast
  have "h' = h1" using assms(1) None rep c(2) by (simp add: conclude_quorum_def Let_def vbind_def vlift_def)
  then show ?thesis using c by (intro exI [of _ cs]) (auto simp: pays_nobody_def)
next
  case (Some win)
  obtain u :: "string + string list" and h1 where s: "(if pc_auto_release cfg then vfold (settle_node env cfg inp stakes (snd st)) (wn_nodes win) []
      else vret (wn_nodes win)) h = (u, h1)" by (metis surj_pair)
  have "\<exists>cs s'. h1 = h @ cs \<and> u = Inr s' \<and> (\<forall>e \<in> set cs. pc_auto_release cfg \<and> (\<exists>n \<in> set (wn_nodes win). settles env cfg inp stakes (snd st) n e)) \<and>
      (\<forall>n \<in> set s'. n \<in> set (wn_nodes win) \<and> (pc_auto_release cfg \<longrightarrow>
         (\<exists>f. List.find (\<lambda>f. fr_node f = n) stakes = Some f \<and> got_paid env cfg h cs (fr_escrow f))))"
  proof (cases "pc_auto_release cfg")
    case True
    then have "vfold (settle_node env cfg inp stakes (snd st)) (wn_nodes win) [] h = (u, h1)" using s by simp
    from settle_all_effect [OF this] True show ?thesis by auto
  next
    case False
    then show ?thesis using s by (auto simp: vret_def)
  qed
  then obtain cs s' where 1: "h1 = h @ cs" "u = Inr s'"
    "\<forall>e \<in> set cs. pc_auto_release cfg \<and> (\<exists>n \<in> set (wn_nodes win). settles env cfg inp stakes (snd st) n e)"
    "\<forall>n \<in> set s'. n \<in> set (wn_nodes win) \<and> (pc_auto_release cfg \<longrightarrow>
         (\<exists>f. List.find (\<lambda>f. fr_node f = n) stakes = Some f \<and> got_paid env cfg h cs (fr_escrow f)))" by blast
  let ?left = "filter (\<lambda>f. fr_node f \<notin> set s') stakes"
  obtain v :: "string + unit" and h2 where rep: "report_refundable ?left ''not paid (divergent, unsigned, no result, or release failed)'' h1 = (v, h2)"
    by (metis surj_pair)
  from report_effect [OF rep] obtain ds where 2: "h2 = h1 @ ds" "v = Inr ()" "pays_nobody ds" "\<forall>acct. \<not> locked env cfg h1 ds acct"
    "\<forall>acct. reported ds acct \<longleftrightarrow> acct \<in> fr_escrow ` set ?left" by blast
  have r: "r = Inr win" "h' = h2"
    using assms(1) Some s rep 1(2) 2(2) by (auto simp: conclude_quorum_def settle_winner_def Let_def vbind_def vret_def)
  have nl: "\<not> locked env cfg h (cs @ ds) acct" for acct
    using settles_not_locked [of cs "set (wn_nodes win)" env cfg inp stakes "snd st" h acct] 1 2(4) by (simp add: locked_append)
  have acc: "reported (cs @ ds) (fr_escrow f) \<or> got_paid env cfg h (cs @ ds) (fr_escrow f) \<or>
       (\<not> pc_auto_release cfg \<and> (\<exists>win. r = Inr win \<and> fr_node f \<in> set (wn_nodes win)))" if f: "f \<in> set stakes" for f
  proof (cases "fr_node f \<in> set s'")
    case False
    then have "reported ds (fr_escrow f)" using 2(5) f by auto
    then show ?thesis by simp
  next
    case True
    then show ?thesis using 1(4) find_distinct [OF d f] r by (fastforce simp: got_paid_append)
  qed
  have ev: "pays_nobody [e] \<or> (\<exists>win. r = Inr win \<and> ta_winner (tally (cr_sha256 (nt_crypto env)) (fst st) replicas) = Some win \<and>
       pc_auto_release cfg \<and> (\<exists>n \<in> set (wn_nodes win). settles env cfg inp stakes (snd st) n e))" if "e \<in> set (cs @ ds)" for e
    using that 1(3) 2(3) r(1) Some by (auto simp: pays_nobody_def)
  show ?thesis using nl acc ev r(2) 1(1) 2(1) by (intro exI [of _ "cs @ ds"]) simp
qed

lemma emits_targets [intro!]: "emits quiet (resolve_targets env via spec n)"
  unfolding resolve_targets_def Let_def by auto

text \<open>With job ids that parse, asking the replicas does not fail.\<close>

lemma fund_escrow_id: "fund_escrow env node w u amount t h = (Inr s, h') \<Longrightarrow> \<exists>b. fs_job_uuid s = nt_uuid_text env b"
  unfolding fund_escrow_def Let_def
  by (elim bind_liftE bind_walletE bind_uuidE bind_chainE bindE retE) auto

lemma fund_all_ids:
  "fund_all env cfg nodes st h = (Inr st', h') \<Longrightarrow> \<forall>f \<in> set st. \<exists>b. fr_job_uuid f = nt_uuid_text env b \<Longrightarrow>
     \<forall>f \<in> set st'. \<exists>b. fr_job_uuid f = nt_uuid_text env b"
proof (induction env cfg nodes st arbitrary: h rule: fund_all.induct)
  case (1 env cfg st)
  then show ?case by (simp add: vret_def)
next
  case (2 env cfg node nodes st)
  let ?fund = "fund_escrow env node (pc_wallet cfg) (pc_rpc_url cfg) (pc_amount_usdc cfg) (pc_timeout_secs cfg)"
  obtain q h1 where q: "?fund h = (q, h1)" by (cases "?fund h")
  show ?case
  proof (cases q)
    case (Inl e)
    then show ?thesis using "2.prems"(1) q by (auto simp: vbind_def vtry_def vlift_def split: prod.splits sum.splits)
  next
    case (Inr s)
    let ?f = "\<lparr>fr_node = node, fr_escrow = fs_escrow_account s, fr_job_uuid = fs_job_uuid s, fr_amount = fs_amount_micro s\<rparr>"
    have "fund_all env cfg nodes (st @ [?f]) h1 = (Inr st', h')" using "2.prems"(1) q Inr by (simp add: vbind_def vtry_def)
    moreover have "\<exists>b. fr_job_uuid ?f = nt_uuid_text env b" using fund_escrow_id q Inr by simp
    ultimately show ?thesis using "2.IH" [of s h1] "2.prems"(2) by simp
  qed
qed

lemma ask_all_total:
  assumes "\<forall>f \<in> set stakes. nt_uuid_parse env (fr_job_uuid f) \<noteq> None"
  shows "\<exists>st h'. vfold (ask_replica env k inp tok demo signer stakes) ts st0 h = (Inr st, h')"
proof (induction ts arbitrary: st0 h)
  case Nil
  then show ?case by (simp add: vret_def)
next
  case (Cons tgt ts)
  obtain i node where tgt: "tgt = (i, node)" by (cases tgt)
  have "\<exists>opts. replica_options env k inp tok demo signer (if i < length stakes then Some (stakes ! i) else None) h = (Inr opts, h)"
    using assms by (auto simp: replica_options_def Let_def vbind_def vlift_def vret_def ok_or_def split: option.splits)
      (metis nth_mem option.distinct(1))
  then obtain opts where o: "replica_options env k inp tok demo signer (if i < length stakes then Some (stakes ! i) else None) h = (Inr opts, h)" by blast
  obtain c h1 where c: "sdk_connect env node h = (c, h1)" by (cases "sdk_connect env node h")
  have "\<exists>st1 h2. ask_replica env k inp tok demo signer stakes tgt st0 h = (Inr st1, h2)"
  proof (cases c)
    case (Inl e)
    then show ?thesis using o c by (simp add: ask_replica_def tgt vbind_def vtry_def vret_def)
  next
    case (Inr key)
    obtain r h2 where "sdk_submit env key opts h1 = (r, h2)" by (cases "sdk_submit env key opts h1")
    then show ?thesis using Inr o c by (simp add: ask_replica_def tgt vbind_def vtry_def vret_def)
  qed
  then obtain st1 h2 where "ask_replica env k inp tok demo signer stakes tgt st0 h = (Inr st1, h2)" by blast
  then show ?case using Cons.IH [of st1 h2] by (simp add: vbind_def)
qed

text \<open>The whole run, in its three ways of ending.\<close>

lemma run_quorum_cases:
  assumes "run_quorum env via spec kname inp tok demo replicas (Some cfg) h = (r, h')"
    and wallet: "\<And>h. \<exists>kp. nt_keypair env h (or_default (nt_default_keypair env) (pc_wallet cfg)) = Inr kp"
    and ids: "\<And>b. nt_uuid_parse env (nt_uuid_text env b) \<noteq> None"
  obtains (early) cs where "h' = h @ cs" "\<forall>e \<in> set cs. quiet e" "\<exists>e. r = Inl e"
  | (unfunded) qs targets e where "\<forall>e \<in> set qs. quiet e" "fund_all env cfg targets [] (h @ qs) = (Inl e, h')" "r = Inl e"
  | (ran) qs targets stakes h2 as st where "\<forall>e \<in> set qs. quiet e" "distinct targets"
      "fund_all env cfg targets [] (h @ qs) = (Inr stakes, h2)" "\<forall>e \<in> set as. quiet e"
      "answers_ok env inp targets st" "conclude_quorum env (Some cfg) inp stakes replicas st (h2 @ as) = (r, h')"
proof -
  note run = assms(1) [unfolded run_quorum_def option.case]
  obtain t h1 where t: "resolve_targets env via spec replicas h = (t, h1)" by (cases "resolve_targets env via spec replicas h")
  obtain qs where q: "h1 = h @ qs" "\<forall>e \<in> set qs. quiet e" using emitsD [OF emits_targets t] by blast
  show thesis
  proof (cases t)
    case (Inl e)
    then have "h' = h @ qs \<and> (\<exists>e. r = Inl e)" using run t q(1) by (auto simp: vbind_def)
    then show thesis using early q(2) by blast
  next
    case (Inr targets)
    have dt: "distinct targets" using targets_distinct t Inr by simp
    show thesis
    proof (cases "replicas \<le> length targets")
      case False
      then have "h' = h @ qs \<and> (\<exists>e. r = Inl e)" using run t q(1) Inr by (auto simp: vbind_def vlift_def require_def)
      then show thesis using early q(2) by blast
    next
      case True
      obtain f h2 where f: "fund_all env cfg targets [] h1 = (f, h2)" by (cases "fund_all env cfg targets [] h1")
      show thesis
      proof (cases f)
        case (Inl e)
        then have "fund_all env cfg targets [] (h @ qs) = (Inl e, h') \<and> r = Inl e"
          using run t \<open>t = Inr targets\<close> True f q(1) by (simp add: vbind_def vlift_def require_def)
        then show thesis using unfunded q(2) by blast
      next
        case f': (Inr stakes)
        obtain kp where kp: "nt_keypair env h2 (or_default (nt_default_keypair env) (pc_wallet cfg)) = Inr kp" using wallet by blast
        have "\<forall>f \<in> set stakes. nt_uuid_parse env (fr_job_uuid f) \<noteq> None" using fund_all_ids f f' ids by fastforce
        then obtain st h3 where st: "vfold (ask_replica env kname inp tok demo (Some kp) stakes) (enumerate 0 targets) ([], Map.empty) h2 = (Inr st, h3)"
          using ask_all_total by blast
        have "emits quiet (vfold (ask_replica env kname inp tok demo (Some kp) stakes) (enumerate 0 targets) ([], Map.empty))"
          by (intro emits_vfold emits_ask_replica)
        from emitsD [OF this st] obtain as where as: "h3 = h2 @ as" "\<forall>e \<in> set as. quiet e" by blast
        have "conclude_quorum env (Some cfg) inp stakes replicas st h3 = (r, h')"
          using run t \<open>t = Inr targets\<close> True f f' kp st by (simp add: vbind_def vlift_def require_def load_wallet_def vret_def)
        then show thesis using ran [OF q(2) dt _ as(2) ask_all_replicas [OF st dt]] f f' q(1) as(1) by simp
      qed
    qed
  qed
qed


text \<open>
  C16. A replicated run pays only for the winning answer. Whatever the providers and directories do, each
  release the run submits is for a provider of the winning group, by automatic release, for the input
  that was sent and an output whose hash is the winning one, with a signature of that very provider
  over job, input and output, to the escrow funded for it under the configured program.
\<close>
theorem only_winners_are_paid:
  assumes run: "run_quorum env via spec kname inp tok demo replicas (Some cfg) h = (r, h')"
    and wallet: "\<And>h. \<exists>kp. nt_keypair env h (or_default (nt_default_keypair env) (pc_wallet cfg)) = Inr kp"
    and ids: "\<And>b. nt_uuid_parse env (nt_uuid_text env b) \<noteq> None"
    and paid: "EvChain url (ChReleaseVerified program job key inp' outp sig) \<in> set (drop (length h) h')"
  shows "\<exists>win node (f :: funded_replica) sig_hex. r = Inr win \<and> pc_auto_release cfg \<and> node \<in> set (wn_nodes win) \<and>
     inp' = inp \<and> cr_sha256 (nt_crypto env) outp = wn_hash win \<and> url = pc_rpc_url cfg \<and>
     fr_node f = node \<and> locked env cfg h (drop (length h) h') (fr_escrow f) \<and>
     parse_pubkey (nt_sol env url) (fr_escrow f) = Inr job \<and> parse_pubkey (nt_sol env url) (pc_escrow_program cfg) = Inr program \<and>
     parse_hex64 (nt_sol env url) sig_hex = Inr sig \<and>
     (\<exists>k jid. cr_parse_key (nt_crypto env) node = Some k \<and> parse_hex32 (nt_sol env url) (nt_key_text env k) = Inr key \<and>
        verify_result (nt_crypto env) k jid inp outp sig_hex)"
  using run wallet ids
proof (cases rule: run_quorum_cases)
  case (early cs)
  then show ?thesis using paid quiet_pays_nobody [OF early(2)] by (auto simp: pays_nobody_def)
next
  case (unfunded qs targets e)
  from fund_all_effect [OF unfunded(2)] obtain cs where "h' = (h @ qs) @ cs" "pays_nobody cs" by blast
  then show ?thesis using paid quiet_pays_nobody [OF unfunded(1)] by (auto simp: pays_nobody_def)
next
  case (ran qs targets stakes h2 as st)
  from fund_all_effect [OF ran(3)] obtain cs where c: "h2 = (h @ qs) @ cs" "map fr_node stakes = targets" "pays_nobody cs"
    "\<forall>acct. locked env cfg (h @ qs) cs acct \<longleftrightarrow> acct \<in> fr_escrow ` set stakes" by auto
  have d: "distinct (map fr_node stakes)" using ran(2) c(2) by simp
  let ?t = "tally (cr_sha256 (nt_crypto env)) (fst st) replicas" and ?e = "EvChain url (ChReleaseVerified program job key inp' outp sig)"
  from conclude_effect [OF ran(6) d] obtain ds where e: "h' = (h2 @ as) @ ds"
    "\<forall>e \<in> set ds. pays_nobody [e] \<or> (\<exists>win. r = Inr win \<and> ta_winner ?t = Some win \<and> pc_auto_release cfg \<and>
       (\<exists>n \<in> set (wn_nodes win). settles env cfg inp stakes (snd st) n e))" by blast
  have "?e \<in> set ds" using paid c(1,3) e(1) quiet_pays_nobody [OF ran(1)] quiet_pays_nobody [OF ran(4)]
    by (auto simp: pays_nobody_def)
  then obtain win node where w: "r = Inr win" "ta_winner ?t = Some win" "pc_auto_release cfg" "node \<in> set (wn_nodes win)"
    "settles env cfg inp stakes (snd st) node ?e" using e(2) by (auto simp: pays_nobody_def)
  then obtain f sig_hex sb where s: "List.find (\<lambda>f. fr_node f = node) stakes = Some f" "snd st node = Some (outp, sig_hex, sb)"
    "url = pc_rpc_url cfg" "inp' = inp" "parse_pubkey (nt_sol env url) (pc_escrow_program cfg) = Inr program"
    "parse_pubkey (nt_sol env url) (fr_escrow f) = Inr job" "parse_hex32 (nt_sol env url) sb = Inr key" "parse_hex64 (nt_sol env url) sig_hex = Inr sig"
    by (auto simp: settles_def Let_def)
  have f: "f \<in> set stakes" "fr_node f = node" using s(1) by (auto simp: find_Some_iff)
  have lock: "locked env cfg h (drop (length h) h') (fr_escrow f)"
    using c f(1) e(1) by (auto simp: locked_append)
  obtain x where x: "x \<in> set (fst st)" "rr_node x = node" "rr_output x = outp" "rr_verified x \<longrightarrow> proven env inp node (outp, sig_hex, sb)"
    using conjunct2 [OF conjunct2 [OF ran(5) [unfolded answers_ok_def]], rule_format, OF s(2)] by auto
  have "wn_nodes win = map rr_node (votes (cr_sha256 (nt_crypto env)) (fst st) (wn_hash win))"
    using winner_votes [OF w(2)] by simp
  then obtain y where y: "y \<in> set (fst st)" "rr_node y = node" "rr_verified y" "cr_sha256 (nt_crypto env) (rr_output y) = wn_hash win"
    using w(4) by (auto simp: votes_def)
  have "x = y" using ran(5) x(1,2) y(1,2) by (auto simp: answers_ok_def distinct_map dest: inj_onD)
  then have pr: "cr_sha256 (nt_crypto env) outp = wn_hash win" "proven env inp node (outp, sig_hex, sb)" using x y by simp_all
  obtain k jid where v: "cr_parse_key (nt_crypto env) node = Some k" "sb = nt_key_text env k"
    "verify_result (nt_crypto env) k jid inp outp sig_hex" using pr(2) by (auto simp: proven_def)
  have "parse_hex32 (nt_sol env url) (nt_key_text env k) = Inr key" using s(7) v(2) by simp
  with w(1,3,4) s(3-6,8) f(2) lock pr(1) v(1,3) show ?thesis by blast
qed

section \<open>A paid run\<close>

text \<open>
  A consumer, one directory and one provider that computes, with a chain on which every transaction is
  confirmed.
\<close>

definition pay_chain :: sol_env where
  "pay_chain = \<lparr>so_sha256 = (\<lambda>_. replicate 32 5), so_decompresses = (\<lambda>_. False), so_b58_decode = (\<lambda>_. Some (replicate 32 6)),
     so_b58_encode = (\<lambda>_. ''acct''), so_b64_decode = (\<lambda>_. Some (replicate 138 0)), so_b64_encode = (\<lambda>_. ''tx''),
     so_hex_decode = (\<lambda>s. if s = ''n'' then Some (replicate 32 1) else Some (replicate 64 2)), so_uuid = (\<lambda>_. ''id''),
     so_http = (\<lambda>_ req.
       Inr (if jtext (jfield req ''method'') = ''sendTransaction'' then JObj [(''result'', JStr ''sig'')]
            else JObj [(''result'', JObj [(''value'',
              if jtext (jfield req ''method'') = ''getLatestBlockhash'' then JObj [(''blockhash'', JStr ''b'')]
              else if jtext (jfield req ''method'') = ''getAccountInfo'' then JObj [(''data'', JArr [JStr ''raw''])]
              else JArr [JObj [(''confirmationStatus'', JStr ''confirmed'')]])])]))\<rparr>"

definition pay_crypto :: "(string, bytes) crypto" where
  "pay_crypto = \<lparr>cr_sha256 = (\<lambda>b. b), cr_parse_key = (\<lambda>s. Some s), cr_key_of_bytes = (\<lambda>_. None),
     cr_hex_decode = (\<lambda>s. Some (as_bytes s)), cr_sig_of_bytes = (\<lambda>b. Some b), cr_verify = (\<lambda>k m s. True),
     cr_announcement_of_json = (\<lambda>_. Inr (demo_node ''n'' (Fin 0) 7)), cr_scores_of_json = (\<lambda>_. Inr [])\<rparr>"

definition pay_info :: node_info where
  "pay_info = \<lparr>ni_protocol = ''cloudiy'', ni_endpoint_id = ''n'', ni_solana_pubkey = Some ''pk'', ni_gpu_model = '''', ni_vram_mb = 0,
     ni_jobs_completed = 0, ni_price_usdc = Fin 1, ni_usdc_mint = ''mint'', ni_network = '''', ni_payment = ''x402'',
     ni_escrow_program = ''prog'', ni_fee_bps = 400, ni_resources = None, ni_capabilities = []\<rparr>"

definition pay_answer :: "request \<Rightarrow> string + response" where
  "pay_answer req = (case req of
     RProviders \<Rightarrow> Inr (SProviders [\<lparr>sp_payload = '''', sp_issued_at = 1000, sp_signed_by = ''n'', sp_signature = ''s''\<rparr>])
   | RInfo \<Rightarrow> Inr (SInfo pay_info)
   | RSubmit job \<Rightarrow> Inr (SJob \<lparr>jr_job_id = rq_job_id job, jr_output = [7], jr_status = ''completed'', jr_error = None, jr_provider = None,
        jr_receipt = None, jr_signature = Some ''s'', jr_signed_by = Some ''n''\<rparr>)
   | _ \<Rightarrow> Inl ''no answer'')"

definition pay_net :: "(string, bytes) net_env" where
  "pay_net = \<lparr>nt_crypto = pay_crypto, nt_key_text = (\<lambda>k. k), nt_dial = (\<lambda>_ _. Inr ()), nt_ask = (\<lambda>h n req. pay_answer req),
     nt_uuid = (\<lambda>h. replicate 16 1), nt_uuid_text = (\<lambda>b. ''id''), nt_uuid_parse = (\<lambda>_. Some (replicate 16 1)), nt_now = (\<lambda>_. 1000),
     nt_var = (\<lambda>_. None), nt_default_directory = '''', nt_pubkey = None, nt_json_text = (\<lambda>_. ''{}''),
     nt_json_parse = (\<lambda>_. None), nt_b64_encode = (\<lambda>_. ''b64''), nt_b64_decode = (\<lambda>_. None), nt_hex_encode = (\<lambda>_. ''sig''),
     nt_utf8 = (\<lambda>_. None), nt_sol = (\<lambda>_. pay_chain), nt_keypair = (\<lambda>_ _. Inr \<lparr>kp_pubkey = replicate 32 9, kp_sign = (\<lambda>m. m)\<rparr>),
     nt_default_keypair = ''id.json'', nt_failure_text = (\<lambda>_. ''failed''), nt_show_f64 = (\<lambda>_. ''1'')\<rparr>"

definition pay_terms :: pay_config where
  "pay_terms = \<lparr>pc_amount_usdc = None, pc_timeout_secs = 600, pc_wallet = None, pc_rpc_url = ''rpc'', pc_escrow_program = ''prog'',
     pc_auto_release = True\<rparr>"

lemmas pay_fields = pay_net_def pay_chain_def pay_crypto_def pay_terms_def pay_info_def

lemma pay_provider: "verify_announcement pay_crypto \<lparr>sp_payload = '''', sp_issued_at = 1000, sp_signed_by = ''n'', sp_signature = ''s''\<rparr> 1000 =
    Inr (demo_node ''n'' (Fin 0) 7)"
  by (simp add: verify_announcement_def check_signature_def pay_crypto_def demo_node_def sint_saturating_sub s_clamp_def s_min_def s_max_def)

lemma pay_directory: "fetch_providers pay_net [''d''] 0 [] =
    (Inr [demo_node ''n'' (Fin 0) 7], [EvConnect ''d'', EvAsk ''d'' RReputation, EvConnect ''d'', EvAsk ''d'' RProviders])"
  by (simp add: fetch_providers_def vbind_def vlift_def require_def ask_directory_def fetch_one_reputation_def fetch_one_directory_def
      client_rpc_def sdk_request_def vtry_def vret_def pay_net_def pay_answer_def Let_def ok_list_def ok_or_def
      consider_announcement_def merge_new_def pay_provider [unfolded pay_crypto_def] pay_crypto_def)

lemma pay_targets: "resolve_targets pay_net [''d''] Scheduler.demo_spec 1 [] =
    (Inr [''n''], [EvConnect ''d'', EvAsk ''d'' RReputation, EvConnect ''d'', EvAsk ''d'' RProviders])"
proof -
  have v: "ws_job_value_micro_usdc Scheduler.demo_spec = 0" by (simp add: Scheduler.demo_spec_def default_spec_def)
  have r: "rank default_policy Scheduler.demo_spec [demo_node ''n'' (Fin 0) 7] = [to_placement default_policy Scheduler.demo_spec (demo_node ''n'' (Fin 0) 7)]"
    by (simp add: rank_def demo_admitted sort_ranked_def)
  show ?thesis
    by (simp add: resolve_targets_def directories_def resolve_directories_def Let_def vbind_def vlift_def require_def v
        pay_directory r vret_def to_placement_def) (simp add: demo_node_def)
qed

lemma pay_pda: "pda pay_chain seeds prog = Inr (replicate 32 5)"
  by (simp add: pda_def find_program_address_def find_bump.simps [of _ _ _ 255] is_on_curve_def pda_candidate_def pay_chain_def Let_def)

lemma pay_pubkey: "parse_pubkey pay_chain s = Inr (replicate 32 6)"
  by (simp add: parse_pubkey_def pay_chain_def ok_or_def)

lemma pay_submitted: "submit_instructions pay_chain n kp ixs = Inr ''sig''"
proof -
  have "latest_blockhash pay_chain n = Inr (replicate 32 6)"
    by (simp add: latest_blockhash_def pay_pubkey) (simp add: sol_rpc_def pay_chain_def jtext_def jfield_def ok_or_def)
  moreover have "send_transaction pay_chain (n + 1) tx = Inr ''sig''" for tx
    by (simp add: send_transaction_def sol_rpc_def pay_chain_def jtext_def jfield_def ok_or_def)
  moreover have "await_loop pay_chain m (Suc k) s = Inr ()" for m k s
  proof -
    have z: "parse_uint (2 ^ 64) ''0'' = Some 0"
      by (simp add: parse_uint_def parse_radix_def digit_val_def)
    have c: "confirmation_status (JObj [(''result'', JObj [(''value'', JArr [JObj [(''confirmationStatus'', JStr ''confirmed'')]])])]) = Some (Inr ())"
      using z by (simp add: confirmation_status_def)
    then show ?thesis by (simp add: sol_rpc_def pay_chain_def jtext_def jfield_def)
  qed
  then have "await_loop pay_chain m (Suc 39) s = Inr ()" for m s by blast
  then have "await_loop pay_chain m 40 s = Inr ()" for m s by simp
  ultimately show ?thesis by (simp add: submit_instructions_def Let_def await_confirmation_def)
qed

lemma pay_created: "sol_create_job pay_chain n kp program provider mint amount timeout jid key =
    Inr \<lparr>fe_job_account = replicate 32 5, fe_job_id = jid, fe_signature = ''sig''\<rparr>"
  by (simp add: sol_create_job_def create_job_ix_def pay_pda pay_pubkey associated_token_address_def pay_submitted)

lemma pay_hex: "parse_hex32 pay_chain ''n'' = Inr (replicate 32 1)" "parse_hex64 pay_chain ''s'' = Inr (replicate 64 2)"
proof -
  have "trim ''n'' = ''n''" "trim ''s'' = ''s''" by code_simp+
  then show "parse_hex32 pay_chain ''n'' = Inr (replicate 32 1)" "parse_hex64 pay_chain ''s'' = Inr (replicate 64 2)"
    by (simp_all add: parse_hex32_def parse_hex64_def pay_chain_def ok_or_def)
qed

lemma pay_positive: "flt (Fin 0) (Fin 1)"
  by (simp add: flt_def)

lemma pay_funded: "fund_all pay_net pay_terms [''n''] [] h =
    (Inr [\<lparr>fr_node = ''n'', fr_escrow = ''acct'', fr_job_uuid = ''id'', fr_amount = micro (Fin 1)\<rparr>],
     h @ [EvConnect ''n'', EvAsk ''n'' RInfo,
       EvChain ''rpc'' (ChCreate (replicate 32 6) (replicate 32 6) (replicate 32 6) (micro (Fin 1)) (s_max_of 600 60) (replicate 16 1) (replicate 32 1))])"
  apply (simp add: fund_escrow_def Let_def sdk_connect_def sdk_info_def sdk_request_def vbind_def vlift_def vret_def vtry_def
      pay_answer_def ok_or_def require_def load_wallet_def pay_pubkey pay_hex on_chain_def pay_created pay_net_def pay_crypto_def pay_info_def
      pay_terms_def or_default_def pubkey_str_def pay_positive)
  by (simp add: pay_chain_def)

lemma pay_asked: "\<exists>job. ask_replica pay_net k inp tok demo (Some kp) [\<lparr>fr_node = ''n'', fr_escrow = ''acct'', fr_job_uuid = ''id'', fr_amount = a\<rparr>]
      (0, ''n'') ([], Map.empty) h =
    (Inr ([\<lparr>rr_node = ''n'', rr_output = [7], rr_verified = True\<rparr>], [''n'' \<mapsto> ([7], ''s'', ''n'')]),
     h @ [EvConnect ''n'', EvAsk ''n'' (RSubmit job)])"
  by (intro exI) (simp add: ask_replica_def replica_options_def Let_def vbind_def vlift_def vret_def vtry_def ok_or_def sdk_connect_def
      sdk_submit_def sdk_request_def vmap_err_def handle_job_response_def result_verified_def verify_result_def pay_net_def pay_crypto_def
      pay_answer_def submitted_job_def)

lemma pay_released: "\<exists>rr. release_verified_cmd pay_net ''acct'' None ''rpc'' (Some ''prog'') inp outp ''s'' ''n'' h =
    (Inr rr, h @ [EvChain ''rpc'' (ChReleaseVerified (replicate 32 6) (replicate 32 6) (replicate 32 1) inp outp (replicate 64 2))])"
proof -
  let ?raw = "replicate 138 (0 :: u8)"
  have "\<exists>job. parse_job_account ?raw = Inr job \<and> ja_state job = 0" by (simp add: parse_job_account_def require_def Let_def)
  then obtain job where j: "parse_job_account ?raw = Inr job" "ja_state job = 0" by blast
  have z: "parse_uint (2 ^ 64) ''0'' = Some 0" by (simp add: parse_uint_def parse_radix_def digit_val_def)
  have "sol_fetch_job pay_chain n key = Inr job" for n key
    using z j(1) by (simp add: sol_fetch_job_def sol_rpc_def pay_chain_def jtext_def jfield_def ok_or_def require_def)
  then have "sol_release_verified pay_chain n kp program key node_key inp outp sig = Inr (release_result_of job ''sig'')" for n kp program key node_key sig
    by (simp add: sol_release_verified_def j(2) require_def release_verified_ixs_def release_verified_ix_def create_idempotent_ata_ix_def
        associated_token_address_def pay_pda pay_pubkey pay_submitted Let_def)
  then show ?thesis
    by (simp add: release_verified_cmd_def Let_def vbind_def vlift_def load_wallet_def on_chain_def pay_net_def pay_pubkey pay_hex or_default_def)
qed

lemma pay_tally: "ta_winner (tally (\<lambda>b. b) [\<lparr>rr_node = ''n'', rr_output = [7], rr_verified = True\<rparr>] 1) =
    Some \<lparr>wn_hash = [7], wn_output = [7], wn_nodes = [''n'']\<rparr>"
  by (simp add: tally_def Let_def group_results_def group_bytes_def threshold_def bt_entry_def)

lemma pay_run: "\<exists>win cs. run_quorum pay_net [''d''] Scheduler.demo_spec k inp tok demo 1 (Some pay_terms) [] = (Inr win, cs) \<and>
    EvChain ''rpc'' (ChReleaseVerified (replicate 32 6) (replicate 32 6) (replicate 32 1) inp [7] (replicate 64 2)) \<in> set cs"
proof -
  let ?f = "\<lparr>fr_node = ''n'', fr_escrow = ''acct'', fr_job_uuid = ''id'', fr_amount = micro (Fin 1)\<rparr>"
  let ?st = "([\<lparr>rr_node = ''n'', rr_output = [7], rr_verified = True\<rparr>], [''n'' \<mapsto> ([7 :: u8], ''s'', ''n'')])"
  let ?win = "\<lparr>wn_hash = [7], wn_output = [7], wn_nodes = [''n'']\<rparr>"
  have w: "load_wallet pay_net (pc_wallet pay_terms) h = (Inr \<lparr>kp_pubkey = replicate 32 9, kp_sign = (\<lambda>m. m)\<rparr>, h)" for h
    by (simp add: load_wallet_def pay_net_def)
  have c: "\<exists>cs. conclude_quorum pay_net (Some pay_terms) inp [?f] 1 ?st h = (Inr ?win, cs) \<and>
      EvChain ''rpc'' (ChReleaseVerified (replicate 32 6) (replicate 32 6) (replicate 32 1) inp [7] (replicate 64 2)) \<in> set cs" for h
  proof -
    obtain rr where r: "release_verified_cmd pay_net ''acct'' None ''rpc'' (Some ''prog'') inp [7] ''s'' ''n'' h =
      (Inr rr, h @ [EvChain ''rpc'' (ChReleaseVerified (replicate 32 6) (replicate 32 6) (replicate 32 1) inp [7] (replicate 64 2))])"
      using pay_released by blast
    have s: "cr_sha256 (nt_crypto pay_net) = (\<lambda>b. b)" by (simp add: pay_net_def pay_crypto_def)
    show ?thesis
      using r by (simp add: conclude_quorum_def Let_def s pay_tally [simplified] settle_winner_def settle_node_def pay_terms_def vbind_def vtry_def vret_def
          report_refundable_def)
  qed
  obtain h1 where a: "ask_replica pay_net k inp tok demo (Some \<lparr>kp_pubkey = replicate 32 9, kp_sign = (\<lambda>m. m)\<rparr>) [?f] (0, ''n'') ([], Map.empty)
     (snd (fund_all pay_net pay_terms [''n''] [] (snd (resolve_targets pay_net [''d''] Scheduler.demo_spec 1 [])))) = (Inr ?st, h1)"
    using pay_asked by blast
  have "run_quorum pay_net [''d''] Scheduler.demo_spec k inp tok demo 1 (Some pay_terms) [] =
      conclude_quorum pay_net (Some pay_terms) inp [?f] 1 ?st h1"
    using a by (simp add: run_quorum_def pay_targets pay_funded vbind_def vlift_def vret_def require_def w enumerate_eq_zip
        del: fund_all.simps One_nat_def)
  then show ?thesis using c [of h1] by (simp only:) (elim exE conjE, intro exI conjI, assumption+)
qed

text \<open>The payer of these runs can read the wallet and its job ids.\<close>

lemma pay_wallet: "\<exists>kp. nt_keypair pay_net h (or_default (nt_default_keypair pay_net) (pc_wallet pay_terms)) = Inr kp"
  "nt_uuid_parse pay_net (nt_uuid_text pay_net b) \<noteq> None"
  by (simp_all add: pay_net_def)

lemma discovered_providers_are_genuine_witness:
  "\<exists>a h'. fetch_providers pay_net [''d''] 0 [] = (Inr [a], h') \<and> offered_by pay_net 1000 0 h' a"
proof -
  have "nt_now pay_net [] = 1000" by (simp add: pay_net_def)
  then show ?thesis using discovered_providers_are_genuine [OF pay_directory] pay_directory by auto
qed


lemma only_winners_are_paid_witness:
  "\<exists>win cs sig. run_quorum pay_net [''d''] Scheduler.demo_spec ''k'' [1] None False 1 (Some pay_terms) [] = (Inr win, cs) \<and>
    cr_sha256 (nt_crypto pay_net) [7] = wn_hash win \<and> (\<exists>node \<in> set (wn_nodes win). \<exists>k jid. cr_parse_key (nt_crypto pay_net) node = Some k \<and>
      verify_result (nt_crypto pay_net) k jid [1] [7] sig)"
proof -
  obtain win cs where r: "run_quorum pay_net [''d''] Scheduler.demo_spec ''k'' [1] None False 1 (Some pay_terms) [] = (Inr win, cs)"
    "EvChain ''rpc'' (ChReleaseVerified (replicate 32 6) (replicate 32 6) (replicate 32 1) [1] [7] (replicate 64 2)) \<in> set (drop (length ([] :: net_event list)) cs)"
    using pay_run [of "''k''" "[1]" None False] by auto
  from only_winners_are_paid [OF r(1) pay_wallet r(2)] obtain win' node sig_hex k jid where w: "(Inr win :: string + winner) = Inr win'"
    "node \<in> set (wn_nodes win')" "cr_sha256 (nt_crypto pay_net) [7] = wn_hash win'" "cr_parse_key (nt_crypto pay_net) node = Some k"
    "verify_result (nt_crypto pay_net) k jid [1] [7] sig_hex" by blast
  then have "win' = win" by simp
  with w r(1) show ?thesis by blast
qed

end
