(* ===== verification/Mcp.thy ===== *)
theory Mcp
  imports Consumer
begin

text \<open>
  The MCP server, \<open>crates/cloudiy/src/mcp.rs\<close>: JSON-RPC requests on standard input, the tools of the consumer
  behind them, the guard before mainnet and the caps on what may be spent. How \<open>serde_json\<close> reads and writes
  texts and numbers is the parameter \<open>mcp_codec\<close>; the version of the package is left out. A
  session is its options and what it has locked so far.
\<close>

record mcp_codec =
  mx_parse :: "string \<Rightarrow> json option"
  mx_pretty :: "json \<Rightarrow> string"
  mx_read_f64 :: "string \<Rightarrow> f64"
  mx_f64 :: "f64 \<Rightarrow> json"
  mx_six :: "f64 \<Rightarrow> string"
  mx_info :: "node_info \<Rightarrow> json"
  mx_providers :: "provider_announcement list \<Rightarrow> json"
  mx_b64_error :: "string \<Rightarrow> string"

record mcp_opts =
  mo_rpc_url :: string
  mo_cluster :: cluster
  mo_escrow_program :: string
  mo_keypair :: "string option"
  mo_max_spend_usdc :: f64
  mo_max_per_job_usdc :: f64
  mo_directory :: "string list"
  mo_allow_mainnet :: bool
  mo_read_only :: bool

definition SUPPORTED_VERSIONS :: "string list" where
  "SUPPORTED_VERSIONS = [''2024-11-05'', ''2025-03-26'', ''2025-06-18'']"

section \<open>The guard before mainnet\<close>

text \<open>\<open>url.split("://").nth(1).unwrap_or(url)\<close>.\<close>

definition after_scheme :: "string \<Rightarrow> string" where
  "after_scheme url =
     (case split_once ''://'' url of
        None \<Rightarrow> url
      | Some (_, rest) \<Rightarrow> (case split_once ''://'' rest of None \<Rightarrow> rest | Some (a, _) \<Rightarrow> a))"

definition url_host :: "string \<Rightarrow> string" where
  "url_host url = lower (takeWhile (\<lambda>c. c \<noteq> CHR ''/'' \<and> c \<noteq> CHR ''?'' \<and> c \<noteq> CHR 0x23) (after_scheme url))"

definition rpc_is_non_mainnet :: "string \<Rightarrow> bool" where
  "rpc_is_non_mainnet url \<longleftrightarrow>
     (let host = url_host url in
      \<not> contains_str host ''mainnet'' \<and>
      (contains_str host ''devnet'' \<or> contains_str host ''testnet'' \<or> host = ''localhost'' \<or>
       starts_with host ''localhost:'' \<or> starts_with host ''127.0.0.1'' \<or> starts_with host ''0.0.0.0'' \<or>
       starts_with host ''[::1]''))"

definition mainnet_guard :: "cluster \<Rightarrow> string \<Rightarrow> bool \<Rightarrow> string + unit" where
  "mainnet_guard cl rpc_url allow_mainnet =
     (if allow_mainnet then Inr ()
      else
        rbind (require (\<not> is_mainnet cl) (''refusing to run on cluster '' @ cluster_str cl @
          '' without --allow-mainnet - real USDC could move'')) (\<lambda>_.
        rbind (require (rpc_is_non_mainnet rpc_url) (''refusing to run against RPC '' @ rpc_url @
          '' without --allow-mainnet - its host is not a recognized devnet/testnet/localnet endpoint, so real USDC could move'')) (\<lambda>_.
        Inr ())))"

section \<open>The tools\<close>

definition param :: "string \<Rightarrow> string \<Rightarrow> string option \<Rightarrow> string \<Rightarrow> string \<times> json" where
  "param name ty items description = (name, JObj ([(''type'', JStr ty)] @
     (case items of Some i \<Rightarrow> [(''items'', JObj [(''type'', JStr i)])] | None \<Rightarrow> []) @
     [(''description'', JStr description)]))"

definition tool :: "string \<Rightarrow> string \<Rightarrow> (string \<times> json) list \<Rightarrow> string list \<Rightarrow> json" where
  "tool name description props required = JObj [(''name'', JStr name), (''description'', JStr description),
     (''inputSchema'', JObj [(''type'', JStr ''object''), (''properties'', JObj props), (''required'', JArr (map JStr required))])]"

definition reading_tools :: "json list" where
  "reading_tools =
    [tool ''cloudiy_list_providers''
       ''List live compute providers on the cloudiy network (signed announcements, verified locally): node id, resources, capabilities, price in micro-USDC/h, health.''
       [param ''directories'' ''array'' (Some ''string'') ''Directory node ids to query (default: server config / CLOUDIY_DIRECTORY)'']
       [],
     tool ''cloudiy_quote''
       (''Get a provider'' @ [CHR 0x27] @ ''s x402 quote: price in USDC per job, USDC mint, escrow program, Solana payout pubkey and capabilities. This is everything needed to pay it.'')
       [param ''node_id'' ''string'' None ''Provider Node ID (from cloudiy_list_providers)'']
       [''node_id''],
     tool ''cloudiy_run_job''
       (''Run a compute kernel (vector_add, matrix_mul, wgsl) on a provider and get the ed25519-signed result. Free dev mode: pass the provider'' @ [CHR 0x27] @ ''s access token. Paid mode: pass escrow_account + job_id from cloudiy_pay_escrow. The result reports signature_verified plus the signature/signed_by proof for cloudiy_release_verified.'')
       [param ''node_id'' ''string'' None ''Provider Node ID'',
        param ''kernel'' ''string'' None ''Kernel name, e.g. vector_add'',
        param ''data'' ''string'' None (''Kernel input, e.g. '' @ [CHR 0x22] @ ''1,2,3;4,5,6'' @ [CHR 0x22]),
        param ''token'' ''string'' None ''Provider access code (dev mode)'',
        param ''escrow_account'' ''string'' None ''Funded escrow Job account (paid mode)'',
        param ''job_id'' ''string'' None ''Job UUID the escrow was funded with'']
       [''node_id'', ''kernel'', ''data''],
     tool ''cloudiy_launch''
       (''Launch an OCI container workload on the network (declare WHAT, not HOW). Without node_id the client-side scheduler places it over the directory'' @ [CHR 0x27] @ ''s verified announcements. May take minutes on a cold image pull.'')
       [param ''image'' ''string'' None ''OCI image, e.g. alpine:3.20'',
        param ''command'' ''array'' (Some ''string'') ''Command to run in the container'',
        param ''node_id'' ''string'' None ''Provider Node ID (omit to schedule)'',
        param ''directories'' ''array'' (Some ''string'') ''Directories to schedule over when node_id is omitted'',
        param ''cpu'' ''number'' None ''CPU cores requested (default 1)'',
        param ''memory_mb'' ''integer'' None ''Memory in MiB (default 512)'',
        param ''capabilities'' ''array'' (Some ''string'') ''Required capabilities, e.g. cuda:12.8'',
        param ''timeout_secs'' ''integer'' None ''Wall-clock limit (default 300)'',
        param ''token'' ''string'' None ''Provider access code (dev mode)'']
       [''image'', ''command''],
     tool ''cloudiy_deploy''
       (''Deploy a serverless worker on the network - a template recipe (pytorch, ollama, comfyui, vllm) or an OCI image, with environment variables. The agent'' @ [CHR 0x27] @ ''s own deploy: no dashboard, no API key. Pay keyless by passing escrow_account + job_id from cloudiy_pay_escrow, or a dev token. Without node_id the scheduler places it over the directory.'')
       [param ''template'' ''string'' None ''Recipe name the network expands (pytorch, ollama, comfyui, vllm, whisper)'',
        param ''image'' ''string'' None ''OCI image instead of a template, e.g. ghcr.io/org/worker:latest'',
        param ''env'' ''object'' None (''Environment variables, e.g. {'' @ [CHR 0x22] @ ''HF_TOKEN'' @ [CHR 0x22] @ '':'' @ [CHR 0x22] @ ''hf_'' @ [CHR 0x22] @ ''}''),
        param ''command'' ''array'' (Some ''string'') ''Override the image command (optional)'',
        param ''capabilities'' ''array'' (Some ''string'') ''Required capabilities, e.g. cuda:12.8'',
        param ''cpu'' ''number'' None ''CPU cores requested (default 1)'',
        param ''memory_mb'' ''integer'' None ''Memory in MiB (default 1024)'',
        param ''ports'' ''array'' (Some ''integer'') ''Ports the worker exposes'',
        param ''timeout_secs'' ''integer'' None ''Wall-clock limit (default 600)'',
        param ''node_id'' ''string'' None ''Provider Node ID (omit to schedule)'',
        param ''directories'' ''array'' (Some ''string'') ''Directories to schedule over when node_id is omitted'',
        param ''token'' ''string'' None ''Provider access code (dev mode)'',
        param ''escrow_account'' ''string'' None ''Funded escrow Job account (paid, keyless)'',
        param ''job_id'' ''string'' None ''Job UUID the escrow was funded with'']
       []]"

definition paying_tools :: "json list" where
  "paying_tools =
    [tool ''cloudiy_pay_escrow''
       (''Lock USDC on-chain in the cloudiy escrow for a provider (Solana). Returns the escrow_account + job_id to pass to cloudiy_run_job. Subject to the server'' @ [CHR 0x27] @ ''s per-job and per-session spend caps.'')
       [param ''node_id'' ''string'' None ''Provider Node ID to pay'',
        param ''amount_usdc'' ''number'' None (''USDC to lock (default: provider'' @ [CHR 0x27] @ ''s quoted price)''),
        param ''timeout_secs'' ''integer'' None ''Escrow deadline in seconds (default 3600; refundable after)'']
       [''node_id''],
     tool ''cloudiy_release_verified''
       (''Trustlessly release a funded escrow: the contract re-verifies the provider'' @ [CHR 0x27] @ ''s ed25519 result signature on-chain (Ed25519 precompile) before paying out. Pass the exact input (the prompt/data you sent) and output/signature/signed_by from cloudiy_run_job - the signature binds the input, so it must match (RFC-0006 4).'')
       [param ''escrow_account'' ''string'' None ''Escrow Job account (base58)'',
        param ''input'' ''string'' None ''Exact job input (utf8) you sent to cloudiy_run_job'',
        param ''input_b64'' ''string'' None ''Exact job input, base64 (use when input was binary)'',
        param ''output'' ''string'' None ''Exact job output (utf8) as returned by cloudiy_run_job'',
        param ''output_b64'' ''string'' None ''Exact job output, base64 (use when output was binary)'',
        param ''signature_hex'' ''string'' None (''Provider'' @ [CHR 0x27] @ ''s result signature (hex, from cloudiy_run_job)''),
        param ''node_key_hex'' ''string'' None ''Provider node key that signed (signed_by from cloudiy_run_job)'']
       [''escrow_account'', ''signature_hex'', ''node_key_hex''],
     tool ''cloudiy_refund''
       ''Refund a funded escrow back to the consumer - after its deadline (as consumer) or any time as the provider cancelling.''
       [param ''escrow_account'' ''string'' None ''Escrow Job account (base58)'']
       [''escrow_account'']]"

definition tool_definitions :: "bool \<Rightarrow> json list" where
  "tool_definitions read_only = reading_tools @ (if read_only then [] else paying_tools)"

section \<open>Arguments\<close>

definition arg_str :: "json \<Rightarrow> string \<Rightarrow> string option" where
  "arg_str args key = Option.bind (json_str (jfield args key)) (\<lambda>s. if s = '''' then None else Some s)"

definition req_str :: "json \<Rightarrow> string \<Rightarrow> string + string" where
  "req_str args key = ok_or (arg_str args key) (''missing required argument: '' @ key)"

definition str_vec :: "json \<Rightarrow> string \<Rightarrow> string list" where
  "str_vec args key = json_strings (jfield args key)"

definition arg_u64 :: "json \<Rightarrow> string \<Rightarrow> u64 \<Rightarrow> u64" where
  "arg_u64 args key dflt = or_default dflt (json_u64 (jfield args key))"

text \<open>A cap that is passed over; every comparison with a NaN is false.\<close>

definition check_caps :: "('k, 's) net_env \<Rightarrow> mcp_opts \<Rightarrow> mcp_codec \<Rightarrow> u64 \<Rightarrow> f64 \<Rightarrow> string + unit" where
  "check_caps env o1 mx spent_micro_usdc amount_usdc =
     rbind (require (\<not> fle amount_usdc (Fin 0)) ''amount must be positive'') (\<lambda>_.
     rbind (require (\<not> flt (mo_max_per_job_usdc o1) amount_usdc) (''amount '' @ nt_show_f64 env amount_usdc @
        '' USDC exceeds the per-job cap of '' @ nt_show_f64 env (mo_max_per_job_usdc o1) @ '' USDC (server --max-per-job-usdc)'')) (\<lambda>_.
     let spent = fdiv (f_of_u64 spent_micro_usdc) (f_lit 1000000) in
     rbind (require (\<not> flt (mo_max_spend_usdc o1) (fadd spent amount_usdc)) (''spend cap reached: '' @ mx_six mx spent @
        '' USDC already locked this session + '' @ nt_show_f64 env amount_usdc @ '' would exceed the '' @
        nt_show_f64 env (mo_max_spend_usdc o1) @ '' USDC session cap (server --max-spend-usdc)'')) (\<lambda>_. Inr ())))"

definition directories_for :: "('k, 's) net_env \<Rightarrow> mcp_opts \<Rightarrow> json \<Rightarrow> string list" where
  "directories_for env o1 args =
     (let explicit = str_vec args ''directories'' in directories env (if explicit = [] then mo_directory o1 else explicit))"

definition apostrophe :: string where "apostrophe = [CHR 0x27]"

section \<open>Calling a tool\<close>

text \<open>One JSON view of a signed result; the output is base64 when it is no text.\<close>

definition job_result_json :: "('k, 's) net_env \<Rightarrow> job_result \<Rightarrow> json" where
  "job_result_json env r =
     (let (out, enc) = (case nt_utf8 env (jo_output r) of
          Some s \<Rightarrow> (JStr s, ''utf8'') | None \<Rightarrow> (JStr (nt_b64_encode env (jo_output r)), ''base64'')) in
      JObj [(''job_id'', JStr (jo_job_id r)), (''output'', out), (''output_encoding'', JStr enc),
        (''signature_verified'', JBool (jo_signature_verified r)), (''signature'', optional_str (jo_signature r)),
        (''signed_by'', optional_str (jo_signed_by r)), (''provider_pubkey'', optional_str (jo_provider r)),
        (''payment_receipt'', or_default JNull (jo_receipt r))])"

definition mcp_list_providers :: "('k, 's) net_env \<Rightarrow> mcp_opts \<Rightarrow> mcp_codec \<Rightarrow> json \<Rightarrow> (string, json) nio" where
  "mcp_list_providers env o1 mx args =
     (let dirs = directories_for env o1 args in
      vbind (vlift (require (dirs \<noteq> []) ''no directory configured - pass `directories`, start with --directory, or set CLOUDIY_DIRECTORY'')) (\<lambda>_.
      vbind (fetch_providers env dirs 0) (\<lambda>nodes.
      vret (JObj [(''count'', JInt (int (length nodes))), (''providers'', mx_providers mx nodes)]))))"

definition mcp_quote :: "('k, 's) net_env \<Rightarrow> mcp_codec \<Rightarrow> json \<Rightarrow> (string, json) nio" where
  "mcp_quote env mx args =
     vbind (vlift (req_str args ''node_id'')) (\<lambda>node_id.
     vbind (sdk_connect env node_id) (\<lambda>node. vbind (sdk_info env node) (\<lambda>info. vret (mx_info mx info))))"

text \<open>The authorisation to spend an escrow: only its owner can sign it.\<close>

definition mcp_payment :: "('k, 's) net_env \<Rightarrow> mcp_opts \<Rightarrow> string \<Rightarrow> string option \<Rightarrow> bytes \<Rightarrow> (string, string) nio" where
  "mcp_payment env o1 acct jid inp =
     vbind (vlift (ok_or jid ''escrow_account requires job_id (from cloudiy_pay_escrow)'')) (\<lambda>i.
     vbind (vlift (ok_or (nt_uuid_parse env i) ''job_id must be the UUID the escrow was funded with'')) (\<lambda>job_bytes.
     vbind (load_wallet env (mo_keypair o1)) (\<lambda>kp h.
     (Inr (signed_payment env kp job_bytes inp acct (expiry_at env h)), h))))"

definition mcp_run_options :: "('k, 's) net_env \<Rightarrow> mcp_opts \<Rightarrow> json \<Rightarrow> string \<Rightarrow> string \<Rightarrow> (string, submit_options) nio" where
  "mcp_run_options env o1 args kname data =
     (let jid = arg_str args ''job_id'';
          opts1 = with_token (arg_str args ''token'') (opts_kernel kname (as_bytes data));
          opts2 = (case jid of Some i \<Rightarrow> opts_job_id i opts1 | None \<Rightarrow> opts1) in
      case arg_str args ''escrow_account'' of
        None \<Rightarrow> vret opts2
      | Some acct \<Rightarrow> vbind (mcp_payment env o1 acct jid (as_bytes data)) (\<lambda>p. vret (opts_payment p opts2)))"

text \<open>A refusal for want of payment says how to pay.\<close>

definition submit_outcome :: "('k, 's) net_env \<Rightarrow> (quote \<Rightarrow> string) \<Rightarrow> submit_error + 'a \<Rightarrow> string + 'a" where
  "submit_outcome env pay_hint r =
     (case r of Inr x \<Rightarrow> Inr x | Inl (SubPaymentRequired q) \<Rightarrow> Inl (pay_hint q) | Inl e \<Rightarrow> Inl (submit_error_text env e))"

definition pay_text :: "('k, 's) net_env \<Rightarrow> quote \<Rightarrow> string" where
  "pay_text env q = ''payment required: '' @ nt_show_f64 env (price_usdc q) @ '' USDC to '' @ qu_pay_to q"

definition mcp_run_job :: "('k, 's) net_env \<Rightarrow> mcp_opts \<Rightarrow> json \<Rightarrow> (string, json) nio" where
  "mcp_run_job env o1 args =
     vbind (vlift (req_str args ''node_id'')) (\<lambda>node_id.
     vbind (vlift (req_str args ''kernel'')) (\<lambda>kname.
     vbind (vlift (req_str args ''data'')) (\<lambda>data.
     vbind (mcp_run_options env o1 args kname data) (\<lambda>opts.
     vbind (sdk_connect env node_id) (\<lambda>node.
     vbind (vtry (sdk_submit env node opts)) (\<lambda>r.
     vlift (rbind (submit_outcome env (\<lambda>q. pay_text env q @ '' (mint '' @ qu_asset q @
        '') - fund it with cloudiy_pay_escrow and retry with escrow_account + job_id'') r) (\<lambda>res.
     Inr (job_result_json env res)))))))))"

definition cpu_memory :: "mcp_codec \<Rightarrow> json \<Rightarrow> u64 \<Rightarrow> resource_vector" where
  "cpu_memory mx args dflt =
     cpu_request (or_default (f_lit 1) (json_f64 (mx_read_f64 mx) (jfield args ''cpu''))) (arg_u64 args ''memory_mb'' dflt)"

text \<open>The node that was named, or the best one the directories know.\<close>

definition mcp_place :: "('k, 's) net_env \<Rightarrow> mcp_opts \<Rightarrow> json \<Rightarrow> workload_spec \<Rightarrow> string \<Rightarrow> string \<Rightarrow> (string, string) nio" where
  "mcp_place env o1 args spec no_dirs no_fit =
     (case arg_str args ''node_id'' of
        Some node \<Rightarrow> vret node
      | None \<Rightarrow>
         let dirs = directories_for env o1 args in
         vbind (vlift (require (dirs \<noteq> []) no_dirs)) (\<lambda>_.
         vbind (fetch_providers env dirs 0) (\<lambda>nodes.
         vbind (vlift (require (nodes \<noteq> []) ''no live providers on these directories'')) (\<lambda>_.
         vbind (vlift (ok_or (place default_policy spec nodes) no_fit)) (\<lambda>p. vret (pl_node p))))))"

definition launch_spec :: "mcp_codec \<Rightarrow> json \<Rightarrow> string \<Rightarrow> workload_spec" where
  "launch_spec mx args img =
     default_spec\<lparr>ws_image := Some img, ws_command := str_vec args ''command'', ws_resources := cpu_memory mx args 512,
       ws_capabilities := map capability_new (str_vec args ''capabilities''), ws_max_duration_secs := arg_u64 args ''timeout_secs'' 300\<rparr>"

definition mcp_launch :: "('k, 's) net_env \<Rightarrow> mcp_opts \<Rightarrow> mcp_codec \<Rightarrow> json \<Rightarrow> (string, json) nio" where
  "mcp_launch env o1 mx args =
     vbind (vlift (req_str args ''image'')) (\<lambda>img.
     vbind (vlift (require (str_vec args ''command'' \<noteq> []) ''missing required argument: command'')) (\<lambda>_.
     let spec = launch_spec mx args img in
     vbind (mcp_place env o1 args spec ''no node_id and no directory to schedule over - pass one of them''
        (''no provider satisfies this workload'' @ apostrophe @ ''s requirements'')) (\<lambda>to.
     vbind (sdk_connect env to) (\<lambda>node.
     vbind (vtry (sdk_run_workload env node spec (json_str (jfield args ''token'')) None)) (\<lambda>r.
     vlift (rbind (submit_outcome env (\<lambda>q. pay_text env q @ '' - fund it with cloudiy_pay_escrow'') r) (\<lambda>res.
     Inr (json_set ''node_id'' (JStr to) (job_result_json env res)))))))))"

text \<open>The port numbers are cut to sixteen bits.\<close>

definition deploy_spec :: "mcp_codec \<Rightarrow> json \<Rightarrow> workload_spec" where
  "deploy_spec mx args =
     default_spec\<lparr>ws_image := arg_str args ''image'', ws_template := arg_str args ''template'', ws_command := str_vec args ''command'',
       ws_env := bt_from_list (List.map_filter (\<lambda>(k, v). map_option (Pair k) (json_str v)) (json_fields (jfield args ''env''))),
       ws_ports := map ucast (List.map_filter json_u64 (json_items (jfield args ''ports''))),
       ws_resources := cpu_memory mx args 1024, ws_capabilities := map capability_new (str_vec args ''capabilities''),
       ws_max_duration_secs := arg_u64 args ''timeout_secs'' 600\<rparr>"

definition mcp_deploy :: "('k, 's) net_env \<Rightarrow> mcp_opts \<Rightarrow> mcp_codec \<Rightarrow> json \<Rightarrow> (string, json) nio" where
  "mcp_deploy env o1 mx args =
     (let spec = deploy_spec mx args in
      vbind (vlift (require (ws_template spec \<noteq> None \<or> ws_image spec \<noteq> None) ''provide a `template` recipe name or an `image`'')) (\<lambda>_.
      vbind (mcp_place env o1 args spec ''no node_id and no directory to schedule over - pass one''
         (''no provider satisfies this deploy'' @ apostrophe @ ''s requirements'')) (\<lambda>to.
      vbind (case arg_str args ''escrow_account'' of
          Some acct \<Rightarrow> vbind (mcp_payment env o1 acct (arg_str args ''job_id'') []) (\<lambda>p. vret (Some p))
        | None \<Rightarrow> vret None) (\<lambda>payment.
      vbind (sdk_connect env to) (\<lambda>node.
      vbind (vtry (sdk_run_workload env node spec (json_str (jfield args ''token'')) payment)) (\<lambda>r.
      vlift (rbind (submit_outcome env (\<lambda>q. pay_text env q @ '' - fund it with cloudiy_pay_escrow and retry with escrow_account + job_id'') r) (\<lambda>res.
      Inr (json_set ''deployed'' (optional_str (case ws_template spec of Some t \<Rightarrow> Some t | None \<Rightarrow> ws_image spec))
            (json_set ''node_id'' (JStr to) (job_result_json env res)))))))))))"

text \<open>What is locked counts against the session only when \<open>fund_escrow\<close> returns.\<close>

definition mcp_pay_escrow :: "('k, 's) net_env \<Rightarrow> mcp_opts \<Rightarrow> mcp_codec \<Rightarrow> u64 \<Rightarrow> json \<Rightarrow> (string, json \<times> u64) nio" where
  "mcp_pay_escrow env o1 mx spent args =
     vbind (vlift (req_str args ''node_id'')) (\<lambda>node_id.
     vbind (case json_f64 (mx_read_f64 mx) (jfield args ''amount_usdc'') of
         Some a \<Rightarrow> vret a
       | None \<Rightarrow> vbind (sdk_connect env node_id) (\<lambda>node. vbind (sdk_info env node) (\<lambda>info. vret (ni_price_usdc info)))) (\<lambda>amount.
     vbind (vlift (check_caps env o1 mx spent amount)) (\<lambda>_.
     vbind (fund_escrow env node_id (mo_keypair o1) (mo_rpc_url o1) (Some amount)
         (or_default 3600 (json_i64 (jfield args ''timeout_secs'')))) (\<lambda>s.
     let spent' = spent + fs_amount_micro s; usdc = (\<lambda>m. mx_f64 mx (fdiv (f_of_u64 m) (f_lit 1000000))) in
     vret (JObj [(''escrow_account'', JStr (fs_escrow_account s)), (''job_id'', JStr (fs_job_uuid s)), (''tx'', JStr (fs_tx s)),
       (''amount_usdc'', usdc (fs_amount_micro s)), (''provider_pubkey'', JStr (fs_provider_pubkey s)),
       (''usdc_mint'', JStr (fs_usdc_mint s)), (''session_spent_usdc'', usdc spent'),
       (''session_cap_usdc'', mx_f64 mx (mo_max_spend_usdc o1)),
       (''next'', JStr ''call cloudiy_run_job with this escrow_account and job_id'')], spent')))))"

definition arg_bytes :: "('k, 's) net_env \<Rightarrow> mcp_codec \<Rightarrow> json \<Rightarrow> string \<Rightarrow> string + bytes" where
  "arg_bytes env mx args key =
     (case arg_str args (key @ ''_b64'') of
        Some b64 \<Rightarrow> ok_or (nt_b64_decode env b64) (''bad '' @ key @ ''_b64: '' @ mx_b64_error mx b64)
      | None \<Rightarrow> rbind (req_str args key) (\<lambda>s. Inr (as_bytes s)))"

definition mcp_release_verified :: "('k, 's) net_env \<Rightarrow> mcp_opts \<Rightarrow> mcp_codec \<Rightarrow> json \<Rightarrow> (string, json) nio" where
  "mcp_release_verified env o1 mx args =
     (let sol = nt_sol env (mo_rpc_url o1) in
      vbind (vlift (req_str args ''escrow_account'')) (\<lambda>escrow.
      vbind (vlift (req_str args ''signature_hex'')) (\<lambda>signature_hex.
      vbind (vlift (req_str args ''node_key_hex'')) (\<lambda>node_key_hex.
      vbind (vlift (arg_bytes env mx args ''output'')) (\<lambda>outp.
      vbind (vlift (arg_bytes env mx args ''input'')) (\<lambda>inp.
      vbind (load_wallet env (mo_keypair o1)) (\<lambda>kp.
      vbind (vlift (parse_pubkey sol (mo_escrow_program o1))) (\<lambda>program.
      vbind (vlift (parse_pubkey sol escrow)) (\<lambda>job_account.
      vbind (vlift (parse_hex32 sol node_key_hex)) (\<lambda>node_key.
      vbind (vlift (parse_hex64 sol signature_hex)) (\<lambda>sig.
      vbind (on_chain env (mo_rpc_url o1) (ChReleaseVerified program job_account node_key inp outp sig)
          (\<lambda>so n. sol_release_verified so n kp program job_account node_key inp outp sig)) (\<lambda>r.
      vret (JObj [(''tx'', JStr (rr_signature r)), (''provider'', JStr (pubkey_str sol (rr_provider r))),
        (''payout_micro_usdc'', JInt (uint (rr_payout r))), (''fee_micro_usdc'', JInt (uint (rr_fee r))),
        (''note'', JStr ''signature re-verified on-chain by the escrow contract before payout'')])))))))))))))"

definition mcp_refund :: "('k, 's) net_env \<Rightarrow> mcp_opts \<Rightarrow> json \<Rightarrow> (string, json) nio" where
  "mcp_refund env o1 args =
     (let sol = nt_sol env (mo_rpc_url o1) in
      vbind (vlift (req_str args ''escrow_account'')) (\<lambda>escrow.
      vbind (load_wallet env (mo_keypair o1)) (\<lambda>kp.
      vbind (vlift (parse_pubkey sol (mo_escrow_program o1))) (\<lambda>program.
      vbind (vlift (parse_pubkey sol escrow)) (\<lambda>job_account.
      vbind (on_chain env (mo_rpc_url o1) (ChRefund program job_account) (\<lambda>so n. sol_refund so n kp program job_account)) (\<lambda>r.
      vret (JObj [(''tx'', JStr (fr_signature r)), (''amount_micro_usdc'', JInt (uint (refund_result.fr_amount r))),
        (''refunded_to'', JStr (pubkey_str sol (fr_consumer r)))])))))))"

definition PAYMENT_TOOLS :: "string list" where
  "PAYMENT_TOOLS = [''cloudiy_pay_escrow'', ''cloudiy_release_verified'', ''cloudiy_refund'']"

definition keeping :: "u64 \<Rightarrow> (string, json) nio \<Rightarrow> (string, json \<times> u64) nio" where
  "keeping spent m = vbind m (\<lambda>v. vret (v, spent))"

definition call_tool :: "('k, 's) net_env \<Rightarrow> mcp_opts \<Rightarrow> mcp_codec \<Rightarrow> u64 \<Rightarrow> string \<Rightarrow> json \<Rightarrow> (string, json \<times> u64) nio" where
  "call_tool env o1 mx spent name args =
     vbind (vlift (require (\<not> (mo_read_only o1 \<and> name \<in> set PAYMENT_TOOLS))
       ''this server runs with --read-only: payment tools are disabled'')) (\<lambda>_.
     if name = ''cloudiy_list_providers'' then keeping spent (mcp_list_providers env o1 mx args)
     else if name = ''cloudiy_quote'' then keeping spent (mcp_quote env mx args)
     else if name = ''cloudiy_run_job'' then keeping spent (mcp_run_job env o1 args)
     else if name = ''cloudiy_launch'' then keeping spent (mcp_launch env o1 mx args)
     else if name = ''cloudiy_deploy'' then keeping spent (mcp_deploy env o1 mx args)
     else if name = ''cloudiy_pay_escrow'' then mcp_pay_escrow env o1 mx spent args
     else if name = ''cloudiy_release_verified'' then keeping spent (mcp_release_verified env o1 mx args)
     else if name = ''cloudiy_refund'' then keeping spent (mcp_refund env o1 args)
     else vlift (Inl (''unknown tool: '' @ name)))"

section \<open>The protocol\<close>

definition mcp_version :: "json \<Rightarrow> string" where
  "mcp_version msg =
     (let requested = jtext (jfield (jfield msg ''params'') ''protocolVersion'') in
      if requested \<in> set SUPPORTED_VERSIONS then requested else List.last SUPPORTED_VERSIONS)"

definition tool_reply :: "string \<Rightarrow> bool \<Rightarrow> json" where
  "tool_reply txt is_error = JObj [(''content'', JArr [JObj [(''type'', JStr ''text''), (''text'', JStr txt)]]), (''isError'', JBool is_error)]"

text \<open>The result of a request, with what is locked after it. A tool that fails leaves it as it was.\<close>

definition mcp_result ::
  "('k, 's) net_env \<Rightarrow> mcp_opts \<Rightarrow> mcp_codec \<Rightarrow> u64 \<Rightarrow> string \<Rightarrow> json \<Rightarrow> net_event list \<Rightarrow>
   ((int \<times> string) + json) \<times> u64 \<times> net_event list" where
  "mcp_result env o1 mx spent rpc_method msg h =
     (if rpc_method = ''initialize'' then
        (Inr (JObj [(''protocolVersion'', JStr (mcp_version msg)), (''capabilities'', JObj [(''tools'', JObj [])]),
           (''serverInfo'', JObj [(''name'', JStr ''cloudiy'')])]), spent, h)
      else if rpc_method = ''ping'' then (Inr (JObj []), spent, h)
      else if rpc_method = ''tools/list'' then (Inr (JObj [(''tools'', JArr (tool_definitions (mo_read_only o1)))]), spent, h)
      else if rpc_method = ''tools/call'' then
        (case call_tool env o1 mx spent (jtext (jfield (jfield msg ''params'') ''name'')) (jfield (jfield msg ''params'') ''arguments'') h of
           (Inr (v, spent'), h') \<Rightarrow> (Inr (tool_reply (mx_pretty mx v) False), spent', h')
         | (Inl e, h') \<Rightarrow> (Inr (tool_reply e True), spent, h'))
      else (Inl (- 32601, ''method not found: '' @ rpc_method), spent, h))"

definition rpc_error :: "json \<Rightarrow> int \<Rightarrow> string \<Rightarrow> json" where
  "rpc_error i code txt = JObj [(''jsonrpc'', JStr ''2.0''), (''id'', i), (''error'', JObj [(''code'', JInt code), (''message'', JStr txt)])]"

definition dispatch ::
  "('k, 's) net_env \<Rightarrow> mcp_opts \<Rightarrow> mcp_codec \<Rightarrow> u64 \<Rightarrow> json \<Rightarrow> net_event list \<Rightarrow> json option \<times> u64 \<times> net_event list" where
  "dispatch env o1 mx spent msg h =
     (let i = jfield msg ''id''; rpc_method = jtext (jfield msg ''method'') in
      if starts_with rpc_method ''notifications/'' then (None, spent, h)
      else
        case mcp_result env o1 mx spent rpc_method msg h of (result, spent', h') \<Rightarrow>
        (if i = JNull then None
         else Some (case result of
            Inr r \<Rightarrow> JObj [(''jsonrpc'', JStr ''2.0''), (''id'', i), (''result'', r)]
          | Inl (code, txt) \<Rightarrow> rpc_error i code txt), spent', h'))"

text \<open>The lines of standard input, until it ends; the replies in order.\<close>

fun serve_lines ::
  "('k, 's) net_env \<Rightarrow> mcp_opts \<Rightarrow> mcp_codec \<Rightarrow> u64 \<Rightarrow> string list \<Rightarrow> net_event list \<Rightarrow> json list \<times> u64 \<times> net_event list" where
  "serve_lines env o1 mx spent [] h = ([], spent, h)"
| "serve_lines env o1 mx spent (line # ls) h =
     (if trim line = '''' then serve_lines env o1 mx spent ls h
      else
        case (case mx_parse mx line of
                Some msg \<Rightarrow> dispatch env o1 mx spent msg h
              | None \<Rightarrow> (Some (rpc_error JNull (- 32700) ''parse error''), spent, h)) of (reply, spent', h') \<Rightarrow>
        case serve_lines env o1 mx spent' ls h' of (replies, r) \<Rightarrow>
        ((case reply of Some r1 \<Rightarrow> [r1] | None \<Rightarrow> []) @ replies, r))"

definition serve ::
  "('k, 's) net_env \<Rightarrow> mcp_opts \<Rightarrow> mcp_codec \<Rightarrow> string list \<Rightarrow> net_event list \<Rightarrow> (string + json list \<times> u64) \<times> net_event list" where
  "serve env o1 mx ls h =
     (case mainnet_guard (mo_cluster o1) (mo_rpc_url o1) (mo_allow_mainnet o1) of
        Inl e \<Rightarrow> (Inl e, h)
      | Inr _ \<Rightarrow> (case serve_lines env o1 mx 0 ls h of (replies, spent, h') \<Rightarrow> (Inr (replies, spent), h')))"

end
