(* ===== verification/Mcp_Theorems.thy ===== *)
theory Mcp_Theorems
  imports Mcp Consumer_Theorems
begin

text \<open>
  What a session of the MCP server can spend: whatever its client asks for and whatever the network answers.
\<close>

section \<open>Micro-units and caps\<close>

lemma rd_close: "0 \<le> x \<Longrightarrow> \<bar>rd x - x\<bar> \<le> x / 2 ^ 53 + 1 / 2 ^ 60"
proof (cases "2 powi (- 1022) \<le> x")
  case True
  then show "\<bar>rd x - x\<bar> \<le> x / 2 ^ 53 + 1 / 2 ^ 60" using rd_error [OF True] by simp
next
  case False
  assume x: "0 \<le> x"
  have "rd x \<le> rd (2 powi (- 1022))" using False by (intro rd_mono) simp
  then have u: "rd x \<le> 2 powi (- 1022)" by (simp only: rd_powi)
  have "(2 :: rat) powi (- 1022) < 2 powi (- 60)" by (simp only: powi2_less_iff)
  also have "(2 :: rat) powi (- 60) = 1 / 2 ^ 60" by (simp add: power_int_minus)
  finally have t: "(2 :: rat) powi (- 1022) < 1 / 2 ^ 60" .
  have "\<bar>rd x - x\<bar> \<le> 1 / 2 ^ 60" using rd_nonneg [OF x] x u t False unfolding abs_le_iff by linarith
  then show "\<bar>rd x - x\<bar> \<le> x / 2 ^ 53 + 1 / 2 ^ 60" using x by simp
qed

lemma micro_upper:
  assumes "is_finite a" "0 \<le> f_val a" "f_val a \<le> 10 ^ 8"
  shows "of_nat (unat (micro a)) \<le> f_val a * 1000000 + 6 / 10"
proof -
  define x where "x = f_val a * 1000000"
  define r where "r = rd x"
  have x: "0 \<le> x" "x \<le> 10 ^ 14" using assms by (simp_all add: x_def)
  have c: "\<bar>r - x\<bar> \<le> x / 2 ^ 53 + 1 / 2 ^ 60" unfolding r_def by (rule rd_close [OF x(1)])
  have e: "x / 2 ^ 53 + 1 / 2 ^ 60 \<le> 1 / 10" using x(2) by simp
  have r: "r \<le> x + 1 / 10" using abs_le_D1 [OF c] e by linarith
  have r0: "0 \<le> r" unfolding r_def by (rule rd_nonneg [OF x(1)])
  have "\<bar>r\<bar> < max_bound" using r0 r x(2) max_bound_gt(1) by simp
  then have m: "is_finite (fmul a (f_lit 1000000))" "f_val (fmul a (f_lit 1000000)) = r"
    using fmul_finite [of a "f_lit 1000000"] assms(1) million by (simp_all add: r_def x_def)
  have f: "of_int \<lfloor>r + 1 / 2\<rfloor> \<le> x + 6 / 10" using r of_int_floor_le [of "r + 1 / 2"] by linarith
  show ?thesis
  proof (cases "fmul a (f_lit 1000000)")
    case (Fin y)
    then have y: "y = r" using m by simp
    have i: "round_away r = \<lfloor>r + 1 / 2\<rfloor>" using r0 by (simp add: round_away_def)
    have n: "0 \<le> \<lfloor>r + 1 / 2\<rfloor>" using r0 by simp
    have "(10 :: rat) ^ 14 + 6 / 10 < of_int (2 ^ 64)" by simp
    then have "of_int \<lfloor>r + 1 / 2\<rfloor> < (of_int (2 ^ 64) :: rat)" using f x(2) by linarith
    then have b: "\<lfloor>r + 1 / 2\<rfloor> < 2 ^ 64" by (simp only: of_int_less_iff)
    have "micro a = word_of_int \<lfloor>r + 1 / 2\<rfloor>"
      using Fin y i n b by (simp add: micro_def rat_to_u64_def)
    then have "int (unat (micro a)) = \<lfloor>r + 1 / 2\<rfloor>" using n b by (simp add: uint_word_of_int take_bit_int_eq_self)
    then have "(of_nat (unat (micro a)) :: rat) = of_int \<lfloor>r + 1 / 2\<rfloor>" by (metis of_int_of_nat_eq)
    then show ?thesis using f by (simp add: x_def)
  next
    case NegZero
    then have "micro a = 0" by (simp add: micro_def rat_to_u64_def)
    then show ?thesis using x by (simp flip: x_def)
  qed (use m in simp_all)
qed

definition cap_ok :: "f64 \<Rightarrow> bool" where
  "cap_ok c \<longleftrightarrow> is_finite c \<and> 0 \<le> f_val c \<and> f_val c \<le> 10 ^ 8"

lemma below_cap:
  assumes "cap_ok c" "\<not> flt c a" "flt (Fin 0) a"
  shows "is_finite a \<and> 0 \<le> f_val a \<and> f_val a \<le> f_val c"
  using assms by (cases a; cases c) (auto simp: cap_ok_def flt_def)

text \<open>An amount that passes the caps is within both of them, up to one micro-unit.\<close>

lemma within_caps:
  assumes caps: "cap_ok (mo_max_per_job_usdc o1)" "cap_ok (mo_max_spend_usdc o1)"
    and s: "of_nat (unat spent) \<le> f_val (mo_max_spend_usdc o1) * 1000000 + 1"
    and ok: "check_caps env o1 mx spent a = Inr ()" "flt (Fin 0) a"
  shows "of_nat (unat (micro a)) \<le> f_val (mo_max_per_job_usdc o1) * 1000000 + 1"
    and "of_nat (unat (spent + micro a)) \<le> f_val (mo_max_spend_usdc o1) * 1000000 + 1"
    and "unat (spent + micro a) = unat spent + unat (micro a)"
proof -
  let ?c = "mo_max_spend_usdc o1"
  define C where "C = f_val ?c"
  define S where "S = (of_nat (unat spent) :: rat)"
  define u where "u = rd (S / 1000000)"
  have C: "0 \<le> C" "C \<le> 10 ^ 8" "is_finite ?c" using caps(2) by (simp_all add: cap_ok_def C_def)
  have S: "0 \<le> S" unfolding S_def by (rule of_nat_0_le_iff)
  have "S \<le> C * 1000000 + 1" using s by (simp only: S_def C_def)
  with S C(2) have S: "0 \<le> S" "S \<le> 10 ^ 14 + 1" by simp_all
  have ck: "\<not> flt (mo_max_per_job_usdc o1) a" "\<not> flt ?c (fadd (fdiv (f_of_u64 spent) (f_lit 1000000)) a)"
    using ok(1) by (auto simp: check_caps_def Let_def result_iff require_def split: if_splits)
  have a: "is_finite a" "0 \<le> f_val a" "f_val a \<le> f_val (mo_max_per_job_usdc o1)"
    using below_cap [OF caps(1) ck(1) ok(2)] by auto
  have a8: "f_val a \<le> 10 ^ 8" using a(3) caps(1) by (simp add: cap_ok_def)
  note m = micro_upper [OF a(1,2) a8]
  show "of_nat (unat (micro a)) \<le> f_val (mo_max_per_job_usdc o1) * 1000000 + 1" using m a(3) by linarith
  have "of_nat (unat spent) < (of_nat (2 ^ 53) :: rat)" using S(2) by (simp add: S_def)
  then have n: "unat spent < 2 ^ 53" by (simp only: of_nat_less_iff)
  then have "unat spent < 9007199254740992" by simp
  then have "int (unat spent) < 9007199254740992" by linarith
  then have "rd S = S" by (intro rd_exact [of S "int (unat spent)" 0]) (simp_all add: S_def)
  then have f: "is_finite (f_of_u64 spent)" "f_val (f_of_u64 spent) = S"
    using to_f64_in_range [of S False] S max_bound_big [of S] by (simp_all add: f_of_u64_def S_def)
  have q: "0 \<le> S / 1000000" using S(1) by simp
  have uc: "\<bar>u - S / 1000000\<bar> \<le> S / 1000000 / 2 ^ 53 + 1 / 2 ^ 60" unfolding u_def by (rule rd_close [OF q])
  have u: "0 \<le> u" "u \<le> 10 ^ 8 + 1" "S / 1000000 \<le> u + 1 / 10 ^ 7"
    using rd_nonneg [OF q] abs_le_D1 [OF uc] abs_le_D2 [OF uc] S by (simp_all add: u_def)
  have "\<bar>u\<bar> < max_bound" using u max_bound_big [of u] by simp
  then have d: "is_finite (fdiv (f_of_u64 spent) (f_lit 1000000))" "f_val (fdiv (f_of_u64 spent) (f_lit 1000000)) = u"
    using fdiv_finite [of "f_of_u64 spent" "f_lit 1000000"] f million by (simp_all add: u_def)
  define t where "t = rd (u + f_val a)"
  have ua: "0 \<le> u + f_val a" "u + f_val a \<le> 3 * 10 ^ 8" using u a(2) a8 by simp_all
  have tc: "\<bar>t - (u + f_val a)\<bar> \<le> (u + f_val a) / 2 ^ 53 + 1 / 2 ^ 60" unfolding t_def by (rule rd_close [OF ua(1)])
  have "y / 2 ^ 53 + 1 / 2 ^ 60 \<le> 1 / 10 ^ 7" if "y \<le> 3 * 10 ^ 8" for y :: rat using that by simp
  note le = this [OF ua(2)]
  have t: "u + f_val a \<le> t + 1 / 10 ^ 7" using abs_le_D2 [OF tc] le by linarith
  have "t \<le> u + f_val a + 1 / 10 ^ 7" using abs_le_D1 [OF tc] le by linarith
  then have t9: "t \<le> 10 ^ 9" using ua(2) by simp
  have "0 \<le> t" unfolding t_def by (rule rd_nonneg [OF ua(1)])
  then have "\<bar>t\<bar> < max_bound" using t9 max_bound_big [of t] by simp
  then have g: "is_finite (fadd (fdiv (f_of_u64 spent) (f_lit 1000000)) a)" "f_val (fadd (fdiv (f_of_u64 spent) (f_lit 1000000)) a) = t"
    using fadd_finite [OF d(1) a(1)] d(2) by (simp_all add: t_def)
  have tC: "t \<le> C" using ck(2) g C(3) unfolding C_def
    by (cases "fadd (fdiv (f_of_u64 spent) (f_lit 1000000)) a"; cases ?c) (auto simp: flt_def)
  have "S \<le> u * 1000000 + 1 / 10" using u(3) by simp
  moreover have "u * 1000000 + f_val a * 1000000 \<le> t * 1000000 + 1 / 10" using t by simp
  moreover have "t * 1000000 \<le> C * 1000000" using tC by simp
  ultimately have sum: "S + of_nat (unat (micro a)) \<le> C * 1000000 + 1" using m by linarith
  then have "of_nat (unat spent + unat (micro a)) < (of_nat (2 ^ 64) :: rat)" using C(2) by (simp add: S_def)
  then have "unat spent + unat (micro a) < 2 ^ 64" by (simp only: of_nat_less_iff)
  then show w: "unat (spent + micro a) = unat spent + unat (micro a)" by (simp add: unat_word_ariths(1))
  show "of_nat (unat (spent + micro a)) \<le> f_val ?c * 1000000 + 1" using sum by (simp add: w S_def C_def)
qed

section \<open>The calls of a session\<close>

text \<open>What may be said to the outside, and how much of it is locked in escrows whose creation was confirmed.\<close>

fun within_rules :: "('k, 's) net_env \<Rightarrow> mcp_opts \<Rightarrow> net_event \<Rightarrow> bool" where
  "within_rules env o1 (EvChain url call) \<longleftrightarrow> url = mo_rpc_url o1 \<and> \<not> mo_read_only o1 \<and>
     (case call of
        ChCreate _ _ _ am _ _ _ \<Rightarrow> of_nat (unat am) \<le> f_val (mo_max_per_job_usdc o1) * 1000000 + 1
      | ChReleaseVerified program _ _ _ _ _ \<Rightarrow> parse_pubkey (nt_sol env url) (mo_escrow_program o1) = Inr program
      | ChRefund program _ \<Rightarrow> parse_pubkey (nt_sol env url) (mo_escrow_program o1) = Inr program
      | _ \<Rightarrow> False)"
| "within_rules env o1 (EvRefundable _ _) \<longleftrightarrow> False"
| "within_rules env o1 _ \<longleftrightarrow> True"

definition locked_by :: "('k, 's) net_env \<Rightarrow> mcp_opts \<Rightarrow> net_event list \<Rightarrow> net_event \<Rightarrow> nat" where
  "locked_by env o1 h e =
     (case e of
        EvChain url (ChCreate program provider mint am timeout jid nk) \<Rightarrow>
          (case nt_keypair env h (or_default (nt_default_keypair env) (mo_keypair o1)) of
             Inr kp \<Rightarrow>
               (case sol_create_job (nt_sol env url) (100 * length h) kp program provider mint am timeout jid nk of
                  Inr _ \<Rightarrow> unat am | Inl _ \<Rightarrow> 0)
           | Inl _ \<Rightarrow> 0)
      | _ \<Rightarrow> 0)"

fun locked_micro :: "('k, 's) net_env \<Rightarrow> mcp_opts \<Rightarrow> net_event list \<Rightarrow> net_event list \<Rightarrow> nat" where
  "locked_micro env o1 h [] = 0"
| "locked_micro env o1 h (e # es) = locked_by env o1 h e + locked_micro env o1 (h @ [e]) es"

lemma locked_micro_append: "locked_micro env o1 h (cs @ ds) = locked_micro env o1 h cs + locked_micro env o1 (h @ cs) ds"
  by (induction cs arbitrary: h) simp_all

lemma quiet_rules: "quiet e \<Longrightarrow> within_rules env o1 e \<and> locked_by env o1 h e = 0"
  by (cases e) (simp_all add: locked_by_def)

lemma quiet_locks_nothing: "\<forall>e \<in> set cs. quiet e \<Longrightarrow> locked_micro env o1 h cs = 0"
  by (induction cs arbitrary: h) (simp_all add: quiet_rules)

text \<open>A step of the session: it keeps the rules and books exactly what it locks.\<close>

definition books :: "('k, 's) net_env \<Rightarrow> mcp_opts \<Rightarrow> u64 \<Rightarrow> net_event list \<Rightarrow> u64 \<Rightarrow> net_event list \<Rightarrow> bool" where
  "books env o1 spent h spent' h' \<longleftrightarrow>
     (\<exists>cs. h' = h @ cs \<and> (\<forall>e \<in> set cs. within_rules env o1 e) \<and> unat spent' = unat spent + locked_micro env o1 h cs \<and>
       of_nat (unat spent') \<le> f_val (mo_max_spend_usdc o1) * 1000000 + 1)"

definition booked :: "mcp_opts \<Rightarrow> u64 \<Rightarrow> bool" where
  "booked o1 spent \<longleftrightarrow> of_nat (unat spent) \<le> f_val (mo_max_spend_usdc o1) * 1000000 + 1"

lemma books_refl: "booked o1 spent \<Longrightarrow> books env o1 spent h spent h"
  by (auto simp: books_def booked_def)

lemma books_trans:
  assumes "books env o1 s h s1 h1" "books env o1 s1 h1 s2 h2"
  shows "books env o1 s h s2 h2"
proof -
  obtain cs where c: "h1 = h @ cs" "\<forall>e \<in> set cs. within_rules env o1 e" "unat s1 = unat s + locked_micro env o1 h cs"
    using assms(1) unfolding books_def by blast
  obtain ds where d: "h2 = h1 @ ds" "\<forall>e \<in> set ds. within_rules env o1 e" "unat s2 = unat s1 + locked_micro env o1 h1 ds"
    "of_nat (unat s2) \<le> f_val (mo_max_spend_usdc o1) * 1000000 + 1" using assms(2) unfolding books_def by blast
  have "\<forall>e \<in> set (cs @ ds). within_rules env o1 e" using c(2) d(2) by auto
  moreover have "unat s2 = unat s + locked_micro env o1 h (cs @ ds)" using c(1,3) d(3) by (simp only: locked_micro_append add.assoc)
  moreover have "h2 = h @ cs @ ds" using c(1) d(1) by simp
  ultimately show ?thesis using d(4) unfolding books_def by blast
qed

lemma quiet_books:
  assumes "emits quiet m" "m h = (r, h')" "booked o1 spent"
  shows "books env o1 spent h spent h'"
proof -
  from emitsD [OF assms(1,2)] obtain cs where "h' = h @ cs" "\<forall>e \<in> set cs. quiet e" by blast
  then show ?thesis using assms(3) unfolding books_def booked_def
    by (intro exI [of _ cs]) (simp add: quiet_rules quiet_locks_nothing)
qed

section \<open>The tools that only ask\<close>

lemma emits_fetch_all [intro!]: "emits quiet (sdk_run_workload env node spec tok p)"
  by (auto simp: emits_def sdk_run_workload_def Let_def vbind_def vmap_err_def sdk_request_def vlift_def split: sum.splits prod.splits)

lemma emits_wallet [intro!]: "emits quiet (load_wallet env w)"
  by (simp add: emits_def load_wallet_def)

lemma emits_pure [intro!]: "emits P (\<lambda>h. (f h, h))"
  by (simp add: emits_def)

lemma emits_option [intro!]: "emits P a \<Longrightarrow> (\<And>x. emits P (f x)) \<Longrightarrow> emits P (case m of None \<Rightarrow> a | Some x \<Rightarrow> f x)"
  by (cases m) auto

lemma emits_payment [intro!]: "emits quiet (mcp_payment env o1 acct jid inp)"
  unfolding mcp_payment_def by (intro emits_bind emits_wallet emits_basic emits_pure)

lemma emits_place [intro!]: "emits quiet (mcp_place env o1 args spec a b)"
  unfolding mcp_place_def Let_def by (intro emits_option emits_bind emits_fetch emits_basic)

lemma asking_tools:
  "emits quiet (mcp_list_providers env o1 mx args)" "emits quiet (mcp_quote env mx args)"
  "emits quiet (mcp_run_job env o1 args)" "emits quiet (mcp_launch env o1 mx args)" "emits quiet (mcp_deploy env o1 mx args)"
  unfolding mcp_list_providers_def mcp_quote_def mcp_run_job_def mcp_run_options_def mcp_launch_def mcp_deploy_def Let_def
  by (intro emits_bind emits_option emits_basic emits_fetch emits_connect emits_info emits_try emits_submit emits_fetch_all
      emits_payment emits_place)+

section \<open>The tools that pay\<close>

lemma books_release:
  assumes "mcp_release_verified env o1 mx args h = (r, h')" "\<not> mo_read_only o1" "booked o1 spent"
  shows "books env o1 spent h spent h'"
proof -
  have "h' = h \<or> (\<exists>program job key inp outp sig. h' = h @ [EvChain (mo_rpc_url o1) (ChReleaseVerified program job key inp outp sig)] \<and>
      parse_pubkey (nt_sol env (mo_rpc_url o1)) (mo_escrow_program o1) = Inr program)"
    using assms(1) unfolding mcp_release_verified_def Let_def
    by (elim bind_liftE bind_walletE bind_chainE retE) auto
  then show ?thesis
    using assms(2,3) books_refl [OF assms(3)] by (auto simp: books_def booked_def locked_by_def)
qed

lemma books_refund:
  assumes "mcp_refund env o1 args h = (r, h')" "\<not> mo_read_only o1" "booked o1 spent"
  shows "books env o1 spent h spent h'"
proof -
  have "h' = h \<or> (\<exists>program job. h' = h @ [EvChain (mo_rpc_url o1) (ChRefund program job)] \<and>
      parse_pubkey (nt_sol env (mo_rpc_url o1)) (mo_escrow_program o1) = Inr program)"
    using assms(1) unfolding mcp_refund_def Let_def
    by (elim bind_liftE bind_walletE bind_chainE retE) auto
  then show ?thesis
    using assms(2,3) books_refl [OF assms(3)] by (auto simp: books_def booked_def locked_by_def)
qed

lemma books_fund:
  assumes f: "fund_escrow env node (mo_keypair o1) (mo_rpc_url o1) (Some a) t h = (r, h')"
    and rules: "\<not> mo_read_only o1" "booked o1 spent" "check_caps env o1 mx spent a = Inr ()"
    and caps: "cap_ok (mo_max_per_job_usdc o1)" "cap_ok (mo_max_spend_usdc o1)"
  shows "books env o1 spent h (case r of Inr s \<Rightarrow> spent + fs_amount_micro s | Inl _ \<Rightarrow> spent) h'"
  using f
proof (cases rule: fund_escrow_cases)
  case (unsent cs e)
  then have "books env o1 spent h spent h'"
    using rules(2) unfolding books_def booked_def by (intro exI [of _ cs]) (simp add: quiet_rules quiet_locks_nothing)
  then show ?thesis using unsent by simp
next
  case (sent qs program provider mint am timeout jid nk kp)
  have am: "am = micro a" "flt (Fin 0) a" using sent(4) by auto
  note w = within_caps [OF caps rules(2) [unfolded booked_def] rules(3) am(2)]
  let ?e = "EvChain (mo_rpc_url o1) (ChCreate program provider mint am timeout jid nk)"
  have e: "within_rules env o1 ?e" using w(1) am(1) rules(1) by simp
  have l: "locked_micro env o1 h (qs @ [?e]) = locked_by env o1 (h @ qs) ?e"
    by (simp add: locked_micro_append quiet_locks_nothing [OF sent(1)])
  show ?thesis
  proof (cases "sol_create_job (nt_sol env (mo_rpc_url o1)) (100 * length (h @ qs)) kp program provider mint am timeout jid nk")
    case (Inl err)
    then have "r \<noteq> Inr s" for s using sent(5) by auto
    then obtain e' where "r = Inl e'" by (cases r) auto
    moreover have "locked_by env o1 (h @ qs) ?e = 0" using Inl sent(3) by (simp add: locked_by_def)
    ultimately show ?thesis using sent(1,2) e l rules(2) unfolding books_def booked_def
      by (intro exI [of _ "qs @ [?e]"]) (simp add: quiet_rules del: within_rules.simps)
  next
    case (Inr fe)
    then obtain s where s: "r = Inr s" "fs_amount_micro s = am" using sent(5) by auto
    have "locked_by env o1 (h @ qs) ?e = unat (micro a)" using Inr sent(3) am(1) by (simp add: locked_by_def)
    then show ?thesis using s am(1) sent(1,2) e l w(2,3) unfolding books_def
      by (intro exI [of _ "qs @ [?e]"]) (simp add: quiet_rules del: within_rules.simps)
  qed
qed

section \<open>A session\<close>

lemma bind_quietE:
  assumes "vbind m f h = (r, h')" and "emits quiet m" and "booked o1 spent"
  obtains (stop) e where "books env o1 spent h spent h'" "r = Inl e"
  | (step) x h1 where "books env o1 spent h spent h1" "f x h1 = (r, h')"
  using assms(1)
proof (cases rule: bindE)
  case (stop e)
  then show ?thesis using that(1) quiet_books [OF assms(2) stop(1) assms(3)] by blast
next
  case (step x h1)
  then show ?thesis using that(2) quiet_books [OF assms(2) step(1) assms(3)] by blast
qed

abbreviation after :: "u64 \<Rightarrow> string + json \<times> u64 \<Rightarrow> u64" where
  "after spent r \<equiv> (case r of Inr (_, spent') \<Rightarrow> spent' | Inl _ \<Rightarrow> spent)"

lemma books_pay:
  assumes pay: "mcp_pay_escrow env o1 mx spent args h = (r, h')"
    and rules: "\<not> mo_read_only o1" "booked o1 spent"
    and caps: "cap_ok (mo_max_per_job_usdc o1)" "cap_ok (mo_max_spend_usdc o1)"
  shows "books env o1 spent h (after spent r) h'"
proof -
  have fund: "books env o1 spent h (after spent r) h'"
    if b: "books env o1 spent h spent h1" and ok: "check_caps env o1 mx spent a = Inr ()"
      and f: "fund_escrow env node (mo_keypair o1) (mo_rpc_url o1) (Some a) t h1 = (fr, h')"
      and r: "case fr of Inl e \<Rightarrow> r = Inl e | Inr s \<Rightarrow> \<exists>v. r = Inr (v, spent + fs_amount_micro s)" for h1 a node t fr
  proof -
    have "after spent r = (case fr of Inr s \<Rightarrow> spent + fs_amount_micro s | Inl _ \<Rightarrow> spent)" using r by (cases fr) auto
    then show ?thesis using books_trans [OF b books_fund [OF f rules ok caps]] by simp
  qed
  have quote: "emits quiet (case json_f64 (mx_read_f64 mx) (jfield args ''amount_usdc'') of
      Some a \<Rightarrow> vret a
    | None \<Rightarrow> vbind (sdk_connect env node) (\<lambda>node. vbind (sdk_info env node) (\<lambda>info. vret (ni_price_usdc info))))" for node
    by (intro emits_option emits_bind emits_connect emits_info emits_basic)
  from pay [unfolded mcp_pay_escrow_def Let_def] show ?thesis
  proof (cases rule: bind_liftE)
    case (stop e)
    then have "after spent r = spent" "h' = h" by simp_all
    then show ?thesis by (simp only:) (rule books_refl [OF rules(2)])
  next
    case (step node)
    from step(2) show ?thesis
    proof (cases rule: bind_quietE [where env = env, OF _ quote rules(2), consumes 1, case_names stop step])
      case (stop e)
      then show ?thesis by simp
    next
      case amount: (step a h1)
      from amount(2) show ?thesis
      proof (cases rule: bind_liftE)
        case (stop e)
        then show ?thesis using amount(1) by simp
      next
        case ok: (step u)
        have ok': "check_caps env o1 mx spent a = Inr ()" using ok(1) by simp
        from ok(2) show ?thesis
        proof (cases rule: bindE)
          case (stop e)
          then show ?thesis by (intro fund [OF amount(1) ok' stop(1)]) simp
        next
          case (step s h2)
          have "h2 = h'" and "\<exists>v. r = Inr (v, spent + fs_amount_micro s)" using step(2) by (auto simp: vret_def)
          then show ?thesis using fund [OF amount(1) ok' step(1) [unfolded \<open>h2 = h'\<close>]] by simp
        qed
      qed
    qed
  qed
qed

lemma keeping_after: "keeping spent m h = (r, h') \<Longrightarrow> \<exists>r'. m h = (r', h') \<and> after spent r = spent"
  by (auto simp: keeping_def vbind_def vret_def split: prod.splits sum.splits)

lemma books_call:
  assumes call: "call_tool env o1 mx spent name args h = (r, h')" and b: "booked o1 spent"
    and caps: "cap_ok (mo_max_per_job_usdc o1)" "cap_ok (mo_max_spend_usdc o1)"
  shows "books env o1 spent h (after spent r) h'"
proof -
  have ask: ?thesis if "keeping spent m h = (r, h')" "emits quiet m" for m
    using keeping_after [OF that(1)] quiet_books [OF that(2) _ b] by metis
  have rel: ?thesis if "keeping spent (mcp_release_verified env o1 mx args) h = (r, h')" "\<not> mo_read_only o1"
    using keeping_after [OF that(1)] books_release [OF _ that(2) b] by metis
  have ref: ?thesis if "keeping spent (mcp_refund env o1 args) h = (r, h')" "\<not> mo_read_only o1"
    using keeping_after [OF that(1)] books_refund [OF _ that(2) b] by metis
  from call [unfolded call_tool_def] show ?thesis
  proof (cases rule: bind_liftE)
    case (stop e)
    then show ?thesis using books_refl [OF b] by simp
  next
    case (step u)
    have ro: "name \<in> set PAYMENT_TOOLS \<Longrightarrow> \<not> mo_read_only o1" using step(1) by (auto simp: require_def split: if_splits)
    have pt: "name = ''cloudiy_pay_escrow'' \<or> name = ''cloudiy_release_verified'' \<or> name = ''cloudiy_refund'' \<Longrightarrow> \<not> mo_read_only o1"
      using ro by (auto simp: PAYMENT_TOOLS_def)
    show ?thesis
    proof (cases "name \<in> {''cloudiy_list_providers'', ''cloudiy_quote'', ''cloudiy_run_job'', ''cloudiy_launch'', ''cloudiy_deploy''}")
      case True
      then have "\<exists>m. emits quiet m \<and> keeping spent m h = (r, h')"
        using step(2) by (elim insertE emptyE) (simp, blast intro: asking_tools)+
      then show ?thesis using ask by blast
    next
      case False
      show ?thesis
      proof (cases "name \<in> {''cloudiy_pay_escrow'', ''cloudiy_release_verified'', ''cloudiy_refund''}")
        case True
        then have ro: "\<not> mo_read_only o1" using pt by auto
        from True consider "mcp_pay_escrow env o1 mx spent args h = (r, h')"
          | "keeping spent (mcp_release_verified env o1 mx args) h = (r, h')" | "keeping spent (mcp_refund env o1 args) h = (r, h')"
          using step(2) by (auto split: if_splits)
        then show ?thesis using books_pay [OF _ ro b caps] rel [OF _ ro] ref [OF _ ro] by cases
      next
        case unknown: False
        then have "h' = h \<and> (\<exists>e. r = Inl e)" using step(2) False by (auto simp: vlift_def split: if_splits)
        then show ?thesis using books_refl [OF b] by auto
      qed
    qed
  qed
qed

lemma books_dispatch:
  assumes "dispatch env o1 mx spent msg h = (reply, spent', h')" "booked o1 spent"
    and "cap_ok (mo_max_per_job_usdc o1)" "cap_ok (mo_max_spend_usdc o1)"
  shows "books env o1 spent h spent' h'"
proof (cases "starts_with (jtext (jfield msg ''method'')) ''notifications/''")
  case True
  then show ?thesis using assms(1) books_refl [OF assms(2)] by (simp add: dispatch_def)
next
  case False
  let ?m = "jtext (jfield msg ''method'')"
  obtain res where res: "mcp_result env o1 mx spent ?m msg h = (res, spent', h')"
    using assms(1) False by (auto simp: dispatch_def Let_def split: prod.splits)
  show ?thesis
  proof (cases "?m = ''tools/call''")
    case True
    obtain r h1 where c: "call_tool env o1 mx spent (jtext (jfield (jfield msg ''params'') ''name'')) (jfield (jfield msg ''params'') ''arguments'') h = (r, h1)"
      by (meson surj_pair)
    have "h1 = h' \<and> after spent r = spent'" using res c True by (auto simp: mcp_result_def split: sum.splits)
    then show ?thesis using books_call [OF c assms(2-4)] by simp
  next
    case False
    then have "h' = h \<and> spent' = spent" using res by (auto simp: mcp_result_def split: if_splits)
    then show ?thesis using books_refl [OF assms(2)] by simp
  qed
qed

lemma books_lines:
  assumes "serve_lines env o1 mx spent ls h = (replies, spent', h')" "booked o1 spent"
    and caps: "cap_ok (mo_max_per_job_usdc o1)" "cap_ok (mo_max_spend_usdc o1)"
  shows "books env o1 spent h spent' h'"
  using assms(1,2)
proof (induction ls arbitrary: spent h replies)
  case Nil
  then show ?case using books_refl by simp
next
  case (Cons line ls)
  show ?case
  proof (cases "trim line = ''''")
    case True
    then show ?thesis using Cons by simp
  next
    case False
    obtain reply s1 h1 where d: "(case mx_parse mx line of
                Some msg \<Rightarrow> dispatch env o1 mx spent msg h
              | None \<Rightarrow> (Some (rpc_error JNull (- 32700) ''parse error''), spent, h)) = (reply, s1, h1)" by (rule prod_cases3)
    then obtain reps where rest: "serve_lines env o1 mx s1 ls h1 = (reps, spent', h')"
      using Cons.prems(1) False by (auto split: prod.splits)
    have b: "books env o1 spent h s1 h1"
      using d books_dispatch [OF _ Cons.prems(2) caps] books_refl [OF Cons.prems(2)] by (cases "mx_parse mx line") auto
    then have "booked o1 s1" by (auto simp: books_def booked_def)
    then show ?thesis using books_trans [OF b Cons.IH [OF rest]] by simp
  qed
qed


section \<open>A session that pays\<close>

definition demo_codec :: mcp_codec where
  "demo_codec = \<lparr>mx_parse = (\<lambda>_. Some (JObj [(''id'', JInt 1), (''method'', JStr ''tools/call''), (''params'', JObj [
       (''name'', JStr ''cloudiy_pay_escrow''), (''arguments'', JObj [(''node_id'', JStr ''n'')])])])),
     mx_pretty = (\<lambda>_. ''{}''), mx_read_f64 = (\<lambda>_. NaN), mx_f64 = (\<lambda>_. JNull), mx_six = (\<lambda>_. ''''), mx_info = (\<lambda>_. JNull),
     mx_providers = (\<lambda>_. JNull), mx_b64_error = (\<lambda>_. '''')\<rparr>"

definition demo_session :: mcp_opts where
  "demo_session = \<lparr>mo_rpc_url = ''http://localhost:8899'', mo_cluster = Devnet, mo_escrow_program = ''prog'', mo_keypair = None,
     mo_max_spend_usdc = Fin 3, mo_max_per_job_usdc = Fin 2, mo_directory = [], mo_allow_mainnet = False, mo_read_only = False\<rparr>"

lemma demo_host: "rpc_is_non_mainnet ''http://localhost:8899''" by code_simp


end
