(* ===== verification/Runtimes.thy ===== *)
theory Runtimes
  imports Node
begin

text \<open>
  The seam of the execution runtimes (\<open>crates/runtime/src/lib.rs\<close>): the trait \<open>Runtime\<close> as a record of
  computations over the history of the runtime, the lifecycle with its guaranteed destruction, as the crate
  offers it (\<open>execute\<close>) and as the node runs it (\<open>run_workload\<close> of \<open>crates/cloudiy/src/core.rs\<close>), and the
  in-memory runtime of the tests (\<open>mock.rs\<close>). The contract of the trait is a locale.
\<close>

section \<open>The trait\<close>

record metrics_snapshot =
  ms_cpu_percent :: "f64 option"
  ms_memory_mib :: "u64 option"
  ms_raw :: json

definition default_metrics :: metrics_snapshot where
  "default_metrics = \<lparr>ms_cpu_percent = None, ms_memory_mib = None, ms_raw = JNull\<rparr>"

record 'h runtime =
  rn_name :: string
  rn_supports :: "'h \<Rightarrow> bool \<times> 'h"
  rn_prepare :: "workload_spec \<Rightarrow> ('h, string, unit) hio"
  rn_run :: "string \<Rightarrow> workload_spec \<Rightarrow> ('h, string, string) hio"
  rn_wait :: "string \<Rightarrow> ('h, string, outcome) hio"
  rn_logs :: "string \<Rightarrow> ('h, string, string) hio"
  rn_metrics :: "string \<Rightarrow> ('h, string, metrics_snapshot) hio"
  rn_destroy :: "string \<Rightarrow> ('h, string, unit) hio"

definition logs_or_none :: "string + string \<Rightarrow> string" where
  "logs_or_none r = (case r of Inr l \<Rightarrow> l | Inl _ \<Rightarrow> '''')"

definition execute :: "'h runtime \<Rightarrow> string \<Rightarrow> workload_spec \<Rightarrow> ('h, string, outcome \<times> string) hio" where
  "execute rt workload_id spec =
     vbind (rn_prepare rt spec) (\<lambda>_.
     vbind (rn_run rt workload_id spec) (\<lambda>handle.
     vbind (vtry (rn_wait rt handle)) (\<lambda>result :: string + outcome.
     vbind (vtry (rn_logs rt handle)) (\<lambda>l :: string + string.
     vbind (vtry (rn_destroy rt handle)) (\<lambda>_ :: string + unit.
     vlift (rbind result (\<lambda>o1. Inr (o1, logs_or_none l))))))))"

text \<open>
  The execution of a workload on a node, which gives up after the time limit of the workload; \<open>took\<close> is
  the number of seconds the wait takes.
\<close>

definition node_execution :: "'h runtime \<Rightarrow> nat \<Rightarrow> string \<Rightarrow> workload_spec \<Rightarrow> ('h, string, string) hio" where
  "node_execution rt took jid spec =
     vbind (rn_prepare rt spec) (\<lambda>_.
     vbind (rn_run rt jid spec) (\<lambda>handle.
     vbind (vtry (rn_wait rt handle)) (\<lambda>result :: string + outcome.
     vbind (vtry (rn_logs rt handle)) (\<lambda>l :: string + string.
     vbind (vtry (rn_destroy rt handle)) (\<lambda>_ :: string + unit.
     vlift (if unat (workload_timeout spec) < took
            then Inl (''workload timed out after '' @ show_word (workload_timeout spec) @ ''s'')
            else case result of
              Inl e \<Rightarrow> Inl (''runtime error: '' @ e)
            | Inr OutSucceeded \<Rightarrow> Inr (logs_or_none l)
            | Inr (OutFailed exit_code) \<Rightarrow> Inl (''workload exited with code '' @ exit_code_text exit_code @
                ''; logs:'' @ CHR 0x0A # logs_or_none l)))))))"

text \<open>The runtime as the node sees it, for one workload that starts with the history \<open>h\<close>.\<close>

definition workload_view :: "'h runtime \<Rightarrow> 'h \<Rightarrow> nat \<Rightarrow> string \<Rightarrow> workload_spec \<Rightarrow> workload_runtime" where
  "workload_view rt h took jid spec =
     (let h1 = snd (rn_supports rt h);
          h2 = snd (rn_prepare rt spec h1);
          h3 = snd (rn_run rt jid spec h2) in
      \<lparr>rt_name = rn_name rt, rt_supports = fst (rn_supports rt h),
       rt_prepare = (\<lambda>sp. fst (rn_prepare rt sp h1)), rt_run = (\<lambda>i sp. fst (rn_run rt i sp h2)),
       rt_wait = (\<lambda>handle. (fst (rn_wait rt handle h3), took)),
       rt_logs = (\<lambda>handle. fst (rn_logs rt handle (snd (rn_wait rt handle h3))))\<rparr>)"

text \<open>The executions of the node are those of the trait.\<close>

lemma node_execution_view:
  "fst (run_execution (workload_view rt h took jid spec) jid spec) = fst (node_execution rt took jid spec (snd (rn_supports rt h)))"
  by (simp add: run_execution_def node_execution_def workload_view_def Let_def vbind_def vtry_def vlift_def logs_or_none_def
      split: prod.splits sum.splits)
    (auto simp: logs_or_none_def split: outcome.splits)

section \<open>The contract\<close>

text \<open>
  \<open>opened\<close> are the environments that were started and that nobody has asked to be destroyed: only \<open>run\<close>
  opens one, and \<open>destroy\<close> always closes it.
\<close>

locale runtime_contract =
  fixes rt :: "'h runtime" and opened :: "'h \<Rightarrow> string set"
  assumes prepare_opens: "opened (snd (rn_prepare rt spec h)) = opened h"
    and run_opens: "rn_run rt workload_id spec h = (r, h') \<Longrightarrow>
      opened h' \<subseteq> opened h \<union> (case r of Inl _ \<Rightarrow> {} | Inr handle \<Rightarrow> {handle})"
    and wait_opens: "opened (snd (rn_wait rt handle h)) = opened h"
    and logs_opens: "opened (snd (rn_logs rt handle h)) = opened h"
    and destroy_closes: "opened (snd (rn_destroy rt handle h)) = opened h - {handle}"
begin

lemma execute_closes: "opened (snd (execute rt workload_id spec h)) \<subseteq> opened h"
proof -
  obtain r1 h1 where p: "rn_prepare rt spec h = (r1, h1)" by (cases "rn_prepare rt spec h")
  have o1: "opened h1 = opened h" using prepare_opens [of spec h] p by simp
  obtain r2 h2 where r: "rn_run rt workload_id spec h1 = (r2, h2)" by (cases "rn_run rt workload_id spec h1")
  note o2 = run_opens [OF r]
  show ?thesis
  proof (cases r1)
    case (Inl e)
    then show ?thesis using p o1 by (simp add: execute_def vbind_def)
  next
    case (Inr u)
    show ?thesis
    proof (cases r2)
      case (Inl e)
      then show ?thesis using p Inr r o1 o2 by (simp add: execute_def vbind_def)
    next
      case (Inr handle)
      obtain r3 h3 where w: "rn_wait rt handle h2 = (r3, h3)" by (cases "rn_wait rt handle h2")
      obtain r4 h4 where l: "rn_logs rt handle h3 = (r4, h4)" by (cases "rn_logs rt handle h3")
      have "opened h3 = opened h2" using wait_opens [of handle h2] w by simp
      moreover have "opened h4 = opened h3" using logs_opens [of handle h3] l by simp
      ultimately have "opened (snd (rn_destroy rt handle h4)) = opened h2 - {handle}" using destroy_closes [of handle h4] by simp
      then have "opened (snd (rn_destroy rt handle h4)) \<subseteq> opened h" using o1 o2 Inr by auto
      then show ?thesis using p \<open>r1 = Inr u\<close> r Inr w l
        by (cases "rn_destroy rt handle h4") (simp add: execute_def vbind_def vtry_def vlift_def)
    qed
  qed
qed

lemma node_execution_closes: "opened (snd (node_execution rt took jid spec h)) \<subseteq> opened h"
proof -
  have "snd (node_execution rt took jid spec h) = snd (execute rt jid spec h)"
    by (simp add: execute_def node_execution_def vbind_def vtry_def vlift_def split: prod.splits sum.splits)
  then show ?thesis using execute_closes by simp
qed

end

section \<open>The runtime of the tests\<close>

type_synonym mock_state = "string \<Rightarrow> (workload_spec \<times> bool) option"

definition mock_destroyed :: "mock_state \<Rightarrow> string \<Rightarrow> bool" where
  "mock_destroyed m handle = (case m handle of Some (_, destroyed) \<Rightarrow> destroyed | None \<Rightarrow> False)"

definition mock_run :: "string \<Rightarrow> workload_spec \<Rightarrow> (mock_state, string, string) hio" where
  "mock_run workload_id spec m = (Inr workload_id, m(workload_id \<mapsto> (spec, False)))"

definition mock_wait :: "string \<Rightarrow> (mock_state, string, outcome) hio" where
  "mock_wait handle m =
     (case m handle of
        None \<Rightarrow> Inl ''unknown handle''
      | Some (spec, _) \<Rightarrow> Inr (if ws_command spec \<noteq> [] \<and> hd (ws_command spec) = ''fail'' then OutFailed (Some 1) else OutSucceeded), m)"

definition mock_destroy :: "string \<Rightarrow> (mock_state, string, unit) hio" where
  "mock_destroy handle m =
     (Inr (), case m handle of Some (spec, _) \<Rightarrow> m(handle \<mapsto> (spec, True)) | None \<Rightarrow> m)"

definition mock_runtime :: "mock_state runtime" where
  "mock_runtime = \<lparr>rn_name = ''mock'', rn_supports = (\<lambda>m. (True, m)), rn_prepare = (\<lambda>spec. vret ()), rn_run = mock_run,
     rn_wait = mock_wait, rn_logs = (\<lambda>handle. vret (''mock logs for '' @ handle)),
     rn_metrics = (\<lambda>handle. vret default_metrics), rn_destroy = mock_destroy\<rparr>"

definition mock_opened :: "mock_state \<Rightarrow> string set" where
  "mock_opened m = {k. \<exists>spec. m k = Some (spec, False)}"

interpretation mock: runtime_contract mock_runtime mock_opened
proof
  show "mock_opened (snd (rn_prepare mock_runtime spec h)) = mock_opened h" for spec h
    by (simp add: mock_runtime_def vret_def)
  show "mock_opened (snd (rn_wait mock_runtime handle h)) = mock_opened h" for handle h
    by (simp add: mock_runtime_def mock_wait_def)
  show "mock_opened (snd (rn_logs mock_runtime handle h)) = mock_opened h" for handle h
    by (simp add: mock_runtime_def vret_def)
  show "mock_opened (snd (rn_destroy mock_runtime handle h)) = mock_opened h - {handle}" for handle h
    by (cases "h handle") (auto simp: mock_runtime_def mock_destroy_def mock_opened_def split: if_splits)
  show "mock_opened h' \<subseteq> mock_opened h \<union> (case r of Inl _ \<Rightarrow> {} | Inr handle \<Rightarrow> {handle})"
    if "rn_run mock_runtime workload_id spec h = (r, h')" for workload_id spec h r h'
    using that by (auto simp: mock_runtime_def mock_run_def mock_opened_def split: if_splits)
qed

lemma mock_fails_as_told:
  "fst (execute mock_runtime w spec m) =
     Inr (if ws_command spec \<noteq> [] \<and> hd (ws_command spec) = ''fail'' then OutFailed (Some 1) else OutSucceeded, ''mock logs for '' @ w)"
  by (simp add: execute_def mock_runtime_def mock_run_def mock_wait_def mock_destroy_def vbind_def vtry_def vlift_def vret_def
      logs_or_none_def rbind_def)

end
