(* ===== verification/Docker_Runtime.thy ===== *)
theory Docker_Runtime
  imports Runtimes
begin

text \<open>
  The Docker driver (\<open>crates/runtime/src/docker.rs\<close>): the arguments of the container of a consumer's workload,
  and the operations of the trait over the command line of Docker or of a program that speaks the same language.
  The program is a function of the history of commands; how Rust writes an f64 and quotes a string, and the JSON
  parser, are parameters.
\<close>

section \<open>The driver\<close>

record docker_config =
  dc_binary :: string
  dc_runtime :: "string option"
  dc_allow_unsandboxed :: bool
  dc_gpu_device :: "string option"

definition docker_default :: docker_config where
  "docker_default = \<lparr>dc_binary = ''docker'', dc_runtime = None, dc_allow_unsandboxed = False, dc_gpu_device = None\<rparr>"

definition with_runtime :: "string option \<Rightarrow> docker_config" where
  "with_runtime rt = docker_default\<lparr>dc_runtime := rt\<rparr>"

record docker_env =
  dk_run :: "command list \<Rightarrow> command \<Rightarrow> string + cli_output"
  dk_show_f64 :: "f64 \<Rightarrow> string"
  dk_parse_f64 :: "string \<Rightarrow> f64 option"
  dk_quoted :: "string \<Rightarrow> string"
  dk_json :: "string \<Rightarrow> json option"

type_synonym 'a dio = "(command list, string, 'a) hio"

definition image_of :: "workload_spec \<Rightarrow> string + string" where
  "image_of spec = ok_or (ws_image spec) ''workload has no image (template expansion pending)''"

definition docker_cli :: "docker_env \<Rightarrow> docker_config \<Rightarrow> string list \<Rightarrow> cli_output dio" where
  "docker_cli env self args h = (let c = dc_binary self # args in (dk_run env h c, h @ [c]))"

definition sandbox_refusal :: string where
  "sandbox_refusal = ''this node runs consumer images only under a sandboxed OCI runtime: '' @
     ''install gVisor and restart with --runtime runsc (or kata-runtime), '' @
     ''or explicitly accept the shared-kernel risk with --allow-runc-untrusted''"

definition docker_limits :: "docker_env \<Rightarrow> docker_config \<Rightarrow> workload_spec \<Rightarrow> string list" where
  "docker_limits env self spec =
     (let cpu = rv_get (ws_resources spec) Cpu; mem = rv_get (ws_resources spec) Memory in
      (if 0 < cpu then [''--cpus'', dk_show_f64 env (fdiv (f_of_u64 cpu) (f_lit 1000))] else []) @
      (if 0 < mem then [''--memory'', show_word mem @ ''m''] else []) @
      (if 0 < rv_get (ws_resources spec) Gpu \<or> 0 < rv_get (ws_resources spec) Vram
       then [''--gpus'', case dc_gpu_device self of Some ids \<Rightarrow> ''device='' @ ids | None \<Rightarrow> ''all''] else []))"

definition docker_network :: "workload_spec \<Rightarrow> string list" where
  "docker_network spec =
     (if ws_ports spec = [] then [''--network'', ''none'']
      else concat (map (\<lambda>p. [''--publish'', show_word p @ '':'' @ show_word p]) (ws_ports spec)))"

definition run_args :: "docker_env \<Rightarrow> docker_config \<Rightarrow> string \<Rightarrow> workload_spec \<Rightarrow> string + string list" where
  "run_args env self name spec =
     rbind (image_of spec) (\<lambda>img.
     rbind (require (\<not> starts_with img ''-'') (''invalid image reference: '' @ dk_quoted env img)) (\<lambda>_.
     rbind (require (dc_runtime self \<noteq> None \<or> dc_allow_unsandboxed self) sandbox_refusal) (\<lambda>_.
     Inr ([''run'', ''--detach'', ''--name'', name, ''--security-opt'', ''no-new-privileges'', ''--cap-drop'', ''ALL'',
           ''--pids-limit'', ''512''] @
          (case dc_runtime self of Some rt \<Rightarrow> [''--runtime'', rt] | None \<Rightarrow> []) @
          (if ws_persistent_storage_mib spec = 0 then [''--read-only'', ''--tmpfs'', ''/tmp''] else []) @
          docker_limits env self spec @ docker_network spec @
          concat (map (\<lambda>(k, v). [''--env'', k @ ''='' @ v]) (ws_env spec)) @ [img] @ ws_command spec))))"

section \<open>The operations of the trait\<close>

definition docker_supports :: "docker_env \<Rightarrow> docker_config \<Rightarrow> command list \<Rightarrow> bool \<times> command list" where
  "docker_supports env self h =
     (case docker_cli env self [''version'', ''--format'', ''{{.Server.Version}}''] h of
        (Inr out, h') \<Rightarrow> (co_success out, h') | (Inl _, h') \<Rightarrow> (False, h'))"

definition docker_prepare :: "docker_env \<Rightarrow> docker_config \<Rightarrow> workload_spec \<Rightarrow> unit dio" where
  "docker_prepare env self spec =
     vbind (vlift (image_of spec)) (\<lambda>img.
     vbind (docker_cli env self [''pull'', img]) (\<lambda>out.
     vlift (require (co_success out) (''image pull failed: '' @ co_stderr out))))"

definition docker_run :: "docker_env \<Rightarrow> docker_config \<Rightarrow> string \<Rightarrow> workload_spec \<Rightarrow> string dio" where
  "docker_run env self workload_id spec =
     (let name = ''cloudiy-'' @ workload_id in
      vbind (vlift (run_args env self name spec)) (\<lambda>args.
      vbind (docker_cli env self args) (\<lambda>out.
      vbind (vlift (require (co_success out) (''container start failed: '' @ co_stderr out))) (\<lambda>_.
      vret name))))"

text \<open>\<open>i32::from_str\<close>, which reads one digit after the other.\<close>

fun i32_digits :: "bool \<Rightarrow> int \<Rightarrow> string \<Rightarrow> string + int" where
  "i32_digits neg acc [] = Inr acc"
| "i32_digits neg acc (c # cs) =
     (case digit_val 10 c of
        None \<Rightarrow> Inl ''invalid digit found in string''
      | Some d \<Rightarrow>
          let v = (if neg then acc * 10 - int d else acc * 10 + int d) in
          if s_fits TYPE(32) v then i32_digits neg v cs
          else Inl (if neg then ''number too small to fit in target type'' else ''number too large to fit in target type''))"

definition parse_i32 :: "string \<Rightarrow> string + i32" where
  "parse_i32 s =
     (case s of
        [] \<Rightarrow> Inl ''cannot parse integer from empty string''
      | c # cs \<Rightarrow>
          if (c = CHR ''-'' \<or> c = CHR ''+'') \<and> cs = [] then Inl ''invalid digit found in string''
          else rbind (if c = CHR ''-'' then i32_digits True 0 cs else if c = CHR ''+'' then i32_digits False 0 cs
                      else i32_digits False 0 s) (\<lambda>v. Inr (word_of_int v)))"

definition docker_wait :: "docker_env \<Rightarrow> docker_config \<Rightarrow> string \<Rightarrow> outcome dio" where
  "docker_wait env self handle =
     vbind (docker_cli env self [''wait'', handle]) (\<lambda>out.
     vbind (vlift (require (co_success out) (''wait failed: '' @ co_stderr out))) (\<lambda>_.
     vbind (vlift (parse_i32 (trim (co_stdout out)))) (\<lambda>code.
     vret (if code = 0 then OutSucceeded else OutFailed (Some code)))))"

definition docker_logs :: "docker_env \<Rightarrow> docker_config \<Rightarrow> string \<Rightarrow> string dio" where
  "docker_logs env self handle =
     vbind (docker_cli env self [''logs'', handle]) (\<lambda>out. vret (co_stdout out @ co_stderr out))"

definition trim_percent :: "string \<Rightarrow> string" where
  "trim_percent s = rev (dropWhile (\<lambda>c. c = CHR 0x25) (rev s))"

definition docker_metrics :: "docker_env \<Rightarrow> docker_config \<Rightarrow> string \<Rightarrow> metrics_snapshot dio" where
  "docker_metrics env self handle =
     vbind (docker_cli env self [''stats'', ''--no-stream'', ''--format'', ''{{json .}}'', handle]) (\<lambda>out.
     let raw = (case dk_json env (trim (co_stdout out)) of Some j \<Rightarrow> j | None \<Rightarrow> JNull) in
     vret \<lparr>ms_cpu_percent = Option.bind (json_str (jfield raw ''CPUPerc'')) (\<lambda>s. dk_parse_f64 env (trim_percent s)),
       ms_memory_mib = None, ms_raw = raw\<rparr>)"

definition docker_destroy :: "docker_env \<Rightarrow> docker_config \<Rightarrow> string \<Rightarrow> unit dio" where
  "docker_destroy env self handle =
     vbind (docker_cli env self [''rm'', ''--force'', handle]) (\<lambda>_. vret ())"

definition docker_runtime :: "docker_env \<Rightarrow> docker_config \<Rightarrow> command list runtime" where
  "docker_runtime env self = \<lparr>rn_name = ''docker'', rn_supports = docker_supports env self, rn_prepare = docker_prepare env self,
     rn_run = docker_run env self, rn_wait = docker_wait env self, rn_logs = docker_logs env self,
     rn_metrics = docker_metrics env self, rn_destroy = docker_destroy env self\<rparr>"

section \<open>What Docker reads\<close>

text \<open>
  The grammar of the command line of \<open>docker run\<close> as documented: options up to the first argument that is not
  one, then the image, and what follows is the command. An option takes the next argument as its value
  unless it is written with an equals sign or is one of the switches.
\<close>

definition docker_switches :: "string list" where
  "docker_switches = [''--detach'', ''-d'', ''--disable-content-trust'', ''--help'', ''--init'', ''--interactive'', ''-i'',
     ''--no-healthcheck'', ''--oom-kill-disable'', ''--privileged'', ''--publish-all'', ''-P'', ''--quiet'', ''-q'',
     ''--read-only'', ''--rm'', ''--sig-proxy'', ''--tty'', ''-t'', ''--use-api-socket'']"

fun docker_reads :: "string list \<Rightarrow> ((string \<times> string option) list \<times> string \<times> string list) option" where
  "docker_reads [] = None"
| "docker_reads (a # as) =
     (if \<not> starts_with a ''-'' then Some ([], a, as)
      else if a \<in> set docker_switches \<or> CHR ''='' \<in> set a then
        map_option (\<lambda>(opts, r). ((a, None) # opts, r)) (docker_reads as)
      else case as of
        [] \<Rightarrow> None
      | v # rest \<Rightarrow> map_option (\<lambda>(opts, r). ((a, Some v) # opts, r)) (docker_reads rest))"

text \<open>The only options, and what is known of each.\<close>

definition workload_option_ok :: "docker_config \<Rightarrow> string \<Rightarrow> workload_spec \<Rightarrow> string \<times> string option \<Rightarrow> bool" where
  "workload_option_ok self name spec kv \<longleftrightarrow> (case kv of (k, v) \<Rightarrow>
     k = ''--detach'' \<and> v = None \<or> k = ''--name'' \<and> v = Some name \<or>
     k = ''--security-opt'' \<and> v = Some ''no-new-privileges'' \<or> k = ''--cap-drop'' \<and> v = Some ''ALL'' \<or>
     k = ''--pids-limit'' \<and> v = Some ''512'' \<or> k = ''--runtime'' \<and> v \<noteq> None \<and> v = dc_runtime self \<or>
     k = ''--read-only'' \<and> v = None \<or> k = ''--tmpfs'' \<and> v = Some ''/tmp'' \<or> k = ''--cpus'' \<or> k = ''--memory'' \<or>
     k = ''--gpus'' \<and> v = Some (case dc_gpu_device self of Some ids \<Rightarrow> ''device='' @ ids | None \<Rightarrow> ''all'') \<or>
     k = ''--network'' \<and> v = Some ''none'' \<or>
     k = ''--publish'' \<and> (\<exists>p \<in> set (ws_ports spec). v = Some (show_word p @ '':'' @ show_word p)) \<or>
     k = ''--env'' \<and> (\<exists>(n, x) \<in> set (ws_env spec). v = Some (n @ ''='' @ x)))"

text \<open>An option with a value is read together with it, whatever the value is.\<close>

definition takes_value :: "string \<Rightarrow> bool" where
  "takes_value a \<longleftrightarrow> starts_with a ''-'' \<and> a \<notin> set docker_switches \<and> CHR ''='' \<notin> set a"

lemma takes_value_flags:
  "list_all takes_value [''--name'', ''--security-opt'', ''--cap-drop'', ''--pids-limit'', ''--runtime'', ''--tmpfs'', ''--cpus'',
     ''--memory'', ''--gpus'', ''--network'', ''--publish'', ''--env'']"
  by code_simp

lemmas flags_take_values = takes_value_flags [unfolded list.pred_inject]

lemma reads_value: "takes_value a \<Longrightarrow> docker_reads (a # v # rest) = map_option (\<lambda>(opts, r). ((a, Some v) # opts, r)) (docker_reads rest)"
  by (simp add: takes_value_def)

lemma reads_switch: "a \<in> {''--detach'', ''--read-only''} \<Longrightarrow> docker_reads (a # rest) = map_option (\<lambda>(opts, r). ((a, None) # opts, r)) (docker_reads rest)"
  by (auto simp: starts_with_def docker_switches_def)

text \<open>The options of a driver, as pairs.\<close>

fun option_args :: "string \<times> string option \<Rightarrow> string list" where
  "option_args (k, Some v) = [k, v]"
| "option_args (k, None) = [k]"

definition readable :: "string \<times> string option \<Rightarrow> bool" where
  "readable kv \<longleftrightarrow> (case kv of (k, Some v) \<Rightarrow> takes_value k | (k, None) \<Rightarrow> k \<in> {''--detach'', ''--read-only''})"

lemma reads_options:
  "list_all readable opts \<Longrightarrow> \<not> starts_with img ''-'' \<Longrightarrow>
     docker_reads (concat (map option_args opts) @ img # cmd) = Some (opts, img, cmd)"
proof (induction opts)
  case Nil
  then show ?case by simp
next
  case (Cons o1 opts)
  obtain k v where o1: "o1 = (k, v)" by (cases o1)
  show ?case
  proof (cases v)
    case None
    then show ?thesis using Cons o1 by (simp add: readable_def reads_switch del: docker_reads.simps)
  next
    case (Some x)
    then show ?thesis using Cons o1 by (simp add: readable_def reads_value del: docker_reads.simps)
  qed
qed

definition run_options :: "docker_env \<Rightarrow> docker_config \<Rightarrow> string \<Rightarrow> workload_spec \<Rightarrow> (string \<times> string option) list" where
  "run_options env self name spec =
     (let cpu = rv_get (ws_resources spec) Cpu; mem = rv_get (ws_resources spec) Memory in
      [(''--detach'', None), (''--name'', Some name), (''--security-opt'', Some ''no-new-privileges''),
       (''--cap-drop'', Some ''ALL''), (''--pids-limit'', Some ''512'')] @
      (case dc_runtime self of Some rt \<Rightarrow> [(''--runtime'', Some rt)] | None \<Rightarrow> []) @
      (if ws_persistent_storage_mib spec = 0 then [(''--read-only'', None), (''--tmpfs'', Some ''/tmp'')] else []) @
      (if 0 < cpu then [(''--cpus'', Some (dk_show_f64 env (fdiv (f_of_u64 cpu) (f_lit 1000))))] else []) @
      (if 0 < mem then [(''--memory'', Some (show_word mem @ ''m''))] else []) @
      (if 0 < rv_get (ws_resources spec) Gpu \<or> 0 < rv_get (ws_resources spec) Vram
       then [(''--gpus'', Some (case dc_gpu_device self of Some ids \<Rightarrow> ''device='' @ ids | None \<Rightarrow> ''all''))] else []) @
      (if ws_ports spec = [] then [(''--network'', Some ''none'')]
       else map (\<lambda>p. (''--publish'', Some (show_word p @ '':'' @ show_word p))) (ws_ports spec)) @
      map (\<lambda>(k, v). (''--env'', Some (k @ ''='' @ v))) (ws_env spec))"

lemma concat_option_args:
  "concat (map option_args (map (\<lambda>x. (f, Some (g x))) xs)) = concat (map (\<lambda>x. [f, g x]) xs)"
  "concat (map option_args (map (\<lambda>(k, v). (f, Some (q k v))) ys)) = concat (map (\<lambda>(k, v). [f, q k v]) ys)"
  by (induction xs) (simp_all, induction ys, auto)

lemma some_args: "concat (map option_args (case x of Some y \<Rightarrow> [f y] | None \<Rightarrow> [])) = (case x of Some y \<Rightarrow> option_args (f y) | None \<Rightarrow> [])"
  by (cases x) simp_all

lemma if_args: "concat (map option_args (if c then xs else ys)) = (if c then concat (map option_args xs) else concat (map option_args ys))"
  by simp

lemma run_args_options:
  "run_args env self name spec = Inr args \<longleftrightarrow>
     (\<exists>img. ws_image spec = Some img \<and> \<not> starts_with img ''-'' \<and> (dc_runtime self \<noteq> None \<or> dc_allow_unsandboxed self) \<and>
        args = ''run'' # concat (map option_args (run_options env self name spec)) @ img # ws_command spec)"
proof -
  have o: "''run'' # concat (map option_args (run_options env self name spec)) @ img # ws_command spec =
      [''run'', ''--detach'', ''--name'', name, ''--security-opt'', ''no-new-privileges'', ''--cap-drop'', ''ALL'',
           ''--pids-limit'', ''512''] @
          (case dc_runtime self of Some rt \<Rightarrow> [''--runtime'', rt] | None \<Rightarrow> []) @
          (if ws_persistent_storage_mib spec = 0 then [''--read-only'', ''--tmpfs'', ''/tmp''] else []) @
          docker_limits env self spec @ docker_network spec @
          concat (map (\<lambda>(k, v). [''--env'', k @ ''='' @ v]) (ws_env spec)) @ [img] @ ws_command spec" for img
    unfolding run_options_def docker_limits_def docker_network_def Let_def map_append concat_append concat_option_args
      some_args if_args
    by (simp only: option_args.simps list.map concat.simps append.simps append_assoc append_Nil2)
  show ?thesis
    unfolding run_args_def o image_of_def by (auto simp: result_iff simp del: append.simps)
qed

lemma readable_rules:
  "readable (''--detach'', None)" "readable (''--read-only'', None)" "readable (''--name'', Some v)" "readable (''--security-opt'', Some v)"
  "readable (''--cap-drop'', Some v)" "readable (''--pids-limit'', Some v)" "readable (''--runtime'', Some v)" "readable (''--tmpfs'', Some v)"
  "readable (''--cpus'', Some v)" "readable (''--memory'', Some v)" "readable (''--gpus'', Some v)" "readable (''--network'', Some v)"
  "readable (''--publish'', Some v)" "readable (''--env'', Some v)"
  by (simp_all only: readable_def prod.case option.case flags_take_values insert_iff simp_thms)

lemma option_ok_rules:
  "workload_option_ok self name spec (''--detach'', None)" "workload_option_ok self name spec (''--read-only'', None)"
  "workload_option_ok self name spec (''--name'', Some name)"
  "workload_option_ok self name spec (''--security-opt'', Some ''no-new-privileges'')"
  "workload_option_ok self name spec (''--cap-drop'', Some ''ALL'')" "workload_option_ok self name spec (''--pids-limit'', Some ''512'')"
  "dc_runtime self = Some rt \<Longrightarrow> workload_option_ok self name spec (''--runtime'', Some rt)"
  "workload_option_ok self name spec (''--tmpfs'', Some ''/tmp'')" "workload_option_ok self name spec (''--cpus'', Some v)"
  "workload_option_ok self name spec (''--memory'', Some v)"
  "workload_option_ok self name spec (''--gpus'', Some (case dc_gpu_device self of Some ids \<Rightarrow> ''device='' @ ids | None \<Rightarrow> ''all''))"
  "workload_option_ok self name spec (''--network'', Some ''none'')"
  by (simp_all only: workload_option_ok_def prod.case simp_thms option.distinct not_False_eq_True)

lemma listed_option_ok_rules:
  "p \<in> set (ws_ports spec) \<Longrightarrow> workload_option_ok self name spec (''--publish'', Some (show_word p @ '':'' @ show_word p))"
  "(k, v) \<in> set (ws_env spec) \<Longrightarrow> workload_option_ok self name spec (''--env'', Some (k @ ''='' @ v))"
proof -
  assume "p \<in> set (ws_ports spec)"
  then have "\<exists>p' \<in> set (ws_ports spec). Some (show_word p @ '':'' @ show_word p) = Some (show_word p' @ '':'' @ show_word p')"
    by blast
  then show "workload_option_ok self name spec (''--publish'', Some (show_word p @ '':'' @ show_word p))"
    by (simp only: workload_option_ok_def prod.case simp_thms)
next
  assume "(k, v) \<in> set (ws_env spec)"
  then have "\<exists>(n, x) \<in> set (ws_env spec). Some (k @ ''='' @ v) = Some (n @ ''='' @ x)" by blast
  then show "workload_option_ok self name spec (''--env'', Some (k @ ''='' @ v))"
    by (simp only: workload_option_ok_def prod.case simp_thms)
qed

lemma run_options_all:
  assumes "P (''--detach'', None)" "P (''--name'', Some name)" "P (''--security-opt'', Some ''no-new-privileges'')"
    "P (''--cap-drop'', Some ''ALL'')" "P (''--pids-limit'', Some ''512'')"
    and "\<And>rt. dc_runtime self = Some rt \<Longrightarrow> P (''--runtime'', Some rt)"
    and "P (''--read-only'', None)" "P (''--tmpfs'', Some ''/tmp'')" "\<And>v. P (''--cpus'', Some v)" "\<And>v. P (''--memory'', Some v)"
    and "P (''--gpus'', Some (case dc_gpu_device self of Some ids \<Rightarrow> ''device='' @ ids | None \<Rightarrow> ''all''))"
    and "P (''--network'', Some ''none'')"
    and "\<And>p. p \<in> set (ws_ports spec) \<Longrightarrow> P (''--publish'', Some (show_word p @ '':'' @ show_word p))"
    and "\<And>k v. (k, v) \<in> set (ws_env spec) \<Longrightarrow> P (''--env'', Some (k @ ''='' @ v))"
  shows "list_all P (run_options env self name spec)"
proof -
  have "list_all P (case dc_runtime self of Some rt \<Rightarrow> [(''--runtime'', Some rt)] | None \<Rightarrow> [])"
    using assms(6) by (cases "dc_runtime self") simp_all
  moreover have "list_all P (map (\<lambda>p. (''--publish'', Some (show_word p @ '':'' @ show_word p))) (ws_ports spec))"
    using assms(13) unfolding list_all_iff set_map by blast
  moreover have "list_all P (map (\<lambda>(k, v). (''--env'', Some (k @ ''='' @ v))) (ws_env spec))"
    using assms(14) unfolding list_all_iff set_map by (auto simp only: ball_simps split_paired_Ball_Sigma split: prod.splits)
  ultimately show ?thesis
    unfolding run_options_def Let_def list_all_append
    by (intro conjI; (split if_split)?; simp only: list.pred_inject assms(1-5,7-12) simp_thms)
qed

lemma run_options_readable: "list_all readable (run_options env self name spec)"
  by (rule run_options_all) (rule readable_rules)+

lemma run_options_ok: "list_all (workload_option_ok self name spec) (run_options env self name spec)"
  by (rule run_options_all) (rule option_ok_rules listed_option_ok_rules; assumption?)+

text \<open>
  C9. A consumer's container never reaches the host. Whatever the workload asks for, the command line that
  starts it is read by Docker as options of the list in \<open>workload_option_ok\<close> only (no mount, no privilege, no
  namespace or device of the host, and no option that comes from a name, a variable, the image or the
  command), then the image and the command of the workload; no new privileges, no capabilities and a limit
  on processes are always among them, there is no network without published ports, the root file
  system is read-only without persistent storage, and without a sandboxed runtime it needs the
  consent of the provider.
\<close>
theorem docker_workload_confined:
  assumes "run_args env self name spec = Inr args"
  shows "\<exists>img opts. ws_image spec = Some img \<and> hd args = ''run'' \<and>
      docker_reads (tl args) = Some (opts, img, ws_command spec) \<and>
      list_all (workload_option_ok self name spec) opts \<and>
      (''--security-opt'', Some ''no-new-privileges'') \<in> set opts \<and> (''--cap-drop'', Some ''ALL'') \<in> set opts \<and>
      (''--pids-limit'', Some ''512'') \<in> set opts \<and>
      (ws_ports spec = [] \<longrightarrow> (''--network'', Some ''none'') \<in> set opts) \<and>
      (ws_persistent_storage_mib spec = 0 \<longrightarrow> (''--read-only'', None) \<in> set opts) \<and>
      (dc_allow_unsandboxed self \<or> (\<exists>rt. dc_runtime self = Some rt \<and> (''--runtime'', Some rt) \<in> set opts))"
proof -
  let ?opts = "run_options env self name spec"
  from assms obtain img where i: "ws_image spec = Some img" "\<not> starts_with img ''-''"
    and g: "dc_runtime self \<noteq> None \<or> dc_allow_unsandboxed self"
    and a: "args = ''run'' # concat (map option_args ?opts) @ img # ws_command spec"
    unfolding run_args_options by blast
  have r: "docker_reads (tl args) = Some (?opts, img, ws_command spec)"
    unfolding a list.sel by (rule reads_options [OF run_options_readable i(2)])
  have m: "(''--security-opt'', Some ''no-new-privileges'') \<in> set ?opts" "(''--cap-drop'', Some ''ALL'') \<in> set ?opts"
    "(''--pids-limit'', Some ''512'') \<in> set ?opts"
    "ws_ports spec = [] \<Longrightarrow> (''--network'', Some ''none'') \<in> set ?opts"
    "ws_persistent_storage_mib spec = 0 \<Longrightarrow> (''--read-only'', None) \<in> set ?opts"
    "\<And>rt. dc_runtime self = Some rt \<Longrightarrow> (''--runtime'', Some rt) \<in> set ?opts"
    by (simp_all add: run_options_def Let_def)
  have h: "hd args = ''run''" unfolding a by (rule list.sel)
  show ?thesis using i(1) r m g h run_options_ok [of self name spec env] by blast
qed

definition demo_docker_env :: docker_env where
  "demo_docker_env = \<lparr>dk_run = (\<lambda>_ _. Inr \<lparr>co_success = True, co_stdout = ''0'', co_stderr = ''''\<rparr>),
     dk_show_f64 = (\<lambda>_. ''1''), dk_parse_f64 = (\<lambda>_. None), dk_quoted = (\<lambda>s. s), dk_json = (\<lambda>_. None)\<rparr>"

definition demo_workload :: workload_spec where
  "demo_workload = default_spec\<lparr>ws_image := Some ''evil/image'', ws_env := [(''K'', ''-v /:/host --privileged'')],
     ws_command := [''--privileged'']\<rparr>"

lemma docker_workload_confined_witness:
  "\<exists>args img opts. run_args demo_docker_env (with_runtime (Some ''runsc'')) ''cloudiy-1'' demo_workload = Inr args \<and>
     docker_reads (tl args) = Some (opts, img, [''--privileged'']) \<and>
     list_all (workload_option_ok (with_runtime (Some ''runsc'')) ''cloudiy-1'' demo_workload) opts"
proof -
  have "\<exists>args. run_args demo_docker_env (with_runtime (Some ''runsc'')) ''cloudiy-1'' demo_workload = Inr args"
    unfolding run_args_options by (simp add: demo_workload_def default_spec_def starts_with_def with_runtime_def)
  then obtain args where a: "run_args demo_docker_env (with_runtime (Some ''runsc'')) ''cloudiy-1'' demo_workload = Inr args"
    by blast
  moreover have "ws_command demo_workload = [''--privileged'']" by (simp add: demo_workload_def)
  ultimately show ?thesis using docker_workload_confined [OF a] by metis
qed

text \<open>
  \<open>prepare\<close> hands the image to \<open>docker pull\<close> before the check, so an image that is an option is read as one there.
\<close>

lemma pull_reads_the_image_as_an_option:
  "snd (docker_prepare env self (default_spec\<lparr>ws_image := Some ''--help''\<rparr>) h) = h @ [[dc_binary self, ''pull'', ''--help'']]"
  by (simp add: docker_prepare_def image_of_def vbind_def vlift_def docker_cli_def Let_def ok_or_def split: sum.splits)

section \<open>Containers are removed\<close>

text \<open>The containers that a command started, and that no later one was asked to remove.\<close>

definition docker_command_opens :: "docker_env \<Rightarrow> command list \<Rightarrow> command \<Rightarrow> string set \<Rightarrow> string set" where
  "docker_command_opens env earlier c cs =
     (if take 2 (tl c) = [''rm'', ''--force''] then cs - {c ! 3}
      else if take 3 (tl c) = [''run'', ''--detach'', ''--name''] then
        (case dk_run env earlier c of Inr out \<Rightarrow> if co_success out then insert (c ! 4) cs else cs | Inl _ \<Rightarrow> cs)
      else cs)"

fun opened_rev :: "docker_env \<Rightarrow> command list \<Rightarrow> string set" where
  "opened_rev env [] = {}"
| "opened_rev env (c # earlier) = docker_command_opens env (rev earlier) c (opened_rev env earlier)"

definition docker_opened :: "docker_env \<Rightarrow> command list \<Rightarrow> string set" where
  "docker_opened env h = opened_rev env (rev h)"

lemma docker_opened_snoc: "docker_opened env (h @ [c]) = docker_command_opens env h c (docker_opened env h)"
  by (simp add: docker_opened_def)

lemma opens_other: "hd args \<noteq> ''rm'' \<Longrightarrow> hd args \<noteq> ''run'' \<Longrightarrow> docker_opened env (h @ [b # args]) = docker_opened env h"
  by (cases args) (auto simp: docker_opened_snoc docker_command_opens_def numeral_eq_Suc)

lemma run_args_named:
  assumes "run_args env self name spec = Inr args"
  shows "\<exists>rest. args = ''run'' # ''--detach'' # ''--name'' # name # rest"
  using assms by (auto simp: run_args_def result_iff)

lemma opens_run:
  "docker_opened env (h @ [b # ''run'' # ''--detach'' # ''--name'' # name # rest]) =
     (case dk_run env h (b # ''run'' # ''--detach'' # ''--name'' # name # rest) of
        Inr out \<Rightarrow> if co_success out then insert name (docker_opened env h) else docker_opened env h
      | Inl _ \<Rightarrow> docker_opened env h)"
proof -
  have "(b # ''run'' # ''--detach'' # ''--name'' # name # rest) ! 4 = name" by simp
  moreover have "take 3 (tl (b # ''run'' # ''--detach'' # ''--name'' # name # rest)) = [''run'', ''--detach'', ''--name'']" by simp
  ultimately show ?thesis by (simp only: docker_opened_snoc docker_command_opens_def) simp
qed

lemmas docker_ops = docker_runtime_def docker_prepare_def docker_run_def docker_wait_def docker_logs_def docker_destroy_def
  vbind_def vlift_def vret_def docker_cli_def Let_def

interpretation dock: runtime_contract "docker_runtime env self" "docker_opened env" for env self
proof
  show "docker_opened env (snd (rn_prepare (docker_runtime env self) spec h)) = docker_opened env h" for spec h
    by (cases "image_of spec") (auto simp: docker_ops opens_other split: sum.splits)
  show "docker_opened env (snd (rn_wait (docker_runtime env self) handle h)) = docker_opened env h" for handle h
    by (auto simp: docker_ops opens_other split: sum.splits prod.splits)
  show "docker_opened env (snd (rn_logs (docker_runtime env self) handle h)) = docker_opened env h" for handle h
    by (auto simp: docker_ops opens_other split: sum.splits prod.splits)
  show "docker_opened env (snd (rn_destroy (docker_runtime env self) handle h)) = docker_opened env h - {handle}" for handle h
    by (auto simp: docker_ops docker_opened_snoc docker_command_opens_def split: sum.splits prod.splits)
  show "docker_opened env h' \<subseteq> docker_opened env h \<union> (case r of Inl _ \<Rightarrow> {} | Inr handle \<Rightarrow> {handle})"
    if "rn_run (docker_runtime env self) workload_id spec h = (r, h')" for workload_id spec h r h'
  proof (cases "run_args env self (''cloudiy-'' @ workload_id) spec")
    case (Inl e)
    then show ?thesis using that by (auto simp: docker_ops)
  next
    case (Inr args)
    then obtain rest where a: "args = ''run'' # ''--detach'' # ''--name'' # (''cloudiy-'' @ workload_id) # rest"
      using run_args_named by blast
    let ?c = "dc_binary self # args"
    have h': "h' = h @ [?c]" using that Inr by (auto simp: docker_ops split: sum.splits prod.splits)
    show ?thesis
    proof (cases "dk_run env h ?c")
      case (Inl e)
      then show ?thesis unfolding h' using opens_run [of env h "dc_binary self" "''cloudiy-'' @ workload_id" rest] a by auto
    next
      case (Inr out)
      then have "co_success out \<Longrightarrow> r = Inr (''cloudiy-'' @ workload_id)"
        using that \<open>run_args env self (''cloudiy-'' @ workload_id) spec = Inr args\<close> by (auto simp: docker_ops require_def)
      then show ?thesis unfolding h'
        using Inr opens_run [of env h "dc_binary self" "''cloudiy-'' @ workload_id" rest] a by (auto split: if_splits)
    qed
  qed
qed



text \<open>
  But a start that fails is not cleaned up: \<open>docker run\<close> can fail after it created the container (its port is
  taken, say), and then nothing removes it.
\<close>

lemma failed_start_is_not_removed:
  assumes "ws_image spec = Some img" and "dk_run env h [dc_binary self, ''pull'', img] = Inr out" and "co_success out"
    and "run_args env self (''cloudiy-'' @ jid) spec = Inr args"
    and "dk_run env (h @ [[dc_binary self, ''pull'', img]]) (dc_binary self # args) = Inr out'" and "\<not> co_success out'"
  shows "node_execution (docker_runtime env self) took jid spec h =
     (Inl (''container start failed: '' @ co_stderr out'), h @ [[dc_binary self, ''pull'', img], dc_binary self # args])"
  using assms by (simp add: node_execution_def docker_ops image_of_def ok_or_def require_def)

end
