(* ===== verification/Gpu_Kernels.thy ===== *)
theory Gpu_Kernels
  imports Runtimes
begin

text \<open>
  The compute kernels (\<open>crates/runtime/src/wgsl.rs\<close>): the two shipped shaders, run once for every invocation of a
  dispatch, the host code that checks sizes and uploads buffers, shaders of a caller, the text formats of the
  kernels and the runtime over them. An f32 is its 32 bits; the arithmetic of the device, the order in which
  it runs the invocations, how Rust reads and writes an f32, the WGSL parser and validator, JSON and base64 are
  parameters. \<open>None\<close> is a panic: the answer of \<open>wgpu\<close> to a dispatch beyond the limits of the device.
\<close>

section \<open>The device\<close>

type_synonym invocation = "u32 \<times> u32 \<times> u32"

record wgsl_module =
  wm_entry_points :: "(string \<times> bool) list"
  wm_globals :: "(bool \<times> (u32 \<times> u32) option) list"

record wgsl_job =
  wj_source :: string
  wj_entry :: string
  wj_workgroups :: invocation
  wj_output_len :: u64
  wj_inputs :: "string list"

record gpu_env =
  gp_add :: "u32 \<Rightarrow> u32 \<Rightarrow> u32"
  gp_mul :: "u32 \<Rightarrow> u32 \<Rightarrow> u32"
  gp_outside :: u32
  gp_schedule :: "invocation list \<Rightarrow> invocation list"
  gp_max_workgroups :: u32
  gp_failure :: "string option"
  gp_parse_f32 :: "string \<Rightarrow> u32 option"
  gp_show_f32 :: "u32 \<Rightarrow> string"
  gp_parse_wgsl :: "string \<Rightarrow> string + wgsl_module"
  gp_validate :: "wgsl_module \<Rightarrow> string + unit"
  gp_user :: "string \<Rightarrow> string \<Rightarrow> (u32 \<times> bytes) list \<Rightarrow> u32 \<Rightarrow> u64 \<Rightarrow> invocation \<Rightarrow> (string + bytes) option"
  gp_job :: "string \<Rightarrow> string + wgsl_job"
  gp_b64_decode :: "string \<Rightarrow> bytes option"
  gp_b64_encode :: "bytes \<Rightarrow> string"
  gp_join_error :: string

definition KERNELS :: "string list" where
  "KERNELS = [''vector_add'', ''matrix_mul'', ''wgsl'']"

definition MAX_ELEMENTS :: nat where
  "MAX_ELEMENTS = 64 * 1024 * 1024"

definition MAX_WGSL_SOURCE :: nat where
  "MAX_WGSL_SOURCE = 64 * 1024"

definition MAX_BUFFER_BYTES :: u64 where
  "MAX_BUFFER_BYTES = of_nat (MAX_ELEMENTS * 4)"

definition MAX_WORKGROUPS :: u32 where
  "MAX_WORKGROUPS = 65535"

text \<open>The invocations of a dispatch: the workgroups times their size, in each dimension.\<close>

definition invocations :: "invocation \<Rightarrow> nat \<times> nat \<times> nat \<Rightarrow> invocation list" where
  "invocations groups wg = (case (groups, wg) of ((wx, wy, wz), (sx, sy, sz)) \<Rightarrow>
     [(of_nat x, of_nat y, of_nat z). z \<leftarrow> [0..<unat wz * sz], y \<leftarrow> [0..<unat wy * sy], x \<leftarrow> [0..<unat wx * sx]])"

section \<open>Buffers\<close>

text \<open>\<open>bytemuck::cast_slice\<close>, in both directions.\<close>

definition bytes_of :: "u32 list \<Rightarrow> bytes" where
  "bytes_of ws = concat (map to_le_bytes ws)"

fun words_of :: "bytes \<Rightarrow> u32 list" where
  "words_of (a # b # c # d # rest) = from_le_bytes [a, b, c, d] # words_of rest"
| "words_of _ = []"

datatype input_buffer = Storage bytes | Uniform bytes

fun buffer_bytes :: "input_buffer \<Rightarrow> bytes" where
  "buffer_bytes (Storage b) = b"
| "buffer_bytes (Uniform b) = b"

text \<open>The output has binding 2, so the third input is bound at 3.\<close>

definition run_entries :: "input_buffer list \<Rightarrow> (nat \<times> bytes) list" where
  "run_entries inputs = map (\<lambda>(i, b). (if i < 2 then i else i + 1, buffer_bytes b)) (List.enumerate 0 inputs)"

definition bound_at :: "(nat \<times> bytes) list \<Rightarrow> nat \<Rightarrow> u32 list" where
  "bound_at entries b = (case map_of entries b of Some bs \<Rightarrow> words_of bs | None \<Rightarrow> [])"

text \<open>A read past the end of an array gives some value.\<close>

definition load :: "gpu_env \<Rightarrow> u32 list \<Rightarrow> u32 \<Rightarrow> u32" where
  "load env xs i = (if unat i < length xs then xs ! unat i else gp_outside env)"

definition store :: "u32 list \<Rightarrow> u32 \<Rightarrow> u32 \<Rightarrow> u32 list" where
  "store xs i v = xs[unat i := v]"

definition array_length :: "u32 list \<Rightarrow> u32" where
  "array_length xs = of_nat (length xs)"

section \<open>The shaders\<close>

definition vector_add_main :: "gpu_env \<Rightarrow> (nat \<Rightarrow> u32 list) \<Rightarrow> invocation \<Rightarrow> u32 list \<Rightarrow> u32 list" where
  "vector_add_main env mem gid out =
     (let i = fst gid in
      if i < array_length out then store out i (gp_add env (load env (mem 0) i) (load env (mem 1) i)) else out)"

definition matmul_main :: "gpu_env \<Rightarrow> (nat \<Rightarrow> u32 list) \<Rightarrow> invocation \<Rightarrow> u32 list \<Rightarrow> u32 list" where
  "matmul_main env mem gid out =
     (let col = fst gid; row = fst (snd gid); m = mem 3 ! 0; k = mem 3 ! 1; n = mem 3 ! 2 in
      if m \<le> row \<or> n \<le> col then out
      else store out (row * n + col)
        (fold (\<lambda>i sum. gp_add env sum (gp_mul env (load env (mem 0) (row * k + of_nat i)) (load env (mem 1) (of_nat i * n + col))))
           [0..<unat k] 0))"

section \<open>The executor\<close>

definition gpu_run ::
  "gpu_env \<Rightarrow> ((nat \<Rightarrow> u32 list) \<Rightarrow> invocation \<Rightarrow> u32 list \<Rightarrow> u32 list) \<Rightarrow> nat \<times> nat \<times> nat \<Rightarrow> input_buffer list \<Rightarrow> nat \<Rightarrow> invocation \<Rightarrow>
   (string + u32 list) option" where
  "gpu_run env shader wg inputs output_bytes groups =
     (case groups of (wx, wy, wz) \<Rightarrow>
      if gp_max_workgroups env < wx \<or> gp_max_workgroups env < wy \<or> gp_max_workgroups env < wz then None
      else Some (case gp_failure env of
        Some e \<Rightarrow> Inl e
      | None \<Rightarrow> Inr (fold (shader (bound_at (run_entries inputs))) (gp_schedule env (invocations groups wg))
          (replicate (output_bytes div 4) 0))))"

definition div_ceil :: "'a::len word \<Rightarrow> 'a word \<Rightarrow> 'a word" where
  "div_ceil a b = (if a mod b = 0 then a div b else a div b + 1)"

definition vector_add :: "gpu_env \<Rightarrow> u32 list \<Rightarrow> u32 list \<Rightarrow> (string + u32 list) option" where
  "vector_add env a b =
     (if length a \<noteq> length b then Some (Inl ''vectors must have the same length'')
      else if a = [] then Some (Inl ''vectors must not be empty'')
      else if MAX_ELEMENTS < length a then Some (Inl ''vector too large'')
      else gpu_run env (vector_add_main env) (256, 1, 1) [Storage (bytes_of a), Storage (bytes_of b)] (length a * 4)
             (div_ceil (of_nat (length a)) 256, 1, 1))"

definition matmul :: "gpu_env \<Rightarrow> u32 list \<Rightarrow> u32 list \<Rightarrow> u32 \<Rightarrow> u32 \<Rightarrow> u32 \<Rightarrow> (string + u32 list) option" where
  "matmul env a b m k n =
     (let m' = unat m; k' = unat k; n' = unat n in
      if m = 0 \<or> k = 0 \<or> n = 0 then Some (Inl ''dimensions must be positive'')
      else if length a \<noteq> m' * k' then Some (Inl ''A must have m*k elements'')
      else if length b \<noteq> k' * n' then Some (Inl ''B must have k*n elements'')
      else if MAX_ELEMENTS < m' * k' \<or> MAX_ELEMENTS < k' * n' \<or> MAX_ELEMENTS < m' * n' then Some (Inl ''matrix too large'')
      else gpu_run env (matmul_main env) (16, 16, 1)
             [Storage (bytes_of a), Storage (bytes_of b), Uniform (bytes_of [m, k, n, 0])] (m' * n' * 4)
             (div_ceil n 16, div_ceil m 16, 1))"

section \<open>Shaders of a caller\<close>

definition COPY_BUFFER_ALIGNMENT :: nat where
  "COPY_BUFFER_ALIGNMENT = 4"

text \<open>The bindings of the storage buffers in group 0, ascending.\<close>

definition storage_bindings :: "wgsl_module \<Rightarrow> u32 list" where
  "storage_bindings md = sort (List.map_filter (\<lambda>(is_storage, binding).
     if is_storage then (case binding of Some (grp, b) \<Rightarrow> if grp = 0 then Some b else None | None \<Rightarrow> None) else None)
     (wm_globals md))"

definition wgsl_checks :: "string \<Rightarrow> bytes list \<Rightarrow> u64 \<Rightarrow> invocation \<Rightarrow> string + unit" where
  "wgsl_checks source inputs output_bytes groups = (case groups of (wx, wy, wz) \<Rightarrow>
     rbind (require (length source \<le> MAX_WGSL_SOURCE) ''WGSL source too large'') (\<lambda>_.
     rbind (require (0 < output_bytes \<and> output_bytes \<le> MAX_BUFFER_BYTES) ''output size out of range'') (\<lambda>_.
     rbind (require (unat output_bytes mod COPY_BUFFER_ALIGNMENT = 0) ''output size must be a multiple of 4 bytes'') (\<lambda>_.
     rbind (require (length inputs \<le> 8) ''too many input buffers (max 8)'') (\<lambda>_.
     rbind (require (list_all (\<lambda>b. length b \<le> unat MAX_BUFFER_BYTES) inputs) ''input buffer too large'') (\<lambda>_.
     rbind (require (list_all (\<lambda>b. length b mod COPY_BUFFER_ALIGNMENT = 0) inputs)
       ''each input buffer length must be a multiple of 4 bytes'') (\<lambda>_.
     rbind (require (0 < wx \<and> 0 < wy \<and> 0 < wz) ''workgroup counts must be positive'') (\<lambda>_.
     require (wx \<le> MAX_WORKGROUPS \<and> wy \<le> MAX_WORKGROUPS \<and> wz \<le> MAX_WORKGROUPS) ''workgroup count too large''))))))))"

definition wgsl_bindings :: "gpu_env \<Rightarrow> string \<Rightarrow> string \<Rightarrow> nat \<Rightarrow> string + u32 list" where
  "wgsl_bindings env source entry n_inputs =
     rbind (gp_parse_wgsl env source) (\<lambda>md.
     rbind (gp_validate env md) (\<lambda>_.
     rbind (require ((entry, True) \<in> set (wm_entry_points md)) (''no @compute entry point named `'' @ entry @ ''`'')) (\<lambda>_.
     let storage = storage_bindings md in
     rbind (require (storage \<noteq> []) ''shader declares no @group(0) storage buffer'') (\<lambda>_.
     rbind (require (length storage = n_inputs + 1) (''shader has '' @ show_nat (length storage) @ '' storage buffers but '' @
       show_nat n_inputs @ '' inputs + 1 output were given'')) (\<lambda>_.
     Inr storage)))))"

text \<open>An empty input becomes four zero bytes.\<close>

definition padded :: "bytes \<Rightarrow> bytes" where
  "padded b = (if b = [] then [0, 0, 0, 0] else b)"

definition run_wgsl :: "gpu_env \<Rightarrow> string \<Rightarrow> string \<Rightarrow> bytes list \<Rightarrow> u64 \<Rightarrow> invocation \<Rightarrow> (string + bytes) option" where
  "run_wgsl env source entry inputs output_bytes groups =
     (case rbind (wgsl_checks source inputs output_bytes groups) (\<lambda>_. wgsl_bindings env source entry (length inputs)) of
        Inl e \<Rightarrow> Some (Inl e)
      | Inr storage \<Rightarrow> gp_user env source entry (zip (butlast storage) (map padded inputs)) (last storage) output_bytes groups)"

section \<open>Kernels by name\<close>

fun collect :: "('a \<Rightarrow> 'e + 'b) \<Rightarrow> 'a list \<Rightarrow> 'e + 'b list" where
  "collect f [] = Inr []"
| "collect f (x # xs) = rbind (f x) (\<lambda>y. rbind (collect f xs) (\<lambda>ys. Inr (y # ys)))"

definition in_quotes :: "string \<Rightarrow> string" where
  "in_quotes s = [CHR 0x27] @ s @ [CHR 0x27]"

definition parse_floats :: "gpu_env \<Rightarrow> string \<Rightarrow> string + u32 list" where
  "parse_floats env s =
     collect (\<lambda>t. ok_or (gp_parse_f32 env t) (''invalid number '' @ in_quotes t)) (filter (\<lambda>t. t \<noteq> []) (map trim (split_on (CHR '','') s)))"

definition format_floats :: "gpu_env \<Rightarrow> u32 list \<Rightarrow> string" where
  "format_floats env v = join_with '','' (map (gp_show_f32 env) v)"

definition parse_dims :: "string \<Rightarrow> string + u32 list" where
  "parse_dims s = collect (\<lambda>t. ok_or (parse_word (trim t)) (''invalid dim '' @ in_quotes t)) (split_on (CHR '','') s)"

definition formatted :: "gpu_env \<Rightarrow> (string + u32 list) option \<Rightarrow> (string + string) option" where
  "formatted env r = map_option (\<lambda>x. rbind x (\<lambda>out. Inr (format_floats env out))) r"

definition vector_add_text :: "gpu_env \<Rightarrow> string \<Rightarrow> (string + string) option" where
  "vector_add_text env input =
     (let parts = split_on (CHR '';'') input in
      if length parts \<noteq> 2 then Some (Inl (''vector_add expects input '' @ in_quotes ''a1,a2,...;b1,b2,...''))
      else case rbind (parse_floats env (parts ! 0)) (\<lambda>a. rbind (parse_floats env (parts ! 1)) (\<lambda>b. Inr (a, b))) of
        Inl e \<Rightarrow> Some (Inl e)
      | Inr (a, b) \<Rightarrow> formatted env (vector_add env a b))"

definition matrix_mul_text :: "gpu_env \<Rightarrow> string \<Rightarrow> (string + string) option" where
  "matrix_mul_text env input =
     (let parts = split_on (CHR '';'') input in
      if length parts \<noteq> 3 then Some (Inl (''matrix_mul expects input '' @ in_quotes ''m,k,n;a1,...(m*k);b1,...(k*n)''))
      else case rbind (parse_dims (parts ! 0)) (\<lambda>dims.
                rbind (require (length dims = 3) (''matrix_mul dims must be '' @ in_quotes ''m,k,n'')) (\<lambda>_.
                rbind (parse_floats env (parts ! 1)) (\<lambda>a. rbind (parse_floats env (parts ! 2)) (\<lambda>b. Inr (dims, a, b))))) of
        Inl e \<Rightarrow> Some (Inl e)
      | Inr (dims, a, b) \<Rightarrow> formatted env (matmul env a b (dims ! 0) (dims ! 1) (dims ! 2)))"

definition wgsl_text :: "gpu_env \<Rightarrow> string \<Rightarrow> (string + string) option" where
  "wgsl_text env input =
     (case rbind (gp_job env input) (\<lambda>job.
        rbind (collect (\<lambda>s. ok_or (gp_b64_decode env s) ''input is not base64'') (wj_inputs job)) (\<lambda>inputs. Inr (job, inputs))) of
        Inl e \<Rightarrow> Some (Inl e)
      | Inr (job, inputs) \<Rightarrow>
          map_option (\<lambda>x. rbind x (\<lambda>out. Inr (gp_b64_encode env out)))
            (run_wgsl env (wj_source job) (wj_entry job) inputs (wj_output_len job) (wj_workgroups job)))"

definition unknown_kernel :: "string \<Rightarrow> string" where
  "unknown_kernel kname = ''unknown kernel '' @ in_quotes kname @ '' - available: '' @ join_with '', '' KERNELS"

definition execute_kernel :: "gpu_env \<Rightarrow> string \<Rightarrow> string \<Rightarrow> (string + string) option" where
  "execute_kernel env kname input =
     (if kname = ''vector_add'' then vector_add_text env input
      else if kname = ''matrix_mul'' then matrix_mul_text env input
      else if kname = ''wgsl'' then wgsl_text env input
      else Some (Inl (unknown_kernel kname)))"

section \<open>The runtime\<close>

type_synonym wgsl_outputs = "string \<Rightarrow> string option"

definition kernel_of :: "workload_spec \<Rightarrow> string + string" where
  "kernel_of spec =
     rbind (ok_or (ws_template spec) ''wgsl workload needs `template` = kernel name'') (\<lambda>kname.
     rbind (require (kname \<in> set KERNELS) (unknown_kernel kname)) (\<lambda>_. Inr kname))"

text \<open>The dispatch runs on a thread of its own, so a panic of it is an error of the run.\<close>

definition wgsl_run :: "gpu_env \<Rightarrow> string \<Rightarrow> workload_spec \<Rightarrow> (wgsl_outputs, string, string) hio" where
  "wgsl_run env workload_id spec outputs =
     (case kernel_of spec of
        Inl e \<Rightarrow> (Inl e, outputs)
      | Inr kname \<Rightarrow>
         (case execute_kernel env kname (case ws_command spec of [] \<Rightarrow> '''' | c # _ \<Rightarrow> c) of
            None \<Rightarrow> (Inl (gp_join_error env), outputs)
          | Some (Inl e) \<Rightarrow> (Inl e, outputs)
          | Some (Inr output) \<Rightarrow> (Inr workload_id, outputs(workload_id \<mapsto> output))))"

definition wgsl_logs :: "string \<Rightarrow> (wgsl_outputs, string, string) hio" where
  "wgsl_logs handle outputs = (Inr (case outputs handle of Some o1 \<Rightarrow> o1 | None \<Rightarrow> ''''), outputs)"

definition wgsl_destroy :: "string \<Rightarrow> (wgsl_outputs, string, unit) hio" where
  "wgsl_destroy handle outputs = (Inr (), outputs(handle := None))"

definition wgsl_runtime :: "gpu_env \<Rightarrow> wgsl_outputs runtime" where
  "wgsl_runtime env = \<lparr>rn_name = ''wgsl'', rn_supports = (\<lambda>h. (True, h)),
     rn_prepare = (\<lambda>spec. vbind (vlift (kernel_of spec)) (\<lambda>_. vret ())), rn_run = wgsl_run env,
     rn_wait = (\<lambda>handle. vret OutSucceeded), rn_logs = wgsl_logs, rn_metrics = (\<lambda>handle. vret default_metrics),
     rn_destroy = wgsl_destroy\<rparr>"

end
