(* ===== verification/Gpu_Theorems.thy ===== *)
theory Gpu_Theorems
  imports Gpu_Kernels
begin

text \<open>
  What the kernels compute. A device may run the invocations of a dispatch in any order: the sum and the matrix
  product come out all the same, whatever the arithmetic of the device is, since every element is written, by
  one value, and every read is in range.
\<close>

section \<open>Buffers\<close>

lemma unat_of_nat_small: "n < 2 ^ LENGTH('a) \<Longrightarrow> unat (of_nat n :: 'a::len word) = n"
  by (simp add: unat_of_nat)

lemma length_four: "length xs = 4 \<Longrightarrow> \<exists>a b c d. xs = [a, b, c, d]"
  by (auto simp: eval_nat_numeral length_Suc_conv)

lemma words_bytes_append: "words_of (to_le_bytes (w :: u32) @ bs) = w # words_of bs"
proof -
  have "length (to_le_bytes w) = 4" by (simp add: length_to_le_bytes)
  from length_four [OF this] obtain a b c d where e: "to_le_bytes w = [a, b, c, d]" by blast
  have "from_le_bytes (to_le_bytes w) = w" by (rule from_to_le_bytes) simp
  then show ?thesis unfolding e by simp
qed

lemma words_of_bytes [simp]: "words_of (bytes_of ws) = ws"
  unfolding bytes_of_def by (induction ws) (simp_all add: words_bytes_append)

section \<open>Writes in any order\<close>

text \<open>
  If every invocation writes at most one element, and the value of an element does not depend on who writes
  it, a run writes exactly the elements that some invocation is for.
\<close>

lemma fold_writes:
  assumes "\<And>g out. g \<in> set gs \<Longrightarrow> length out = n \<Longrightarrow>
      step g out = (case target g of Some j \<Rightarrow> out[j := f j] | None \<Rightarrow> out)"
    and "length out = n"
  shows "length (fold step gs out) = n \<and>
    (\<forall>j < n. fold step gs out ! j = (if Some j \<in> target ` set gs then f j else out ! j))"
  using assms
proof (induction gs arbitrary: out)
  case Nil
  then show ?case by simp
next
  case (Cons g gs)
  have s: "step g out = (case target g of Some j \<Rightarrow> out[j := f j] | None \<Rightarrow> out)" using Cons.prems by simp
  have l: "length (step g out) = n" using Cons.prems(2) s by (simp split: option.splits)
  from Cons.IH [of "step g out"] Cons.prems(1) l
  have ih: "length (fold step gs (step g out)) = n" 
    "\<And>j. j < n \<Longrightarrow> fold step gs (step g out) ! j = (if Some j \<in> target ` set gs then f j else step g out ! j)" by auto
  show ?case
  proof (intro conjI allI impI)
    show "length (fold step (g # gs) out) = n" using ih(1) by simp
    fix j assume j: "j < n"
    show "fold step (g # gs) out ! j = (if Some j \<in> target ` set (g # gs) then f j else out ! j)"
      using ih(2) [OF j] s j Cons.prems(2) by (cases "target g") (auto simp: nth_list_update)
  qed
qed

lemma fold_covers:
  assumes "\<And>g out. g \<in> set gs \<Longrightarrow> length out = n \<Longrightarrow>
      step g out = (case target g of Some j \<Rightarrow> out[j := f j] | None \<Rightarrow> out)"
    and "length out = n" and "\<And>j. j < n \<Longrightarrow> \<exists>g \<in> set gs. target g = Some j"
  shows "fold step gs out = map f [0..<n]"
proof -
  note w = fold_writes [where step = step and gs = gs and n = n and target = target and f = f and out = out, OF assms(1,2)]
  show ?thesis
  proof (rule nth_equalityI)
    show "length (fold step gs out) = length (map f [0..<n])" using w by simp
    fix j assume "j < length (fold step gs out)"
    then have j: "j < n" using w by simp
    then have "Some j \<in> target ` set gs" using assms(3) by (metis imageI)
    then show "fold step gs out ! j = map f [0..<n] ! j" using w j by simp
  qed
qed

text \<open>A device runs every invocation of a dispatch.\<close>

definition runs_all :: "gpu_env \<Rightarrow> bool" where
  "runs_all env \<longleftrightarrow> (\<forall>gs. mset (gp_schedule env gs) = mset gs)"

lemma runs_all_set: "runs_all env \<Longrightarrow> set (gp_schedule env gs) = set gs"
  unfolding runs_all_def by (metis set_mset_mset)

lemma in_invocations:
  assumes "x < unat wx * sx" and "y < unat wy * sy" and "z < unat wz * sz"
  shows "(of_nat x, of_nat y, of_nat z) \<in> set (invocations (wx, wy, wz) (sx, sy, sz))"
proof -
  have "x \<in> set [0..<unat wx * sx]" "y \<in> set [0..<unat wy * sy]" "z \<in> set [0..<unat wz * sz]" using assms by simp_all
  then show ?thesis unfolding invocations_def prod.case set_concat set_map image_image by blast
qed

section \<open>The number of workgroups\<close>

lemma nat_ceil: "0 < b \<Longrightarrow> (a + b - 1) div b = (if a mod b = 0 then a div b else a div b + 1)" for a b :: nat
proof -
  assume b: "0 < b"
  define q r where "q = a div b" and "r = a mod b"
  have a: "a = b * q + r" and r: "r < b" using b by (simp_all add: q_def r_def)
  show ?thesis
  proof (cases "r = 0")
    case True
    then have "a + b - 1 = b * q + (b - 1)" using a b by simp
    then have "(a + b - 1) div b = q" using b by (simp only: div_mult_self4) simp
    then show ?thesis using True by (simp add: q_def r_def)
  next
    case False
    then have "a + b - 1 = b * (q + 1) + (r - 1)" using a b by (simp add: algebra_simps)
    then have "(a + b - 1) div b = q + 1" using b r by (simp only: div_mult_self4) simp
    then show ?thesis using False by (simp add: q_def r_def)
  qed
qed

lemma unat_div_ceil:
  fixes a b :: "'a::len word"
  assumes "0 < b"
  shows "unat (div_ceil a b) = (unat a + unat b - 1) div unat b"
proof -
  have b: "0 < unat b" using assms by (simp add: unat_gt_0 word_gt_0)
  have d: "unat (a div b) = unat a div unat b" by (rule unat_div)
  have z: "a mod b = 0 \<longleftrightarrow> unat a mod unat b = 0" by (metis unat_0 unat_mod word_unat_eq_iff)
  show ?thesis
  proof (cases "a mod b = 0")
    case True
    then show ?thesis using nat_ceil [OF b] d z by (simp add: div_ceil_def)
  next
    case False
    then have m: "unat a mod unat b \<noteq> 0" using z by simp
    then have "unat b \<noteq> 1" by (metis mod_by_1)
    then have "1 < unat b" using b by simp
    moreover have "unat a \<noteq> 0" using m by (metis mod_0)
    ultimately have "unat a div unat b < unat a" by (intro div_less_dividend) auto
    moreover have "unat a < 2 ^ LENGTH('a)" by (rule unsigned_less)
    ultimately have "unat a div unat b + 1 < 2 ^ LENGTH('a)" by linarith
    then have "unat (a div b + 1) = unat a div unat b + 1"
      using unat_plus_exact [of "a div b" 1] d by simp
    then show ?thesis using nat_ceil [OF b] False z by (simp add: div_ceil_def)
  qed
qed

lemma div_ceil_covers:
  fixes a b :: "'a::len word"
  assumes "0 < b"
  shows "unat a \<le> unat (div_ceil a b) * unat b"
proof -
  have b: "0 < unat b" using assms by (simp add: unat_gt_0 word_gt_0)
  define q r where "q = unat a div unat b" and "r = unat a mod unat b"
  have e: "unat a = unat b * q + r" and r: "r < unat b" using b by (simp_all add: q_def r_def)
  have c: "unat (div_ceil a b) = (if r = 0 then q else q + 1)"
    unfolding unat_div_ceil [OF assms] nat_ceil [OF b] q_def r_def by simp
  show ?thesis
  proof (cases "r = 0")
    case True
    then show ?thesis using e c by (simp add: mult.commute)
  next
    case False
    then have "unat (div_ceil a b) * unat b = unat b * q + unat b" using c by (simp add: algebra_simps)
    then show ?thesis using e r by linarith
  qed
qed


section \<open>The sum of two vectors\<close>

lemma load_nth [simp]: "i < length xs \<Longrightarrow> i < 2 ^ 32 \<Longrightarrow> load env xs (of_nat i) = xs ! i"
  by (simp add: load_def unat_of_nat_small)

lemma gpu_run_in_limits:
  assumes "gp_failure env = None" and "wx \<le> gp_max_workgroups env" and "wy \<le> gp_max_workgroups env" and "wz \<le> gp_max_workgroups env"
  shows "gpu_run env shader wg inputs output_bytes (wx, wy, wz) =
    Some (Inr (fold (shader (bound_at (run_entries inputs))) (gp_schedule env (invocations (wx, wy, wz) wg)) (replicate (output_bytes div 4) 0)))"
  using assms by (simp add: gpu_run_def not_less)

lemma vector_add_exact:
  assumes "runs_all env" and "gp_failure env = None" and "65535 \<le> gp_max_workgroups env"
    and "length a = length b" and "a \<noteq> []" and "length a \<le> 65535 * 256"
  shows "vector_add env a b = Some (Inr (map2 (gp_add env) a b))"
proof -
  let ?n = "length a"
  let ?w = "div_ceil (of_nat ?n) 256 :: u32"
  let ?mem = "bound_at (run_entries [Storage (bytes_of a), Storage (bytes_of b)])"
  have n32: "?n < 2 ^ 32" using assms(6) by simp
  then have un: "unat (of_nat ?n :: u32) = ?n" by (simp add: unat_of_nat_small)
  have m: "?mem 0 = a" "?mem 1 = b" by (simp_all add: bound_at_def run_entries_def)
  have w: "unat ?w = (?n + 255) div 256" by (simp add: unat_div_ceil un)
  also have "\<dots> \<le> 65535" using assms(6) by linarith
  finally have "?w \<le> 65535" by (simp add: word_le_nat_alt)
  then have l: "?w \<le> gp_max_workgroups env" using assms(3) by simp
  have "(1 :: u32) \<le> 65535" by (simp add: word_le_nat_alt)
  then have l1: "1 \<le> gp_max_workgroups env" using assms(3) by (rule order_trans)
  let ?gs = "gp_schedule env (invocations (?w, 1, 1) (256, 1, 1))"
  have f: "fold (vector_add_main env ?mem) ?gs (replicate ?n 0) = map (\<lambda>j. gp_add env (a ! j) (b ! j)) [0..<?n]"
  proof (rule fold_covers [where target = "\<lambda>g. if unat (fst g) < ?n then Some (unat (fst g)) else None"])
    fix g :: invocation and out :: "u32 list"
    assume o: "length out = ?n"
    have "fst g < array_length out \<longleftrightarrow> unat (fst g) < ?n" using o un by (simp add: array_length_def word_less_nat_alt)
    then show "vector_add_main env ?mem g out =
        (case if unat (fst g) < ?n then Some (unat (fst g)) else None of
           Some j \<Rightarrow> out[j := gp_add env (a ! j) (b ! j)] | None \<Rightarrow> out)"
      using assms(4) by (simp add: vector_add_main_def Let_def m store_def load_def del: One_nat_def)
  next
    fix j assume j: "j < ?n"
    have "j < unat ?w * 256" using div_ceil_covers [of 256 "of_nat ?n :: u32"] un j by simp
    then have "(of_nat j, of_nat 0, of_nat 0) \<in> set (invocations (?w, 1, 1) (256, 1, 1))"
      by (intro in_invocations) simp_all
    then have "(of_nat j, 0, 0) \<in> set ?gs" using runs_all_set [OF assms(1)] by simp
    moreover have "unat (of_nat j :: u32) = j" using j n32 by (simp add: unat_of_nat_small)
    ultimately show "\<exists>g \<in> set ?gs. (if unat (fst g) < ?n then Some (unat (fst g)) else None) = Some j" using j by force
  qed simp
  have "vector_add env a b = Some (Inr (fold (vector_add_main env ?mem) ?gs (replicate ?n 0)))"
    using assms l l1 gpu_run_in_limits [of env ?w 1 1 "vector_add_main env" "(256, 1, 1)" "[Storage (bytes_of a), Storage (bytes_of b)]" "?n * 4"]
    by (simp add: vector_add_def MAX_ELEMENTS_def)
  moreover have "map (\<lambda>j. gp_add env (a ! j) (b ! j)) [0..<?n] = map2 (gp_add env) a b"
    using assms(4) by (intro nth_equalityI) simp_all
  ultimately show ?thesis using f by simp
qed

text \<open>
  A vector that is longer than one dispatch can cover passes the checks of the host and then panics: the limit of
  64 Mi elements is four times what the device takes.
\<close>

lemma long_vectors_panic:
  assumes "gp_max_workgroups env = 65535" and "length a = length b" and "65535 * 256 < length a" and "length a \<le> MAX_ELEMENTS"
  shows "vector_add env a b = None"
proof -
  let ?w = "div_ceil (of_nat (length a)) 256 :: u32"
  have "length a < 2 ^ 32" using assms(4) by (simp add: MAX_ELEMENTS_def)
  then have "unat ?w = (length a + 255) div 256" by (simp add: unat_div_ceil unat_of_nat_small)
  moreover have "65536 \<le> (length a + 255) div 256" using assms(3) by linarith
  ultimately have "65535 < ?w" by (simp add: word_less_nat_alt)
  moreover have "a \<noteq> []" using assms(3) by auto
  ultimately show ?thesis using assms by (simp add: vector_add_def gpu_run_def)
qed


section \<open>The product of two matrices\<close>

text \<open>The element of the product in a row and a column, summed from the left.\<close>

definition dot :: "gpu_env \<Rightarrow> u32 list \<Rightarrow> u32 list \<Rightarrow> nat \<Rightarrow> nat \<Rightarrow> nat \<Rightarrow> nat \<Rightarrow> u32" where
  "dot env a b k n r c = fold (\<lambda>i sum. gp_add env sum (gp_mul env (a ! (r * k + i)) (b ! (i * n + c)))) [0..<k] 0"

lemma unat_index:
  fixes x n y :: u32
  assumes "unat x < m" and "unat y < unat n" and "m * unat n < 2 ^ 32"
  shows "unat (x * n + y) = unat x * unat n + unat y" and "unat x * unat n + unat y < m * unat n"
proof -
  have "unat x + 1 \<le> m" using assms(1) by simp
  then have "(unat x + 1) * unat n \<le> m * unat n" by (rule mult_le_mono1)
  then show b: "unat x * unat n + unat y < m * unat n" using assms(2) by simp
  have p: "unat (x * n) = unat x * unat n" using b assms(3) unat_mult_exact [of x n] by simp
  then show "unat (x * n + y) = unat x * unat n + unat y" using b assms(3) unat_plus_exact [of "x * n" y] by simp
qed

lemma matmul_main_step:
  fixes m k n :: u32
  assumes "mem 0 = a" and "mem 1 = b" and "mem 3 = [m, k, n, 0]"
    and "length a = unat m * unat k" and "length b = unat k * unat n"
    and "unat m * unat k < 2 ^ 32" and "unat k * unat n < 2 ^ 32" and "unat m * unat n < 2 ^ 32"
  shows "matmul_main env mem (col, row, z) out =
     (if unat row < unat m \<and> unat col < unat n
      then out[unat row * unat n + unat col := dot env a b (unat k) (unat n) (unat row) (unat col)] else out)"
proof (cases "unat row < unat m \<and> unat col < unat n")
  case False
  then show ?thesis using assms(3) by (auto simp: matmul_main_def Let_def word_le_nat_alt)
next
  case True
  then have r: "unat row < unat m" and c: "unat col < unat n" by simp_all
  have "fold (\<lambda>i sum. gp_add env sum (gp_mul env (load env a (row * k + of_nat i)) (load env b (of_nat i * n + col)))) [0..<unat k] 0 =
      dot env a b (unat k) (unat n) (unat row) (unat col)"
    unfolding dot_def
  proof (rule fold_cong [OF refl refl], rule ext)
    fix i sum assume "i \<in> set [0..<unat k]"
    then have i: "i < unat k" by simp
    then have "i < 2 ^ 32" using unsigned_less [of k, where ?'a = nat] by simp
    then have ui: "unat (of_nat i :: u32) = i" by (simp add: unat_of_nat_small)
    have "load env a (row * k + of_nat i) = a ! (unat row * unat k + i)"
      using unat_index [of row "unat m" "of_nat i" k] r i ui assms(4,6) by (simp add: load_def)
    moreover have "load env b (of_nat i * n + col) = b ! (i * unat n + unat col)"
      using unat_index [of "of_nat i" "unat k" col n] c i ui assms(5,7) by (simp add: load_def)
    ultimately show "gp_add env sum (gp_mul env (load env a (row * k + of_nat i)) (load env b (of_nat i * n + col))) =
        gp_add env sum (gp_mul env (a ! (unat row * unat k + i)) (b ! (i * unat n + unat col)))" by simp
  qed
  then show ?thesis using True assms(1-3) unat_index(1) [OF r c assms(8)]
    by (simp add: matmul_main_def Let_def store_def word_le_nat_alt numeral_2_eq_2)
qed

lemma matmul_exact:
  fixes m k n :: u32
  assumes "runs_all env" and "gp_failure env = None" and "65535 \<le> gp_max_workgroups env"
    and "0 < m" and "0 < k" and "0 < n" and "length a = unat m * unat k" and "length b = unat k * unat n"
    and "unat m * unat k \<le> MAX_ELEMENTS" and "unat k * unat n \<le> MAX_ELEMENTS" and "unat m * unat n \<le> MAX_ELEMENTS"
    and "unat m \<le> 65535 * 16" and "unat n \<le> 65535 * 16"
  shows "matmul env a b m k n = Some (Inr (map (\<lambda>j. dot env a b (unat k) (unat n) (j div unat n) (j mod unat n)) [0..<unat m * unat n]))"
proof -
  let ?wx = "div_ceil n 16" and ?wy = "div_ceil m 16"
  let ?in = "[Storage (bytes_of a), Storage (bytes_of b), Uniform (bytes_of [m, k, n, 0])]"
  let ?mem = "bound_at (run_entries ?in)"
  let ?gs = "gp_schedule env (invocations (?wx, ?wy, 1) (16, 16, 1))"
  let ?f = "\<lambda>j. dot env a b (unat k) (unat n) (j div unat n) (j mod unat n)"
  let ?t = "\<lambda>g :: invocation. if unat (fst (snd g)) < unat m \<and> unat (fst g) < unat n
      then Some (unat (fst (snd g)) * unat n + unat (fst g)) else None"
  have mem: "?mem 0 = a" "?mem 1 = b" "?mem 3 = [m, k, n, 0]"
    by (simp_all add: bound_at_def run_entries_def numeral_2_eq_2)
  have small: "unat m * unat k < 2 ^ 32" "unat k * unat n < 2 ^ 32" "unat m * unat n < 2 ^ 32"
    using assms(9-11) by (simp_all add: MAX_ELEMENTS_def)
  have n0: "0 < unat n" using assms(6) by (simp add: unat_gt_0 word_gt_0)
  have "unat ?wx \<le> 65535" "unat ?wy \<le> 65535" using assms(12,13) by (simp_all add: unat_div_ceil)
  then have "?wx \<le> 65535" "?wy \<le> 65535" by (simp_all add: word_le_nat_alt)
  then have l: "?wx \<le> gp_max_workgroups env" "?wy \<le> gp_max_workgroups env" using assms(3) by auto
  have "(1 :: u32) \<le> 65535" by (simp add: word_le_nat_alt)
  then have l1: "1 \<le> gp_max_workgroups env" using assms(3) by (rule order_trans)
  note step = matmul_main_step [OF mem assms(7,8) small]
  have "fold (matmul_main env ?mem) ?gs (replicate (unat m * unat n) 0) = map ?f [0..<unat m * unat n]"
  proof (rule fold_covers [where target = ?t])
    fix g :: invocation and out :: "u32 list"
    obtain col row z where g: "g = (col, row, z)" by (cases g)
    show "matmul_main env ?mem g out = (case ?t g of Some j \<Rightarrow> out[j := ?f j] | None \<Rightarrow> out)"
      using n0 unfolding g step by simp
  next
    fix j assume j: "j < unat m * unat n"
    define r c where "r = j div unat n" and "c = j mod unat n"
    have jrc: "j = r * unat n + c" and c: "c < unat n" using n0 by (simp_all add: r_def c_def)
    have r: "r < unat m" using j n0 by (simp add: r_def less_mult_imp_div_less)
    have "c < unat ?wx * 16" "r < unat ?wy * 16"
      using div_ceil_covers [of 16 n] div_ceil_covers [of 16 m] c r by simp_all
    then have "(of_nat c, of_nat r, of_nat 0) \<in> set (invocations (?wx, ?wy, 1) (16, 16, 1))"
      by (intro in_invocations) simp_all
    then have "(of_nat c, of_nat r, of_nat 0) \<in> set ?gs" using runs_all_set [OF assms(1)] by simp
    moreover have "unat (of_nat c :: u32) = c" "unat (of_nat r :: u32) = r"
      using c r unsigned_less [of n, where ?'a = nat] unsigned_less [of m, where ?'a = nat]
      by (simp_all add: unat_of_nat_small)
    ultimately show "\<exists>g \<in> set ?gs. ?t g = Some j" using c r jrc by (intro bexI) simp_all
  qed simp
  moreover have "matmul env a b m k n = Some (Inr (fold (matmul_main env ?mem) ?gs (replicate (unat m * unat n) 0)))"
    using assms(2,4-11) l l1 gpu_run_in_limits [of env ?wx ?wy 1 "matmul_main env" "(16, 16, 1)" ?in "unat m * unat n * 4"]
    by (simp add: matmul_def Let_def word_gt_0)
  ultimately show ?thesis by simp
qed

section \<open>The lifecycle\<close>

interpretation wgsl: runtime_contract "wgsl_runtime env" "dom" for env
proof
  show "dom (snd (rn_prepare (wgsl_runtime env) spec h)) = dom h" for spec and h :: wgsl_outputs
    by (simp add: wgsl_runtime_def vbind_def vlift_def vret_def split: sum.splits)
  show "dom (snd (rn_wait (wgsl_runtime env) handle h)) = dom h" for handle and h :: wgsl_outputs
    by (simp add: wgsl_runtime_def vret_def)
  show "dom (snd (rn_logs (wgsl_runtime env) handle h)) = dom h" for handle and h :: wgsl_outputs
    by (simp add: wgsl_runtime_def wgsl_logs_def)
  show "dom (snd (rn_destroy (wgsl_runtime env) handle h)) = dom h - {handle}" for handle and h :: wgsl_outputs
    by (auto simp: wgsl_runtime_def wgsl_destroy_def)
  show "dom h' \<subseteq> dom h \<union> (case r of Inl _ \<Rightarrow> {} | Inr handle \<Rightarrow> {handle})"
    if "rn_run (wgsl_runtime env) workload_id spec h = (r, h')" for workload_id spec r and h h' :: wgsl_outputs
    using that by (auto simp: wgsl_runtime_def wgsl_run_def split: sum.splits option.splits)
qed

text \<open>
  The outputs are kept by the name of the job, which the consumer chooses: when two jobs of one name run at the
  same time, the first reads the output of the second.
\<close>

lemma outputs_are_mixed_up:
  assumes "fst (wgsl_run env jid spec1 outputs) = Inr jid" and "kernel_of spec2 = Inr kname"
    and "execute_kernel env kname (case ws_command spec2 of [] \<Rightarrow> '''' | c # _ \<Rightarrow> c) = Some (Inr secret)"
  shows "fst (wgsl_logs jid (snd (wgsl_run env jid spec2 (snd (wgsl_run env jid spec1 outputs))))) = Inr secret"
  using assms by (simp add: wgsl_run_def wgsl_logs_def)


section \<open>Properties\<close>


text \<open>A device with the arithmetic of the integers, which runs the invocations backwards.\<close>

definition demo_gpu :: gpu_env where
  "demo_gpu = \<lparr>gp_add = (+), gp_mul = (*), gp_outside = 0, gp_schedule = rev, gp_max_workgroups = 65535, gp_failure = None,
     gp_parse_f32 = parse_word, gp_show_f32 = show_word, gp_parse_wgsl = (\<lambda>_. Inl ''no parser''), gp_validate = (\<lambda>_. Inr ()),
     gp_user = (\<lambda>_ _ _ _ _ _. None), gp_job = (\<lambda>_. Inl ''no job''), gp_b64_decode = (\<lambda>_. None), gp_b64_encode = (\<lambda>_. ''''),
     gp_join_error = ''task panicked''\<rparr>"




text \<open>
  A shader of a caller runs within bounds. A job is either refused before it reaches the device, whatever
  the device would do, or it runs a source of at most 64 KiB that was parsed and validated, at a compute
  entry point it has, with as many inputs as it declares storage buffers but one, bound in ascending order, the
  output at the highest binding, all buffers at most 256 MiB and aligned, and each dimension of the dispatch
  between 1 and 65535.
\<close>
theorem user_shaders_bounded:
  "(\<exists>e. \<forall>device. run_wgsl (env\<lparr>gp_user := device\<rparr>) source entry inputs len groups = Some (Inl e)) \<or>
   (\<exists>md bs out wx wy wz. run_wgsl env source entry inputs len groups =
        gp_user env source entry (zip bs (map padded inputs)) out len groups \<and>
      length source \<le> 65536 \<and> gp_parse_wgsl env source = Inr md \<and> gp_validate env md = Inr () \<and>
      (entry, True) \<in> set (wm_entry_points md) \<and> storage_bindings md = bs @ [out] \<and> sorted (bs @ [out]) \<and>
      length bs = length inputs \<and> length inputs \<le> 8 \<and> 0 < len \<and> unat len \<le> 2 ^ 28 \<and> unat len mod 4 = 0 \<and>
      list_all (\<lambda>b. length b \<le> 2 ^ 28 \<and> length b mod 4 = 0) inputs \<and>
      groups = (wx, wy, wz) \<and> wx \<in> {1..65535} \<and> wy \<in> {1..65535} \<and> wz \<in> {1..65535})"
proof (cases "rbind (wgsl_checks source inputs len groups) (\<lambda>_. wgsl_bindings env source entry (length inputs))")
  case (Inl e)
  have "wgsl_bindings (env\<lparr>gp_user := device\<rparr>) source entry k = wgsl_bindings env source entry k" for device k
    by (simp add: wgsl_bindings_def)
  then show ?thesis using Inl by (simp add: run_wgsl_def)
next
  case (Inr storage)
  obtain wx wy wz where g: "groups = (wx, wy, wz)" by (cases groups)
  have c: "wgsl_checks source inputs len groups = Inr ()" and b: "wgsl_bindings env source entry (length inputs) = Inr storage"
    using Inr by (auto simp: result_iff)
  from b obtain md where md: "gp_parse_wgsl env source = Inr md" "gp_validate env md = Inr ()" "(entry, True) \<in> set (wm_entry_points md)"
    "storage_bindings md = storage" "storage \<noteq> []" "length storage = length inputs + 1"
    by (auto simp: wgsl_bindings_def result_iff)
  have m: "unat MAX_BUFFER_BYTES = 2 ^ 28" by (simp add: MAX_BUFFER_BYTES_def MAX_ELEMENTS_def)
  have l: "length source \<le> 65536" "0 < len" "unat len \<le> 2 ^ 28" "unat len mod 4 = 0" "length inputs \<le> 8"
    "list_all (\<lambda>b. length b \<le> 2 ^ 28) inputs" "list_all (\<lambda>b. length b mod 4 = 0) inputs"
    "0 < wx" "0 < wy" "0 < wz" "wx \<le> 65535" "wy \<le> 65535" "wz \<le> 65535"
    using c by (auto simp: wgsl_checks_def g result_iff MAX_WGSL_SOURCE_def COPY_BUFFER_ALIGNMENT_def MAX_WORKGROUPS_def m
        word_le_nat_alt [of len])
  have w: "wx \<in> {1..65535}" "wy \<in> {1..65535}" "wz \<in> {1..65535}"
    using l(8-13) by (simp_all add: word_le_nat_alt word_less_nat_alt)
  have s: "storage = butlast storage @ [last storage]" using md(5) by simp
  have "sorted storage" using md(4) unfolding storage_bindings_def by (metis sorted_sort)
  then have o: "sorted (butlast storage @ [last storage])" by (simp only: s [symmetric])
  have sb: "storage_bindings md = butlast storage @ [last storage]" unfolding md(4) by (rule s)
  have i: "list_all (\<lambda>b. length b \<le> 2 ^ 28 \<and> length b mod 4 = 0) inputs" using l(6,7) by (simp add: list_all_iff)
  have n: "length (butlast storage) = length inputs" using md(6) by simp
  have r: "run_wgsl env source entry inputs len groups =
      gp_user env source entry (zip (butlast storage) (map padded inputs)) (last storage) len groups"
    using Inr by (simp add: run_wgsl_def)
  show ?thesis
    by (rule disjI2, rule exI [of _ md], rule exI [of _ "butlast storage"], rule exI [of _ "last storage"],
        rule exI [of _ wx], rule exI [of _ wy], rule exI [of _ wz], intro conjI)
      (rule r l md sb o n i g w)+
qed

end
