(* ===== verification/Payout.thy ===== *)
theory Payout
  imports Solana
begin

text \<open>
  Where the earnings of a provider go: \<open>crates/cloudiy/src/payout.rs\<close> and \<open>crates/common/src/wallet.rs\<close>.
  The two files, and the lines the operator types, are the state; base58, the curve and ed25519 are
  parameters. What is printed is left out.
\<close>

section \<open>The configuration of the operator\<close>

record payout_box =
  bx_payout :: "string option"
  bx_wallet :: "string option"
  bx_input :: "string list"

text \<open>
  A read of the terminal may fail, and so may a write of the file, which then holds whatever was left of it.
\<close>

record payout_env =
  py_sol :: sol_env
  py_json_bytes :: "string \<Rightarrow> bytes option"
  py_wallet_path :: string
  py_config_path :: string
  py_terminal :: bool
  py_read_error :: "payout_box \<Rightarrow> string option"
  py_write_error :: "payout_box \<Rightarrow> (string \<times> string option) option"
  py_code :: "payout_box \<Rightarrow> string"

type_synonym 'a pio = "(payout_box, string, 'a) hio"

definition PAYOUT_BIND_DOMAIN :: bytes where
  "PAYOUT_BIND_DOMAIN = as_bytes ''cloudiy/payout-bind/v1''"

definition DONATE_SENTINEL :: string where
  "DONATE_SENTINEL = ''<no-payout>''"

section \<open>Addresses\<close>

definition validate_payout_address :: "sol_env \<Rightarrow> string \<Rightarrow> string + pubkey" where
  "validate_payout_address env s =
     rbind (ok_or (case parse_pubkey env (trim s) of Inr pk \<Rightarrow> Some pk | Inl _ \<Rightarrow> None) ''not a valid base58 Solana address'') (\<lambda>pk.
     rbind (require (is_on_curve env pk)
       ''address is off-curve - that is a program address (PDA), which cannot receive payments'') (\<lambda>_.
     Inr pk))"

text \<open>The public half of a wallet file.\<close>

definition load_pubkey :: "payout_env \<Rightarrow> payout_box \<Rightarrow> string + string" where
  "load_pubkey env bx =
     rbind (ok_or (bx_wallet bx) (''Solana keypair not found at '' @ py_wallet_path env)) (\<lambda>content.
     rbind (ok_or (py_json_bytes env content) ''not a JSON byte array'') (\<lambda>bs.
     rbind (require (length bs = 64) ''Invalid keypair length'') (\<lambda>_.
     Inr (so_b58_encode (py_sol env) (drop 32 bs)))))"

definition ok_address :: "sol_env \<Rightarrow> string \<Rightarrow> string option" where
  "ok_address env s = (case validate_payout_address env s of Inr pk \<Rightarrow> Some (pubkey_str env pk) | Inl _ \<Rightarrow> None)"

definition payout_load :: "payout_env \<Rightarrow> payout_box \<Rightarrow> string option" where
  "payout_load env bx =
     (case Option.bind (bx_payout bx) (\<lambda>s. ok_address (py_sol env) (trim s)) of
        Some a \<Rightarrow> Some a
      | None \<Rightarrow> (case load_pubkey env bx of Inl _ \<Rightarrow> None | Inr s \<Rightarrow> ok_address (py_sol env) s))"

definition payout_save :: "payout_env \<Rightarrow> string \<Rightarrow> unit pio" where
  "payout_save env address bx =
     (case validate_payout_address (py_sol env) address of
        Inl e \<Rightarrow> (Inl e, bx)
      | Inr pk \<Rightarrow>
         (case py_write_error env bx of
            Some (e, left_over) \<Rightarrow> (Inl e, bx\<lparr>bx_payout := left_over\<rparr>)
          | None \<Rightarrow> (Inr (), bx\<lparr>bx_payout := Some (pubkey_str (py_sol env) pk @ [CHR 0x0A])\<rparr>)))"

section \<open>The binding of a wallet\<close>

definition binding_message :: "string \<Rightarrow> bytes" where
  "binding_message code = PAYOUT_BIND_DOMAIN @ [of_char (CHR ''|'')] @ as_bytes code"

definition verify_binding_token :: "sol_env \<Rightarrow> ('k, 's) crypto \<Rightarrow> string \<Rightarrow> string \<Rightarrow> string + string" where
  "verify_binding_token env cr token code =
     rbind (ok_or (so_b58_decode env (trim token)) ''confirmation token is not valid base58'') (\<lambda>raw.
     rbind (require (length raw = 96) ''confirmation token has the wrong length (expected address + signature)'') (\<lambda>_.
     let address = take 32 raw; sig_bytes = drop 32 raw in
     rbind (require (is_on_curve env address) ''the connected address is off-curve and cannot receive payments'') (\<lambda>_.
     rbind (ok_or (cr_key_of_bytes cr address) ''the connected address is not a valid ed25519 key'') (\<lambda>vk.
     rbind (require (case cr_sig_of_bytes cr sig_bytes of Some s \<Rightarrow> cr_verify cr vk (binding_message code) s | None \<Rightarrow> False)
       ''signature does not match the connected address (or the code)'') (\<lambda>_.
     Inr (pubkey_str env address))))))"

section \<open>The first run\<close>

text \<open>A line of the terminal, \<open>None\<close> at its end.\<close>

definition read_line :: "payout_env \<Rightarrow> string option pio" where
  "read_line env bx =
     (case py_read_error env bx of
        Some e \<Rightarrow> (Inl e, bx)
      | None \<Rightarrow> (case bx_input bx of [] \<Rightarrow> (Inr None, bx) | l # ls \<Rightarrow> (Inr (Some l), bx\<lparr>bx_input := ls\<rparr>)))"

definition browser_pairing :: "payout_env \<Rightarrow> ('k, 's) crypto \<Rightarrow> string pio" where
  "browser_pairing env cr bx =
     (let code = py_code env bx in
      vbind (read_line env) (\<lambda>token.
      case token of
        None \<Rightarrow> vlift (Inl ''input closed before a token was pasted'')
      | Some t \<Rightarrow>
          vbind (vlift (verify_binding_token (py_sol env) cr (trim t) code)) (\<lambda>addr.
          vbind (payout_save env addr) (\<lambda>_. vret addr))) bx)"

definition save_typed :: "payout_env \<Rightarrow> pubkey \<Rightarrow> string pio" where
  "save_typed env pk =
     (let addr = pubkey_str (py_sol env) pk in vbind (payout_save env addr) (\<lambda>_. vret addr))"

definition wants_wallet :: "string \<Rightarrow> bool" where
  "wants_wallet line \<longleftrightarrow> map ascii_lower line = ''wallet''"

lemma input_of_save [simp]: "bx_input (snd (payout_save env a bx)) = bx_input bx"
  by (simp add: payout_save_def split: sum.splits option.splits)

lemma read_line_some: "read_line env bx = (Inr (Some l), bx') \<longleftrightarrow>
    py_read_error env bx = None \<and> (\<exists>ls. bx_input bx = l # ls \<and> bx' = bx\<lparr>bx_input := ls\<rparr>)"
  by (auto simp: read_line_def split: option.splits list.splits)

lemma read_line_shrinks: "length (bx_input (snd (read_line env bx))) \<le> length (bx_input bx)"
  by (simp add: read_line_def split: option.splits list.splits)

lemma pairing_shrinks: "length (bx_input (snd (browser_pairing env cr bx))) \<le> length (bx_input bx)"
proof -
  have v: "bx_input (snd (vbind (vlift r) (\<lambda>addr. vbind (payout_save env addr) (\<lambda>_. vret addr)) b)) = bx_input b"
    for r :: "string + string" and b
    by (cases r) (simp_all add: vbind_def vlift_def vret_def split: prod.splits sum.splits,
      metis input_of_save snd_conv)
  show ?thesis
    using read_line_shrinks [of env bx]
    by (auto simp: browser_pairing_def Let_def vbind_def [of "read_line env"] v vlift_def split: prod.splits sum.splits option.splits)
qed

lemma read_line_less: "read_line env bx = (Inr (Some l), bx1) \<Longrightarrow> length (bx_input bx1) < length (bx_input bx)"
  by (auto simp: read_line_some)

lemma pairing_le: "browser_pairing env cr bx = (r, bx1) \<Longrightarrow> length (bx_input bx1) \<le> length (bx_input bx)"
  using pairing_shrinks [of env cr bx] by simp

text \<open>The loop ends because every round takes a line.\<close>

function interactive_loop :: "payout_env \<Rightarrow> ('k, 's) crypto \<Rightarrow> string pio" where
  "interactive_loop env cr bx =
     (case read_line env bx of
        (Inl e, bx1) \<Rightarrow> (Inl e, bx1)
      | (Inr None, bx1) \<Rightarrow> (Inl ''input closed before a payout address was given'', bx1)
      | (Inr (Some l), bx1) \<Rightarrow>
         (let line = trim l in
          if line = [] then interactive_loop env cr bx1
          else if wants_wallet line then
            (case browser_pairing env cr bx1 of
               (Inr addr, bx2) \<Rightarrow> (Inr addr, bx2)
             | (Inl e, bx2) \<Rightarrow> interactive_loop env cr bx2)
          else (case validate_payout_address (py_sol env) line of
               Inr pk \<Rightarrow> save_typed env pk bx1
             | Inl e \<Rightarrow> interactive_loop env cr bx1)))"
  by pat_completeness auto

termination
  by (relation "measure (\<lambda>(env, cr, bx). length (bx_input bx))")
    (simp_all, metis read_line_less, metis le_less_trans pairing_le read_line_less, metis read_line_less)


declare interactive_loop.simps [simp del]

definition interactive_setup :: "payout_env \<Rightarrow> ('k, 's) crypto \<Rightarrow> string pio" where
  "interactive_setup = interactive_loop"

definition no_payout_text :: "payout_env \<Rightarrow> string" where
  "no_payout_text env = ''no payout address configured. Set one of: --payout <ADDRESS>, CLOUDIY_PAYOUT_ADDRESS=<ADDRESS>, write the base58 address to ''
     @ py_config_path env @ ''. To run without payments (donate compute), pass --no-payout.''"

definition payout_resolve :: "payout_env \<Rightarrow> ('k, 's) crypto \<Rightarrow> string option \<Rightarrow> string option \<Rightarrow> string pio" where
  "payout_resolve env cr flag var bx =
     (case (case flag of Some a \<Rightarrow> Some a | None \<Rightarrow> var) of
        Some a \<Rightarrow>
          vbind (vlift (validate_payout_address (py_sol env) a)) (\<lambda>pk.
          vbind (payout_save env (pubkey_str (py_sol env) pk)) (\<lambda>_.
          vret (pubkey_str (py_sol env) pk))) bx
      | None \<Rightarrow>
         (case payout_load env bx of
            Some a \<Rightarrow> (Inr a, bx)
          | None \<Rightarrow> if py_terminal env then interactive_setup env cr bx else (Inl (no_payout_text env), bx)))"

section \<open>What is resolved can be paid\<close>

text \<open>Documented behaviour of base58: decoding undoes encoding, and its alphabet has no white space.\<close>

definition base58_laws :: "sol_env \<Rightarrow> bool" where
  "base58_laws env \<longleftrightarrow> (\<forall>x. so_b58_decode env (so_b58_encode env x) = Some x \<and> list_all (\<lambda>c. \<not> is_space c) (so_b58_encode env x))"

definition receivable :: "sol_env \<Rightarrow> string \<Rightarrow> bool" where
  "receivable env a \<longleftrightarrow> (\<exists>pk. length pk = 32 \<and> is_on_curve env pk \<and> a = pubkey_str env pk)"

lemma trim_visible:
  assumes "list_all (\<lambda>c. \<not> is_space c) s"
  shows "trim s = s" "trim (s @ [CHR 0x0A]) = s"
proof -
  have n: "is_space (CHR 0x0A)" by (simp add: is_space_def)
  have r: "dropWhile is_space (rev s) = rev s"
    using assms by (cases s rule: rev_cases) (simp_all add: dropWhile_eq_Cons_conv)
  have d: "dropWhile is_space s = s" using assms by (cases s) simp_all
  show "trim s = s" using d r by (simp add: trim_def trim_start_def trim_end_def)
  have "dropWhile is_space (s @ [CHR 0x0A]) = (if s = [] then [] else s @ [CHR 0x0A])"
    using assms n by (cases s) simp_all
  then show "trim (s @ [CHR 0x0A]) = s"
    using n r by (simp add: trim_def trim_start_def trim_end_def)
qed

lemma validate_Inr:
  "validate_payout_address env s = Inr pk \<longleftrightarrow> so_b58_decode env (trim s) = Some pk \<and> length pk = 32 \<and> is_on_curve env pk"
  by (auto simp: validate_payout_address_def parse_pubkey_def result_iff split: sum.splits option.splits)

lemma receivable_pubkey: "validate_payout_address env s = Inr pk \<Longrightarrow> receivable env (pubkey_str env pk)"
  by (auto simp: validate_Inr receivable_def)

lemma receivable_ok: "ok_address env s = Some a \<Longrightarrow> receivable env a"
  by (auto simp: ok_address_def receivable_pubkey split: sum.splits)

lemma ok_address_of: "base58_laws env \<Longrightarrow> receivable env a \<Longrightarrow> trim s = a \<Longrightarrow> ok_address env s = Some a"
  by (auto simp: ok_address_def base58_laws_def receivable_def pubkey_str_def validate_Inr split: sum.splits)
    (metis Inr_not_Inl validate_Inr)+

lemma receivable_visible: "base58_laws env \<Longrightarrow> receivable env a \<Longrightarrow> list_all (\<lambda>c. \<not> is_space c) a"
  by (auto simp: base58_laws_def receivable_def pubkey_str_def)

text \<open>What is saved is what is loaded.\<close>

lemma saved_is_loaded:
  assumes laws: "base58_laws (py_sol env)" and a: "receivable (py_sol env) a" and s: "payout_save env a bx = (Inr u, bx')"
  shows "payout_load env bx' = Some a"
proof -
  have v: "list_all (\<lambda>c. \<not> is_space c) a" using laws a by (rule receivable_visible)
  have "ok_address (py_sol env) a = Some a" using ok_address_of [OF laws a] trim_visible(1) [OF v] by simp
  then have "bx_payout bx' = Some (a @ [CHR 0x0A])"
    using s by (auto simp: payout_save_def ok_address_def split: sum.splits option.splits prod.splits)
  moreover have "ok_address (py_sol env) (trim (a @ [CHR 0x0A])) = Some a"
    using ok_address_of [OF laws a] trim_visible [OF v] by simp
  ultimately show ?thesis by (simp add: payout_load_def)
qed

lemma saves_receivable: "payout_save env a bx = (Inr u, bx') \<Longrightarrow> \<exists>pk. validate_payout_address (py_sol env) a = Inr pk"
  by (auto simp: payout_save_def split: sum.splits)

text \<open>What an accepted token holds.\<close>

definition token_holds :: "sol_env \<Rightarrow> ('k, 's) crypto \<Rightarrow> string \<Rightarrow> string \<Rightarrow> pubkey \<Rightarrow> bytes \<Rightarrow> bool" where
  "token_holds env cr token code address sig_bytes \<longleftrightarrow>
     so_b58_decode env (trim token) = Some (address @ sig_bytes) \<and> length address = 32 \<and> length sig_bytes = 64 \<and>
     is_on_curve env address \<and>
     (\<exists>vk s. cr_key_of_bytes cr address = Some vk \<and> cr_sig_of_bytes cr sig_bytes = Some s \<and> cr_verify cr vk (binding_message code) s)"

lemma token_accepted:
  "verify_binding_token env cr token code = Inr a \<longleftrightarrow>
     (\<exists>address sig_bytes. token_holds env cr token code address sig_bytes \<and> a = pubkey_str env address)"
proof
  assume "verify_binding_token env cr token code = Inr a"
  then obtain raw vk where raw: "so_b58_decode env (trim token) = Some raw" "length raw = 96" "is_on_curve env (take 32 raw)"
    "cr_key_of_bytes cr (take 32 raw) = Some vk" "a = pubkey_str env (take 32 raw)"
    "case cr_sig_of_bytes cr (drop 32 raw) of Some s \<Rightarrow> cr_verify cr vk (binding_message code) s | None \<Rightarrow> False"
    by (auto simp: verify_binding_token_def result_iff Let_def)
  then have "token_holds env cr token code (take 32 raw) (drop 32 raw)"
    by (auto simp: token_holds_def split: option.splits)
  then show "\<exists>address sig_bytes. token_holds env cr token code address sig_bytes \<and> a = pubkey_str env address"
    using raw(5) by blast
qed (auto simp: token_holds_def verify_binding_token_def Let_def)

lemma token_receivable: "verify_binding_token env cr token code = Inr a \<Longrightarrow> receivable env a"
  by (auto simp: token_accepted token_holds_def receivable_def)

text \<open>A successful pairing or typed line has saved the address it gives.\<close>

definition saved_as :: "payout_env \<Rightarrow> string \<Rightarrow> payout_box \<Rightarrow> bool" where
  "saved_as env a bx' \<longleftrightarrow> receivable (py_sol env) a \<and> (\<exists>bx. payout_save env a bx = (Inr (), bx'))"

lemma pairing_saves: "browser_pairing env cr bx = (Inr a, bx') \<Longrightarrow> saved_as env a bx'"
  by (auto simp: browser_pairing_def saved_as_def result_iff Let_def intro: token_receivable split: option.splits)

lemma typed_saves: "validate_payout_address (py_sol env) l = Inr pk \<Longrightarrow> save_typed env pk bx = (Inr a, bx') \<Longrightarrow> saved_as env a bx'"
  by (auto simp: save_typed_def saved_as_def result_iff Let_def intro: receivable_pubkey)

text \<open>The rounds of the loop.\<close>

lemma loop_rounds:
  assumes "interactive_loop env cr bx = (r, bx')"
  obtains (read_error) e where "read_line env bx = (Inl e, bx')" "r = Inl e"
  | (closed) "read_line env bx = (Inr None, bx')" "r = Inl ''input closed before a payout address was given''"
  | (paired) l bx1 a where "read_line env bx = (Inr (Some l), bx1)" "wants_wallet (trim l)"
      "browser_pairing env cr bx1 = (Inr a, bx')" "r = Inr a"
  | (typed) l bx1 pk where "read_line env bx = (Inr (Some l), bx1)" "\<not> wants_wallet (trim l)" "trim l \<noteq> []"
      "validate_payout_address (py_sol env) (trim l) = Inr pk" "save_typed env pk bx1 = (r, bx')"
  | (again) bx1 where "length (bx_input bx1) < length (bx_input bx)" "interactive_loop env cr bx1 = (r, bx')"
proof -
  obtain x bx1 where x: "read_line env bx = (x, bx1)" by fastforce
  show thesis
  proof (cases "\<exists>l. x = Inr (Some l)")
    case False
    then show thesis using assms x read_error closed
      by (subst (asm) interactive_loop.simps) (auto split: sum.splits option.splits)
  next
    case True
    then obtain l where l: "read_line env bx = (Inr (Some l), bx1)" using x by blast
    have less: "length (bx_input bx1) < length (bx_input bx)" using l by (rule read_line_less)
    consider (empty) "trim l = []" | (wallet) "trim l \<noteq> []" "wants_wallet (trim l)"
      | (address) pk where "trim l \<noteq> []" "\<not> wants_wallet (trim l)" "validate_payout_address (py_sol env) (trim l) = Inr pk"
      | (invalid) e where "trim l \<noteq> []" "\<not> wants_wallet (trim l)" "validate_payout_address (py_sol env) (trim l) = Inl e"
      by (metis sum.exhaust)
    then show thesis
    proof cases
      case empty
      then show thesis using assms l less again by (subst (asm) interactive_loop.simps) simp
    next
      case wallet
      obtain p bx2 where p: "browser_pairing env cr bx1 = (p, bx2)" by fastforce
      then have "length (bx_input bx2) < length (bx_input bx)" using pairing_le less by fastforce
      then show thesis using assms l wallet p paired again
        by (subst (asm) interactive_loop.simps) (cases p, auto)
    next
      case address
      then show thesis using assms l typed by (subst (asm) interactive_loop.simps) simp
    next
      case invalid
      then show thesis using assms l less again by (subst (asm) interactive_loop.simps) simp
    qed
  qed
qed

lemma setup_saves: "interactive_loop env cr bx = (Inr a, bx') \<Longrightarrow> saved_as env a bx'"
proof (induction "length (bx_input bx)" arbitrary: bx rule: less_induct)
  case less
  from less.prems show ?case
    by (cases rule: loop_rounds) (auto intro: pairing_saves typed_saves less.hyps)
qed


lemma saved_receivable: "saved_as env a bx' \<Longrightarrow> receivable (py_sol env) a"
  by (simp add: saved_as_def)

lemma resolved_cases:
  assumes "payout_resolve env cr flag var bx = (Inr a, bx')"
  shows "saved_as env a bx' \<or> bx' = bx \<and> payout_load env bx = Some a"
  using assms
  by (auto simp: payout_resolve_def interactive_setup_def saved_as_def result_iff
      intro: setup_saves [unfolded saved_as_def] receivable_pubkey split: option.splits if_splits)
    (metis receivable_pubkey setup_saves saved_as_def)+

lemma loaded_receivable: "payout_load env bx = Some a \<Longrightarrow> receivable (py_sol env) a"
  by (auto simp: payout_load_def receivable_ok bind_eq_Some_conv split: option.splits sum.splits)

text \<open>
  C35. The address a provider announces can receive money: it is the text of a 32-byte point of the curve, so
  never a program address, whichever of the flag, the environment, the stored file, the wallet file, the
  terminal or the browser it came from; an address given by flag or environment is the one used. And it is
  kept: a restart without flags resolves to the same address and asks nothing, as long as base58 reads back
  what it wrote.
\<close>
theorem payout_is_receivable:
  assumes laws: "base58_laws (py_sol env)"
    and resolved: "payout_resolve env cr flag var bx = (Inr a, bx')"
  shows "(\<exists>pk. length pk = 32 \<and> is_on_curve (py_sol env) pk \<and> a = pubkey_str (py_sol env) pk \<and>
      (\<forall>given. (flag = Some given \<or> flag = None \<and> var = Some given) \<longrightarrow> so_b58_decode (py_sol env) (trim given) = Some pk)) \<and>
    payout_resolve env cr' None None bx' = (Inr a, bx')"
proof (intro conjI)
  have "receivable (py_sol env) a"
    using resolved_cases [OF resolved] by (auto dest: saved_receivable loaded_receivable)
  then obtain pk where pk: "length pk = 32" "is_on_curve (py_sol env) pk" "a = pubkey_str (py_sol env) pk"
    by (auto simp: receivable_def)
  have "so_b58_decode (py_sol env) (trim given) = Some pk" if "flag = Some given \<or> flag = None \<and> var = Some given" for given
  proof -
    from that resolved obtain pk' where p: "validate_payout_address (py_sol env) given = Inr pk'" "a = pubkey_str (py_sol env) pk'"
      by (auto simp: payout_resolve_def result_iff)
    then have "pk' = pk" using laws pk(3) by (auto simp: base58_laws_def pubkey_str_def dest: option.inject [THEN iffD1] arg_cong [of _ _ "so_b58_decode (py_sol env)"])
    then show ?thesis using p(1) by (simp add: validate_Inr)
  qed
  then show "\<exists>pk. length pk = 32 \<and> is_on_curve (py_sol env) pk \<and> a = pubkey_str (py_sol env) pk \<and>
      (\<forall>given. (flag = Some given \<or> flag = None \<and> var = Some given) \<longrightarrow> so_b58_decode (py_sol env) (trim given) = Some pk)"
    using pk by blast
next
  have "payout_load env bx' = Some a"
    using resolved_cases [OF resolved] saved_is_loaded [OF laws] by (auto simp: saved_as_def)
  then show "payout_resolve env cr' None None bx' = (Inr a, bx')" by (simp add: payout_resolve_def)
qed

text \<open>
  A confirmation token is accepted exactly when it is the base58 text of a point of the curve followed by
  a signature which that key verifies for the code of this pairing. The message signed determines the code,
  and is none of the messages a node, a directory or a wallet signs for another purpose, so no other
  signature of the wallet can be turned into a binding.
\<close>
theorem binding_proves_control:
  "(verify_binding_token env cr token code = Inr a \<longleftrightarrow>
     (\<exists>address sig_bytes. token_holds env cr token code address sig_bytes \<and> a = pubkey_str env address)) \<and>
   (binding_message code = binding_message code' \<longleftrightarrow> code = code') \<and>
   binding_message code \<noteq> signing_payload cr job inp out \<and>
   binding_message code \<noteq> announce_signing_payload t payload \<and>
   binding_message code \<noteq> reputation_signing_payload t payload \<and>
   binding_message code \<noteq> run_auth_message cr job_bytes inp t \<and>
   binding_message code \<noteq> VOLUME_KEY_DOMAIN"
proof (intro conjI)
  have heads: "take 9 (binding_message code) = as_bytes ''cloudiy/p''" "take 9 VOLUME_KEY_DOMAIN = as_bytes ''cloudiy/v''"
    by (simp_all add: binding_message_def PAYOUT_BIND_DOMAIN_def VOLUME_KEY_DOMAIN_def as_bytes_def)
  show "(verify_binding_token env cr token code = Inr a) =
      (\<exists>address sig_bytes. token_holds env cr token code address sig_bytes \<and> a = pubkey_str env address)"
    by (rule token_accepted)
  show "(binding_message code = binding_message code') = (code = code')" by (simp add: binding_message_def)
  have ne: "as_bytes ''cloudiy/p'' \<noteq> as_bytes ''cloudiy/r''" "as_bytes ''cloudiy/p'' \<noteq> as_bytes ''cloudiy/a''"
    "as_bytes ''cloudiy/p'' \<noteq> as_bytes ''cloudiy/e''" "as_bytes ''cloudiy/p'' \<noteq> as_bytes ''cloudiy/v''" by simp_all
  show "binding_message code \<noteq> signing_payload cr job inp out" "binding_message code \<noteq> announce_signing_payload t payload"
    "binding_message code \<noteq> reputation_signing_payload t payload" "binding_message code \<noteq> run_auth_message cr job_bytes inp t"
    "binding_message code \<noteq> VOLUME_KEY_DOMAIN"
    using heads domain_heads ne by metis+
qed


lemma trim_trim: "trim (trim s) = trim s"
proof (cases "trim s = []")
  case True
  have "trim [] = []" by (simp add: trim_def trim_start_def trim_end_def)
  then show ?thesis using True by simp
next
  case False
  define u where "u = dropWhile is_space s"
  define v where "v = dropWhile is_space (rev u)"
  have s: "trim s = rev v" by (simp add: trim_def trim_start_def trim_end_def u_def v_def)
  then have ne: "v \<noteq> []" using False by simp
  then have "u \<noteq> []" by (auto simp: v_def)
  then have "\<not> is_space (hd u)" unfolding u_def by (rule hd_dropWhile)
  moreover have "last v = hd u"
  proof -
    have "\<exists>p. rev u = p @ v" unfolding v_def by (metis takeWhile_dropWhile_id)
    then show ?thesis using ne by (metis hd_rev last_appendR rev_rev_ident)
  qed
  moreover have "\<not> is_space (hd v)" using ne unfolding v_def by (rule hd_dropWhile)
  ultimately show ?thesis using s ne by (simp add: trim_id hd_rev last_rev)
qed

text \<open>What a line of the dialogue counts for.\<close>

definition typed_address :: "sol_env \<Rightarrow> string \<Rightarrow> string option" where
  "typed_address env l = (if trim l = [] then None else ok_address env l)"


text \<open>A machine to run the code on: base58 is a number in unary between marks.\<close>

definition demo_encode :: "bytes \<Rightarrow> string" where
  "demo_encode bs = concat (map (\<lambda>b. replicate (unat b) (CHR ''1'') @ ''2'') bs)"

fun demo_decode :: "nat \<Rightarrow> string \<Rightarrow> bytes" where
  "demo_decode n [] = []"
| "demo_decode n (c # cs) = (if c = CHR ''2'' then word_of_nat n # demo_decode 0 cs else demo_decode (n + 1) cs)"

lemma demo_decode_encode: "demo_decode 0 (demo_encode bs) = bs"
proof (induction bs)
  case Nil
  show ?case by (simp add: demo_encode_def)
next
  case (Cons b bs)
  have "demo_decode n (replicate k (CHR ''1'') @ CHR ''2'' # rest) = word_of_nat (n + k) # demo_decode 0 rest" for n k rest
    by (induction k arbitrary: n) simp_all
  then show ?case using Cons by (simp add: demo_encode_def)
qed

definition demo_payout :: payout_env where
  "demo_payout = \<lparr>py_sol = \<lparr>so_sha256 = id, so_decompresses = (\<lambda>bs. hd bs \<noteq> 0), so_b58_decode = (\<lambda>s. Some (demo_decode 0 s)),
      so_b58_encode = demo_encode, so_b64_decode = (\<lambda>_. None), so_b64_encode = (\<lambda>_. []), so_hex_decode = (\<lambda>_. None),
      so_uuid = (\<lambda>_. []), so_http = (\<lambda>_ _. Inl [])\<rparr>,
     py_json_bytes = (\<lambda>_. None), py_wallet_path = ''id.json'', py_config_path = ''payout'', py_terminal = True,
     py_read_error = (\<lambda>_. None), py_write_error = (\<lambda>_. None), py_code = (\<lambda>_. ''c'')\<rparr>"

lemma demo_payout_laws: "base58_laws (py_sol demo_payout)"
  by (simp add: base58_laws_def demo_payout_def demo_decode_encode) (simp add: demo_encode_def list_all_iff is_space_def)

definition demo_address :: string where
  "demo_address = demo_encode (replicate 32 1)"

definition demo_operator :: payout_box where
  "demo_operator = \<lparr>bx_payout = None, bx_wallet = None, bx_input = ['''', ''2'', demo_address @ [CHR 0x0A]]\<rparr>"

lemma demo_address: "demo_address = CHR ''1'' # CHR ''2'' # demo_encode (replicate 31 1)"
proof -
  have "replicate 32 (1 :: u8) = 1 # replicate 31 1" by (simp add: numeral_eq_Suc)
  then show ?thesis by (simp add: demo_address_def demo_encode_def)
qed

lemma demo_trim: "trim demo_address = demo_address" "trim (demo_address @ [CHR 0x0A]) = demo_address"
  by (rule trim_visible; simp add: demo_address_def demo_encode_def list_all_iff is_space_def)+

lemma demo_lines:
  "trim '''' = ''''" "trim ''2'' = ''2''" "\<not> wants_wallet demo_address" "\<not> wants_wallet ''2''" "demo_address \<noteq> []"
  by (simp_all add: trim_def trim_start_def trim_end_def is_space_def wants_wallet_def demo_address ascii_lower_def)

lemma demo_validates:
  "validate_payout_address (py_sol demo_payout) demo_address = Inr (replicate 32 1)"
  "\<exists>e. validate_payout_address (py_sol demo_payout) ''2'' = Inl e"
  by (simp_all add: validate_payout_address_def parse_pubkey_def demo_payout_def demo_trim demo_lines is_on_curve_def rbind_def
      require_def ok_or_def demo_trim [unfolded demo_address_def] demo_address_def demo_decode_encode)

lemma demo_resolves:
  "payout_resolve demo_payout toy_crypto None None demo_operator =
     (Inr demo_address, \<lparr>bx_payout = Some (demo_address @ [CHR 0x0A]), bx_wallet = None, bx_input = []\<rparr>)"
proof -
  obtain e where e: "validate_payout_address (py_sol demo_payout) ''2'' = Inl e" using demo_validates by blast
  have r: "read_line demo_payout \<lparr>bx_payout = None, bx_wallet = None, bx_input = l # ls\<rparr> =
      (Inr (Some l), \<lparr>bx_payout = None, bx_wallet = None, bx_input = ls\<rparr>)" for l ls
    by (simp add: read_line_def demo_payout_def)
  have s: "pubkey_str (py_sol demo_payout) (replicate 32 1) = demo_address"
    by (simp add: pubkey_str_def demo_payout_def demo_address_def)
  have k: "save_typed demo_payout (replicate 32 1) \<lparr>bx_payout = None, bx_wallet = None, bx_input = []\<rparr> =
      (Inr demo_address, \<lparr>bx_payout = Some (demo_address @ [CHR 0x0A]), bx_wallet = None, bx_input = []\<rparr>)"
  proof -
    have "py_write_error demo_payout b = None" for b by (simp add: demo_payout_def)
    then show ?thesis by (simp add: save_typed_def s payout_save_def demo_validates vbind_def vret_def)
  qed
  have l: "payout_load demo_payout demo_operator = None"
    by (simp add: payout_load_def demo_operator_def load_pubkey_def ok_or_def rbind_def)
  have "interactive_loop demo_payout toy_crypto demo_operator =
     (Inr demo_address, \<lparr>bx_payout = Some (demo_address @ [CHR 0x0A]), bx_wallet = None, bx_input = []\<rparr>)"
    unfolding demo_operator_def
    by (subst interactive_loop.simps, simp add: r demo_lines, subst interactive_loop.simps, simp add: r demo_lines e,
        subst interactive_loop.simps, simp add: r demo_lines demo_trim demo_validates k)
  then show ?thesis using l by (simp add: payout_resolve_def interactive_setup_def) (simp add: demo_payout_def)
qed

lemma payout_is_receivable_witness:
  "\<exists>bx'. payout_resolve demo_payout toy_crypto None None demo_operator = (Inr demo_address, bx') \<and>
     payout_resolve demo_payout toy_crypto None None bx' = (Inr demo_address, bx')"
  using payout_is_receivable [OF demo_payout_laws demo_resolves] demo_resolves by blast



end
