(* ===== verification/Node_Keys.thy ===== *)
theory Node_Keys
  imports Rust_Text History_Io
begin

text \<open>
  The keys of a machine, \<open>crates/common/src/keys.rs\<close>: one file per role, made on the first run. The disk is
  the state, with the mode of each key file; hex decoding, the random bytes and the failures of the disk are
  parameters.
\<close>

section \<open>The files\<close>

record key_file =
  kf_text :: string
  kf_private :: bool

type_synonym key_disk = "string \<Rightarrow> key_file option"

datatype disk_op = ReadKey | MakeDir | WriteKey | RestrictMode

record key_env =
  ke_home :: string
  ke_hex_decode :: "string \<Rightarrow> bytes option"
  ke_fresh :: bytes
  ke_fault :: "disk_op \<Rightarrow> string \<Rightarrow> string option"
  ke_unix :: bool
  ke_directory_key :: "string option"

definition config_dir :: "key_env \<Rightarrow> string" where
  "config_dir env = ke_home env @ ''/.config/cloudiy''"

definition node_key_path :: "key_env \<Rightarrow> string" where
  "node_key_path env = config_dir env @ ''/node.key''"

section \<open>Loading and creating\<close>

definition load_key :: "key_env \<Rightarrow> string \<Rightarrow> key_file \<Rightarrow> string + bytes" where
  "load_key env path f =
     (case ke_fault env ReadKey path of
        Some e \<Rightarrow> Inl (''reading node key at '' @ path @ '': '' @ e)
      | None \<Rightarrow>
         rbind (ok_or (ke_hex_decode env (trim (kf_text f))) ''node.key is not valid hex'') (\<lambda>bs.
         rbind (require (length bs = 32) ''node.key must be exactly 32 bytes'') (\<lambda>_. Inr bs)))"

text \<open>The file is written first, and made private only then.\<close>

definition create_key :: "key_env \<Rightarrow> string \<Rightarrow> (key_disk, string, bytes) hio" where
  "create_key env path d =
     (case (ke_fault env MakeDir (config_dir env), ke_fault env WriteKey path) of
        (Some e, _) \<Rightarrow> (Inl e, d)
      | (None, Some e) \<Rightarrow> (Inl (''writing node key to '' @ path @ '': '' @ e), d)
      | (None, None) \<Rightarrow>
         (let d1 = d(path \<mapsto> \<lparr>kf_text = hex_encode (ke_fresh env), kf_private = False\<rparr>) in
          if \<not> ke_unix env then (Inr (ke_fresh env), d1)
          else case ke_fault env RestrictMode path of
              Some e \<Rightarrow> (Inl e, d1)
            | None \<Rightarrow> (Inr (ke_fresh env), d1(path \<mapsto> \<lparr>kf_text = hex_encode (ke_fresh env), kf_private = True\<rparr>))))"

definition load_or_create_key :: "key_env \<Rightarrow> string \<Rightarrow> (key_disk, string, bytes) hio" where
  "load_or_create_key env path d =
     (case d path of Some f \<Rightarrow> (load_key env path f, d) | None \<Rightarrow> create_key env path d)"

definition load_or_create_node_key :: "key_env \<Rightarrow> (key_disk, string, bytes) hio" where
  "load_or_create_node_key env = load_or_create_key env (node_key_path env)"

definition load_or_create_client_key :: "key_env \<Rightarrow> (key_disk, string, bytes) hio" where
  "load_or_create_client_key env = load_or_create_key env (config_dir env @ ''/client.key'')"

definition managed_key :: "key_env \<Rightarrow> string \<Rightarrow> string + bytes" where
  "managed_key env hex =
     rbind (ok_or (ke_hex_decode env hex) ''CLOUDIY_DIRECTORY_KEY must be hex'') (\<lambda>bs.
     rbind (require (length bs = 32) ''CLOUDIY_DIRECTORY_KEY must be 32 bytes (64 hex chars)'') (\<lambda>_. Inr bs))"

definition load_or_create_directory_key :: "key_env \<Rightarrow> (key_disk, string, bytes) hio" where
  "load_or_create_directory_key env =
     (case ke_directory_key env of
        Some v \<Rightarrow>
          if trim v \<noteq> [] then vlift (managed_key env (trim v))
          else load_or_create_key env (config_dir env @ ''/directory.key'')
      | None \<Rightarrow> load_or_create_key env (config_dir env @ ''/directory.key''))"

section \<open>A stable identity\<close>

text \<open>Documented behaviour of hex and of the random generator.\<close>

definition key_laws :: "key_env \<Rightarrow> bool" where
  "key_laws env \<longleftrightarrow> (\<forall>bs. ke_hex_decode env (hex_encode bs) = Some bs) \<and> length (ke_fresh env) = 32"

lemma hex_visible: "trim (hex_encode bs) = hex_encode bs"
proof (cases "hex_encode bs = []")
  case True
  then show ?thesis by (simp add: trim_def trim_start_def trim_end_def)
next
  case False
  have d: "\<not> is_space (hex_digit n)" if "n < 16" for n
  proof
    assume "is_space (hex_digit n)"
    then have "digit_val 16 (hex_digit n) = None" by (auto simp: is_space_def digit_val_def Let_def)
    then show False using hex_digit_val [OF that] by simp
  qed
  have "\<not> is_space c" if c: "c \<in> set (hex_encode bs)" for c
  proof -
    obtain b where "c \<in> set (hex_byte b)" using c by (auto simp: hex_encode_def)
    moreover have "unat b div 16 < 16" "unat b mod 16 < 16" using unsigned_less [of b, where ?'a = nat] by auto
    ultimately show ?thesis using d by (auto simp: hex_byte_def)
  qed
  then show ?thesis using False by (intro trim_id) simp_all
qed

lemma create_key_Inr:
  assumes "create_key env path d = (Inr k, d')"
  shows "k = ke_fresh env \<and> (\<exists>p. d' = d(path \<mapsto> \<lparr>kf_text = hex_encode (ke_fresh env), kf_private = p\<rparr>))"
proof -
  have "ke_fault env MakeDir (config_dir env) = None" "ke_fault env WriteKey path = None"
    using assms by (simp_all add: create_key_def split: option.splits)
  with assms show ?thesis
    by (cases "ke_unix env"; cases "ke_fault env RestrictMode path") (simp_all add: create_key_def Let_def, blast+)
qed

text \<open>
  The identity of a machine is stable. Whether the key was read or made, its file holds it from then on
  and every later start gets the same 32 bytes, as long as the file can be read; other files are left alone.
\<close>
theorem identity_is_stable:
  assumes laws: "key_laws env" "key_laws env'" and r: "load_or_create_key env path d = (Inr k, d')"
    and readable: "ke_fault env' ReadKey path = None" and same: "ke_hex_decode env' = ke_hex_decode env"
  shows "length k = 32 \<and> load_or_create_key env' path d' = (Inr k, d') \<and> (\<forall>q. q \<noteq> path \<longrightarrow> d' q = d q)"
proof (cases "d path")
  case (Some f)
  then have "load_key env path f = Inr k" "d' = d" using r by (simp_all add: load_or_create_key_def)
  then have "load_key env' path f = Inr k" "length k = 32"
    using readable same by (auto simp: load_key_def result_iff split: option.splits)
  then show ?thesis using Some \<open>d' = d\<close> by (simp add: load_or_create_key_def)
next
  case None
  then have "create_key env path d = (Inr k, d')" using r by (simp add: load_or_create_key_def)
  then obtain p where d': "d' = d(path \<mapsto> \<lparr>kf_text = hex_encode (ke_fresh env), kf_private = p\<rparr>)" and k: "k = ke_fresh env"
    using create_key_Inr by blast
  have "load_key env' path \<lparr>kf_text = hex_encode (ke_fresh env), kf_private = p\<rparr> = Inr k" "length k = 32"
    using laws readable k by (simp_all add: load_key_def hex_visible key_laws_def)
  then show ?thesis by (simp add: load_or_create_key_def d')
qed

text \<open>The roles of a machine have keys of their own.\<close>

lemma roles_do_not_share:
  "distinct [node_key_path env, config_dir env @ ''/client.key'', config_dir env @ ''/directory.key'']"
  by (simp add: node_key_path_def)

text \<open>
  When the mode cannot be restricted the run fails, but the key is on the disk for everyone to read, and the
  next run uses it without a word.
\<close>

lemma exposed_key_is_used:
  assumes "key_laws env" and "d path = None" "ke_unix env" and "ke_fault env RestrictMode path = Some e"
    and "\<forall>p. ke_fault env MakeDir p = None \<and> ke_fault env WriteKey p = None \<and> ke_fault env ReadKey p = None"
  shows "\<exists>d' f. load_or_create_key env path d = (Inl e, d') \<and> d' path = Some f \<and> \<not> kf_private f \<and>
     load_or_create_key env path d' = (Inr (ke_fresh env), d')"
  using assms(2-) by (simp add: load_or_create_key_def create_key_def load_key_def Let_def hex_visible assms(1) [unfolded key_laws_def])


text \<open>A first start and a restart.\<close>

fun unhex :: "string \<Rightarrow> bytes option" where
  "unhex (a # b # cs) =
     Option.bind (digit_val 16 a) (\<lambda>h. Option.bind (digit_val 16 b) (\<lambda>l. map_option ((#) (of_nat (16 * h + l))) (unhex cs)))"
| "unhex [] = Some []"
| "unhex [_] = None"

lemma unhex_hex: "unhex (hex_encode bs) = Some bs"
proof (induction bs)
  case Nil
  show ?case by (simp add: hex_encode_def)
next
  case (Cons b bs)
  have lt: "unat b div 16 < 16" "unat b mod 16 < 16" using unsigned_less [of b, where ?'a = nat] by auto
  have "of_nat (16 * (unat b div 16) + unat b mod 16) = b" by (simp del: of_nat_add of_nat_mult)
  then show ?case using Cons hex_digit_val [OF lt(1)] hex_digit_val [OF lt(2)]
    by (simp add: hex_encode_def hex_byte_def del: of_nat_add of_nat_mult)
qed

definition demo_keys :: key_env where
  "demo_keys = \<lparr>ke_home = ''/home/a'', ke_hex_decode = unhex, ke_fresh = replicate 32 7, ke_fault = (\<lambda>_ _. None),
     ke_unix = True, ke_directory_key = None\<rparr>"

lemma identity_is_stable_witness:
  "\<exists>d. load_or_create_key demo_keys ''node.key'' d = (Inr (replicate 32 7), d) \<and> d ''node.key'' \<noteq> None"
proof -
  have laws: "key_laws demo_keys" by (simp add: key_laws_def demo_keys_def unhex_hex)
  let ?d = "Map.empty(''node.key'' \<mapsto> \<lparr>kf_text = hex_encode (replicate 32 7), kf_private = True\<rparr>) :: key_disk"
  have "load_or_create_key demo_keys ''node.key'' Map.empty = (Inr (replicate 32 7), ?d)"
    by (simp add: load_or_create_key_def create_key_def demo_keys_def Let_def)
  from identity_is_stable [OF laws laws this]
  have "load_or_create_key demo_keys ''node.key'' ?d = (Inr (replicate 32 7), ?d)"
    by (simp add: demo_keys_def)
  then show ?thesis by (intro exI [of _ ?d]) simp
qed

end
