(* ===== verification/Volumes.thy ===== *)
theory Volumes
  imports Solana Rust_Search Node_Keys
begin

text \<open>
  The parts of \<open>crates/cloudiy/src/volume.rs\<close> that belong to the consumer: the key of the encrypted snapshots and
  the declarative environment. TOML and the reader derived from the data types are a parameter.
\<close>

section \<open>The key\<close>

definition volume_key :: "vm_env \<Rightarrow> keypair \<Rightarrow> bytes \<Rightarrow> bytes" where
  "volume_key env wallet owner_id =
     (let sig = kp_sign wallet VOLUME_KEY_DOMAIN in volume_key_from_signature env sig owner_id)"

text \<open>\<open>cloudiy volume sig\<close>: the line that is handed to a provider.\<close>

definition volume_sig :: "keypair \<Rightarrow> string" where
  "volume_sig kp = (let sig = kp_sign kp VOLUME_KEY_DOMAIN in ''CLOUDIY_VOLUME_KEY_SIG='' @ hex_encode sig)"

section \<open>The environment\<close>

record volume_repo =
  rp_url :: string
  rp_ref :: string

record volume_manifest =
  vo_image :: "string option"
  vo_apt :: "string list"
  vo_pipx :: "string list"
  vo_dotfiles :: "(string, string) btree_map"
  vo_repos :: "(string, volume_repo) btree_map"
  vo_secrets :: "string option"

definition default_ref :: string where
  "default_ref = ''main''"

definition parse_volume :: "(string \<Rightarrow> string + volume_manifest) \<Rightarrow> string \<Rightarrow> string + volume_manifest" where
  "parse_volume from_toml text = (case from_toml text of Inr v \<Rightarrow> Inr v | Inl e \<Rightarrow> Inl ''parsing cloudiy.volume.toml'')"

definition check_dotfile :: "(string \<Rightarrow> string) \<Rightarrow> string \<times> string \<Rightarrow> string + unit" where
  "check_dotfile show_debug = (\<lambda>(path, src).
     rbind (require (path \<noteq> []) ''dotfile path must not be empty'') (\<lambda>_.
     require (starts_with src ''inline:'' \<or> starts_with src ''git:'' \<or> contains_str src ''://'')
       (''dotfile '' @ show_debug path @ '' source must be inline:, git:, or a URL'')))"

definition check_repo :: "(string \<Rightarrow> string) \<Rightarrow> string \<times> volume_repo \<Rightarrow> string + unit" where
  "check_repo show_debug = (\<lambda>(dest, repo).
     rbind (require (dest \<noteq> []) ''repo destination must not be empty'') (\<lambda>_.
     require (contains_str (rp_url repo) ''://'' \<or> starts_with (rp_url repo) ''git@'')
       (''repo '' @ show_debug dest @ '' url must be a URL or scp-style git remote'')))"

fun check_each :: "('a \<Rightarrow> string + unit) \<Rightarrow> 'a list \<Rightarrow> string + unit" where
  "check_each f [] = Inr ()"
| "check_each f (x # xs) = rbind (f x) (\<lambda>_. check_each f xs)"

definition validate_volume :: "(string \<Rightarrow> string) \<Rightarrow> volume_manifest \<Rightarrow> string + unit" where
  "validate_volume show_debug vo =
     rbind (check_each (check_dotfile show_debug) (vo_dotfiles vo)) (\<lambda>_.
     rbind (check_each (check_repo show_debug) (vo_repos vo)) (\<lambda>_. Inr ()))"

text \<open>\<open>cloudiy volume check\<close>.\<close>

definition volume_check ::
  "(string \<Rightarrow> string + volume_manifest) \<Rightarrow> (string \<Rightarrow> string) \<Rightarrow> string \<Rightarrow> string option \<Rightarrow> string + string" where
  "volume_check from_toml show_debug path content =
     rbind (ok_or content (''reading manifest '' @ path)) (\<lambda>text.
     rbind (parse_volume from_toml text) (\<lambda>vo.
     rbind (validate_volume show_debug vo) (\<lambda>_.
     Inr (path @ '' is a valid cloudiy.volume.toml'' @
       (case vo_image vo of Some img \<Rightarrow> CHR 0x0A # ''   base image: '' @ img | None \<Rightarrow> '''') @
       CHR 0x0A # ''   '' @ show_nat (length (vo_apt vo) + length (vo_pipx vo)) @ '' package(s), '' @
       show_nat (length (vo_dotfiles vo)) @ '' dotfile(s), '' @ show_nat (length (vo_repos vo)) @ '' repo(s)'' @
       (if vo_secrets vo \<noteq> None then '', encrypted secrets blob'' else '''')))))"

section \<open>What holds\<close>

lemma check_each_Inr: "check_each f xs = Inr u \<longleftrightarrow> (\<forall>x \<in> set xs. f x = Inr ())"
  by (induction xs) (auto simp: result_iff)

lemma hex_pairs_hex: "hex_pairs (hex_encode bs) = Some bs"
proof (induction bs)
  case Nil
  show ?case by (simp add: hex_encode_def)
next
  case (Cons b bs)
  have lt: "unat b div 16 < 16" "unat b mod 16 < 16" "unat b < 256" using unsigned_less [of b, where ?'a = nat] by auto
  have "parse_radix 16 256 (hex_byte b) = Some (unat b)"
  proof -
    have "hex_digit (unat b div 16) \<noteq> CHR ''+''"
    proof
      assume "hex_digit (unat b div 16) = CHR ''+''"
      then have "digit_val 16 (CHR ''+'') = Some (unat b div 16)" using hex_digit_val [OF lt(1)] by simp
      then show False by (simp add: digit_val_def)
    qed
    moreover have "unat b div 16 * 16 + unat b mod 16 = unat b" by simp
    ultimately show ?thesis using hex_digit_val [OF lt(1)] hex_digit_val [OF lt(2)] lt
      by (simp add: parse_radix_def hex_byte_def)
  qed
  then show ?case using Cons by (simp add: hex_encode_def hex_byte_def)
qed

lemma validate_volume_Inr:
  "validate_volume show_debug vo = Inr () \<longleftrightarrow>
     (\<forall>(path, src) \<in> set (vo_dotfiles vo). path \<noteq> [] \<and>
        (starts_with src ''inline:'' \<or> starts_with src ''git:'' \<or> contains_str src ''://'')) \<and>
     (\<forall>(dest, repo) \<in> set (vo_repos vo). dest \<noteq> [] \<and> (contains_str (rp_url repo) ''://'' \<or> starts_with (rp_url repo) ''git@''))"
  by (auto simp: validate_volume_def check_dotfile_def check_repo_def check_each_Inr result_iff)

text \<open>
  The line \<open>cloudiy volume sig\<close> prints is the key to the snapshots: a provider that is given its value
  opens the repository of an owner with the password which the wallet itself derives for that owner.
  Signatures of a wallet have 64 bytes.
\<close>
theorem signature_opens_the_snapshots:
  assumes given: "''CLOUDIY_VOLUME_KEY_SIG='' @ value = volume_sig wallet" and var: "ve_var env ''CLOUDIY_VOLUME_KEY_SIG'' = Some value"
    and len: "length (kp_sign wallet VOLUME_KEY_DOMAIN) = 64"
  shows "snapshot_password env owner = Inr (restic_password (volume_key env wallet (as_bytes owner)))"
proof -
  have v: "value = hex_encode (kp_sign wallet VOLUME_KEY_DOMAIN)" using given by (simp add: volume_sig_def Let_def)
  then have "hex_decode_64 (trim value) = Some (kp_sign wallet VOLUME_KEY_DOMAIN)"
    using len by (simp add: hex_visible hex_decode_64_def hex_pairs_hex)
  then show ?thesis using var by (simp add: snapshot_password_def volume_key_def Let_def)
qed

text \<open>Any text with the mark of a URL in it passes, such as a transport of git that runs a command.\<close>

lemma a_command_passes_for_a_url:
  "validate_volume id \<lparr>vo_image = None, vo_apt = [], vo_pipx = [], vo_dotfiles = [],
     vo_repos = [(''r'', \<lparr>rp_url = ''ext::sh -c id ://'', rp_ref = default_ref\<rparr>)], vo_secrets = None\<rparr> = Inr ()"
  by (simp add: validate_volume_Inr) code_simp

end
