(* ===== verification/Vm_Account.thy ===== *)
theory Vm_Account
  imports Escrow_Theorems
begin

text \<open>
  The manifest contract, \<open>contracts/programs/cloudiy-vm/src/lib.rs\<close>: one small account per wallet, written and
  closed by its owner only. The checks of the \<open>Accounts\<close> structures come first, as Anchor generates them;
  address derivation and the rent of an account are parameters. An instruction that fails changes nothing.
\<close>

section \<open>The account\<close>

definition MAX_MANIFEST :: nat where
  "MAX_MANIFEST = 1024"

definition manifest_space :: nat where
  "manifest_space = 8 + 32 + 4 + 8 + 1 + 4 + MAX_MANIFEST"

record vm_manifest =
  mf_owner :: pubkey
  mf_version :: u32
  mf_updated_at :: i64
  mf_bump :: u8
  mf_data :: bytes

datatype manifest_error = MissingSignature | WrongSeeds | NotInitialized | WrongOwner | NoFunds | TooLarge

record manifest_chain =
  mc_manifests :: "pubkey \<Rightarrow> vm_manifest option"
  mc_lamports :: "pubkey \<Rightarrow> nat"

definition vm_seeds :: "pubkey \<Rightarrow> bytes list" where
  "vm_seeds owner = [as_bytes ''vm'', owner]"

definition manifest_address :: "runtime \<Rightarrow> pubkey \<Rightarrow> pubkey" where
  "manifest_address rt owner = fst (rt_find_pda rt (vm_seeds owner))"

section \<open>The instructions\<close>

definition blank_manifest :: vm_manifest where
  "blank_manifest = \<lparr>mf_owner = replicate 32 0, mf_version = 0, mf_updated_at = 0, mf_bump = 0, mf_data = []\<rparr>"

text \<open>\<open>init_if_needed\<close>: an account made here is paid up to its rent by the owner.\<close>

definition init_if_needed :: "(nat \<Rightarrow> nat) \<Rightarrow> pubkey \<Rightarrow> pubkey \<Rightarrow> manifest_chain \<Rightarrow> manifest_error + (vm_manifest \<times> manifest_chain)" where
  "init_if_needed rent payer key ch =
     (case mc_manifests ch key of
        Some m \<Rightarrow> Inr (m, ch)
      | None \<Rightarrow>
         (let due = rent manifest_space - mc_lamports ch key in
          rbind (require (due \<le> mc_lamports ch payer) NoFunds) (\<lambda>_.
          Inr (blank_manifest, ch\<lparr>mc_lamports := (mc_lamports ch)(payer := mc_lamports ch payer - due, key := mc_lamports ch key + due)\<rparr>))))"

definition set_manifest ::
  "runtime \<Rightarrow> (nat \<Rightarrow> nat) \<Rightarrow> pubkey set \<Rightarrow> i64 \<Rightarrow> pubkey \<Rightarrow> pubkey \<Rightarrow> bytes \<Rightarrow> manifest_chain \<Rightarrow> manifest_error + manifest_chain" where
  "set_manifest rt rent signers now owner key data ch =
     rbind (require (owner \<in> signers) MissingSignature) (\<lambda>_.
     rbind (require (key = manifest_address rt owner) WrongSeeds) (\<lambda>_.
     rbind (init_if_needed rent owner key ch) (\<lambda>(m, ch).
     rbind (require (length data \<le> MAX_MANIFEST) TooLarge) (\<lambda>_.
     Inr (ch\<lparr>mc_manifests := (mc_manifests ch)(key \<mapsto>
       \<lparr>mf_owner = owner, mf_version = saturating_add (mf_version m) 1, mf_updated_at = now,
        mf_bump = snd (rt_find_pda rt (vm_seeds owner)), mf_data = data\<rparr>)\<rparr>)))))"

definition close_manifest :: "runtime \<Rightarrow> pubkey set \<Rightarrow> pubkey \<Rightarrow> pubkey \<Rightarrow> manifest_chain \<Rightarrow> manifest_error + manifest_chain" where
  "close_manifest rt signers owner key ch =
     rbind (require (owner \<in> signers) MissingSignature) (\<lambda>_.
     rbind (ok_or (mc_manifests ch key) NotInitialized) (\<lambda>m.
     rbind (require (rt_create_pda rt (vm_seeds owner @ [[mf_bump m]]) = Some key) WrongSeeds) (\<lambda>_.
     rbind (require (mf_owner m = owner) WrongOwner) (\<lambda>_.
     Inr \<lparr>mc_manifests = (mc_manifests ch)(key := None),
          mc_lamports = (mc_lamports ch)(owner := mc_lamports ch owner + mc_lamports ch key, key := 0)\<rparr>))))"

section \<open>The life of the accounts\<close>

text \<open>
  A transaction carries its signers. The rest of the chain moves lamports as it likes, out of a wallet or
  into an account.
\<close>

inductive manifest_step :: "runtime \<Rightarrow> (nat \<Rightarrow> nat) \<Rightarrow> pubkey set \<Rightarrow> manifest_chain \<Rightarrow> manifest_chain \<Rightarrow> bool" for rt rent where
  step_set: "set_manifest rt rent signers now owner key data ch = Inr ch' \<Longrightarrow> manifest_step rt rent signers ch ch'"
| step_close: "close_manifest rt signers owner key ch = Inr ch' \<Longrightarrow> manifest_step rt rent signers ch ch'"
| step_transfer: "mc_manifests ch' = mc_manifests ch \<Longrightarrow> manifest_step rt rent signers ch ch'"

inductive manifest_reachable :: "runtime \<Rightarrow> (nat \<Rightarrow> nat) \<Rightarrow> manifest_chain \<Rightarrow> bool" for rt rent where
  nothing_yet: "mc_manifests ch = Map.empty \<Longrightarrow> manifest_reachable rt rent ch"
| one_more: "manifest_reachable rt rent ch \<Longrightarrow> manifest_step rt rent signers ch ch' \<Longrightarrow> manifest_reachable rt rent ch'"

definition manifest_ok :: "runtime \<Rightarrow> pubkey \<Rightarrow> vm_manifest \<Rightarrow> bool" where
  "manifest_ok rt key m \<longleftrightarrow> key = manifest_address rt (mf_owner m) \<and> mf_bump m = snd (rt_find_pda rt (vm_seeds (mf_owner m))) \<and>
     length (mf_data m) \<le> MAX_MANIFEST \<and> mf_version m \<noteq> 0"

lemma set_manifest_Inr:
  "set_manifest rt rent signers now owner key data ch = Inr ch' \<Longrightarrow>
     owner \<in> signers \<and> key = manifest_address rt owner \<and> length data \<le> MAX_MANIFEST \<and>
     (\<exists>v. mc_manifests ch' = (mc_manifests ch)(key \<mapsto> \<lparr>mf_owner = owner, mf_version = saturating_add v 1, mf_updated_at = now,
        mf_bump = snd (rt_find_pda rt (vm_seeds owner)), mf_data = data\<rparr>) \<and>
        v = (case mc_manifests ch key of Some m \<Rightarrow> mf_version m | None \<Rightarrow> 0))"
  by (auto simp: set_manifest_def result_iff init_if_needed_def blank_manifest_def Let_def split: option.splits)

lemma close_manifest_Inr:
  "close_manifest rt signers owner key ch = Inr ch' \<Longrightarrow>
     owner \<in> signers \<and> (\<exists>m. mc_manifests ch key = Some m \<and> mf_owner m = owner) \<and> mc_manifests ch' = (mc_manifests ch)(key := None)"
  by (auto simp: close_manifest_def result_iff)

lemma next_version: "saturating_add (v :: u32) 1 \<noteq> 0"
proof -
  have "unat (saturating_add v 1) \<noteq> 0" by (simp add: unat_saturating_add)
  then show ?thesis by auto
qed

lemma reachable_ok: "manifest_reachable rt rent ch \<Longrightarrow> mc_manifests ch key = Some m \<Longrightarrow> manifest_ok rt key m"
proof (induction arbitrary: key m rule: manifest_reachable.induct)
  case (one_more ch signers ch')
  from one_more(2) show ?case
  proof cases
    case (step_set now owner k data)
    then show ?thesis using set_manifest_Inr [OF step_set] one_more.IH one_more.prems next_version
      by (auto simp: manifest_ok_def split: if_splits)
  next
    case (step_close owner k)
    then show ?thesis using close_manifest_Inr [OF step_close] one_more.IH one_more.prems by (auto split: if_splits)
  next
    case step_transfer
    then show ?thesis using one_more.IH one_more.prems by simp
  qed
qed simp


lemma manifest_address_inject: "pda_laws rt \<Longrightarrow> manifest_address rt a = manifest_address rt b \<longleftrightarrow> a = b"
  by (fastforce simp: pda_laws_def manifest_address_def vm_seeds_def)

text \<open>
  C37. A manifest belongs to the wallet its address is derived from. Nothing a transaction without that
  wallet's signature does, whoever sends it, changes, replaces or closes it; and every write of the owner
  raises the version by one, up to the largest, so the later of two writes is the one with the higher version.
\<close>
theorem manifest_belongs_to_owner:
  assumes laws: "pda_laws rt" and reach: "manifest_reachable rt rent ch" and stp: "manifest_step rt rent signers ch ch'"
    and m: "mc_manifests ch (manifest_address rt w) = Some m"
  shows "mf_owner m = w \<and> length (mf_data m) \<le> 1024 \<and>
    (w \<notin> signers \<longrightarrow> mc_manifests ch' (manifest_address rt w) = Some m) \<and>
    (\<forall>m'. mc_manifests ch' (manifest_address rt w) = Some m' \<and> m' \<noteq> m \<longrightarrow>
       unat (mf_version m') = min (unat (mf_version m) + 1) (2 ^ 32 - 1))"
proof -
  have ok: "manifest_ok rt (manifest_address rt w) m" using reach m by (rule reachable_ok)
  then have w: "mf_owner m = w" "length (mf_data m) \<le> 1024"
    using manifest_address_inject [OF laws] by (auto simp: manifest_ok_def MAX_MANIFEST_def)
  from stp show ?thesis
  proof cases
    case (step_set now owner k data)
    note s = set_manifest_Inr [OF step_set]
    show ?thesis
    proof (cases "owner = w")
      case True
      then show ?thesis using s w m by (auto simp: unat_saturating_add)
    next
      case False
      then have "k \<noteq> manifest_address rt w" using s manifest_address_inject [OF laws] by auto
      then show ?thesis using s w m by auto
    qed
  next
    case (step_close owner k)
    then show ?thesis using close_manifest_Inr [OF step_close] w m by (auto split: if_splits)
  next
    case step_transfer
    then show ?thesis using w m by simp
  qed
qed

text \<open>
  The version counts the writes of one account only: after a close it starts again at one, so a device that
  still has the old manifest has the higher version.
\<close>

lemma closing_restarts_the_version:
  assumes "set_manifest rt rent signers now owner key data ch = Inr ch'" "mc_manifests ch key = None"
  shows "\<exists>m. mc_manifests ch' key = Some m \<and> mf_version m = 1"
proof -
  have "saturating_add (0 :: u32) 1 = 1" by (simp add: saturating_add_def)
  then show ?thesis using set_manifest_Inr [OF assms(1)] assms(2) by (auto simp del: One_nat_def)
qed

text \<open>Closing returns the rent.\<close>

lemma closing_returns_the_rent:
  assumes laws: "pda_laws rt" and ne: "owner \<noteq> key" and fresh: "mc_manifests ch key = None" "mc_lamports ch key = 0"
    and s: "set_manifest rt rent signers now owner key data ch = Inr ch'"
  shows "\<exists>ch''. close_manifest rt signers owner key ch' = Inr ch'' \<and> mc_lamports ch'' owner = mc_lamports ch owner \<and>
     mc_manifests ch'' key = None"
proof -
  have k: "key = manifest_address rt owner" "owner \<in> signers" using set_manifest_Inr [OF s] by auto
  have "rt_create_pda rt (vm_seeds owner @ [[snd (rt_find_pda rt (vm_seeds owner))]]) = Some key"
    using laws k by (simp add: pda_laws_def manifest_address_def)
  moreover obtain m where m: "mc_manifests ch' key = Some m" "mf_owner m = owner" "mf_bump m = snd (rt_find_pda rt (vm_seeds owner))"
    using set_manifest_Inr [OF s] by auto
  ultimately have "close_manifest rt signers owner key ch' = Inr \<lparr>mc_manifests = (mc_manifests ch')(key := None),
      mc_lamports = (mc_lamports ch')(owner := mc_lamports ch' owner + mc_lamports ch' key, key := 0)\<rparr>"
    using k by (simp add: close_manifest_def require_def)
  moreover have "mc_lamports ch' owner + mc_lamports ch' key = mc_lamports ch owner"
    using s ne fresh by (auto simp: set_manifest_def init_if_needed_def result_iff Let_def)
  ultimately show ?thesis using ne by simp
qed

text \<open>The wallet 1 writes, and the wallet 2 closes its own account.\<close>

definition two_manifests :: manifest_chain where
  "two_manifests = \<lparr>mc_manifests = Map.empty, mc_lamports = (\<lambda>_. 5000)\<rparr>"

lemma manifest_belongs_to_owner_witness:
  "\<exists>ch m. mc_manifests ch (manifest_address ledger_runtime [1]) = Some m \<and> mf_owner m = [1] \<and>
     (\<forall>ch'. manifest_step ledger_runtime (\<lambda>_. 1000) {[2]} ch ch' \<longrightarrow> mc_manifests ch' (manifest_address ledger_runtime [1]) = Some m)"
proof -
  let ?k = "manifest_address ledger_runtime [1]"
  obtain ch where ch: "set_manifest ledger_runtime (\<lambda>_. 1000) {[1]} 7 [1] ?k [] two_manifests = Inr ch"
    by (simp add: set_manifest_def require_def init_if_needed_def two_manifests_def Let_def)
  then obtain m where m: "mc_manifests ch ?k = Some m" using set_manifest_Inr [OF ch] by auto
  have "manifest_reachable ledger_runtime (\<lambda>_. 1000) two_manifests" by (rule nothing_yet) (simp add: two_manifests_def)
  then have r: "manifest_reachable ledger_runtime (\<lambda>_. 1000) ch" using step_set [OF ch] by (rule one_more)
  have "mf_owner m = [1]"
    using manifest_belongs_to_owner [OF ledger_laws(2) r step_transfer [of ch ch] m] by simp
  moreover have "mc_manifests ch' ?k = Some m" if "manifest_step ledger_runtime (\<lambda>_. 1000) {[2]} ch ch'" for ch'
    using manifest_belongs_to_owner [OF ledger_laws(2) r that m] by simp
  ultimately show ?thesis using m by blast
qed

end
