(* ===== verification/Session_Pump.thy ===== *)
theory Session_Pump
  imports P2p
begin

text \<open>
  An interactive session, \<open>crates/cloudiy/src/session.rs\<close> on the provider and \<open>shell\<close> of
  \<open>crates/cloudiy/src/client.rs\<close> on the other side. The provider runs three tasks beside the main loop, joined
  by bounded channels; a step is one action of one of them, or of the shell or the client.
\<close>

section \<open>The state of a pump\<close>

text \<open>The reader reads the terminal, then fetches the exit code, then has sent it.\<close>

datatype reader_phase = Reading | Reaped "i32 option" | ReaderDone "i32 option"

text \<open>\<open>pm_read\<close> and \<open>pm_client\<close> record everything that was read from the shell and received from the client.\<close>

record pump =
  pm_reader :: reader_phase
  pm_read :: "bytes list"
  pm_out :: "session_frame list"
  pm_sent :: "session_frame list"
  pm_loop :: bool
  pm_client :: "session_frame list"
  pm_arriving :: "session_frame list"
  pm_feed :: bool
  pm_data :: "bytes list"
  pm_writer :: bool
  pm_typed :: "bytes list"
  pm_resize :: "(u16 \<times> u16) list"
  pm_sizes :: "(u16 \<times> u16) list"

definition OUT_CHANNEL :: nat where "OUT_CHANNEL = 256"
definition RESIZE_CHANNEL :: nat where "RESIZE_CHANNEL = 16"
definition READ_BUFFER :: nat where "READ_BUFFER = 8192"

definition pump_start :: pump where
  "pump_start = \<lparr>pm_reader = Reading, pm_read = [], pm_out = [], pm_sent = [], pm_loop = True, pm_client = [], pm_arriving = [],
     pm_feed = True, pm_data = [], pm_writer = True, pm_typed = [], pm_resize = [], pm_sizes = []\<rparr>"

text \<open>Up to fifty looks at the process, twenty milliseconds apart.\<close>

datatype poll = ChildExited u32 | ChildRuns | ChildLost

fun reap :: "nat \<Rightarrow> poll list \<Rightarrow> i32 option" where
  "reap (Suc n) (ChildExited code # _) = Some code"
| "reap (Suc n) (ChildRuns # ps) = reap n ps"
| "reap _ _ = None"

section \<open>Its steps\<close>

inductive pump_step :: "pump \<Rightarrow> pump \<Rightarrow> bool" where
  shell_prints: "pm_reader p = Reading \<Longrightarrow> d \<noteq> [] \<Longrightarrow> length d \<le> READ_BUFFER \<Longrightarrow> length (pm_out p) < OUT_CHANNEL \<Longrightarrow>
     pump_step p (p\<lparr>pm_read := pm_read p @ [d], pm_out := pm_out p @ [FData d]\<rparr>)"
| shell_ends: "pm_reader p = Reading \<Longrightarrow> pump_step p (p\<lparr>pm_reader := Reaped (reap 50 polls)\<rparr>)"
| exit_queued: "pm_reader p = Reaped c \<Longrightarrow> length (pm_out p) < OUT_CHANNEL \<Longrightarrow>
     pump_step p (p\<lparr>pm_reader := ReaderDone c, pm_out := pm_out p @ [FExit c]\<rparr>)"
| frame_sent: "pm_loop p \<Longrightarrow> pm_out p = f # fs \<Longrightarrow>
     pump_step p (p\<lparr>pm_sent := pm_sent p @ [f], pm_out := fs, pm_loop := (\<nexists>c. f = FExit c)\<rparr>)"
| send_fails: "pm_loop p \<Longrightarrow> pm_out p = f # fs \<Longrightarrow> pump_step p (p\<lparr>pm_out := fs, pm_loop := False\<rparr>)"
| out_closed: "pm_loop p \<Longrightarrow> pm_out p = [] \<Longrightarrow> pm_reader p = ReaderDone c \<Longrightarrow> pump_step p (p\<lparr>pm_loop := False\<rparr>)"
| resized: "pm_loop p \<Longrightarrow> pm_resize p = s # ss \<Longrightarrow> pump_step p (p\<lparr>pm_resize := ss, pm_sizes := pm_sizes p @ [s]\<rparr>)"
| client_sends: "pump_step p (p\<lparr>pm_client := pm_client p @ [f], pm_arriving := pm_arriving p @ [f]\<rparr>)"
| feed_data: "pm_feed p \<Longrightarrow> pm_arriving p = FData d # fs \<Longrightarrow> pm_writer p \<Longrightarrow> length (pm_data p) < OUT_CHANNEL \<Longrightarrow>
     pump_step p (p\<lparr>pm_arriving := fs, pm_data := pm_data p @ [d]\<rparr>)"
| feed_resize: "pm_feed p \<Longrightarrow> pm_arriving p = FResize cols rows # fs \<Longrightarrow> length (pm_resize p) < RESIZE_CHANNEL \<Longrightarrow>
     pump_step p (p\<lparr>pm_arriving := fs, pm_resize := pm_resize p @ [(cols, rows)]\<rparr>)"
| feed_skips: "pm_feed p \<Longrightarrow> pm_arriving p = f # fs \<Longrightarrow> (\<exists>c. f = FExit c) \<or> (\<exists>msg. f = FError msg) \<Longrightarrow>
     pump_step p (p\<lparr>pm_arriving := fs\<rparr>)"
| feed_ends: "pm_feed p \<Longrightarrow> pump_step p (p\<lparr>pm_feed := False\<rparr>)"
| types: "pm_writer p \<Longrightarrow> pm_data p = d # ds \<Longrightarrow> pump_step p (p\<lparr>pm_typed := pm_typed p @ [d], pm_data := ds\<rparr>)"
| writer_ends: "pm_writer p \<Longrightarrow> pump_step p (p\<lparr>pm_writer := False\<rparr>)"

text \<open>The pump returns when its loop and the reader are through; only then is the terminal closed.\<close>

definition pump_returned :: "pump \<Rightarrow> bool" where
  "pump_returned p \<longleftrightarrow> \<not> pm_loop p \<and> (\<exists>c. pm_reader p = ReaderDone c)"

inductive pump_reach :: "pump \<Rightarrow> bool" where
  pump_begins: "pump_reach pump_start"
| pump_goes_on: "pump_reach p \<Longrightarrow> pump_step p p' \<Longrightarrow> pump_reach p'"

section \<open>The client\<close>

text \<open>What is written to the local terminal, and the exit code shown at the end.\<close>

fun shell_loop :: "session_frame list \<Rightarrow> bytes \<times> i32 option" where
  "shell_loop [] = ([], None)"
| "shell_loop (FData d # fs) = (case shell_loop fs of (shown, code) \<Rightarrow> (d @ shown, code))"
| "shell_loop (FExit code # fs) = ([], code)"
| "shell_loop (FError msg # fs) = ([], None)"
| "shell_loop (_ # fs) = shell_loop fs"

definition session_ended_text :: "i32 option \<Rightarrow> string" where
  "session_ended_text code = ''[session ended'' @ (case code of Some c \<Rightarrow> '', exit '' @ show_int (sint c) | None \<Rightarrow> []) @ '']''"

section \<open>The output\<close>

definition exit_frames :: "reader_phase \<Rightarrow> session_frame list" where
  "exit_frames r = (case r of ReaderDone c \<Rightarrow> [FExit c] | _ \<Rightarrow> [])"

definition all_frames :: "pump \<Rightarrow> session_frame list" where
  "all_frames p = map FData (pm_read p) @ exit_frames (pm_reader p)"

definition typed_data :: "session_frame list \<Rightarrow> bytes list" where
  "typed_data = List.map_filter (\<lambda>f. case f of FData d \<Rightarrow> Some d | _ \<Rightarrow> None)"

definition pump_inv :: "pump \<Rightarrow> bool" where
  "pump_inv p \<longleftrightarrow> (\<exists>gone. pm_sent p @ gone @ pm_out p = all_frames p \<and> (pm_loop p \<longrightarrow> gone = [])) \<and>
     (\<forall>c. FExit c \<in> set (pm_sent p) \<longrightarrow> \<not> pm_loop p) \<and>
     length (pm_out p) \<le> OUT_CHANNEL \<and>
     (\<exists>lost. pm_typed p @ pm_data p @ lost @ typed_data (pm_arriving p) = typed_data (pm_client p) \<and> (pm_feed p \<longrightarrow> lost = []))"


lemma typed_data_simps [simp]:
  "typed_data [] = []" "typed_data (xs @ ys) = typed_data xs @ typed_data ys"
  "typed_data (FData d # fs) = d # typed_data fs" "typed_data (FResize c r # fs) = typed_data fs"
  "typed_data (FExit x # fs) = typed_data fs" "typed_data (FError m # fs) = typed_data fs" "typed_data (FEof # fs) = typed_data fs"
  by (simp_all add: typed_data_def map_filter_def)

lemma exit_frames_simps [simp]:
  "exit_frames Reading = []" "exit_frames (Reaped c) = []" "exit_frames (ReaderDone c) = [FExit c]"
  by (simp_all add: exit_frames_def)

lemma pump_inv_start: "pump_inv pump_start"
  by (simp add: pump_inv_def pump_start_def all_frames_def)

text \<open>The three parts of the invariant, one at a time.\<close>

definition out_ok :: "pump \<Rightarrow> bool" where
  "out_ok p \<longleftrightarrow> (\<exists>gone. pm_sent p @ gone @ pm_out p = all_frames p \<and> (pm_loop p \<longrightarrow> gone = []))"

definition in_ok :: "pump \<Rightarrow> bool" where
  "in_ok p \<longleftrightarrow> (\<exists>lost. pm_typed p @ pm_data p @ lost @ typed_data (pm_arriving p) = typed_data (pm_client p) \<and> (pm_feed p \<longrightarrow> lost = []))"

definition exit_ok :: "pump \<Rightarrow> bool" where
  "exit_ok p \<longleftrightarrow> (\<forall>c. FExit c \<in> set (pm_sent p) \<longrightarrow> \<not> pm_loop p) \<and> length (pm_out p) \<le> OUT_CHANNEL"

lemma pump_inv_parts: "pump_inv p \<longleftrightarrow> out_ok p \<and> exit_ok p \<and> in_ok p"
  by (auto simp: pump_inv_def out_ok_def in_ok_def exit_ok_def)

lemma out_step: "pump_step p p' \<Longrightarrow> out_ok p \<Longrightarrow> out_ok p'"
proof (induction rule: pump_step.induct)
  case (shell_prints p d)
  then obtain gone where "pm_sent p @ gone @ pm_out p = all_frames p" "pm_loop p \<longrightarrow> gone = []" by (auto simp: out_ok_def)
  then show ?case using shell_prints by (auto simp: out_ok_def all_frames_def intro!: exI [of _ gone])
next
  case (exit_queued p c)
  then obtain gone where "pm_sent p @ gone @ pm_out p = all_frames p" "pm_loop p \<longrightarrow> gone = []" by (auto simp: out_ok_def)
  then show ?case using exit_queued by (auto simp: out_ok_def all_frames_def intro!: exI [of _ gone])
next
  case (send_fails p f fs)
  then show ?case by (auto simp: out_ok_def all_frames_def intro!: exI [of _ "[f]"])
qed (auto simp: out_ok_def all_frames_def intro: exI [of _ "[]"])

lemma exit_step: "pump_step p p' \<Longrightarrow> exit_ok p \<Longrightarrow> exit_ok p'"
  by (induction rule: pump_step.induct) (auto simp: exit_ok_def)

lemma in_step: "pump_step p p' \<Longrightarrow> in_ok p \<Longrightarrow> in_ok p'"
proof (induction rule: pump_step.induct)
  case (client_sends p f)
  then obtain lost where "pm_typed p @ pm_data p @ lost @ typed_data (pm_arriving p) = typed_data (pm_client p)" "pm_feed p \<longrightarrow> lost = []"
    by (auto simp: in_ok_def)
  then show ?case by (auto simp: in_ok_def intro!: exI [of _ lost])
next
  case (feed_skips p f fs)
  then show ?case by (auto simp: in_ok_def)
qed (auto simp: in_ok_def intro: exI [of _ "[]"])

lemma pump_reach_inv: "pump_reach p \<Longrightarrow> pump_inv p"
proof (induction rule: pump_reach.induct)
  case pump_begins
  show ?case by (rule pump_inv_start)
next
  case (pump_goes_on p p')
  then show ?case by (simp add: pump_inv_parts out_step exit_step in_step)
qed

text \<open>What the client shows is what the frames say.\<close>

lemma shell_loop_data: "shell_loop (map FData ds) = (concat ds, None)"
  by (induction ds) simp_all

lemma shell_loop_exit: "shell_loop (map FData ds @ [FExit c]) = (concat ds, c)"
  by (induction ds) simp_all

lemma session_facts:
  assumes "pump_reach p"
  shows "(\<exists>n. fst (shell_loop (pm_sent p)) = concat (take n (pm_read p))) \<and>
    (\<forall>c. FExit c \<in> set (pm_sent p) \<longrightarrow> pm_reader p = ReaderDone c \<and> shell_loop (pm_sent p) = (concat (pm_read p), c)) \<and>
    (\<exists>n. pm_typed p = take n (typed_data (pm_client p)))"
proof (intro conjI allI impI)
  have inv: "out_ok p" "in_ok p" using pump_reach_inv [OF assms] by (simp_all add: pump_inv_parts)
  then obtain rest where s: "pm_sent p @ rest = all_frames p" by (auto simp: out_ok_def)
  have pre: "(\<exists>n. pm_sent p = map FData (take n (pm_read p))) \<or> pm_sent p = map FData (pm_read p) @ exit_frames (pm_reader p)"
  proof -
    from s consider us where "pm_sent p @ us = map FData (pm_read p)"
      | us where "pm_sent p = map FData (pm_read p) @ us" "us @ rest = exit_frames (pm_reader p)"
      by (auto simp: all_frames_def append_eq_append_conv2)
    then show ?thesis
    proof cases
      case 1
      then have "pm_sent p = take (length (pm_sent p)) (map FData (pm_read p))" by (metis append_eq_conv_conj)
      then show ?thesis by (metis take_map)
    next
      case 2
      show ?thesis
      proof (cases "us = []")
        case True
        then have "pm_sent p = map FData (take (length (pm_read p)) (pm_read p))" using 2 by simp
        then show ?thesis by blast
      next
        case False
        then have "us = exit_frames (pm_reader p)" using 2 by (cases "pm_reader p") (auto simp: append_eq_Cons_conv)
        then show ?thesis using 2 by simp
      qed
    qed
  qed
  then show "\<exists>n. fst (shell_loop (pm_sent p)) = concat (take n (pm_read p))"
  proof
    assume "pm_sent p = map FData (pm_read p) @ exit_frames (pm_reader p)"
    then show ?thesis by (cases "pm_reader p") (auto simp: shell_loop_data shell_loop_exit intro!: exI [of _ "length (pm_read p)"])
  qed (auto simp: shell_loop_data)
  fix c assume c: "FExit c \<in> set (pm_sent p)"
  then have e: "pm_sent p = map FData (pm_read p) @ exit_frames (pm_reader p)" using pre by auto
  then show "pm_reader p = ReaderDone c" using c by (cases "pm_reader p") auto
  then show "shell_loop (pm_sent p) = (concat (pm_read p), c)" using e by (simp add: shell_loop_exit)
next
  have "in_ok p" using pump_reach_inv [OF assms] by (simp add: pump_inv_parts)
  then show "\<exists>n. pm_typed p = take n (typed_data (pm_client p))"
    by (auto simp: in_ok_def intro!: exI [of _ "length (pm_typed p)"] dest!: sym [of _ "typed_data (pm_client p)"])
qed


text \<open>
  C26. A session is faithful, whatever the interleaving of its tasks. What the client has been sent is at every
  moment a beginning of what the shell printed, in order and without a gap; the exit code is sent last, after
  all of the output, and then the client shows the whole output and this code. What the shell was typed is a
  beginning of what the client typed. A client that closes its input cuts neither.
\<close>
theorem session_is_faithful:
  assumes "pump_reach p"
  shows "(\<exists>n. fst (shell_loop (pm_sent p)) = concat (take n (pm_read p))) \<and>
    (\<forall>c. FExit c \<in> set (pm_sent p) \<longrightarrow> pm_reader p = ReaderDone c \<and> shell_loop (pm_sent p) = (concat (pm_read p), c)) \<and>
    (\<exists>n. pm_typed p = take n (typed_data (pm_client p)))"
  using assms by (rule session_facts)

section \<open>Whether a session ends\<close>

lemma step_then: "pump_step p q \<Longrightarrow> pump_step\<^sup>*\<^sup>* q r \<Longrightarrow> pump_step\<^sup>*\<^sup>* p r"
  by (rule converse_rtranclp_into_rtranclp)

text \<open>While the client takes what it is sent, the channel can be emptied.\<close>

lemma drains:
  assumes "pm_loop p" and "pm_out p = map FData ds @ fs"
  shows "pump_step\<^sup>*\<^sup>* p (p\<lparr>pm_sent := pm_sent p @ map FData ds, pm_out := fs\<rparr>)"
  using assms
proof (induction ds arbitrary: p)
  case Nil
  then have "p\<lparr>pm_sent := pm_sent p @ map FData [], pm_out := fs\<rparr> = p" by (cases p) simp
  then show ?case by simp
next
  case (Cons d ds)
  let ?q = "p\<lparr>pm_sent := pm_sent p @ [FData d], pm_out := map FData ds @ fs, pm_loop := (\<nexists>c. FData d = FExit c)\<rparr>"
  have "pump_step p ?q" using Cons.prems by (intro frame_sent) simp_all
  moreover have "pump_step\<^sup>*\<^sup>* ?q (?q\<lparr>pm_sent := pm_sent ?q @ map FData ds, pm_out := fs\<rparr>)"
    by (rule Cons.IH) simp_all
  ultimately have "pump_step\<^sup>*\<^sup>* p (?q\<lparr>pm_sent := pm_sent ?q @ map FData ds, pm_out := fs\<rparr>)" by (rule step_then)
  moreover have "?q\<lparr>pm_sent := pm_sent ?q @ map FData ds, pm_out := fs\<rparr> = p\<lparr>pm_sent := pm_sent p @ map FData (d # ds), pm_out := fs\<rparr>"
    using Cons.prems(1) by (cases p) simp
  ultimately show ?case by (simp only:)
qed

text \<open>What is still in the channel while the client is served.\<close>

lemma in_the_channel:
  assumes "out_ok p" "exit_ok p" "pm_loop p"
  shows "\<exists>ds. pm_out p = map FData ds @ exit_frames (pm_reader p) \<and> pm_sent p @ map FData ds = map FData (pm_read p)"
proof -
  have s: "pm_sent p @ pm_out p = map FData (pm_read p) @ exit_frames (pm_reader p)"
    using assms(1,3) by (auto simp: out_ok_def all_frames_def)
  have "\<exists>us. pm_sent p @ us = map FData (pm_read p) \<and> pm_out p = us @ exit_frames (pm_reader p)"
  proof -
    from s consider us where "pm_sent p @ us = map FData (pm_read p)" "pm_out p = us @ exit_frames (pm_reader p)"
      | us where "pm_sent p = map FData (pm_read p) @ us" "us @ pm_out p = exit_frames (pm_reader p)"
      unfolding append_eq_append_conv2 by blast
    then show ?thesis
    proof cases
      case 2
      have "us = []"
      proof (rule ccontr)
        assume "us \<noteq> []"
        then obtain c where "us = [FExit c]" using 2(2) by (cases "pm_reader p") (auto simp: append_eq_Cons_conv)
        then show False using 2(1) assms(2,3) by (auto simp: exit_ok_def)
      qed
      then show ?thesis using 2 by simp
    qed blast
  qed
  then obtain us where us: "pm_sent p @ us = map FData (pm_read p)" "pm_out p = us @ exit_frames (pm_reader p)" by blast
  then have "us = map FData (drop (length (pm_sent p)) (pm_read p))" by (metis append_eq_conv_conj drop_map)
  then show ?thesis using us by blast
qed

lemma ends_when_done:
  assumes "pm_loop p" "pm_reader p = ReaderDone c" "pm_out p = map FData ds @ [FExit c]" "pm_sent p @ map FData ds = map FData (pm_read p)"
  shows "\<exists>q. pump_step\<^sup>*\<^sup>* p q \<and> pump_returned q \<and> pm_read q = pm_read p \<and> shell_loop (pm_sent q) = (concat (pm_read p), c)"
proof -
  let ?p = "p\<lparr>pm_sent := pm_sent p @ map FData ds, pm_out := [FExit c]\<rparr>"
  let ?q = "?p\<lparr>pm_sent := pm_sent ?p @ [FExit c], pm_out := [], pm_loop := (\<nexists>c'. FExit c = FExit c')\<rparr>"
  have "pump_step\<^sup>*\<^sup>* p ?p" using assms by (intro drains) simp_all
  moreover have "pump_step ?p ?q" using assms(1) by (intro frame_sent) simp_all
  ultimately have "pump_step\<^sup>*\<^sup>* p ?q" by (rule rtranclp.rtrancl_into_rtrancl)
  then show ?thesis using assms by (intro exI [of _ ?q]) (simp add: pump_returned_def shell_loop_exit)
qed

text \<open>From any moment at which the client is still being served, the session can end, with everything sent.\<close>

lemma session_can_end:
  assumes "pump_reach p" and "pm_loop p"
  shows "\<exists>q. pump_step\<^sup>*\<^sup>* p q \<and> pump_returned q \<and> pm_read q = pm_read p \<and> fst (shell_loop (pm_sent q)) = concat (pm_read p)"
proof -
  obtain ds where ds: "pm_out p = map FData ds @ exit_frames (pm_reader p)" "pm_sent p @ map FData ds = map FData (pm_read p)"
    using in_the_channel pump_reach_inv [OF assms(1)] assms(2) by (auto simp: pump_inv_parts)
  have reaped: ?thesis if r: "pm_reader p' = Reaped c" and p': "pump_step\<^sup>*\<^sup>* p p'" "pm_loop p'" "pm_out p' = map FData ds"
      "pm_sent p' = pm_sent p" "pm_read p' = pm_read p" for p' c
  proof -
    let ?p = "p'\<lparr>pm_sent := pm_sent p' @ map FData ds, pm_out := []\<rparr>"
    let ?q = "?p\<lparr>pm_reader := ReaderDone c, pm_out := pm_out ?p @ [FExit c]\<rparr>"
    have "pump_step\<^sup>*\<^sup>* p' ?p" using p' by (intro drains) simp_all
    moreover have "pump_step ?p ?q" using r by (intro exit_queued) (simp_all add: OUT_CHANNEL_def)
    ultimately have "pump_step\<^sup>*\<^sup>* p ?q" using p'(1) by (meson rtranclp.rtrancl_into_rtrancl rtranclp_trans)
    moreover have "\<exists>q. pump_step\<^sup>*\<^sup>* ?q q \<and> pump_returned q \<and> pm_read q = pm_read ?q \<and> shell_loop (pm_sent q) = (concat (pm_read ?q), c)"
      using p' ds(2) by (intro ends_when_done [where ds = "[]"]) simp_all
    ultimately show ?thesis using p'(5) by (auto dest: rtranclp_trans [of pump_step p])
  qed
  show ?thesis
  proof (cases "pm_reader p")
    case Reading
    let ?p = "p\<lparr>pm_reader := Reaped (reap 50 [])\<rparr>"
    have "pump_step p ?p" using Reading by (rule shell_ends)
    then show ?thesis using assms(2) ds(1) Reading by (intro reaped [of ?p "reap 50 []"]) simp_all
  next
    case (Reaped c)
    then show ?thesis using assms(2) ds(1) by (intro reaped [of p c]) simp_all
  next
    case (ReaderDone c)
    then show ?thesis using ends_when_done [OF assms(2) ReaderDone, of ds] ds by auto
  qed
qed

text \<open>
  But once a frame could not be sent, nobody empties the channel: when it is full the reader waits for room
  that never comes, and the pump never returns, even after the shell has ended.
\<close>

definition pump_stuck :: "pump \<Rightarrow> bool" where
  "pump_stuck p \<longleftrightarrow> \<not> pm_loop p \<and> length (pm_out p) = OUT_CHANNEL \<and> (\<forall>c. pm_reader p \<noteq> ReaderDone c)"

lemma stuck_for_ever: "pump_step\<^sup>*\<^sup>* p q \<Longrightarrow> pump_stuck p \<Longrightarrow> pump_stuck q \<and> \<not> pump_returned q"
proof (induction rule: rtranclp_induct)
  case base
  then show ?case by (auto simp: pump_stuck_def pump_returned_def)
next
  case (step q r)
  then have "pump_stuck q" by simp
  with step.hyps(2) have "pump_stuck r" by cases (auto simp: pump_stuck_def)
  then show ?case by (auto simp: pump_stuck_def pump_returned_def)
qed


lemma fills_up:
  assumes "n \<le> OUT_CHANNEL"
  shows "pump_reach (pump_start\<lparr>pm_read := replicate n [0], pm_out := replicate n (FData [0])\<rparr>)"
  using assms
proof (induction n)
  case 0
  have "pump_start\<lparr>pm_read := replicate 0 [0], pm_out := replicate 0 (FData [0])\<rparr> = pump_start" by (simp add: pump_start_def)
  then show ?case using pump_begins by simp
next
  case (Suc n)
  let ?p = "pump_start\<lparr>pm_read := replicate n [0], pm_out := replicate n (FData [0])\<rparr>"
  have r: "pump_reach ?p" using Suc by simp
  have "pump_step ?p (?p\<lparr>pm_read := pm_read ?p @ [[0]], pm_out := pm_out ?p @ [FData [0]]\<rparr>)"
    using Suc.prems by (intro shell_prints) (simp_all add: pump_start_def READ_BUFFER_def)
  with r have "pump_reach (?p\<lparr>pm_read := pm_read ?p @ [[0]], pm_out := pm_out ?p @ [FData [0]]\<rparr>)" by (rule pump_goes_on)
  then show ?case by (simp flip: replicate_append_same)
qed

lemma a_session_gets_stuck: "\<exists>p. pump_reach p \<and> pump_stuck p"
proof -
  let ?n = "OUT_CHANNEL"
  let ?p = "pump_start\<lparr>pm_read := replicate ?n [0], pm_out := replicate ?n (FData [0])\<rparr>"
  let ?q = "?p\<lparr>pm_out := replicate (?n - 1) (FData [0]), pm_loop := False\<rparr>"
  let ?r = "?q\<lparr>pm_read := pm_read ?q @ [[0]], pm_out := pm_out ?q @ [FData [0]]\<rparr>"
  have "replicate ?n (FData [0]) = FData [0] # replicate (?n - 1) (FData [0])"
    by (simp add: OUT_CHANNEL_def numeral_eq_Suc)
  then have "pump_step ?p ?q" by (intro send_fails [of ?p "FData [0]"]) (simp_all add: pump_start_def)
  moreover have "pump_step ?q ?r"
    by (intro shell_prints) (simp_all add: pump_start_def READ_BUFFER_def OUT_CHANNEL_def)
  ultimately have "pump_reach ?r" using fills_up [of ?n] by (meson order_refl pump_goes_on)
  moreover have "pump_stuck ?r" by (simp add: pump_stuck_def pump_start_def OUT_CHANNEL_def)
  ultimately show ?thesis by blast
qed

section \<open>Over the wire\<close>

lemma shell_loop_received:
  "shell_loop (map (\<lambda>f. if f = FExit (Some I32_MIN) then FExit None else f) fs) =
     (case shell_loop fs of (shown, code) \<Rightarrow> (shown, if code = Some I32_MIN then None else code))"
  by (induction fs rule: shell_loop.induct) (auto split: prod.splits)

text \<open>The two ends together: when the exit code has been sent, the client has shown what the shell printed.\<close>

lemma session_over_the_wire:
  assumes "pump_reach p" and "FExit c \<in> set (pm_sent p)" and "map write_session_frame (pm_sent p) = map Inr ws"
  shows "shell_loop (read_session lossy (concat ws)) = (concat (pm_read p), if c = Some I32_MIN then None else c)"
proof -
  have s: "pm_reader p = ReaderDone c" "shell_loop (pm_sent p) = (concat (pm_read p), c)"
    using session_facts [OF assms(1)] assms(2) by blast+
  have "FError msg \<notin> set (pm_sent p)" for msg
  proof
    assume e: "FError msg \<in> set (pm_sent p)"
    obtain gone where "pm_sent p @ gone @ pm_out p = all_frames p"
      using pump_reach_inv [OF assms(1)] by (auto simp: pump_inv_def)
    then have "FError msg \<in> set (all_frames p)" using e by (metis Un_iff set_append)
    then show False by (cases "pm_reader p") (auto simp: all_frames_def)
  qed
  then show ?thesis
    using frames_read_back [OF assms(3), of lossy] s(2) by (simp add: shell_loop_received)
qed


text \<open>A shell that prints one line and ends.\<close>

lemma session_is_faithful_witness:
  "\<exists>p. pump_reach p \<and> pm_read p = [[104, 105]] \<and> shell_loop (pm_sent p) = ([104, 105], Some 3)"
proof -
  let ?a = "pump_start\<lparr>pm_read := [[104, 105]], pm_out := [FData [104, 105]]\<rparr>"
  let ?b = "?a\<lparr>pm_reader := Reaped (reap 50 [ChildRuns, ChildExited 3])\<rparr>"
  let ?c = "?b\<lparr>pm_reader := ReaderDone (Some 3), pm_out := pm_out ?b @ [FExit (Some 3)]\<rparr>"
  let ?d = "?c\<lparr>pm_sent := pm_sent ?c @ [FData [104, 105]], pm_out := [FExit (Some 3)], pm_loop := (\<nexists>c. FData [104, 105] = FExit c)\<rparr>"
  let ?e = "?d\<lparr>pm_sent := pm_sent ?d @ [FExit (Some 3)], pm_out := [], pm_loop := (\<nexists>c. FExit (Some 3) = FExit c)\<rparr>"
  have "reap 50 [ChildRuns, ChildExited 3] = Some 3" by (simp add: numeral_eq_Suc)
  then have b: "pm_reader ?b = Reaped (Some 3)" by simp
  have "pump_step pump_start (pump_start\<lparr>pm_read := pm_read pump_start @ [[104, 105]], pm_out := pm_out pump_start @ [FData [104, 105]]\<rparr>)"
    by (rule shell_prints) (simp_all add: pump_start_def READ_BUFFER_def OUT_CHANNEL_def)
  then have "pump_step pump_start ?a" by (simp add: pump_start_def)
  moreover have "pump_step ?a ?b" by (rule shell_ends) (simp add: pump_start_def)
  moreover have "pump_step ?b ?c" using b by (rule exit_queued) (simp add: OUT_CHANNEL_def)
  moreover have "pump_step ?c ?d" by (rule frame_sent) (simp_all add: pump_start_def)
  moreover have "pump_step ?d ?e" by (rule frame_sent) simp_all
  ultimately have e: "pump_reach ?e" using pump_begins by (iprover intro: pump_goes_on)
  have s: "FExit (Some 3) \<in> set (pm_sent ?e)" "pm_read ?e = [[104, 105]]" by simp_all
  then have "shell_loop (pm_sent ?e) = (concat (pm_read ?e), Some 3)" using session_is_faithful [OF e] by blast
  then show ?thesis using e s(2) by (intro exI [of _ ?e]) simp
qed

end
