(* ===== verification/Serving.thy ===== *)
theory Serving
  imports P2p
begin

text \<open>
  The accept loop of a provider, \<open>serve\<close> and \<open>handle_conn\<close> of \<open>crates/cloudiy/src/p2p.rs\<close>: connections, the
  streams on them, and the permits each stream holds until it ends. Every connection and every stream runs in
  a task of its own, so they interleave in any order; a stream is named by its connection.
\<close>

section \<open>Connections and streams\<close>

text \<open>
  A connection has its authenticated peer and its own budget. \<open>sg_live\<close> are the streams that became an
  interactive session or a tunnel.
\<close>

record serving =
  sg_inbound :: nat
  sg_conns :: "nat \<Rightarrow> (string \<times> nat) option"
  sg_streams :: "nat multiset"
  sg_live :: "nat multiset"
  sg_state :: provider_state
  sg_refused :: "(nat \<times> response) list"

definition MAX_CONCURRENT_SESSIONS :: nat where
  "MAX_CONCURRENT_SESSIONS = 16"

definition is_live :: "served \<Rightarrow> bool" where
  "is_live out \<longleftrightarrow> (case out of Session _ _ _ \<Rightarrow> True | TunnelTo _ \<Rightarrow> True | _ \<Rightarrow> False)"

definition set_sessions :: "nat \<Rightarrow> provider_state \<Rightarrow> provider_state" where
  "set_sessions n ps = ps\<lparr>ps_app := (ps_app ps)\<lparr>as_sessions := n\<rparr>\<rparr>"

inductive serve_step :: "('k, 's) node_env \<Rightarrow> serving \<Rightarrow> serving \<Rightarrow> bool" for env :: "('k, 's) node_env" where
  connected: "sg_conns s c = None \<Longrightarrow>
     serve_step env s (s\<lparr>sg_conns := (sg_conns s)(c \<mapsto> (owner, MAX_INBOUND_STREAMS_PER_CONN))\<rparr>)"
| stream_admitted: "sg_conns s c = Some (owner, n) \<Longrightarrow> admit_stream (sg_inbound s) n = Some (i', n') \<Longrightarrow>
     serve_step env s (s\<lparr>sg_inbound := i', sg_conns := (sg_conns s)(c \<mapsto> (owner, n')), sg_streams := add_mset c (sg_streams s)\<rparr>)"
| stream_refused: "sg_conns s c = Some (owner, n) \<Longrightarrow> admit_stream (sg_inbound s) n = None \<Longrightarrow>
     serve_step env s (s\<lparr>sg_refused := sg_refused s @ [(c, node_busy)]\<rparr>)"
| answered: "c \<in># sg_streams s - sg_live s \<Longrightarrow> sg_conns s c = Some (owner, n) \<Longrightarrow>
     handle_stream env clk owner msg (sg_state s) = (out, ps) \<Longrightarrow> \<not> is_live out \<Longrightarrow>
     serve_step env s (s\<lparr>sg_state := ps\<rparr>)"
| session_begins: "c \<in># sg_streams s - sg_live s \<Longrightarrow> sg_conns s c = Some (owner, n) \<Longrightarrow>
     handle_stream env clk owner msg (sg_state s) = (out, ps) \<Longrightarrow> is_live out \<Longrightarrow>
     serve_step env s (s\<lparr>sg_state := set_sessions (as_sessions (ps_app ps) - 1) ps, sg_live := add_mset c (sg_live s)\<rparr>)"
| stream_ends: "c \<in># sg_streams s - sg_live s \<Longrightarrow> sg_conns s c = Some (owner, n) \<Longrightarrow>
     serve_step env s (s\<lparr>sg_inbound := sg_inbound s + 1, sg_conns := (sg_conns s)(c \<mapsto> (owner, n + 1)),
       sg_streams := sg_streams s - {#c#}\<rparr>)"
| session_ends: "c \<in># sg_live s \<Longrightarrow> sg_conns s c = Some (owner, n) \<Longrightarrow>
     serve_step env s (s\<lparr>sg_inbound := sg_inbound s + 1, sg_conns := (sg_conns s)(c \<mapsto> (owner, n + 1)),
       sg_streams := sg_streams s - {#c#}, sg_live := sg_live s - {#c#},
       sg_state := set_sessions (as_sessions (ps_app (sg_state s)) + 1) (sg_state s)\<rparr>)"

definition serve_start :: "provider_state \<Rightarrow> serving" where
  "serve_start ps = \<lparr>sg_inbound = MAX_CONCURRENT_INBOUND_STREAMS, sg_conns = Map.empty, sg_streams = {#}, sg_live = {#},
     sg_state = set_sessions MAX_CONCURRENT_SESSIONS ps, sg_refused = []\<rparr>"

inductive serve_reach :: "('k, 's) node_env \<Rightarrow> serving \<Rightarrow> bool" for env :: "('k, 's) node_env" where
  serve_begins: "serve_reach env (serve_start ps)"
| serve_goes_on: "serve_reach env s \<Longrightarrow> serve_step env s s' \<Longrightarrow> serve_reach env s'"

section \<open>No permit is lost\<close>

lemma authorize_sessions: "authorize env st req ov now = (r, st') \<Longrightarrow> as_sessions st' = as_sessions st"
  by (auto simp: authorize_def authorize_end_def split: sum.splits)

lemma submit_sessions: "submit env st req settled = (out, st') \<Longrightarrow> as_sessions st' = as_sessions st"
  by (auto simp: submit_def Let_def remember_job_def)

lemma submit_guarded_sessions: "submit_guarded env st req ov now took = (r, st') \<Longrightarrow> as_sessions st' = as_sessions st"
  by (auto simp: submit_guarded_def acquire_permit_def drop_permit_def dest!: authorize_sessions submit_sessions
      split: prod.splits sum.splits if_splits)

lemma run_endpoint_sessions:
  "run_endpoint_guarded env st hits req key prompt owner i now = (r, st', hits') \<Longrightarrow> as_sessions st' = as_sessions st"
  by (auto simp: run_endpoint_guarded_def dest!: authorize_sessions split: prod.splits sum.splits bool.splits)

lemma run_admit_sessions: "run_admit env st spec = Inr (rt, st') \<Longrightarrow> as_sessions st' = as_sessions st"
  by (cases "allocate (as_resources st) (ws_resources spec)"; auto simp: run_admit_def result_iff acquire_permit_def split: if_splits)

lemma run_finish_sessions: "run_finish env st req spec settled r = (out, st') \<Longrightarrow> as_sessions st' = as_sessions st"
  by (auto simp: run_finish_def Let_def drop_permit_def remember_job_def)

lemma run_workload_sessions: "run_workload env st req spec ov now = (r, st', ev) \<Longrightarrow> as_sessions st' = as_sessions st"
  by (auto simp: run_workload_def dest!: authorize_sessions run_admit_sessions run_finish_sessions split: prod.splits sum.splits)

lemma start_vm_sessions: "start_vm env st owner req spec ov now t1 t2 h = ((r, st'), h') \<Longrightarrow> as_sessions st' = as_sessions st"
  by (auto simp: start_vm_def start_vm_finish_def start_vm_reserve_def result_iff Let_def
      dest!: authorize_sessions split: prod.splits option.splits sum.splits)

lemma vm_status_sessions: "vm_status env st owner t1 t2 h = ((info, st'), h') \<Longrightarrow> as_sessions st' = as_sessions st"
  by (auto simp: vm_status_def split: prod.splits option.splits if_splits sum.splits)

lemma stop_vm_sessions: "stop_vm env st owner wipe h = (st', h') \<Longrightarrow> as_sessions st' = as_sessions st"
  by (auto simp: stop_vm_def split: prod.splits option.splits)

lemmas kept_sessions = submit_guarded_sessions run_endpoint_sessions run_workload_sessions start_vm_sessions
  vm_status_sessions stop_vm_sessions

lemma rpc_sessions: "handle_rpc env clk owner req ps = (resp, ps') \<Longrightarrow> as_sessions (ps_app ps') = as_sessions (ps_app ps)"
  by (cases req) (auto dest: kept_sessions split: prod.splits)

text \<open>A stream only goes live when a permit is free; nothing else moves the permits.\<close>

lemma stream_sessions:
  assumes "handle_stream env clk owner msg ps = (out, ps')"
  shows "as_sessions (ps_app ps') = as_sessions (ps_app ps) \<and> (is_live out \<longrightarrow> 0 < as_sessions (ps_app ps))"
  using assms unfolding handle_stream_def is_live_def
  by (auto dest: kept_sessions split: sum.splits request.splits if_splits session_start.splits prod.splits)

fun budget_ok :: "(string \<times> nat) option \<Rightarrow> nat \<Rightarrow> bool" where
  "budget_ok (Some (owner, n)) taken = (n + taken = MAX_INBOUND_STREAMS_PER_CONN)"
| "budget_ok None taken = (taken = 0)"

definition serving_ok :: "serving \<Rightarrow> bool" where
  "serving_ok s \<longleftrightarrow> sg_inbound s + size (sg_streams s) = MAX_CONCURRENT_INBOUND_STREAMS \<and>
     (\<forall>c. budget_ok (sg_conns s c) (count (sg_streams s) c)) \<and>
     (\<forall>c. count (sg_live s) c \<le> count (sg_streams s) c) \<and>
     as_sessions (ps_app (sg_state s)) + size (sg_live s) = MAX_CONCURRENT_SESSIONS"

lemma set_sessions_app [simp]: "as_sessions (ps_app (set_sessions n ps)) = n"
  by (simp add: set_sessions_def)

lemma admit_stream_Some: "admit_stream i n = Some (i', n') \<longleftrightarrow> i = Suc i' \<and> n = Suc n'"
  by (cases i; cases n) (auto simp: admit_stream_def)

lemma serving_start: "serving_ok (serve_start ps)"
  by (simp add: serving_ok_def serve_start_def)

lemma plain_stream: "c \<in># S - L \<longleftrightarrow> count L c < count S c"
  by (metis count_diff count_greater_zero_iff zero_less_diff)

lemma in_size: "c \<in># M \<Longrightarrow> 0 < size M"
  by (cases M) auto

lemma serving_step:
  assumes "serve_step env s s'" and ok: "serving_ok s"
  shows "serving_ok s'"
  using assms(1)
proof cases
  case (connected c owner)
  then have "count (sg_streams s) c = 0" using ok unfolding serving_ok_def by (metis budget_ok.simps(2))
  then show ?thesis using connected ok by (simp add: serving_ok_def)
next
  case (stream_admitted c owner n i' n')
  then have "n + count (sg_streams s) c = MAX_INBOUND_STREAMS_PER_CONN" using ok unfolding serving_ok_def by (metis budget_ok.simps(1))
  then show ?thesis using ok stream_admitted by (auto simp: serving_ok_def admit_stream_Some le_Suc_eq)
next
  case (stream_refused c owner n)
  then show ?thesis using ok by (simp add: serving_ok_def)
next
  case (answered c owner n clk msg out ps)
  then have "as_sessions (ps_app ps) = as_sessions (ps_app (sg_state s))" using stream_sessions by blast
  then show ?thesis using ok answered by (simp add: serving_ok_def)
next
  case (session_begins c owner n clk msg out ps)
  then have "as_sessions (ps_app ps) = as_sessions (ps_app (sg_state s))" "0 < as_sessions (ps_app (sg_state s))"
    using stream_sessions by blast+
  then show ?thesis using ok session_begins by (auto simp: serving_ok_def plain_stream)
next
  case (stream_ends c owner n)
  then have n: "n + count (sg_streams s) c = MAX_INBOUND_STREAMS_PER_CONN" using ok unfolding serving_ok_def by (metis budget_ok.simps(1))
  have "count (sg_live s) c < count (sg_streams s) c" using stream_ends by (simp add: plain_stream)
  moreover from this have "c \<in># sg_streams s" by (simp flip: count_greater_zero_iff)
  then have "0 < size (sg_streams s)" "Suc (size (sg_streams s - {#c#})) = size (sg_streams s)" by (auto simp: in_size size_Suc_Diff1)
  ultimately show ?thesis using ok stream_ends n by (auto simp: serving_ok_def size_Diff_singleton)
next
  case (session_ends c owner n)
  then have n: "n + count (sg_streams s) c = MAX_INBOUND_STREAMS_PER_CONN" using ok unfolding serving_ok_def by (metis budget_ok.simps(1))
  have pos: "0 < count (sg_live s) c" using session_ends by simp
  have le: "count (sg_live s) c \<le> count (sg_streams s) c" using ok by (simp add: serving_ok_def)
  from pos le have "c \<in># sg_streams s" by (simp flip: count_greater_zero_iff)
  then have "0 < size (sg_streams s)" "Suc (size (sg_streams s - {#c#})) = size (sg_streams s)" by (auto simp: in_size size_Suc_Diff1)
  moreover have "Suc (size (sg_live s - {#c#})) = size (sg_live s)" using session_ends by (intro size_Suc_Diff1)
  moreover have "Suc (n + (count (sg_streams s) c - 1)) = MAX_INBOUND_STREAMS_PER_CONN" "count (sg_live s) c - 1 \<le> count (sg_streams s) c - 1"
    using n pos le by linarith+
  ultimately show ?thesis using ok session_ends by (auto simp: serving_ok_def)
qed

lemma serving_reach: "serve_reach env s \<Longrightarrow> serving_ok s"
  by (induction rule: serve_reach.induct) (auto intro: serving_start serving_step)


text \<open>
  C27. The admission of streams holds what it promises, for any interleaving of connections, requests and
  sessions: at most 64 streams are served at once, at most 16 on a connection and at most 16 sessions and
  tunnels; a permit is never lost, so when the streams have ended every budget is full again; and a stream is
  refused only when one of its two budgets is used up.
\<close>
theorem permits_are_never_lost:
  assumes "serve_reach env s"
  shows "size (sg_streams s) \<le> 64 \<and> (\<forall>c. count (sg_streams s) c \<le> 16) \<and> size (sg_live s) \<le> 16 \<and>
    (sg_streams s = {#} \<longrightarrow> sg_inbound s = 64 \<and> as_sessions (ps_app (sg_state s)) = 16 \<and>
       (\<forall>c owner n. sg_conns s c = Some (owner, n) \<longrightarrow> n = 16)) \<and>
    (\<forall>c owner n. sg_conns s c = Some (owner, n) \<and> admit_stream (sg_inbound s) n = None \<longrightarrow>
       size (sg_streams s) = 64 \<or> count (sg_streams s) c = 16)"
proof -
  have ok: "serving_ok s" using assms by (rule serving_reach)
  have b: "budget_ok (sg_conns s c) (count (sg_streams s) c)" "count (sg_live s) c \<le> count (sg_streams s) c" for c
    using ok by (simp_all add: serving_ok_def)
  have per: "count (sg_streams s) c \<le> 16" for c
    using b(1) [of c] by (cases "sg_conns s c") (auto simp: MAX_INBOUND_STREAMS_PER_CONN_def)
  have n: "n + count (sg_streams s) c = 16" if "sg_conns s c = Some (owner, n)" for c owner n
    using b(1) [of c] that by (simp add: MAX_INBOUND_STREAMS_PER_CONN_def)
  have i: "sg_inbound s + size (sg_streams s) = 64" "as_sessions (ps_app (sg_state s)) + size (sg_live s) = 16"
    using ok by (simp_all add: serving_ok_def MAX_CONCURRENT_INBOUND_STREAMS_def MAX_CONCURRENT_SESSIONS_def)
  have e: "sg_live s = {#}" if "sg_streams s = {#}"
    using b(2) that by (simp add: multiset_eq_iff)
  have r: "size (sg_streams s) = 64 \<or> count (sg_streams s) c = 16"
    if "sg_conns s c = Some (owner, m)" "admit_stream (sg_inbound s) m = None" for c owner m
    using that n [OF that(1)] i(1) by (auto simp: admit_stream_def split: if_splits)
  show ?thesis using per i e n r by (auto simp del: One_nat_def)
qed

lemma permits_are_never_lost_witness:
  "sg_inbound (serve_start demo_provider) = 64 \<and> as_sessions (ps_app (sg_state (serve_start demo_provider))) = 16"
  using permits_are_never_lost [OF serve_begins [of demo_node_env demo_provider]] by (simp add: serve_start_def)

section \<open>A peer with several connections\<close>

lemma takes_streams:
  assumes "serve_reach env s" and "sg_conns s c = Some (owner, n + k)" and "k \<le> sg_inbound s"
  shows "\<exists>s'. serve_reach env s' \<and> sg_inbound s' = sg_inbound s - k \<and> sg_conns s' = (sg_conns s)(c \<mapsto> (owner, n))"
  using assms
proof (induction k arbitrary: s)
  case 0
  then show ?case by (intro exI [of _ s]) auto
next
  case (Suc k)
  let ?s = "s\<lparr>sg_inbound := sg_inbound s - 1, sg_conns := (sg_conns s)(c \<mapsto> (owner, n + k)), sg_streams := add_mset c (sg_streams s)\<rparr>"
  have "sg_inbound s = Suc (sg_inbound s - 1)" using Suc.prems(3) by simp
  then have "admit_stream (sg_inbound s) (n + Suc k) = Some (sg_inbound s - 1, n + k)" by (simp only: admit_stream_Some) simp
  with Suc.prems(2) have "serve_step env s ?s" by (rule stream_admitted)
  then have "serve_reach env ?s" using Suc.prems(1) by (rule serve_goes_on [rotated])
  then obtain s' where "serve_reach env s'" "sg_inbound s' = sg_inbound ?s - k" "sg_conns s' = (sg_conns ?s)(c \<mapsto> (owner, n))"
  proof -
    have "k \<le> sg_inbound ?s" "sg_conns ?s c = Some (owner, n + k)" using Suc.prems(3) by simp_all
    with \<open>serve_reach env ?s\<close> show thesis using Suc.IH [of ?s] that by blast
  qed
  then show ?case by (intro exI [of _ s']) simp
qed

text \<open>The budget of a connection does not bound a peer: four connections take every stream of the node.\<close>

lemma one_peer_takes_all:
  "\<exists>s. serve_reach env s \<and> sg_inbound s = 0 \<and> (\<forall>c o1 n. sg_conns s c = Some (o1, n) \<longrightarrow> o1 = owner)"
proof -
  have more: "\<exists>s'. serve_reach env s' \<and> sg_inbound s' = sg_inbound s - 16 \<and> sg_conns s' = (sg_conns s)(c \<mapsto> (owner, 0))"
    if s: "serve_reach env s" "sg_conns s c = None" "16 \<le> sg_inbound s" for s c
  proof -
    let ?s = "s\<lparr>sg_conns := (sg_conns s)(c \<mapsto> (owner, MAX_INBOUND_STREAMS_PER_CONN))\<rparr>"
    have "serve_reach env ?s" using s(1) connected [OF s(2)] by (rule serve_goes_on)
    from takes_streams [OF this, of c owner 0 16] s(3) show ?thesis by (auto simp: MAX_INBOUND_STREAMS_PER_CONN_def)
  qed
  have "\<exists>s. serve_reach env s \<and> sg_inbound s = 64 - k * 16 \<and> (\<forall>c. k \<le> c \<longrightarrow> sg_conns s c = None) \<and>
      (\<forall>c o1 n. sg_conns s c = Some (o1, n) \<longrightarrow> o1 = owner)" if "k \<le> 4" for k
    using that
  proof (induction k)
    case 0
    show ?case by (intro exI [of _ "serve_start undefined"])
        (simp add: serve_begins, simp add: serve_start_def MAX_CONCURRENT_INBOUND_STREAMS_def)
  next
    case (Suc k)
    then obtain s where s: "serve_reach env s" "sg_inbound s = 64 - k * 16" "\<forall>c. k \<le> c \<longrightarrow> sg_conns s c = None"
      "\<forall>c o1 n. sg_conns s c = Some (o1, n) \<longrightarrow> o1 = owner" by auto
    have "k * 16 \<le> 3 * 16" using Suc.prems by (intro mult_le_mono1) simp
    then have room: "16 \<le> sg_inbound s" "sg_conns s k = None" using s(2,3) by simp_all
    obtain s' where "serve_reach env s'" "sg_inbound s' = sg_inbound s - 16" "sg_conns s' = (sg_conns s)(k \<mapsto> (owner, 0))"
      using more [OF s(1) room(2,1)] by blast
    then show ?case using s by (intro exI [of _ s']) auto
  qed
  from this [of 4] show ?thesis by auto
qed

end
