(* ===== verification/Share.thy ===== *)
theory Share
  imports Float_Cast Cluster Serving Gpu_Kernels Docker_Runtime Payout Volumes Directory Gateway_Hosting
begin

text \<open>
  How a machine becomes a provider: \<open>crates/cloudiy/src/discover.rs\<close> (what it has and can do) and \<open>share\<close> and
  \<open>announce_once\<close> of \<open>crates/cloudiy/src/main.rs\<close>. The files, the two histories of container commands and the
  lines logged are the state; the hardware, the network and the libraries are parameters. The tasks spawned at
  the end run the modelled operations of the node, the controller and the directory.
\<close>

section \<open>The machine\<close>

record ('k, 's) share_env =
  se_node :: "('k, 's) node_env"
  se_payout :: payout_env
  se_keys :: key_env
  se_docker :: docker_env
  se_var :: environment
  se_gpu :: "string + (string \<times> (string \<Rightarrow> string \<Rightarrow> string + string) \<times> workload_runtime)"
  se_parallelism :: "nat option"
  se_memory_bytes :: u64
  se_os :: string
  se_arch :: string
  se_code :: string
  se_bind :: "bytes \<Rightarrow> string + string"
  se_json_keys :: "string \<Rightarrow> string list option"
  se_receipts :: "job_response list"
  se_now :: datetime
  se_addr :: "string \<Rightarrow> string + string"
  se_listen :: "string \<Rightarrow> string + unit"
  se_node_id :: "string \<Rightarrow> string option"
  se_default_directory :: string
  se_gateway :: gateway_env

record share_machine =
  sm_box :: payout_box
  sm_keys :: key_disk
  sm_docker :: "command list"
  sm_vms :: "command list"
  sm_marker :: bool
  sm_log :: "string list"

type_synonym 'a sio = "(share_machine, string, 'a) hio"

definition on_box :: "'a pio \<Rightarrow> 'a sio" where
  "on_box p m = (case p (sm_box m) of (r, b) \<Rightarrow> (r, m\<lparr>sm_box := b\<rparr>))"

definition on_keys :: "(key_disk, string, 'a) hio \<Rightarrow> 'a sio" where
  "on_keys p m = (case p (sm_keys m) of (r, d) \<Rightarrow> (r, m\<lparr>sm_keys := d\<rparr>))"

definition on_docker :: "(command list \<Rightarrow> 'a \<times> command list) \<Rightarrow> 'a sio" where
  "on_docker p m = (case p (sm_docker m) of (r, h) \<Rightarrow> (Inr r, m\<lparr>sm_docker := h\<rparr>))"

definition say :: "string \<Rightarrow> unit sio" where
  "say t m = (Inr (), m\<lparr>sm_log := sm_log m @ [t]\<rparr>)"

section \<open>Resources\<close>

definition total_memory_mib :: "('k, 's) share_env \<Rightarrow> u64" where
  "total_memory_mib env = se_memory_bytes env div (1024 * 1024)"

definition cpu_millicores :: "('k, 's) share_env \<Rightarrow> u64" where
  "cpu_millicores env = (case se_parallelism env of Some n \<Rightarrow> of_nat n * 1000 | None \<Rightarrow> 0)"

definition detected_total :: "('k, 's) share_env \<Rightarrow> u64 \<Rightarrow> u64 \<Rightarrow> resource_vector" where
  "detected_total env gpu_count vram_mib =
     (let tot = rv_with (rv_with [] Cpu (cpu_millicores env)) Memory (total_memory_mib env) in
      if 0 < gpu_count then rv_with (rv_with tot Gpu gpu_count) Vram vram_mib else tot)"

definition shared_slice :: "resource_vector \<Rightarrow> u64 option \<Rightarrow> u64 option \<Rightarrow> resource_vector" where
  "shared_slice tot share_cpu_millis share_memory_mib =
     (let shared = (case share_cpu_millis of Some cpu \<Rightarrow> rv_with tot Cpu (min cpu (rv_get tot Cpu)) | None \<Rightarrow> tot) in
      case share_memory_mib of Some mem \<Rightarrow> rv_with shared Memory (min mem (rv_get tot Memory)) | None \<Rightarrow> shared)"

text \<open>\<open>None\<close> is the panic of \<open>expect\<close>.\<close>

definition detect_resources :: "('k, 's) share_env \<Rightarrow> u64 \<Rightarrow> u64 \<Rightarrow> u64 option \<Rightarrow> u64 option \<Rightarrow> resources option" where
  "detect_resources env gpu_count vram_mib share_cpu_millis share_memory_mib =
     (let tot = detected_total env gpu_count vram_mib; shared = shared_slice tot share_cpu_millis share_memory_mib in
      case declare_resources tot shared of Inr rs \<Rightarrow> Some rs | Inl _ \<Rightarrow> None)"

section \<open>Capabilities\<close>

definition isolation_level :: "string option \<Rightarrow> string" where
  "isolation_level rt =
     (case rt of
        Some r \<Rightarrow>
          if contains_str r ''runsc'' \<or> contains_str r ''gvisor'' then ''isolation:gvisor''
          else if contains_str r ''kata'' then ''isolation:kata''
          else if r = ''runc'' then ''isolation:container''
          else ''isolation:'' @ r
      | None \<Rightarrow> ''isolation:container'')"

definition detect_capabilities :: "('k, 's) share_env \<Rightarrow> bool \<Rightarrow> string option \<Rightarrow> capability list sio" where
  "detect_capabilities env has_gpu container_runtime =
     (let caps = [se_os env, se_arch env] @
        (if has_gpu then ''wgsl'' # map (\<lambda>k. ''kernel:'' @ k) KERNELS else []) in
      vbind (on_docker (docker_supports (se_docker env) docker_default)) (\<lambda>docker.
      vret (caps @ (if docker then [''docker'', isolation_level container_runtime] else []))))"

definition detect_docker_runtimes :: "('k, 's) share_env \<Rightarrow> string list sio" where
  "detect_docker_runtimes env =
     vbind (on_docker (docker_cli (se_docker env) docker_default [''info'', ''--format'', ''{{json .Runtimes}}''])) (\<lambda>out.
     vret (case out of
        Inl _ \<Rightarrow> []
      | Inr o1 \<Rightarrow> (case se_json_keys env (trim (co_stdout o1)) of Some ks \<Rightarrow> ks | None \<Rightarrow> [])))"


section \<open>The options\<close>

record share_opts =
  so_bind_addr :: string
  so_no_http :: bool
  so_token :: "string option"
  so_gpu_model :: string
  so_vram_mb :: u64
  so_price_usdc :: f64
  so_price_usdc_per_hour :: "f64 option"
  so_usdc_mint :: string
  so_network :: string
  so_escrow_program :: string
  so_directory :: "string list"
  so_share_cpu :: "f64 option"
  so_share_memory_mb :: "u64 option"
  so_no_gpu :: bool
  so_rpc_url :: "string option"
  so_require_payment :: bool
  so_runtime :: "string option"
  so_allow_runc_untrusted :: bool
  so_gpu_device :: "string option"
  so_payout :: "string option"
  so_no_payout :: bool

text \<open>An RPC endpoint counts only when it is given; the default of the cluster does not turn verification on.\<close>

definition explicit_rpc_url :: "environment \<Rightarrow> string option \<Rightarrow> string option" where
  "explicit_rpc_url var flag =
     (case Option.bind flag (\<lambda>v. if trim v \<noteq> [] then Some v else None) of
        Some v \<Rightarrow> Some v
      | None \<Rightarrow> Option.bind (var ENV_RPC_URL) (\<lambda>v. if trim v \<noteq> [] then Some v else None))"

section \<open>The start of a provider\<close>

definition mark_provider_running :: "unit sio" where
  "mark_provider_running m = (Inr (), m\<lparr>sm_marker := True\<rparr>)"

definition share_payout :: "('k, 's) share_env \<Rightarrow> share_opts \<Rightarrow> string sio" where
  "share_payout env opts =
     (if so_no_payout opts then
        vbind (say ''--no-payout: DONATE mode - jobs compute for free, no USDC payout.'') (\<lambda>_. vret DONATE_SENTINEL)
      else on_box (payout_resolve (se_payout env) (ce_crypto (ne_chain (se_node env))) (so_payout opts)
        (se_var env ''CLOUDIY_PAYOUT_ADDRESS'')))"

definition share_token :: "('k, 's) share_env \<Rightarrow> share_opts \<Rightarrow> (string \<times> bool) sio" where
  "share_token env opts =
     (case so_token opts of
        Some t \<Rightarrow>
          if t = ''cloudiy-dev-token''
          then vbind (say (in_quotes ''cloudiy-dev-token'' @ '' is publicly known - use a strong secret.'')) (\<lambda>_. vret (t, False))
          else vret (t, False)
      | None \<Rightarrow> vret (se_code env, True))"

definition share_gpu ::
  "('k, 's) share_env \<Rightarrow> share_opts \<Rightarrow> (string \<times> (string \<Rightarrow> string \<Rightarrow> string + string) \<times> workload_runtime) option" where
  "share_gpu env opts = (if so_no_gpu opts then None else case se_gpu env of Inr g \<Rightarrow> Some g | Inl _ \<Rightarrow> None)"

definition announced_model :: "share_opts \<Rightarrow> (string \<times> 'x) option \<Rightarrow> string" where
  "announced_model opts gpu =
     (if so_gpu_model opts = ''auto'' then (case gpu of Some g \<Rightarrow> fst g | None \<Rightarrow> ''cpu-only'') else so_gpu_model opts)"

definition share_cpu_millis :: "f64 \<Rightarrow> u64" where
  "share_cpu_millis c = f_to_u64 (f_max (f_round (fmul c (f_lit 1000))) (Fin 0))"

definition runtime_note :: "string \<Rightarrow> string list \<Rightarrow> string" where
  "runtime_note rt avail =
     (if rt \<in> set avail then ''Isolation: containers run under `'' @ rt @ ''` ('' @ isolation_level (Some rt) @ '')''
      else ''Requested runtime `'' @ rt @ ''` not available to Docker (has: '' @ join_with '', '' avail @ '') - falling back to runc'')"

definition check_runtime :: "('k, 's) share_env \<Rightarrow> string option \<Rightarrow> unit sio" where
  "check_runtime env rt =
     (case rt of
        Some r \<Rightarrow> vbind (detect_docker_runtimes env) (\<lambda>avail. say (runtime_note r avail))
      | None \<Rightarrow> vret ())"

definition start_state ::
  "('k, 's) share_env \<Rightarrow> share_opts \<Rightarrow> string \<Rightarrow> string \<Rightarrow> string \<Rightarrow>
   (string \<times> (string \<Rightarrow> string \<Rightarrow> string + string) \<times> workload_runtime) option \<Rightarrow> resources \<Rightarrow> capability list \<Rightarrow> app_state" where
  "start_state env opts pubkey token endpoint_id gpu rs caps =
     \<lparr>as_gpu = map_option (fst \<circ> snd) gpu, as_wgsl = map_option (snd \<circ> snd) gpu,
      as_jobs = with_persistence (se_receipts env), as_busy = MAX_CONCURRENT_JOBS, as_sessions = MAX_CONCURRENT_SESSIONS,
      as_inbound = MAX_CONCURRENT_INBOUND_STREAMS, as_token = token, as_endpoint_id = endpoint_id, as_pubkey = pubkey,
      as_gpu_model = announced_model opts gpu, as_vram_mb = so_vram_mb opts, as_price = micro (so_price_usdc opts),
      as_price_per_hour = micro (case so_price_usdc_per_hour opts of Some p \<Rightarrow> p | None \<Rightarrow> so_price_usdc opts),
      as_usdc_mint = so_usdc_mint opts, as_network = so_network opts, as_resources = rs, as_capabilities = caps,
      as_vm = vm_manager_new (so_runtime opts), as_rpc_url = so_rpc_url opts, as_require_payment = so_require_payment opts,
      as_escrow_program = so_escrow_program opts, as_container_runtime = so_runtime opts,
      as_allow_runc_untrusted = so_allow_runc_untrusted opts, as_gpu_device = so_gpu_device opts, as_served = served_empty\<rparr>"

text \<open>Up to the state of the node, with the token and whether it was made up.\<close>

definition share_begin :: "('k, 's) share_env \<Rightarrow> share_opts \<Rightarrow> (app_state \<times> bool) sio" where
  "share_begin env opts =
     vbind mark_provider_running (\<lambda>_.
     vbind (vlift (require (\<not> so_require_payment opts \<or> so_rpc_url opts \<noteq> None)
       ''--require-payment needs --rpc-url to verify escrows on-chain'')) (\<lambda>_.
     vbind (share_payout env opts) (\<lambda>pubkey.
     vbind (share_token env opts) (\<lambda>(token, generated).
     vbind (vlift (require (flt (Fin 0) (so_price_usdc opts) \<and> flt (so_price_usdc opts) (f_lit 1000000))
       ''--price-usdc must be positive'')) (\<lambda>_.
     let gpu = share_gpu env opts in
     vbind (on_keys (load_or_create_node_key (se_keys env))) (\<lambda>secret.
     vbind (vlift (se_bind env secret)) (\<lambda>endpoint_id.
     vbind (vlift (ok_or (detect_resources env (if gpu \<noteq> None then 1 else 0) (if gpu \<noteq> None then so_vram_mb opts else 0)
         (map_option share_cpu_millis (so_share_cpu opts)) (so_share_memory_mb opts)) ''shared is clamped to total'')) (\<lambda>rs.
     vbind (check_runtime env (so_runtime opts)) (\<lambda>_.
     vbind (detect_capabilities env (gpu \<noteq> None) (so_runtime opts)) (\<lambda>caps.
     vret (start_state env opts pubkey token endpoint_id gpu rs caps, generated)))))))))))"

text \<open>Then the VMs of an earlier run are adopted.\<close>

definition adopt_earlier :: "('k, 's) share_env \<Rightarrow> app_state \<Rightarrow> (app_state \<times> nat) sio" where
  "adopt_earlier env st m =
     (case reconcile (ne_vm (se_node env)) (se_now env) (as_vm st) (as_resources st) (sm_vms m) of
        ((mgr, rs, adopted), h) \<Rightarrow> (Inr (st\<lparr>as_vm := mgr, as_resources := rs\<rparr>, adopted), m\<lparr>sm_vms := h\<rparr>))"

text \<open>
  The tasks that run beside the peer server: the reaper of \<open>reap_expired\<close>, the HTTP front, an announcer of
  \<open>announce_once\<close> per directory, the first pulls and the hosting cycle; a number is a period in seconds.
\<close>

datatype provider_task =
    LeaseReaper nat | HttpFront string | Announcer string nat | BootstrapPull "string list" | AutoHost nat

definition http_front :: "('k, 's) share_env \<Rightarrow> share_opts \<Rightarrow> provider_task list sio" where
  "http_front env opts =
     (if so_no_http opts then vret []
      else vbind (vlift (se_addr env (so_bind_addr opts))) (\<lambda>addr.
        case se_listen env addr of
          Inr _ \<Rightarrow> vret [HttpFront addr]
        | Inl e \<Rightarrow> vbind (say (''   HTTP API off - could not bind '' @ addr @ '': '' @ e)) (\<lambda>_. vret [])))"

fun announcers :: "('k, 's) share_env \<Rightarrow> string list \<Rightarrow> string + provider_task list" where
  "announcers env [] = Inr []"
| "announcers env (dir # dirs) =
     rbind (ok_or (se_node_id env dir) (''invalid --directory node id: '' @ dir)) (\<lambda>dir_id.
     rbind (announcers env dirs) (\<lambda>ts. Inr (Announcer dir_id 60 # ts)))"

definition share :: "('k, 's) share_env \<Rightarrow> share_opts \<Rightarrow> (app_state \<times> nat \<times> provider_task list) sio" where
  "share env opts =
     vbind (share_begin env opts) (\<lambda>(st, generated).
     vbind (adopt_earlier env st) (\<lambda>(st, adopted).
     vbind (http_front env opts) (\<lambda>http.
     vbind (vlift (announcers env (resolve_directories (se_var env) (se_default_directory env) (so_directory opts)))) (\<lambda>ann.
     let bootstrap = bootstrap_models (se_gateway env) in
     vret (st, adopted, [LeaseReaper 30] @ http @ ann @ (if bootstrap = [] then [] else [BootstrapPull bootstrap]) @ [AutoHost 300])))))"

section \<open>Announcing\<close>

definition utilization_of :: "app_state \<Rightarrow> f64" where
  "utilization_of st = fsub (Fin 1) (fdiv (f_of_u64 (of_nat (as_busy st))) (f_of_u64 (of_nat MAX_CONCURRENT_JOBS)))"

definition announcement_of :: "app_state \<Rightarrow> string list \<Rightarrow> string list \<Rightarrow> provider_announcement" where
  "announcement_of st served_models warm =
     \<lparr>pa_identity = as_endpoint_id st, pa_resources = as_resources st, pa_capabilities = as_capabilities st, pa_region = None,
      pa_price = as_price_per_hour st, pa_reputation = Fin 0, pa_utilization = utilization_of st, pa_health = Healthy,
      pa_served_models = served_models, pa_warm_models = warm\<rparr>"

text \<open>\<open>dial\<close> is the exchange with the directory.\<close>

definition announce_once ::
  "signer \<Rightarrow> (signed_payload \<Rightarrow> string + response) \<Rightarrow> i64 \<Rightarrow> app_state \<Rightarrow> string list \<Rightarrow> string list \<Rightarrow> string + unit" where
  "announce_once sg dial now st served_models warm =
     rbind (dial (sign_announcement sg (announcement_of st served_models warm) now)) (\<lambda>resp.
     case resp of
       SAck \<Rightarrow> Inr ()
     | SError message \<Rightarrow> Inl (''directory rejected announce: '' @ message)
     | _ \<Rightarrow> Inl ''unexpected directory response'')"

section \<open>What is shared\<close>

lemma rv_with_ok: "bt_ok v \<Longrightarrow> bt_ok (rv_with v k x)"
  by (simp add: rv_with_def bt_ok_insert)

lemma amt_with: "bt_ok v \<Longrightarrow> amt (rv_with v k x) k' = (if k = k' then unat x else amt v k')"
  by (simp add: rv_with_def amt_def rv_get_def bt_get_insert)

lemma rv_get_with: "bt_ok v \<Longrightarrow> rv_get (rv_with v k x) k' = (if k = k' then x else rv_get v k')"
  by (simp add: rv_with_def rv_get_def bt_get_insert)

lemma total_ok: "bt_ok (detected_total env n vram)"
  by (simp add: detected_total_def Let_def rv_with_ok)

lemma total_amounts:
  "rv_get (detected_total env n vram) Cpu = cpu_millicores env"
  "rv_get (detected_total env n vram) Memory = total_memory_mib env"
  "rv_get (detected_total env n vram) Gpu = n"
  by (simp_all add: detected_total_def Let_def rv_get_with rv_with_ok word_gt_0)

lemma shared_ok: "bt_ok tot \<Longrightarrow> bt_ok (shared_slice tot cpu mem)"
  by (simp add: shared_slice_def Let_def rv_with_ok split: option.splits)

lemma shared_amounts:
  assumes "bt_ok tot"
  shows "rv_get (shared_slice tot cpu mem) k =
    (case k of
       Cpu \<Rightarrow> (case cpu of Some c \<Rightarrow> min c (rv_get tot Cpu) | None \<Rightarrow> rv_get tot Cpu)
     | Memory \<Rightarrow> (case mem of Some c \<Rightarrow> min c (rv_get tot Memory) | None \<Rightarrow> rv_get tot Memory)
     | _ \<Rightarrow> rv_get tot k)"
  using assms by (cases k) (simp_all add: shared_slice_def Let_def rv_with_ok rv_get_with split: option.splits)

lemma shared_within: "bt_ok tot \<Longrightarrow> amt (shared_slice tot cpu mem) k \<le> amt tot k"
  by (simp add: amt_def shared_amounts flip: word_le_nat_alt split: resource_kind.splits option.splits)

text \<open>The slice is declared whatever the machine and the options are.\<close>

lemma detected:
  "detect_resources env n vram cpu mem =
     Some \<lparr>r_total = detected_total env n vram, r_shared = shared_slice (detected_total env n vram) cpu mem, r_allocated = []\<rparr>"
proof -
  let ?tot = "detected_total env n vram"
  have "declare_resources ?tot (shared_slice ?tot cpu mem) =
      Inr \<lparr>r_total = ?tot, r_shared = shared_slice ?tot cpu mem, r_allocated = []\<rparr>"
    by (subst declare_Inr [OF total_ok shared_ok [OF total_ok]]) (simp add: shared_within total_ok)
  then show ?thesis by (simp add: detect_resources_def Let_def)
qed

section \<open>A provider that has started\<close>

text \<open>The address announced.\<close>

lemma payout_of_share:
  assumes "share_payout env opts m = (Inr pubkey, m')"
  shows "if so_no_payout opts then pubkey = DONATE_SENTINEL else receivable (py_sol (se_payout env)) pubkey"
proof (cases "so_no_payout opts")
  case True
  then show ?thesis using assms by (auto simp: share_payout_def result_iff)
next
  case False
  then obtain b where "payout_resolve (se_payout env) (ce_crypto (ne_chain (se_node env))) (so_payout opts)
      (se_var env ''CLOUDIY_PAYOUT_ADDRESS'') (sm_box m) = (Inr pubkey, b)"
    using assms by (auto simp: share_payout_def on_box_def split: prod.splits)
  from resolved_cases [OF this] False show ?thesis by (auto intro: saved_receivable loaded_receivable)
qed

text \<open>A started node is in the state in which the node of \<open>Node_World\<close> boots.\<close>

definition idle_world :: "app_state \<Rightarrow> node_world" where
  "idle_world st = \<lparr>nw_app = st, nw_running = {#}, nw_kernels = 0, nw_starting = {#}, nw_vms = {#}, nw_lost = {#}\<rparr>"

lemma start_boots:
  assumes "detect_resources env n vram cpu mem = Some rs"
  shows "node_boot (idle_world (start_state env opts pubkey token endpoint_id gpu rs caps))"
proof -
  define tot where "tot = detected_total env n vram"
  have "declare_resources tot (shared_slice tot cpu mem) = Inr rs"
    using assms by (simp add: detect_resources_def tot_def Let_def split: sum.splits)
  moreover have "bt_ok tot" "bt_ok (shared_slice tot cpu mem)" by (simp_all add: tot_def total_ok shared_ok)
  ultimately show ?thesis by (auto simp: node_boot_def idle_world_def start_state_def)
qed

lemma begin_cases:
  assumes "share_begin env opts m = (Inr (st, generated), m')"
  obtains pubkey token endpoint_id gpu rs caps n vram m1 m2 where
    "st = start_state env opts pubkey token endpoint_id gpu rs caps"
    "so_require_payment opts \<longrightarrow> so_rpc_url opts \<noteq> None"
    "share_payout env opts m1 = (Inr pubkey, m2)"
    "flt (Fin 0) (so_price_usdc opts)" "flt (so_price_usdc opts) (f_lit 1000000)"
    "gpu = share_gpu env opts" "n = (if gpu \<noteq> None then 1 else 0)" "vram = (if gpu \<noteq> None then so_vram_mb opts else 0)"
    "detect_resources env n vram (map_option share_cpu_millis (so_share_cpu opts)) (so_share_memory_mb opts) = Some rs"
    "generated \<longleftrightarrow> so_token opts = None"
  using assms
  by (auto simp: share_begin_def share_token_def Let_def result_iff ok_or_def split: option.splits if_splits)

section \<open>Adoption\<close>

lemma adopt_resources_ok: "bt_ok (adopt_resources f)"
  by (simp add: adopt_resources_def Let_def rv_with_ok)

lemma adopt_line_slice:
  assumes "adopt_line env now line (self, rs, n) h = ((self', rs', n'), h')" and "resources_ok rs"
  shows "resources_ok rs' \<and> r_shared rs' = r_shared rs \<and> r_total rs' = r_total rs"
  using assms allocate_effect [OF assms(2) adopt_resources_ok]
  by (auto simp: adopt_line_def Let_def split: if_splits prod.splits sum.splits bool.splits)

lemma adopt_lines_slice:
  "adopt_lines env now ls (self, rs, n) h = ((self', rs', n'), h') \<Longrightarrow> resources_ok rs \<Longrightarrow>
   resources_ok rs' \<and> r_shared rs' = r_shared rs \<and> r_total rs' = r_total rs"
proof (induction ls arbitrary: self rs n h)
  case Nil
  then show ?case by simp
next
  case (Cons l ls)
  obtain self1 rs1 n1 h1 where l: "adopt_line env now l (self, rs, n) h = ((self1, rs1, n1), h1)"
    by (metis prod.exhaust)
  from Cons.prems(1) l have r: "adopt_lines env now ls (self1, rs1, n1) h1 = ((self', rs', n'), h')" by simp
  note s = adopt_line_slice [OF l Cons.prems(2)]
  then show ?case using Cons.IH [OF r] by simp
qed

lemma reconcile_slice:
  assumes "reconcile env now self rs h = ((self', rs', n'), h')" and "resources_ok rs"
  shows "resources_ok rs' \<and> r_shared rs' = r_shared rs \<and> r_total rs' = r_total rs"
  using assms adopt_lines_slice [OF _ assms(2)]
  by (auto simp: reconcile_def split: prod.splits sum.splits if_splits)

lemma adopted_state:
  assumes "adopt_earlier env st0 m = (Inr (st, n), m')" and "resources_ok (as_resources st0)"
  shows "st = st0\<lparr>as_vm := as_vm st, as_resources := as_resources st\<rparr>" "resources_ok (as_resources st)"
    "r_shared (as_resources st) = r_shared (as_resources st0)" "r_total (as_resources st) = r_total (as_resources st0)"
proof -
  obtain mgr rs k h where r: "reconcile (ne_vm (se_node env)) (se_now env) (as_vm st0) (as_resources st0) (sm_vms m) = ((mgr, rs, k), h)"
    by (metis prod.exhaust)
  then have st: "st = st0\<lparr>as_vm := mgr, as_resources := rs\<rparr>" using assms(1) by (simp add: adopt_earlier_def)
  show "st = st0\<lparr>as_vm := as_vm st, as_resources := as_resources st\<rparr>" by (simp add: st)
  show "resources_ok (as_resources st)" "r_shared (as_resources st) = r_shared (as_resources st0)"
    "r_total (as_resources st) = r_total (as_resources st0)"
    using reconcile_slice [OF r assms(2)] by (simp_all add: st)
qed

section \<open>What is announced\<close>

text \<open>The share of the permits that are taken, exactly.\<close>

lemma quarter:
  assumes "n \<le> 4"
  shows "rd (of_nat n / 4) = (of_nat n / 4 :: rat)" "rd (of_nat n) = (of_nat n :: rat)" "rd (1 - of_nat n / 4) = (1 - of_nat n / 4 :: rat)"
proof -
  have k16: "rd (of_nat m / 4) = (of_nat m / 4 :: rat)" if "m \<le> 16" for m
    using rd_exact [of "of_nat m / 4" "int m" "- 2"] that by (simp add: power_int_minus)
  have k: "rd (of_nat (4 - n) / 4) = (of_nat (4 - n) / 4 :: rat)" by (rule k16) simp
  show "rd (of_nat n / 4) = (of_nat n / 4 :: rat)" using assms by (intro k16) simp
  show "rd (of_nat n) = (of_nat n :: rat)" using k16 [of "4 * n"] assms by simp
  have "1 - of_nat n / 4 = (of_nat (4 - n) / 4 :: rat)" using assms by (simp add: of_nat_diff field_simps)
  then show "rd (1 - of_nat n / 4) = (1 - of_nat n / 4 :: rat)" by (simp only: k)
qed

lemma utilization_exact:
  assumes "as_busy st \<le> MAX_CONCURRENT_JOBS"
  shows "in_unit (utilization_of st)" "f_val (utilization_of st) = 1 - of_nat (as_busy st) / of_nat MAX_CONCURRENT_JOBS"
proof -
  define n where "n = as_busy st"
  have n: "n \<le> 4" using assms by (simp add: n_def MAX_CONCURRENT_JOBS_def)
  then have q: "(of_nat n :: rat) \<le> 4" by (metis of_nat_le_iff of_nat_numeral)
  have f: "is_finite (f_of_u64 (of_nat k))" "f_val (f_of_u64 (of_nat k)) = of_nat k" if "k \<le> 4" for k
  proof -
    have "unat (of_nat k :: u64) = k" using that by (simp add: unat_of_nat take_bit_nat_eq_self)
    moreover have "(of_nat k :: rat) \<le> 4" using that by (metis of_nat_le_iff of_nat_numeral)
    ultimately show "is_finite (f_of_u64 (of_nat k))" "f_val (f_of_u64 (of_nat k)) = of_nat k"
      using to_f64_in_range [of "of_nat k" False] quarter(2) [OF that] max_bound_big [of "of_nat k"] by (simp_all add: f_of_u64_def)
  qed
  define y where "y = fdiv (f_of_u64 (of_nat n)) (f_of_u64 (of_nat 4))"
  have d: "is_finite y" "f_val y = of_nat n / 4"
    unfolding y_def using fdiv_finite [of "f_of_u64 (of_nat n)" "f_of_u64 (of_nat 4)"] f [OF n] f [of 4] quarter(1) [OF n]
      max_bound_big [of "of_nat n / 4"] q by simp_all
  have neg: "is_finite x \<Longrightarrow> is_finite (fneg x) \<and> f_val (fneg x) = - f_val x" for x by (cases x) auto
  have u: "utilization_of st = fadd (Fin 1) (fneg y)"
    by (simp add: utilization_of_def fsub_def MAX_CONCURRENT_JOBS_def y_def n_def)
  have v: "rd (f_val (Fin 1) + f_val (fneg y)) = 1 - of_nat n / 4" using neg [OF d(1)] quarter(3) [OF n] by (simp add: d(2))
  have b: "\<bar>1 - of_nat n / 4 :: rat\<bar> < max_bound" using max_bound_gt(3) q by (simp add: abs_less_iff)
  have s: "is_finite (utilization_of st)" "f_val (utilization_of st) = 1 - of_nat n / 4"
    using fadd_finite [of "Fin 1" "fneg y", unfolded v, OF _ _ b] neg [OF d(1)] by (simp_all add: u)
  then show "in_unit (utilization_of st)" "f_val (utilization_of st) = 1 - of_nat (as_busy st) / of_nat MAX_CONCURRENT_JOBS"
    using q by (simp_all add: in_unit_def MAX_CONCURRENT_JOBS_def n_def)
qed

text \<open>
  A runtime that Docker does not have is reported as replaced by \<open>runc\<close>, but its isolation is what the node
  announces when Docker answers, and the runs still ask for it.
\<close>

lemma missing_runtime_announced:
  assumes "rt \<notin> set avail" and "docker_supports (se_docker env) docker_default (sm_docker m) = (True, h)"
  shows "(\<exists>start. runtime_note rt avail = start @ ''falling back to runc'') \<and>
    (\<exists>caps m'. detect_capabilities env gpu (Some rt) m = (Inr caps, m') \<and> isolation_level (Some rt) \<in> set caps)"
proof
  show "\<exists>start. runtime_note rt avail = start @ ''falling back to runc''"
    using assms(1) by (intro exI [of _ "''Requested runtime `'' @ rt @ ''` not available to Docker (has: '' @ join_with '', '' avail @ '') - ''"])
      (simp add: runtime_note_def)
  show "\<exists>caps m'. detect_capabilities env gpu (Some rt) m = (Inr caps, m') \<and> isolation_level (Some rt) \<in> set caps"
    using assms(2) by (simp add: detect_capabilities_def vbind_def vret_def on_docker_def)
qed

text \<open>One announcer for every directory, well within the life of an announcement.\<close>

lemma announcers_Inr:
  "announcers env dirs = Inr ts \<longleftrightarrow> list_all2 (\<lambda>d t. \<exists>i. se_node_id env d = Some i \<and> t = Announcer i 60) dirs ts"
  by (induction dirs arbitrary: ts) (auto simp: result_iff list_all2_Cons1 ok_or_def split: option.splits)

lemma heartbeat_in_time: "2 * 60 < sint ANNOUNCE_TTL_SECS"
  by (simp add: ANNOUNCE_TTL_SECS_def)

lemma http_front_tasks: "http_front env opts m = (Inr ts, m') \<Longrightarrow> ts = [] \<or> (\<exists>a. ts = [HttpFront a]) \<and> \<not> so_no_http opts"
  by (auto simp: http_front_def result_iff split: if_splits)
    (auto simp: result_iff split: sum.splits)

section \<open>The properties\<close>

lemma share_parts:
  assumes "share env opts m = (Inr (st, adopted, tasks), m')"
  obtains st0 generated m1 m2 http ann where "share_begin env opts m = (Inr (st0, generated), m1)"
    and "adopt_earlier env st0 m1 = (Inr (st, adopted), m2)" and "http_front env opts m2 = (Inr http, m')"
    and "announcers env (resolve_directories (se_var env) (se_default_directory env) (so_directory opts)) = Inr ann"
    and "tasks = [LeaseReaper 30] @ http @ ann @
      (if bootstrap_models (se_gateway env) = [] then [] else [BootstrapPull (bootstrap_models (se_gateway env))]) @ [AutoHost 300]"
  using assms by (auto simp: share_def result_iff Let_def)

lemma started_tasks:
  assumes "share env opts m = (Inr (st, adopted, tasks), m')"
  shows "LeaseReaper 30 \<in> set tasks \<and>
      (\<forall>t \<in> set (resolve_directories (se_var env) (se_default_directory env) (so_directory opts)). se_node_id env t \<noteq> None) \<and>
      (\<forall>i period. Announcer i period \<in> set tasks \<longleftrightarrow> period = 60 \<and>
        (\<exists>d \<in> set (resolve_directories (se_var env) (se_default_directory env) (so_directory opts)). se_node_id env d = Some i))"
proof -
  define dirs where "dirs = resolve_directories (se_var env) (se_default_directory env) (so_directory opts)"
  obtain m2 http ann where h: "http_front env opts m2 = (Inr http, m')" and an: "announcers env dirs = Inr ann"
    and ts: "tasks = [LeaseReaper 30] @ http @ ann @
      (if bootstrap_models (se_gateway env) = [] then [] else [BootstrapPull (bootstrap_models (se_gateway env))]) @ [AutoHost 300]"
    using share_parts [OF assms] unfolding dirs_def by metis
  note la = an [unfolded announcers_Inr]
  have ex: "\<forall>t \<in> set dirs. se_node_id env t \<noteq> None"
    using la by (induction dirs ann rule: list_all2_induct) auto
  have mem: "Announcer i period \<in> set ann \<longleftrightarrow> period = 60 \<and> (\<exists>d \<in> set dirs. se_node_id env d = Some i)" for i period
    using la by (induction dirs ann rule: list_all2_induct) auto
  have "Announcer i period \<in> set tasks \<longleftrightarrow> Announcer i period \<in> set ann" for i period
    using http_front_tasks [OF h] by (auto simp: ts)
  then show ?thesis
    using ex mem by (simp add: ts flip: dirs_def)
qed

lemma started_provider:
  assumes "share env opts m = (Inr (st, adopted, tasks), m')"
  shows "\<exists>st0 generated m1. share_begin env opts m = (Inr (st0, generated), m1) \<and>
      st = st0\<lparr>as_vm := as_vm st, as_resources := as_resources st\<rparr> \<and> node_reach (se_node env) False (idle_world st0)"
    and "resources_ok (as_resources st) \<and>
      rv_get (r_shared (as_resources st)) Cpu = (case so_share_cpu opts of
        Some c \<Rightarrow> min (share_cpu_millis c) (cpu_millicores env) | None \<Rightarrow> cpu_millicores env) \<and>
      rv_get (r_shared (as_resources st)) Memory = (case so_share_memory_mb opts of
        Some c \<Rightarrow> min c (total_memory_mib env) | None \<Rightarrow> total_memory_mib env) \<and>
      rv_get (r_shared (as_resources st)) Gpu = (if share_gpu env opts = None then 0 else 1)"
    and "if so_no_payout opts then as_pubkey st = DONATE_SENTINEL else receivable (py_sol (se_payout env)) (as_pubkey st)"
    and "as_require_payment st \<longrightarrow> as_rpc_url st \<noteq> None"
    and "as_price st = micro (so_price_usdc opts) \<and> flt (Fin 0) (so_price_usdc opts) \<and> flt (so_price_usdc opts) (f_lit 1000000)"
    and "as_busy st = MAX_CONCURRENT_JOBS \<and> as_sessions st = MAX_CONCURRENT_SESSIONS \<and>
      as_inbound st = MAX_CONCURRENT_INBOUND_STREAMS"
    and "LeaseReaper 30 \<in> set tasks \<and>
      (\<forall>t \<in> set (resolve_directories (se_var env) (se_default_directory env) (so_directory opts)). se_node_id env t \<noteq> None) \<and>
      (\<forall>i period. Announcer i period \<in> set tasks \<longleftrightarrow> period = 60 \<and>
        (\<exists>d \<in> set (resolve_directories (se_var env) (se_default_directory env) (so_directory opts)). se_node_id env d = Some i))"
proof -
  obtain st0 generated m1 m2 where b: "share_begin env opts m = (Inr (st0, generated), m1)"
    and a: "adopt_earlier env st0 m1 = (Inr (st, adopted), m2)"
    using assms by (rule share_parts)
  show "LeaseReaper 30 \<in> set tasks \<and>
      (\<forall>t \<in> set (resolve_directories (se_var env) (se_default_directory env) (so_directory opts)). se_node_id env t \<noteq> None) \<and>
      (\<forall>i period. Announcer i period \<in> set tasks \<longleftrightarrow> period = 60 \<and>
        (\<exists>d \<in> set (resolve_directories (se_var env) (se_default_directory env) (so_directory opts)). se_node_id env d = Some i))"
    using assms by (rule started_tasks)
  from b obtain pubkey token endpoint_id gpu rs caps n vram m2 m3 where
    st0: "st0 = start_state env opts pubkey token endpoint_id gpu rs caps"
    and paid: "so_require_payment opts \<longrightarrow> so_rpc_url opts \<noteq> None" and pk: "share_payout env opts m2 = (Inr pubkey, m3)"
    and price: "flt (Fin 0) (so_price_usdc opts)" "flt (so_price_usdc opts) (f_lit 1000000)"
    and gpu: "gpu = share_gpu env opts" "n = (if gpu \<noteq> None then 1 else 0)"
    and rs: "detect_resources env n vram (map_option share_cpu_millis (so_share_cpu opts)) (so_share_memory_mb opts) = Some rs"
    by (rule begin_cases) blast
  have rs': "rs = \<lparr>r_total = detected_total env n vram, r_shared = shared_slice (detected_total env n vram)
      (map_option share_cpu_millis (so_share_cpu opts)) (so_share_memory_mb opts), r_allocated = []\<rparr>"
    using rs by (simp add: detected)
  have boot: "node_boot (idle_world st0)" using start_boots [OF rs] by (simp add: st0)
  have ok0: "resources_ok (as_resources st0)"
    by (simp add: st0 start_state_def rs' resources_ok_def total_ok shared_ok shared_within)
  note ad = adopted_state [OF a ok0]
  have reach: "node_reach (se_node env) False (idle_world st0)" using boot by (rule booted)
  show "\<exists>st0 generated m1. share_begin env opts m = (Inr (st0, generated), m1) \<and>
      st = st0\<lparr>as_vm := as_vm st, as_resources := as_resources st\<rparr> \<and> node_reach (se_node env) False (idle_world st0)"
    using b ad(1) reach by blast
  have sh: "r_shared (as_resources st) = shared_slice (detected_total env n vram)
      (map_option share_cpu_millis (so_share_cpu opts)) (so_share_memory_mb opts)" by (simp add: ad(3) st0 start_state_def rs')
  have "n = (if share_gpu env opts = None then 0 else 1)"
    using gpu by simp
  then show "resources_ok (as_resources st) \<and>
      rv_get (r_shared (as_resources st)) Cpu = (case so_share_cpu opts of
        Some c \<Rightarrow> min (share_cpu_millis c) (cpu_millicores env) | None \<Rightarrow> cpu_millicores env) \<and>
      rv_get (r_shared (as_resources st)) Memory = (case so_share_memory_mb opts of
        Some c \<Rightarrow> min c (total_memory_mib env) | None \<Rightarrow> total_memory_mib env) \<and>
      rv_get (r_shared (as_resources st)) Gpu = (if share_gpu env opts = None then 0 else 1)"
    using ad(2) by (simp add: sh shared_amounts total_ok total_amounts split: option.splits)
  have f: "as_pubkey st = pubkey" "as_require_payment st = so_require_payment opts" "as_rpc_url st = so_rpc_url opts"
    "as_price st = micro (so_price_usdc opts)" "as_busy st = MAX_CONCURRENT_JOBS" "as_sessions st = MAX_CONCURRENT_SESSIONS"
    "as_inbound st = MAX_CONCURRENT_INBOUND_STREAMS"
    by (subst ad(1), simp add: st0 start_state_def)+
  show "if so_no_payout opts then as_pubkey st = DONATE_SENTINEL else receivable (py_sol (se_payout env)) (as_pubkey st)"
    using payout_of_share [OF pk] f by simp
  show "as_require_payment st \<longrightarrow> as_rpc_url st \<noteq> None" using paid f by simp
  show "as_price st = micro (so_price_usdc opts) \<and> flt (Fin 0) (so_price_usdc opts) \<and> flt (so_price_usdc opts) (f_lit 1000000)"
    using price f by simp
  show "as_busy st = MAX_CONCURRENT_JOBS \<and> as_sessions st = MAX_CONCURRENT_SESSIONS \<and>
      as_inbound st = MAX_CONCURRENT_INBOUND_STREAMS" using f by simp
qed


definition demo_share :: "(string, bytes) share_env" where
  "demo_share = \<lparr>se_node = demo_node_env\<lparr>ne_chain := demo_env\<lparr>ce_crypto := toy_crypto\<rparr>\<rparr>, se_payout = demo_payout, se_keys = demo_keys, se_docker = demo_docker_env,
     se_var = Map.empty, se_gpu = Inl ''no adapter'', se_parallelism = Some 8, se_memory_bytes = 8589934592,
     se_os = ''linux'', se_arch = ''x86_64'', se_code = ''code'', se_bind = (\<lambda>_. Inr ''node''), se_json_keys = (\<lambda>_. None),
     se_receipts = [], se_now = 0, se_addr = Inr, se_listen = (\<lambda>_. Inl ''in use''), se_node_id = Some,
     se_default_directory = ''dir'', se_gateway = demo_gateway_env\<rparr>"

definition demo_opts :: share_opts where
  "demo_opts = \<lparr>so_bind_addr = ''0.0.0.0:8080'', so_no_http = False, so_token = None, so_gpu_model = ''auto'', so_vram_mb = 0,
     so_price_usdc = Fin 1, so_price_usdc_per_hour = None, so_usdc_mint = ''mint'', so_network = ''solana-devnet'',
     so_escrow_program = ''prog'', so_directory = [], so_share_cpu = None, so_share_memory_mb = Some 4096, so_no_gpu = False,
     so_rpc_url = Some ''rpc'', so_require_payment = True, so_runtime = None, so_allow_runc_untrusted = False,
     so_gpu_device = None, so_payout = None, so_no_payout = False\<rparr>"

definition demo_begin_machine :: share_machine where
  "demo_begin_machine = \<lparr>sm_box = demo_operator, sm_keys = Map.empty, sm_docker = [], sm_vms = [], sm_marker = False, sm_log = []\<rparr>"

lemma demo_share_starts: "\<exists>st n ts m'. share demo_share demo_opts demo_begin_machine = (Inr (st, n, ts), m')"
proof -
  have f: "flt (Fin 0) (Fin 1)" "flt (Fin 1) (f_lit 1000000)" by (simp_all add: flt_finite million)
  have k: "load_or_create_node_key demo_keys Map.empty =
      (Inr (replicate 32 7), [node_key_path demo_keys \<mapsto> \<lparr>kf_text = hex_encode (replicate 32 7), kf_private = True\<rparr>])"
    by (simp add: load_or_create_node_key_def load_or_create_key_def create_key_def demo_keys_def Let_def)
  obtain up h where d: "docker_supports demo_docker_env docker_default [] = (up, h)" by (cases "docker_supports demo_docker_env docker_default []")
  have x: "\<exists>x. x" by (rule exI [of _ True]) simp
  have "\<exists>st g m1. share_begin demo_share demo_opts demo_begin_machine = (Inr (st, g), m1)"
    by (simp add: share_begin_def result_iff share_payout_def share_token_def share_gpu_def check_runtime_def detect_capabilities_def
      mark_provider_running_def on_box_def on_keys_def on_docker_def demo_share_def demo_opts_def demo_begin_machine_def
      demo_resolves f k d x detected ok_or_def Let_def)
  then obtain st g m1 where b: "share_begin demo_share demo_opts demo_begin_machine = (Inr (st, g), m1)" by blast
  obtain mgr rs k h where "reconcile (ne_vm (se_node demo_share)) (se_now demo_share) (as_vm st) (as_resources st) (sm_vms m1) = ((mgr, rs, k), h)"
    by (metis prod.exhaust)
  moreover have "\<exists>ts m'. http_front demo_share demo_opts m = (Inr ts, m')" for m
    by (simp add: http_front_def result_iff demo_share_def demo_opts_def say_def)
  moreover have "\<exists>ts. announcers demo_share ds = Inr ts" for ds
    by (induction ds) (auto simp: demo_share_def ok_or_def rbind_def)
  ultimately show ?thesis using b by (simp add: share_def result_iff adopt_earlier_def Let_def) blast
qed


end
