(* ===== verification/Cli.thy ===== *)
theory Cli
  imports Share Mcp_Theorems Canary
begin

text \<open>
  The command line, \<open>crates/cloudiy/src/main.rs\<close>: the commands as they are declared, and what \<open>main\<close> makes of
  each. The commands of a consumer run here, over the history of what they ask and send; a command that starts
  a server ends in the arguments the server gets. What a command prints is its value.
\<close>

section \<open>Commands\<close>

record share_flags =
  sf_bind_addr :: string
  sf_no_http :: bool
  sf_token :: "string option"
  sf_gpu_model :: string
  sf_vram_mb :: u64
  sf_price_usdc :: f64
  sf_price_usdc_per_hour :: "f64 option"
  sf_cluster :: "string option"
  sf_usdc_mint :: "string option"
  sf_escrow_program :: "string option"
  sf_network :: "string option"
  sf_directory :: "string list"
  sf_share_cpu :: "f64 option"
  sf_share_memory_mb :: "u64 option"
  sf_no_gpu :: bool
  sf_rpc_url :: "string option"
  sf_require_payment :: bool
  sf_runtime :: "string option"
  sf_allow_runc_untrusted :: bool
  sf_gpu_device :: "string option"
  sf_payout :: "string option"
  sf_no_payout :: bool

record run_flags =
  rf_to :: "string option"
  rf_via :: "string list"
  rf_kernel :: string
  rf_data :: string
  rf_token :: "string option"
  rf_x402_demo :: bool
  rf_escrow :: "string option"
  rf_job_id :: "string option"
  rf_release :: bool
  rf_wallet :: "string option"
  rf_rpc_url :: "string option"
  rf_cluster :: "string option"
  rf_escrow_program :: "string option"
  rf_replicas :: nat
  rf_pay :: bool
  rf_amount :: "f64 option"
  rf_timeout_secs :: i64

text \<open>Where the money is: the flags of \<open>pay\<close>, \<open>release\<close> and \<open>refund\<close>.\<close>

record chain_flags =
  cf_wallet :: "string option"
  cf_rpc_url :: "string option"
  cf_cluster :: "string option"
  cf_escrow_program :: "string option"

record launch_flags =
  lf_to :: "string option"
  lf_via :: "string list"
  lf_image :: string
  lf_cpu :: f64
  lf_memory_mb :: u64
  lf_capabilities :: "string list"
  lf_timeout_secs :: u64
  lf_token :: "string option"
  lf_x402_demo :: bool
  lf_command :: "string list"

record mcp_flags =
  mf_rpc_url :: "string option"
  mf_cluster :: "string option"
  mf_wallet :: "string option"
  mf_max_spend_usdc :: f64
  mf_max_per_job_usdc :: f64
  mf_directory :: "string list"
  mf_allow_mainnet :: bool
  mf_read_only :: bool

datatype vm_action =
    VmUp string "string option" f64 u64 "u16 list" "string option" bool
  | VmStatusOf string
  | VmDown string bool

datatype volume_action = VolumeSig "string option" | VolumeCheck string

datatype cli_command =
    ShareCmd share_flags
  | RunCmd run_flags
  | PayCmd string chain_flags "f64 option" i64
  | ReleaseCmd string chain_flags
  | RefundCmd string chain_flags
  | LaunchCmd launch_flags
  | StatusCmd string string
  | InfoCmd string
  | CanaryCmd string "string option" "string option"
  | DeployCmd "string option" "string list" string "string option" bool
  | ProvidersCmd "string list"
  | VmCmd vm_action
  | ShellCmd string "string option" "string list"
  | TunnelCmd string u16 "u16 option" "string option"
  | GatewayCmd string "string option" "string list"
  | DirectoryCmd
  | IdCmd
  | VolumeCmd volume_action
  | McpCmd mcp_flags

text \<open>The conflicts declared for the parser, which refuses such a command line.\<close>

fun no_conflict :: "cli_command \<Rightarrow> bool" where
  "no_conflict (RunCmd f) \<longleftrightarrow> (rf_to f = None \<or> rf_via f = []) \<and> (rf_pay f \<longrightarrow> rf_escrow f = None \<and> rf_job_id f = None)"
| "no_conflict (LaunchCmd f) \<longleftrightarrow> lf_to f = None \<or> lf_via f = []"
| "no_conflict (DeployCmd to via _ _ _) \<longleftrightarrow> to = None \<or> via = []"
| "no_conflict _ \<longleftrightarrow> True"

section \<open>The environment\<close>

text \<open>
  Beside the network: the directory key and the node key as they are found, the files a command reads, the
  terminal, and the probes of the canary command.
\<close>

record ('k, 's) cli_env =
  cl_net :: "('k, 's) net_env"
  cl_addr :: "string \<Rightarrow> string + string"
  cl_spec :: "string \<Rightarrow> string + workload_spec"
  cl_content :: "string \<Rightarrow> string option"
  cl_toml :: "string \<Rightarrow> string + volume_manifest"
  cl_show_debug :: "string \<Rightarrow> string"
  cl_keys :: key_env
  cl_disk :: key_disk
  cl_public :: "bytes \<Rightarrow> string"
  cl_stty :: "string option"
  cl_listen :: "u16 \<Rightarrow> string + nat"
  cl_unicode :: unicode
  cl_clip :: string
  cl_probe :: "string \<Rightarrow> string + probe_env"
  cl_worker :: worker_env
  cl_clock :: "nat \<Rightarrow> nat"
  cl_hosting :: hosting
  cl_commands :: "command list"

section \<open>Small commands\<close>

definition solana_config_of ::
  "environment \<Rightarrow> string option \<Rightarrow> string option \<Rightarrow> string option \<Rightarrow> string option \<Rightarrow> string + solana_config" where
  "solana_config_of var c rpc_url program mint =
     resolve_with \<lparr>ov_cluster = c, ov_rpc_url = rpc_url, ov_usdc_mint = mint, ov_escrow_program = program\<rparr> var"

definition resolved ::
  "('k, 's) cli_env \<Rightarrow> string option \<Rightarrow> string option \<Rightarrow> string option \<Rightarrow> string option \<Rightarrow> (string, solana_config) nio" where
  "resolved env c rpc_url program mint = vlift (solana_config_of (nt_var (cl_net env)) c rpc_url program mint)"

text \<open>A probe alone never makes a provider trusted; the report says what it is worth.\<close>

record canary_report =
  ce_passed :: nat
  ce_total :: nat
  ce_score :: f64
  ce_tier :: string
  ce_policy :: ramp_policy

definition report_of :: "probe_result \<Rightarrow> canary_report option" where
  "report_of r =
     (if probe_total r = 0 then None
      else let rep = snd (registry_record_probe [] ''self'' r) in
        Some \<lparr>ce_passed = probe_passed r, ce_total = probe_total r, ce_score = rep_score rep,
          ce_tier = tier_label (reputation_tier rep), ce_policy = policy rep\<rparr>)"

definition canary_probe :: "('k, 's) cli_env \<Rightarrow> string \<Rightarrow> string option \<Rightarrow> string option \<Rightarrow> string + probe_result" where
  "canary_probe env model to token =
     (case to of
        Some node \<Rightarrow> rbind (cl_probe env node) (\<lambda>pe. Inr (probe_remote (cl_unicode env) (cl_clip env) pe model token))
      | None \<Rightarrow> Inr (fst (fst (probe_local (cl_unicode env) (cl_clip env) (cl_worker env) (cl_clock env) model (cl_hosting env) (cl_commands env)))))"

text \<open>Origins of the command line, then the ones of the environment.\<close>

definition allowed_origins :: "environment \<Rightarrow> string list \<Rightarrow> string list" where
  "allowed_origins var flags =
     flags @ (case var ''CLOUDIY_ALLOWED_ORIGIN'' of
        Some v \<Rightarrow> filter (\<lambda>s. s \<noteq> []) (map trim (split_on (CHR '','') v)) | None \<Rightarrow> [])"

text \<open>\<open>pay\<close>: the summary is printed with the command that spends the escrow.\<close>

definition pay_lines :: "('k, 's) net_env \<Rightarrow> string \<Rightarrow> funded_summary \<Rightarrow> string list" where
  "pay_lines env to s =
     [''Funded escrow: '' @ nt_show_f64 env (fdiv (f_of_u64 (fs_amount_micro s)) (f_lit 1000000)) @ '' USDC - provider '' @
        fs_provider_pubkey s @ '' (mint '' @ fs_usdc_mint s @ '')'',
      ''Escrow funded and confirmed on-chain'',
      ''   Job account: '' @ fs_escrow_account s, ''   Job id:      '' @ fs_job_uuid s, ''   Tx:          '' @ fs_tx s,
      '''', ''Run the paid job:'',
      ''  cloudiy run --to '' @ to @ '' --escrow '' @ fs_escrow_account s @ '' --job-id '' @ fs_job_uuid s @ '' --kernel <k> --data <d>'']"

definition cli_pay ::
  "('k, 's) net_env \<Rightarrow> string \<Rightarrow> string option \<Rightarrow> string \<Rightarrow> f64 option \<Rightarrow> i64 \<Rightarrow> (string, string list) nio" where
  "cli_pay env to wallet rpc_url amount_usdc timeout_secs =
     vbind (fund_escrow env to wallet rpc_url amount_usdc timeout_secs) (\<lambda>s. vret (pay_lines env to s))"

text \<open>\<open>print_vm\<close>, a line each.\<close>

definition vm_lines :: "('k, 's) net_env \<Rightarrow> vm_info \<Rightarrow> string list" where
  "vm_lines env info =
     [''VM:      '' @ vi_vm_id info, ''State:   '' @ vi_state info] @
     (if vi_state info = ''missing'' then []
      else [''Image:   '' @ vi_image info,
        ''Reserved: '' @ nt_show_f64 env (fdiv (f_of_u64 (vi_cpu_millis info)) (f_lit 1000)) @ '' vCPU - '' @
          show_word (vi_memory_mib info) @ '' MiB RAM'' @ (if vi_gpu info then '' - GPU'' else ''''),
        ''Disk:    '' @ vi_volume info @ '' (persistent)''] @
        (if vi_ports info \<noteq> [] then [''Ports:   '' @ join_with '', '' (map show_word (vi_ports info)) @ '' (reach via `cloudiy tunnel`)''] else []) @
        [case vi_lease_remaining_secs info of
           Some secs \<Rightarrow> ''Lease:   '' @ show_word (vi_lease info) @ '' micro-USDC @ '' @ show_word (vi_price_per_hour info) @
             ''/h - '' @ fmt_duration secs @ '' left''
         | None \<Rightarrow> ''Lease:   unmetered (dev mode)''])"

text \<open>One connection to the provider; each connection to the local port opens a stream on it.\<close>

definition client_connect :: "('k, 's) net_env \<Rightarrow> string \<Rightarrow> (string, 'k) nio" where
  "client_connect env to =
     vbind (vlift (ok_or (cr_parse_key (nt_crypto env) to) ''invalid provider Node ID'')) (\<lambda>node.
     vbind (\<lambda>h. (nt_dial env h (nt_key_text env node), h @ [EvConnect (nt_key_text env node)])) (\<lambda>_. vret node))"

definition tunnel ::
  "('k, 's) cli_env \<Rightarrow> string \<Rightarrow> u16 \<Rightarrow> u16 option \<Rightarrow> string option \<Rightarrow> (string, (string + unit) list) nio" where
  "tunnel env to port local_port token =
     vbind (client_connect (cl_net env) to) (\<lambda>node.
     vbind (vlift (cl_listen env (or_default port local_port))) (\<lambda>n.
     vfold (\<lambda>_ done1. vbind (vtry (tunnel_one (cl_net env) node port token)) (\<lambda>r. vret (done1 @ [r]))) [0..<n] []))"

section \<open>Main\<close>

datatype server =
    StartShare share_opts
  | StartGateway string "string option" "string list"
  | StartDirectory bytes
  | StartMcp mcp_opts

datatype ran =
    Ran run_outcome
  | Funded "string list"
  | Released release_result
  | Refunded refund_result
  | Shown shown
  | JobStatus status_response
  | NodeInfo node_info
  | Probed probe_result "canary_report option"
  | Found "provider_announcement list"
  | VmSeen vm_shown
  | VmGone bool
  | Opened string
  | Tunnelled "(string + unit) list"
  | Printed string
  | Starts server

definition share_opts_of :: "environment \<Rightarrow> share_flags \<Rightarrow> solana_config \<Rightarrow> share_opts" where
  "share_opts_of var f cfg =
     \<lparr>so_bind_addr = sf_bind_addr f, so_no_http = sf_no_http f, so_token = sf_token f, so_gpu_model = sf_gpu_model f,
      so_vram_mb = sf_vram_mb f, so_price_usdc = sf_price_usdc f, so_price_usdc_per_hour = sf_price_usdc_per_hour f,
      so_usdc_mint = sc_usdc_mint cfg, so_network = or_default (sc_x402_network cfg) (sf_network f),
      so_escrow_program = sc_escrow_program cfg, so_directory = sf_directory f, so_share_cpu = sf_share_cpu f,
      so_share_memory_mb = sf_share_memory_mb f, so_no_gpu = sf_no_gpu f, so_rpc_url = explicit_rpc_url var (sf_rpc_url f),
      so_require_payment = sf_require_payment f, so_runtime = sf_runtime f, so_allow_runc_untrusted = sf_allow_runc_untrusted f,
      so_gpu_device = sf_gpu_device f, so_payout = sf_payout f, so_no_payout = sf_no_payout f\<rparr>"

definition run_args_of :: "run_flags \<Rightarrow> solana_config \<Rightarrow> run_args" where
  "run_args_of f cfg =
     \<lparr>ra_to = rf_to f, ra_via = rf_via f, ra_kernel = rf_kernel f, ra_data = as_bytes (rf_data f), ra_token = rf_token f,
      ra_x402_demo = rf_x402_demo f, ra_escrow = rf_escrow f, ra_job_id = rf_job_id f, ra_auto_release = rf_release f,
      ra_wallet = rf_wallet f, ra_rpc_url = sc_rpc_url cfg, ra_escrow_program = sc_escrow_program cfg,
      ra_replicas = rf_replicas f, ra_pay = rf_pay f, ra_amount = rf_amount f, ra_timeout_secs = rf_timeout_secs f\<rparr>"

definition mcp_opts_of :: "mcp_flags \<Rightarrow> solana_config \<Rightarrow> mcp_opts" where
  "mcp_opts_of f cfg =
     \<lparr>mo_rpc_url = sc_rpc_url cfg, mo_cluster = sc_cluster cfg, mo_escrow_program = sc_escrow_program cfg,
      mo_keypair = mf_wallet f, mo_max_spend_usdc = mf_max_spend_usdc f, mo_max_per_job_usdc = mf_max_per_job_usdc f,
      mo_directory = mf_directory f, mo_allow_mainnet = mf_allow_mainnet f, mo_read_only = mf_read_only f\<rparr>"

text \<open>The file a key is read from is loaded with the network history, as every wallet is.\<close>

fun vm_command :: "('k, 's) net_env \<Rightarrow> vm_action \<Rightarrow> (string, ran) nio" where
  "vm_command env (VmUp to img cpu memory_mb ports token x402_demo) =
     vbind (cli_vm_up env to img cpu memory_mb ports token x402_demo) (\<lambda>s. vret (VmSeen s))"
| "vm_command env (VmStatusOf to) = vbind (cli_vm_status env to) (\<lambda>i. vret (VmSeen (VmShown i)))"
| "vm_command env (VmDown to wipe) = vbind (cli_vm_down env to wipe) (\<lambda>_. vret (VmGone wipe))"

fun volume_command :: "('k, 's) cli_env \<Rightarrow> volume_action \<Rightarrow> (string, ran) nio" where
  "volume_command env (VolumeSig wallet) =
     vbind (load_wallet (cl_net env) wallet) (\<lambda>kp. vret (Printed (volume_sig kp)))"
| "volume_command env (VolumeCheck path) =
     vbind (vlift (volume_check (cl_toml env) (cl_show_debug env) path (cl_content env path))) (\<lambda>t. vret (Printed t))"

fun cli_main :: "('k, 's) cli_env \<Rightarrow> cli_command \<Rightarrow> (string, ran) nio" where
  "cli_main env (ShareCmd f) =
     vbind (resolved env (sf_cluster f) None (sf_escrow_program f) (sf_usdc_mint f)) (\<lambda>cfg.
     vret (Starts (StartShare (share_opts_of (nt_var (cl_net env)) f cfg))))"
| "cli_main env (RunCmd f) =
     vbind (resolved env (rf_cluster f) (rf_rpc_url f) (rf_escrow_program f) None) (\<lambda>cfg.
     vbind (run_job (cl_net env) (run_args_of f cfg)) (\<lambda>out. vret (Ran out)))"
| "cli_main env (PayCmd to f amount timeout_secs) =
     vbind (resolved env (cf_cluster f) (cf_rpc_url f) None None) (\<lambda>cfg.
     vbind (cli_pay (cl_net env) to (cf_wallet f) (sc_rpc_url cfg) amount timeout_secs) (\<lambda>s. vret (Funded s)))"
| "cli_main env (ReleaseCmd escrow f) =
     vbind (resolved env (cf_cluster f) (cf_rpc_url f) (cf_escrow_program f) None) (\<lambda>cfg.
     vbind (cli_release (cl_net env) escrow (cf_wallet f) (sc_rpc_url cfg) (Some (sc_escrow_program cfg))) (\<lambda>r. vret (Released r)))"
| "cli_main env (RefundCmd escrow f) =
     vbind (resolved env (cf_cluster f) (cf_rpc_url f) (cf_escrow_program f) None) (\<lambda>cfg.
     vbind (cli_refund (cl_net env) escrow (cf_wallet f) (sc_rpc_url cfg) (Some (sc_escrow_program cfg))) (\<lambda>r. vret (Refunded r)))"
| "cli_main env (LaunchCmd f) =
     vbind (launch_workload (cl_net env) (lf_to f) (lf_via f) (lf_image f) (lf_cpu f) (lf_memory_mb f) (lf_capabilities f)
       (lf_timeout_secs f) (lf_token f) (lf_x402_demo f) (lf_command f)) (\<lambda>s. vret (Shown s))"
| "cli_main env (StatusCmd to jid) = vbind (job_status (cl_net env) to jid) (\<lambda>s. vret (JobStatus s))"
| "cli_main env (InfoCmd to) = vbind (cli_node_info (cl_net env) to) (\<lambda>i. vret (NodeInfo i))"
| "cli_main env (CanaryCmd model to token) =
     vbind (vlift (canary_probe env model to token)) (\<lambda>r. vret (Probed r (report_of r)))"
| "cli_main env (DeployCmd to via path token x402_demo) =
     vbind (deploy (cl_net env) to via (cl_spec env path) token x402_demo) (\<lambda>s. vret (Shown s))"
| "cli_main env (ProvidersCmd via) = vbind (providers (cl_net env) via) (\<lambda>ps. vret (Found ps))"
| "cli_main env (VmCmd a) = vm_command (cl_net env) a"
| "cli_main env (ShellCmd to token cmd) = vbind (shell_start (cl_net env) to token cmd (cl_stty env)) (\<lambda>v. vret (Opened v))"
| "cli_main env (TunnelCmd to port local_port token) =
     vbind (tunnel env to port local_port token) (\<lambda>rs. vret (Tunnelled rs))"
| "cli_main env (GatewayCmd addr web_dir flags) =
     vbind (vlift (cl_addr env addr)) (\<lambda>a. vret (Starts (StartGateway a web_dir (allowed_origins (nt_var (cl_net env)) flags))))"
| "cli_main env DirectoryCmd =
     vbind (vlift (fst (load_or_create_directory_key (cl_keys env) (cl_disk env)))) (\<lambda>secret. vret (Starts (StartDirectory secret)))"
| "cli_main env IdCmd =
     vbind (vlift (fst (load_or_create_node_key (cl_keys env) (cl_disk env)))) (\<lambda>secret. vret (Printed (cl_public env secret)))"
| "cli_main env (VolumeCmd a) = volume_command env a"
| "cli_main env (McpCmd f) =
     vbind (resolved env (mf_cluster f) (mf_rpc_url f) None None) (\<lambda>cfg. vret (Starts (StartMcp (mcp_opts_of f cfg))))"

section \<open>Which commands reach the chain\<close>

text \<open>The configuration a command spends money with.\<close>

fun overrides_of :: "cli_command \<Rightarrow> config_overrides option" where
  "overrides_of (RunCmd f) =
     (if rf_pay f \<or> rf_escrow f \<noteq> None
      then Some \<lparr>ov_cluster = rf_cluster f, ov_rpc_url = rf_rpc_url f, ov_usdc_mint = None, ov_escrow_program = rf_escrow_program f\<rparr>
      else None)"
| "overrides_of (PayCmd _ f _ _) =
     Some \<lparr>ov_cluster = cf_cluster f, ov_rpc_url = cf_rpc_url f, ov_usdc_mint = None, ov_escrow_program = None\<rparr>"
| "overrides_of (ReleaseCmd _ f) =
     Some \<lparr>ov_cluster = cf_cluster f, ov_rpc_url = cf_rpc_url f, ov_usdc_mint = None, ov_escrow_program = cf_escrow_program f\<rparr>"
| "overrides_of (RefundCmd _ f) =
     Some \<lparr>ov_cluster = cf_cluster f, ov_rpc_url = cf_rpc_url f, ov_usdc_mint = None, ov_escrow_program = cf_escrow_program f\<rparr>"
| "overrides_of _ = None"

text \<open>The program a call is made to; \<open>create_job\<close> takes the one the provider reports.\<close>

fun settled_by :: "chain_call \<Rightarrow> pubkey option" where
  "settled_by (ChRelease p _) = Some p"
| "settled_by (ChReleaseVerified p _ _ _ _ _) = Some p"
| "settled_by (ChRefund p _) = Some p"
| "settled_by _ = None"

definition on_config :: "('k, 's) net_env \<Rightarrow> string \<Rightarrow> string \<Rightarrow> net_event \<Rightarrow> bool" where
  "on_config env rpc_url program e \<longleftrightarrow> (\<forall>u c. e = EvChain u c \<longrightarrow>
     u = rpc_url \<and> (\<forall>p. settled_by c = Some p \<longrightarrow> parse_pubkey (nt_sol env rpc_url) program = Inr p))"

lemma on_config_simps [simp]:
  "on_config env rpc_url program (EvConnect a)" "on_config env rpc_url program (EvAsk a req)"
  "on_config env rpc_url program (EvRefundable es why)"
  "on_config env rpc_url program (EvChain u c) \<longleftrightarrow>
     u = rpc_url \<and> (\<forall>p. settled_by c = Some p \<longrightarrow> parse_pubkey (nt_sol env rpc_url) program = Inr p)"
  by (auto simp: on_config_def)

lemma emits_mono: "emits P m \<Longrightarrow> (\<And>e. P e \<Longrightarrow> Q e) \<Longrightarrow> emits Q m"
  unfolding emits_def by blast

lemma quiet_config: "quiet e \<Longrightarrow> on_config env rpc_url program e"
  by (cases e) auto

lemmas quietly = emits_mono [OF _ quiet_config]

lemma emits_lift: "(\<And>x. r = Inr x \<Longrightarrow> emits P (f x)) \<Longrightarrow> emits P (vbind (vlift r) f)"
  by (cases r) (auto simp: emits_def vbind_def vlift_def)

lemma emits_return: "emits P (f x) \<Longrightarrow> emits P (vbind (vret x) f)"
  by (simp add: emits_def vbind_def vret_def)

lemma emits_chain:
  assumes "\<forall>p. settled_by c = Some p \<longrightarrow> parse_pubkey (nt_sol env rpc_url) program = Inr p"
  shows "emits (on_config env rpc_url program) (on_chain env rpc_url c f)"
  using assms by (simp add: emits_def on_chain_def)

lemma emits_wallet_config: "emits (on_config env rpc_url program) (load_wallet env' w)"
  by (simp add: emits_def load_wallet_def)

lemmas config_rules = emits_bind emits_basic emits_chain emits_wallet_config emits_pure emits_try

lemma emits_fund: "emits (on_config env rpc_url program) (fund_escrow env to w rpc_url amount timeout)"
  unfolding fund_escrow_def Let_def by (intro config_rules quietly [OF emits_connect] quietly [OF emits_info]) auto

lemma emits_release: "emits (on_config env rpc_url program) (release_verified_cmd env escrow w rpc_url (Some program) inp outp sig key)"
  unfolding release_verified_cmd_def Let_def by (intro config_rules emits_lift) (simp add: or_default_def)

lemma emits_report: "emits (on_config env rpc_url program) (report_refundable stakes why)"
  by (simp add: emits_def report_refundable_def vret_def)

lemma emits_fund_all:
  "emits (on_config env (pc_rpc_url cfg) program) (fund_all env cfg nodes stakes)"
proof (induction nodes arbitrary: stakes)
  case Nil
  show ?case by (simp add: emits_basic)
next
  case (Cons node nodes)
  have k: "emits (on_config env (pc_rpc_url cfg) program) (case r of
       Inr s \<Rightarrow> fund_all env cfg nodes (stakes @ [\<lparr>fr_node = node, fr_escrow = fs_escrow_account s,
         fr_job_uuid = fs_job_uuid s, fr_amount = fs_amount_micro s\<rparr>])
     | Inl e \<Rightarrow> vbind (report_refundable stakes ''funding aborted before this run started'') (\<lambda>_.
         vlift (Inl (''funding the escrow for '' @ short_id node @ '': '' @ e))))" for r
    by (cases r) (auto intro: Cons.IH emits_bind emits_report)
  show ?case by (simp only: fund_all.simps) (intro emits_bind emits_try emits_fund k)
qed

lemma emits_settle:
  "emits (on_config env (pc_rpc_url cfg) (pc_escrow_program cfg)) (settle_winner env cfg inp stakes proofs win)"
proof -
  have "emits (on_config env (pc_rpc_url cfg) (pc_escrow_program cfg)) (settle_node env cfg inp stakes proofs node settled)"
    for node settled
    unfolding settle_node_def by (auto intro!: emits_bind emits_try emits_release split: option.split)
  then show ?thesis unfolding settle_winner_def by (intro emits_bind emits_if emits_vfold emits_basic emits_report)
qed

lemma emits_conclude:
  "emits (on_config env (pc_rpc_url cfg) (pc_escrow_program cfg)) (conclude_quorum env (Some cfg) inp stakes n st)"
  unfolding conclude_quorum_def Let_def
  by (auto intro!: emits_bind emits_settle emits_report split: option.split)

lemma emits_conclude_unpaid: "emits (on_config env rpc_url program) (conclude_quorum env None inp stakes n st)"
  unfolding conclude_quorum_def Let_def by (auto intro!: emits_bind emits_report split: option.split)

lemma emits_quorum:
  assumes "\<forall>cfg. cfg_opt = Some cfg \<longrightarrow> pc_rpc_url cfg = rpc_url \<and> pc_escrow_program cfg = program"
  shows "emits (on_config env rpc_url program) (run_quorum env via spec k inp tok demo n cfg_opt)"
proof -
  have f: "emits (on_config env rpc_url program) (case cfg_opt of Some cfg \<Rightarrow> fund_all env cfg targets [] | None \<Rightarrow> vret [])" for targets
    using assms emits_fund_all by (auto split: option.split)
  have s: "emits (on_config env rpc_url program)
      (case cfg_opt of Some cfg \<Rightarrow> vbind (load_wallet env (pc_wallet cfg)) (\<lambda>kp. vret (Some kp)) | None \<Rightarrow> vret None)"
    by (auto intro!: emits_bind emits_wallet_config split: option.split)
  have c: "emits (on_config env rpc_url program) (conclude_quorum env cfg_opt inp stakes n st)" for stakes st
  proof (cases cfg_opt)
    case None
    show ?thesis unfolding None by (rule emits_conclude_unpaid)
  next
    case (Some cfg)
    then show ?thesis using emits_conclude [of env cfg inp stakes n st] assms by simp
  qed
  show ?thesis unfolding run_quorum_def
    by (intro emits_bind f s c emits_basic quietly [OF emits_targets] quietly [OF emits_vfold [OF emits_ask_replica]])
qed

lemma emits_target: "emits quiet (resolve_target env to via spec)"
  unfolding resolve_target_def Let_def
  by (auto intro!: emits_bind emits_basic emits_fetch split: option.split)

lemma emits_run_spec: "emits (on_config env (ra_rpc_url a) program) (run_spec env a)"
  unfolding run_spec_def Let_def by (auto intro!: emits_bind emits_try emits_chain split: option.split)

lemma emits_run_options: "emits P (run_options env a)" if "\<And>w. emits P (load_wallet env w)"
  unfolding run_options_def Let_def by (auto intro!: emits_bind emits_pure that split: option.split)

lemma emits_release_after: "emits (on_config env (ra_rpc_url a) (ra_escrow_program a)) (release_after_run env a res)"
  unfolding release_after_run_def by (auto intro!: emits_bind emits_release)

lemma emits_single: "emits (on_config env (ra_rpc_url a) (ra_escrow_program a)) (run_single env a spec)"
proof -
  have k: "emits (on_config env (ra_rpc_url a) (ra_escrow_program a)) (case r of
       Inl (SubPaymentRequired q) \<Rightarrow> vret (RunQuoted q)
     | Inl e \<Rightarrow> vlift (Inl (submit_error_text env e))
     | Inr res \<Rightarrow> vbind (release_after_run env a res) (\<lambda>released. vret (RanJob res released)))" for r
    by (auto intro!: emits_bind emits_release_after split: sum.split submit_error.split)
  show ?thesis unfolding run_single_def
    by (intro emits_bind k emits_try emits_run_options emits_wallet_config quietly [OF emits_target] quietly [OF emits_connect]
        quietly [OF emits_submit])
qed

lemma emits_run: "emits (on_config env (ra_rpc_url a) (ra_escrow_program a)) (run_job env a)"
  unfolding run_job_def
  by (intro emits_bind emits_if emits_run_spec emits_basic emits_single emits_quorum) simp

text \<open>Without an escrow and without \<open>--pay\<close> a run never reaches the chain.\<close>

lemma quiet_run:
  assumes "\<not> ra_pay a" "ra_escrow a = None"
  shows "emits quiet (run_job env a)"
proof -
  have r: "emits quiet (release_after_run env a res)" for res
    using assms(2) by (auto simp: release_after_run_def ok_or_def emits_def vbind_def vlift_def vret_def)
  have k: "emits quiet (case r of
       Inl (SubPaymentRequired q) \<Rightarrow> vret (RunQuoted q)
     | Inl e \<Rightarrow> vlift (Inl (submit_error_text env e))
     | Inr res \<Rightarrow> vbind (release_after_run env a res) (\<lambda>released. vret (RanJob res released)))" for r
    by (auto intro!: emits_bind r split: sum.split submit_error.split)
  have c: "emits quiet (conclude_quorum env None inp [] n st)" for inp n st
    unfolding conclude_quorum_def Let_def report_refundable_def by (auto split: option.split)
  have "emits quiet (run_single env a spec)" for spec
    unfolding run_single_def
    by (intro emits_bind k emits_try emits_run_options emits_wallet emits_target emits_connect emits_submit)
  moreover have "emits quiet (run_spec env a)" using assms by (auto simp: run_spec_def Let_def)
  moreover have "emits quiet (run_quorum env via spec kn inp tok demo n None)" for via spec kn inp tok demo n
  proof -
    have "emits quiet (vbind (vret []) (\<lambda>stakes. vbind (vret None) (\<lambda>signer.
        vbind (vfold (ask_replica env kn inp tok demo signer stakes) (enumerate 0 targets) ([], Map.empty)) (\<lambda>st.
        conclude_quorum env None inp stakes n st))))" for targets
      by (intro emits_return emits_bind emits_vfold emits_ask_replica c)
    then show ?thesis unfolding run_quorum_def option.case
      by (rule emits_bind [OF emits_targets emits_bind [OF emits_basic(2)]])
  qed
  ultimately show ?thesis unfolding run_job_def using assms by (auto intro!: emits_bind)
qed

section \<open>The commands\<close>

lemma quiet_rpc: "emits quiet (vm_rpc env to req)"
  unfolding vm_rpc_def emits_def
proof
  fix h
  show "\<exists>cs. snd (client_rpc env ''invalid provider Node ID'' to (req h) h) = h @ cs \<and> (\<forall>c \<in> set cs. quiet c)"
    using emits_client_rpc [of env "''invalid provider Node ID''" to "req h"] unfolding emits_def by blast
qed

lemma quiet_request: "emits quiet (sdk_request env node req)"
  by (simp add: emits_def sdk_request_def)

lemma quiet_spec_on: "emits quiet (run_spec_on env to via spec tok demo)"
  unfolding run_spec_on_def by (intro emits_bind emits_target emits_connect emits_try emits_fetch_all emits_basic)

lemma quiet_vm: "emits quiet (vm_command env a)"
  by (cases a) (auto simp: cli_vm_up_def cli_vm_status_def cli_vm_down_def intro!: emits_bind quiet_rpc split: response.split)

lemma quiet_volume: "emits quiet (volume_command env a)"
  by (cases a) (auto intro!: emits_bind emits_wallet)

lemma quiet_tunnel: "emits quiet (tunnel env to port l tok)"
proof -
  have "emits quiet (client_connect env to)" for env :: "('x, 'y) net_env" and to
    by (auto simp: client_connect_def intro!: emits_bind) (simp add: emits_def)
  moreover have "emits quiet (\<lambda>h. sdk_request env node (RTunnel (vm_request env h token None) port) h)"
    for env :: "('x, 'y) net_env" and node token
    by (simp add: emits_def sdk_request_def)
  then have "emits quiet (tunnel_one env node port token)" for env :: "('x, 'y) net_env" and node token
    unfolding tunnel_one_def by (intro emits_bind) (auto split: response.split)
  ultimately show ?thesis unfolding tunnel_def by (intro emits_bind emits_basic emits_vfold emits_try)
qed

text \<open>A command without a spending configuration never reaches the chain.\<close>

lemma main_quiet:
  assumes "overrides_of cmd = None"
  shows "emits quiet (cli_main env cmd)"
proof (cases cmd)
  case (RunCmd f)
  then have "\<not> ra_pay (run_args_of f cfg)" "ra_escrow (run_args_of f cfg) = None" for cfg
    using assms by (auto simp: run_args_of_def split: if_splits)
  then show ?thesis unfolding RunCmd cli_main.simps resolved_def by (intro emits_bind emits_basic quiet_run)
next
  case (StatusCmd to jid)
  show ?thesis unfolding StatusCmd cli_main.simps job_status_def sdk_status_def
    by (intro emits_bind emits_connect quiet_request emits_basic) (auto split: response.split)
next
  case (InfoCmd to)
  show ?thesis unfolding InfoCmd cli_main.simps cli_node_info_def by (intro emits_bind emits_connect emits_info emits_basic)
next
  case (ProvidersCmd via)
  show ?thesis unfolding ProvidersCmd cli_main.simps providers_def Let_def by (intro emits_bind emits_fetch emits_basic)
next
  case (ShellCmd to tok c)
  show ?thesis unfolding ShellCmd cli_main.simps shell_start_def
    by (auto intro!: emits_bind quiet_rpc split: response.split prod.split)
next
  case (LaunchCmd f)
  show ?thesis unfolding LaunchCmd cli_main.simps launch_workload_def by (intro emits_bind quiet_spec_on emits_basic)
next
  case (DeployCmd to via path tok demo)
  show ?thesis unfolding DeployCmd cli_main.simps deploy_def by (intro emits_bind quiet_spec_on emits_basic)
next
  case (VmCmd a)
  show ?thesis unfolding VmCmd cli_main.simps by (rule quiet_vm)
next
  case (VolumeCmd a)
  show ?thesis unfolding VolumeCmd cli_main.simps by (rule quiet_volume)
next
  case (TunnelCmd to port l tok)
  show ?thesis unfolding TunnelCmd cli_main.simps by (intro emits_bind quiet_tunnel emits_basic)
qed (use assms in \<open>auto simp: resolved_def intro!: emits_bind\<close>)

lemma resolved_run: "vbind (resolved env c r p mint) f h = (x, h') \<Longrightarrow>
    h' = h \<or> (\<exists>cfg. solana_config_of (nt_var (cl_net env)) c r p mint = Inr cfg \<and> f cfg h = (x, h'))"
  by (auto simp: resolved_def vbind_def vlift_def split: sum.splits)

text \<open>The others spend with the configuration they resolve.\<close>

lemma main_config:
  assumes "cli_main env cmd h = (r, h')" and "overrides_of cmd = Some ov"
  shows "h' = h \<or> (\<exists>cfg cs. resolve_with ov (nt_var (cl_net env)) = Inr cfg \<and> h' = h @ cs \<and>
    (\<forall>e \<in> set cs. on_config (cl_net env) (sc_rpc_url cfg) (sc_escrow_program cfg) e))"
proof -
  let ?var = "nt_var (cl_net env)"
  have step: ?thesis if m: "vbind (resolved env c rpc p None) f h = (r, h')"
    and ov: "ov = \<lparr>ov_cluster = c, ov_rpc_url = rpc, ov_usdc_mint = None, ov_escrow_program = p\<rparr>"
    and e: "\<And>cfg. emits (on_config (cl_net env) (sc_rpc_url cfg) (sc_escrow_program cfg)) (f cfg)" for c rpc p f
    using resolved_run [OF m] emitsD [OF e] by (fastforce simp: solana_config_of_def ov)
  show ?thesis
  proof (cases cmd)
    case (RunCmd f)
    have e: "emits (on_config (cl_net env) (sc_rpc_url cfg) (sc_escrow_program cfg)) (run_job (cl_net env) (run_args_of f cfg))" for cfg
      using emits_run [of "cl_net env" "run_args_of f cfg"] by (simp add: run_args_of_def)
    show ?thesis using assms unfolding RunCmd
      by (intro step) (auto split: if_splits intro!: emits_bind e)
  next
    case (PayCmd to f amount timeout)
    then show ?thesis using assms by (intro step) (auto simp: cli_pay_def intro!: emits_bind emits_fund)
  next
    case (ReleaseCmd escrow f)
    then show ?thesis using assms
      by (intro step) (auto simp: cli_release_def Let_def or_default_def intro!: emits_bind emits_wallet_config emits_lift emits_chain)
  next
    case (RefundCmd escrow f)
    then show ?thesis using assms
      by (intro step) (auto simp: cli_refund_def Let_def or_default_def intro!: emits_bind emits_wallet_config emits_lift emits_chain)
  qed (use assms in auto)
qed

section \<open>The properties\<close>

text \<open>
  C15. Money goes only where the consumer configured it. Whatever the command line, the peers and the chain answer,
  a command sends nothing to the chain unless it is \<open>pay\<close>, \<open>release\<close>, \<open>refund\<close> or a \<open>run\<close> with \<open>--pay\<close> or
  \<open>--escrow\<close>; then every call goes to the endpoint resolved from its flags and the environment, and releases and
  refunds are made to the resolved program. Unless an endpoint or a cluster is named, that endpoint is the public
  one of devnet; on mainnet the program has to be named.
\<close>

theorem money_goes_where_configured:
  assumes run: "cli_main env cmd h = (r, h')" and sent: "EvChain url c \<in> set (drop (length h) h')"
  shows "\<exists>ov cfg. overrides_of cmd = Some ov \<and> resolve_with ov (nt_var (cl_net env)) = Inr cfg \<and> url = sc_rpc_url cfg \<and>
    (\<forall>p. settled_by c = Some p \<longrightarrow> parse_pubkey (nt_sol (cl_net env) url) (sc_escrow_program cfg) = Inr p) \<and>
    (asked_cluster ov (nt_var (cl_net env)) = None \<and> pick (nt_var (cl_net env)) (ov_rpc_url ov) ENV_RPC_URL = None \<longrightarrow>
       url = DEVNET_RPC_URL) \<and>
    (sc_cluster cfg = Mainnet \<longrightarrow> asked_program ov (nt_var (cl_net env)) = Some (sc_escrow_program cfg))"
proof -
  have "overrides_of cmd \<noteq> None"
  proof
    assume "overrides_of cmd = None"
    from emitsD [OF main_quiet [OF this] run] sent show False by force
  qed
  then obtain ov where ov: "overrides_of cmd = Some ov" by blast
  have "h' \<noteq> h" using sent by auto
  then obtain cfg cs where c: "resolve_with ov (nt_var (cl_net env)) = Inr cfg" "h' = h @ cs"
    "\<forall>e \<in> set cs. on_config (cl_net env) (sc_rpc_url cfg) (sc_escrow_program cfg) e"
    using main_config [OF run ov] by blast
  have u: "url = sc_rpc_url cfg" "\<forall>p. settled_by c = Some p \<longrightarrow> parse_pubkey (nt_sol (cl_net env) url) (sc_escrow_program cfg) = Inr p"
    using sent c(2,3) by auto
  have d: "asked_cluster ov (nt_var (cl_net env)) = None \<and> pick (nt_var (cl_net env)) (ov_rpc_url ov) ENV_RPC_URL = None \<longrightarrow>
      sc_rpc_url cfg = DEVNET_RPC_URL"
    using c(1) by (auto simp: resolve_with_def asked_cluster_def result_iff or_default_def)
  have m: "sc_cluster cfg = Mainnet \<longrightarrow> asked_program ov (nt_var (cl_net env)) = Some (sc_escrow_program cfg)"
    using c(1) by (auto simp: resolve_with_def asked_program_def result_iff MAINNET_ESCROW_PROGRAM_def ok_or_def split: option.splits)
  show ?thesis using ov c(1) u d m by auto
qed

definition demo_cli :: "(string, bytes) cli_env" where
  "demo_cli = \<lparr>cl_net = pay_net, cl_addr = Inr, cl_spec = (\<lambda>_. Inr default_spec), cl_content = (\<lambda>_. None),
     cl_toml = (\<lambda>_. Inl ''no reader''), cl_show_debug = (\<lambda>s. s), cl_keys = demo_keys, cl_disk = Map.empty, cl_public = (\<lambda>_. ''id''),
     cl_stty = None, cl_listen = (\<lambda>_. Inr 0), cl_unicode = ascii_only, cl_clip = '''', cl_probe = (\<lambda>_. Inl ''unreachable''),
     cl_worker = demo_worker_env, cl_clock = (\<lambda>n. n), cl_hosting = demo_hosting, cl_commands = []\<rparr>"

definition demo_flags :: chain_flags where
  "demo_flags = \<lparr>cf_wallet = None, cf_rpc_url = None, cf_cluster = None, cf_escrow_program = None\<rparr>"

lemma demo_refund:
  "\<exists>r. cli_main demo_cli (RefundCmd ''escrow'' demo_flags) [] =
     (r, [EvChain DEVNET_RPC_URL (ChRefund (replicate 32 6) (replicate 32 6))])"
proof -
  have p: "pick (\<lambda>_. None) None k = None" for k by (simp add: pick_def unless_blank_def from_env_def)
  have v: "resolved demo_cli None None None None = vret \<lparr>sc_cluster = Devnet, sc_rpc_url = DEVNET_RPC_URL,
      sc_usdc_mint = DEVNET_USDC_MINT, sc_escrow_program = DEVNET_ESCROW_PROGRAM, sc_x402_network = x402_label Devnet\<rparr>"
    by (rule ext) (simp add: resolved_def solana_config_of_def resolve_with_def demo_cli_def pay_net_def p or_default_def ok_or_def
        rbind_def vlift_def vret_def)
  have k: "parse_pubkey pay_chain s = Inr (replicate 32 6)" for s
    by (simp add: parse_pubkey_def pay_chain_def ok_or_def rbind_def)
  have c: "cl_net demo_cli = pay_net" "nt_sol pay_net u = pay_chain" for u by (simp_all add: demo_cli_def pay_net_def)
  have w: "nt_keypair pay_net hist path = Inr \<lparr>kp_pubkey = replicate 32 9, kp_sign = (\<lambda>m. m)\<rparr>" for hist path
    by (simp add: pay_net_def)
  have "\<exists>r. cli_refund pay_net ''escrow'' None DEVNET_RPC_URL (Some DEVNET_ESCROW_PROGRAM) [] =
      (r, [EvChain DEVNET_RPC_URL (ChRefund (replicate 32 6) (replicate 32 6))])"
    by (simp add: cli_refund_def Let_def c k or_default_def vbind_def vlift_def load_wallet_def on_chain_def w)
  then obtain r where "cli_refund pay_net ''escrow'' None DEVNET_RPC_URL (Some DEVNET_ESCROW_PROGRAM) [] =
      (r, [EvChain DEVNET_RPC_URL (ChRefund (replicate 32 6) (replicate 32 6))])" by blast
  then show ?thesis
    by (cases r) (simp_all add: demo_flags_def v emits_def c vbind_def vret_def)
qed

lemma money_goes_where_configured_witness:
  "\<exists>r c. cli_main demo_cli (RefundCmd ''escrow'' demo_flags) [] = (r, [EvChain DEVNET_RPC_URL c]) \<and>
     (\<exists>ov cfg. overrides_of (RefundCmd ''escrow'' demo_flags) = Some ov \<and>
       resolve_with ov (nt_var (cl_net demo_cli)) = Inr cfg \<and> sc_rpc_url cfg = DEVNET_RPC_URL)"
proof -
  obtain r where r: "cli_main demo_cli (RefundCmd ''escrow'' demo_flags) [] =
      (r, [EvChain DEVNET_RPC_URL (ChRefund (replicate 32 6) (replicate 32 6))])" using demo_refund by blast
  have "EvChain DEVNET_RPC_URL (ChRefund (replicate 32 6) (replicate 32 6)) \<in>
      set (drop (length ([] :: net_event list)) [EvChain DEVNET_RPC_URL (ChRefund (replicate 32 6) (replicate 32 6))])" by simp
  from money_goes_where_configured [OF r this] r show ?thesis by force
qed

end
