(* ===== verification/Http_Front.thy ===== *)
theory Http_Front
  imports Node_Theorems
begin

text \<open>
  The HTTP front of a provider, \<open>crates/cloudiy/src/http.rs\<close>: the routes over the operations of the node. The
  reader of request bodies and the decoding of paths belong to the web framework and are parameters; its answers
  to the wrong method and to an unknown path are the ones it documents. Cross-origin headers are left out.
\<close>

section \<open>Requests and answers\<close>

record http_request =
  hq_method :: string
  hq_path :: string
  hq_payment :: "string option"
  hq_body :: bytes

datatype http_body =
    Health i64 | Info node_info | Status status_response | Refused string | Requirements json | Done job_response | Empty

record http_answer =
  hs_code :: nat
  hs_body :: http_body
  hs_receipt :: "string option"

definition answer :: "nat \<Rightarrow> http_body \<Rightarrow> http_answer" where
  "answer code b = \<lparr>hs_code = code, hs_body = b, hs_receipt = None\<rparr>"

definition MAX_BODY_BYTES :: nat where
  "MAX_BODY_BYTES = 16 * 1024 * 1024"

text \<open>
  A rejected body has the code of the framework. \<open>hp_header\<close> says whether a text can be a header value.
\<close>

record http_env =
  hp_request :: "bytes \<Rightarrow> nat + job_request"
  hp_header :: "string \<Rightarrow> bool"
  hp_segment :: "string \<Rightarrow> string option"
  hp_started :: i64

definition health :: "http_env \<Rightarrow> i64 \<Rightarrow> http_answer" where
  "health hp now = answer 200 (Health (now - hp_started hp))"

definition submit_answer :: "http_env \<Rightarrow> string + submit_outcome \<Rightarrow> http_answer" where
  "submit_answer hp out =
     (case out of
        Inl message \<Rightarrow> answer 503 (Refused message)
      | Inr (PaymentRequired requirements) \<Rightarrow> answer 402 (Requirements requirements)
      | Inr (Completed response) \<Rightarrow>
          (answer 200 (Done response))\<lparr>hs_receipt := Option.bind (jr_receipt response) (\<lambda>r. if hp_header hp r then Some r else None)\<rparr>)"

definition submit_job ::
  "http_env \<Rightarrow> ('k, 's) node_env \<Rightarrow> app_state \<Rightarrow> http_request \<Rightarrow> i64 \<Rightarrow> nat \<Rightarrow> http_answer \<times> app_state" where
  "submit_job hp env st rq now took =
     (case hp_request hp (hq_body rq) of
        Inl code \<Rightarrow> (answer code Empty, st)
      | Inr req \<Rightarrow> (case submit_guarded env st req (hq_payment rq) now took of (out, st') \<Rightarrow> (submit_answer hp out, st')))"

definition get_status :: "app_state \<Rightarrow> string \<Rightarrow> http_answer" where
  "get_status st jid = answer 200 (Status (job_status st jid))"

text \<open>A GET route answers HEAD as well; the framework then drops the body.\<close>

definition reads :: "http_request \<Rightarrow> http_answer \<Rightarrow> http_answer" where
  "reads rq a = (if hq_method rq = ''GET'' \<or> hq_method rq = ''HEAD'' then a else answer 405 Empty)"

definition http_router ::
  "http_env \<Rightarrow> ('k, 's) node_env \<Rightarrow> app_state \<Rightarrow> http_request \<Rightarrow> i64 \<Rightarrow> nat \<Rightarrow> http_answer \<times> app_state" where
  "http_router hp env st rq now took =
     (if MAX_BODY_BYTES < length (hq_body rq) then (answer 413 Empty, st)
      else if hq_path rq = ''/health'' then (reads rq (health hp now), st)
      else if hq_path rq = ''/info'' then (reads rq (answer 200 (Info (node_info_of st))), st)
      else if hq_path rq = ''/submit'' then
        (if hq_method rq = ''POST'' then submit_job hp env st rq now took else (answer 405 Empty, st))
      else (case hp_segment hp (hq_path rq) of
              Some jid \<Rightarrow> (reads rq (get_status st jid), st)
            | None \<Rightarrow> (answer 404 Empty, st)))"

section \<open>What a submission does\<close>

lemma submit_guarded_admitted:
  assumes "submit_guarded env st req ov now took = (out, st')" and "\<forall>j. out \<noteq> Inr (PaymentRequired j)"
  shows "\<exists>x st1. authorize env st req ov now = (Inr x, st1)"
  using assms by (auto simp: submit_guarded_def split: prod.splits sum.splits option.splits)

lemma submit_guarded_refused:
  "authorize env st req ov now = (Inl body, st) \<Longrightarrow> submit_guarded env st req ov now took = (Inr (PaymentRequired body), st)"
  by (simp add: submit_guarded_def)

lemma refused_unchanged: "authorize env st req ov now = (Inl body, st') \<Longrightarrow> st' = st"
  by (auto simp: authorize_def authorize_end_def split: sum.splits)

text \<open>A node that demands payment admits a request only on an escrow the chain confirms, and remembers it.\<close>

definition confirmed :: "('k, 's) node_env \<Rightarrow> app_state \<Rightarrow> job_request \<Rightarrow> string \<Rightarrow> bool" where
  "confirmed env st req e \<longleftrightarrow> (\<exists>rpc jid amount sig expiry now.
     as_rpc_url st = Some rpc \<and> ne_uuid_parse env (rq_job_id req) = Some jid \<and>
     verify_escrow (ne_chain env) rpc e (as_escrow_program st) (as_pubkey st) (as_usdc_mint st) (as_price st) jid
       (ucast WORKLOAD_TIMEOUT_SECS + 120) sig (rq_input_data req) expiry now = Inr amount)"

lemma paid_admission:
  assumes a: "authorize env st req ov now = (Inr x, st1)" and p: "as_require_payment st"
  shows "\<exists>e. escrow_of env req ov = Some e \<and> confirmed env st req e \<and> \<not> served_contains (as_served st) e \<and>
    st1 = st\<lparr>as_served := served_insert e (as_served st)\<rparr>"
proof -
  obtain pd where pd: "authorize_begin env st req ov now = Inr pd" and e: "authorize_end env st pd = (Inr x, st1)"
    using a p by (auto simp: authorize_def authorize_begin_def Let_def split: sum.splits option.splits if_splits)
  have f: "as_rpc_url st = Some (pd_rpc pd)" "ne_uuid_parse env (rq_job_id req) = Some (pd_job pd)" "pd_input pd = rq_input_data req"
    using pd p by (auto simp: authorize_begin_def Let_def split: option.splits if_splits)
  have "confirmed env st req (pd_account pd)"
    using e f by (auto simp: authorize_end_def confirmed_def split: sum.splits)
  then show ?thesis using authorize_begin_pending [OF pd] authorize_end_admits [OF e] by blast
qed

lemma submit_served: "submit env st req settled = (out, st') \<Longrightarrow> as_served st' = as_served st"
  by (auto simp: submit_def Let_def remember_job_def)

lemma guarded_served:
  assumes "submit_guarded env st req ov now took = (out, st')" and "authorize env st req ov now = (Inr x, st1)"
  shows "as_served st' = as_served st1"
  using assms
  by (auto simp: submit_guarded_def acquire_permit_def drop_permit_def dest: submit_served split: prod.splits option.splits if_splits)

section \<open>The properties\<close>


definition demo_http :: http_env where
  "demo_http = \<lparr>hp_request = (\<lambda>_. Inr demo_request), hp_header = (\<lambda>_. True), hp_segment = (\<lambda>_. None), hp_started = 0\<rparr>"

definition demo_post :: http_request where
  "demo_post = \<lparr>hq_method = ''POST'', hq_path = ''/submit'', hq_payment = None, hq_body = []\<rparr>"


text \<open>
  The escrow is recorded before a permit is asked for: a node at capacity answers that the caller should try
  again shortly, and then refuses the escrow as used.
\<close>

lemma busy_refusal_burns_the_escrow:
  assumes "served_ok (as_served st)" and rpc: "as_rpc_url st = Some rpc" and "as_busy st = 0"
    and a: "authorize env st req ov now = (Inr x, st1)" and e: "escrow_of env req ov = Some e"
    and e': "escrow_of env req' ov' = Some e"
  shows "submit_guarded env st req ov now took = (Inl ''node busy - try again shortly'', st1) \<and>
    (\<exists>body. submit_guarded env st1 req' ov' now' took' = (Inr (PaymentRequired body), st1))"
proof
  have k: "as_busy st1 = as_busy st" using authorize_keeps [OF a] by simp
  then show "submit_guarded env st req ov now took = (Inl ''node busy - try again shortly'', st1)"
    using assms(3) a by (cases x) (simp add: submit_guarded_def acquire_permit_def)
  have r1: "as_rpc_url st1 = Some rpc" using a rpc by (auto simp: authorize_def authorize_end_def split: sum.splits)
  have s: "\<not> served_contains (as_served st) e" "as_served st1 = served_insert e (as_served st)"
    using authorize_escrow [OF a e] rpc by auto
  have "e \<notin> set (se_order (as_served st))" using assms(1) s(1) by (simp add: served_contains_def served_ok_def)
  then have "served.holds e (as_served st1)"
    using served.put_remembered [OF assms(1), of e "[]"] s(2) by (simp add: served.put_all_def MAX_SERVED_ESCROWS_def)
  moreover have "served_ok (as_served st1)" using served.ok_put [OF assms(1), of e] s(2) by simp
  ultimately have "served_contains (as_served st1) e" by (simp add: served_contains_holds)
  then have "\<exists>body. authorize env st1 req' ov' now' = (Inl body, st1)"
    using e' r1 by (auto simp: authorize_def authorize_begin_def Let_def escrow_of_def split: option.splits if_splits)
  then show "\<exists>body. submit_guarded env st1 req' ov' now' took' = (Inr (PaymentRequired body), st1)"
    using submit_guarded_refused by blast
qed

end
