(* ===== verification/Gateway_Routes.thy ===== *)
theory Gateway_Routes
  imports Gateway_Guard
begin

text \<open>
  The gateway as \<open>serve\<close> of \<open>crates/cloudiy/src/gateway.rs\<close> puts it together: its routes, the site it serves,
  the guard around all of them and the tasks beside it. The operations behind the routes are those of the other
  gateway theories; here they have a name each. Matching of paths and the answers to the wrong method and to an
  unknown path are the documented ones of the web framework.
\<close>

section \<open>Routes\<close>

datatype handler =
    GetId | GetProviders | GetMachines | EndpointProviders | GetDemand | GetQuote | GetInfo
  | RunKernel | RunEndpoint | RunEndpointStream
  | VmUpPost | VmStatusGet | VmDownPost
  | ForwardOpen | ForwardList | ForwardClose
  | VmProxy string string string
  | ModelsList | ModelsInstall | ModelsUninstall
  | NodeDashboard | SetPolicy | AutohostRun
  | ShellWs | ServeMedia string | TerminalPage | WebFile string

definition api_routes :: "(string \<times> (string \<times> handler) list) list" where
  "api_routes =
     [(''/api/id'', [(''GET'', GetId)]), (''/api/providers'', [(''GET'', GetProviders)]),
      (''/api/machines'', [(''GET'', GetMachines)]), (''/api/endpoint/providers'', [(''GET'', EndpointProviders)]),
      (''/api/demand'', [(''GET'', GetDemand)]), (''/api/quote'', [(''GET'', GetQuote)]), (''/api/info'', [(''GET'', GetInfo)]),
      (''/api/run'', [(''POST'', RunKernel)]), (''/api/endpoint'', [(''POST'', RunEndpoint)]),
      (''/api/endpoint/stream'', [(''POST'', RunEndpointStream)]), (''/api/vm/up'', [(''POST'', VmUpPost)]),
      (''/api/vm/status'', [(''GET'', VmStatusGet)]), (''/api/vm/down'', [(''POST'', VmDownPost)]),
      (''/api/vm/forward'', [(''POST'', ForwardOpen), (''GET'', ForwardList), (''DELETE'', ForwardClose)]),
      (''/api/models'', [(''GET'', ModelsList)]), (''/api/models/install'', [(''POST'', ModelsInstall)]),
      (''/api/models/uninstall'', [(''POST'', ModelsUninstall)]), (''/api/node'', [(''GET'', NodeDashboard)]),
      (''/api/node/policy'', [(''POST'', SetPolicy)]), (''/api/node/autohost/run'', [(''POST'', AutohostRun)]),
      (''/api/shell'', [(''GET'', ShellWs)]), (''/terminal'', [(''GET'', TerminalPage)])]"

text \<open>\<open>/api/vm/proxy/:to/:port/*path\<close>: two segments and a rest, none of them empty.\<close>

definition proxy_route :: "string \<Rightarrow> handler option" where
  "proxy_route path =
     Option.bind (strip_prefix ''/api/vm/proxy/'' path) (\<lambda>r.
     Option.bind (split_once ''/'' r) (\<lambda>(to, r2).
     Option.bind (split_once ''/'' r2) (\<lambda>(port, rest).
     if to \<noteq> [] \<and> port \<noteq> [] \<and> rest \<noteq> [] then Some (VmProxy to port rest) else None)))"

definition media_route :: "string \<Rightarrow> handler option" where
  "media_route path =
     Option.bind (strip_prefix ''/media/'' path) (\<lambda>name.
     if name \<noteq> [] \<and> CHR ''/'' \<notin> set name then Some (ServeMedia name) else None)"

text \<open>A route answers with a handler or with a status; a GET handler takes HEAD as well.\<close>

definition pick_method :: "(string \<times> handler) list \<Rightarrow> string \<Rightarrow> nat + handler" where
  "pick_method ms meth =
     (case map_of ms (if meth = ''HEAD'' then ''GET'' else meth) of Some h \<Rightarrow> Inr h | None \<Rightarrow> Inl 405)"

text \<open>With a directory of web files the rest is files, otherwise the terminal is the root.\<close>

definition gateway_route :: "bool \<Rightarrow> http_request \<Rightarrow> nat + handler" where
  "gateway_route web rq =
     (case map_of api_routes (hq_path rq) of
        Some ms \<Rightarrow> pick_method ms (hq_method rq)
      | None \<Rightarrow>
         (case proxy_route (hq_path rq) of
            Some h \<Rightarrow> Inr h
          | None \<Rightarrow>
             (case media_route (hq_path rq) of
                Some h \<Rightarrow> pick_method [(''GET'', h)] (hq_method rq)
              | None \<Rightarrow>
                  if web then pick_method [(''GET'', WebFile (hq_path rq))] (hq_method rq)
                  else if hq_path rq = ''/'' then pick_method [(''GET'', TerminalPage)] (hq_method rq)
                  else Inl 404)))"

text \<open>\<open>run_handler\<close> is what the handlers answer.\<close>

definition gateway_app ::
  "string list \<Rightarrow> bool \<Rightarrow> (handler \<Rightarrow> http_request \<Rightarrow> http_response) \<Rightarrow> http_request \<Rightarrow> http_response" where
  "gateway_app origins web run_handler rq =
     guard_local_origin (from_values origins) rq (\<lambda>rq.
       case gateway_route web rq of Inr h \<Rightarrow> run_handler h rq | Inl code \<Rightarrow> plain_response code '''')"

text \<open>The periodic tasks, a period in seconds each.\<close>

datatype gateway_task = AutohostEvery nat | EvictIdleEvery nat nat

definition gateway_tasks :: "gateway_task list" where
  "gateway_tasks = [AutohostEvery 300, EvictIdleEvery 300 1800]"

definition provider_hint :: "bool \<Rightarrow> string list" where
  "provider_hint running =
     (if running then [''   A local provider (`cloudiy share`) is running on this machine.'']
      else [''   No local provider running. This gateway only connects your browser'',
            ''   to the network - run `cloudiy share` here to provide compute.''])"

section \<open>What the routes can do\<close>

text \<open>The handlers that change the machine, its VMs or what it owes.\<close>

fun changes_state :: "handler \<Rightarrow> bool" where
  "changes_state RunKernel = True"
| "changes_state RunEndpoint = True"
| "changes_state RunEndpointStream = True"
| "changes_state VmUpPost = True"
| "changes_state VmDownPost = True"
| "changes_state ForwardOpen = True"
| "changes_state ForwardClose = True"
| "changes_state ModelsInstall = True"
| "changes_state ModelsUninstall = True"
| "changes_state SetPolicy = True"
| "changes_state AutohostRun = True"
| "changes_state _ = False"

lemma picked: "pick_method ms meth = Inr h \<Longrightarrow> (if meth = ''HEAD'' then ''GET'' else meth, h) \<in> set ms"
  by (auto simp: pick_method_def split: option.splits dest: map_of_SomeD)

lemma api_methods:
  "list_all (\<lambda>(p, ms). list_all (\<lambda>(meth, h). changes_state h \<longrightarrow> meth \<in> {''POST'', ''DELETE''}) ms) api_routes"
  by (simp add: api_routes_def)

lemma proxy_route_kind: "proxy_route p = Some h \<Longrightarrow> \<exists>to port rest. h = VmProxy to port rest"
  by (auto simp: proxy_route_def bind_eq_Some_conv split: if_splits)

lemma media_route_kind: "media_route p = Some h \<Longrightarrow> \<exists>name. h = ServeMedia name"
  by (auto simp: media_route_def bind_eq_Some_conv split: if_splits)

lemma changing_routes:
  assumes "gateway_route web rq = Inr h" and "changes_state h"
  shows "hq_method rq \<in> {''POST'', ''DELETE''}"
proof (cases "map_of api_routes (hq_path rq)")
  case (Some ms)
  then have "pick_method ms (hq_method rq) = Inr h" using assms(1) by (simp add: gateway_route_def)
  from picked [OF this] have i: "(if hq_method rq = ''HEAD'' then ''GET'' else hq_method rq, h) \<in> set ms" .
  have "(hq_path rq, ms) \<in> set api_routes" using Some by (rule map_of_SomeD)
  then have "list_all (\<lambda>(meth, h). changes_state h \<longrightarrow> meth \<in> {''POST'', ''DELETE''}) ms"
    using api_methods by (auto simp: list_all_iff)
  with i assms(2) show ?thesis by (auto simp: list_all_iff split: if_splits)
next
  case None
  then show ?thesis using assms
    by (auto simp: gateway_route_def dest!: picked proxy_route_kind media_route_kind split: option.splits if_splits)
qed

section \<open>The properties\<close>

text \<open>
  What a browser sends on behalf of a page: \<open>site\<close> is the origin of the page. A request that may have an
  effect names it; a GET may leave it out.
\<close>

definition browser_sends :: "string \<Rightarrow> http_request \<Rightarrow> bool" where
  "browser_sends site rq \<longleftrightarrow> header_to_str site = Some site \<and>
     (hq_method rq \<in> {''POST'', ''DELETE'', ''PUT'', ''PATCH''} \<longrightarrow> map_of (hq_headers rq) ''origin'' = Some site)"


definition evil_post :: http_request where
  "evil_post = \<lparr>hq_method = ''POST'', hq_path = ''/api/run'', hq_query = None,
     hq_headers = [(''host'', ''127.0.0.1:4600''), (''origin'', ''https://evil.example'')], hq_body = []\<rparr>"

lemma evil_site: "header_to_str ''https://evil.example'' = Some ''https://evil.example''"
  by (simp add: header_to_str_def)

lemma evil_is_foreign: "\<not> same_loopback_origin ''https://evil.example'' h"
proof -
  have "loopback_port ''https://evil.example'' = None" by code_simp
  then show ?thesis by (simp add: same_loopback_origin_def)
qed


text \<open>
  A GET of a page (an image, say) names no origin, so it passes the guard and is proxied into a VM: what the
  program in the VM does on a GET, any page can make it do.
\<close>

definition image_get :: http_request where
  "image_get = \<lparr>hq_method = ''GET'', hq_path = ''/api/vm/proxy/node/8080/delete'', hq_query = None,
     hq_headers = [(''host'', ''127.0.0.1:4600'')], hq_body = []\<rparr>"

lemma a_page_reaches_the_vm:
  "gateway_app [] web run image_get = run (VmProxy ''node'' ''8080'' ''delete'') image_get"
  and "browser_sends ''https://evil.example'' image_get"
proof -
  have h: "header_to_str ''127.0.0.1:4600'' = Some ''127.0.0.1:4600''" by (simp add: header_to_str_def)
  have l: "header_host_is_loopback ''127.0.0.1:4600''"
    by (simp add: header_host_is_loopback_def split_host_port_def strip_prefix_def starts_with_def rsplit_once_def is_loopback_host_def)
  have "list_all (\<lambda>(p, ms). length p < 30) api_routes" by (simp add: api_routes_def)
  then have "hq_path image_get \<notin> fst ` set api_routes" by (fastforce simp: list_all_iff image_get_def)
  then have m: "map_of api_routes (hq_path image_get) = None" by (simp add: map_of_eq_None_iff)
  have "proxy_route ''/api/vm/proxy/node/8080/delete'' = Some (VmProxy ''node'' ''8080'' ''delete'')" by code_simp
  then have p: "proxy_route (hq_path image_get) = Some (VmProxy ''node'' ''8080'' ''delete'')" by (simp add: image_get_def)
  have r: "gateway_route web image_get = Inr (VmProxy ''node'' ''8080'' ''delete'')"
    by (simp add: gateway_route_def m p)
  have d: "guard_decision (Option.bind (map_of (hq_headers image_get) ''host'') header_to_str)
      (Option.bind (map_of (hq_headers image_get) ''origin'') header_to_str) (from_values []) = Allow None"
    by (simp add: image_get_def h l guard_decision_def)
  show "gateway_app [] web run image_get = run (VmProxy ''node'' ''8080'' ''delete'') image_get"
    by (simp add: gateway_app_def guard_local_origin_def Let_def r d)
  show "browser_sends ''https://evil.example'' image_get" by (simp add: browser_sends_def evil_site) (simp add: image_get_def)
qed

end
