(* ===== verification/Spec2Isabelle.thy ===== *)
theory Spec2Isabelle
  imports Escrow_Theorems Scheduler Reputation Quorum Pricing Signatures Vm_Theorems Node_World P2p Gateway_Pages Directory Solana_Theorems Consumer_Theorems Mcp_Theorems Docker_Runtime Gpu_Theorems Payout Volumes Vm_Account Session_Pump Share Cli Http_Front Gateway_Routes
begin

text \<open>
  A verification development for the Cloudiy compute network: the programs of the repository as functions and
  step relations, and the theorems that make them correct. This header describes the parts of the program and how
  they meet, which theory models which source file, the conventions of the translation, the contracts between the
  components, what the lemmas show and what is left out. The numbered properties stand in the theories of the
  components they are about.

  \<^bold>\<open>The program.\<close>

  Cloudiy is a peer-to-peer market for compute. A \<^emph>\<open>provider\<close> shares a slice of its machine and runs what
  consumers ask for: GPU kernels, containers, model endpoints, and VMs with a shell, port tunnels and a web UI. A
  \<^emph>\<open>consumer\<close> finds providers through \<^emph>\<open>directories\<close>, pays into an \<^emph>\<open>escrow\<close> on Solana, sends the job over
  QUIC, and checks the signature on the result. The \<^emph>\<open>gateway\<close> is the local HTTP server a browser drives a
  node through, the \<^emph>\<open>MCP server\<close> does the same for an AI agent, the SDK and the command line for everybody else.

  The parts meet as follows, and the development follows them in this order.

  \<^item> Money. \<open>Escrow\<close> is the on-chain program. The consumer builds its transactions in \<open>Solana\<close> and
    \<open>Precompile_Ix\<close>; the provider reads the account back and judges it in \<open>Payments\<close>; \<open>Bounded_Stores\<close>
    remembers the escrows already used, so that one escrow pays for one run (\<open>Node\<close>).
  \<^item> Work. \<open>Node\<close> admits a request and reserves from \<open>Resources\<close>, runs it on a runtime (\<open>Runtimes\<close>,
    \<open>Docker_Runtime\<close>, \<open>Gpu_Kernels\<close>), on a model worker (\<open>Gateway_Workers\<close>) or in a VM (\<open>Vm\<close>), and signs
    the answer (\<open>Signing\<close>). \<open>P2p\<close>, \<open>Serving\<close> and \<open>Session_Pump\<close> are its front on QUIC, \<open>Http_Front\<close> the one
    on HTTP.
  \<^item> Market. A provider announces itself (\<open>Share\<close>, \<open>Signatures\<close>) to a \<open>Directory\<close>; consumers and
    gateways rank the announcements (\<open>Scheduler\<close>, \<open>Reputation\<close>, \<open>Gateway_Catalog\<close>), and canaries test the
    providers (\<open>Canary\<close>). Several replicas of a job are compared in \<open>Quorum\<close>.
  \<^item> Clients. \<open>Sdk\<close>, \<open>Consumer\<close>, \<open>Mcp\<close>, \<open>Cli\<close> and the gateway theories.

  \<^bold>\<open>Theories and sources.\<close>

  Foundations, no code of the repository: \<open>Rust_Prelude\<close> (integers at their width, \<open>Result\<close> as a sum with the
  \<open>?\<close> operator \<open>rbind\<close>, \<open>require\<close>; the collections \<open>result_iff\<close> and \<open>num_conv\<close>), \<open>Rust_Text\<close> and \<open>Rust_Search\<close>
  (the text functions of the standard library), \<open>Ordered_Map\<close> (\<open>BTreeMap\<close>), \<open>Float64\<close> and \<open>Float_Cast\<close>
  (\<open>f64\<close> with its rounding), \<open>Json_Value\<close>, \<open>History_Io\<close> (computations that talk to the outside world).

  \<^item> \<open>contracts/programs/cloudiy-escrow\<close>: \<open>Escrow\<close> (state, accounts, the four instructions, the reading of the
    Ed25519 precompile), \<open>Escrow_Chain\<close> (the instructions and the rest of the chain as a step relation, the
    invariant), \<open>Escrow_Theorems\<close>.
  \<^item> \<open>contracts/programs/cloudiy-vm\<close>: \<open>Vm_Account\<close>.
  \<^item> \<open>crates/protocol\<close>: \<open>Resources\<close> (\<open>resource.rs\<close>), \<open>Pricing\<close> (\<open>pricing.rs\<close>), \<open>Scheduler\<close>
    (\<open>capability.rs\<close>, \<open>workload.rs\<close>, \<open>provider.rs\<close>, \<open>identity.rs\<close>).
  \<^item> \<open>crates/scheduler\<close>: \<open>Scheduler\<close>.
  \<^item> \<open>crates/common\<close>: \<open>Signatures\<close> and \<open>Signing\<close> (\<open>sig.rs\<close>, \<open>types.rs\<close>), \<open>P2p\<close> (\<open>proto.rs\<close>), \<open>Cluster\<close>
    (\<open>cluster.rs\<close>, \<open>bootstrap.rs\<close>), \<open>Node_Keys\<close> (\<open>keys.rs\<close>), \<open>Payout\<close> (\<open>wallet.rs\<close>).
  \<^item> \<open>crates/sdk\<close>: \<open>Sdk\<close> (\<open>lib.rs\<close>), \<open>Quorum\<close> (\<open>quorum.rs\<close>).
  \<^item> \<open>crates/runtime\<close>: \<open>Runtimes\<close> (\<open>lib.rs\<close>, \<open>mock.rs\<close>), \<open>Docker_Runtime\<close> (\<open>docker.rs\<close>), \<open>Gpu_Kernels\<close> and
    \<open>Gpu_Theorems\<close> (\<open>wgsl.rs\<close>).
  \<^item> \<open>crates/cloudiy\<close>, one theory or group for each file: \<open>payments.rs\<close> \<open>Payments\<close>; \<open>core.rs\<close>
    \<open>Bounded_Stores\<close>, \<open>Node\<close>, \<open>Node_Theorems\<close>, \<open>Node_World\<close>; \<open>vm.rs\<close> and \<open>volume.rs\<close> \<open>Vm\<close>, \<open>Vm_Theorems\<close>,
    \<open>Volumes\<close>; \<open>p2p.rs\<close> \<open>P2p\<close>, \<open>Serving\<close>; \<open>session.rs\<close> \<open>Session_Pump\<close>; \<open>http.rs\<close> \<open>Http_Front\<close>; \<open>solana.rs\<close>
    \<open>Precompile_Ix\<close>, \<open>Solana\<close>, \<open>Solana_Theorems\<close>; \<open>reputation.rs\<close> \<open>Reputation\<close>; \<open>canary.rs\<close> \<open>Canary\<close>;
    \<open>directory.rs\<close> \<open>Directory\<close>; \<open>client.rs\<close> \<open>Consumer\<close>, \<open>Consumer_Theorems\<close>, \<open>Cli\<close>; \<open>mcp.rs\<close> \<open>Mcp\<close>,
    \<open>Mcp_Theorems\<close>; \<open>manifest.rs\<close> and \<open>license.rs\<close> \<open>Manifest\<close>; \<open>payout.rs\<close> \<open>Payout\<close>; \<open>discover.rs\<close> and
    \<open>share\<close> of \<open>main.rs\<close> \<open>Share\<close>; the rest of \<open>main.rs\<close> \<open>Cli\<close>; \<open>gateway.rs\<close> the theories \<open>Gateway_Guard\<close>
    (who may drive it), \<open>Gateway_Proxy\<close> (web UIs in VMs), \<open>Gateway_Catalog\<close>, \<open>Gateway_Hosting\<close>,
    \<open>Gateway_Workers\<close> (models), \<open>Gateway_Api\<close>, \<open>Gateway_Stream\<close>, \<open>Gateway_Pages\<close> (the handlers) and
    \<open>Gateway_Routes\<close> (the route table around them).

  \<^bold>\<open>Conventions.\<close>

  \<^item> A struct is a record whose fields carry a prefix, an enum a datatype with the constructors of the source,
    a w-bit integer a word of that width. Arithmetic wraps where the release build wraps and is checked or
    saturating where the source says so; a panic is \<open>None\<close> where the model can reach it.
  \<^item> A string is the list of its UTF-8 bytes. The texts in the theories are ASCII: dashes and symbols beyond it
    are replaced by a hyphen or left out, which no proof depends on. White space and case folding are the ASCII
    ones; \<open>Canary\<close>, whose code works on Unicode letters, takes the tables as a parameter.
  \<^item> A \<open>HashMap\<close> is a sorted map or a function; no result depends on the order in which Rust would list it.
  \<^item> A fallible function returns a sum, the error on the left. An error message that a caller reads or prints is
    its text; others are constructors that carry the values of the text.
  \<^item> The outside world (Docker, the network, RPC endpoints, wallets, files) is any function of the history of
    what was said to it. A computation threads that history (\<open>History_Io\<close>), so a theorem holds whatever the world
    answers, and in whatever way its answers depend on earlier calls (in \<open>Solana\<close>: on the number of the call).
  \<^item> Code that awaits is cut at its awaits. A step relation (\<open>node_step\<close>, \<open>serve_step\<close>, \<open>pump_step\<close>,
    \<open>directory_run\<close>, \<open>chain_step\<close>, \<open>manifest_step\<close>) interleaves the parts in any order; the composition of the
    parts without interleaving is also defined, and used by the transports.
  \<^item> Cryptography, codecs and frameworks (SHA-256, ed25519, base58, base64, hex, JSON, TOML, clap, axum, iroh,
    Anchor, SPL token, wgpu) are fields of parameter records. What a theorem needs of them is a named hypothesis
    (\<open>signer_ok\<close>, \<open>json_reads_back\<close> and the like), and its witness instantiates it.

  \<^bold>\<open>Contracts between the components.\<close>

  \<^item> \<open>ordered_map\<close> (\<open>Ordered_Map\<close>): what a lookup returns after an insert or a removal, interpreted on the sorted
    list \<open>bt_insert\<close>; resource vectors, prices, tallies and the directory are its clients.
  \<^item> \<open>bounded_fifo\<close> (\<open>Bounded_Stores\<close>): a store of bounded size that forgets the oldest key first, interpreted on
    the memory of served escrows, on the job store, and on its receipts.
  \<^item> \<open>scorer\<close> (\<open>Scheduler\<close>): a score is a number of the unit interval, or a NaN that the ranking counts as zero,
    interpreted on the four scorers of the crate.
  \<^item> \<open>runtime_contract\<close> (\<open>Runtimes\<close>): whatever a runtime opens it closes, interpreted on the runtime of the tests,
    on Docker and on the GPU runtime; that no workload leaves a container behind is its consequence for
    a node on Docker.

  \<^bold>\<open>What is proved.\<close>

  The properties are the numbered theorems; the lemmas before each of them describe the operations branch by
  branch (named after the operation, with \<open>_Inr\<close> for when it succeeds and what it returns then).

  \<^item> Money is safe. In every reachable world of the escrow program the vault of a job covers it; who can release
    or refund, when, and who gets how much is exact (\<open>Escrow_Theorems\<close>). The transactions of the client are
    the ones the contract accepts (\<open>Solana_Theorems\<close>). A verified escrow pays this provider for this job with time
    to spare (\<open>Payments\<close>), pays once (\<open>Node_Theorems\<close>), and over HTTP nothing runs without one (\<open>Http_Front\<close>). A
    consumer with replicas pays only the winners and forgets no escrow (\<open>Consumer_Theorems\<close>); an agent spends only
    within its caps (\<open>Mcp_Theorems\<close>); a command spends only where its flags say (\<open>Cli\<close>). Earnings go to an
    address that can receive them (\<open>Payout\<close>).
  \<^item> Tenants are confined. The arguments of every container read, option by option, as the hardened profile
    (\<open>Vm_Theorems\<close>, \<open>Docker_Runtime\<close>, \<open>Gateway_Workers\<close>); a stream reaches only the VM of its peer
    (\<open>P2p\<close>); one request into a VM is one request (\<open>Gateway_Proxy\<close>).
  \<^item> The gateway obeys its user. The guard reads its headers as the web means them, and a page of another site
    runs no handler that changes anything (\<open>Gateway_Guard\<close>, \<open>Gateway_Routes\<close>).
  \<^item> Nothing is lost or oversold under concurrency: resources and permits of a node (\<open>Node_World\<close>), streams and
    sessions (\<open>Serving\<close>), the bytes of a session (\<open>Session_Pump\<close>), containers (\<open>Docker_Runtime\<close>).
  \<^item> Messages mean one thing: signed payloads (\<open>Signatures\<close>), results (\<open>Sdk\<close>), session frames (\<open>P2p\<close>), chunked
    bodies (\<open>Gateway_Proxy\<close>).
  \<^item> Decisions are the specified ones: ranking and placement (\<open>Scheduler\<close>), majority (\<open>Quorum\<close>), demand
    (\<open>Directory\<close>, a refinement of the unbounded history), hosting within a budget (\<open>Gateway_Hosting\<close>), licenses
    (\<open>Manifest\<close>), prices (\<open>Pricing\<close>), kernels (\<open>Gpu_Theorems\<close>), the start of a provider (\<open>Share\<close>).
  \<^item> Errors the code allows are theorems too: a job whose vault got extra tokens can neither be settled nor
    refunded (\<open>Escrow_Theorems\<close>); two requests that race with one escrow both run
    (\<open>escrow_pays_twice_in_a_race\<close>); two racing starts of one VM leak a reservation (\<open>vm_start_race_leaks\<close>); an
    adopted VM may give back what it never held (\<open>adopted_vm_overfrees\<close>); a busy node burns the escrow of the
    request it refuses (\<open>busy_refusal_burns_the_escrow\<close>); any page can send GET requests into the VMs of
    the user (\<open>a_page_reaches_the_vm\<close>).

  No definition uses fuel. Loops that are not structural are functions with a termination proof: the decoder of
  chunked bodies, the reader of session frames, the splitter of streamed lines and of characters shrink their
  input, the question at the first start consumes a line of its input or ends at its end. Loops that serve for ever
  are step relations, and what holds of them holds of every reachable state.

  \<^bold>\<open>Not modelled.\<close>

  \<^item> What is only printed or logged, colours and prompts, apart from the reports a user has to act on; raw
    terminal mode; the native pseudo-terminal and the process under it, which are the environment of
    \<open>Session_Pump\<close>; the byte copy between two sockets, a function of the library.
  \<^item> Polls that only wait (a worker that is not ready, a confirmation that has not arrived) where the result does
    not depend on them; time-outs are answers of the world.
  \<^item> Failures of writing the state files of the gateway, the receipts and the reputation registry: these writes are
    taken to succeed. Keys, payout files and volumes are modelled with their failures.
  \<^item> The setup of the GPU device, the shader compiler, floating-point arithmetic on the device.
  \<^item> The settlement traits of \<open>crates/protocol/src/settlement.rs\<close>, which nothing implements or calls; crate roots;
    the two example programs for devnet, whose transactions are those of \<open>Solana\<close>.
  \<^item> The SDKs in other languages, the model worker images, the web pages and the scripts: not part of the node, and
    treated as arbitrary where the node talks to them.
\<close>

end
